(* ===== verification/Near_Prelude.thy ===== *)
theory Near_Prelude
  imports Main "HOL-Library.Char_ord" "HOL-Library.List_Lexorder" "HOL-Library.Monad_Syntax"
begin

text \<open>
  The vocabulary shared by every component: panics as values, fixed-width checked arithmetic
  (the workspace is built with \<open>overflow-checks = true\<close>, so an overflow is a panic in every
  profile), the part of the NEAR host environment the contracts read, and the effects a
  contract call schedules. A NEAR call that panics is rolled back as a whole, so an operation
  is a function into \<open>panic + \<dots>\<close>: on \<open>Inl\<close> the caller keeps the old state.

  The value types of the SDK are modelled by what they hold: \<open>NearToken\<close> is an amount of
  yoctoNEAR below \<open>2 ^ 128\<close>, \<open>U64\<close> and \<open>U128\<close> are unsigned integers, an \<open>AccountId\<close> is a string
  ordered lexicographically, a \<open>LookupMap\<close> is a partial map and a \<open>Vector\<close> is a list.
\<close>

section \<open>Panics and the result type\<close>

datatype panic =
    Msg string      \<comment> \<open>\<open>require!\<close>, \<open>assert!\<close>, \<open>expect\<close> or \<open>env::panic_str\<close> with its message\<close>
  | Overflow        \<comment> \<open>arithmetic outside the width of its type, or \<open>unwrap\<close> of a failed checked operation\<close>
  | Unwrap          \<comment> \<open>\<open>unwrap\<close> of \<open>None\<close>\<close>
  | Div_Zero        \<comment> \<open>division or remainder by zero\<close>

type_synonym 'a res = "panic + 'a"

type_synonym account_id = string

definition and_then :: "'a res \<Rightarrow> ('a \<Rightarrow> 'b res) \<Rightarrow> 'b res" where
  "and_then m f = (case m of Inl e \<Rightarrow> Inl e | Inr x \<Rightarrow> f x)"

definition require :: "bool \<Rightarrow> string \<Rightarrow> unit res" where
  "require b msg = (if b then Inr () else Inl (Msg msg))"

definition expect :: "'a option \<Rightarrow> string \<Rightarrow> 'a res" where
  "expect x msg = (case x of None \<Rightarrow> Inl (Msg msg) | Some y \<Rightarrow> Inr y)"

definition unwrap :: "'a option \<Rightarrow> 'a res" where
  "unwrap x = (case x of None \<Rightarrow> Inl Unwrap | Some y \<Rightarrow> Inr y)"

text \<open>A \<open>for\<close> loop over a collection whose body may panic.\<close>

fun for_each :: "('x \<Rightarrow> 's \<Rightarrow> 's res) \<Rightarrow> 'x list \<Rightarrow> 's \<Rightarrow> 's res" where
  "for_each f [] s = Inr s"
| "for_each f (x # xs) s = and_then (f x s) (for_each f xs)"

named_theorems res_simps "rewriting results of panicking code"

lemma and_then_Inr [simp]: "and_then (Inr x) f = f x"
  by (simp add: and_then_def)

lemma and_then_Inl [simp]: "and_then (Inl e) f = Inl e"
  by (simp add: and_then_def)

lemma and_then_eq_Inr [res_simps]:
  "and_then m f = Inr y \<longleftrightarrow> (\<exists>x. m = Inr x \<and> f x = Inr y)"
  by (cases m) auto

lemma and_then_eq_Inl [res_simps]:
  "and_then m f = Inl e \<longleftrightarrow> m = Inl e \<or> (\<exists>x. m = Inr x \<and> f x = Inl e)"
  by (cases m) auto

text \<open>As a congruence rule: evaluation computes the first step of a sequence before it looks at the next one.\<close>

lemma and_then_step: "m = m' \<Longrightarrow> and_then m f = and_then m' f"
  by simp

lemma and_then_assoc: "and_then (and_then m f) g = and_then m (\<lambda>x. and_then (f x) g)"
  by (cases m) auto

lemma require_eq_Inr [res_simps]: "require b msg = Inr u \<longleftrightarrow> b"
  by (simp add: require_def)

lemma require_eq_Inl [res_simps]: "require b msg = Inl e \<longleftrightarrow> \<not> b \<and> e = Msg msg"
  by (auto simp: require_def)

lemma require_True [simp]: "require True msg = Inr ()"
  by (simp add: require_def)

lemma require_False [simp]: "require False msg = Inl (Msg msg)"
  by (simp add: require_def)

lemma expect_eq_Inr [res_simps]: "expect x msg = Inr y \<longleftrightarrow> x = Some y"
  by (simp add: expect_def split: option.splits)

lemma expect_simps [simp]: "expect (Some y) msg = Inr y" "expect None msg = Inl (Msg msg)"
  by (simp_all add: expect_def)

lemma unwrap_eq_Inr [res_simps]: "unwrap x = Inr y \<longleftrightarrow> x = Some y"
  by (simp add: unwrap_def split: option.splits)

lemma unwrap_simps [simp]: "unwrap (Some y) = Inr y" "unwrap None = Inl Unwrap"
  by (simp_all add: unwrap_def)

lemma for_each_append:
  "for_each f (xs @ ys) s = and_then (for_each f xs s) (for_each f ys)"
proof (induction xs arbitrary: s)
  case (Cons x xs)
  then show ?case by (cases "f x s") auto
qed simp

text \<open>A loop invariant for \<open>for_each\<close>: what every successful body keeps, the loop keeps.\<close>

lemma for_each_inv:
  assumes "for_each f xs s = Inr s'" and "P s"
    and "\<And>x s s'. x \<in> set xs \<Longrightarrow> f x s = Inr s' \<Longrightarrow> P s \<Longrightarrow> P s'"
  shows "P s'"
  using assms
proof (induction xs arbitrary: s)
  case Nil
  then show ?case by simp
next
  case (Cons x xs)
  from Cons.prems(1) obtain s1 where 1: "f x s = Inr s1" and 2: "for_each f xs s1 = Inr s'"
    by (auto simp: and_then_eq_Inr)
  have "P s1"
    by (rule Cons.prems(3) [OF _ 1 Cons.prems(2)]) simp
  then show ?case
    by (rule Cons.IH [OF 2]) (auto intro: Cons.prems(3))
qed

section \<open>Checked unsigned arithmetic\<close>

text \<open>\<open>check w n\<close> is the value \<open>n\<close> of a \<open>w\<close>-bit unsigned operation, or the overflow panic.\<close>

definition check :: "nat \<Rightarrow> nat \<Rightarrow> nat res" where
  "check w n = (if n < 2 ^ w then Inr n else Inl Overflow)"

definition add_u :: "nat \<Rightarrow> nat \<Rightarrow> nat \<Rightarrow> nat res" where
  "add_u w a b = check w (a + b)"

definition mul_u :: "nat \<Rightarrow> nat \<Rightarrow> nat \<Rightarrow> nat res" where
  "mul_u w a b = check w (a * b)"

definition sub_u :: "nat \<Rightarrow> nat \<Rightarrow> nat res" where
  "sub_u a b = (if b \<le> a then Inr (a - b) else Inl Overflow)"

definition div_u :: "nat \<Rightarrow> nat \<Rightarrow> nat res" where
  "div_u a b = (if b = 0 then Inl Div_Zero else Inr (a div b))"

definition rem_u :: "nat \<Rightarrow> nat \<Rightarrow> nat res" where
  "rem_u a b = (if b = 0 then Inl Div_Zero else Inr (a mod b))"

text \<open>\<open>x >> n\<close> panics if \<open>n\<close> is not below the width of \<open>x\<close>.\<close>

definition shr_u :: "nat \<Rightarrow> nat \<Rightarrow> nat \<Rightarrow> nat res" where
  "shr_u w x n = (if n < w then Inr (drop_bit n x) else Inl Overflow)"

text \<open>\<open>IterableSet::remove\<close>.\<close>

definition iterable_remove :: "'a \<Rightarrow> 'a list \<Rightarrow> 'a list" where
  "iterable_remove x xs =
     (let before = takeWhile (\<lambda>y. y \<noteq> x) xs; rest = tl (dropWhile (\<lambda>y. y \<noteq> x) xs)
      in if rest = [] then before else before @ last rest # butlast rest)"

text \<open>Operations that saturate instead of panicking.\<close>

definition saturating_add :: "nat \<Rightarrow> nat \<Rightarrow> nat \<Rightarrow> nat" where
  "saturating_add w a b = min (a + b) (2 ^ w - 1)"

definition saturating_mul :: "nat \<Rightarrow> nat \<Rightarrow> nat \<Rightarrow> nat" where
  "saturating_mul w a b = min (a * b) (2 ^ w - 1)"

definition saturating_sub :: "nat \<Rightarrow> nat \<Rightarrow> nat" where
  "saturating_sub a b = a - b"

lemma check_eq_Inr [res_simps]: "check w n = Inr m \<longleftrightarrow> m = n \<and> n < 2 ^ w"
  by (auto simp: check_def)

lemma add_u_eq_Inr [res_simps]: "add_u w a b = Inr m \<longleftrightarrow> m = a + b \<and> a + b < 2 ^ w"
  by (auto simp: add_u_def check_def)

lemma mul_u_eq_Inr [res_simps]: "mul_u w a b = Inr m \<longleftrightarrow> m = a * b \<and> a * b < 2 ^ w"
  by (auto simp: mul_u_def check_def)

lemma sub_u_eq_Inr [res_simps]: "sub_u a b = Inr m \<longleftrightarrow> m = a - b \<and> b \<le> a"
  by (auto simp: sub_u_def)

lemma div_u_eq_Inr [res_simps]: "div_u a b = Inr m \<longleftrightarrow> m = a div b \<and> b \<noteq> 0"
  by (auto simp: div_u_def)

lemma rem_u_eq_Inr [res_simps]: "rem_u a b = Inr m \<longleftrightarrow> m = a mod b \<and> b \<noteq> 0"
  by (auto simp: rem_u_def)

lemma add_u_ok [simp]: "a + b < 2 ^ w \<Longrightarrow> add_u w a b = Inr (a + b)"
  by (simp add: add_u_eq_Inr)

lemma mul_u_ok [simp]: "a * b < 2 ^ w \<Longrightarrow> mul_u w a b = Inr (a * b)"
  by (simp add: mul_u_eq_Inr)

lemma sub_u_ok [simp]: "b \<le> a \<Longrightarrow> sub_u a b = Inr (a - b)"
  by (simp add: sub_u_eq_Inr)

lemma check_ok [simp]: "n < 2 ^ w \<Longrightarrow> check w n = Inr n"
  by (simp add: check_eq_Inr)

section \<open>Host environment and effects\<close>

text \<open>
  What \<open>near_sdk::env\<close> tells a running call. \<open>account_balance\<close> is the balance of the executing
  account (the attached deposit included).
\<close>

record env =
  block_timestamp :: nat
  block_height :: nat
  predecessor :: account_id
  signer :: account_id
  current_account :: account_id
  attached_deposit :: nat
  account_balance :: nat
  prepaid_gas :: nat
  used_gas :: nat
  epoch_height :: nat

text \<open>\<open>near_sdk::assert_one_yocto\<close>: the call must carry exactly one yoctoNEAR.\<close>

definition assert_one_yocto :: "env \<Rightarrow> unit res" where
  "assert_one_yocto e = require (attached_deposit e = 1)
     ''Requires attached deposit of exactly 1 yoctoNEAR''"

text \<open>
  The checks that the SDK's method attributes add: a method that is not \<open>payable\<close> rejects a deposit,
  and a \<open>private\<close> one can only be called by the contract itself.
\<close>

definition assert_no_deposit :: "env \<Rightarrow> string \<Rightarrow> unit res" where
  "assert_no_deposit e method = require (attached_deposit e = 0)
     (''Method '' @ method @ '' doesn't accept deposit'')"

definition assert_private :: "env \<Rightarrow> string \<Rightarrow> unit res" where
  "assert_private e method = require (predecessor e = current_account e)
     (''Method '' @ method @ '' is private'')"

lemma assert_no_deposit_Inr [res_simps]:
  "assert_no_deposit e m = Inr u \<longleftrightarrow> attached_deposit e = 0"
  by (simp add: assert_no_deposit_def require_eq_Inr)

lemma assert_private_Inr [res_simps]:
  "assert_private e m = Inr u \<longleftrightarrow> predecessor e = current_account e"
  by (simp add: assert_private_def require_eq_Inr)

lemma assert_one_yocto_Inr [res_simps]:
  "assert_one_yocto e = Inr u \<longleftrightarrow> attached_deposit e = 1"
  by (simp add: assert_one_yocto_def require_eq_Inr)

section \<open>Runs of a contract\<close>

text \<open>
  A contract receives messages one at a time. A message whose handler panics leaves the state
  as it was; otherwise the handler's state is the next one. \<open>run\<close> is the state after a list of
  messages, whatever they are and whether or not they succeed.
\<close>

definition after :: "('s \<times> 'a) res \<Rightarrow> 's \<Rightarrow> 's" where
  "after r s = (case r of Inl _ \<Rightarrow> s | Inr (s', _) \<Rightarrow> s')"

fun run :: "('m \<Rightarrow> 's \<Rightarrow> ('s \<times> 'a) res) \<Rightarrow> 'm list \<Rightarrow> 's \<Rightarrow> 's" where
  "run step [] s = s"
| "run step (m # ms) s = run step ms (after (step m s) s)"

lemma run_append: "run step (ms @ ns) s = run step ns (run step ms s)"
  by (induction ms arbitrary: s) auto

text \<open>
  The contract between the operations of a component and the users of its invariant: each
  message that the component accepts keeps the invariant. The lift to whole runs is proved
  once here.
\<close>

locale message_machine =
  fixes step :: "'m \<Rightarrow> 's \<Rightarrow> ('s \<times> 'a) res"
    and inv :: "'s \<Rightarrow> bool"
  assumes step_keeps: "inv s \<Longrightarrow> step m s = Inr (s', out) \<Longrightarrow> inv s'"
begin

lemma after_keeps: "inv s \<Longrightarrow> inv (after (step m s) s)"
  by (auto simp: after_def intro: step_keeps split: sum.splits)

lemma run_keeps: "inv s \<Longrightarrow> inv (run step ms s)"
  by (induction ms arbitrary: s) (auto intro: after_keeps)

end

text \<open>
  The same contract for a component with its environment, given as a transition relation.
\<close>

locale transition_system =
  fixes init :: "'s \<Rightarrow> bool"
    and trans :: "'s \<Rightarrow> 's \<Rightarrow> bool"
    and inv :: "'s \<Rightarrow> bool"
  assumes init_inv: "init s \<Longrightarrow> inv s"
    and trans_inv: "inv s \<Longrightarrow> trans s s' \<Longrightarrow> inv s'"
begin

lemma path_inv: "trans\<^sup>*\<^sup>* s s' \<Longrightarrow> inv s \<Longrightarrow> inv s'"
  by (induction rule: rtranclp_induct) (auto intro: trans_inv)

lemma reachable_inv: "init s \<Longrightarrow> trans\<^sup>*\<^sup>* s s' \<Longrightarrow> inv s'"
  by (rule path_inv [OF _ init_inv])

end

text \<open>
  Many values of the contracts age with the block clock and are brought up to date lazily. The
  contract of such an \<open>update\<close> is that it splits: updating at an intermediate time and then at
  the final one is the same as updating once, so it does not matter when, or how often, a
  value was touched. \<open>clock\<close> says which times the code passes, \<open>ok s x\<close> that \<open>x\<close> is a value
  last updated at time \<open>s\<close>.
\<close>

fun update_through :: "(nat \<Rightarrow> nat \<Rightarrow> 'a \<Rightarrow> 'a res) \<Rightarrow> nat \<Rightarrow> nat list \<Rightarrow> 'a \<Rightarrow> 'a res" where
  "update_through upd s [] x = Inr x"
| "update_through upd s (t # ts) x = and_then (upd s t x) (update_through upd t ts)"

locale lazily_updated =
  fixes update :: "nat \<Rightarrow> nat \<Rightarrow> 'a \<Rightarrow> 'a res"
    and clock :: "nat \<Rightarrow> bool"
    and ok :: "nat \<Rightarrow> 'a \<Rightarrow> bool"
  assumes update_same: "clock t \<Longrightarrow> ok t x \<Longrightarrow> update t t x = Inr x"
    and update_ok: "clock s \<Longrightarrow> clock t \<Longrightarrow> s \<le> t \<Longrightarrow> ok s x \<Longrightarrow> update s t x = Inr y \<Longrightarrow> ok t y"
    and update_split: "clock s \<Longrightarrow> clock t \<Longrightarrow> clock u \<Longrightarrow> s \<le> t \<Longrightarrow> t \<le> u \<Longrightarrow> ok s x
      \<Longrightarrow> update s t x = Inr y \<Longrightarrow> update t u y = update s u x"
begin

lemma update_through_last:
  assumes "sorted (s # ts)" and "\<forall>t \<in> set (s # ts). clock t" and "ok s x"
    and "update_through update s ts x = Inr y"
  shows "update s (last (s # ts)) x = Inr y"
  using assms
proof (induction ts arbitrary: s x)
  case Nil
  then show ?case by (simp add: update_same)
next
  case (Cons t ts)
  from Cons.prems obtain z where z: "update s t x = Inr z" "update_through update t ts z = Inr y"
    by (auto simp: and_then_eq_Inr)
  have "last (t # ts) \<in> set (t # ts)" by (rule last_in_set) simp
  then have l: "t \<le> last (t # ts)" "clock (last (t # ts))"
    using Cons.prems by auto
  have "ok t z" using Cons.prems z by (auto intro: update_ok)
  with Cons z have "update t (last (t # ts)) z = Inr y" by auto
  with update_split [OF _ _ l(2) _ l(1) _ z(1)] Cons.prems show ?case by auto
qed

end

end
