(* ===== verification/Balances.thy ===== *)
theory Balances
  imports Near_Prelude
begin

text \<open>
  Token amounts and their growth: \<open>common/src/utils.rs\<close>, \<open>common/src/bps.rs\<close>,
  \<open>common/src/types.rs\<close> and \<open>common/src/venear.rs\<close>. The main facts are that the growth of veNEAR
  is exact (the \<open>Rounding error\<close> guard never fires for the configuration the contract
  accepts), that it splits over time, and that the share of a balance credited to a delegate
  grows exactly as the delegate's pool does.
\<close>

section \<open>Utilities (\<open>common/src/utils.rs\<close>)\<close>

definition near_add :: "nat \<Rightarrow> nat \<Rightarrow> nat res" where
  "near_add a b = add_u 128 a b"

definition near_sub :: "nat \<Rightarrow> nat \<Rightarrow> nat res" where
  "near_sub a b = sub_u a b"

definition truncate_to_seconds :: "nat \<Rightarrow> nat" where
  "truncate_to_seconds ns = ns div 1000000000 * 1000000000"

text \<open>One milliNEAR is \<open>10 ^ 21\<close> yoctoNEAR.\<close>

abbreviation one_millinear :: nat where
  "one_millinear \<equiv> 1000000000000000000000"

definition truncate_near_to_millis :: "nat \<Rightarrow> nat" where
  "truncate_near_to_millis near = near div one_millinear * one_millinear"

section \<open>Basis points (\<open>common/src/bps.rs\<close>)\<close>

type_synonym bps = nat

definition bps_ZERO :: bps where "bps_ZERO = 0"
definition bps_FULL :: bps where "bps_FULL = 10000"
definition MAX_RAW :: nat where "MAX_RAW = 10000"

definition bps_new :: "nat \<Rightarrow> bps res" where
  "bps_new value = and_then (require (value \<le> MAX_RAW) ''bps must be in 0..=10000'')
     (\<lambda>_. Inr value)"

definition bps_try_new :: "nat \<Rightarrow> string + bps" where
  "bps_try_new value = (if MAX_RAW < value then Inl ''bps must be in 0..=10000'' else Inr value)"

definition bps_is_zero :: "bps \<Rightarrow> bool" where
  "bps_is_zero b = (b = 0)"

definition bps_is_full :: "bps \<Rightarrow> bool" where
  "bps_is_full b = (b = MAX_RAW)"

text \<open>\<open>Bps * NearToken\<close>; the product is a \<open>u128\<close> multiplication and can overflow.\<close>

definition bps_mul :: "bps \<Rightarrow> nat \<Rightarrow> nat res" where
  "bps_mul b rhs =
     (if bps_is_zero b then Inr 0
      else if bps_is_full b then Inr rhs
      else and_then (mul_u 128 rhs b) (\<lambda>p. Inr (p div MAX_RAW)))"

section \<open>Fractions and growth (\<open>common/src/types.rs\<close>, \<open>common/src/venear.rs\<close>)\<close>

record fraction =
  numerator :: nat
  denominator :: nat

definition fraction_eq :: "fraction \<Rightarrow> fraction \<Rightarrow> bool" where
  "fraction_eq f g = (numerator f * denominator g = denominator f * numerator g)"

datatype ordering = Less | Equal | Greater

definition fraction_partial_cmp :: "fraction \<Rightarrow> fraction \<Rightarrow> ordering option" where
  "fraction_partial_cmp f g =
     (let l = numerator f * denominator g; r = denominator f * numerator g
      in Some (if l < r then Less else if l = r then Equal else Greater))"

definition fraction_mul :: "fraction \<Rightarrow> nat \<Rightarrow> nat res" where
  "fraction_mul f rhs =
     and_then (mul_u 256 (numerator f) rhs) (\<lambda>n.
     and_then (div_u n (denominator f)) (check 128))"

definition u384_mul :: "fraction \<Rightarrow> nat \<Rightarrow> nat \<Rightarrow> nat res" where
  "u384_mul f a b =
     and_then (mul_u 384 (numerator f) a) (\<lambda>na.
     and_then (mul_u 384 na b) (\<lambda>n.
     and_then (rem_u n (denominator f)) (\<lambda>r.
     and_then (require (r = 0) ''Rounding error'') (\<lambda>_.
     and_then (div_u n (denominator f)) (check 128)))))"

datatype venear_growth_config = FixedRate (annual_growth_rate_ns: fraction)

definition calculate :: "venear_growth_config \<Rightarrow> nat \<Rightarrow> nat \<Rightarrow> nat \<Rightarrow> nat res" where
  "calculate cfg previous_timestamp current_timestamp balance =
     and_then (require (previous_timestamp \<le> current_timestamp) ''Timestamp must be increasing'') (\<lambda>_.
     and_then (require (current_timestamp = truncate_to_seconds current_timestamp)
       ''Current timestamp must be truncated to seconds'') (\<lambda>_.
     and_then (require (previous_timestamp = truncate_to_seconds previous_timestamp)
       ''Previous timestamp must be truncated to seconds'') (\<lambda>_.
     if previous_timestamp = current_timestamp then Inr 0
     else (case cfg of FixedRate rate \<Rightarrow>
       and_then (sub_u current_timestamp previous_timestamp) (\<lambda>growth_period_ns.
       u384_mul rate growth_period_ns (truncate_near_to_millis balance))))))"

section \<open>Balances (\<open>common/src/types.rs\<close>)\<close>

record venear_balance =
  near_balance :: nat
  extra_venear_balance :: nat

definition vb_default :: venear_balance where
  "vb_default = \<lparr>near_balance = 0, extra_venear_balance = 0\<rparr>"

definition vb_total :: "venear_balance \<Rightarrow> nat res" where
  "vb_total b = near_add (near_balance b) (extra_venear_balance b)"

definition vb_update :: "nat \<Rightarrow> nat \<Rightarrow> venear_growth_config \<Rightarrow> venear_balance \<Rightarrow> venear_balance res" where
  "vb_update previous_timestamp current_timestamp cfg b =
     and_then (calculate cfg previous_timestamp current_timestamp (near_balance b)) (\<lambda>g.
     and_then (near_add (extra_venear_balance b) g) (\<lambda>x.
     Inr (b\<lparr>extra_venear_balance := x\<rparr>)))"

definition vb_from_near :: "nat \<Rightarrow> venear_balance" where
  "vb_from_near near = \<lparr>near_balance = near, extra_venear_balance = 0\<rparr>"

definition delegation_contribution :: "venear_balance \<Rightarrow> bps \<Rightarrow> venear_balance res" where
  "delegation_contribution b bps =
     (let base = truncate_near_to_millis (near_balance b) in
      if base = 0 then Inr vb_default
      else
        and_then (bps_mul bps (near_balance b)) (\<lambda>share.
        let near = truncate_near_to_millis share in
        and_then (mul_u 256 (extra_venear_balance b) near) (\<lambda>p.
        and_then (div_u p base) (\<lambda>q.
        and_then (check 128 q) (\<lambda>extra.
        Inr \<lparr>near_balance = near, extra_venear_balance = extra\<rparr>)))))"

definition vb_add :: "venear_balance \<Rightarrow> venear_balance \<Rightarrow> venear_balance res" where
  "vb_add a b =
     and_then (near_add (near_balance a) (near_balance b)) (\<lambda>n.
     and_then (near_add (extra_venear_balance a) (extra_venear_balance b)) (\<lambda>x.
     Inr \<lparr>near_balance = n, extra_venear_balance = x\<rparr>))"

definition vb_sub :: "venear_balance \<Rightarrow> venear_balance \<Rightarrow> venear_balance res" where
  "vb_sub a b =
     and_then (near_sub (near_balance a) (near_balance b)) (\<lambda>n.
     and_then (near_sub (extra_venear_balance a) (extra_venear_balance b)) (\<lambda>x.
     Inr \<lparr>near_balance = n, extra_venear_balance = x\<rparr>))"

text \<open>\<open>PooledVenearBalance\<close> is a newtype around \<open>VenearBalance\<close>.\<close>

type_synonym pooled_venear_balance = venear_balance

definition pooled_total :: "pooled_venear_balance \<Rightarrow> nat res" where
  "pooled_total p = vb_total p"

definition pooled_update ::
  "nat \<Rightarrow> nat \<Rightarrow> venear_growth_config \<Rightarrow> pooled_venear_balance \<Rightarrow> pooled_venear_balance res" where
  "pooled_update previous_timestamp current_timestamp cfg p =
     vb_update previous_timestamp current_timestamp cfg p"

definition pooled_add :: "pooled_venear_balance \<Rightarrow> venear_balance \<Rightarrow> pooled_venear_balance res" where
  "pooled_add self other =
     (let truncated = truncate_near_to_millis (near_balance other) in
      and_then (near_sub (near_balance other) truncated) (\<lambda>difference.
      and_then (near_add (near_balance self) truncated) (\<lambda>n.
      and_then (near_add (extra_venear_balance other) difference) (\<lambda>d.
      and_then (near_add (extra_venear_balance self) d) (\<lambda>x.
      Inr \<lparr>near_balance = n, extra_venear_balance = x\<rparr>)))))"

definition pooled_sub :: "pooled_venear_balance \<Rightarrow> venear_balance \<Rightarrow> pooled_venear_balance res" where
  "pooled_sub self other =
     (let truncated = truncate_near_to_millis (near_balance other) in
      and_then (near_sub (near_balance other) truncated) (\<lambda>difference.
      and_then (near_sub (near_balance self) truncated) (\<lambda>n.
      and_then (near_add (extra_venear_balance other) difference) (\<lambda>d.
      and_then (near_sub (extra_venear_balance self) d) (\<lambda>x.
      Inr \<lparr>near_balance = n, extra_venear_balance = x\<rparr>)))))"

definition pooled_add_delegation ::
  "pooled_venear_balance \<Rightarrow> venear_balance \<Rightarrow> bps \<Rightarrow> pooled_venear_balance res" where
  "pooled_add_delegation self other bps =
     and_then (delegation_contribution other bps) (\<lambda>c. vb_add self c)"

definition pooled_sub_delegation ::
  "pooled_venear_balance \<Rightarrow> venear_balance \<Rightarrow> bps \<Rightarrow> pooled_venear_balance res" where
  "pooled_sub_delegation self other bps =
     and_then (delegation_contribution other bps) (\<lambda>c. vb_sub self c)"

section \<open>Reference values\<close>

text \<open>
  Closed forms over the natural numbers, without panics. \<open>growth\<close> is the exact veNEAR growth
  of an amount over a period; \<open>grow\<close> ages a balance; \<open>contribution\<close> is the delegate's share.
  The lemmas below show when the code returns these values.
\<close>

definition valid_ts :: "nat \<Rightarrow> bool" where
  "valid_ts t \<longleftrightarrow> t mod 1000000000 = 0 \<and> t < 2 ^ 64"

definition growth_config_ok :: "venear_growth_config \<Rightarrow> bool" where
  "growth_config_ok cfg \<longleftrightarrow> denominator (annual_growth_rate_ns cfg) = 10 ^ 30
     \<and> numerator (annual_growth_rate_ns cfg) < 2 ^ 128"

definition rate_of :: "venear_growth_config \<Rightarrow> nat" where
  "rate_of cfg = numerator (annual_growth_rate_ns cfg)"

definition growth :: "nat \<Rightarrow> nat \<Rightarrow> nat \<Rightarrow> nat \<Rightarrow> nat" where
  "growth r s t near = r * ((t - s) div 1000000000) * (near div one_millinear)"

definition grow :: "nat \<Rightarrow> nat \<Rightarrow> nat \<Rightarrow> venear_balance \<Rightarrow> venear_balance" where
  "grow r s t b = b\<lparr>extra_venear_balance := extra_venear_balance b + growth r s t (near_balance b)\<rparr>"

definition share_near :: "nat \<Rightarrow> bps \<Rightarrow> nat" where
  "share_near near p = truncate_near_to_millis (near * p div 10000)"

definition contribution :: "venear_balance \<Rightarrow> bps \<Rightarrow> venear_balance" where
  "contribution b p =
     \<lparr>near_balance = share_near (near_balance b) p,
      extra_venear_balance = extra_venear_balance b * share_near (near_balance b) p
        div truncate_near_to_millis (near_balance b)\<rparr>"

text \<open>A balance whose products with a basis-point value still fit a \<open>u128\<close>.\<close>

definition vb_ok :: "venear_balance \<Rightarrow> bool" where
  "vb_ok b \<longleftrightarrow> near_balance b * 10000 < 2 ^ 128 \<and> extra_venear_balance b < 2 ^ 128"

section \<open>Truncation and basis points\<close>

lemma near_add_eq_Inr [res_simps]: "near_add a b = Inr m \<longleftrightarrow> m = a + b \<and> a + b < 2 ^ 128"
  by (simp add: near_add_def add_u_eq_Inr)

lemma near_sub_eq_Inr [res_simps]: "near_sub a b = Inr m \<longleftrightarrow> m = a - b \<and> b \<le> a"
  by (simp add: near_sub_def sub_u_eq_Inr)

lemma truncate_millis_le [simp, intro]: "truncate_near_to_millis n \<le> n"
  by (simp add: truncate_near_to_millis_def div_times_less_eq_dividend)

lemma truncate_millis_mono: "m \<le> n \<Longrightarrow> truncate_near_to_millis m \<le> truncate_near_to_millis n"
  unfolding truncate_near_to_millis_def by (intro mult_le_mono1 div_le_mono)

lemma truncate_millis_greatest:
  assumes "one_millinear dvd m" and "m \<le> n"
  shows "m \<le> truncate_near_to_millis n"
proof -
  from assms(1) have "truncate_near_to_millis m = m"
    by (simp add: truncate_near_to_millis_def)
  with truncate_millis_mono [OF assms(2)] show ?thesis by simp
qed

lemma truncate_millis_dvd [simp]: "one_millinear dvd truncate_near_to_millis n"
  by (simp add: truncate_near_to_millis_def)

lemma truncate_millis_div [simp]: "truncate_near_to_millis n div one_millinear = n div one_millinear"
  by (simp add: truncate_near_to_millis_def)

lemma truncate_millis_eq_0: "truncate_near_to_millis n = 0 \<longleftrightarrow> n div one_millinear = 0"
  by (simp add: truncate_near_to_millis_def)

lemma valid_ts_dvd: "valid_ts t \<Longrightarrow> 1000000000 dvd t"
  by (simp add: valid_ts_def mod_0_imp_dvd)

lemma valid_ts_truncate [simp]: "valid_ts t \<Longrightarrow> truncate_to_seconds t = t"
  by (simp add: valid_ts_dvd truncate_to_seconds_def)

lemma truncate_to_seconds_valid: "t < 2 ^ 64 \<Longrightarrow> valid_ts (truncate_to_seconds t)"
  by (auto simp: valid_ts_def truncate_to_seconds_def
      intro: le_less_trans [OF div_times_less_eq_dividend])

lemma truncate_to_seconds_le: "truncate_to_seconds t \<le> t"
  by (simp add: truncate_to_seconds_def div_times_less_eq_dividend)

lemma truncate_to_seconds_mono: "s \<le> t \<Longrightarrow> truncate_to_seconds s \<le> truncate_to_seconds t"
  unfolding truncate_to_seconds_def by (intro mult_le_mono1 div_le_mono)

lemma bps_mul_value:
  assumes "bps_mul p x = Inr y"
  shows "y = x * p div 10000"
  using assms
  by (auto simp: bps_mul_def bps_is_zero_def bps_is_full_def MAX_RAW_def res_simps split: if_splits)

lemma bps_mul_ok: "x * p < 2 ^ 128 \<Longrightarrow> bps_mul p x = Inr (x * p div 10000)"
  by (auto simp: bps_mul_def bps_is_zero_def bps_is_full_def MAX_RAW_def)

section \<open>Growth\<close>

lemma growth_mult:
  assumes "valid_ts s" "valid_ts t" "s \<le> t"
  shows "r * (t - s) * truncate_near_to_millis near = growth r s t near * 10 ^ 30"
proof -
  have "(t - s) div 1000000000 * 1000000000 = t - s"
    using assms unfolding valid_ts_def
    by (metis dvd_diff_nat dvd_div_mult_self mod_0_imp_dvd)
  then have "r * (t - s) * truncate_near_to_millis near
    = r * ((t - s) div 1000000000 * 1000000000) * (near div one_millinear * one_millinear)"
    by (simp only: truncate_near_to_millis_def)
  then show ?thesis by (simp add: growth_def mult_ac)
qed

lemma growth_zero_period [simp]: "growth r t t near = 0"
  by (simp add: growth_def)

lemma growth_split:
  assumes "valid_ts s" "valid_ts t" "valid_ts u" "s \<le> t" "t \<le> u"
  shows "growth r s t near + growth r t u near = growth r s u near"
proof -
  obtain a b c where abc: "s = 1000000000 * a" "t = 1000000000 * b" "u = 1000000000 * c"
    using assms by (auto dest!: valid_ts_dvd elim!: dvdE)
  with assms have "a \<le> b" "b \<le> c" by auto
  then have "(b - a) + (c - b) = c - a" by simp
  moreover have "(t - s) div 1000000000 = b - a" "(u - t) div 1000000000 = c - b"
    "(u - s) div 1000000000 = c - a"
    by (simp_all add: abc flip: diff_mult_distrib2)
  ultimately show ?thesis
    unfolding growth_def by (simp flip: add_mult_distrib add_mult_distrib2)
qed

text \<open>
  The period is a whole number of seconds and the grown amount a whole number of milliNEAR, so
  with a denominator of \<open>10 ^ 30\<close> the remainder is always zero.
\<close>

lemma u384_mul_growth:
  assumes "growth_config_ok cfg" "valid_ts s" "valid_ts t" "s \<le> t" "near < 2 ^ 128"
  shows "u384_mul (annual_growth_rate_ns cfg) (t - s) (truncate_near_to_millis near)
    = check 128 (growth (rate_of cfg) s t near)"
proof -
  let ?r = "rate_of cfg" and ?n = "truncate_near_to_millis near"
  have r: "?r < 2 ^ 128" and d: "denominator (annual_growth_rate_ns cfg) = 10 ^ 30"
    and n: "numerator (annual_growth_rate_ns cfg) = ?r"
    using assms(1) by (simp_all add: growth_config_ok_def rate_of_def)
  have dt: "t - s < 2 ^ 64" using assms(3) by (auto simp: valid_ts_def intro: le_less_trans [OF diff_le_self])
  have "?r * (t - s) \<le> 2 ^ 128 * 2 ^ 64" using r dt by (intro mult_le_mono) auto
  then have na: "?r * (t - s) \<le> 2 ^ 192" by simp
  then have "?r * (t - s) * ?n \<le> 2 ^ 192 * 2 ^ 128"
    using assms(5) le_trans [OF truncate_millis_le] by (intro mult_le_mono) auto
  then have nab: "?r * (t - s) * ?n < 2 ^ 384" by (rule le_less_trans) simp
  have "?r * (t - s) < 2 ^ 384" by (rule le_less_trans [OF na]) simp
  with nab growth_mult [OF assms(2-4), of ?r near] show ?thesis
    by (simp add: u384_mul_def n d rem_u_def div_u_def)
qed

lemma calculate_eq:
  assumes "growth_config_ok cfg" "valid_ts s" "valid_ts t" "near < 2 ^ 128"
  shows "calculate cfg s t near =
    (if s \<le> t then check 128 (growth (rate_of cfg) s t near)
     else Inl (Msg ''Timestamp must be increasing''))"
proof (cases "s \<le> t")
  case True
  have "s = t \<Longrightarrow> check 128 (growth (rate_of cfg) s t near) = Inr 0" by simp
  with u384_mul_growth [OF assms(1-3) True assms(4)] True assms show ?thesis
    by (cases cfg) (auto simp: calculate_def)
qed (simp add: calculate_def)

lemma vb_update_eq_Inr:
  assumes "growth_config_ok cfg" "valid_ts s" "valid_ts t" "near_balance b < 2 ^ 128"
  shows "vb_update s t cfg b = Inr b' \<longleftrightarrow>
    s \<le> t \<and> extra_venear_balance b + growth (rate_of cfg) s t (near_balance b) < 2 ^ 128
      \<and> b' = grow (rate_of cfg) s t b"
  using calculate_eq [OF assms] by (auto simp: vb_update_def res_simps grow_def)

lemma vb_update_eq_Inl:
  assumes "growth_config_ok cfg" "valid_ts s" "valid_ts t" "near_balance b < 2 ^ 128" "s \<le> t"
  shows "vb_update s t cfg b = Inl e \<longleftrightarrow>
    2 ^ 128 \<le> extra_venear_balance b + growth (rate_of cfg) s t (near_balance b) \<and> e = Overflow"
  using calculate_eq [OF assms(1-4)] assms(5)
  by (auto simp: vb_update_def and_then_eq_Inl check_def near_add_def add_u_def)

lemma grow_near [simp]: "near_balance (grow r s t b) = near_balance b"
  by (simp add: grow_def)

lemma grow_extra [simp]:
  "extra_venear_balance (grow r s t b) = extra_venear_balance b + growth r s t (near_balance b)"
  by (simp add: grow_def)

lemma grow_same [simp]: "grow r t t b = b"
  by (simp add: grow_def)

lemma grow_split:
  assumes "valid_ts s" "valid_ts t" "valid_ts u" "s \<le> t" "t \<le> u"
  shows "grow r t u (grow r s t b) = grow r s u b"
  using growth_split [OF assms, of r "near_balance b"] by (simp add: grow_def add.assoc)

interpretation vb: lazily_updated "\<lambda>s t. vb_update s t cfg" valid_ts
  "\<lambda>_ b. growth_config_ok cfg \<and> near_balance b < 2 ^ 128 \<and> extra_venear_balance b < 2 ^ 128" for cfg
proof
  fix s t u x y
  assume t: "valid_ts s" "valid_ts t" "valid_ts u" "s \<le> t" "t \<le> u"
    and ok: "growth_config_ok cfg \<and> near_balance x < 2 ^ 128 \<and> extra_venear_balance x < 2 ^ 128"
    and st: "vb_update s t cfg x = Inr y"
  then have y: "y = grow (rate_of cfg) s t x"
    by (simp add: vb_update_eq_Inr)
  have sum: "extra_venear_balance y + growth (rate_of cfg) t u (near_balance y)
    = extra_venear_balance x + growth (rate_of cfg) s u (near_balance x)"
    using growth_split [OF t, of "rate_of cfg" "near_balance x"] by (simp add: y add.assoc)
  show "vb_update t u cfg y = vb_update s u cfg x"
  proof (cases "vb_update s u cfg x")
    case (Inl e)
    then have "2 ^ 128 \<le> extra_venear_balance y + growth (rate_of cfg) t u (near_balance y) \<and> e = Overflow"
      unfolding sum using vb_update_eq_Inl [of cfg s u x e] ok t by simp
    then have "vb_update t u cfg y = Inl e"
      using vb_update_eq_Inl [of cfg t u y e] ok t by (simp add: y)
    with Inl show ?thesis by simp
  next
    case (Inr z)
    then have "extra_venear_balance y + growth (rate_of cfg) t u (near_balance y) < 2 ^ 128
      \<and> z = grow (rate_of cfg) s u x"
      unfolding sum using vb_update_eq_Inr [of cfg s u x z] ok t by simp
    then have "vb_update t u cfg y = Inr z"
      using vb_update_eq_Inr [of cfg t u y z] ok t by (simp add: y grow_split)
    with Inr show ?thesis by simp
  qed
qed (auto simp: vb_update_eq_Inr)

section \<open>The delegate's share\<close>

lemma share_near_le: "p \<le> 10000 \<Longrightarrow> share_near near p \<le> truncate_near_to_millis near"
  unfolding share_near_def
  by (rule truncate_millis_mono) (metis div_le_mono div_mult_self_is_m mult_le_mono2 zero_less_numeral)

lemma share_near_dvd [simp]: "one_millinear dvd share_near near p"
  by (simp add: share_near_def)

lemma vb_total_eq_Inr [res_simps]:
  "vb_total b = Inr n \<longleftrightarrow> n = near_balance b + extra_venear_balance b
     \<and> near_balance b + extra_venear_balance b < 2 ^ 128"
  by (simp add: vb_total_def near_add_eq_Inr)

lemma vb_add_eq_Inr [res_simps]:
  "vb_add a b = Inr c \<longleftrightarrow>
     near_balance a + near_balance b < 2 ^ 128
     \<and> extra_venear_balance a + extra_venear_balance b < 2 ^ 128
     \<and> c = \<lparr>near_balance = near_balance a + near_balance b,
            extra_venear_balance = extra_venear_balance a + extra_venear_balance b\<rparr>"
  by (auto simp: vb_add_def res_simps)

lemma vb_sub_eq_Inr [res_simps]:
  "vb_sub a b = Inr c \<longleftrightarrow>
     near_balance b \<le> near_balance a \<and> extra_venear_balance b \<le> extra_venear_balance a
     \<and> c = \<lparr>near_balance = near_balance a - near_balance b,
            extra_venear_balance = extra_venear_balance a - extra_venear_balance b\<rparr>"
  by (auto simp: vb_sub_def res_simps)

lemma contribution_near [simp]: "near_balance (contribution b p) = share_near (near_balance b) p"
  by (simp add: contribution_def)

lemma contribution_no_millis:
  assumes "truncate_near_to_millis (near_balance b) = 0" "p \<le> 10000"
  shows "contribution b p = vb_default"
  using share_near_le [OF assms(2), of "near_balance b"] assms(1)
  by (simp add: contribution_def vb_default_def)

lemma delegation_contribution_value:
  assumes "delegation_contribution b p = Inr c" "p \<le> 10000"
  shows "c = contribution b p"
proof (cases "truncate_near_to_millis (near_balance b) = 0")
  case True
  with assms contribution_no_millis show ?thesis
    by (simp add: delegation_contribution_def)
next
  case False
  with assms(1) show ?thesis
    by (auto simp: delegation_contribution_def Let_def res_simps contribution_def share_near_def
        dest!: bps_mul_value)
qed

lemma share_quotient_le:
  assumes "p \<le> 10000"
  shows "x * share_near near p div truncate_near_to_millis near \<le> (x::nat)"
proof (cases "truncate_near_to_millis near = 0")
  case False
  have "x * share_near near p \<le> x * truncate_near_to_millis near"
    using share_near_le [OF assms] by simp
  then have "x * share_near near p div truncate_near_to_millis near
    \<le> x * truncate_near_to_millis near div truncate_near_to_millis near"
    by (rule div_le_mono)
  with False show ?thesis by simp
qed simp

lemma contribution_le:
  assumes "p \<le> 10000"
  shows "near_balance (contribution b p) \<le> near_balance b"
    and "extra_venear_balance (contribution b p) \<le> extra_venear_balance b"
  using share_near_le [OF assms, of "near_balance b"] share_quotient_le [OF assms]
    le_trans [OF _ truncate_millis_le]
  by (auto simp: contribution_def)

lemma delegation_contribution_ok:
  assumes "vb_ok b" "p \<le> 10000"
  shows "delegation_contribution b p = Inr (contribution b p)"
proof (cases "truncate_near_to_millis (near_balance b) = 0")
  case True
  with assms contribution_no_millis show ?thesis
    by (simp add: delegation_contribution_def)
next
  case False
  let ?n = "near_balance b" and ?x = "extra_venear_balance b"
  have "?n * p \<le> ?n * 10000" using assms(2) by simp
  with assms(1) have m: "?n * p < 2 ^ 128" unfolding vb_ok_def by linarith
  have "?x * share_near ?n p \<le> 2 ^ 128 * 2 ^ 127"
  proof (rule mult_le_mono)
    show "?x \<le> 2 ^ 128" using assms(1) by (simp add: vb_ok_def)
    have "share_near ?n p \<le> ?n" using share_near_le [OF assms(2), of ?n] le_trans by blast
    then show "share_near ?n p \<le> 2 ^ 127" using assms(1) by (simp add: vb_ok_def)
  qed
  then have "?x * share_near ?n p < 2 ^ 256" by (rule le_less_trans) simp
  moreover have "?x * share_near ?n p div truncate_near_to_millis ?n < 2 ^ 128"
    using share_quotient_le [OF assms(2), of ?x ?n] assms(1) unfolding vb_ok_def by linarith
  ultimately show ?thesis
    using False bps_mul_ok [OF m]
    by (simp add: delegation_contribution_def Let_def contribution_def share_near_def div_u_def)
qed

text \<open>
  Growth moves with the share: the grown owner's share is the grown share. This is what makes
  the recomputed debit of a delegation equal to the credit plus its growth.
\<close>

lemma contribution_grow:
  assumes "p \<le> 10000"
  shows "contribution (grow r s t b) p = grow r s t (contribution b p)"
proof -
  let ?n = "near_balance b" and ?x = "extra_venear_balance b"
  define m where "m = ?n div one_millinear"
  define j where "j = share_near ?n p div one_millinear"
  define k where "k = r * ((t - s) div 1000000000)"
  have base: "truncate_near_to_millis ?n = m * one_millinear"
    by (simp add: m_def truncate_near_to_millis_def)
  have near: "share_near ?n p = j * one_millinear"
    by (simp add: j_def share_near_def truncate_near_to_millis_def)
  have g: "growth r s t ?n = k * m" "growth r s t (share_near ?n p) = k * j"
    by (simp_all add: growth_def k_def m_def j_def mult.assoc)
  have "(?x + k * m) * share_near ?n p div truncate_near_to_millis ?n
    = ?x * share_near ?n p div truncate_near_to_millis ?n + k * j"
  proof (cases "m = 0")
    case True
    then have "share_near ?n p = 0"
      using share_near_le [OF assms, of ?n] base by simp
    with near True show ?thesis by simp
  next
    case False
    have "(?x + k * m) * share_near ?n p
      = ?x * share_near ?n p + (k * j) * truncate_near_to_millis ?n"
      unfolding near base by (simp add: algebra_simps)
    with False base show ?thesis by simp
  qed
  with g show ?thesis by (simp add: contribution_def grow_def)
qed

lemma sum_list_div_le: "(\<Sum>p\<leftarrow>ps. f p div (c::nat)) \<le> (\<Sum>p\<leftarrow>ps. f p) div c"
proof (induction ps)
  case (Cons p ps)
  then have "(\<Sum>p\<leftarrow>p # ps. f p div c) \<le> f p div c + (\<Sum>p\<leftarrow>ps. f p) div c" by simp
  also have "\<dots> \<le> (f p + (\<Sum>p\<leftarrow>ps. f p)) div c" by (simp only: div_add1_eq [of "f p"] le_add1)
  finally show ?case by simp
qed simp

lemma sum_share_near:
  assumes "sum_list ps \<le> 10000"
  shows "(\<Sum>p\<leftarrow>ps. share_near near p) \<le> truncate_near_to_millis near"
proof (rule truncate_millis_greatest)
  show "one_millinear dvd (\<Sum>p\<leftarrow>ps. share_near near p)"
    by (induction ps) auto
  have "(\<Sum>p\<leftarrow>ps. share_near near p) \<le> (\<Sum>p\<leftarrow>ps. near * p div 10000)"
    by (rule sum_list_mono) (simp add: share_near_def)
  also have "\<dots> \<le> (\<Sum>p\<leftarrow>ps. near * p) div 10000"
    by (rule sum_list_div_le)
  also have "(\<Sum>p\<leftarrow>ps. near * p) = near * sum_list ps"
    by (simp add: sum_list_const_mult)
  also have "near * sum_list ps div 10000 \<le> near * 10000 div 10000"
    using assms by (intro div_le_mono) simp
  finally show "(\<Sum>p\<leftarrow>ps. share_near near p) \<le> near" by simp
qed

text \<open>Outgoing shares of at most \<open>10000\<close> basis points never exceed the balance they are taken from.\<close>

lemma sum_contribution_le:
  assumes "sum_list ps \<le> 10000"
  shows "(\<Sum>p\<leftarrow>ps. near_balance (contribution b p)) \<le> near_balance b"
    and "(\<Sum>p\<leftarrow>ps. extra_venear_balance (contribution b p)) \<le> extra_venear_balance b"
proof -
  let ?n = "near_balance b" and ?x = "extra_venear_balance b"
  let ?base = "truncate_near_to_millis ?n"
  have s: "(\<Sum>p\<leftarrow>ps. share_near ?n p) \<le> ?base" by (rule sum_share_near [OF assms])
  then show "(\<Sum>p\<leftarrow>ps. near_balance (contribution b p)) \<le> ?n"
    using le_trans [OF _ truncate_millis_le] by simp
  have "(\<Sum>p\<leftarrow>ps. extra_venear_balance (contribution b p))
    \<le> (\<Sum>p\<leftarrow>ps. ?x * share_near ?n p) div ?base"
    by (simp add: contribution_def sum_list_div_le)
  also have "(\<Sum>p\<leftarrow>ps. ?x * share_near ?n p) = ?x * (\<Sum>p\<leftarrow>ps. share_near ?n p)"
    by (simp add: sum_list_const_mult)
  also have "\<dots> div ?base \<le> ?x * ?base div ?base"
    using s by (intro div_le_mono) simp
  also have "\<dots> \<le> ?x" by simp
  finally show "(\<Sum>p\<leftarrow>ps. extra_venear_balance (contribution b p)) \<le> ?x" .
qed

section \<open>Pools\<close>

lemma pooled_add_eq_Inr [res_simps]:
  "pooled_add q b = Inr q' \<longleftrightarrow>
     near_balance q + truncate_near_to_millis (near_balance b) < 2 ^ 128
     \<and> extra_venear_balance q + (extra_venear_balance b + (near_balance b - truncate_near_to_millis (near_balance b))) < 2 ^ 128
     \<and> q' = \<lparr>near_balance = near_balance q + truncate_near_to_millis (near_balance b),
            extra_venear_balance = extra_venear_balance q
              + (extra_venear_balance b + (near_balance b - truncate_near_to_millis (near_balance b)))\<rparr>"
  by (auto simp: pooled_add_def Let_def res_simps)

lemma pooled_sub_eq_Inr [res_simps]:
  "pooled_sub q b = Inr q' \<longleftrightarrow>
     truncate_near_to_millis (near_balance b) \<le> near_balance q
     \<and> extra_venear_balance b + (near_balance b - truncate_near_to_millis (near_balance b)) < 2 ^ 128
     \<and> extra_venear_balance b + (near_balance b - truncate_near_to_millis (near_balance b)) \<le> extra_venear_balance q
     \<and> q' = \<lparr>near_balance = near_balance q - truncate_near_to_millis (near_balance b),
            extra_venear_balance = extra_venear_balance q
              - (extra_venear_balance b + (near_balance b - truncate_near_to_millis (near_balance b)))\<rparr>"
  by (auto simp: pooled_sub_def Let_def res_simps)

lemma growth_add_near:
  assumes "one_millinear dvd m"
  shows "growth r s t (n + m) = growth r s t n + growth r s t m"
proof -
  have "(n + m) div one_millinear = n div one_millinear + m div one_millinear"
    by (rule div_plus_div_distrib_dvd_right [OF assms])
  then show ?thesis by (simp add: growth_def distrib_left)
qed

section \<open>Properties of the balance arithmetic\<close>

text \<open>
  C18. With the denominator the contract's constructor insists on (\<open>10 ^ 30\<close>) and timestamps in
  whole seconds, \<open>calculate\<close> returns exactly rate times seconds times milliNEAR: the
  \<open>Rounding error\<close> guard never fires, and the only possible panic is a result beyond \<open>u128\<close>.
\<close>

theorem calculate_exact:
  assumes "growth_config_ok cfg" "valid_ts s" "valid_ts t" "s \<le> t" "near < 2 ^ 128"
  shows "calculate cfg s t near =
    (let g = numerator (annual_growth_rate_ns cfg) * ((t - s) div 1000000000) * (near div 10 ^ 21)
     in if g < 2 ^ 128 then Inr g else Inl Overflow)"
  using calculate_eq [OF assms(1-3,5)] assms(4)
  by (simp add: check_def growth_def rate_of_def Let_def)

definition sample_config :: venear_growth_config where
  "sample_config = FixedRate \<lparr>numerator = 1902587519026, denominator = 10 ^ 30\<rparr>"

lemma sample_config_ok [simp]: "growth_config_ok sample_config"
  by (simp add: sample_config_def growth_config_ok_def)

theorem calculate_exact_witness:
  "calculate sample_config 0 (86400 * 10 ^ 9) (5 * 10 ^ 24 + 7) = Inr (1902587519026 * 86400 * 5000)"
  using calculate_exact [of sample_config 0 "86400 * 10 ^ 9" "5 * 10 ^ 24 + 7"]
  by (simp add: sample_config_def growth_config_ok_def valid_ts_def)

text \<open>
  C19. Updating a balance through any increasing list of block times gives the same balance as one
  update straight to the last time: accounts that are touched often and accounts that are never
  touched accrue the same veNEAR.
\<close>

theorem vb_update_any_schedule:
  assumes "growth_config_ok cfg" "near_balance b < 2 ^ 128" "extra_venear_balance b < 2 ^ 128"
    and "sorted (s # ts)" "\<forall>t \<in> set (s # ts). valid_ts t"
    and "update_through (\<lambda>s t. vb_update s t cfg) s ts b = Inr b'"
  shows "vb_update s (last (s # ts)) cfg b = Inr b'"
  using vb.update_through_last [OF assms(4,5) _ assms(6)] assms(1-3) by simp

theorem vb_update_any_schedule_witness:
  "vb_update 0 5000000000 sample_config (vb_from_near (3 * 10 ^ 24))
    = Inr \<lparr>near_balance = 3 * 10 ^ 24, extra_venear_balance = 1902587519026 * 5 * 3000\<rparr>"
proof -
  have u: "update_through (\<lambda>s t. vb_update s t sample_config) 0 [2000000000, 5000000000] (vb_from_near (3 * 10 ^ 24))
    = Inr \<lparr>near_balance = 3 * 10 ^ 24, extra_venear_balance = 1902587519026 * 5 * 3000\<rparr>"
    by (simp add: vb_update_def calculate_def truncate_to_seconds_def u384_mul_def sample_config_def
        truncate_near_to_millis_def rem_u_def div_u_def near_add_def vb_from_near_def)
  show ?thesis
    using vb_update_any_schedule [OF sample_config_ok _ _ _ _ u] by (simp add: vb_from_near_def valid_ts_def)
qed

text \<open>
  The share of a balance credited to a delegate grows exactly with the balance: recomputing
  \<open>delegation_contribution\<close> after any growth of the owner gives the earlier contribution plus the
  growth of that contribution.
\<close>

theorem delegation_contribution_grows_exactly:
  assumes "growth_config_ok cfg" "valid_ts s" "valid_ts t" "p \<le> 10000" "near_balance b < 2 ^ 128"
    and "delegation_contribution b p = Inr c" and "vb_update s t cfg b = Inr b'" and "vb_ok b'"
  shows "\<exists>c'. vb_update s t cfg c = Inr c' \<and> delegation_contribution b' p = Inr c'"
proof -
  from assms(7) have st: "s \<le> t" and b': "b' = grow (rate_of cfg) s t b"
    by (simp_all add: vb_update_eq_Inr [OF assms(1-3,5)])
  from assms(6) have c: "c = contribution b p"
    by (rule delegation_contribution_value [OF _ assms(4)])
  have n: "near_balance c < 2 ^ 128"
    using contribution_le(1) [OF assms(4), of b] assms(5) by (simp add: c)
  have g: "grow (rate_of cfg) s t c = contribution b' p"
    by (simp add: c b' contribution_grow [OF assms(4)])
  then have "extra_venear_balance c + growth (rate_of cfg) s t (near_balance c)
    = extra_venear_balance (contribution b' p)" by (metis grow_extra)
  also have "\<dots> < 2 ^ 128"
    using contribution_le(2) [OF assms(4), of b'] assms(8) by (simp add: vb_ok_def)
  finally have "vb_update s t cfg c = Inr (contribution b' p)"
    by (simp add: vb_update_eq_Inr [OF assms(1-3) n] st g)
  with delegation_contribution_ok [OF assms(8,4)] show ?thesis by blast
qed

text \<open>The balance and share of the regression test that mirrors the mainnet transaction.\<close>

definition sample_balance :: venear_balance where
  "sample_balance = \<lparr>near_balance = 4100 * 10 ^ 21, extra_venear_balance = 50000000000000000000000\<rparr>"

lemmas balance_eval = delegation_contribution_def bps_mul_def bps_is_zero_def bps_is_full_def
  MAX_RAW_def truncate_near_to_millis_def div_u_def rem_u_def Let_def vb_update_def calculate_def
  truncate_to_seconds_def u384_mul_def near_add_def near_sub_def vb_default_def

lemma sample_contribution:
  "delegation_contribution sample_balance 2512
    = Inr \<lparr>near_balance = 1029 * 10 ^ 21, extra_venear_balance = 12548780487804878048780\<rparr>"
  by (simp add: sample_balance_def balance_eval)

lemma sample_growth:
  "vb_update 0 (27 * 86400 * 10 ^ 9) sample_config sample_balance
    = Inr \<lparr>near_balance = 4100 * 10 ^ 21,
          extra_venear_balance = 50000000000000000000000 + 1902587519026 * 27 * 86400 * 4100\<rparr>"
  by (simp add: sample_balance_def sample_config_def balance_eval)

theorem delegation_contribution_grows_exactly_witness:
  "\<exists>c'. vb_update 0 (27 * 86400 * 10 ^ 9) sample_config
      \<lparr>near_balance = 1029 * 10 ^ 21, extra_venear_balance = 12548780487804878048780\<rparr> = Inr c'
    \<and> delegation_contribution \<lparr>near_balance = 4100 * 10 ^ 21,
        extra_venear_balance = 50000000000000000000000 + 1902587519026 * 27 * 86400 * 4100\<rparr> 2512 = Inr c'"
  by (rule delegation_contribution_grows_exactly
      [OF sample_config_ok _ _ _ _ sample_contribution sample_growth])
    (simp_all add: valid_ts_def sample_balance_def vb_ok_def)

text \<open>
  Delegations clear exactly: credit a delegate's pool with a share, let pool and owner grow
  over any period, and the debit computed from the grown owner brings the pool to precisely what
  it would have been without the delegation. In particular the subtraction cannot underflow.
\<close>

theorem delegation_clears_after_growth:
  assumes "growth_config_ok cfg" "valid_ts s" "valid_ts t" "p \<le> 10000"
    and "near_balance b < 2 ^ 128" "near_balance q < 2 ^ 128"
    and "pooled_add_delegation q b p = Inr q1" "pooled_update s t cfg q1 = Inr q2"
    and "vb_update s t cfg b = Inr b'" "vb_ok b'"
  shows "\<exists>q'. pooled_update s t cfg q = Inr q' \<and> pooled_sub_delegation q2 b' p = Inr q'"
proof -
  let ?r = "rate_of cfg"
  from assms(7) obtain c where c: "delegation_contribution b p = Inr c" "vb_add q c = Inr q1"
    by (auto simp: pooled_add_delegation_def res_simps)
  have cv: "c = contribution b p" by (rule delegation_contribution_value [OF c(1) assms(4)])
  from c(2) have q1: "near_balance q1 = near_balance q + near_balance c" "near_balance q1 < 2 ^ 128"
      "extra_venear_balance q1 = extra_venear_balance q + extra_venear_balance c"
    by (auto simp: vb_add_eq_Inr)
  from assms(8) have st: "s \<le> t" and q2: "q2 = grow ?r s t q1"
    and ub: "extra_venear_balance q1 + growth ?r s t (near_balance q1) < 2 ^ 128"
    by (simp_all add: pooled_update_def vb_update_eq_Inr [OF assms(1-3) q1(2)])
  have b': "b' = grow ?r s t b" using assms(9) by (simp add: vb_update_eq_Inr [OF assms(1-3,5)])
  have c': "delegation_contribution b' p = Inr (grow ?r s t c)"
    using delegation_contribution_ok [OF assms(10,4)] by (simp add: b' cv contribution_grow [OF assms(4)])
  have g: "growth ?r s t (near_balance q + near_balance c) = growth ?r s t (near_balance q) + growth ?r s t (near_balance c)"
    by (rule growth_add_near) (simp add: cv)
  have "pooled_update s t cfg q = Inr (grow ?r s t q)"
    using ub by (simp add: pooled_update_def vb_update_eq_Inr [OF assms(1-3,6)] st q1 g)
  moreover have "pooled_sub_delegation q2 b' p = Inr (grow ?r s t q)"
    by (cases q) (use g in \<open>simp add: pooled_sub_delegation_def c' vb_sub_eq_Inr q2 q1 grow_def\<close>)
  ultimately show ?thesis by blast
qed

theorem delegation_clears_after_growth_witness:
  "\<exists>q'. pooled_update 0 (27 * 86400 * 10 ^ 9) sample_config vb_default = Inr q'
    \<and> pooled_sub_delegation \<lparr>near_balance = 1029 * 10 ^ 21,
          extra_venear_balance = 12548780487804878048780 + 1902587519026 * 27 * 86400 * 1029\<rparr>
        \<lparr>near_balance = 4100 * 10 ^ 21,
          extra_venear_balance = 50000000000000000000000 + 1902587519026 * 27 * 86400 * 4100\<rparr> 2512 = Inr q'"
proof (rule delegation_clears_after_growth [OF sample_config_ok _ _ _ _ _ _ _ sample_growth])
  show "pooled_add_delegation vb_default sample_balance 2512
    = Inr \<lparr>near_balance = 1029 * 10 ^ 21, extra_venear_balance = 12548780487804878048780\<rparr>"
    by (simp add: pooled_add_delegation_def sample_contribution vb_add_def near_add_def vb_default_def)
  show "pooled_update 0 (27 * 86400 * 10 ^ 9) sample_config
      \<lparr>near_balance = 1029 * 10 ^ 21, extra_venear_balance = 12548780487804878048780\<rparr>
    = Inr \<lparr>near_balance = 1029 * 10 ^ 21,
          extra_venear_balance = 12548780487804878048780 + 1902587519026 * 27 * 86400 * 1029\<rparr>"
    by (simp add: pooled_update_def sample_config_def balance_eval)
qed (simp_all add: valid_ts_def sample_balance_def vb_ok_def vb_default_def)

text \<open>
  \<open>pooled_add\<close> moves the whole value of a balance into the pool (the sub-milliNEAR remainder
  of its NEAR goes to the extra veNEAR), keeps the pool's NEAR in whole milliNEAR, and
  \<open>pooled_sub\<close> takes exactly the same balance out again.
\<close>

theorem pooled_add_conserves_and_reverts:
  assumes "pooled_add q b = Inr q'"
  shows "near_balance q' + extra_venear_balance q'
      = near_balance q + extra_venear_balance q + near_balance b + extra_venear_balance b
    \<and> (one_millinear dvd near_balance q \<longrightarrow> one_millinear dvd near_balance q')
    \<and> pooled_sub q' b = Inr q"
proof (intro conjI impI)
  let ?tr = "truncate_near_to_millis (near_balance b)"
  from assms have q': "near_balance q' = near_balance q + ?tr"
      "extra_venear_balance q' = extra_venear_balance q + (extra_venear_balance b + (near_balance b - ?tr))"
      "extra_venear_balance b + (near_balance b - ?tr) < 2 ^ 128"
    by (auto simp: pooled_add_eq_Inr)
  with truncate_millis_le [of "near_balance b"]
  show "near_balance q' + extra_venear_balance q'
      = near_balance q + extra_venear_balance q + near_balance b + extra_venear_balance b"
    by linarith
  show "one_millinear dvd near_balance q'" if "one_millinear dvd near_balance q"
    using that by (simp add: q')
  show "pooled_sub q' b = Inr q"
    using q' by (simp add: pooled_sub_eq_Inr)
qed

theorem pooled_add_conserves_and_reverts_witness:
  "pooled_sub \<lparr>near_balance = 2 * 10 ^ 21, extra_venear_balance = 12\<rparr>
     \<lparr>near_balance = 10 ^ 21 + 5, extra_venear_balance = 7\<rparr>
   = Inr \<lparr>near_balance = 10 ^ 21, extra_venear_balance = 0\<rparr>"
  by (rule pooled_add_conserves_and_reverts [THEN conjunct2, THEN conjunct2])
    (simp add: pooled_add_def truncate_near_to_millis_def near_sub_def near_add_def Let_def)

end
