(* ===== verification/Accounts.thy ===== *)
theory Accounts
  imports Balances
begin

text \<open>
  The values kept in the veNEAR Merkle tree: accounts with their partial delegations
  (\<open>common/src/account.rs\<close>), the global state (\<open>common/src/global_state.rs\<close>) and the message a
  lockup contract sends (\<open>common/src/lockup_update.rs\<close>). The lemmas bring an account to a given
  time in closed form and bound the voting power it owns.
\<close>

section \<open>Data\<close>

record account_delegation =
  ad_account_id :: account_id

record delegation_entry =
  de_account_id :: account_id
  de_bps :: bps

record account_v0 =
  v0_account_id :: account_id
  v0_update_timestamp :: nat
  v0_balance :: venear_balance
  v0_delegated_balance :: pooled_venear_balance
  v0_delegation :: "account_delegation option"

record account =
  acc_account_id :: account_id
  update_timestamp :: nat
  balance :: venear_balance
  delegated_balance :: pooled_venear_balance
  delegations :: "delegation_entry list"

datatype vaccount = VAccount_V0 account_v0 | VAccount_V1 account

record global_state =
  gs_update_timestamp :: nat
  total_venear_balance :: pooled_venear_balance
  growth_config :: venear_growth_config

datatype vglobal_state = VGlobalState_V0 global_state

record lockup_update_v1 =
  locked_near_balance :: nat
  lu_timestamp :: nat
  lu_nonce :: nat

datatype vlockup_update = VLockupUpdate_V1 lockup_update_v1

section \<open>Operations\<close>

definition vaccount_from :: "account \<Rightarrow> vaccount" where
  "vaccount_from a = VAccount_V1 a"

fun account_from :: "vaccount \<Rightarrow> account" where
  "account_from (VAccount_V0 a) =
     \<lparr>acc_account_id = v0_account_id a,
      update_timestamp = v0_update_timestamp a,
      balance = v0_balance a,
      delegated_balance = v0_delegated_balance a,
      delegations = (case v0_delegation a of None \<Rightarrow> []
        | Some d \<Rightarrow> [\<lparr>de_account_id = ad_account_id d, de_bps = bps_FULL\<rparr>])\<rparr>"
| "account_from (VAccount_V1 a) = a"

definition owned_total :: "account \<Rightarrow> nat res" where
  "owned_total a =
     and_then (for_each (\<lambda>d retained.
         and_then (delegation_contribution (balance a) (de_bps d)) (\<lambda>c. vb_sub retained c))
       (delegations a) (balance a)) (\<lambda>retained.
     and_then (pooled_total (delegated_balance a)) (\<lambda>p.
     and_then (vb_total retained) (\<lambda>r.
     near_add p r)))"

definition account_update :: "nat \<Rightarrow> venear_growth_config \<Rightarrow> account \<Rightarrow> account res" where
  "account_update current_timestamp cfg a =
     (let now = truncate_to_seconds current_timestamp in
      and_then (require (update_timestamp a \<le> now) ''Timestamp must be increasing'') (\<lambda>_.
      and_then (vb_update (update_timestamp a) now cfg (balance a)) (\<lambda>b.
      and_then (pooled_update (update_timestamp a) now cfg (delegated_balance a)) (\<lambda>d.
      Inr (a\<lparr>balance := b, delegated_balance := d, update_timestamp := now\<rparr>)))))"

definition total_balance :: "nat \<Rightarrow> venear_growth_config \<Rightarrow> account \<Rightarrow> nat res" where
  "total_balance current_timestamp cfg a =
     and_then (account_update current_timestamp cfg a) owned_total"

definition global_state_new :: "nat \<Rightarrow> venear_growth_config \<Rightarrow> global_state" where
  "global_state_new timestamp cfg =
     \<lparr>gs_update_timestamp = truncate_to_seconds timestamp,
      total_venear_balance = vb_default,
      growth_config = cfg\<rparr>"

definition global_state_update :: "nat \<Rightarrow> global_state \<Rightarrow> global_state res" where
  "global_state_update current_timestamp g =
     (let now = truncate_to_seconds current_timestamp in
      and_then (pooled_update (gs_update_timestamp g) now (growth_config g) (total_venear_balance g))
        (\<lambda>p. Inr (g\<lparr>total_venear_balance := p, gs_update_timestamp := now\<rparr>)))"

definition vglobal_from :: "global_state \<Rightarrow> vglobal_state" where
  "vglobal_from g = VGlobalState_V0 g"

fun global_from :: "vglobal_state \<Rightarrow> global_state" where
  "global_from (VGlobalState_V0 g) = g"

fun get_venear_growth_config :: "vglobal_state \<Rightarrow> venear_growth_config" where
  "get_venear_growth_config (VGlobalState_V0 g) = growth_config g"

lemma account_from_vaccount_from [simp]: "account_from (vaccount_from a) = a"
  by (simp add: vaccount_from_def)

lemma global_from_vglobal_from [simp]: "global_from (vglobal_from g) = g"
  by (simp add: vglobal_from_def)

lemma growth_config_global_from: "get_venear_growth_config v = growth_config (global_from v)"
  by (cases v) simp

section \<open>An account at a given time\<close>

text \<open>\<open>age r t a\<close> is the account brought to time \<open>t\<close> at rate \<open>r\<close>, as \<open>account_update\<close> does.\<close>

definition age :: "nat \<Rightarrow> nat \<Rightarrow> account \<Rightarrow> account" where
  "age r t a = a\<lparr>balance := grow r (update_timestamp a) t (balance a),
                delegated_balance := grow r (update_timestamp a) t (delegated_balance a),
                update_timestamp := t\<rparr>"

definition age_global :: "nat \<Rightarrow> global_state \<Rightarrow> global_state" where
  "age_global t g = g\<lparr>total_venear_balance :=
       grow (rate_of (growth_config g)) (gs_update_timestamp g) t (total_venear_balance g),
     gs_update_timestamp := t\<rparr>"

text \<open>Both balances of the account fit their width.\<close>

definition fits :: "venear_balance \<Rightarrow> bool" where
  "fits b \<longleftrightarrow> near_balance b < 2 ^ 128 \<and> extra_venear_balance b < 2 ^ 128"

lemma age_simps [simp]:
  "acc_account_id (age r t a) = acc_account_id a"
  "update_timestamp (age r t a) = t"
  "balance (age r t a) = grow r (update_timestamp a) t (balance a)"
  "delegated_balance (age r t a) = grow r (update_timestamp a) t (delegated_balance a)"
  "delegations (age r t a) = delegations a"
  by (simp_all add: age_def)

lemma age_same: "update_timestamp a = t \<Longrightarrow> age r t a = a"
  by (cases a) (simp add: age_def)

lemma age_age:
  assumes "valid_ts (update_timestamp a)" "valid_ts s" "valid_ts t" "update_timestamp a \<le> s" "s \<le> t"
  shows "age r t (age r s a) = age r t a"
  using grow_split [OF assms, of r] by (simp add: age_def)

lemma account_update_eq_Inr:
  assumes "growth_config_ok cfg" "valid_ts (update_timestamp a)" "now < 2 ^ 64"
    and "near_balance (balance a) < 2 ^ 128" "near_balance (delegated_balance a) < 2 ^ 128"
  shows "account_update now cfg a = Inr a' \<longleftrightarrow>
    update_timestamp a \<le> truncate_to_seconds now
    \<and> extra_venear_balance (balance (age (rate_of cfg) (truncate_to_seconds now) a)) < 2 ^ 128
    \<and> extra_venear_balance (delegated_balance (age (rate_of cfg) (truncate_to_seconds now) a)) < 2 ^ 128
    \<and> a' = age (rate_of cfg) (truncate_to_seconds now) a"
  using vb_update_eq_Inr [OF assms(1,2) truncate_to_seconds_valid [OF assms(3)] assms(4)]
    vb_update_eq_Inr [OF assms(1,2) truncate_to_seconds_valid [OF assms(3)] assms(5)]
  by (auto simp: account_update_def Let_def pooled_update_def res_simps age_def)

lemma global_state_update_eq_Inr:
  assumes "growth_config_ok (growth_config g)" "valid_ts (gs_update_timestamp g)" "now < 2 ^ 64"
    and "near_balance (total_venear_balance g) < 2 ^ 128"
  shows "global_state_update now g = Inr g' \<longleftrightarrow>
    gs_update_timestamp g \<le> truncate_to_seconds now
    \<and> extra_venear_balance (total_venear_balance (age_global (truncate_to_seconds now) g)) < 2 ^ 128
    \<and> g' = age_global (truncate_to_seconds now) g"
  using vb_update_eq_Inr [OF assms(1,2) truncate_to_seconds_valid [OF assms(3)] assms(4)]
  by (auto simp: global_state_update_def Let_def pooled_update_def res_simps age_global_def)

lemma account_update_valid_ts:
  assumes "valid_ts t"
  shows "account_update t cfg a =
    and_then (require (update_timestamp a \<le> t) ''Timestamp must be increasing'') (\<lambda>_.
    and_then (vb_update (update_timestamp a) t cfg (balance a)) (\<lambda>b.
    and_then (vb_update (update_timestamp a) t cfg (delegated_balance a)) (\<lambda>d.
    Inr (a\<lparr>balance := b, delegated_balance := d, update_timestamp := t\<rparr>))))"
  by (simp add: account_update_def pooled_update_def assms Let_def)

text \<open>The update of an account inherits the splitting law from the update of its two balances.\<close>

interpretation acc: lazily_updated "\<lambda>_ t. account_update t cfg" valid_ts
  "\<lambda>s a. growth_config_ok cfg \<and> update_timestamp a = s \<and> fits (balance a) \<and> fits (delegated_balance a)"
  for cfg
proof
  fix s t u and x y :: account
  assume t: "valid_ts s" "valid_ts t" "valid_ts u" "s \<le> t" "t \<le> u"
    and ok: "growth_config_ok cfg \<and> update_timestamp x = s \<and> fits (balance x) \<and> fits (delegated_balance x)"
    and st: "account_update t cfg x = Inr y"
  from st ok t obtain b d where b: "vb_update s t cfg (balance x) = Inr b"
    and d: "vb_update s t cfg (delegated_balance x) = Inr d"
    and y: "y = x\<lparr>balance := b, delegated_balance := d, update_timestamp := t\<rparr>"
    by (auto simp: account_update_valid_ts res_simps)
  have "vb_update t u cfg b = vb_update s u cfg (balance x)"
    using vb.update_split [OF t _ b] ok by (simp add: fits_def)
  moreover have "vb_update t u cfg d = vb_update s u cfg (delegated_balance x)"
    using vb.update_split [OF t _ d] ok by (simp add: fits_def)
  ultimately show "account_update u cfg y = account_update u cfg x"
    using t ok by (simp add: account_update_valid_ts y)
next
  fix t and x :: account
  assume "valid_ts t"
    and ok: "growth_config_ok cfg \<and> update_timestamp x = t \<and> fits (balance x) \<and> fits (delegated_balance x)"
  then show "account_update t cfg x = Inr x"
    using vb.update_same [of t cfg "balance x"] vb.update_same [of t cfg "delegated_balance x"]
    by (cases x) (simp add: account_update_valid_ts fits_def)
next
  fix s t and x y :: account
  assume t: "valid_ts s" "valid_ts t" "s \<le> t"
    and ok: "growth_config_ok cfg \<and> update_timestamp x = s \<and> fits (balance x) \<and> fits (delegated_balance x)"
    and "account_update t cfg x = Inr y"
  then obtain b d where b: "vb_update s t cfg (balance x) = Inr b"
    and d: "vb_update s t cfg (delegated_balance x) = Inr d"
    and y: "y = x\<lparr>balance := b, delegated_balance := d, update_timestamp := t\<rparr>"
    by (auto simp: account_update_valid_ts res_simps)
  show "growth_config_ok cfg \<and> update_timestamp y = t \<and> fits (balance y) \<and> fits (delegated_balance y)"
    using vb.update_ok [OF t _ b] vb.update_ok [OF t _ d] ok by (simp add: y fits_def)
qed

section \<open>Owned voting power\<close>

text \<open>The amount an account passes on: the sum of its contributions to its delegates.\<close>

definition passed_on :: "account \<Rightarrow> nat" where
  "passed_on a = (\<Sum>e\<leftarrow>delegations a. near_balance (contribution (balance a) (de_bps e))
                                  + extra_venear_balance (contribution (balance a) (de_bps e)))"

definition bps_ok :: "delegation_entry list \<Rightarrow> bool" where
  "bps_ok es \<longleftrightarrow> (\<Sum>e\<leftarrow>es. de_bps e) \<le> 10000"

lemma bps_ok_entry: "bps_ok es \<Longrightarrow> e \<in> set es \<Longrightarrow> de_bps e \<le> 10000"
  unfolding bps_ok_def using member_le_sum_list [of "de_bps e" "map de_bps es"] by fastforce

lemma retained_loop:
  assumes "\<forall>e \<in> set es. de_bps e \<le> 10000"
    and "for_each (\<lambda>d retained. and_then (delegation_contribution b (de_bps d)) (\<lambda>c. vb_sub retained c)) es v = Inr v'"
  shows "near_balance v' + (\<Sum>e\<leftarrow>es. near_balance (contribution b (de_bps e))) = near_balance v
    \<and> extra_venear_balance v' + (\<Sum>e\<leftarrow>es. extra_venear_balance (contribution b (de_bps e))) = extra_venear_balance v"
  using assms
proof (induction es arbitrary: v)
  case (Cons e es)
  then obtain c v1 where c: "delegation_contribution b (de_bps e) = Inr c" "vb_sub v c = Inr v1"
    and r: "for_each (\<lambda>d retained. and_then (delegation_contribution b (de_bps d)) (\<lambda>c. vb_sub retained c)) es v1 = Inr v'"
    by (auto simp: res_simps)
  have "c = contribution b (de_bps e)"
    using c(1) Cons.prems(1) by (auto intro: delegation_contribution_value)
  with c(2) Cons.IH [OF _ r] Cons.prems(1) show ?case
    by (auto simp: vb_sub_eq_Inr)
qed simp

lemma retained_loop_ok:
  assumes "vb_ok b" "\<forall>e \<in> set es. de_bps e \<le> 10000"
    and "(\<Sum>e\<leftarrow>es. near_balance (contribution b (de_bps e))) \<le> near_balance v"
    and "(\<Sum>e\<leftarrow>es. extra_venear_balance (contribution b (de_bps e))) \<le> extra_venear_balance v"
  shows "\<exists>v'. for_each (\<lambda>d retained. and_then (delegation_contribution b (de_bps d)) (\<lambda>c. vb_sub retained c)) es v = Inr v'"
  using assms
proof (induction es arbitrary: v)
  case (Cons e es)
  have c: "delegation_contribution b (de_bps e) = Inr (contribution b (de_bps e))"
    using Cons.prems(1,2) by (intro delegation_contribution_ok) auto
  let ?c = "contribution b (de_bps e)"
  let ?v1 = "\<lparr>near_balance = near_balance v - near_balance ?c,
              extra_venear_balance = extra_venear_balance v - extra_venear_balance ?c\<rparr>"
  have "vb_sub v ?c = Inr ?v1" using Cons.prems by (simp add: vb_sub_eq_Inr)
  moreover have "\<exists>v'. for_each (\<lambda>d retained. and_then (delegation_contribution b (de_bps d)) (\<lambda>c. vb_sub retained c)) es ?v1 = Inr v'"
    using Cons.prems by (intro Cons.IH) auto
  ultimately show ?case by (simp add: c)
qed simp

lemma owned_total_value:
  assumes "bps_ok (delegations a)" "owned_total a = Inr n"
  shows "n + passed_on a = near_balance (delegated_balance a) + extra_venear_balance (delegated_balance a)
    + near_balance (balance a) + extra_venear_balance (balance a)"
proof -
  from assms(2) obtain v where
    v: "for_each (\<lambda>d retained. and_then (delegation_contribution (balance a) (de_bps d)) (\<lambda>c. vb_sub retained c))
        (delegations a) (balance a) = Inr v"
    and n: "n = near_balance (delegated_balance a) + extra_venear_balance (delegated_balance a)
      + (near_balance v + extra_venear_balance v)"
    by (auto simp: owned_total_def pooled_total_def res_simps)
  from retained_loop [OF _ v] bps_ok_entry [OF assms(1)] show ?thesis
    by (auto simp: n passed_on_def sum_list_addf)
qed

lemma owned_total_ok:
  assumes "bps_ok (delegations a)" "vb_ok (balance a)"
    and "near_balance (delegated_balance a) + extra_venear_balance (delegated_balance a)
      + near_balance (balance a) + extra_venear_balance (balance a) < 2 ^ 128"
  shows "\<exists>n. owned_total a = Inr n"
proof -
  have s: "sum_list (map de_bps (delegations a)) \<le> 10000" using assms(1) by (simp add: bps_ok_def)
  from retained_loop_ok [OF assms(2), of "delegations a" "balance a"] bps_ok_entry [OF assms(1)]
    sum_contribution_le [OF s, of "balance a"]
  obtain v where v: "for_each (\<lambda>d retained. and_then (delegation_contribution (balance a) (de_bps d)) (\<lambda>c. vb_sub retained c))
        (delegations a) (balance a) = Inr v"
    by (auto simp: comp_def)
  with retained_loop [OF _ v] bps_ok_entry [OF assms(1)] assms(3) show ?thesis
    by (auto simp: owned_total_def pooled_total_def vb_total_def near_add_def)
qed

section \<open>Properties\<close>

text \<open>
  An account can always compute its voting power: when its outgoing shares add up to at most
  \<open>10000\<close> basis points and its amounts are within range, no subtraction in \<open>owned_total\<close> underflows,
  and the result is everything it holds minus exactly what it passed on to its delegates.
\<close>

theorem owned_total_exact:
  assumes "bps_ok (delegations a)" "vb_ok (balance a)"
    and "near_balance (delegated_balance a) + extra_venear_balance (delegated_balance a)
      + near_balance (balance a) + extra_venear_balance (balance a) < 2 ^ 128"
  shows "\<exists>n. owned_total a = Inr n
    \<and> n + (\<Sum>e\<leftarrow>delegations a. near_balance (contribution (balance a) (de_bps e))
            + extra_venear_balance (contribution (balance a) (de_bps e)))
      = near_balance (delegated_balance a) + extra_venear_balance (delegated_balance a)
        + near_balance (balance a) + extra_venear_balance (balance a)"
  using owned_total_ok [OF assms] owned_total_value [OF assms(1)]
  by (auto simp: passed_on_def)

definition sample_account :: account where
  "sample_account = \<lparr>acc_account_id = ''owner.near'', update_timestamp = 0, balance = sample_balance,
     delegated_balance = vb_default,
     delegations = [\<lparr>de_account_id = ''a.near'', de_bps = 2512\<rparr>, \<lparr>de_account_id = ''b.near'', de_bps = 7488\<rparr>]\<rparr>"

theorem owned_total_exact_witness:
  "\<exists>n. owned_total sample_account = Inr n
    \<and> n + (\<Sum>e\<leftarrow>delegations sample_account. near_balance (contribution (balance sample_account) (de_bps e))
            + extra_venear_balance (contribution (balance sample_account) (de_bps e)))
      = near_balance (delegated_balance sample_account) + extra_venear_balance (delegated_balance sample_account)
        + near_balance (balance sample_account) + extra_venear_balance (balance sample_account)"
  by (rule owned_total_exact)
    (simp_all add: sample_account_def sample_balance_def bps_ok_def vb_ok_def vb_default_def)

text \<open>
  It does not matter how often an account is brought up to date: updating it at any increasing
  list of block times gives the account that a single update at the last time gives.
\<close>

theorem account_update_any_schedule:
  assumes "growth_config_ok cfg" "fits (balance a)" "fits (delegated_balance a)"
    and "sorted (update_timestamp a # ts)" "\<forall>t \<in> set (update_timestamp a # ts). valid_ts t"
    and "update_through (\<lambda>_ t. account_update t cfg) (update_timestamp a) ts a = Inr a'"
  shows "account_update (last (update_timestamp a # ts)) cfg a = Inr a'"
  using acc.update_through_last [OF assms(4,5) _ assms(6)] assms(1-3) by simp

theorem account_update_any_schedule_witness:
  "account_update 5000000000 sample_config sample_account
    = Inr (sample_account\<lparr>balance := \<lparr>near_balance = 4100 * 10 ^ 21,
          extra_venear_balance = 50000000000000000000000 + 1902587519026 * 5 * 4100\<rparr>,
        update_timestamp := 5000000000\<rparr>)"
proof -
  have u: "update_through (\<lambda>_ t. account_update t sample_config) (update_timestamp sample_account)
      [2000000000, 5000000000] sample_account
    = Inr (sample_account\<lparr>balance := \<lparr>near_balance = 4100 * 10 ^ 21,
          extra_venear_balance = 50000000000000000000000 + 1902587519026 * 5 * 4100\<rparr>,
        update_timestamp := 5000000000\<rparr>)"
    by (simp add: sample_account_def sample_balance_def sample_config_def account_update_def
        pooled_update_def balance_eval)
  show ?thesis
    using account_update_any_schedule [OF sample_config_ok _ _ _ _ u]
    by (simp add: sample_account_def sample_balance_def vb_default_def fits_def valid_ts_def)
qed

end
