(* ===== verification/Merkle_Tree.thy ===== *)
theory Merkle_Tree
  imports Near_Prelude "HOL-Library.Word"
begin

unbundle bit_operations_syntax

text \<open>
  The persistent Merkle tree of \<open>merkle-tree/src/lib.rs\<close>: leaves at height zero, a new level
  whenever the number of leaves passes a power of two, stored hashes for every node on the path
  of an updated leaf, inclusion proofs and their verifier, and the snapshot of the last block.
  The hash function \<open>env::sha256\<close> and the Borsh serialisation of the values are the two
  parameters of the model (\<open>hasher\<close>). The main results: the stored hashes are those of the
  reference tree over all leaves, proofs of stored values verify, a verifying proof can only be
  for the stored value unless two different inputs with one hash are on the two paths, and the
  snapshot is the state at the end of an earlier block.
\<close>

section \<open>Data\<close>

type_synonym byte = "8 word"

text \<open>\<open>CryptoHash\<close> is \<open>[u8; 32]\<close>; its bytes are read most significant first.\<close>

type_synonym crypto_hash = "256 word"

definition hash_bytes :: "crypto_hash \<Rightarrow> byte list" where
  "hash_bytes h = map (\<lambda>i. ucast (drop_bit (8 * (31 - i)) h)) [0..<32]"

definition default_hash :: crypto_hash where
  "default_hash = 0"

record 'v hasher =
  sha256 :: "byte list \<Rightarrow> crypto_hash"
  to_vec :: "'v \<Rightarrow> byte list"

datatype height_and_index = HeightAndIndex (hi_height: nat) (hi_index: nat)

instantiation height_and_index :: linorder
begin

definition less_eq_height_and_index :: "height_and_index \<Rightarrow> height_and_index \<Rightarrow> bool" where
  "less_eq_height_and_index a b \<longleftrightarrow>
     hi_height a < hi_height b \<or> hi_height a = hi_height b \<and> hi_index a \<le> hi_index b"

definition less_height_and_index :: "height_and_index \<Rightarrow> height_and_index \<Rightarrow> bool" where
  "less_height_and_index a b \<longleftrightarrow>
     hi_height a < hi_height b \<or> hi_height a = hi_height b \<and> hi_index a < hi_index b"

instance
  by standard
    (auto simp: less_eq_height_and_index_def less_height_and_index_def height_and_index.expand)

end

record merkle_tree_snapshot =
  snap_root :: crypto_hash
  snap_length :: nat
  snap_block_height :: nat

record merkle_proof =
  proof_index :: nat
  proof_path :: "crypto_hash list"

record ('v, 'g) merkle_tree =
  mt_root :: crypto_hash
  mt_length :: nat
  mt_hashes :: "height_and_index \<rightharpoonup> crypto_hash"
  mt_data :: "nat \<rightharpoonup> 'v"
  mt_accounts :: "account_id \<rightharpoonup> nat"
  mt_global_state :: 'g
  mt_previous_snapshot :: "(merkle_tree_snapshot \<times> 'g) option"
  mt_last_block_height :: nat

section \<open>Operations\<close>

text \<open>\<open>u32::leading_zeros\<close>, scanning from the most significant of \<open>w\<close> bits.\<close>

fun leading_zeros :: "nat \<Rightarrow> nat \<Rightarrow> nat" where
  "leading_zeros 0 x = 0"
| "leading_zeros (Suc w) x = (if bit x w then 0 else Suc (leading_zeros w x))"

definition mt_new :: "nat \<Rightarrow> 'g \<Rightarrow> ('v, 'g) merkle_tree" where
  "mt_new height global_state =
     \<lparr>mt_root = default_hash, mt_length = 0, mt_hashes = Map.empty, mt_data = Map.empty,
      mt_accounts = Map.empty, mt_global_state = global_state, mt_previous_snapshot = None,
      mt_last_block_height = height\<rparr>"

definition current_snapshot :: "('v, 'g) merkle_tree \<Rightarrow> merkle_tree_snapshot \<times> 'g" where
  "current_snapshot t =
     (\<lparr>snap_root = mt_root t, snap_length = mt_length t, snap_block_height = mt_last_block_height t\<rparr>,
      mt_global_state t)"

definition internal_pre_update :: "nat \<Rightarrow> ('v, 'g) merkle_tree \<Rightarrow> ('v, 'g) merkle_tree" where
  "internal_pre_update height t =
     (if mt_last_block_height t \<noteq> height
      then t\<lparr>mt_previous_snapshot := Some (current_snapshot t), mt_last_block_height := height\<rparr>
      else t)"

definition internal_hash_value :: "'v hasher \<Rightarrow> ('v, 'g) merkle_tree \<Rightarrow> nat \<Rightarrow> crypto_hash" where
  "internal_hash_value H t index =
     (case mt_data t index of None \<Rightarrow> default_hash | Some v \<Rightarrow> sha256 H (to_vec H v))"

definition height_of_length :: "nat \<Rightarrow> nat" where
  "height_of_length len = (if len = 0 then 0 else 33 - leading_zeros 32 (len - 1))"

definition tree_height :: "('v, 'g) merkle_tree \<Rightarrow> nat" where
  "tree_height t = height_of_length (mt_length t)"

definition internal_get_hash :: "('v, 'g) merkle_tree \<Rightarrow> nat \<Rightarrow> nat \<Rightarrow> crypto_hash" where
  "internal_get_hash t height index =
     (case mt_hashes t (HeightAndIndex height index) of None \<Rightarrow> default_hash | Some h \<Rightarrow> h)"

definition internal_set_hash ::
  "nat \<Rightarrow> nat \<Rightarrow> crypto_hash \<Rightarrow> ('v, 'g) merkle_tree \<Rightarrow> ('v, 'g) merkle_tree" where
  "internal_set_hash height index hash t =
     t\<lparr>mt_hashes := (mt_hashes t)(HeightAndIndex height index \<mapsto> hash)\<rparr>"

definition hash_pair :: "'v hasher \<Rightarrow> crypto_hash \<Rightarrow> crypto_hash \<Rightarrow> crypto_hash" where
  "hash_pair H l r = sha256 H (hash_bytes l @ hash_bytes r)"

text \<open>The body of the loop over the heights in \<open>internal_post_update\<close>.\<close>

definition rehash_node :: "'v hasher \<Rightarrow> nat \<Rightarrow> nat \<Rightarrow> ('v, 'g) merkle_tree \<Rightarrow> ('v, 'g) merkle_tree" where
  "rehash_node H height height_index t =
     internal_set_hash height height_index
       (hash_pair H (internal_get_hash t (height - 1) (push_bit 1 height_index))
                    (internal_get_hash t (height - 1) (push_bit 1 height_index + 1))) t"

definition internal_post_update :: "'v hasher \<Rightarrow> nat \<Rightarrow> ('v, 'g) merkle_tree \<Rightarrow> ('v, 'g) merkle_tree res" where
  "internal_post_update H index t =
     (let t0 = internal_set_hash 0 index (internal_hash_value H t index) t in
      and_then (for_each (\<lambda>height t. and_then (shr_u 32 index height) (\<lambda>height_index.
          Inr (rehash_node H height height_index t))) [1..<tree_height t] t0) (\<lambda>t1.
      and_then (sub_u (tree_height t1) 1) (\<lambda>top.
      Inr (t1\<lparr>mt_root := internal_get_hash t1 top 0\<rparr>))))"

definition mt_get_snapshot :: "nat \<Rightarrow> ('v, 'g) merkle_tree \<Rightarrow> (merkle_tree_snapshot \<times> 'g) option" where
  "mt_get_snapshot height t =
     (if mt_last_block_height t \<noteq> height then Some (current_snapshot t) else mt_previous_snapshot t)"

definition mt_set_global_state :: "nat \<Rightarrow> 'g \<Rightarrow> ('v, 'g) merkle_tree \<Rightarrow> ('v, 'g) merkle_tree" where
  "mt_set_global_state height g t = (internal_pre_update height t)\<lparr>mt_global_state := g\<rparr>"

definition mt_get :: "('v, 'g) merkle_tree \<Rightarrow> account_id \<Rightarrow> 'v option" where
  "mt_get t account = Option.bind (mt_accounts t account) (mt_data t)"

definition mt_set ::
  "'v hasher \<Rightarrow> nat \<Rightarrow> account_id \<Rightarrow> 'v \<Rightarrow> ('v, 'g) merkle_tree \<Rightarrow> ('v option \<times> ('v, 'g) merkle_tree) res" where
  "mt_set H height account new_value t =
     (let t0 = internal_pre_update height t in
      and_then (case mt_accounts t0 account of
          Some index \<Rightarrow> Inr (index, t0)
        | None \<Rightarrow>
            (let index = mt_length t0 in
             and_then (add_u 32 (mt_length t0) 1) (\<lambda>len.
             Inr (index, t0\<lparr>mt_length := len, mt_accounts := (mt_accounts t0)(account \<mapsto> index)\<rparr>)))) (\<lambda>(index, t1).
      let old_value = mt_data t1 index;
          t2 = t1\<lparr>mt_data := (mt_data t1)(index \<mapsto> new_value)\<rparr>
      in and_then (internal_post_update H index t2) (\<lambda>t3. Inr (old_value, t3))))"

definition mt_get_proof :: "('v, 'g) merkle_tree \<Rightarrow> account_id \<Rightarrow> (merkle_proof \<times> 'v) option res" where
  "mt_get_proof t account =
     (case mt_accounts t account of
        None \<Rightarrow> Inr None
      | Some index \<Rightarrow>
          and_then (sub_u (tree_height t) 1) (\<lambda>top.
          and_then (unwrap (mt_data t index)) (\<lambda>v.
          Inr (Some (\<lparr>proof_index = index,
                      proof_path = map (\<lambda>height. internal_get_hash t height (drop_bit height index XOR 1)) [0..<top]\<rparr>,
                     v)))))"

definition mt_get_by_index :: "('v, 'g) merkle_tree \<Rightarrow> nat \<Rightarrow> 'v option" where
  "mt_get_by_index t index = mt_data t index"

definition mt_is_empty :: "('v, 'g) merkle_tree \<Rightarrow> bool" where
  "mt_is_empty t = (mt_length t = 0)"

text \<open>The test helper \<open>remerkalize\<close>, with its loop bounds as written.\<close>

definition remerkalize :: "'v hasher \<Rightarrow> ('v, 'g) merkle_tree \<Rightarrow> ('v, 'g) merkle_tree res" where
  "remerkalize H t =
     (let t0 = fold (\<lambda>i t. internal_set_hash 0 i (internal_hash_value H t i) t) [0..<mt_length t] t;
          t1 = fold (\<lambda>height. fold (rehash_node H height) [0..<push_bit (height - 1) 1]) [1..<tree_height t] t0
      in and_then (sub_u (tree_height t1) 1) (\<lambda>top.
         Inr (t1\<lparr>mt_root := internal_get_hash t1 top 0\<rparr>)))"

text \<open>\<open>MerkleProof::is_valid\<close>: climb from the leaf to the root.\<close>

fun climb :: "'v hasher \<Rightarrow> nat \<Rightarrow> nat \<Rightarrow> crypto_hash list \<Rightarrow> crypto_hash \<Rightarrow> crypto_hash" where
  "climb H index height [] hash = hash"
| "climb H index height (sibling # path) hash =
     climb H index (Suc height) path
       (if drop_bit height index AND 1 = 0 then hash_pair H hash sibling else hash_pair H sibling hash)"

definition is_valid :: "'v hasher \<Rightarrow> merkle_proof \<Rightarrow> crypto_hash \<Rightarrow> nat \<Rightarrow> 'v \<Rightarrow> bool" where
  "is_valid H p root len value =
     (if len \<le> proof_index p then False
      else if length (proof_path p) + 1 \<noteq> height_of_length len then False
      else climb H (proof_index p) 0 (proof_path p) (sha256 H (to_vec H value)) = root)"

section \<open>Tree height\<close>

lemma leading_zeros_le: "leading_zeros w x \<le> w"
  by (induction w) auto

lemma not_bit_less:
  assumes "x < 2 * 2 ^ w" "\<not> bit x w"
  shows "x < (2::nat) ^ w"
proof -
  have "x div 2 ^ w < 2" using assms(1) by (simp add: less_mult_imp_div_less)
  moreover have "even (x div 2 ^ w)" using assms(2) by (simp add: bit_iff_odd)
  ultimately have "x div 2 ^ w = 0" by (metis even_iff_mod_2_eq_zero mod_less)
  then show ?thesis by (simp add: div_eq_0_iff)
qed

lemma bit_imp_le:
  assumes "bit x w" shows "(2::nat) ^ w \<le> x"
  using assms by (metis bit_iff_odd div_less even_zero not_le_imp_less)

lemma leading_zeros_spec:
  "x < 2 ^ w \<Longrightarrow> x < 2 ^ (w - leading_zeros w x)
    \<and> (leading_zeros w x < w \<longrightarrow> (2::nat) ^ (w - leading_zeros w x - 1) \<le> x)"
  by (induction w) (auto simp: bit_imp_le dest: not_bit_less)

lemma height_of_length_spec:
  assumes "0 < len" "len \<le> 2 ^ 32"
  shows "1 \<le> height_of_length len" and "len \<le> 2 ^ (height_of_length len - 1)"
    and "2 \<le> height_of_length len \<Longrightarrow> 2 ^ (height_of_length len - 2) < len"
proof -
  let ?z = "leading_zeros 32 (len - 1)"
  have z: "?z \<le> 32" by (rule leading_zeros_le)
  have spec: "len - 1 < 2 ^ (32 - ?z)" "?z < 32 \<longrightarrow> 2 ^ (32 - ?z - 1) \<le> len - 1"
    using leading_zeros_spec [of "len - 1" 32] assms by auto
  have h: "height_of_length len - 1 = 32 - ?z" "height_of_length len - 2 = 32 - ?z - 1"
    "1 \<le> height_of_length len"
    using assms z by (simp_all add: height_of_length_def)
  then show "1 \<le> height_of_length len" by simp
  show "len \<le> 2 ^ (height_of_length len - 1)" using spec(1) assms(1) unfolding h(1) by linarith
  assume "2 \<le> height_of_length len"
  with h have "?z < 32" by simp
  with spec(2) assms(1) show "2 ^ (height_of_length len - 2) < len" unfolding h(2) by linarith
qed

lemma height_of_length_le_iff:
  assumes "0 < len" "len \<le> 2 ^ 32" "len \<le> 2 ^ k"
  shows "height_of_length len \<le> Suc k"
proof (rule ccontr)
  assume "\<not> ?thesis"
  then have "2 ^ k \<le> (2::nat) ^ (height_of_length len - 2)" "2 \<le> height_of_length len"
    by (auto intro: power_increasing)
  with height_of_length_spec(3) [OF assms(1,2)] assms(3) show False by linarith
qed

lemma height_of_length_mono:
  assumes "0 < m" "m \<le> n" "n \<le> 2 ^ 32"
  shows "height_of_length m \<le> height_of_length n"
  using height_of_length_le_iff [of m "height_of_length n - 1"] height_of_length_spec(1,2) [of n] assms
  by simp

section \<open>The reference tree\<close>

text \<open>
  \<open>node_hash\<close> is the hash of the subtree at a position, computed from the leaves alone. A subtree
  with no leaf has the default hash.
\<close>

fun node_hash :: "'v hasher \<Rightarrow> (nat \<rightharpoonup> 'v) \<Rightarrow> nat \<Rightarrow> nat \<Rightarrow> nat \<Rightarrow> crypto_hash" where
  "node_hash H data len 0 i = (case data i of None \<Rightarrow> default_hash | Some v \<Rightarrow> sha256 H (to_vec H v))"
| "node_hash H data len (Suc h) i =
     (if i * 2 ^ Suc h < len
      then hash_pair H (node_hash H data len h (2 * i)) (node_hash H data len h (2 * i + 1))
      else default_hash)"

text \<open>The root over all leaves.\<close>

definition reference_root :: "'v hasher \<Rightarrow> (nat \<rightharpoonup> 'v) \<Rightarrow> nat \<Rightarrow> crypto_hash" where
  "reference_root H data len =
     (if len = 0 then default_hash else node_hash H data len (height_of_length len - 1) 0)"

definition hashes_ok :: "'v hasher \<Rightarrow> ('v, 'g) merkle_tree \<Rightarrow> bool" where
  "hashes_ok H t \<longleftrightarrow> (\<forall>h i. internal_get_hash t h i =
     (if h < tree_height t then node_hash H (mt_data t) (mt_length t) h i else default_hash))"

definition index_ok :: "('v, 'g) merkle_tree \<Rightarrow> bool" where
  "index_ok t \<longleftrightarrow> mt_length t \<le> 2 ^ 31 \<and> dom (mt_data t) = {..<mt_length t}
     \<and> inj_on (mt_accounts t) (dom (mt_accounts t)) \<and> ran (mt_accounts t) = {..<mt_length t}"

definition merkle_inv :: "'v hasher \<Rightarrow> ('v, 'g) merkle_tree \<Rightarrow> bool" where
  "merkle_inv H t \<longleftrightarrow> index_ok t \<and> hashes_ok H t
     \<and> mt_root t = reference_root H (mt_data t) (mt_length t)"

lemma div_pow_Suc: "(idx::nat) div 2 ^ Suc h = idx div 2 ^ h div 2"
  by (metis div_mult2_eq power_Suc2)

lemma node_hash_frame:
  assumes "len' = len \<or> len' = Suc len \<and> idx = len" "i \<noteq> idx div 2 ^ h"
  shows "node_hash H (data(idx \<mapsto> v)) len' h i = node_hash H data len h i"
  using assms(2)
proof (induction h arbitrary: i)
  case (Suc h)
  have "i \<noteq> idx div 2 ^ h div 2" using Suc.prems by (simp only: div_pow_Suc not_False_eq_True)
  then have "2 * i \<noteq> idx div 2 ^ h" "2 * i + 1 \<noteq> idx div 2 ^ h" by auto
  moreover have "i * 2 ^ Suc h < len' \<longleftrightarrow> i * 2 ^ Suc h < len"
  proof -
    have "i * 2 ^ Suc h \<noteq> idx" using Suc.prems by auto
    with assms(1) show ?thesis by (auto simp: less_Suc_eq)
  qed
  ultimately show ?case using Suc.IH by simp
qed simp

lemma node_hash_path:
  assumes "idx < len"
  shows "node_hash H data len (Suc h) (idx div 2 ^ Suc h)
    = hash_pair H (node_hash H data len h (2 * (idx div 2 ^ Suc h)))
                  (node_hash H data len h (2 * (idx div 2 ^ Suc h) + 1))"
proof -
  have "idx div 2 ^ Suc h * 2 ^ Suc h < len"
    using assms by (rule le_less_trans [OF div_times_less_eq_dividend])
  then show ?thesis by (simp only: node_hash.simps if_True)
qed

lemma node_hash_beyond:
  assumes "len \<le> i * 2 ^ h" "dom data = {..<len}"
  shows "node_hash H data len h i = default_hash"
proof (cases h)
  case 0
  with assms have "i \<notin> dom data" by simp
  then have "data i = None" by (simp add: domIff)
  with 0 show ?thesis by simp
qed (use assms in simp)

section \<open>Updating a leaf\<close>

text \<open>The data that the rehashing of a path leaves alone.\<close>

lemma internal_set_hash_simps [simp]:
  "mt_data (internal_set_hash h i x t) = mt_data t"
  "mt_length (internal_set_hash h i x t) = mt_length t"
  "mt_accounts (internal_set_hash h i x t) = mt_accounts t"
  "mt_global_state (internal_set_hash h i x t) = mt_global_state t"
  "mt_previous_snapshot (internal_set_hash h i x t) = mt_previous_snapshot t"
  "mt_last_block_height (internal_set_hash h i x t) = mt_last_block_height t"
  by (simp_all add: internal_set_hash_def)

lemma internal_get_set_hash [simp]:
  "internal_get_hash (internal_set_hash h i x t) h' i' =
     (if h' = h \<and> i' = i then x else internal_get_hash t h' i')"
  by (simp add: internal_get_hash_def internal_set_hash_def)

lemma internal_get_hash_root [simp]:
  "internal_get_hash (t\<lparr>mt_root := r\<rparr>) h i = internal_get_hash t h i"
  by (simp add: internal_get_hash_def)

lemma rehash_node_simps [simp]:
  "mt_data (rehash_node H h i t) = mt_data t"
  "mt_length (rehash_node H h i t) = mt_length t"
  "mt_accounts (rehash_node H h i t) = mt_accounts t"
  "mt_global_state (rehash_node H h i t) = mt_global_state t"
  "mt_previous_snapshot (rehash_node H h i t) = mt_previous_snapshot t"
  "mt_last_block_height (rehash_node H h i t) = mt_last_block_height t"
  by (simp_all add: rehash_node_def)

definition rehash_path :: "'v hasher \<Rightarrow> nat \<Rightarrow> nat \<Rightarrow> ('v, 'g) merkle_tree \<Rightarrow> ('v, 'g) merkle_tree" where
  "rehash_path H index K t = fold (\<lambda>height. rehash_node H height (drop_bit height index)) [1..<K] t"

lemma rehash_path_simps [simp]:
  "mt_data (rehash_path H idx K t) = mt_data t"
  "mt_length (rehash_path H idx K t) = mt_length t"
  "mt_accounts (rehash_path H idx K t) = mt_accounts t"
  "mt_global_state (rehash_path H idx K t) = mt_global_state t"
  "mt_previous_snapshot (rehash_path H idx K t) = mt_previous_snapshot t"
  "mt_last_block_height (rehash_path H idx K t) = mt_last_block_height t"
  unfolding rehash_path_def by (induction K arbitrary: t) auto

text \<open>
  The shifts of the loop stay below the width of the index as long as the tree has at most
  \<open>2 ^ 31\<close> leaves; one leaf more and the update panics.
\<close>

lemma rehash_loop:
  "for_each (\<lambda>height t. and_then (shr_u 32 idx height) (\<lambda>i. Inr (rehash_node H height i t))) [1..<K] t
     = (if K \<le> 32 then Inr (rehash_path H idx K t) else Inl Overflow)"
proof (induction K)
  case (Suc K)
  show ?case
  proof (cases "1 \<le> K")
    case True
    then have "[1..<Suc K] = [1..<K] @ [K]" by simp
    with Suc True show ?thesis by (auto simp: for_each_append shr_u_def rehash_path_def)
  qed (simp add: rehash_path_def)
qed (simp add: rehash_path_def)

lemma tree_height_le_32:
  assumes "mt_length t \<le> 2 ^ 32"
  shows "tree_height t \<le> 32 \<longleftrightarrow> mt_length t \<le> 2 ^ 31"
proof (cases "mt_length t = 0")
  case False
  then have pos: "0 < mt_length t" by simp
  have "mt_length t \<le> 2 ^ 31" if "tree_height t \<le> 32"
  proof -
    have "mt_length t \<le> 2 ^ (tree_height t - 1)"
      using height_of_length_spec(2) [OF pos assms] by (simp add: tree_height_def)
    also have "\<dots> \<le> 2 ^ 31" using that by (intro power_increasing) auto
    finally show ?thesis .
  qed
  then show ?thesis
    using height_of_length_le_iff [OF pos assms, of 31] by (auto simp: tree_height_def)
qed (simp add: tree_height_def height_of_length_def)

lemma internal_post_update_eq:
  "internal_post_update H idx t =
     (if tree_height t = 0 \<or> 32 < tree_height t then Inl Overflow
      else let t1 = rehash_path H idx (tree_height t) (internal_set_hash 0 idx (internal_hash_value H t idx) t)
        in Inr (t1\<lparr>mt_root := internal_get_hash t1 (tree_height t - 1) 0\<rparr>))"
proof -
  have th: "tree_height (rehash_path H idx K (internal_set_hash h i x t)) = tree_height t" for K h i x
    by (simp add: tree_height_def)
  show ?thesis
    unfolding internal_post_update_def Let_def rehash_loop
    by (auto simp: th sub_u_def)
qed

text \<open>
  If every node off the path of \<open>idx\<close> already has its reference hash and the leaf is set, then
  rehashing the path level by level gives every node its reference hash.
\<close>

lemma rehash_path_hashes:
  assumes idx: "idx < mt_length t"
    and off: "\<And>h i. h < K \<Longrightarrow> i \<noteq> idx div 2 ^ h \<Longrightarrow> internal_get_hash t h i = node_hash H (mt_data t) (mt_length t) h i"
    and leaf: "internal_get_hash t 0 idx = node_hash H (mt_data t) (mt_length t) 0 idx"
    and k: "1 \<le> k" "k \<le> K"
  shows "internal_get_hash (rehash_path H idx k t) h i =
    (if h < k \<and> i = idx div 2 ^ h then node_hash H (mt_data t) (mt_length t) h i
     else internal_get_hash t h i)"
  using k
proof (induction k arbitrary: h i rule: dec_induct)
  case base
  then show ?case using leaf by (simp add: rehash_path_def)
next
  case (step k)
  define j where "j = idx div 2 ^ Suc (k - 1)"
  have k1: "Suc (k - 1) = k" using step.hyps by simp
  have get: "internal_get_hash (rehash_path H idx k t) (k - 1) i = node_hash H (mt_data t) (mt_length t) (k - 1) i"
    if "i = 2 * j \<or> i = 2 * j + 1" for i
    using step.IH [of "k - 1" i] off [of "k - 1" i] step.hyps step.prems by auto
  have jk: "j = idx div 2 ^ k" by (simp only: j_def k1)
  have "hash_pair H (internal_get_hash (rehash_path H idx k t) (k - 1) (2 * j))
          (internal_get_hash (rehash_path H idx k t) (k - 1) (2 * j + 1))
    = node_hash H (mt_data t) (mt_length t) k j"
    using get [of "2 * j"] get [of "2 * j + 1"]
      node_hash_path [OF idx, of H "mt_data t" "k - 1", folded j_def, unfolded k1] by simp
  then have "rehash_node H k j (rehash_path H idx k t)
    = internal_set_hash k j (node_hash H (mt_data t) (mt_length t) k j) (rehash_path H idx k t)"
    by (simp only: rehash_node_def push_bit_eq_mult power_one_right mult.commute [of j 2])
  moreover have "rehash_path H idx (Suc k) t = rehash_node H k j (rehash_path H idx k t)"
    using step.hyps by (simp add: rehash_path_def drop_bit_eq_div jk)
  ultimately have "rehash_path H idx (Suc k) t
    = internal_set_hash k j (node_hash H (mt_data t) (mt_length t) k j) (rehash_path H idx k t)"
    by (rule trans [rotated])
  then show ?case
    using step.IH [of h i] step.prems jk by (auto simp: less_Suc_eq)
qed

text \<open>After \<open>internal_post_update\<close> the stored hashes and the root are those of the reference tree.\<close>

lemma internal_post_update_ok:
  assumes idx: "idx < mt_length t" and len: "mt_length t \<le> 2 ^ 31"
    and off: "\<And>h i. i \<noteq> idx div 2 ^ h \<Longrightarrow> internal_get_hash t h i =
      (if h < tree_height t then node_hash H (mt_data t) (mt_length t) h i else default_hash)"
    and above: "\<And>h i. tree_height t \<le> h \<Longrightarrow> internal_get_hash t h i = default_hash"
  obtains t' where "internal_post_update H idx t = Inr t'"
    and "hashes_ok H t'" and "mt_root t' = reference_root H (mt_data t) (mt_length t)"
    and "mt_data t' = mt_data t" "mt_length t' = mt_length t" "mt_accounts t' = mt_accounts t"
    and "mt_global_state t' = mt_global_state t" "mt_previous_snapshot t' = mt_previous_snapshot t"
    and "mt_last_block_height t' = mt_last_block_height t"
proof -
  let ?t0 = "internal_set_hash 0 idx (internal_hash_value H t idx) t"
  let ?t1 = "rehash_path H idx (tree_height t) ?t0"
  let ?N = "node_hash H (mt_data t) (mt_length t)"
  have pos: "0 < mt_length t" using idx by simp
  have len32: "mt_length t \<le> 2 ^ 32" using len by simp
  note height = height_of_length_spec [OF pos len32, folded tree_height_def]
  have "internal_get_hash ?t1 h i = (if h < tree_height t \<and> i = idx div 2 ^ h then ?N h i else internal_get_hash ?t0 h i)" for h i
  proof -
    have "internal_get_hash ?t0 0 idx = ?N 0 idx"
      by (simp add: internal_hash_value_def)
    then show ?thesis
      using rehash_path_hashes [of idx ?t0 "tree_height t" H "tree_height t" h i] idx off height(1) by auto
  qed
  then have all: "internal_get_hash ?t1 h i = (if h < tree_height t then ?N h i else default_hash)" for h i
    using off [of i h] above height(1) by (cases "i = idx div 2 ^ h") (auto simp: not_less)
  have th: "tree_height ?t1 = tree_height t" by (simp add: tree_height_def)
  let ?t' = "?t1\<lparr>mt_root := internal_get_hash ?t1 (tree_height t - 1) 0\<rparr>"
  show thesis
  proof
    show "internal_post_update H idx t = Inr ?t'"
      using height(1) tree_height_le_32 [OF len32] len unfolding internal_post_update_eq by (simp add: Let_def)
    show "hashes_ok H ?t'"
      using all by (simp add: hashes_ok_def tree_height_def)
    show "mt_root ?t' = reference_root H (mt_data t) (mt_length t)"
      using all [of "tree_height t - 1" 0] height(1) pos by (simp add: reference_root_def tree_height_def)
  qed simp_all
qed

lemma internal_pre_update_simps [simp]:
  "mt_data (internal_pre_update b t) = mt_data t"
  "mt_length (internal_pre_update b t) = mt_length t"
  "mt_accounts (internal_pre_update b t) = mt_accounts t"
  "mt_hashes (internal_pre_update b t) = mt_hashes t"
  "mt_root (internal_pre_update b t) = mt_root t"
  "mt_global_state (internal_pre_update b t) = mt_global_state t"
  "mt_last_block_height (internal_pre_update b t) = b"
  by (simp_all add: internal_pre_update_def)

text \<open>The tree that \<open>mt_set\<close> hands to \<open>internal_post_update\<close>.\<close>

definition set_leaf :: "nat \<Rightarrow> account_id \<Rightarrow> 'v \<Rightarrow> ('v, 'g) merkle_tree \<Rightarrow> nat \<times> ('v, 'g) merkle_tree" where
  "set_leaf b a v t =
     (case mt_accounts t a of
        Some i \<Rightarrow> (i, (internal_pre_update b t)\<lparr>mt_data := (mt_data t)(i \<mapsto> v)\<rparr>)
      | None \<Rightarrow> (mt_length t, (internal_pre_update b t)\<lparr>mt_length := Suc (mt_length t),
                  mt_accounts := (mt_accounts t)(a \<mapsto> mt_length t),
                  mt_data := (mt_data t)(mt_length t \<mapsto> v)\<rparr>))"

lemma mt_set_leaf:
  "mt_set H b a v t =
     (if mt_accounts t a = None \<and> 2 ^ 32 \<le> Suc (mt_length t) then Inl Overflow
      else and_then (internal_post_update H (fst (set_leaf b a v t)) (snd (set_leaf b a v t)))
        (\<lambda>t'. Inr (mt_data t (fst (set_leaf b a v t)), t')))"
  by (auto simp: mt_set_def set_leaf_def Let_def add_u_def check_def split: option.splits)

lemma set_leaf_post_update:
  assumes inv: "merkle_inv H t" and room: "mt_accounts t a = None \<longrightarrow> mt_length t < 2 ^ 31"
    and sl: "set_leaf b a v t = (idx, t2)"
  shows "idx < mt_length t2" "mt_length t2 \<le> 2 ^ 31"
    and "mt_data t2 = (mt_data t)(idx \<mapsto> v)"
    and "mt_length t2 = mt_length t \<or> mt_length t2 = Suc (mt_length t) \<and> idx = mt_length t"
    and "mt_accounts t2 = (mt_accounts t)(a \<mapsto> idx)"
    and "mt_hashes t2 = mt_hashes t"
    and "mt_global_state t2 = mt_global_state t" "mt_last_block_height t2 = b"
    and "mt_previous_snapshot t2 = mt_previous_snapshot (internal_pre_update b t)"
proof -
  have ix: "index_ok t" using inv by (simp add: merkle_inv_def)
  have "mt_accounts t a = Some i \<Longrightarrow> i < mt_length t" for i
    using ix unfolding index_ok_def ran_def by auto
  moreover have "mt_accounts t a = Some i \<Longrightarrow> (mt_accounts t)(a \<mapsto> i) = mt_accounts t" for i
    by (rule map_upd_triv)
  ultimately show "idx < mt_length t2" "mt_length t2 \<le> 2 ^ 31"
    and "mt_data t2 = (mt_data t)(idx \<mapsto> v)"
    and "mt_length t2 = mt_length t \<or> mt_length t2 = Suc (mt_length t) \<and> idx = mt_length t"
    and "mt_accounts t2 = (mt_accounts t)(a \<mapsto> idx)"
    and "mt_hashes t2 = mt_hashes t"
    and "mt_global_state t2 = mt_global_state t" "mt_last_block_height t2 = b"
    and "mt_previous_snapshot t2 = mt_previous_snapshot (internal_pre_update b t)"
    using sl room ix by (auto simp: set_leaf_def index_ok_def split: option.splits)
qed


lemma tree_height_bound:
  assumes "mt_length t \<le> 2 ^ 31" "tree_height t \<le> h"
  shows "mt_length t < 2 ^ h \<or> mt_length t = 0"
proof (cases "mt_length t = 0")
  case False
  then have pos: "0 < mt_length t" by simp
  have "mt_length t \<le> 2 ^ 32" using assms(1) by simp
  note height = height_of_length_spec [OF pos this, folded tree_height_def]
  have "(2::nat) ^ (tree_height t - 1) < 2 ^ h"
    using height(1) assms(2) by (intro power_strict_increasing) auto
  with height(2) show ?thesis by linarith
qed simp

text \<open>Before the path is rehashed, every node off the path already has its new reference hash.\<close>

lemma set_leaf_off_path:
  assumes inv: "merkle_inv H t" and room: "mt_accounts t a = None \<longrightarrow> mt_length t < 2 ^ 31"
    and sl: "set_leaf b a v t = (idx, t2)"
  shows "tree_height t \<le> tree_height t2"
    and "i \<noteq> idx div 2 ^ h \<Longrightarrow> internal_get_hash t2 h i =
      (if h < tree_height t2 then node_hash H (mt_data t2) (mt_length t2) h i else default_hash)"
    and "tree_height t2 \<le> h \<Longrightarrow> internal_get_hash t2 h i = default_hash"
proof -
  note f = set_leaf_post_update [OF inv room sl]
  have ix: "mt_length t \<le> 2 ^ 31" "dom (mt_data t) = {..<mt_length t}"
    and get: "internal_get_hash t h i =
      (if h < tree_height t then node_hash H (mt_data t) (mt_length t) h i else default_hash)" for h i
    using inv by (simp_all add: merkle_inv_def index_ok_def hashes_ok_def)
  have get2: "internal_get_hash t2 h i = internal_get_hash t h i" for h i
    using f(6) by (simp add: internal_get_hash_def)
  show mono: "tree_height t \<le> tree_height t2"
  proof (cases "mt_length t = 0")
    case True
    then show ?thesis by (simp add: tree_height_def height_of_length_def)
  next
    case False
    then show ?thesis
      unfolding tree_height_def using f(2,4) by (intro height_of_length_mono) auto
  qed
  then show "tree_height t2 \<le> h \<Longrightarrow> internal_get_hash t2 h i = default_hash"
    using get get2 by simp
  assume off: "i \<noteq> idx div 2 ^ h"
  have frame: "node_hash H (mt_data t2) (mt_length t2) h i = node_hash H (mt_data t) (mt_length t) h i"
    unfolding f(3) using f(4) off by (intro node_hash_frame) auto
  have "node_hash H (mt_data t) (mt_length t) h i = default_hash" if le: "tree_height t \<le> h"
  proof (rule node_hash_beyond [OF _ ix(2)])
    have "idx \<le> mt_length t" using f(1,4) by auto
    with tree_height_bound [OF ix(1) le] have "idx div 2 ^ h = 0" "mt_length t \<le> 2 ^ h" by auto
    with off show "mt_length t \<le> i * 2 ^ h" by (cases i) auto
  qed
  then show "internal_get_hash t2 h i =
      (if h < tree_height t2 then node_hash H (mt_data t2) (mt_length t2) h i else default_hash)"
    using frame get get2 mono by auto
qed

lemma index_ok_extend:
  assumes ok: "index_ok t" and room: "mt_accounts t a = None \<longrightarrow> mt_length t < 2 ^ 31"
    and sl: "set_leaf b a v t = (idx, t2)"
  shows "index_ok t2" and "mt_data t idx = mt_get t a"
proof -
  have dom: "dom (mt_data t) = {..<mt_length t}" and ran: "ran (mt_accounts t) = {..<mt_length t}"
    and inj: "inj_on (mt_accounts t) (dom (mt_accounts t))" and len: "mt_length t \<le> 2 ^ 31"
    using ok by (simp_all add: index_ok_def)
  have "index_ok t2 \<and> mt_data t idx = mt_get t a"
  proof (cases "mt_accounts t a")
    case None
    have "mt_data t (mt_length t) = None" using dom by (metis domIff lessThan_iff less_irrefl)
    moreover have "inj_on ((mt_accounts t)(a \<mapsto> mt_length t)) (dom ((mt_accounts t)(a \<mapsto> mt_length t)))"
      using inj ran None by (fastforce simp: inj_on_def ran_def dom_def)
    moreover have "dom ((mt_data t)(mt_length t \<mapsto> v)) = {..<Suc (mt_length t)}"
      using dom by (simp add: lessThan_Suc)
    moreover have "ran ((mt_accounts t)(a \<mapsto> mt_length t)) = {..<Suc (mt_length t)}"
      using ran None by (simp add: lessThan_Suc)
    moreover have "t2 = (internal_pre_update b t)\<lparr>mt_length := Suc (mt_length t),
        mt_accounts := (mt_accounts t)(a \<mapsto> mt_length t), mt_data := (mt_data t)(mt_length t \<mapsto> v)\<rparr>"
      "idx = mt_length t"
      using None sl by (auto simp: set_leaf_def)
    ultimately show ?thesis
      using None room unfolding index_ok_def mt_get_def
      by (simp del: dom_fun_upd inj_on_insert)
  next
    case (Some i)
    then have "i < mt_length t" using ran by (auto simp: ran_def)
    moreover from this have "dom ((mt_data t)(i \<mapsto> v)) = {..<mt_length t}"
      using dom by (auto simp: domIff [symmetric] insert_absorb)
    moreover have "t2 = (internal_pre_update b t)\<lparr>mt_data := (mt_data t)(i \<mapsto> v)\<rparr>" "idx = i"
      using Some sl by (auto simp: set_leaf_def)
    ultimately show ?thesis
      using Some ran inj len by (simp add: index_ok_def mt_get_def del: dom_fun_upd)
  qed
  then show "index_ok t2" and "mt_data t idx = mt_get t a" by auto
qed

lemma mt_set_ok:
  assumes inv: "merkle_inv H t" and room: "mt_accounts t a = None \<longrightarrow> mt_length t < 2 ^ 31"
  obtains idx t' where "mt_set H b a v t = Inr (mt_get t a, t')" and "merkle_inv H t'"
    and "mt_data t' = (mt_data t)(idx \<mapsto> v)" and "mt_accounts t' = (mt_accounts t)(a \<mapsto> idx)"
    and "mt_length t' = mt_length t \<or> mt_length t' = Suc (mt_length t) \<and> idx = mt_length t"
    and "mt_global_state t' = mt_global_state t" and "mt_last_block_height t' = b"
    and "mt_previous_snapshot t' = mt_previous_snapshot (internal_pre_update b t)"
proof -
  obtain idx t2 where sl: "set_leaf b a v t = (idx, t2)" by fastforce
  note f = set_leaf_post_update [OF inv room sl] and off = set_leaf_off_path [OF inv room sl]
  have ix: "index_ok t" using inv by (simp add: merkle_inv_def)
  note x = index_ok_extend [OF ix room sl]
  obtain t' where t': "internal_post_update H idx t2 = Inr t'" "hashes_ok H t'"
      "mt_root t' = reference_root H (mt_data t2) (mt_length t2)"
      "mt_data t' = mt_data t2" "mt_length t' = mt_length t2" "mt_accounts t' = mt_accounts t2"
      "mt_global_state t' = mt_global_state t2" "mt_previous_snapshot t' = mt_previous_snapshot t2"
      "mt_last_block_height t' = mt_last_block_height t2"
    using internal_post_update_ok [OF f(1,2) off(2,3)] by metis
  show thesis
  proof (rule that [of t' idx])
    show "mt_set H b a v t = Inr (mt_get t a, t')"
      using room sl t'(1) x(2) by (auto simp: mt_set_leaf)
    show "merkle_inv H t'"
      using x(1) t' by (simp add: merkle_inv_def index_ok_def)
  qed (use t' f in simp_all)
qed

lemma mt_set_eq_Inr_room:
  assumes "mt_set H b a v t = Inr r"
  shows "mt_accounts t a = None \<longrightarrow> mt_length t < 2 ^ 31"
proof
  assume a: "mt_accounts t a = None"
  let ?t = "snd (set_leaf b a v t)"
  have len: "mt_length ?t = Suc (mt_length t)" using a by (simp add: set_leaf_def)
  have "Suc (mt_length t) < 2 ^ 32" "tree_height ?t \<le> 32"
    using assms a by (auto simp: mt_set_leaf and_then_eq_Inr internal_post_update_eq split: if_splits)
  with tree_height_le_32 [of ?t] len show "mt_length t < 2 ^ 31" by simp
qed

lemma merkle_inv_new: "merkle_inv H (mt_new b g)"
  by (simp add: merkle_inv_def index_ok_def hashes_ok_def mt_new_def reference_root_def
      tree_height_def height_of_length_def internal_get_hash_def)

lemma mt_set_inv:
  assumes "merkle_inv H t" "mt_set H b a v t = Inr (old, t')"
  obtains idx where "old = mt_get t a" and "merkle_inv H t'"
    and "mt_data t' = (mt_data t)(idx \<mapsto> v)" and "mt_accounts t' = (mt_accounts t)(a \<mapsto> idx)"
    and "mt_length t' = mt_length t \<or> mt_length t' = Suc (mt_length t) \<and> idx = mt_length t"
    and "mt_global_state t' = mt_global_state t" and "mt_last_block_height t' = b"
    and "mt_previous_snapshot t' = mt_previous_snapshot (internal_pre_update b t)"
proof -
  obtain idx t1 where "mt_set H b a v t = Inr (mt_get t a, t1)" "merkle_inv H t1"
      "mt_data t1 = (mt_data t)(idx \<mapsto> v)" "mt_accounts t1 = (mt_accounts t)(a \<mapsto> idx)"
      "mt_length t1 = mt_length t \<or> mt_length t1 = Suc (mt_length t) \<and> idx = mt_length t"
      "mt_global_state t1 = mt_global_state t" "mt_last_block_height t1 = b"
      "mt_previous_snapshot t1 = mt_previous_snapshot (internal_pre_update b t)"
    by (rule mt_set_ok [OF assms(1) mt_set_eq_Inr_room [OF assms(2)], of b v])
  with assms(2) show thesis by (intro that [of idx]) simp_all
qed

lemma mt_get_after_set:
  assumes "merkle_inv H t" "mt_set H b a v t = Inr (old, t')"
  shows "mt_get t' x = (if x = a then Some v else mt_get t x)"
proof -
  obtain idx where t': "merkle_inv H t'" "mt_data t' = (mt_data t)(idx \<mapsto> v)"
      "mt_accounts t' = (mt_accounts t)(a \<mapsto> idx)"
    by (rule mt_set_inv [OF assms])
  have inj: "inj_on (mt_accounts t') (dom (mt_accounts t'))"
    using t'(1) by (simp add: merkle_inv_def index_ok_def)
  show ?thesis
  proof (cases "x = a")
    case False
    have "mt_accounts t x \<noteq> Some idx"
    proof
      assume "mt_accounts t x = Some idx"
      then have "mt_accounts t' x = mt_accounts t' a" "x \<in> dom (mt_accounts t')" "a \<in> dom (mt_accounts t')"
        using t'(3) by auto
      from inj_onD [OF inj this] False show False by simp
    qed
    with False t' show ?thesis by (cases "mt_accounts t x") (auto simp: mt_get_def)
  qed (use t' in \<open>simp add: mt_get_def\<close>)
qed

lemma index_count:
  assumes "merkle_inv H t"
  shows "finite (dom (mt_accounts t))" and "mt_length t = card (dom (mt_accounts t))"
proof -
  have inj: "inj_on (mt_accounts t) (dom (mt_accounts t))" and ran: "ran (mt_accounts t) = {..<mt_length t}"
    using assms by (simp_all add: merkle_inv_def index_ok_def)
  have img: "mt_accounts t ` dom (mt_accounts t) = Some ` {..<mt_length t}"
    unfolding ran [symmetric] by (force simp: ran_def dom_def image_iff)
  then show "finite (dom (mt_accounts t))"
    by (metis finite_imageD finite_imageI finite_lessThan inj)
  have "card (mt_accounts t ` dom (mt_accounts t)) = mt_length t"
    unfolding img by (simp add: card_image)
  then show "mt_length t = card (dom (mt_accounts t))" by (simp add: card_image [OF inj])
qed

lemma mt_get_set_global_state [simp]: "mt_get (mt_set_global_state b g t) x = mt_get t x"
  by (simp add: mt_set_global_state_def mt_get_def)

lemma merkle_inv_set_global_state [simp]:
  "merkle_inv H (mt_set_global_state b g t) = merkle_inv H t"
  by (simp add: mt_set_global_state_def merkle_inv_def index_ok_def hashes_ok_def
      tree_height_def internal_get_hash_def)

lemma mt_get_new [simp]: "mt_get (mt_new b g) x = None"
  by (simp add: mt_get_def mt_new_def)

section \<open>The tree as a store of accounts\<close>

text \<open>
  What the users of the tree rely on: a successful \<open>store\<close> changes the value of one account and
  nothing else. The consequence for a sequence of updates is proved once from the two laws.
\<close>

locale account_store =
  fixes lookup :: "'s \<Rightarrow> account_id \<Rightarrow> 'v option"
    and store :: "account_id \<Rightarrow> 'v \<Rightarrow> 's \<Rightarrow> 's res"
    and ok :: "'s \<Rightarrow> bool"
  assumes store_ok: "ok s \<Longrightarrow> store a v s = Inr s' \<Longrightarrow> ok s'"
    and lookup_store: "ok s \<Longrightarrow> store a v s = Inr s' \<Longrightarrow> lookup s' x = (if x = a then Some v else lookup s x)"
begin

lemma store_all:
  assumes "ok s" "for_each (\<lambda>(a, v). store a v) avs s = Inr s'"
  shows "ok s' \<and> lookup s' = lookup s ++ map_of (rev avs)"
  using assms
proof (induction avs arbitrary: s)
  case (Cons av avs)
  obtain a v where av: "av = (a, v)" by fastforce
  from Cons.prems obtain s1 where 1: "store a v s = Inr s1" "for_each (\<lambda>(a, v). store a v) avs s1 = Inr s'"
    by (auto simp: av and_then_eq_Inr)
  have "lookup s1 = (lookup s)(a \<mapsto> v)"
    by (rule ext) (simp add: lookup_store [OF Cons.prems(1) 1(1)])
  with Cons.IH [OF store_ok [OF Cons.prems(1) 1(1)] 1(2)] show ?case
    by (auto simp: av map_add_def fun_upd_def split: option.splits)
qed simp

end

definition tree_store :: "'v hasher \<Rightarrow> nat \<Rightarrow> account_id \<Rightarrow> 'v \<Rightarrow> ('v, 'g) merkle_tree \<Rightarrow> ('v, 'g) merkle_tree res" where
  "tree_store H b a v t = and_then (mt_set H b a v t) (\<lambda>(old, t'). Inr t')"

lemma tree_store_eq_Inr:
  "tree_store H b a v t = Inr t' \<longleftrightarrow> (\<exists>old. mt_set H b a v t = Inr (old, t'))"
  by (auto simp: tree_store_def and_then_eq_Inr)

lemma mt_set_keeps: "merkle_inv H t \<Longrightarrow> mt_set H b a v t = Inr (old, t') \<Longrightarrow> merkle_inv H t'"
  by (erule mt_set_inv) auto

interpretation mts: account_store mt_get "tree_store H b" "merkle_inv H"
  for H :: "'v hasher" and b
proof
  fix t t' :: "('v, 'g) merkle_tree" and a v x
  assume "merkle_inv H t" "tree_store H b a v t = Inr t'"
  then show "merkle_inv H t'" "mt_get t' x = (if x = a then Some v else mt_get t x)"
    by (auto simp: tree_store_eq_Inr mt_get_after_set intro: mt_set_keeps)
qed

section \<open>Messages and snapshots\<close>

datatype ('v, 'g) tree_message = Set_Leaf nat account_id 'v | Set_Global_State nat 'g

fun message_height :: "('v, 'g) tree_message \<Rightarrow> nat" where
  "message_height (Set_Leaf b a v) = b"
| "message_height (Set_Global_State b g) = b"

fun tree_step :: "'v hasher \<Rightarrow> ('v, 'g) tree_message \<Rightarrow> ('v, 'g) merkle_tree \<Rightarrow> (('v, 'g) merkle_tree \<times> 'v option) res" where
  "tree_step H (Set_Leaf b a v) t = and_then (mt_set H b a v t) (\<lambda>(old, t'). Inr (t', old))"
| "tree_step H (Set_Global_State b g) t = Inr (mt_set_global_state b g t, None)"

interpretation mtm: message_machine "tree_step H" "merkle_inv H"
  for H :: "'v hasher"
proof
  fix t t' :: "('v, 'g) merkle_tree" and m out
  show "merkle_inv H t \<Longrightarrow> tree_step H m t = Inr (t', out) \<Longrightarrow> merkle_inv H t'"
    by (cases m) (auto simp: and_then_eq_Inr intro: mt_set_keeps)
qed

lemma internal_pre_update_get_snapshot:
  "mt_get_snapshot b (internal_pre_update b t) = mt_get_snapshot b t"
  by (simp add: mt_get_snapshot_def internal_pre_update_def)

lemma tree_step_snapshot:
  assumes "merkle_inv H t" "tree_step H m t = Inr (t', out)"
  shows "mt_last_block_height t' = message_height m"
    and "mt_get_snapshot (message_height m) t' = mt_get_snapshot (message_height m) t"
proof -
  have "mt_last_block_height t' = message_height m
    \<and> mt_get_snapshot (message_height m) t' = mt_get_snapshot (message_height m) t"
  proof (cases m)
    case (Set_Leaf b a v)
    then obtain old where "mt_set H b a v t = Inr (old, t')"
      using assms(2) by (auto simp: and_then_eq_Inr)
    then have "mt_last_block_height t' = b"
        "mt_previous_snapshot t' = mt_previous_snapshot (internal_pre_update b t)"
      by (auto elim: mt_set_inv [OF assms(1)])
    with Set_Leaf internal_pre_update_get_snapshot [of b t] show ?thesis
      by (simp add: mt_get_snapshot_def)
  next
    case (Set_Global_State b g)
    with assms(2) internal_pre_update_get_snapshot [of b t] show ?thesis
      by (auto simp: mt_get_snapshot_def mt_set_global_state_def)
  qed
  then show "mt_last_block_height t' = message_height m"
    and "mt_get_snapshot (message_height m) t' = mt_get_snapshot (message_height m) t" by auto
qed

lemma run_block_snapshot:
  assumes "merkle_inv H t" "\<And>m. m \<in> set ms \<Longrightarrow> message_height m = b"
  shows "mt_get_snapshot b (run (tree_step H) ms t) = mt_get_snapshot b t"
  using assms
proof (induction ms arbitrary: t)
  case (Cons m ms)
  have "mt_get_snapshot b (after (tree_step H m t) t) = mt_get_snapshot b t"
    using tree_step_snapshot(2) [OF Cons.prems(1), of m] Cons.prems(2) [of m]
    by (auto simp: after_def split: sum.splits)
  with Cons.IH [OF mtm.after_keeps [OF Cons.prems(1)]] Cons.prems(2) show ?case by simp
qed simp

lemma run_last_block_height:
  assumes "merkle_inv H t" "mt_last_block_height t < b" "\<And>m. m \<in> set ms \<Longrightarrow> message_height m < b"
  shows "mt_last_block_height (run (tree_step H) ms t) < b"
  using assms
proof (induction ms arbitrary: t)
  case (Cons m ms)
  have "mt_last_block_height (after (tree_step H m t) t) < b"
    using tree_step_snapshot(1) [OF Cons.prems(1), of m] Cons.prems(2,3)
    by (auto simp: after_def split: sum.splits)
  with Cons.IH [OF mtm.after_keeps [OF Cons.prems(1)]] Cons.prems(3) show ?case by simp
qed simp

lemma sorted_split_last:
  fixes f :: "'m \<Rightarrow> nat"
  shows "sorted (map f ms) \<Longrightarrow> (\<And>m. m \<in> set ms \<Longrightarrow> f m \<le> b)
    \<Longrightarrow> ms = filter (\<lambda>m. f m < b) ms @ filter (\<lambda>m. f m = b) ms"
proof (induction ms)
  case (Cons m ms)
  show ?case
  proof (cases "f m < b")
    case True
    with Cons show ?thesis by simp
  next
    case False
    then have m: "f m = b" using Cons.prems(2) [of m] by simp
    moreover have "f x = b" if "x \<in> set ms" for x
      using Cons.prems that m by (auto intro!: antisym)
    ultimately show ?thesis by (simp add: filter_empty_conv)
  qed
qed simp

section \<open>Inclusion proofs\<close>

text \<open>Climbing along the reference hashes of the siblings reaches the reference hash of the ancestor.\<close>

lemma climb_reference:
  assumes "idx < len" "h \<le> K"
  shows "climb H idx h (map (\<lambda>k. node_hash H data len k (drop_bit k idx XOR 1)) [h..<K])
    (node_hash H data len h (idx div 2 ^ h)) = node_hash H data len K (idx div 2 ^ K)"
  using assms(2)
proof (induction h rule: inc_induct)
  case (step h)
  define x where "x = idx div 2 ^ h"
  have d: "drop_bit h idx = x" by (simp add: x_def drop_bit_eq_div)
  note path = node_hash_path [OF assms(1), of H data h, unfolded div_pow_Suc, folded x_def]
  have "(if x AND 1 = 0 then hash_pair H (node_hash H data len h x) (node_hash H data len h (x XOR 1))
        else hash_pair H (node_hash H data len h (x XOR 1)) (node_hash H data len h x))
     = node_hash H data len (Suc h) (x div 2)"
  proof -
    obtain y where "x = 2 * y \<or> x = 2 * y + 1" by (metis evenE oddE)
    then show ?thesis unfolding path by (auto simp: and_one_eq xor_Suc_0_eq)
  qed
  moreover have "[h..<K] = h # [Suc h..<K]" using step.hyps by (simp add: upt_conv_Cons)
  ultimately show ?case
    using step.IH [unfolded div_pow_Suc, folded x_def]
    by (simp only: list.map climb.simps d x_def [symmetric])
qed simp

lemma mt_get_proof_reference:
  assumes inv: "merkle_inv H t" and a: "mt_accounts t a = Some idx" "mt_data t idx = Some v"
  shows "mt_get_proof t a = Inr (Some (\<lparr>proof_index = idx,
      proof_path = map (\<lambda>k. node_hash H (mt_data t) (mt_length t) k (drop_bit k idx XOR 1))
        [0..<tree_height t - 1]\<rparr>, v))"
proof -
  have ix: "index_ok t" using inv by (simp add: merkle_inv_def)
  then have idx: "idx < mt_length t" "mt_length t \<le> 2 ^ 31" using a by (auto simp: index_ok_def ran_def)
  have h: "1 \<le> tree_height t"
    unfolding tree_height_def using idx by (intro height_of_length_spec(1)) auto
  have "map (\<lambda>k. internal_get_hash t k (drop_bit k idx XOR 1)) [0..<tree_height t - 1]
    = map (\<lambda>k. node_hash H (mt_data t) (mt_length t) k (drop_bit k idx XOR 1)) [0..<tree_height t - 1]"
    using inv by (intro map_cong refl) (auto simp: merkle_inv_def hashes_ok_def)
  with a h show ?thesis by (simp add: mt_get_proof_def)
qed

lemma mt_get_index:
  assumes "mt_get t a = Some v"
  obtains idx where "mt_accounts t a = Some idx" "mt_data t idx = Some v"
  using assms by (auto simp: mt_get_def bind_eq_Some_conv)

lemma is_valid_reference:
  assumes inv: "merkle_inv H t" and v: "mt_data t idx = Some v"
  shows "is_valid H \<lparr>proof_index = idx,
      proof_path = map (\<lambda>k. node_hash H (mt_data t) (mt_length t) k (drop_bit k idx XOR 1))
        [0..<tree_height t - 1]\<rparr> (mt_root t) (mt_length t) v"
proof -
  have "idx \<in> dom (mt_data t)" using v by auto
  then have idx: "idx < mt_length t" "mt_length t \<le> 2 ^ 31"
    using inv by (auto simp: merkle_inv_def index_ok_def)
  then have pos: "0 < mt_length t" "mt_length t \<le> 2 ^ 32" by auto
  note height = height_of_length_spec [OF pos, folded tree_height_def]
  have "idx div 2 ^ (tree_height t - 1) = 0" using height(2) idx by simp
  moreover have "sha256 H (to_vec H v) = node_hash H (mt_data t) (mt_length t) 0 (idx div 2 ^ 0)"
    using v by simp
  moreover have "mt_root t = node_hash H (mt_data t) (mt_length t) (tree_height t - 1) 0"
    using inv pos by (simp add: merkle_inv_def reference_root_def tree_height_def)
  ultimately show ?thesis
    using climb_reference [OF idx(1), of 0 "tree_height t - 1" H "mt_data t"] idx height(1)
    by (simp add: is_valid_def tree_height_def [symmetric])
qed

text \<open>The inputs of the hash function that a verification of a proof evaluates.\<close>

fun climb_inputs :: "'v hasher \<Rightarrow> nat \<Rightarrow> nat \<Rightarrow> crypto_hash list \<Rightarrow> crypto_hash \<Rightarrow> byte list set" where
  "climb_inputs H index height [] hash = {}"
| "climb_inputs H index height (s # path) hash =
     (let bytes = (if drop_bit height index AND 1 = 0 then hash_bytes hash @ hash_bytes s
                   else hash_bytes s @ hash_bytes hash)
      in insert bytes (climb_inputs H index (Suc height) path (sha256 H bytes)))"

definition proof_inputs :: "'v hasher \<Rightarrow> merkle_proof \<Rightarrow> 'v \<Rightarrow> byte list set" where
  "proof_inputs H p v =
     insert (to_vec H v) (climb_inputs H (proof_index p) 0 (proof_path p) (sha256 H (to_vec H v)))"

lemma length_hash_bytes [simp]: "length (hash_bytes h) = 32"
  by (simp add: hash_bytes_def)

lemma hash_bytes_inject: "hash_bytes a = hash_bytes b \<longleftrightarrow> a = b"
proof
  assume eq: "hash_bytes a = hash_bytes b"
  have "bit a n = bit b n" if n: "n < 256" for n
  proof -
    have i: "31 - n div 8 < 32" "8 * (31 - (31 - n div 8)) = 8 * (n div 8)" using n by auto
    from eq have "hash_bytes a ! (31 - n div 8) = hash_bytes b ! (31 - n div 8)" by simp
    then have "bit (ucast (drop_bit (8 * (n div 8)) a) :: byte) (n mod 8)
      = bit (ucast (drop_bit (8 * (n div 8)) b) :: byte) (n mod 8)"
      using i by (simp add: hash_bytes_def)
    then show ?thesis by (simp add: bit_simps)
  qed
  then show "a = b" by (intro bit_word_eqI) simp
qed simp

lemma climb_inject:
  assumes "length p = length q" "climb H i h p x = climb H i h q y"
    and "inj_on (sha256 H) (climb_inputs H i h p x \<union> climb_inputs H i h q y)"
  shows "x = y"
  using assms
proof (induction p q arbitrary: h x y rule: list_induct2)
  case (Cons s p r q)
  let ?b = "\<lambda>x s. if drop_bit h i AND 1 = 0 then hash_bytes x @ hash_bytes s else hash_bytes s @ hash_bytes x"
  have c: "climb H i h (s # p) x = climb H i (Suc h) p (sha256 H (?b x s))" for s p x
    by (simp add: hash_pair_def)
  have "sha256 H (?b x s) = sha256 H (?b y r)"
  proof (rule Cons.IH)
    show "climb H i (Suc h) p (sha256 H (?b x s)) = climb H i (Suc h) q (sha256 H (?b y r))"
      using Cons.prems(1) unfolding c .
    show "inj_on (sha256 H) (climb_inputs H i (Suc h) p (sha256 H (?b x s))
        \<union> climb_inputs H i (Suc h) q (sha256 H (?b y r)))"
      by (rule inj_on_subset [OF Cons.prems(2)]) (auto simp: Let_def)
  qed
  then have "?b x s = ?b y r"
    by (rule inj_onD [OF Cons.prems(2)]) (auto simp: Let_def)
  then show ?case by (auto simp: hash_bytes_inject split: if_splits)
qed simp

lemma is_valid_bytes:
  assumes "is_valid H p root len v" "is_valid H q root len w" "proof_index p = proof_index q"
    and "inj_on (sha256 H) (proof_inputs H p v \<union> proof_inputs H q w)"
  shows "to_vec H v = to_vec H w"
proof -
  let ?x = "sha256 H (to_vec H v)" and ?y = "sha256 H (to_vec H w)" and ?i = "proof_index q"
  have "length (proof_path p) = length (proof_path q)"
    and "climb H ?i 0 (proof_path p) ?x = climb H ?i 0 (proof_path q) ?y"
    using assms(1-3) by (auto simp: is_valid_def split: if_splits)
  moreover have "inj_on (sha256 H) (climb_inputs H ?i 0 (proof_path p) ?x \<union> climb_inputs H ?i 0 (proof_path q) ?y)"
    by (rule inj_on_subset [OF assms(4)]) (auto simp: proof_inputs_def assms(3))
  ultimately have "?x = ?y" by (rule climb_inject)
  then show ?thesis by (rule inj_onD [OF assms(4)]) (auto simp: proof_inputs_def)
qed

lemma is_valid_inject:
  assumes "is_valid H p root len v" "is_valid H q root len w" "proof_index p = proof_index q"
    and "inj_on (sha256 H) (proof_inputs H p v \<union> proof_inputs H q w)" and "inj (to_vec H)"
  shows "v = w"
  using is_valid_bytes [OF assms(1-4)] assms(5) by (simp add: inj_eq)

section \<open>Properties\<close>

text \<open>What a successful update of a leaf does, as seen through the lookups.\<close>

lemma mt_accounts_None_iff:
  assumes "merkle_inv H t"
  shows "mt_accounts t a = None \<longleftrightarrow> mt_get t a = None"
proof -
  have "mt_data t i \<noteq> None" if "mt_accounts t a = Some i" for i
  proof -
    have "i \<in> ran (mt_accounts t)" using that by (auto simp: ran_def)
    then have "i \<in> dom (mt_data t)" using assms by (simp add: merkle_inv_def index_ok_def)
    then show ?thesis by auto
  qed
  then show ?thesis by (cases "mt_accounts t a") (auto simp: mt_get_def)
qed

lemma mt_set_spec:
  assumes "merkle_inv H t" and "mt_get t a = None \<longrightarrow> mt_length t < 2 ^ 31"
  shows "\<exists>t'. mt_set H b a v t = Inr (mt_get t a, t') \<and> mt_get t' = (mt_get t)(a \<mapsto> v)
    \<and> mt_length t' = mt_length t + (if mt_get t a = None then 1 else 0)
    \<and> mt_global_state t' = mt_global_state t \<and> merkle_inv H t'"
proof -
  note none = mt_accounts_None_iff [OF assms(1), of a]
  obtain idx t' where t': "mt_set H b a v t = Inr (mt_get t a, t')" "merkle_inv H t'"
      "mt_accounts t' = (mt_accounts t)(a \<mapsto> idx)"
      "mt_length t' = mt_length t \<or> mt_length t' = Suc (mt_length t) \<and> idx = mt_length t"
      "mt_global_state t' = mt_global_state t"
    by (rule mt_set_ok [OF assms [folded none], of b v])
  have "mt_get t' = (mt_get t)(a \<mapsto> v)"
    by (rule ext) (simp add: mt_get_after_set [OF assms(1) t'(1)])
  moreover have "mt_length t' = mt_length t + (if mt_get t a = None then 1 else 0)"
    using index_count [OF assms(1)] index_count [OF t'(2)] t'(3,4)
    by (auto simp: card_insert_if domIff none [symmetric])
  ultimately show ?thesis using t' by blast
qed

lemma after_set_leaf:
  assumes "merkle_inv H t" and "mt_length t < 2 ^ 31"
  shows "mt_get (after (tree_step H (Set_Leaf b a v) t) t) = (mt_get t)(a \<mapsto> v)"
    and "mt_length (after (tree_step H (Set_Leaf b a v) t) t) = mt_length t + (if mt_get t a = None then 1 else 0)"
proof -
  obtain t' where "mt_set H b a v t = Inr (mt_get t a, t')" "mt_get t' = (mt_get t)(a \<mapsto> v)"
      "mt_length t' = mt_length t + (if mt_get t a = None then 1 else 0)"
    using mt_set_spec [OF assms(1), of a b v] assms(2) by blast
  then show "mt_get (after (tree_step H (Set_Leaf b a v) t) t) = (mt_get t)(a \<mapsto> v)"
    and "mt_length (after (tree_step H (Set_Leaf b a v) t) t) = mt_length t + (if mt_get t a = None then 1 else 0)"
    by (simp_all add: after_def)
qed

text \<open>A hash function over values that are their own serialisation, and a tree with two leaves.\<close>

definition sample_hasher :: "byte list hasher" where
  "sample_hasher = \<lparr>sha256 = (\<lambda>bs. if drop 32 bs = replicate 32 0 then 1 else 2), to_vec = (\<lambda>bs. bs)\<rparr>"

definition sample_messages :: "(byte list, nat) tree_message list" where
  "sample_messages = [Set_Leaf 3 ''a'' [1], Set_Global_State 4 9, Set_Leaf 5 ''b'' [2]]"

definition sample_tree :: "(byte list, nat) merkle_tree" where
  "sample_tree = run (tree_step sample_hasher) sample_messages (mt_new 2 8)"

lemma sample_tree_inv: "merkle_inv sample_hasher sample_tree"
  unfolding sample_tree_def by (rule mtm.run_keeps [OF merkle_inv_new])

lemma sample_tree_contents:
  "mt_get sample_tree = [''a'' \<mapsto> [1], ''b'' \<mapsto> [2]]" "mt_length sample_tree = 2"
proof -
  let ?t0 = "mt_new 2 8 :: (byte list, nat) merkle_tree"
  let ?t1 = "mt_set_global_state 4 9 (after (tree_step sample_hasher (Set_Leaf 3 ''a'' [1]) ?t0) ?t0)"
  have t: "sample_tree = after (tree_step sample_hasher (Set_Leaf 5 ''b'' [2]) ?t1) ?t1"
    by (simp add: sample_tree_def sample_messages_def after_def)
  have t0: "mt_length ?t0 = 0" "mt_get ?t0 = Map.empty" by (auto simp: mt_new_def mt_get_def)
  have i1: "merkle_inv sample_hasher ?t1"
    by (simp del: tree_step.simps add: mtm.after_keeps merkle_inv_new)
  have get: "mt_get (mt_set_global_state 4 9 t) = mt_get t" for t :: "(byte list, nat) merkle_tree"
    by (rule ext) simp
  have len: "mt_length (mt_set_global_state 4 9 t) = mt_length t" for t :: "(byte list, nat) merkle_tree"
    by (simp add: mt_set_global_state_def)
  have t1: "mt_get ?t1 = [''a'' \<mapsto> [1]]" "mt_length ?t1 = 1"
    using after_set_leaf [where t = ?t0 and H = sample_hasher and b = 3 and a = "''a''" and v = "[1]"] t0
    by (simp_all del: tree_step.simps add: get len merkle_inv_new)
  show "mt_get sample_tree = [''a'' \<mapsto> [1], ''b'' \<mapsto> [2]]" "mt_length sample_tree = 2"
    unfolding t using after_set_leaf [OF i1, of 5 "''b''" "[2]"] t1 by (simp_all del: tree_step.simps)
qed

text \<open>
  C12. Whatever sequence of leaf and global-state updates a tree has gone through, from its
  creation on and with rejected updates left out, the root that the incremental path rehashing
  stores is the root of the reference tree computed from all leaves.
\<close>

theorem root_is_reference_root:
  "let t = run (tree_step H) ms (mt_new b g) in mt_root t = reference_root H (mt_data t) (mt_length t)"
  using mtm.run_keeps [OF merkle_inv_new, of H ms b g] by (simp add: Let_def merkle_inv_def)

text \<open>
  Setting a leaf of a well-formed tree (which has room for \<open>2 ^ 31\<close> leaves) succeeds and returns the value the
  account had before; afterwards the account has the new value and every other account its
  old one, the tree is one leaf longer exactly if the account is new, the global state is
  untouched and the tree is well formed again.
\<close>

theorem mt_set_functional:
  assumes "merkle_inv H t" and "mt_get t a = None \<longrightarrow> mt_length t < 2 ^ 31"
  shows "\<exists>t'. mt_set H b a v t = Inr (mt_get t a, t') \<and> mt_get t' = (mt_get t)(a \<mapsto> v)
    \<and> mt_length t' = mt_length t + (if mt_get t a = None then 1 else 0)
    \<and> mt_global_state t' = mt_global_state t \<and> merkle_inv H t'"
  by (rule mt_set_spec [OF assms])

theorem mt_set_functional_witness:
  "\<exists>t'. mt_set sample_hasher 6 ''d'' [4] sample_tree = Inr (None, t')
    \<and> mt_get t' = [''a'' \<mapsto> [1], ''b'' \<mapsto> [2], ''d'' \<mapsto> [4]] \<and> mt_length t' = 3"
  using mt_set_functional [OF sample_tree_inv, of "''d''" 6 "[4]"] sample_tree_contents
  by auto

text \<open>
  C14. Inclusion proofs are complete: for every account stored in a well-formed tree the
  contract produces a proof, and that proof verifies against the root and the length of the tree.
\<close>

theorem inclusion_proof_complete:
  assumes "merkle_inv H t" and "mt_get t a = Some v"
  shows "\<exists>p. mt_get_proof t a = Inr (Some (p, v)) \<and> is_valid H p (mt_root t) (mt_length t) v"
proof -
  from assms(2) obtain idx where "mt_accounts t a = Some idx" "mt_data t idx = Some v"
    by (rule mt_get_index)
  then show ?thesis using mt_get_proof_reference [OF assms(1)] is_valid_reference [OF assms(1)] by auto
qed

theorem inclusion_proof_complete_witness:
  "\<exists>p. mt_get_proof sample_tree ''b'' = Inr (Some (p, [2]))
    \<and> is_valid sample_hasher p (mt_root sample_tree) (mt_length sample_tree) [2]"
  by (rule inclusion_proof_complete [OF sample_tree_inv]) (simp add: sample_tree_contents)

text \<open>
  C13. Inclusion proofs are sound: a proof that verifies against the root and the length of a
  well-formed tree names the leaf of some account, and if its value is not the one stored
  there, then two different inputs with the same hash are among the few that the
  verification of this proof and of the stored one evaluate: forging a proof takes a collision.
\<close>

theorem inclusion_proof_sound:
  assumes "merkle_inv H t" and "is_valid H p (mt_root t) (mt_length t) v" and "inj (to_vec H)"
  shows "\<exists>a q w. mt_accounts t a = Some (proof_index p) \<and> mt_get_proof t a = Inr (Some (q, w))
    \<and> (v = w \<or> (\<exists>x \<in> proof_inputs H p v \<union> proof_inputs H q w. \<exists>y \<in> proof_inputs H p v \<union> proof_inputs H q w.
          x \<noteq> y \<and> sha256 H x = sha256 H y))"
proof -
  let ?i = "proof_index p"
  have "?i < mt_length t" using assms(2) by (auto simp: is_valid_def split: if_splits)
  then obtain w where w: "mt_data t ?i = Some w"
    using assms(1) by (auto simp: merkle_inv_def index_ok_def dom_def)
  from \<open>?i < mt_length t\<close> obtain a where a: "mt_accounts t a = Some ?i"
    using assms(1) by (auto simp: merkle_inv_def index_ok_def ran_def)
  let ?q = "\<lparr>proof_index = ?i, proof_path = map (\<lambda>k. node_hash H (mt_data t) (mt_length t) k (drop_bit k ?i XOR 1))
        [0..<tree_height t - 1]\<rparr>"
  have q: "mt_get_proof t a = Inr (Some (?q, w))" by (rule mt_get_proof_reference [OF assms(1) a w])
  have "v = w" if "inj_on (sha256 H) (proof_inputs H p v \<union> proof_inputs H ?q w)"
    by (rule is_valid_inject [OF assms(2) is_valid_reference [OF assms(1) w] _ that assms(3)]) simp
  with a q show ?thesis unfolding inj_on_def by blast
qed

theorem inclusion_proof_sound_witness:
  "\<exists>p. is_valid sample_hasher p (mt_root sample_tree) (mt_length sample_tree) [2]
    \<and> (\<exists>a q w. mt_accounts sample_tree a = Some (proof_index p) \<and> mt_get_proof sample_tree a = Inr (Some (q, w)))"
proof -
  obtain i where "mt_data sample_tree i = Some [2]"
    using mt_get_index [of sample_tree "''b''" "[2]"] sample_tree_contents(1) by auto
  then obtain p where p: "is_valid sample_hasher p (mt_root sample_tree) (mt_length sample_tree) [2]"
    using is_valid_reference [OF sample_tree_inv] by blast
  have "inj (to_vec sample_hasher)" by (simp add: sample_hasher_def inj_def)
  with inclusion_proof_sound [OF sample_tree_inv p] p show ?thesis by blast
qed

text \<open>
  C15. The snapshot is the state at the end of an earlier block: after any sequence of updates
  in blocks of ascending heights, none later than \<open>b\<close>, the snapshot handed out in block \<open>b\<close> is the
  root, length and global state as they were before the first update of block \<open>b\<close>, so no
  update inside a block can change what a proof in that block is checked against.
\<close>

theorem snapshot_is_previous_block:
  assumes "merkle_inv H t" and "mt_last_block_height t < b"
    and "sorted (map message_height ms)" and "\<forall>m \<in> set ms. message_height m \<le> b"
  shows "mt_get_snapshot b (run (tree_step H) ms t)
    = Some (current_snapshot (run (tree_step H) (filter (\<lambda>m. message_height m < b) ms) t))"
proof -
  let ?old = "filter (\<lambda>m. message_height m < b) ms" and ?new = "filter (\<lambda>m. message_height m = b) ms"
  let ?t = "run (tree_step H) ?old t"
  have split: "ms = ?old @ ?new" using assms(3,4) by (intro sorted_split_last) auto
  have inv: "merkle_inv H ?t" by (rule mtm.run_keeps [OF assms(1)])
  have "mt_last_block_height ?t < b" by (rule run_last_block_height [OF assms(1,2)]) auto
  then have "mt_get_snapshot b ?t = Some (current_snapshot ?t)" by (simp add: mt_get_snapshot_def)
  moreover have "mt_get_snapshot b (run (tree_step H) ?new ?t) = mt_get_snapshot b ?t"
    by (rule run_block_snapshot [OF inv]) auto
  moreover have "run (tree_step H) ms t = run (tree_step H) ?new ?t"
    by (subst split) (rule run_append)
  ultimately show ?thesis by simp
qed

theorem snapshot_is_previous_block_witness:
  "mt_get_snapshot 5 sample_tree = Some (current_snapshot (run (tree_step sample_hasher) (take 2 sample_messages) (mt_new 2 8)))"
proof -
  have "filter (\<lambda>m. message_height m < 5) sample_messages = take 2 sample_messages"
    by (simp add: sample_messages_def)
  moreover have "mt_get_snapshot 5 (run (tree_step sample_hasher) sample_messages (mt_new 2 8))
    = Some (current_snapshot (run (tree_step sample_hasher)
        (filter (\<lambda>m. message_height m < 5) sample_messages) (mt_new 2 8)))"
    by (rule snapshot_is_previous_block [OF merkle_inv_new]) (simp_all add: sample_messages_def mt_new_def)
  ultimately show ?thesis by (simp add: sample_tree_def)
qed

text \<open>
  The test helper \<open>remerkalize\<close> rehashes \<open>2 ^ (height - 1)\<close> nodes at each height, which are too few
  near the leaves: over four leaves with no stored hashes it leaves the node above the third
  and fourth leaf at the default, and the root it computes is not the reference root.
\<close>

lemma hash_bytes_zero: "hash_bytes x = replicate 32 0 \<longleftrightarrow> x = 0"
proof -
  have "hash_bytes 0 = replicate 32 0" by (simp add: hash_bytes_def map_replicate_const)
  then show ?thesis using hash_bytes_inject [of x 0] by simp
qed

lemma sample_hash_pair: "hash_pair sample_hasher l r = (if r = 0 then 1 else 2)"
  by (simp add: hash_pair_def sample_hasher_def hash_bytes_zero)

lemma sample_leaf_hash: "sha256 sample_hasher (to_vec sample_hasher [x]) = 2"
  by (simp add: sample_hasher_def)

definition cleared_tree :: "(byte list, nat) merkle_tree" where
  "cleared_tree = \<lparr>mt_root = 0, mt_length = 4, mt_hashes = Map.empty,
     mt_data = [0 \<mapsto> [1], 1 \<mapsto> [2], 2 \<mapsto> [3], 3 \<mapsto> [4]],
     mt_accounts = [''a'' \<mapsto> 0, ''b'' \<mapsto> 1, ''c'' \<mapsto> 2, ''d'' \<mapsto> 3],
     mt_global_state = 0, mt_previous_snapshot = None, mt_last_block_height = 1\<rparr>"

lemma remerkalize_misses_nodes:
  "index_ok cleared_tree \<and> (\<exists>r. remerkalize sample_hasher cleared_tree = Inr r
     \<and> mt_root r \<noteq> reference_root sample_hasher (mt_data cleared_tree) (mt_length cleared_tree))"
proof -
  have h: "height_of_length 4 = 3"
  proof -
    have "(2::nat) ^ 2 \<le> 2 ^ (height_of_length 4 - 1)"
      using height_of_length_spec(2) [of 4] by simp
    then have "2 \<le> height_of_length 4 - 1" by (rule power_le_imp_le_exp [rotated]) simp
    with height_of_length_le_iff [of 4 2] show ?thesis by simp
  qed
  have "{..<4} = {3, 2, 1, 0::nat}" by (simp add: numeral_eq_Suc lessThan_Suc)
  moreover have "inj_on (mt_accounts cleared_tree) (dom (mt_accounts cleared_tree))"
    by (simp add: cleared_tree_def inj_on_def)
  ultimately have "index_ok cleared_tree"
    by (simp add: index_ok_def cleared_tree_def insert_commute)
  moreover have "reference_root sample_hasher (mt_data cleared_tree) (mt_length cleared_tree) = 2"
    unfolding reference_root_def cleared_tree_def merkle_tree.simps h
    by (simp add: sample_hash_pair numeral_eq_Suc sample_leaf_hash)
  moreover have "\<exists>r. remerkalize sample_hasher cleared_tree = Inr r \<and> mt_root r = 1"
    by (simp add: remerkalize_def tree_height_def h cleared_tree_def upt_rec rehash_node_def sample_hash_pair)
      (simp add: internal_get_hash_def default_hash_def)
  ultimately show ?thesis by auto
qed

end
