(* ===== verification/Venear.thy ===== *)
theory Venear
  imports Accounts Merkle_Tree "HOL-Library.AList"
begin

text \<open>
  The veNEAR contract (\<open>venear-contract/src\<close>): registration and storage, the account book in the
  Merkle tree, partial delegations, updates from lockup contracts, deployment of lockups,
  governance of the configuration, pausing, views, and the migration of the state. This theory
  holds the definitions; \<open>Venear_Ledger\<close> and \<open>Venear_Invariant\<close> hold what is proved about them.

  What the contract reads from outside is the record \<open>venear_ext\<close>: the hash function and the
  serialisation of accounts, the rendering of bytes as hexadecimal digits, the check that a
  string is an account id, and the cost of storage. Log lines, events and promises are kept in
  the field \<open>ve_outbox\<close>, in the order in which a call creates them; the amounts that error
  messages render are left out of the messages. The code of lockup contracts, which
  the contract keeps in raw storage, is the field \<open>ve_lockup_code\<close>.
\<close>

section \<open>State\<close>

record lockup_contract_config =
  contract_size :: nat
  contract_version :: nat
  contract_hash :: crypto_hash

record venear_config =
  vc_lockup_contract_config :: "lockup_contract_config option"
  vc_unlock_duration_ns :: nat
  vc_staking_pool_whitelist_account_id :: account_id
  vc_lockup_code_deployers :: "account_id list"
  vc_local_deposit :: nat
  vc_min_lockup_deposit :: nat
  vc_owner_account_id :: account_id
  vc_guardians :: "account_id list"
  vc_proposed_new_owner_account_id :: "account_id option"
  vc_max_delegations :: nat

record account_internal =
  ai_lockup_version :: "nat option"
  ai_deposit :: nat
  ai_lockup_update_nonce :: nat

datatype vaccount_internal = Current account_internal

fun account_internal_from :: "vaccount_internal \<Rightarrow> account_internal" where
  "account_internal_from (Current a) = a"

record lockup_init_args =
  lia_version :: nat
  lia_owner_account_id :: account_id
  lia_venear_account_id :: account_id
  lia_unlock_duration_ns :: nat
  lia_staking_pool_whitelist_account_id :: account_id
  lia_lockup_update_nonce :: nat
  lia_min_lockup_deposit :: nat

record on_lockup_deployed_args =
  ola_version :: nat
  ola_account_id :: account_id
  ola_lockup_update_nonce :: nat
  ola_lockup_deposit :: nat

text \<open>The events of \<open>common/src/events.rs\<close> that the contract emits, and the promises it creates.\<close>

datatype venear_effect =
    Ft_Mint account_id nat
  | Ft_Burn account_id nat
  | Delegation_Change account_id "delegation_entry list" "delegation_entry list"
  | Lockup_Action string account_id nat "nat option" "nat option" "nat option"
  | Log_Str string
  | Transfer account_id nat
  | Create_Lockup account_id "byte list" lockup_init_args nat
  | Then_On_Lockup_Deployed on_lockup_deployed_args
  | Deploy_And_Migrate "byte list"
  | Return_Hash crypto_hash

record venear =
  ve_tree :: "(vaccount, vglobal_state) merkle_tree"
  ve_accounts :: "account_id \<rightharpoonup> vaccount_internal"
  ve_config :: venear_config
  ve_paused :: bool
  ve_lockup_code :: "crypto_hash \<rightharpoonup> byte list"
  ve_outbox :: "venear_effect list"

record venear_ext =
  ext_hasher :: "vaccount hasher"
  hex_encode :: "byte list \<Rightarrow> string"
  valid_account_id :: "string \<Rightarrow> bool"
  storage_usage :: "venear \<Rightarrow> nat"
  storage_byte_cost :: nat

definition emit :: "venear_effect \<Rightarrow> venear \<Rightarrow> venear" where
  "emit x c = c\<lparr>ve_outbox := ve_outbox c @ [x]\<rparr>"

section \<open>Initialisation (\<open>lib.rs\<close>)\<close>

definition venear_new :: "env \<Rightarrow> venear_config \<Rightarrow> fraction \<Rightarrow> venear res" where
  "venear_new e config annual_growth_rate =
     and_then (assert_no_deposit e ''new'') (\<lambda>_.
     and_then (require (denominator annual_growth_rate = 10 ^ 30) ''Denominator must be 10^30'') (\<lambda>_.
     Inr \<lparr>ve_tree = mt_new (block_height e)
            (vglobal_from (global_state_new (block_timestamp e) (FixedRate annual_growth_rate))),
          ve_accounts = Map.empty, ve_config = config, ve_paused = False,
          ve_lockup_code = Map.empty, ve_outbox = []\<rparr>))"

section \<open>Guards (\<open>pause.rs\<close>, \<open>governance.rs\<close>)\<close>

definition venear_assert_not_paused :: "venear \<Rightarrow> unit res" where
  "venear_assert_not_paused c = require (\<not> ve_paused c) ''Contract is paused. Please try again later.''"

definition venear_assert_owner :: "env \<Rightarrow> venear \<Rightarrow> unit res" where
  "venear_assert_owner e c =
     require (predecessor e = vc_owner_account_id (ve_config c)) ''Only the owner can call this method''"

definition venear_assert_guardian :: "env \<Rightarrow> venear \<Rightarrow> unit res" where
  "venear_assert_guardian e c =
     require (predecessor e \<in> set (vc_guardians (ve_config c))
         \<or> predecessor e = vc_owner_account_id (ve_config c))
       ''Only the guardian can call this method''"

definition venear_pause :: "env \<Rightarrow> venear \<Rightarrow> venear res" where
  "venear_pause e c =
     and_then (assert_one_yocto e) (\<lambda>_.
     and_then (venear_assert_guardian e c) (\<lambda>_.
     Inr (c\<lparr>ve_paused := True\<rparr>)))"

definition venear_unpause :: "env \<Rightarrow> venear \<Rightarrow> venear res" where
  "venear_unpause e c =
     and_then (assert_one_yocto e) (\<lambda>_.
     and_then (venear_assert_owner e c) (\<lambda>_.
     Inr (c\<lparr>ve_paused := False\<rparr>)))"

section \<open>The account book (\<open>account.rs\<close>, \<open>config.rs\<close>, \<open>global_state.rs\<close>)\<close>

definition internal_get_venear_growth_config :: "venear \<Rightarrow> venear_growth_config" where
  "internal_get_venear_growth_config c = get_venear_growth_config (mt_global_state (ve_tree c))"

definition internal_global_state_updated :: "env \<Rightarrow> venear \<Rightarrow> global_state res" where
  "internal_global_state_updated e c =
     global_state_update (block_timestamp e) (global_from (mt_global_state (ve_tree c)))"

definition internal_set_global_state :: "env \<Rightarrow> global_state \<Rightarrow> venear \<Rightarrow> venear" where
  "internal_set_global_state e g c =
     c\<lparr>ve_tree := mt_set_global_state (block_height e) (vglobal_from g) (ve_tree c)\<rparr>"

definition internal_get_account_internal :: "venear \<Rightarrow> account_id \<Rightarrow> account_internal option" where
  "internal_get_account_internal c x = map_option account_internal_from (ve_accounts c x)"

definition internal_set_account_internal ::
  "account_id \<Rightarrow> account_internal \<Rightarrow> venear \<Rightarrow> vaccount_internal option \<times> venear" where
  "internal_set_account_internal x a c =
     (ve_accounts c x, c\<lparr>ve_accounts := (ve_accounts c)(x \<mapsto> Current a)\<rparr>)"

definition internal_get_account :: "venear \<Rightarrow> account_id \<Rightarrow> account option" where
  "internal_get_account c x = map_option account_from (mt_get (ve_tree c) x)"

definition internal_expect_account_updated :: "env \<Rightarrow> venear \<Rightarrow> account_id \<Rightarrow> account res" where
  "internal_expect_account_updated e c x =
     and_then (expect (internal_get_account c x) (''Account '' @ x @ '' is not registered'')) (\<lambda>a.
     account_update (block_timestamp e) (internal_get_venear_growth_config c) a)"

text \<open>The mint or burn event of \<open>internal_set_account\<close>.\<close>

definition emit_balance_change :: "account_id \<Rightarrow> nat \<Rightarrow> nat \<Rightarrow> venear \<Rightarrow> venear" where
  "emit_balance_change x old_balance new_balance c =
     (if old_balance < new_balance then emit (Ft_Mint x (new_balance - old_balance)) c
      else if new_balance < old_balance then emit (Ft_Burn x (old_balance - new_balance)) c
      else c)"

definition internal_set_account :: "venear_ext \<Rightarrow> env \<Rightarrow> account_id \<Rightarrow> account \<Rightarrow> venear \<Rightarrow> venear res" where
  "internal_set_account X e x a c =
     and_then (case internal_get_account c x of None \<Rightarrow> Inr 0 | Some old \<Rightarrow> owned_total old) (\<lambda>old_balance.
     and_then (owned_total a) (\<lambda>new_balance.
     let c1 = emit_balance_change x old_balance new_balance c in
     and_then (mt_set (ext_hasher X) (block_height e) x (vaccount_from a) (ve_tree c1)) (\<lambda>(old, t).
     Inr (c1\<lparr>ve_tree := t\<rparr>))))"

definition internal_register_account :: "venear_ext \<Rightarrow> env \<Rightarrow> account_id \<Rightarrow> nat \<Rightarrow> venear \<Rightarrow> venear res" where
  "internal_register_account X e x deposit c =
     (let (old, c1) = internal_set_account_internal x
          \<lparr>ai_lockup_version = None, ai_deposit = deposit, ai_lockup_update_nonce = 0\<rparr> c
      in and_then (require (old = None) ''Already registered'') (\<lambda>_.
      and_then (internal_global_state_updated e c1) (\<lambda>global_state.
      let account = \<lparr>acc_account_id = x, update_timestamp = truncate_to_seconds (block_timestamp e),
            balance = vb_from_near deposit, delegated_balance = vb_default, delegations = []\<rparr>
      in and_then (pooled_add (total_venear_balance global_state) (balance account)) (\<lambda>total.
      and_then (internal_set_account X e x account c1) (\<lambda>c2.
      Inr (internal_set_global_state e (global_state\<lparr>total_venear_balance := total\<rparr>) c2))))))"

record account_info =
  info_account :: account
  info_internal :: account_internal

definition get_account_info :: "env \<Rightarrow> venear \<Rightarrow> account_id \<Rightarrow> account_info option res" where
  "get_account_info e c x =
     (case internal_get_account_internal c x of
        None \<Rightarrow> Inr None
      | Some internal \<Rightarrow>
          and_then (internal_expect_account_updated e c x) (\<lambda>a.
          Inr (Some \<lparr>info_account = a, info_internal = internal\<rparr>)))"

definition get_num_accounts :: "venear \<Rightarrow> nat" where
  "get_num_accounts c = mt_length (ve_tree c)"

definition get_account_by_index :: "env \<Rightarrow> venear \<Rightarrow> nat \<Rightarrow> account_info option res" where
  "get_account_by_index e c index =
     (case mt_get_by_index (ve_tree c) index of
        None \<Rightarrow> Inr None
      | Some v \<Rightarrow>
          and_then (account_update (block_timestamp e) (internal_get_venear_growth_config c) (account_from v)) (\<lambda>a.
          and_then (unwrap (internal_get_account_internal c (acc_account_id a))) (\<lambda>internal.
          Inr (Some \<lparr>info_account = a, info_internal = internal\<rparr>))))"

definition page :: "venear \<Rightarrow> nat option \<Rightarrow> nat option \<Rightarrow> nat list" where
  "page c from_index limit =
     (let from = (case from_index of None \<Rightarrow> 0 | Some i \<Rightarrow> i);
          lim = (case limit of None \<Rightarrow> 2 ^ 32 - 1 | Some l \<Rightarrow> l)
      in [from..<min (saturating_add 32 from lim) (get_num_accounts c)])"

definition get_accounts :: "env \<Rightarrow> venear \<Rightarrow> nat option \<Rightarrow> nat option \<Rightarrow> account_info list res" where
  "get_accounts e c from_index limit =
     for_each (\<lambda>i infos. and_then (get_account_by_index e c i) (\<lambda>info.
       Inr (case info of None \<Rightarrow> infos | Some j \<Rightarrow> infos @ [j]))) (page c from_index limit) []"

definition get_accounts_raw :: "venear \<Rightarrow> nat option \<Rightarrow> nat option \<Rightarrow> vaccount list" where
  "get_accounts_raw c from_index limit =
     List.map_filter (mt_get_by_index (ve_tree c)) (page c from_index limit)"

section \<open>Storage and registration (\<open>storage.rs\<close>)\<close>

record storage_balance =
  sb_total :: nat
  sb_available :: nat

definition storage_balance_bounds :: "venear \<Rightarrow> nat \<times> nat option" where
  "storage_balance_bounds c = (vc_local_deposit (ve_config c), Some (vc_local_deposit (ve_config c)))"

definition get_lockup_deployment_cost :: "venear \<Rightarrow> nat" where
  "get_lockup_deployment_cost c = vc_min_lockup_deposit (ve_config c)"

definition internal_storage_balance_of :: "venear \<Rightarrow> account_id \<Rightarrow> storage_balance option" where
  "internal_storage_balance_of c x =
     (if ve_accounts c x \<noteq> None
      then Some \<lparr>sb_total = fst (storage_balance_bounds c), sb_available = 0\<rparr>
      else None)"

definition storage_deposit ::
  "venear_ext \<Rightarrow> env \<Rightarrow> account_id option \<Rightarrow> venear \<Rightarrow> (venear \<times> storage_balance) res" where
  "storage_deposit X e account c =
     and_then (venear_assert_not_paused c) (\<lambda>_.
     let amount = attached_deposit e;
         x = (case account of None \<Rightarrow> predecessor e | Some a \<Rightarrow> a)
     in and_then
       (if internal_get_account_internal c x \<noteq> None
        then let c1 = emit (Log_Str ''The account is already registered, refunding the deposit'') c
             in Inr (if 0 < amount then emit (Transfer (predecessor e) amount) c1 else c1)
        else let min_balance = fst (storage_balance_bounds c)
             in and_then (require (\<not> amount < min_balance)
                  ''The attached deposit is less than the minimum storage balance'') (\<lambda>_.
                and_then (internal_register_account X e x min_balance c) (\<lambda>c1.
                let refund = saturating_sub amount min_balance
                in Inr (if 0 < refund then emit (Transfer (predecessor e) refund) c1 else c1)))) (\<lambda>c2.
     and_then (unwrap (internal_storage_balance_of c2 x)) (\<lambda>b. Inr (c2, b))))"

definition storage_withdraw :: "venear \<Rightarrow> venear res" where
  "storage_withdraw c = Inl (Msg ''Storage withdrawal is not supported'')"

section \<open>Token views (\<open>token.rs\<close>)\<close>

definition ft_balance_of :: "env \<Rightarrow> venear \<Rightarrow> account_id \<Rightarrow> nat res" where
  "ft_balance_of e c x =
     (case internal_get_account c x of
        None \<Rightarrow> Inr 0
      | Some a \<Rightarrow> total_balance (block_timestamp e) (internal_get_venear_growth_config c) a)"

definition ft_total_supply :: "env \<Rightarrow> venear \<Rightarrow> nat res" where
  "ft_total_supply e c =
     and_then (internal_global_state_updated e c) (\<lambda>g. pooled_total (total_venear_balance g))"

definition ft_transfer :: "venear \<Rightarrow> venear res" where
  "ft_transfer c = Inl (Msg ''Non transferable token'')"

definition ft_transfer_call :: "venear \<Rightarrow> venear res" where
  "ft_transfer_call c = Inl (Msg ''Non transferable token'')"

section \<open>Snapshots and proofs (\<open>snapshot.rs\<close>)\<close>

definition get_snapshot :: "env \<Rightarrow> venear \<Rightarrow> (merkle_tree_snapshot \<times> vglobal_state) res" where
  "get_snapshot e c =
     and_then (venear_assert_not_paused c) (\<lambda>_.
     expect (mt_get_snapshot (block_height e) (ve_tree c)) ''Snapshot is not available'')"

definition get_proof :: "venear \<Rightarrow> account_id \<Rightarrow> (merkle_proof \<times> vaccount) res" where
  "get_proof c x =
     and_then (venear_assert_not_paused c) (\<lambda>_.
     and_then (mt_get_proof (ve_tree c) x) (\<lambda>p.
     expect p (''Account '' @ x @ '' is not found'')))"

section \<open>Delegations (\<open>delegation.rs\<close>)\<close>

text \<open>The loop of \<open>validate_delegations\<close>, with the entry before the current one and the running sum.\<close>

fun validate_entries ::
  "account_id \<Rightarrow> delegation_entry option \<Rightarrow> nat \<Rightarrow> delegation_entry list \<Rightarrow> panic + (string + nat)" where
  "validate_entries owner prev sum_bps [] = Inr (Inr sum_bps)"
| "validate_entries owner prev sum_bps (entry # entries) =
     (if bps_is_zero (de_bps entry) then Inr (Inl ''Invalid bps (cannot be 0)'')
      else if de_account_id entry = owner then Inr (Inl ''Cannot delegate to self'')
      else if (case prev of None \<Rightarrow> False | Some p \<Rightarrow> de_account_id entry \<le> de_account_id p)
        then Inr (Inl ''Entries must be sorted ascending by account_id with no duplicates'')
      else and_then (add_u 32 sum_bps (de_bps entry)) (\<lambda>sum.
        validate_entries owner (Some entry) sum entries))"

definition validate_delegations ::
  "delegation_entry list \<Rightarrow> account_id \<Rightarrow> nat \<Rightarrow> panic + (string + nat)" where
  "validate_delegations entries owner max_delegations =
     and_then (check 64 (length entries)) (\<lambda>n.
     if max_delegations < n then Inr (Inl ''Too many delegations'')
     else and_then (validate_entries owner None 0 entries) (\<lambda>r.
       case r of Inl err \<Rightarrow> Inr (Inl err)
       | Inr sum_bps \<Rightarrow>
           if 10000 < sum_bps then Inr (Inl ''Total bps exceeds 10000'')
           else and_then (check 16 sum_bps) (\<lambda>s. Inr (Inr s))))"

text \<open>\<open>unwrap_or_else(|err| env::panic_str(err))\<close>\<close>

fun or_panic :: "panic + (string + 'a) \<Rightarrow> 'a res" where
  "or_panic (Inl p) = Inl p"
| "or_panic (Inr (Inl err)) = Inl (Msg err)"
| "or_panic (Inr (Inr x)) = Inr x"

text \<open>One pass of each of the two loops of \<open>set_delegations\<close>.\<close>

definition remove_delegation :: "venear_ext \<Rightarrow> env \<Rightarrow> venear_balance \<Rightarrow> delegation_entry \<Rightarrow> venear \<Rightarrow> venear res" where
  "remove_delegation X e owner_balance d c =
     and_then (internal_expect_account_updated e c (de_account_id d)) (\<lambda>delegate.
     and_then (pooled_sub_delegation (delegated_balance delegate) owner_balance (de_bps d)) (\<lambda>p.
     internal_set_account X e (de_account_id d) (delegate\<lparr>delegated_balance := p\<rparr>) c))"

definition add_delegation :: "venear_ext \<Rightarrow> env \<Rightarrow> venear_balance \<Rightarrow> delegation_entry \<Rightarrow> venear \<Rightarrow> venear res" where
  "add_delegation X e owner_balance d c =
     and_then (internal_expect_account_updated e c (de_account_id d)) (\<lambda>delegate.
     and_then (pooled_add_delegation (delegated_balance delegate) owner_balance (de_bps d)) (\<lambda>p.
     internal_set_account X e (de_account_id d) (delegate\<lparr>delegated_balance := p\<rparr>) c))"

text \<open>The refund of \<open>set_delegations\<close>: the deposit less the cost of the storage that was added.\<close>

definition storage_refund :: "venear_ext \<Rightarrow> nat \<Rightarrow> nat \<Rightarrow> nat \<Rightarrow> nat res" where
  "storage_refund X attached storage_before storage_after =
     (if storage_before < storage_after
      then and_then (expect (if storage_byte_cost X * (storage_after - storage_before) < 2 ^ 128
             then Some (storage_byte_cost X * (storage_after - storage_before)) else None)
             ''Storage cost overflow'') (\<lambda>storage_cost.
           and_then (require (storage_cost \<le> attached) ''Insufficient deposit for storage. Required: '') (\<lambda>_.
           sub_u attached storage_cost))
      else Inr attached)"

definition set_delegations :: "venear_ext \<Rightarrow> env \<Rightarrow> delegation_entry list \<Rightarrow> venear \<Rightarrow> venear res" where
  "set_delegations X e entries c =
     and_then (venear_assert_not_paused c) (\<lambda>_.
     let attached = attached_deposit e in
     and_then (require (0 < attached) ''Requires attached deposit'') (\<lambda>_.
     let predecessor_id = predecessor e in
     and_then (or_panic (validate_delegations entries predecessor_id (vc_max_delegations (ve_config c)))) (\<lambda>_.
     let storage_before = storage_usage X c in
     and_then (internal_expect_account_updated e c predecessor_id) (\<lambda>owner.
     let old_delegations = delegations owner in
     and_then (for_each (remove_delegation X e (balance owner)) old_delegations c) (\<lambda>c1.
     and_then (for_each (add_delegation X e (balance owner)) entries c1) (\<lambda>c2.
     let c3 = emit (Delegation_Change predecessor_id old_delegations entries) c2 in
     and_then (internal_set_account X e predecessor_id (owner\<lparr>delegations := entries\<rparr>) c3) (\<lambda>c4.
     and_then (storage_refund X attached storage_before (storage_usage X c4)) (\<lambda>refund.
     Inr (if 0 < refund then emit (Transfer predecessor_id refund) c4 else c4)))))))))"

section \<open>Lockups (\<open>lockup.rs\<close>)\<close>

definition get_lockup_account_id :: "venear_ext \<Rightarrow> env \<Rightarrow> account_id \<Rightarrow> account_id res" where
  "get_lockup_account_id X e x =
     (let owner_account_id_hash = hex_encode X (take 20 (hash_bytes (sha256 (ext_hasher X) (map of_char x))));
          name = owner_account_id_hash @ ''.'' @ current_account e
      in expect (if valid_account_id X name then Some name else None) ''Failed to create lockup account ID'')"

text \<open>One pass of the loop over the delegations in \<open>internal_lockup_update\<close>.\<close>

definition replace_delegation ::
  "venear_ext \<Rightarrow> env \<Rightarrow> venear_balance \<Rightarrow> venear_balance \<Rightarrow> delegation_entry \<Rightarrow> venear \<Rightarrow> venear res" where
  "replace_delegation X e old_balance new_balance d c =
     and_then (internal_expect_account_updated e c (de_account_id d)) (\<lambda>delegate.
     and_then (pooled_sub_delegation (delegated_balance delegate) old_balance (de_bps d)) (\<lambda>p.
     and_then (pooled_add_delegation p new_balance (de_bps d)) (\<lambda>q.
     internal_set_account X e (de_account_id d) (delegate\<lparr>delegated_balance := q\<rparr>) c)))"

text \<open>The balance after an update: unlocking forfeits the accrued growth, locking keeps it.\<close>

definition relocked_balance :: "venear_balance \<Rightarrow> nat \<Rightarrow> nat \<Rightarrow> venear_balance res" where
  "relocked_balance old_balance deposit locked =
     and_then (near_sub (near_balance old_balance) deposit) (\<lambda>old_locked_near_balance.
     let b = (if locked < old_locked_near_balance then old_balance\<lparr>extra_venear_balance := 0\<rparr> else old_balance)
     in and_then (near_add locked deposit) (\<lambda>n. Inr (b\<lparr>near_balance := n\<rparr>)))"

definition internal_lockup_update ::
  "venear_ext \<Rightarrow> env \<Rightarrow> account_id \<Rightarrow> account_internal \<Rightarrow> lockup_update_v1 \<Rightarrow> venear \<Rightarrow> venear res" where
  "internal_lockup_update X e x internal update c =
     and_then (require (ai_lockup_update_nonce internal < lu_nonce update) ''Invalid nonce'') (\<lambda>_.
     let internal' = internal\<lparr>ai_lockup_update_nonce := lu_nonce update\<rparr> in
     and_then (internal_expect_account_updated e c x) (\<lambda>account.
     let old_balance = balance account in
     and_then (internal_global_state_updated e c) (\<lambda>global_state.
     and_then (relocked_balance old_balance (ai_deposit internal') (locked_near_balance update)) (\<lambda>new_balance.
     let account' = account\<lparr>balance := new_balance\<rparr> in
     and_then (pooled_sub (total_venear_balance global_state) old_balance) (\<lambda>p.
     and_then (pooled_add p new_balance) (\<lambda>total.
     and_then (for_each (replace_delegation X e old_balance new_balance) (delegations account') c) (\<lambda>c1.
     let c2 = snd (internal_set_account_internal x internal' c1) in
     and_then (internal_set_account X e x account' c2) (\<lambda>c3.
     Inr (internal_set_global_state e (global_state\<lparr>total_venear_balance := total\<rparr>) c3)))))))))"

definition on_lockup_update ::
  "venear_ext \<Rightarrow> env \<Rightarrow> nat \<Rightarrow> account_id \<Rightarrow> vlockup_update \<Rightarrow> venear \<Rightarrow> venear res" where
  "on_lockup_update X e version owner update c =
     and_then (assert_no_deposit e ''on_lockup_update'') (\<lambda>_.
     and_then (get_lockup_account_id X e owner) (\<lambda>lockup_account_id.
     and_then (require (predecessor e = lockup_account_id) ''Permission denied'') (\<lambda>_.
     and_then (expect (internal_get_account_internal c owner) ''Account not found'') (\<lambda>internal.
     and_then (require (ai_lockup_version internal = Some version) ''Invalid lockup version'') (\<lambda>_.
     case update of VLockupUpdate_V1 u \<Rightarrow>
       internal_lockup_update X e owner internal u
         (emit (Lockup_Action ''lockup_update'' owner version (Some (lu_nonce u)) (Some (lu_timestamp u))
            (Some (locked_near_balance u))) c))))))"

definition on_lockup_deployed ::
  "venear_ext \<Rightarrow> env \<Rightarrow> bool \<Rightarrow> on_lockup_deployed_args \<Rightarrow> venear \<Rightarrow> (venear \<times> account_id option) res" where
  "on_lockup_deployed X e promise_success args c =
     and_then (assert_no_deposit e ''on_lockup_deployed'') (\<lambda>_.
     and_then (assert_private e ''on_lockup_deployed'') (\<lambda>_.
     if promise_success
     then and_then (expect (internal_get_account_internal c (ola_account_id args)) ''Account not found'') (\<lambda>internal.
       let internal' = internal\<lparr>ai_lockup_version := Some (ola_version args)\<rparr> in
       and_then (require (ai_lockup_update_nonce internal' \<le> ola_lockup_update_nonce args) ''Invalid nonce'') (\<lambda>_.
       let internal'' = internal'\<lparr>ai_lockup_update_nonce := ola_lockup_update_nonce args\<rparr>;
           c1 = emit (Lockup_Action ''lockup_deployed'' (ola_account_id args) (ola_version args) None None None) c;
           c2 = snd (internal_set_account_internal (ola_account_id args) internal'' c1)
       in and_then (get_lockup_account_id X e (ola_account_id args)) (\<lambda>l. Inr (c2, Some l))))
     else Inr (emit (Transfer (ola_account_id args) (ola_lockup_deposit args)) c, None)))"

definition LOCKUP_DEPLOY_MIN_GAS :: nat where "LOCKUP_DEPLOY_MIN_GAS = 20 * 10 ^ 12"
definition ON_LOCKUP_DEPLOYED :: nat where "ON_LOCKUP_DEPLOYED = 15 * 10 ^ 12"

definition MIN_INTERNAL_DEPLOY_LOCKUP_GAS :: nat where
  "MIN_INTERNAL_DEPLOY_LOCKUP_GAS = saturating_add 64 LOCKUP_DEPLOY_MIN_GAS ON_LOCKUP_DEPLOYED"

definition internal_get_hash_and_size :: "venear_ext \<Rightarrow> byte list \<Rightarrow> nat \<times> crypto_hash" where
  "internal_get_hash_and_size X code = (length code, sha256 (ext_hasher X) code)"

definition internal_set_lockup :: "venear_ext \<Rightarrow> crypto_hash \<Rightarrow> venear \<Rightarrow> venear res" where
  "internal_set_lockup X hash c =
     and_then (expect (ve_lockup_code c hash) ''Contract hash is not found'') (\<lambda>code.
     let (size, code_hash) = internal_get_hash_and_size X code in
     and_then (require (code_hash = hash) ''Invalid contract hash'') (\<lambda>_.
     and_then (add_u 64 (case vc_lockup_contract_config (ve_config c) of None \<Rightarrow> 0
         | Some l \<Rightarrow> contract_version l) 1) (\<lambda>version.
     Inr (c\<lparr>ve_config := (ve_config c)\<lparr>vc_lockup_contract_config :=
       Some \<lparr>contract_size = size mod 2 ^ 32, contract_version = version, contract_hash = hash\<rparr>\<rparr>\<rparr>))))"

definition internal_deploy_lockup :: "venear_ext \<Rightarrow> env \<Rightarrow> account_id \<Rightarrow> venear \<Rightarrow> venear res" where
  "internal_deploy_lockup X e owner c =
     (let remaining_gas = saturating_sub (prepaid_gas e) (used_gas e) in
      and_then (require (MIN_INTERNAL_DEPLOY_LOCKUP_GAS \<le> remaining_gas)
        ''Not enough gas for lockup deployment'') (\<lambda>_.
      let lockup_deposit = attached_deposit e in
      and_then (require (internal_get_account_internal c owner \<noteq> None)
        (''Account '' @ owner @ '' is not registered'')) (\<lambda>_.
      and_then (require (get_lockup_deployment_cost c \<le> lockup_deposit) ''Not enough deposit. Required: '') (\<lambda>_.
      and_then (expect (vc_lockup_contract_config (ve_config c))
        ''The lockup contract code is not initialized'') (\<lambda>lockup.
      and_then (get_lockup_account_id X e owner) (\<lambda>lockup_account_id.
      and_then (expect (ve_lockup_code c (contract_hash lockup)) ''Contract code is not found'') (\<lambda>code.
      and_then (mul_u 64 (block_height e) 1000000) (\<lambda>nonce.
      Inr (emit (Then_On_Lockup_Deployed \<lparr>ola_version = contract_version lockup, ola_account_id = owner,
             ola_lockup_update_nonce = nonce, ola_lockup_deposit = lockup_deposit\<rparr>)
           (emit (Create_Lockup lockup_account_id code
             \<lparr>lia_version = contract_version lockup, lia_owner_account_id = owner,
              lia_venear_account_id = current_account e,
              lia_unlock_duration_ns = vc_unlock_duration_ns (ve_config c),
              lia_staking_pool_whitelist_account_id = vc_staking_pool_whitelist_account_id (ve_config c),
              lia_lockup_update_nonce = nonce,
              lia_min_lockup_deposit = vc_min_lockup_deposit (ve_config c)\<rparr> lockup_deposit) c))))))))))"

definition deploy_lockup :: "venear_ext \<Rightarrow> env \<Rightarrow> venear \<Rightarrow> venear res" where
  "deploy_lockup X e c =
     and_then (venear_assert_not_paused c) (\<lambda>_. internal_deploy_lockup X e (predecessor e) c)"

definition prepare_lockup_code :: "venear_ext \<Rightarrow> env \<Rightarrow> byte list \<Rightarrow> venear \<Rightarrow> venear res" where
  "prepare_lockup_code X e code c =
     and_then (venear_assert_not_paused c) (\<lambda>_.
     and_then (require (predecessor e \<in> set (vc_lockup_code_deployers (ve_config c))) ''Permission denied'') (\<lambda>_.
     let (size, hash) = internal_get_hash_and_size X code;
         c1 = c\<lparr>ve_lockup_code := (ve_lockup_code c)(hash \<mapsto> code)\<rparr>
     in and_then (sub_u (storage_usage X c1) (storage_usage X c)) (\<lambda>used.
     and_then (mul_u 128 (storage_byte_cost X) used) (\<lambda>storage_cost.
     and_then (require (storage_cost \<le> attached_deposit e) ''Not enough attached deposit'') (\<lambda>_.
     and_then (near_sub (attached_deposit e) storage_cost) (\<lambda>refund.
     Inr (emit (Return_Hash hash)
       (if storage_cost < attached_deposit e then emit (Transfer (predecessor e) refund) c1 else c1))))))))"

section \<open>Governance (\<open>governance.rs\<close>)\<close>

definition owner_only :: "env \<Rightarrow> (venear_config \<Rightarrow> venear_config) \<Rightarrow> venear \<Rightarrow> venear res" where
  "owner_only e f c =
     and_then (assert_one_yocto e) (\<lambda>_.
     and_then (venear_assert_owner e c) (\<lambda>_.
     Inr (c\<lparr>ve_config := f (ve_config c)\<rparr>)))"

definition set_lockup_contract :: "venear_ext \<Rightarrow> env \<Rightarrow> crypto_hash \<Rightarrow> nat \<Rightarrow> venear \<Rightarrow> venear res" where
  "set_lockup_contract X e hash min_deposit c =
     and_then (assert_one_yocto e) (\<lambda>_.
     and_then (venear_assert_owner e c) (\<lambda>_.
     and_then (internal_set_lockup X hash c) (\<lambda>c1.
     Inr (c1\<lparr>ve_config := (ve_config c1)\<lparr>vc_min_lockup_deposit := min_deposit\<rparr>\<rparr>))))"

definition set_local_deposit :: "env \<Rightarrow> nat \<Rightarrow> venear \<Rightarrow> venear res" where
  "set_local_deposit e d = owner_only e (\<lambda>g. g\<lparr>vc_local_deposit := d\<rparr>)"

definition set_staking_pool_whitelist_account_id :: "env \<Rightarrow> account_id \<Rightarrow> venear \<Rightarrow> venear res" where
  "set_staking_pool_whitelist_account_id e x = owner_only e (\<lambda>g. g\<lparr>vc_staking_pool_whitelist_account_id := x\<rparr>)"

definition propose_new_owner_account_id :: "env \<Rightarrow> account_id option \<Rightarrow> venear \<Rightarrow> venear res" where
  "propose_new_owner_account_id e x = owner_only e (\<lambda>g. g\<lparr>vc_proposed_new_owner_account_id := x\<rparr>)"

definition accept_ownership :: "env \<Rightarrow> venear \<Rightarrow> venear res" where
  "accept_ownership e c =
     and_then (assert_one_yocto e) (\<lambda>_.
     and_then (require (vc_proposed_new_owner_account_id (ve_config c) = Some (predecessor e))
       ''Only the proposed new owner can call this method'') (\<lambda>_.
     Inr (c\<lparr>ve_config := (ve_config c)\<lparr>vc_owner_account_id := predecessor e,
       vc_proposed_new_owner_account_id := None\<rparr>\<rparr>)))"

definition set_unlock_duration_sec :: "env \<Rightarrow> nat \<Rightarrow> venear \<Rightarrow> venear res" where
  "set_unlock_duration_sec e sec c =
     and_then (assert_one_yocto e) (\<lambda>_.
     and_then (venear_assert_owner e c) (\<lambda>_.
     and_then (mul_u 64 sec 1000000000) (\<lambda>ns.
     Inr (c\<lparr>ve_config := (ve_config c)\<lparr>vc_unlock_duration_ns := ns\<rparr>\<rparr>))))"

definition set_lockup_code_deployers :: "env \<Rightarrow> account_id list \<Rightarrow> venear \<Rightarrow> venear res" where
  "set_lockup_code_deployers e xs = owner_only e (\<lambda>g. g\<lparr>vc_lockup_code_deployers := xs\<rparr>)"

definition venear_set_guardians :: "env \<Rightarrow> account_id list \<Rightarrow> venear \<Rightarrow> venear res" where
  "venear_set_guardians e xs = owner_only e (\<lambda>g. g\<lparr>vc_guardians := xs\<rparr>)"

definition set_max_delegations :: "env \<Rightarrow> nat \<Rightarrow> venear \<Rightarrow> venear res" where
  "set_max_delegations e n = owner_only e (\<lambda>g. g\<lparr>vc_max_delegations := n\<rparr>)"

section \<open>Upgrade and migration (\<open>upgrade.rs\<close>)\<close>

text \<open>
  The map \<open>recomputed\<close> is a \<open>BTreeMap\<close>: an association list with distinct keys, read in the
  order of the keys at the end.
\<close>

type_synonym recomputed = "(account_id \<times> pooled_venear_balance) list"

definition recomputed_get :: "recomputed \<Rightarrow> account_id \<Rightarrow> pooled_venear_balance" where
  "recomputed_get m x = (case map_of m x of None \<Rightarrow> vb_default | Some p \<Rightarrow> p)"

definition recompute_account :: "env \<Rightarrow> venear \<Rightarrow> nat \<Rightarrow> recomputed \<Rightarrow> recomputed res" where
  "recompute_account e c index m =
     and_then (unwrap (mt_get_by_index (ve_tree c) index)) (\<lambda>v.
     let account = account_from v;
         m1 = (if delegated_balance account \<noteq> vb_default
               then AList.update (acc_account_id account) (recomputed_get m (acc_account_id account)) m else m)
     in if delegations account = [] then Inr m1
        else and_then (account_update (block_timestamp e) (internal_get_venear_growth_config c) account) (\<lambda>account'.
          for_each (\<lambda>d m. and_then (pooled_add_delegation (recomputed_get m (de_account_id d)) (balance account') (de_bps d))
            (\<lambda>p. Inr (AList.update (de_account_id d) p m))) (delegations account') m1))"

definition write_recomputed ::
  "venear_ext \<Rightarrow> env \<Rightarrow> account_id \<times> pooled_venear_balance \<Rightarrow> venear \<Rightarrow> venear res" where
  "write_recomputed X e = (\<lambda>(x, p) c.
     and_then (internal_expect_account_updated e c x) (\<lambda>delegate.
     if delegated_balance delegate = p then Inr c
     else internal_set_account X e x (delegate\<lparr>delegated_balance := p\<rparr>) c))"

definition venear_migrate_state :: "venear_ext \<Rightarrow> env \<Rightarrow> venear \<Rightarrow> venear res" where
  "venear_migrate_state X e c =
     and_then (assert_no_deposit e ''migrate_state'') (\<lambda>_.
     and_then (assert_private e ''migrate_state'') (\<lambda>_.
     and_then (for_each (recompute_account e c) [0..<mt_length (ve_tree c)] []) (\<lambda>recomputed.
     for_each (write_recomputed X e) (sort_key fst recomputed) c)))"

definition venear_upgrade :: "env \<Rightarrow> byte list \<Rightarrow> venear \<Rightarrow> venear res" where
  "venear_upgrade e code c =
     and_then (venear_assert_owner e c) (\<lambda>_. Inr (emit (Deploy_And_Migrate code) c))"

end
