(* ===== verification/Venear_Ledger.thy ===== *)
theory Venear_Ledger
  imports Venear
begin

text \<open>
  The abstract ledger of the veNEAR contract: what every account owns and to whom it passes it
  on, at one point in time. The delegated balances and the total supply that the contract keeps
  incrementally are derived quantities of this ledger. The lemmas give the effect of each
  write of the contract on the book of accounts, of the loops over delegations, and of time.
\<close>

section \<open>The ledger and its derived quantities\<close>

type_synonym ledger = "account_id \<rightharpoonup> venear_balance \<times> delegation_entry list"

text \<open>The two components of a balance; a statement about balances is made for each of them.\<close>

definition parts :: "(venear_balance \<Rightarrow> nat) set" where
  "parts = {near_balance, extra_venear_balance}"

text \<open>What account \<open>x\<close> gets from one account, and from all.\<close>

definition share_to :: "(venear_balance \<Rightarrow> nat) \<Rightarrow> account_id \<Rightarrow> venear_balance \<times> delegation_entry list \<Rightarrow> nat" where
  "share_to f x a = (\<Sum>d\<leftarrow>filter (\<lambda>d. de_account_id d = x) (snd a). f (contribution (fst a) (de_bps d)))"

definition received :: "(venear_balance \<Rightarrow> nat) \<Rightarrow> ledger \<Rightarrow> account_id \<Rightarrow> nat" where
  "received f L x = (\<Sum>y \<in> dom L. share_to f x (the (L y)))"

text \<open>What one account adds to the pooled total: whole milliNEAR grow, the rest is kept beside.\<close>

definition pooled_near :: "venear_balance \<Rightarrow> nat" where
  "pooled_near b = truncate_near_to_millis (near_balance b)"

definition pooled_extra :: "venear_balance \<Rightarrow> nat" where
  "pooled_extra b = extra_venear_balance b + (near_balance b - truncate_near_to_millis (near_balance b))"

definition pool_sum :: "(venear_balance \<Rightarrow> nat) \<Rightarrow> ledger \<Rightarrow> nat" where
  "pool_sum g L = (\<Sum>y \<in> dom L. g (fst (the (L y))))"

definition entries_ok :: "account_id set \<Rightarrow> account_id \<Rightarrow> delegation_entry list \<Rightarrow> bool" where
  "entries_ok D x es \<longleftrightarrow> sorted_wrt (<) (map de_account_id es) \<and> x \<notin> de_account_id ` set es
     \<and> (\<forall>d \<in> set es. 0 < de_bps d) \<and> bps_ok es \<and> de_account_id ` set es \<subseteq> D"

definition ledger_ok :: "ledger \<Rightarrow> bool" where
  "ledger_ok L \<longleftrightarrow> finite (dom L) \<and> (\<forall>x b es. L x = Some (b, es) \<longrightarrow> entries_ok (dom L) x es)"

lemma received_cong:
  assumes "finite (dom L)" "L o' = Some a"
  shows "received f (L(o' \<mapsto> a')) x + share_to f x a = received f L x + share_to f x a'"
proof -
  let ?rest = "\<Sum>y \<in> dom L - {o'}. share_to f x (the (L y))"
  have o: "o' \<in> dom L" using assms(2) by auto
  have "received f L x = share_to f x a + ?rest"
    unfolding received_def by (subst sum.remove [OF assms(1) o]) (simp add: assms(2))
  moreover have "received f (L(o' \<mapsto> a')) x = share_to f x a' + ?rest"
  proof -
    have "dom (L(o' \<mapsto> a')) = insert o' (dom L - {o'})" using o by auto
    then show ?thesis unfolding received_def using assms(1) by (simp add: sum.insert_remove)
  qed
  ultimately show ?thesis by simp
qed

lemma pool_sum_cong:
  assumes "finite (dom L)" "L o' = Some a"
  shows "pool_sum g (L(o' \<mapsto> a')) + g (fst a) = pool_sum g L + g (fst a')"
proof -
  let ?rest = "\<Sum>y \<in> dom L - {o'}. g (fst (the (L y)))"
  have o: "o' \<in> dom L" using assms(2) by auto
  have "pool_sum g L = g (fst a) + ?rest"
    unfolding pool_sum_def by (subst sum.remove [OF assms(1) o]) (simp add: assms(2))
  moreover have "pool_sum g (L(o' \<mapsto> a')) = g (fst a') + ?rest"
  proof -
    have "dom (L(o' \<mapsto> a')) = insert o' (dom L - {o'})" using o by auto
    then show ?thesis unfolding pool_sum_def using assms(1) by (simp add: sum.insert_remove)
  qed
  ultimately show ?thesis by simp
qed

lemma received_new:
  assumes "finite (dom L)" "L y = None"
  shows "received f (L(y \<mapsto> a)) x = received f L x + share_to f x a"
  using assms by (simp add: received_def domIff) (intro sum.cong, auto)

lemma pool_sum_new:
  assumes "finite (dom L)" "L y = None"
  shows "pool_sum g (L(y \<mapsto> a)) = pool_sum g L + g (fst a)"
  using assms by (simp add: pool_sum_def domIff) (intro sum.cong, auto)

text \<open>An account that nobody registered gets nothing.\<close>

lemma received_unknown:
  assumes "ledger_ok L" "x \<notin> dom L"
  shows "received f L x = 0"
proof -
  have "share_to f x (the (L y)) = 0" if "y \<in> dom L" for y
  proof -
    from that obtain a where "L y = Some a" by auto
    then obtain b es where y: "L y = Some (b, es)" by (cases a) auto
    then have "entries_ok (dom L) y es" using assms(1) unfolding ledger_ok_def by blast
    then have "x \<notin> de_account_id ` set es" using assms(2) unfolding entries_ok_def by blast
    then show ?thesis by (auto simp: y share_to_def filter_empty_conv image_iff)
  qed
  then show ?thesis by (simp add: received_def)
qed

section \<open>The book of accounts at a given time\<close>

definition ve_rate :: "venear \<Rightarrow> nat" where
  "ve_rate c = rate_of (internal_get_venear_growth_config c)"

definition book :: "nat \<Rightarrow> venear \<Rightarrow> account_id \<Rightarrow> account option" where
  "book T c x = map_option (age (ve_rate c) T) (internal_get_account c x)"

definition owns :: "account \<Rightarrow> venear_balance \<times> delegation_entry list" where
  "owns a = (balance a, delegations a)"

definition ledger_of :: "nat \<Rightarrow> venear \<Rightarrow> ledger" where
  "ledger_of T c x = map_option owns (book T c x)"

abbreviation ve_global :: "venear \<Rightarrow> global_state" where
  "ve_global c \<equiv> global_from (mt_global_state (ve_tree c))"

definition total_at :: "nat \<Rightarrow> venear \<Rightarrow> venear_balance" where
  "total_at T c = grow (ve_rate c) (gs_update_timestamp (ve_global c)) T (total_venear_balance (ve_global c))"

text \<open>What the types and the clock guarantee of a stored account.\<close>

definition account_wf :: "nat \<Rightarrow> account_id \<Rightarrow> account \<Rightarrow> bool" where
  "account_wf T x a \<longleftrightarrow> acc_account_id a = x \<and> valid_ts (update_timestamp a) \<and> update_timestamp a \<le> T
     \<and> near_balance (balance a) < 2 ^ 128 \<and> near_balance (delegated_balance a) < 2 ^ 128"

definition book_wf :: "venear_ext \<Rightarrow> nat \<Rightarrow> venear \<Rightarrow> bool" where
  "book_wf X T c \<longleftrightarrow> merkle_inv (ext_hasher X) (ve_tree c)
     \<and> growth_config_ok (internal_get_venear_growth_config c) \<and> valid_ts T
     \<and> (\<forall>x a. internal_get_account c x = Some a \<longrightarrow> account_wf T x a)
     \<and> valid_ts (gs_update_timestamp (ve_global c)) \<and> gs_update_timestamp (ve_global c) \<le> T
     \<and> near_balance (total_venear_balance (ve_global c)) < 2 ^ 128"

definition now :: "env \<Rightarrow> nat" where
  "now e = truncate_to_seconds (block_timestamp e)"

text \<open>The parts of the state that writing accounts leaves alone.\<close>

definition same_rest :: "venear \<Rightarrow> venear \<Rightarrow> bool" where
  "same_rest c c' \<longleftrightarrow> ve_accounts c' = ve_accounts c \<and> ve_config c' = ve_config c \<and> ve_paused c' = ve_paused c
     \<and> ve_lockup_code c' = ve_lockup_code c \<and> mt_global_state (ve_tree c') = mt_global_state (ve_tree c)"

lemma same_rest_refl [simp]: "same_rest c c"
  by (simp add: same_rest_def)

lemma same_rest_trans: "same_rest a b \<Longrightarrow> same_rest b c \<Longrightarrow> same_rest a c"
  by (simp add: same_rest_def)

lemma same_rest_simps:
  assumes "same_rest c c'"
  shows "internal_get_venear_growth_config c' = internal_get_venear_growth_config c"
    and "ve_rate c' = ve_rate c" and "total_at T c' = total_at T c"
    and "internal_global_state_updated e c' = internal_global_state_updated e c"
    and "internal_get_account_internal c' = internal_get_account_internal c"
  using assms by (simp_all add: same_rest_def internal_get_venear_growth_config_def ve_rate_def total_at_def
      internal_global_state_updated_def internal_get_account_internal_def fun_eq_iff)

lemma emit_simps [simp]:
  "ve_tree (emit x c) = ve_tree c" "ve_accounts (emit x c) = ve_accounts c" "ve_config (emit x c) = ve_config c"
  "ve_paused (emit x c) = ve_paused c" "ve_lockup_code (emit x c) = ve_lockup_code c"
  by (simp_all add: emit_def)

lemma same_rest_emit [simp]: "same_rest c (emit x c)"
  by (simp add: same_rest_def)

lemma emit_balance_change_simps [simp]:
  "ve_tree (emit_balance_change x o' n c) = ve_tree c" "same_rest c (emit_balance_change x o' n c)"
  by (simp_all add: emit_balance_change_def)

lemma dom_ledger_of: "dom (ledger_of T c) = dom (internal_get_account c)"
  by (auto simp: ledger_of_def book_def dom_def)

text \<open>The whole book only depends on the tree.\<close>

lemma book_cong:
  assumes "ve_tree c' = ve_tree c"
  shows "internal_get_account c' = internal_get_account c" and "ve_rate c' = ve_rate c"
    and "book T c' = book T c" and "ledger_of T c' = ledger_of T c" and "total_at T c' = total_at T c"
    and "book_wf X T c' = book_wf X T c"
  using assms by (simp_all add: fun_eq_iff book_def ledger_of_def total_at_def book_wf_def
      internal_get_account_def ve_rate_def internal_get_venear_growth_config_def)

text \<open>Reading an account brings it to the current time, which is its entry of the book.\<close>

lemma expect_updated:
  assumes wf: "book_wf X T c" and e: "T = now e" "block_timestamp e < 2 ^ 64"
    and r: "internal_expect_account_updated e c x = Inr a"
  shows "book T c x = Some a" and "account_wf T x a" and "update_timestamp a = T"
proof -
  obtain a0 where a0: "internal_get_account c x = Some a0"
    and u: "account_update (block_timestamp e) (internal_get_venear_growth_config c) a0 = Inr a"
    using r by (auto simp: internal_expect_account_updated_def res_simps)
  have w: "account_wf T x a0" "growth_config_ok (internal_get_venear_growth_config c)" "valid_ts T"
    using wf a0 by (auto simp: book_wf_def)
  have "a = age (ve_rate c) T a0"
    using u w e by (subst (asm) account_update_eq_Inr) (auto simp: account_wf_def now_def ve_rate_def)
  with a0 w show "book T c x = Some a" "account_wf T x a" "update_timestamp a = T"
    by (auto simp: book_def account_wf_def)
qed

lemma set_account:
  assumes wf: "book_wf X T c" and a: "account_wf T x a" "update_timestamp a = T"
    and r: "internal_set_account X e x a c = Inr c'"
  shows "book_wf X T c'" and "book T c' = (book T c)(x \<mapsto> a)" and "same_rest c c'"
    and "internal_get_account c' = (internal_get_account c)(x \<mapsto> a)"
proof -
  obtain old t o' n where t: "mt_set (ext_hasher X) (block_height e) x (vaccount_from a) (ve_tree c) = Inr (old, t)"
    and c': "c' = (emit_balance_change x o' n c)\<lparr>ve_tree := t\<rparr>"
    using r by (auto simp: internal_set_account_def res_simps Let_def)
  have inv: "merkle_inv (ext_hasher X) (ve_tree c)" using wf by (simp add: book_wf_def)
  have get: "mt_get t y = (if y = x then Some (vaccount_from a) else mt_get (ve_tree c) y)" for y
    by (rule mt_get_after_set [OF inv t])
  obtain t': "merkle_inv (ext_hasher X) t" "mt_global_state t = mt_global_state (ve_tree c)"
    by (rule mt_set_inv [OF inv t]) auto
  show sr: "same_rest c c'"
    using t' emit_balance_change_simps(2) [of c x o' n] by (simp add: c' same_rest_def)
  show ga: "internal_get_account c' = (internal_get_account c)(x \<mapsto> a)"
    by (rule ext) (simp add: internal_get_account_def c' get)
  then show "book T c' = (book T c)(x \<mapsto> a)"
    using same_rest_simps(2) [OF sr] a by (auto simp: book_def fun_eq_iff age_same)
  have "mt_global_state (ve_tree c') = mt_global_state (ve_tree c)" using sr by (simp add: same_rest_def)
  then show "book_wf X T c'"
    using wf t' a ga same_rest_simps(1) [OF sr] by (auto simp: book_wf_def c' split: if_splits)
qed

section \<open>Passing time\<close>

lemma grow_sum_parts:
  assumes "\<And>y. y \<in> A \<Longrightarrow> one_millinear dvd n y" "finite A"
  shows "growth r s t (\<Sum>y\<in>A. n y) = (\<Sum>y\<in>A. growth r s t (n y))"
  using assms(2,1)
proof (induction A rule: finite_induct)
  case (insert y A)
  then have "one_millinear dvd (\<Sum>y\<in>A. n y)" by (intro dvd_sum) auto
  with insert show ?case by (simp add: growth_add_near)
qed (simp add: growth_def)

lemma dvd_sum_list_map: "(\<And>y. y \<in> set ys \<Longrightarrow> m dvd n y) \<Longrightarrow> (m::nat) dvd (\<Sum>y\<leftarrow>ys. n y)"
  by (induction ys) auto

lemma grow_sum_list:
  assumes "\<And>y. y \<in> set ys \<Longrightarrow> one_millinear dvd n y"
  shows "growth r s t (\<Sum>y\<leftarrow>ys. n y) = (\<Sum>y\<leftarrow>ys. growth r s t (n y))"
  using assms
proof (induction ys)
  case (Cons y ys)
  have "one_millinear dvd (\<Sum>y\<leftarrow>ys. n y)"
    using Cons.prems by (intro dvd_sum_list_map) auto
  with Cons show ?case by (simp add: growth_add_near)
qed (simp add: growth_def)

definition grow_ledger :: "nat \<Rightarrow> nat \<Rightarrow> nat \<Rightarrow> ledger \<Rightarrow> ledger" where
  "grow_ledger r s t L x = map_option (\<lambda>(b, es). (grow r s t b, es)) (L x)"

lemma dom_grow_ledger [simp]: "dom (grow_ledger r s t L) = dom L"
  by (auto simp: grow_ledger_def dom_def)

lemma ledger_ok_grow: "ledger_ok L \<Longrightarrow> ledger_ok (grow_ledger r s t L)"
  by (auto simp: ledger_ok_def grow_ledger_def)

lemma share_to_grow:
  assumes "bps_ok es"
  shows "share_to near_balance x (grow r s t b, es) = share_to near_balance x (b, es)"
    and "share_to extra_venear_balance x (grow r s t b, es)
      = share_to extra_venear_balance x (b, es) + growth r s t (share_to near_balance x (b, es))"
    and "one_millinear dvd share_to near_balance x (b, es)"
proof -
  let ?es = "filter (\<lambda>d. de_account_id d = x) es"
  have g: "contribution (grow r s t b) (de_bps d) = grow r s t (contribution b (de_bps d))" if "d \<in> set ?es" for d
    using bps_ok_entry [OF assms] that by (intro contribution_grow) auto
  show "share_to near_balance x (grow r s t b, es) = share_to near_balance x (b, es)"
    by (simp add: share_to_def)
  have "(\<Sum>d\<leftarrow>?es. extra_venear_balance (contribution (grow r s t b) (de_bps d)))
    = (\<Sum>d\<leftarrow>?es. extra_venear_balance (contribution b (de_bps d)) + growth r s t (share_near (near_balance b) (de_bps d)))"
    by (intro arg_cong [where f = sum_list] map_cong refl) (simp add: g)
  then show "share_to extra_venear_balance x (grow r s t b, es)
      = share_to extra_venear_balance x (b, es) + growth r s t (share_to near_balance x (b, es))"
    by (simp add: share_to_def sum_list_addf grow_sum_list)
  show "one_millinear dvd share_to near_balance x (b, es)"
    unfolding share_to_def by (intro dvd_sum_list_map) simp
qed

lemma ledger_ok_entry:
  assumes "ledger_ok L" "L y = Some a"
  shows "entries_ok (dom L) y (snd a)"
  using assms unfolding ledger_ok_def by (metis prod.collapse)

lemma received_grow:
  assumes "ledger_ok L"
  shows "received near_balance (grow_ledger r s t L) x = received near_balance L x"
    and "received extra_venear_balance (grow_ledger r s t L) x
      = received extra_venear_balance L x + growth r s t (received near_balance L x)"
proof -
  have fin: "finite (dom L)" using assms by (simp add: ledger_ok_def)
  have y: "the (grow_ledger r s t L y) = (grow r s t (fst (the (L y))), snd (the (L y)))"
      "bps_ok (snd (the (L y)))" if "y \<in> dom L" for y
    using that ledger_ok_entry [OF assms] by (auto simp: grow_ledger_def entries_ok_def split: prod.splits)
  show "received near_balance (grow_ledger r s t L) x = received near_balance L x"
    unfolding received_def by (rule sum.cong) (simp_all add: y share_to_grow)
  have "(\<Sum>y\<in>dom L. share_to extra_venear_balance x (the (grow_ledger r s t L y)))
    = (\<Sum>y\<in>dom L. share_to extra_venear_balance x (the (L y)) + growth r s t (share_to near_balance x (the (L y))))"
    by (rule sum.cong) (simp_all add: y share_to_grow)
  moreover have "growth r s t (\<Sum>y\<in>dom L. share_to near_balance x (the (L y)))
    = (\<Sum>y\<in>dom L. growth r s t (share_to near_balance x (the (L y))))"
  proof (rule grow_sum_parts [OF _ fin])
    fix y assume "y \<in> dom L"
    then show "one_millinear dvd share_to near_balance x (the (L y))"
      using share_to_grow(3) [OF y(2), of y x "fst (the (L y))"] by simp
  qed
  ultimately show "received extra_venear_balance (grow_ledger r s t L) x
      = received extra_venear_balance L x + growth r s t (received near_balance L x)"
    by (simp add: received_def sum.distrib)
qed

lemma pool_sum_grow:
  assumes "finite (dom L)"
  shows "pool_sum pooled_near (grow_ledger r s t L) = pool_sum pooled_near L"
    and "pool_sum pooled_extra (grow_ledger r s t L)
      = pool_sum pooled_extra L + growth r s t (pool_sum pooled_near L)"
proof -
  have y: "fst (the (grow_ledger r s t L y)) = grow r s t (fst (the (L y)))" if "y \<in> dom L" for y
    using that by (auto simp: grow_ledger_def split: prod.splits)
  show "pool_sum pooled_near (grow_ledger r s t L) = pool_sum pooled_near L"
    unfolding pool_sum_def by (rule sum.cong) (simp_all add: y pooled_near_def)
  have g: "growth r s t (near_balance b) = growth r s t (pooled_near b)" for b
    by (simp add: growth_def pooled_near_def)
  have e: "pooled_extra (grow r s t b) = pooled_extra b + growth r s t (pooled_near b)" for b
    by (simp only: pooled_extra_def grow_near grow_extra g ac_simps)
  have "(\<Sum>y\<in>dom L. pooled_extra (fst (the (grow_ledger r s t L y))))
    = (\<Sum>y\<in>dom L. pooled_extra (fst (the (L y))) + growth r s t (pooled_near (fst (the (L y)))))"
    by (rule sum.cong) (simp_all add: y e)
  moreover have "growth r s t (\<Sum>y\<in>dom L. pooled_near (fst (the (L y))))
    = (\<Sum>y\<in>dom L. growth r s t (pooled_near (fst (the (L y)))))"
    by (rule grow_sum_parts [OF _ assms]) (simp add: pooled_near_def)
  ultimately show "pool_sum pooled_extra (grow_ledger r s t L)
      = pool_sum pooled_extra L + growth r s t (pool_sum pooled_near L)"
    by (simp add: pool_sum_def sum.distrib)
qed

text \<open>
  The derived quantities are what the contract has stored, at time \<open>T\<close>.
\<close>

definition derived_ok :: "nat \<Rightarrow> venear \<Rightarrow> bool" where
  "derived_ok T c \<longleftrightarrow>
     (\<forall>x a. book T c x = Some a \<longrightarrow>
        (\<forall>f \<in> parts. f (delegated_balance a) = received f (ledger_of T c) x))
     \<and> near_balance (total_at T c) = pool_sum pooled_near (ledger_of T c)
     \<and> extra_venear_balance (total_at T c) = pool_sum pooled_extra (ledger_of T c)"

lemma book_later:
  assumes wf: "book_wf X T c" and t: "valid_ts T'" "T \<le> T'"
  shows "book_wf X T' c"
    and "book T' c x = map_option (age (ve_rate c) T') (book T c x)"
    and "ledger_of T' c = grow_ledger (ve_rate c) T T' (ledger_of T c)"
    and "total_at T' c = grow (ve_rate c) T T' (total_at T c)"
proof -
  have acc: "account_wf T x a" if "internal_get_account c x = Some a" for x a
    using wf that by (auto simp: book_wf_def)
  have T: "valid_ts T" using wf by (simp add: book_wf_def)
  show "book_wf X T' c"
    using wf t by (fastforce simp: book_wf_def account_wf_def)
  show b: "book T' c x = map_option (age (ve_rate c) T') (book T c x)" for x
  proof (cases "internal_get_account c x")
    case (Some a)
    with acc [OF Some] t T show ?thesis by (simp add: book_def age_age account_wf_def)
  qed (simp add: book_def)
  show "ledger_of T' c = grow_ledger (ve_rate c) T T' (ledger_of T c)"
  proof
    fix x
    show "ledger_of T' c x = grow_ledger (ve_rate c) T T' (ledger_of T c) x"
    proof (cases "internal_get_account c x")
      case (Some a)
      with acc [OF Some] t T show ?thesis
        by (simp add: ledger_of_def book_def grow_ledger_def owns_def account_wf_def grow_split)
    qed (simp add: ledger_of_def book_def grow_ledger_def)
  qed
  show "total_at T' c = grow (ve_rate c) T T' (total_at T c)"
    using wf t T by (simp add: total_at_def book_wf_def grow_split)
qed

lemma derived_later:
  assumes wf: "book_wf X T c" and ok: "ledger_ok (ledger_of T c)" "derived_ok T c"
    and t: "valid_ts T'" "T \<le> T'"
  shows "ledger_ok (ledger_of T' c)" and "derived_ok T' c"
proof -
  note l = book_later [OF wf t]
  have T: "valid_ts T" using wf by (simp add: book_wf_def)
  show "ledger_ok (ledger_of T' c)" using ok(1) by (simp add: l ledger_ok_grow)
  have fin: "finite (dom (ledger_of T c))" using ok(1) by (simp add: ledger_ok_def)
  have "f (delegated_balance a') = received f (ledger_of T' c) x"
    if "book T' c x = Some a'" "f \<in> parts" for x a' f
  proof -
    obtain a where a: "book T c x = Some a" "a' = age (ve_rate c) T' a"
      using \<open>book T' c x = Some a'\<close> l(2) by auto
    moreover have "update_timestamp a = T" using a by (auto simp: book_def)
    ultimately have "delegated_balance a' = grow (ve_rate c) T T' (delegated_balance a)" by simp
    then show ?thesis
      using that(2) ok(2) a(1) received_grow [OF ok(1)] by (auto simp: parts_def derived_ok_def l(3))
  qed
  then show "derived_ok T' c"
    using ok(2) pool_sum_grow [OF fin] by (simp add: derived_ok_def l)
qed

section \<open>Moving shares between delegates\<close>

text \<open>
  \<open>shifted out inn ds V V'\<close>: going through the delegations \<open>ds\<close> has taken \<open>out d\<close> from the
  delegated balance of the delegate of each \<open>d\<close> and added \<open>inn d\<close>, and changed nothing else.
\<close>

definition passed :: "(venear_balance \<Rightarrow> nat) \<Rightarrow> (delegation_entry \<Rightarrow> venear_balance) \<Rightarrow> delegation_entry list \<Rightarrow> account_id \<Rightarrow> nat" where
  "passed f g ds x = (\<Sum>d\<leftarrow>filter (\<lambda>d. de_account_id d = x) ds. f (g d))"

definition shifted ::
  "(delegation_entry \<Rightarrow> venear_balance) \<Rightarrow> (delegation_entry \<Rightarrow> venear_balance) \<Rightarrow> delegation_entry list
    \<Rightarrow> (account_id \<rightharpoonup> account) \<Rightarrow> (account_id \<rightharpoonup> account) \<Rightarrow> bool" where
  "shifted out inn ds V V' \<longleftrightarrow> dom V' = dom V \<and> de_account_id ` set ds \<subseteq> dom V \<and> (\<forall>x a. V x = Some a \<longrightarrow>
     (\<exists>p. V' x = Some (a\<lparr>delegated_balance := p\<rparr>)
        \<and> (\<forall>f \<in> parts. f p + passed f out ds x = f (delegated_balance a) + passed f inn ds x)))"

lemma shifted_Nil: "shifted out inn [] V V"
  unfolding shifted_def passed_def
proof (intro conjI allI impI)
  fix x a
  assume "V x = Some a"
  then show "\<exists>p. V x = Some (a\<lparr>delegated_balance := p\<rparr>) \<and> (\<forall>f \<in> parts. f p + (\<Sum>d\<leftarrow>filter (\<lambda>d. de_account_id d = x) []. f (out d))
      = f (delegated_balance a) + (\<Sum>d\<leftarrow>filter (\<lambda>d. de_account_id d = x) []. f (inn d)))"
    by (intro exI [of _ "delegated_balance a"]) simp
qed simp_all

lemma shiftedE:
  assumes "shifted out inn ds V V'" "V x = Some a"
  obtains p where "V' x = Some (a\<lparr>delegated_balance := p\<rparr>)"
    and "\<And>f. f \<in> parts \<Longrightarrow> f p + passed f out ds x = f (delegated_balance a) + passed f inn ds x"
proof -
  from assms have "\<exists>p. V' x = Some (a\<lparr>delegated_balance := p\<rparr>)
      \<and> (\<forall>f \<in> parts. f p + passed f out ds x = f (delegated_balance a) + passed f inn ds x)"
    unfolding shifted_def by simp
  with that show thesis by blast
qed

lemma passed_Cons [simp]:
  "passed f g (d # ds) x = (if de_account_id d = x then f (g d) else 0) + passed f g ds x"
  by (simp add: passed_def)

lemma shifted_Cons:
  assumes "V (de_account_id d) = Some a" and "\<forall>f \<in> parts. f p + f (out d) = f (delegated_balance a) + f (inn d)"
    and "shifted out inn ds (V(de_account_id d \<mapsto> a\<lparr>delegated_balance := p\<rparr>)) V'"
  shows "shifted out inn (d # ds) V V'"
proof -
  let ?x = "de_account_id d" and ?V = "V(de_account_id d \<mapsto> a\<lparr>delegated_balance := p\<rparr>)"
  have dom: "dom V' = dom V" "de_account_id ` set (d # ds) \<subseteq> dom V"
    using assms(1,3) by (auto simp: shifted_def)
  have "\<exists>q. V' y = Some (b\<lparr>delegated_balance := q\<rparr>)
      \<and> (\<forall>f \<in> parts. f q + passed f out (d # ds) y = f (delegated_balance b) + passed f inn (d # ds) y)"
    if y: "V y = Some b" for y b
  proof (cases "y = ?x")
    case True
    then have V: "?V y = Some (a\<lparr>delegated_balance := p\<rparr>)" and b: "b = a" using y assms(1) by auto
    obtain q where q: "V' y = Some (a\<lparr>delegated_balance := p, delegated_balance := q\<rparr>)"
      and e: "\<And>f. f \<in> parts \<Longrightarrow> f q + passed f out ds y = f p + passed f inn ds y"
      by (rule shiftedE [OF assms(3) V]) simp
    have "f q + passed f out (d # ds) y = f (delegated_balance b) + passed f inn (d # ds) y" if "f \<in> parts" for f
      using e [OF that] assms(2) that True b by fastforce
    with q b show ?thesis by auto
  next
    case False
    then have V: "?V y = Some b" using y by simp
    obtain q where "V' y = Some (b\<lparr>delegated_balance := q\<rparr>)"
      "\<And>f. f \<in> parts \<Longrightarrow> f q + passed f out ds y = f (delegated_balance b) + passed f inn ds y"
      by (rule shiftedE [OF assms(3) V]) simp
    with False show ?thesis by auto
  qed
  with dom show ?thesis by (simp add: shifted_def)
qed

lemma shifted_trans:
  assumes "shifted o1 i1 ds V V1" "shifted o2 i2 es V1 V2"
    and "V x = Some a"
  obtains p where "V2 x = Some (a\<lparr>delegated_balance := p\<rparr>)"
    and "\<forall>f \<in> parts. f p + (passed f o1 ds x + passed f o2 es x) = f (delegated_balance a) + (passed f i1 ds x + passed f i2 es x)"
proof -
  obtain p where p: "V1 x = Some (a\<lparr>delegated_balance := p\<rparr>)"
    and e1: "\<And>f. f \<in> parts \<Longrightarrow> f p + passed f o1 ds x = f (delegated_balance a) + passed f i1 ds x"
    by (rule shiftedE [OF assms(1,3)]) blast
  obtain q where q: "V2 x = Some (a\<lparr>delegated_balance := p, delegated_balance := q\<rparr>)"
    and e2: "\<And>f. f \<in> parts \<Longrightarrow> f q + passed f o2 es x = f p + passed f i2 es x"
    by (rule shiftedE [OF assms(2) p]) simp
  show thesis
  proof (rule that [of q])
    show "V2 x = Some (a\<lparr>delegated_balance := q\<rparr>)" using q by simp
    show "\<forall>f \<in> parts. f q + (passed f o1 ds x + passed f o2 es x)
        = f (delegated_balance a) + (passed f i1 ds x + passed f i2 es x)"
    proof
      fix f assume "f \<in> parts"
      from e1 [OF this] e2 [OF this] show "f q + (passed f o1 ds x + passed f o2 es x)
        = f (delegated_balance a) + (passed f i1 ds x + passed f i2 es x)" by linarith
    qed
  qed
qed

text \<open>The three loop bodies that move shares.\<close>

lemma contribution_bps:
  assumes "pooled_add_delegation p b k = Inr q" "k \<le> 10000"
  shows "vb_add p (contribution b k) = Inr q"
  using assms by (auto simp: pooled_add_delegation_def and_then_eq_Inr dest!: delegation_contribution_value)

lemma contribution_bps_sub:
  assumes "pooled_sub_delegation p b k = Inr q" "k \<le> 10000"
  shows "vb_sub p (contribution b k) = Inr q"
  using assms by (auto simp: pooled_sub_delegation_def and_then_eq_Inr dest!: delegation_contribution_value)

lemma vb_add_parts: "vb_add p c = Inr q \<Longrightarrow> f \<in> parts \<Longrightarrow> f q = f p + f c"
  by (auto simp: vb_add_eq_Inr parts_def)

lemma vb_sub_parts: "vb_sub p c = Inr q \<Longrightarrow> f \<in> parts \<Longrightarrow> f q + f c = f p"
  by (auto simp: vb_sub_eq_Inr parts_def)

lemma near_in_parts [simp]: "near_balance \<in> parts" "extra_venear_balance \<in> parts"
  by (simp_all add: parts_def)

lemma parts_default [simp]: "f \<in> parts \<Longrightarrow> f vb_default = 0"
  by (auto simp: parts_def vb_default_def)

definition body_ok ::
  "venear_ext \<Rightarrow> nat \<Rightarrow> (delegation_entry \<Rightarrow> venear \<Rightarrow> venear res)
    \<Rightarrow> (delegation_entry \<Rightarrow> venear_balance) \<Rightarrow> (delegation_entry \<Rightarrow> venear_balance) \<Rightarrow> delegation_entry \<Rightarrow> bool" where
  "body_ok X T f out inn d \<longleftrightarrow> (\<forall>c c'. book_wf X T c \<longrightarrow> f d c = Inr c' \<longrightarrow>
     book_wf X T c' \<and> same_rest c c' \<and> (\<exists>a p. book T c (de_account_id d) = Some a
       \<and> book T c' = (book T c)(de_account_id d \<mapsto> a\<lparr>delegated_balance := p\<rparr>)
       \<and> (\<forall>g \<in> parts. g p + g (out d) = g (delegated_balance a) + g (inn d))))"

lemma write_delegate:
  assumes wf: "book_wf X T c" and e: "T = now e" "block_timestamp e < 2 ^ 64"
    and a: "internal_expect_account_updated e c x = Inr a"
    and r: "internal_set_account X e x (a\<lparr>delegated_balance := p\<rparr>) c = Inr c'"
    and p: "near_balance p < 2 ^ 128"
  shows "book_wf X T c' \<and> same_rest c c' \<and> book T c x = Some a
    \<and> book T c' = (book T c)(x \<mapsto> a\<lparr>delegated_balance := p\<rparr>)"
proof -
  note u = expect_updated [OF wf e a]
  have w: "account_wf T x (a\<lparr>delegated_balance := p\<rparr>)" using u(2) p by (simp add: account_wf_def)
  show ?thesis using set_account [OF wf w _ r] u by simp
qed

lemma remove_delegation_body:
  assumes e: "T = now e" "block_timestamp e < 2 ^ 64" and d: "de_bps d \<le> 10000"
  shows "body_ok X T (remove_delegation X e b) (\<lambda>d. contribution b (de_bps d)) (\<lambda>_. vb_default) d"
  unfolding body_ok_def
proof (intro allI impI)
  fix c c'
  assume wf: "book_wf X T c" and r: "remove_delegation X e b d c = Inr c'"
  then obtain a p where a: "internal_expect_account_updated e c (de_account_id d) = Inr a"
    and p: "pooled_sub_delegation (delegated_balance a) b (de_bps d) = Inr p"
    and s: "internal_set_account X e (de_account_id d) (a\<lparr>delegated_balance := p\<rparr>) c = Inr c'"
    by (auto simp: remove_delegation_def res_simps)
  note q = contribution_bps_sub [OF p d]
  have "near_balance p < 2 ^ 128"
    using q expect_updated(2) [OF wf e a] by (auto simp: vb_sub_eq_Inr account_wf_def)
  from write_delegate [OF wf e a s this] vb_sub_parts [OF q]
  show "book_wf X T c' \<and> same_rest c c' \<and> (\<exists>a p. book T c (de_account_id d) = Some a
       \<and> book T c' = (book T c)(de_account_id d \<mapsto> a\<lparr>delegated_balance := p\<rparr>)
       \<and> (\<forall>g \<in> parts. g p + g (contribution b (de_bps d)) = g (delegated_balance a) + g vb_default))"
    by auto
qed

lemma add_delegation_body:
  assumes e: "T = now e" "block_timestamp e < 2 ^ 64" and d: "de_bps d \<le> 10000"
  shows "body_ok X T (add_delegation X e b) (\<lambda>_. vb_default) (\<lambda>d. contribution b (de_bps d)) d"
  unfolding body_ok_def
proof (intro allI impI)
  fix c c'
  assume wf: "book_wf X T c" and r: "add_delegation X e b d c = Inr c'"
  then obtain a p where a: "internal_expect_account_updated e c (de_account_id d) = Inr a"
    and p: "pooled_add_delegation (delegated_balance a) b (de_bps d) = Inr p"
    and s: "internal_set_account X e (de_account_id d) (a\<lparr>delegated_balance := p\<rparr>) c = Inr c'"
    by (auto simp: add_delegation_def res_simps)
  note q = contribution_bps [OF p d]
  have "near_balance p < 2 ^ 128" using q by (auto simp: vb_add_eq_Inr)
  from write_delegate [OF wf e a s this] vb_add_parts [OF q]
  show "book_wf X T c' \<and> same_rest c c' \<and> (\<exists>a p. book T c (de_account_id d) = Some a
       \<and> book T c' = (book T c)(de_account_id d \<mapsto> a\<lparr>delegated_balance := p\<rparr>)
       \<and> (\<forall>g \<in> parts. g p + g vb_default = g (delegated_balance a) + g (contribution b (de_bps d))))"
    by auto
qed

lemma replace_delegation_body:
  assumes e: "T = now e" "block_timestamp e < 2 ^ 64" and d: "de_bps d \<le> 10000"
  shows "body_ok X T (replace_delegation X e b b') (\<lambda>d. contribution b (de_bps d)) (\<lambda>d. contribution b' (de_bps d)) d"
  unfolding body_ok_def
proof (intro allI impI)
  fix c c'
  assume wf: "book_wf X T c" and r: "replace_delegation X e b b' d c = Inr c'"
  then obtain a p q where a: "internal_expect_account_updated e c (de_account_id d) = Inr a"
    and p: "pooled_sub_delegation (delegated_balance a) b (de_bps d) = Inr p"
    and q: "pooled_add_delegation p b' (de_bps d) = Inr q"
    and s: "internal_set_account X e (de_account_id d) (a\<lparr>delegated_balance := q\<rparr>) c = Inr c'"
    by (auto simp: replace_delegation_def res_simps)
  note q1 = contribution_bps_sub [OF p d] and q2 = contribution_bps [OF q d]
  have "near_balance q < 2 ^ 128" using q2 by (auto simp: vb_add_eq_Inr)
  moreover have "g q + g (contribution b (de_bps d)) = g (delegated_balance a) + g (contribution b' (de_bps d))"
    if "g \<in> parts" for g
    using vb_sub_parts [OF q1 that] vb_add_parts [OF q2 that] by linarith
  ultimately show "book_wf X T c' \<and> same_rest c c' \<and> (\<exists>a p. book T c (de_account_id d) = Some a
       \<and> book T c' = (book T c)(de_account_id d \<mapsto> a\<lparr>delegated_balance := p\<rparr>)
       \<and> (\<forall>g \<in> parts. g p + g (contribution b (de_bps d)) = g (delegated_balance a) + g (contribution b' (de_bps d))))"
    using write_delegate [OF wf e a s] by blast
qed

lemma shift_loop:
  assumes "book_wf X T c" "for_each f ds c = Inr c'" "\<And>d. d \<in> set ds \<Longrightarrow> body_ok X T f out inn d"
  shows "book_wf X T c' \<and> same_rest c c' \<and> shifted out inn ds (book T c) (book T c')"
  using assms
proof (induction ds arbitrary: c)
  case Nil
  then show ?case by (simp add: shifted_Nil)
next
  case (Cons d ds)
  from Cons.prems(2) obtain c1 where 1: "f d c = Inr c1" "for_each f ds c1 = Inr c'"
    by (auto simp: res_simps)
  have "body_ok X T f out inn d" using Cons.prems(3) by simp
  with Cons.prems(1) 1(1) obtain a p where c1: "book_wf X T c1" "same_rest c c1"
    "book T c (de_account_id d) = Some a"
    "book T c1 = (book T c)(de_account_id d \<mapsto> a\<lparr>delegated_balance := p\<rparr>)"
    "\<forall>g \<in> parts. g p + g (out d) = g (delegated_balance a) + g (inn d)"
    unfolding body_ok_def by blast
  have "book_wf X T c' \<and> same_rest c1 c' \<and> shifted out inn ds (book T c1) (book T c')"
    using Cons.IH [OF c1(1) 1(2)] Cons.prems(3) by simp
  with c1 show ?case by (auto intro: same_rest_trans shifted_Cons [where out = out and inn = inn])
qed

text \<open>What is shifted does not change who owns what.\<close>

lemma shifted_owns:
  assumes "shifted out inn ds V V'"
  shows "map_option owns (V' x) = map_option owns (V x)"
proof (cases "V x")
  case None
  then have "V' x = None" using assms by (auto simp: shifted_def)
  with None show ?thesis by simp
next
  case (Some a)
  then obtain p where "V' x = Some (a\<lparr>delegated_balance := p\<rparr>)" by (rule shiftedE [OF assms])
  with Some show ?thesis by (simp add: owns_def)
qed

end
