(* ===== verification/Venear_Invariant.thy ===== *)
theory Venear_Invariant
  imports Venear_Ledger
begin

text \<open>
  What the veNEAR contract keeps over any sequence of calls: the delegated balance of every
  account is the sum of the shares passed to it, the total supply is the sum of what all
  accounts own, delegates are registered, and every stored deposit is covered. Each call
  that changes balances is shown to be an update of the abstract ledger of one account.
\<close>

section \<open>The invariant\<close>

definition internals_ok :: "nat \<Rightarrow> venear \<Rightarrow> bool" where
  "internals_ok T c \<longleftrightarrow> dom (ve_accounts c) = dom (ledger_of T c)
     \<and> (\<forall>x i b es. internal_get_account_internal c x = Some i \<longrightarrow> ledger_of T c x = Some (b, es)
          \<longrightarrow> ai_deposit i \<le> near_balance b)"

definition venear_inv :: "venear_ext \<Rightarrow> nat \<Rightarrow> venear \<Rightarrow> bool" where
  "venear_inv X T c \<longleftrightarrow> book_wf X T c \<and> ledger_ok (ledger_of T c) \<and> derived_ok T c \<and> internals_ok T c"

lemma venear_inv_later:
  assumes "venear_inv X T c" "valid_ts T'" "T \<le> T'"
  shows "venear_inv X T' c"
proof -
  have inv: "book_wf X T c" "ledger_ok (ledger_of T c)" "derived_ok T c" "internals_ok T c"
    using assms(1) by (simp_all add: venear_inv_def)
  have "internals_ok T' c"
    using inv(4) unfolding book_later(3) [OF inv(1) assms(2,3)] internals_ok_def
    by (auto simp: grow_ledger_def)
  with book_later(1) [OF inv(1) assms(2,3)] derived_later [OF inv(1-3) assms(2,3)] show ?thesis
    by (simp add: venear_inv_def)
qed

text \<open>Replacing what one account owns, given that its delegates have been told.\<close>

lemma share_to_passed: "share_to f x (b, ds) = passed f (\<lambda>d. contribution b (de_bps d)) ds x"
  by (simp add: share_to_def passed_def)

lemma passed_default [simp]: "f \<in> parts \<Longrightarrow> passed f (\<lambda>_. vb_default) ds x = 0"
  by (simp add: passed_def sum_list_eq_0_iff)

lemma passed_nobody: "x \<notin> de_account_id ` set ds \<Longrightarrow> passed f g ds x = 0"
  by (auto simp: passed_def filter_empty_conv image_iff)

text \<open>
  The step shared by all balance updates: the book after the loops over the delegates, with the
  account of the owner written last.
\<close>

lemma derived_after_write:
  assumes fin: "finite (dom L)" and L: "L = (\<lambda>x. map_option owns (V x))"
    and V0: "V o' = Some a" "\<forall>x b. V x = Some b \<longrightarrow> (\<forall>f \<in> parts. f (delegated_balance b) = received f L x)"
    and V2: "\<And>x b. V x = Some b \<Longrightarrow> \<exists>p. V2 x = Some (b\<lparr>delegated_balance := p\<rparr>)
      \<and> (\<forall>f \<in> parts. f p + share_to f x (owns a) = f (delegated_balance b) + share_to f x (owns a'))"
    and a': "delegated_balance a' = delegated_balance a"
    and self: "\<And>f. share_to f o' (owns a) = 0" "\<And>f. share_to f o' (owns a') = 0"
    and V': "V' = V2(o' \<mapsto> a')" and dom: "dom V2 = dom V"
  shows "(\<lambda>x. map_option owns (V' x)) = L(o' \<mapsto> owns a')"
    and "V' x = Some b \<Longrightarrow> f \<in> parts \<Longrightarrow> f (delegated_balance b) = received f (L(o' \<mapsto> owns a')) x"
proof -
  show L': "(\<lambda>x. map_option owns (V' x)) = L(o' \<mapsto> owns a')"
  proof
    fix x
    show "map_option owns (V' x) = (L(o' \<mapsto> owns a')) x"
    proof (cases "V x")
      case None
      then have "V2 x = None" using dom by (metis domIff)
      with None V0 show ?thesis by (auto simp: V' L)
    next
      case (Some b)
      from V2 [OF this] Some show ?thesis by (auto simp: V' L owns_def)
    qed
  qed
  assume x: "V' x = Some b" and f: "f \<in> parts"
  have La: "L o' = Some (owns a)" using V0 by (simp add: L)
  note eq = received_cong [OF fin La, of f "owns a'" x]
  show "f (delegated_balance b) = received f (L(o' \<mapsto> owns a')) x"
  proof (cases "x = o'")
    case True
    then have "b = a'" using x by (simp add: V')
    then have "f (delegated_balance b) = received f L o'" using a' V0 f by simp
    moreover have "received f (L(o' \<mapsto> owns a')) o' = received f L o'" using eq self True by simp
    ultimately show ?thesis using True by simp
  next
    case False
    then have "V2 x = Some b" using x by (simp add: V')
    then obtain b0 where b0: "V x = Some b0" using dom by (metis domD domI)
    with V2 [OF b0] \<open>V2 x = Some b\<close> f have "f (delegated_balance b) + share_to f x (owns a)
        = f (delegated_balance b0) + share_to f x (owns a')" by auto
    moreover have "f (delegated_balance b0) = received f L x" using V0 b0 f by blast
    ultimately show ?thesis using eq by linarith
  qed
qed

section \<open>Validation of delegations\<close>

lemma validate_entries_ok:
  "validate_entries owner prev s es = Inr (Inr t) \<Longrightarrow>
     sorted_wrt (<) ((case prev of None \<Rightarrow> [] | Some p \<Rightarrow> [de_account_id p]) @ map de_account_id es)
     \<and> owner \<notin> de_account_id ` set es \<and> (\<forall>d \<in> set es. 0 < de_bps d) \<and> t = s + (\<Sum>d\<leftarrow>es. de_bps d)"
proof (induction owner prev s es rule: validate_entries.induct)
  case (2 owner prev s d es)
  then have h: "\<not> bps_is_zero (de_bps d)" "de_account_id d \<noteq> owner"
    "\<not> (case prev of None \<Rightarrow> False | Some p \<Rightarrow> de_account_id d \<le> de_account_id p)"
    and r: "validate_entries owner (Some d) (s + de_bps d) es = Inr (Inr t)"
    by (auto simp: res_simps split: if_splits)
  have "sorted_wrt (<) (de_account_id d # map de_account_id es) \<and> owner \<notin> de_account_id ` set es
      \<and> (\<forall>d \<in> set es. 0 < de_bps d) \<and> t = s + de_bps d + (\<Sum>d\<leftarrow>es. de_bps d)"
    using 2(1) [OF h, of "s + de_bps d"] r by simp
  then show ?case using h
    by (auto simp: bps_is_zero_def split: option.splits)
qed (auto split: option.splits)

lemma validate_delegations_ok:
  assumes "or_panic (validate_delegations es owner m) = Inr s"
  shows "sorted_wrt (<) (map de_account_id es)" "owner \<notin> de_account_id ` set es"
    "\<forall>d \<in> set es. 0 < de_bps d" "bps_ok es" "length es \<le> m" "s = (\<Sum>d\<leftarrow>es. de_bps d)"
proof -
  have "validate_delegations es owner m = Inr (Inr s)"
    using assms by (cases "validate_delegations es owner m" rule: sum.exhaust) (auto elim: or_panic.elims)
  then obtain r where m: "length es \<le> m" and r: "validate_entries owner None 0 es = Inr r"
    and c: "(case r of Inl err \<Rightarrow> Inr (Inl err) | Inr sum_bps \<Rightarrow>
           if 10000 < sum_bps then Inr (Inl ''Total bps exceeds 10000'')
           else and_then (check 16 sum_bps) (\<lambda>s. Inr (Inr s))) = Inr (Inr s)"
    by (auto simp: validate_delegations_def and_then_eq_Inr check_eq_Inr split: if_splits)
  then have "validate_entries owner None 0 es = Inr (Inr s) \<and> s \<le> 10000 \<and> length es \<le> m"
    by (cases r) (auto simp: res_simps split: if_splits)
  with validate_entries_ok [of owner None 0 es s]
  show "sorted_wrt (<) (map de_account_id es)" "owner \<notin> de_account_id ` set es"
    "\<forall>d \<in> set es. 0 < de_bps d" "bps_ok es" "length es \<le> m" "s = (\<Sum>d\<leftarrow>es. de_bps d)"
    by (auto simp: bps_ok_def)
qed

lemma ledger_ok_write:
  assumes "ledger_ok L" "x \<in> dom L" "entries_ok (dom L) x (snd a)"
  shows "ledger_ok (L(x \<mapsto> a))"
proof -
  have "dom (L(x \<mapsto> a)) = dom L" using assms(2) by auto
  with assms show ?thesis by (auto simp: ledger_ok_def split: if_splits)
qed

text \<open>
  The frame of the two calls that change what an account owns: \<open>c2\<close> is the state after the loops
  over the delegates and \<open>c3\<close> the one after the account itself is written.
\<close>

lemma write_owner:
  assumes inv: "venear_inv X T c" and a: "book T c x = Some a"
    and c2: "dom (book T c2) = dom (book T c)"
      "\<And>y b. book T c y = Some b \<Longrightarrow> \<exists>p. book T c2 y = Some (b\<lparr>delegated_balance := p\<rparr>)
        \<and> (\<forall>f \<in> parts. f p + share_to f y (owns a) = f (delegated_balance b) + share_to f y (owns a'))"
    and a': "delegated_balance a' = delegated_balance a" "entries_ok (dom (ledger_of T c)) x (delegations a')"
    and c3: "book T c3 = (book T c2)(x \<mapsto> a')"
  shows "ledger_of T c3 = (ledger_of T c)(x \<mapsto> owns a')" and "ledger_ok (ledger_of T c3)"
    and "book T c3 y = Some b \<Longrightarrow> f \<in> parts \<Longrightarrow> f (delegated_balance b) = received f (ledger_of T c3) y"
proof -
  let ?L = "ledger_of T c"
  have L: "?L = (\<lambda>x. map_option owns (book T c x))" by (auto simp: ledger_of_def)
  have ok: "ledger_ok ?L" and d: "derived_ok T c" using inv by (simp_all add: venear_inv_def)
  have fin: "finite (dom ?L)" using ok by (simp add: ledger_ok_def)
  have Lx: "?L x = Some (owns a)" using a by (simp add: L)
  have self: "share_to f x (owns a) = 0" "share_to f x (owns a') = 0" for f
  proof -
    have "x \<notin> de_account_id ` set (delegations a)"
      using ledger_ok_entry [OF ok Lx] by (simp add: entries_ok_def owns_def)
    then show "share_to f x (owns a) = 0" by (simp add: owns_def share_to_passed passed_nobody)
    show "share_to f x (owns a') = 0"
      using a'(2) by (simp add: owns_def share_to_passed passed_nobody entries_ok_def)
  qed
  have dV: "\<forall>x b. book T c x = Some b \<longrightarrow> (\<forall>f \<in> parts. f (delegated_balance b) = received f ?L x)"
    using d by (simp add: derived_ok_def)
  note w = derived_after_write [OF fin L a dV c2(2) a'(1) self c3 c2(1)]
  show L3: "ledger_of T c3 = ?L(x \<mapsto> owns a')"
    using w(1) by (simp add: ledger_of_def fun_eq_iff)
  show "ledger_ok (ledger_of T c3)"
    unfolding L3 using Lx a'(2) by (intro ledger_ok_write [OF ok]) (auto simp: owns_def)
  show "book T c3 y = Some b \<Longrightarrow> f \<in> parts \<Longrightarrow> f (delegated_balance b) = received f (ledger_of T c3) y"
    unfolding L3 by (rule w(2))
qed

section \<open>Delegating\<close>

lemma venear_inv_cong:
  assumes "ve_tree c' = ve_tree c" "ve_accounts c' = ve_accounts c"
  shows "venear_inv X T c' = venear_inv X T c"
  using assms book_cong [OF assms(1)]
  by (simp add: venear_inv_def derived_ok_def internals_ok_def internal_get_account_internal_def)

lemma set_delegations_loops:
  assumes "set_delegations X e es c = Inr c'"
  obtains a c1 c2 c4 where "\<not> ve_paused c" "0 < attached_deposit e"
    and "or_panic (validate_delegations es (predecessor e) (vc_max_delegations (ve_config c))) = Inr (\<Sum>d\<leftarrow>es. de_bps d)"
    and "internal_expect_account_updated e c (predecessor e) = Inr a"
    and "for_each (remove_delegation X e (balance a)) (delegations a) c = Inr c1"
    and "for_each (add_delegation X e (balance a)) es c1 = Inr c2"
    and "internal_set_account X e (predecessor e) (a\<lparr>delegations := es\<rparr>)
      (emit (Delegation_Change (predecessor e) (delegations a) es) c2) = Inr c4"
    and "c' = c4 \<or> (\<exists>r. c' = emit r c4)"
proof -
  from assms obtain s a c1 c2 c4 r where 1: "\<not> ve_paused c" "0 < attached_deposit e"
    "or_panic (validate_delegations es (predecessor e) (vc_max_delegations (ve_config c))) = Inr s"
    "internal_expect_account_updated e c (predecessor e) = Inr a"
    "for_each (remove_delegation X e (balance a)) (delegations a) c = Inr c1"
    "for_each (add_delegation X e (balance a)) es c1 = Inr c2"
    "internal_set_account X e (predecessor e) (a\<lparr>delegations := es\<rparr>)
      (emit (Delegation_Change (predecessor e) (delegations a) es) c2) = Inr c4"
    "c' = (if 0 < r then emit (Transfer (predecessor e) r) c4 else c4)"
    by (auto simp: set_delegations_def venear_assert_not_paused_def Let_def res_simps)
  have "s = (\<Sum>d\<leftarrow>es. de_bps d)" by (rule validate_delegations_ok(6) [OF 1(3)])
  moreover have "c' = c4 \<or> (\<exists>r. c' = emit r c4)" using 1(8) by (auto split: if_splits)
  ultimately show thesis using 1 by (intro that [of a c1 c2 c4]) simp_all
qed

text \<open>The part of \<open>set_delegations\<close> before the storage charge.\<close>

lemma set_delegations_core:
  assumes inv: "venear_inv X T c" and e: "T = now e" "block_timestamp e < 2 ^ 64"
    and val: "or_panic (validate_delegations es (predecessor e) (vc_max_delegations (ve_config c))) = Inr (\<Sum>d\<leftarrow>es. de_bps d)"
    and a: "internal_expect_account_updated e c (predecessor e) = Inr a"
    and c1: "for_each (remove_delegation X e (balance a)) (delegations a) c = Inr c1"
    and c2: "for_each (add_delegation X e (balance a)) es c1 = Inr c2"
    and c4: "internal_set_account X e (predecessor e) (a\<lparr>delegations := es\<rparr>)
      (emit (Delegation_Change (predecessor e) (delegations a) es) c2) = Inr c4"
  shows "ledger_of T c (predecessor e) = Some (balance a, delegations a)"
    and "ledger_of T c4 = (ledger_of T c)(predecessor e \<mapsto> (balance a, es))" and "venear_inv X T c4" and "same_rest c c4"
proof -
  let ?x = "predecessor e" and ?L = "ledger_of T c"
  note v = validate_delegations_ok [OF val]
  have wf: "book_wf X T c" and ok: "ledger_ok ?L" and der: "derived_ok T c" and int: "internals_ok T c"
    using inv by (simp_all add: venear_inv_def)
  note u = expect_updated [OF wf e a]
  have Lx: "?L ?x = Some (balance a, delegations a)" using u(1) by (simp add: ledger_of_def owns_def)
  note old = ledger_ok_entry [OF ok Lx, simplified]
  let ?g = "\<lambda>d. contribution (balance a) (de_bps d)"
  have s1: "book_wf X T c1 \<and> same_rest c c1 \<and> shifted ?g (\<lambda>_. vb_default) (delegations a) (book T c) (book T c1)"
    by (rule shift_loop [OF wf c1]) (use old bps_ok_entry in \<open>auto simp: entries_ok_def intro!: remove_delegation_body e\<close>)
  have s2: "book_wf X T c2 \<and> same_rest c1 c2 \<and> shifted (\<lambda>_. vb_default) ?g es (book T c1) (book T c2)"
    by (rule shift_loop [OF conjunct1 [OF s1] c2]) (use v(4) bps_ok_entry in \<open>auto intro!: add_delegation_body e\<close>)
  have dom: "dom (book T c1) = dom (book T c)" "dom (book T c2) = dom (book T c)"
    and reg: "de_account_id ` set es \<subseteq> dom (book T c)"
    using s1 s2 by (auto simp: shifted_def)
  have dL: "dom ?L = dom (book T c)" by (auto simp: ledger_of_def dom_def)
  let ?a = "a\<lparr>delegations := es\<rparr>"
  have c3: "book_wf X T (emit x c2)" "book T (emit x c2) = book T c2" for x
    using s2 book_cong [of "emit x c2" c2] by auto
  have aw: "account_wf T ?x ?a" using u(2) by (simp add: account_wf_def)
  note w4 = set_account [OF c3(1) aw _ c4]
  have sr: "same_rest c c4"
    using s1 s2 w4(3) u(3) by (simp add: same_rest_def)
  have b4: "book T c4 = (book T c2)(?x \<mapsto> ?a)" using w4(2) u(3) c3(2) by simp
  have mv: "\<exists>p. book T c2 y = Some (b\<lparr>delegated_balance := p\<rparr>)
      \<and> (\<forall>f \<in> parts. f p + share_to f y (owns a) = f (delegated_balance b) + share_to f y (owns ?a))"
    if y: "book T c y = Some b" for y b
  proof -
    obtain p where "book T c2 y = Some (b\<lparr>delegated_balance := p\<rparr>)"
      and "\<forall>f \<in> parts. f p + (passed f ?g (delegations a) y + passed f (\<lambda>_. vb_default) es y)
        = f (delegated_balance b) + (passed f (\<lambda>_. vb_default) (delegations a) y + passed f ?g es y)"
      by (rule shifted_trans [OF conjunct2 [OF conjunct2 [OF s1]] conjunct2 [OF conjunct2 [OF s2]] y])
    then show ?thesis by (auto simp: owns_def share_to_passed)
  qed
  have new: "entries_ok (dom ?L) ?x (delegations ?a)" using v reg dL by (simp add: entries_ok_def)
  note wo = write_owner [OF inv u(1) dom(2) mv _ new b4, simplified]
  have L4: "ledger_of T c4 = ?L(?x \<mapsto> (balance a, es))" using wo(1) by (simp add: owns_def)
  have fin: "finite (dom ?L)" using ok by (simp add: ledger_ok_def)
  have "pool_sum g (ledger_of T c4) = pool_sum g ?L" for g
    using pool_sum_cong [OF fin Lx, of g "(balance a, es)"] by (simp add: L4)
  then have "derived_ok T c4"
    using der wo(3) same_rest_simps(3) [OF sr] by (simp add: derived_ok_def)
  moreover have "internals_ok T c4"
    using int sr Lx same_rest_simps(5) [OF sr] by (auto simp: internals_ok_def L4 same_rest_def split: if_splits)
  ultimately show "venear_inv X T c4" using w4(1) u(3) wo(2) by (simp add: venear_inv_def)
  show "ledger_of T c (predecessor e) = Some (balance a, delegations a)"
    "ledger_of T c4 = (ledger_of T c)(predecessor e \<mapsto> (balance a, es))" "same_rest c c4" by (rule Lx L4 sr)+
qed

lemma set_delegations_effect:
  assumes inv: "venear_inv X T c" and e: "T = now e" "block_timestamp e < 2 ^ 64"
    and r: "set_delegations X e es c = Inr c'"
  shows "\<exists>b ds. ledger_of T c (predecessor e) = Some (b, ds)
    \<and> ledger_of T c' = (ledger_of T c)(predecessor e \<mapsto> (b, es)) \<and> venear_inv X T c' \<and> same_rest c c'"
proof -
  let ?x = "predecessor e"
  obtain a c1 c2 c4 where core: "or_panic (validate_delegations es ?x (vc_max_delegations (ve_config c))) = Inr (\<Sum>d\<leftarrow>es. de_bps d)"
      "internal_expect_account_updated e c ?x = Inr a"
      "for_each (remove_delegation X e (balance a)) (delegations a) c = Inr c1"
      "for_each (add_delegation X e (balance a)) es c1 = Inr c2"
      "internal_set_account X e ?x (a\<lparr>delegations := es\<rparr>) (emit (Delegation_Change ?x (delegations a) es) c2) = Inr c4"
    and c': "c' = c4 \<or> (\<exists>r. c' = emit r c4)"
    by (rule set_delegations_loops [OF r])
  note k = set_delegations_core [OF inv e core]
  have c4': "ve_tree c' = ve_tree c4" "ve_accounts c' = ve_accounts c4" "same_rest c4 c'" using c' by auto
  show ?thesis
    using k book_cong(4) [OF c4'(1)] venear_inv_cong [OF c4'(1,2)] same_rest_trans [OF k(4) c4'(3)] by auto
qed

section \<open>The global state\<close>

lemma growth_config_ve_global: "internal_get_venear_growth_config c = growth_config (ve_global c)"
  by (simp add: internal_get_venear_growth_config_def growth_config_global_from)

lemma global_updated:
  assumes wf: "book_wf X T c" and e: "T = now e" "block_timestamp e < 2 ^ 64"
    and r: "internal_global_state_updated e c = Inr g"
  shows "total_venear_balance g = total_at T c" "gs_update_timestamp g = T"
    "growth_config g = growth_config (ve_global c)"
proof -
  have w: "growth_config_ok (growth_config (ve_global c))" "valid_ts (gs_update_timestamp (ve_global c))"
    "near_balance (total_venear_balance (ve_global c)) < 2 ^ 128"
    using wf by (simp_all add: book_wf_def growth_config_ve_global)
  have "g = age_global T (ve_global c)"
    using r unfolding internal_global_state_updated_def e(1) now_def
    by (subst (asm) global_state_update_eq_Inr [OF w(1,2) e(2) w(3)]) simp
  then show "total_venear_balance g = total_at T c" "gs_update_timestamp g = T"
    "growth_config g = growth_config (ve_global c)"
    by (simp_all add: age_global_def total_at_def ve_rate_def growth_config_ve_global)
qed

lemma set_global_state:
  assumes wf: "book_wf X T c" and g: "gs_update_timestamp g = T" "growth_config g = growth_config (ve_global c)"
    "near_balance (total_venear_balance g) < 2 ^ 128"
    and c': "c' = internal_set_global_state e g c"
  shows "book_wf X T c'" "book T c' = book T c" "ledger_of T c' = ledger_of T c"
    "total_at T c' = total_venear_balance g" "ve_accounts c' = ve_accounts c" "ve_config c' = ve_config c"
    "ve_paused c' = ve_paused c" "ve_lockup_code c' = ve_lockup_code c"
proof -
  have t: "mt_global_state (ve_tree c') = vglobal_from g"
    by (simp add: c' internal_set_global_state_def mt_set_global_state_def)
  have cfg: "internal_get_venear_growth_config c' = internal_get_venear_growth_config c"
    using g by (simp add: growth_config_ve_global t)
  have acc: "internal_get_account c' = internal_get_account c"
    by (simp add: internal_get_account_def c' internal_set_global_state_def fun_eq_iff)
  show "book_wf X T c'"
    using wf g cfg acc t by (simp add: book_wf_def c' internal_set_global_state_def)
  show b: "book T c' = book T c" using cfg acc by (simp add: book_def ve_rate_def fun_eq_iff)
  then show "ledger_of T c' = ledger_of T c" by (simp add: ledger_of_def fun_eq_iff)
  show "total_at T c' = total_venear_balance g" using g by (simp add: total_at_def t)
qed (simp_all add: c' internal_set_global_state_def)

section \<open>Updates from lockups\<close>

text \<open>The balance a lockup update leaves: unlocking forfeits the accrued growth.\<close>

definition relocked :: "venear_balance \<Rightarrow> nat \<Rightarrow> nat \<Rightarrow> venear_balance" where
  "relocked b deposit locked =
     \<lparr>near_balance = locked + deposit,
      extra_venear_balance = (if locked + deposit < near_balance b then 0 else extra_venear_balance b)\<rparr>"

lemma relocked_balance_eq_Inr:
  "relocked_balance b deposit locked = Inr b' \<longleftrightarrow>
     deposit \<le> near_balance b \<and> locked + deposit < 2 ^ 128 \<and> b' = relocked b deposit locked"
proof -
  have "relocked_balance b deposit locked = Inr b' \<longleftrightarrow> deposit \<le> near_balance b \<and> locked + deposit < 2 ^ 128
    \<and> b' = (if locked < near_balance b - deposit then b\<lparr>extra_venear_balance := 0\<rparr> else b)\<lparr>near_balance := locked + deposit\<rparr>"
    by (auto simp: relocked_balance_def res_simps Let_def)
  then show ?thesis by (cases b) (auto simp: relocked_def less_diff_conv)
qed

lemma pooled_update_total:
  assumes "pooled_sub q b = Inr p" "pooled_add p b' = Inr q'"
  shows "near_balance q' + pooled_near b = near_balance q + pooled_near b'"
    and "extra_venear_balance q' + pooled_extra b = extra_venear_balance q + pooled_extra b'"
    and "near_balance q' < 2 ^ 128"
  using assms by (auto simp: pooled_sub_eq_Inr pooled_add_eq_Inr pooled_near_def pooled_extra_def)

lemma lockup_update_parts:
  assumes "internal_lockup_update X e x i u c = Inr c'"
  obtains a g p total c1 c3 where "ai_lockup_update_nonce i < lu_nonce u"
    and "internal_expect_account_updated e c x = Inr a" and "internal_global_state_updated e c = Inr g"
    and "ai_deposit i \<le> near_balance (balance a)" and "locked_near_balance u + ai_deposit i < 2 ^ 128"
    and "pooled_sub (total_venear_balance g) (balance a) = Inr p"
    and "pooled_add p (relocked (balance a) (ai_deposit i) (locked_near_balance u)) = Inr total"
    and "for_each (replace_delegation X e (balance a) (relocked (balance a) (ai_deposit i) (locked_near_balance u)))
      (delegations a) c = Inr c1"
    and "internal_set_account X e x (a\<lparr>balance := relocked (balance a) (ai_deposit i) (locked_near_balance u)\<rparr>)
      (c1\<lparr>ve_accounts := (ve_accounts c1)(x \<mapsto> Current (i\<lparr>ai_lockup_update_nonce := lu_nonce u\<rparr>))\<rparr>) = Inr c3"
    and "c' = internal_set_global_state e (g\<lparr>total_venear_balance := total\<rparr>) c3"
  using assms
  by (auto simp: internal_lockup_update_def internal_set_account_internal_def Let_def and_then_eq_Inr
      require_eq_Inr relocked_balance_eq_Inr)

lemma lockup_update_effect:
  assumes inv: "venear_inv X T c" and e: "T = now e" "block_timestamp e < 2 ^ 64"
    and i: "internal_get_account_internal c x = Some i"
    and r: "internal_lockup_update X e x i u c = Inr c'"
  shows "\<exists>b ds. ledger_of T c x = Some (b, ds)
    \<and> ledger_of T c' = (ledger_of T c)(x \<mapsto> (relocked b (ai_deposit i) (locked_near_balance u), ds))
    \<and> venear_inv X T c' \<and> ai_lockup_update_nonce i < lu_nonce u
    \<and> ve_accounts c' = (ve_accounts c)(x \<mapsto> Current (i\<lparr>ai_lockup_update_nonce := lu_nonce u\<rparr>))
    \<and> ve_config c' = ve_config c \<and> ve_paused c' = ve_paused c \<and> ve_lockup_code c' = ve_lockup_code c"
proof -
  let ?L = "ledger_of T c"
  obtain a g p total c1 c3 where nonce: "ai_lockup_update_nonce i < lu_nonce u"
    and a: "internal_expect_account_updated e c x = Inr a" and g: "internal_global_state_updated e c = Inr g"
    and lt: "locked_near_balance u + ai_deposit i < 2 ^ 128"
    and p: "pooled_sub (total_venear_balance g) (balance a) = Inr p"
    and total: "pooled_add p (relocked (balance a) (ai_deposit i) (locked_near_balance u)) = Inr total"
    and c1: "for_each (replace_delegation X e (balance a) (relocked (balance a) (ai_deposit i) (locked_near_balance u)))
      (delegations a) c = Inr c1"
    and c3: "internal_set_account X e x (a\<lparr>balance := relocked (balance a) (ai_deposit i) (locked_near_balance u)\<rparr>)
      (c1\<lparr>ve_accounts := (ve_accounts c1)(x \<mapsto> Current (i\<lparr>ai_lockup_update_nonce := lu_nonce u\<rparr>))\<rparr>) = Inr c3"
    and c': "c' = internal_set_global_state e (g\<lparr>total_venear_balance := total\<rparr>) c3"
    by (rule lockup_update_parts [OF r])
  let ?b = "relocked (balance a) (ai_deposit i) (locked_near_balance u)"
  let ?a = "a\<lparr>balance := ?b\<rparr>"
  let ?c2 = "c1\<lparr>ve_accounts := (ve_accounts c1)(x \<mapsto> Current (i\<lparr>ai_lockup_update_nonce := lu_nonce u\<rparr>))\<rparr>"
  have wf: "book_wf X T c" and ok: "ledger_ok ?L" and der: "derived_ok T c" and int: "internals_ok T c"
    using inv by (simp_all add: venear_inv_def)
  note up = expect_updated [OF wf e a] and gl = global_updated [OF wf e g]
  have Lx: "?L x = Some (balance a, delegations a)" using up(1) by (simp add: ledger_of_def owns_def)
  note old = ledger_ok_entry [OF ok Lx, simplified]
  have s1: "book_wf X T c1 \<and> same_rest c c1
      \<and> shifted (\<lambda>d. contribution (balance a) (de_bps d)) (\<lambda>d. contribution ?b (de_bps d)) (delegations a) (book T c) (book T c1)"
    by (rule shift_loop [OF wf c1]) (use old bps_ok_entry in \<open>auto simp: entries_ok_def intro!: replace_delegation_body e\<close>)
  have b2: "book_wf X T ?c2" "book T ?c2 = book T c1" using s1 book_cong [of ?c2 c1] by auto
  have aw: "account_wf T x ?a" using up(2) lt by (simp add: account_wf_def relocked_def)
  note w3 = set_account [OF b2(1) aw _ c3]
  have b3: "book T c3 = (book T c1)(x \<mapsto> ?a)" using w3(2) up(3) b2(2) by simp
  have mv: "\<exists>p. book T c1 y = Some (b\<lparr>delegated_balance := p\<rparr>)
      \<and> (\<forall>f \<in> parts. f p + share_to f y (owns a) = f (delegated_balance b) + share_to f y (owns ?a))"
    if y: "book T c y = Some b" for y b
    by (rule shiftedE [OF conjunct2 [OF conjunct2 [OF s1]] y]) (auto simp: owns_def share_to_passed)
  have dom: "dom (book T c1) = dom (book T c)" using s1 by (simp add: shifted_def)
  note wo = write_owner [OF inv up(1) dom mv _ _ b3, simplified, OF old]
  have L3: "ledger_of T c3 = ?L(x \<mapsto> (?b, delegations a))" using wo(1) by (simp add: owns_def)
  have gs: "mt_global_state (ve_tree c3) = mt_global_state (ve_tree c)"
    using s1 w3(3) up(3) by (simp add: same_rest_def)
  note tot = pooled_update_total [OF p total]
  note sg = set_global_state [OF w3(1) _ _ _ c', simplified]
  have fin: "finite (dom ?L)" using ok by (simp add: ledger_ok_def)
  have sums: "pool_sum f (ledger_of T c3) + f (balance a) = pool_sum f ?L + f ?b" for f
    using pool_sum_cong [OF fin Lx, of f "(?b, delegations a)"] by (simp add: L3)
  have c'ok: "book_wf X T c'" "book T c' = book T c3" "ledger_of T c' = ledger_of T c3" "total_at T c' = total"
    "ve_accounts c' = ve_accounts c3" "ve_config c' = ve_config c3" "ve_paused c' = ve_paused c3"
    "ve_lockup_code c' = ve_lockup_code c3"
    using sg up(3) gl tot(3) gs by auto
  have acc: "ve_accounts c' = (ve_accounts c)(x \<mapsto> Current (i\<lparr>ai_lockup_update_nonce := lu_nonce u\<rparr>))"
    "ve_config c' = ve_config c" "ve_paused c' = ve_paused c" "ve_lockup_code c' = ve_lockup_code c"
    using c'ok w3(3) s1 up(3) by (simp_all add: same_rest_def)
  have "near_balance total = pool_sum pooled_near (ledger_of T c3)"
      "extra_venear_balance total = pool_sum pooled_extra (ledger_of T c3)"
    using tot(1,2) sums [of pooled_near] sums [of pooled_extra] der gl(1) by (simp_all add: derived_ok_def)
  then have "derived_ok T c'" using wo(3) c'ok by (simp add: derived_ok_def)
  moreover have "internals_ok T c'"
    using int Lx unfolding internals_ok_def c'ok(3) L3 internal_get_account_internal_def acc(1)
    by (auto simp: relocked_def)
  ultimately show ?thesis using Lx L3 c'ok wo(2) nonce acc by (simp add: venear_inv_def)
qed

section \<open>Registration\<close>

lemma share_to_nobody [simp]: "share_to f y (b, []) = 0"
  by (simp add: share_to_def)

lemma entries_ok_mono: "entries_ok D y es \<Longrightarrow> D \<subseteq> D' \<Longrightarrow> entries_ok D' y es"
  unfolding entries_ok_def by blast

lemma ledger_ok_new:
  assumes "ledger_ok L"
  shows "ledger_ok (L(x \<mapsto> (b, [])))"
proof -
  have "entries_ok (dom (L(x \<mapsto> (b, [])))) y es" if "(L(x \<mapsto> (b, []))) y = Some (b', es)" for y b' es
  proof (cases "y = x")
    case True
    with that show ?thesis by (simp add: entries_ok_def bps_ok_def)
  next
    case False
    with that assms have "entries_ok (dom L) y es" by (auto simp: ledger_ok_def)
    then show ?thesis by (rule entries_ok_mono) auto
  qed
  with assms show ?thesis by (auto simp: ledger_ok_def)
qed

lemma register_effect:
  assumes inv: "venear_inv X T c" and e: "T = now e" "block_timestamp e < 2 ^ 64"
    and r: "internal_register_account X e x deposit c = Inr c'"
  shows "ledger_of T c x = None
    \<and> ledger_of T c' = (ledger_of T c)(x \<mapsto> (vb_from_near deposit, [])) \<and> venear_inv X T c'
    \<and> ve_accounts c' = (ve_accounts c)(x \<mapsto> Current \<lparr>ai_lockup_version = None, ai_deposit = deposit, ai_lockup_update_nonce = 0\<rparr>)
    \<and> ve_config c' = ve_config c \<and> ve_paused c' = ve_paused c \<and> ve_lockup_code c' = ve_lockup_code c"
proof -
  let ?L = "ledger_of T c" and ?b = "vb_from_near deposit"
  let ?i = "\<lparr>ai_lockup_version = None, ai_deposit = deposit, ai_lockup_update_nonce = 0\<rparr>"
  let ?a = "\<lparr>acc_account_id = x, update_timestamp = T, balance = ?b, delegated_balance = vb_default, delegations = []\<rparr>"
  let ?c1 = "c\<lparr>ve_accounts := (ve_accounts c)(x \<mapsto> Current ?i)\<rparr>"
  obtain g total c2 where new: "ve_accounts c x = None" and g: "internal_global_state_updated e ?c1 = Inr g"
    and total: "pooled_add (total_venear_balance g) ?b = Inr total"
    and c2: "internal_set_account X e x ?a ?c1 = Inr c2"
    and c': "c' = internal_set_global_state e (g\<lparr>total_venear_balance := total\<rparr>) c2"
    using r e(1) by (auto simp: internal_register_account_def internal_set_account_internal_def Let_def
        and_then_eq_Inr require_eq_Inr now_def)
  have wf: "book_wf X T c" and ok: "ledger_ok ?L" and der: "derived_ok T c" and int: "internals_ok T c"
    using inv by (simp_all add: venear_inv_def)
  have Lx: "?L x = None" using new int by (metis domIff internals_ok_def)
  have b1: "book_wf X T ?c1" "book T ?c1 = book T c" "total_at T ?c1 = total_at T c" "ve_tree ?c1 = ve_tree c"
    using wf book_cong [of ?c1 c] by auto
  note gl = global_updated [OF b1(1) e g]
  obtain n where "owned_total ?a = Inr n"
    using c2 by (auto simp: internal_set_account_def Let_def and_then_eq_Inr split: option.splits)
  then have "deposit < 2 ^ 128"
    by (auto simp: owned_total_def pooled_total_def res_simps vb_from_near_def)
  then have aw: "account_wf T x ?a"
    using wf by (simp add: account_wf_def vb_from_near_def vb_default_def book_wf_def)
  note w2 = set_account [OF b1(1) aw _ c2, simplified]
  have L2: "ledger_of T c2 = ?L(x \<mapsto> (?b, []))"
    using w2(2) b1(2) by (auto simp: ledger_of_def fun_eq_iff owns_def)
  have tot: "near_balance total = near_balance (total_at T c) + pooled_near ?b" "near_balance total < 2 ^ 128"
    "extra_venear_balance total = extra_venear_balance (total_at T c) + pooled_extra ?b"
    using total gl(1) b1(3) by (auto simp: pooled_add_eq_Inr pooled_near_def pooled_extra_def)
  have gs: "mt_global_state (ve_tree c2) = mt_global_state (ve_tree c)" using w2(3) by (simp add: same_rest_def)
  note sg = set_global_state [OF w2(1) _ _ _ c', simplified]
  have c'ok: "book_wf X T c'" "book T c' = (book T c)(x \<mapsto> ?a)" "ledger_of T c' = ?L(x \<mapsto> (?b, []))" "total_at T c' = total"
    "ve_accounts c' = ve_accounts c2" "ve_config c' = ve_config c2" "ve_paused c' = ve_paused c2"
    "ve_lockup_code c' = ve_lockup_code c2"
    using sg gl tot(2) gs b1(2) w2(2) L2 by auto
  have acc: "ve_accounts c' = (ve_accounts c)(x \<mapsto> Current ?i)"
    "ve_config c' = ve_config c" "ve_paused c' = ve_paused c" "ve_lockup_code c' = ve_lockup_code c"
    using c'ok w2(3) by (simp_all add: same_rest_def)
  have fin: "finite (dom ?L)" using ok by (simp add: ledger_ok_def)
  have rec: "received f (?L(x \<mapsto> (?b, []))) y = received f ?L y" for f y
    using received_new [OF fin Lx] by simp
  have "f (delegated_balance b) = received f (ledger_of T c') y"
    if "book T c' y = Some b" "f \<in> parts" for y b f
    using that der received_unknown [OF ok, of x f] Lx
    by (auto simp: c'ok rec derived_ok_def domIff split: if_splits)
  then have "derived_ok T c'"
    using der tot pool_sum_new [OF fin Lx] by (simp add: derived_ok_def c'ok(3,4))
  moreover have "ledger_ok (ledger_of T c')"
    unfolding c'ok(3) by (rule ledger_ok_new [OF ok])
  moreover have "internals_ok T c'"
    using int unfolding internals_ok_def c'ok(3) internal_get_account_internal_def acc(1)
    by (auto simp: vb_from_near_def)
  ultimately show ?thesis using Lx c'ok acc by (simp add: venear_inv_def)
qed

section \<open>All calls\<close>

datatype venear_msg =
    Storage_Deposit "account_id option"
  | Set_Delegations "delegation_entry list"
  | On_Lockup_Update nat account_id vlockup_update
  | On_Lockup_Deployed bool on_lockup_deployed_args
  | Deploy_Lockup
  | Prepare_Lockup_Code "byte list"
  | Pause
  | Unpause
  | Set_Lockup_Contract crypto_hash nat
  | Set_Local_Deposit nat
  | Set_Staking_Pool_Whitelist account_id
  | Propose_New_Owner "account_id option"
  | Accept_Ownership
  | Set_Unlock_Duration nat
  | Set_Lockup_Code_Deployers "account_id list"
  | Set_Guardians "account_id list"
  | Set_Max_Delegations nat
  | Upgrade "byte list"

fun venear_exec :: "venear_ext \<Rightarrow> env \<Rightarrow> venear_msg \<Rightarrow> venear \<Rightarrow> venear res" where
  "venear_exec X e (Storage_Deposit a) c = and_then (storage_deposit X e a c) (\<lambda>(c', _). Inr c')"
| "venear_exec X e (Set_Delegations es) c = set_delegations X e es c"
| "venear_exec X e (On_Lockup_Update v x u) c = on_lockup_update X e v x u c"
| "venear_exec X e (On_Lockup_Deployed ok args) c = and_then (on_lockup_deployed X e ok args c) (\<lambda>(c', _). Inr c')"
| "venear_exec X e Deploy_Lockup c = deploy_lockup X e c"
| "venear_exec X e (Prepare_Lockup_Code code) c = prepare_lockup_code X e code c"
| "venear_exec X e Pause c = venear_pause e c"
| "venear_exec X e Unpause c = venear_unpause e c"
| "venear_exec X e (Set_Lockup_Contract h d) c = set_lockup_contract X e h d c"
| "venear_exec X e (Set_Local_Deposit d) c = set_local_deposit e d c"
| "venear_exec X e (Set_Staking_Pool_Whitelist x) c = set_staking_pool_whitelist_account_id e x c"
| "venear_exec X e (Propose_New_Owner x) c = propose_new_owner_account_id e x c"
| "venear_exec X e Accept_Ownership c = accept_ownership e c"
| "venear_exec X e (Set_Unlock_Duration s) c = set_unlock_duration_sec e s c"
| "venear_exec X e (Set_Lockup_Code_Deployers xs) c = set_lockup_code_deployers e xs c"
| "venear_exec X e (Set_Guardians xs) c = venear_set_guardians e xs c"
| "venear_exec X e (Set_Max_Delegations n) c = set_max_delegations e n c"
| "venear_exec X e (Upgrade code) c = venear_upgrade e code c"

fun touches_book :: "venear_msg \<Rightarrow> bool" where
  "touches_book (Storage_Deposit _) = True"
| "touches_book (Set_Delegations _) = True"
| "touches_book (On_Lockup_Update _ _ _) = True"
| "touches_book (On_Lockup_Deployed _ _) = True"
| "touches_book _ = False"

lemmas venear_config_defs = owner_only_def set_local_deposit_def set_staking_pool_whitelist_account_id_def
  propose_new_owner_account_id_def accept_ownership_def set_unlock_duration_sec_def
  set_lockup_code_deployers_def venear_set_guardians_def set_max_delegations_def set_lockup_contract_def
  internal_set_lockup_def venear_pause_def venear_unpause_def venear_upgrade_def
  venear_assert_owner_def venear_assert_guardian_def venear_assert_not_paused_def

lemma exec_other_frame:
  assumes "venear_exec X e m c = Inr c'" "\<not> touches_book m"
  shows "ve_tree c' = ve_tree c \<and> ve_accounts c' = ve_accounts c"
  using assms
  by (cases m) (auto simp: venear_config_defs deploy_lockup_def internal_deploy_lockup_def prepare_lockup_code_def
      internal_get_hash_and_size_def res_simps Let_def)

lemma storage_deposit_cases:
  assumes "storage_deposit X e acc c = Inr (c', b)"
  defines "x \<equiv> (case acc of None \<Rightarrow> predecessor e | Some a \<Rightarrow> a)"
  shows "\<not> ve_paused c \<and> ((ve_accounts c x \<noteq> None \<and> ve_tree c' = ve_tree c \<and> ve_accounts c' = ve_accounts c)
    \<or> (vc_local_deposit (ve_config c) \<le> attached_deposit e
      \<and> (\<exists>c1. internal_register_account X e x (vc_local_deposit (ve_config c)) c = Inr c1
          \<and> ve_tree c' = ve_tree c1 \<and> ve_accounts c' = ve_accounts c1)))"
  using assms
  by (auto simp: storage_deposit_def venear_assert_not_paused_def Let_def res_simps storage_balance_bounds_def
      internal_get_account_internal_def split: if_splits)

lemma on_lockup_update_cases:
  assumes "on_lockup_update X e v x u c = Inr c'"
  obtains i w l c1 where "u = VLockupUpdate_V1 w" "get_lockup_account_id X e x = Inr l" "predecessor e = l"
    "internal_get_account_internal c x = Some i" "ai_lockup_version i = Some v"
    "ve_tree c1 = ve_tree c" "same_rest c c1" "internal_lockup_update X e x i w c1 = Inr c'"
proof (cases u)
  case (VLockupUpdate_V1 w)
  then obtain i where 1: "get_lockup_account_id X e x = Inr (predecessor e)"
    "internal_get_account_internal c x = Some i" "ai_lockup_version i = Some v"
    "internal_lockup_update X e x i w (emit (Lockup_Action ''lockup_update'' x v (Some (lu_nonce w))
       (Some (lu_timestamp w)) (Some (locked_near_balance w))) c) = Inr c'"
    using assms by (auto simp: on_lockup_update_def res_simps)
  show thesis by (rule that [OF VLockupUpdate_V1 1(1) refl 1(2,3) _ _ 1(4)]) simp_all
qed

lemma on_lockup_deployed_frame:
  assumes "on_lockup_deployed X e s args c = Inr (c', l)"
  shows "ve_tree c' = ve_tree c"
    and "ve_accounts c' = ve_accounts c \<or> (\<exists>i. internal_get_account_internal c (ola_account_id args) = Some i
      \<and> ai_lockup_update_nonce i \<le> ola_lockup_update_nonce args
      \<and> ve_accounts c' = (ve_accounts c)(ola_account_id args \<mapsto> Current (i\<lparr>ai_lockup_version := Some (ola_version args),
          ai_lockup_update_nonce := ola_lockup_update_nonce args\<rparr>)))"
  using assms
  by (auto simp: on_lockup_deployed_def internal_set_account_internal_def res_simps Let_def split: if_splits)

lemma venear_exec_keeps:
  assumes inv: "venear_inv X T c" and e: "T = now e" "block_timestamp e < 2 ^ 64"
    and r: "venear_exec X e m c = Inr c'"
  shows "venear_inv X T c'"
proof (cases "touches_book m")
  case False
  from exec_other_frame [OF r False] venear_inv_cong inv show ?thesis by blast
next
  case True
  then consider (deposit) a where "m = Storage_Deposit a" | (delegate) es where "m = Set_Delegations es"
    | (update) v x u where "m = On_Lockup_Update v x u" | (deployed) s args where "m = On_Lockup_Deployed s args"
    by (cases m) auto
  then show ?thesis
  proof cases
    case deposit
    then obtain b where "storage_deposit X e a c = Inr (c', b)" using r by (auto simp: res_simps)
    from storage_deposit_cases [OF this] show ?thesis
      using inv venear_inv_cong register_effect [OF inv e] by metis
  next
    case delegate
    then show ?thesis using r set_delegations_effect [OF inv e] by auto
  next
    case update
    then have "on_lockup_update X e v x u c = Inr c'" using r by simp
    then obtain i w c1 where 1: "internal_get_account_internal c x = Some i"
      "ve_tree c1 = ve_tree c" "same_rest c c1" "internal_lockup_update X e x i w c1 = Inr c'"
      by (rule on_lockup_update_cases) blast
    have "venear_inv X T c1" using 1 inv venear_inv_cong [of c1 c] by (simp add: same_rest_def)
    moreover have "internal_get_account_internal c1 x = Some i" using 1 same_rest_simps(5) by simp
    ultimately show ?thesis using lockup_update_effect [OF _ e] 1(4) by blast
  next
    case deployed
    then obtain l where d: "on_lockup_deployed X e s args c = Inr (c', l)" using r by (auto simp: res_simps)
    note f = on_lockup_deployed_frame [OF d]
    have "internals_ok T c'"
      using inv f(2) book_cong(4) [OF f(1), of T]
      by (fastforce simp: venear_inv_def internals_ok_def internal_get_account_internal_def split: if_splits)
    then show ?thesis
      using inv book_cong [OF f(1)] by (simp add: venear_inv_def derived_ok_def)
  qed
qed

end
