(* ===== verification/Venear_Properties.thy ===== *)
theory Venear_Properties
  imports Venear_Invariant
begin

text \<open>
  The properties of the veNEAR contract as a whole: its invariant over all sequences of calls,
  the refinement of its balance updates by the abstract ledger, conservation of voting power,
  the availability of delegation, the order of lockup updates, the migration of the
  delegated balances, and the control of who may change what.
\<close>

section \<open>Runs\<close>

text \<open>
  Calls are delivered in the order of the block clock: the state of a run is the contract with
  the time of the last block, and a call from an earlier block is not delivered.
\<close>

definition venear_deliver ::
  "venear_ext \<Rightarrow> env \<times> venear_msg \<Rightarrow> nat \<times> venear \<Rightarrow> ((nat \<times> venear) \<times> unit) res" where
  "venear_deliver X = (\<lambda>(e, m) (t, c).
     and_then (require (t \<le> block_timestamp e \<and> block_timestamp e < 2 ^ 64) ''not delivered'') (\<lambda>_.
     and_then (venear_exec X e m c) (\<lambda>c'. Inr ((block_timestamp e, c'), ()))))"

definition venear_run_inv :: "venear_ext \<Rightarrow> nat \<times> venear \<Rightarrow> bool" where
  "venear_run_inv X = (\<lambda>(t, c). t < 2 ^ 64 \<and> venear_inv X (truncate_to_seconds t) c)"

lemma venear_deliver_eq_Inr:
  "venear_deliver X (e, m) (t, c) = Inr (s', u) \<longleftrightarrow>
     t \<le> block_timestamp e \<and> block_timestamp e < 2 ^ 64
     \<and> (\<exists>c'. venear_exec X e m c = Inr c' \<and> s' = (block_timestamp e, c'))"
  by (auto simp: venear_deliver_def res_simps)

lemma venear_inv_at_call:
  assumes "venear_run_inv X (t, c)" "t \<le> block_timestamp e" "block_timestamp e < 2 ^ 64"
  shows "venear_inv X (now e) c"
proof -
  have "venear_inv X (truncate_to_seconds t) c" using assms(1) by (simp add: venear_run_inv_def)
  then show ?thesis
    unfolding now_def
    by (rule venear_inv_later [OF _ truncate_to_seconds_valid [OF assms(3)] truncate_to_seconds_mono [OF assms(2)]])
qed

interpretation vem: message_machine "venear_deliver X" "venear_run_inv X" for X
proof
  fix s s' :: "nat \<times> venear" and m :: "env \<times> venear_msg" and u
  assume inv: "venear_run_inv X s" and d: "venear_deliver X m s = Inr (s', u)"
  obtain t c e k where s: "s = (t, c)" "m = (e, k)" by fastforce
  with d obtain c' where c': "t \<le> block_timestamp e" "block_timestamp e < 2 ^ 64"
    "venear_exec X e k c = Inr c'" "s' = (block_timestamp e, c')"
    by (auto simp: venear_deliver_eq_Inr)
  have "venear_inv X (now e) c'"
    by (rule venear_exec_keeps [OF venear_inv_at_call [OF inv [unfolded s] c'(1,2)] refl c'(2,3)])
  with c' show "venear_run_inv X s'" by (simp add: venear_run_inv_def now_def)
qed

lemma venear_new_inv:
  assumes "venear_new e cfg rate = Inr c" "numerator rate < 2 ^ 128" "block_timestamp e < 2 ^ 64"
  shows "venear_run_inv X (block_timestamp e, c)"
proof -
  have d: "denominator rate = 10 ^ 30" and c: "c = \<lparr>ve_tree = mt_new (block_height e)
            (vglobal_from (global_state_new (block_timestamp e) (FixedRate rate))),
          ve_accounts = Map.empty, ve_config = cfg, ve_paused = False,
          ve_lockup_code = Map.empty, ve_outbox = []\<rparr>"
    using assms(1) by (auto simp: venear_new_def res_simps)
  have g: "ve_global c = global_state_new (block_timestamp e) (FixedRate rate)"
    "mt_global_state (ve_tree c) = vglobal_from (global_state_new (block_timestamp e) (FixedRate rate))"
    by (simp_all add: c mt_new_def)
  have none: "internal_get_account c x = None" for x by (simp add: internal_get_account_def c)
  have L: "ledger_of T c = Map.empty" "book T c = Map.empty" for T
    by (auto simp: ledger_of_def book_def none)
  have ts: "valid_ts (truncate_to_seconds (block_timestamp e))"
    by (rule truncate_to_seconds_valid [OF assms(3)])
  have "growth_config_ok (internal_get_venear_growth_config c)"
    using d assms(2) by (simp add: growth_config_ve_global g global_state_new_def growth_config_ok_def)
  then have "book_wf X (truncate_to_seconds (block_timestamp e)) c"
    using ts by (simp add: book_wf_def none g global_state_new_def vb_default_def)
      (simp add: c merkle_inv_new)
  moreover have "total_at (truncate_to_seconds (block_timestamp e)) c = vb_default"
    by (simp add: total_at_def g global_state_new_def)
  moreover have "ve_accounts c = Map.empty" by (simp add: c)
  ultimately show ?thesis
    using assms(3) by (simp add: venear_run_inv_def venear_inv_def L ledger_ok_def derived_ok_def
        pool_sum_def vb_default_def internals_ok_def)
qed

section \<open>Conservation\<close>

lemma sum_shares:
  assumes "finite D" "de_account_id ` set ds \<subseteq> D"
  shows "(\<Sum>x\<in>D. \<Sum>d\<leftarrow>filter (\<lambda>d. de_account_id d = x) ds. h d) = (\<Sum>d\<leftarrow>ds. (h d :: nat))"
  using assms(2)
proof (induction ds)
  case (Cons d ds)
  have "(\<Sum>x\<in>D. \<Sum>d\<leftarrow>filter (\<lambda>d. de_account_id d = x) (d # ds). h d)
    = (\<Sum>x\<in>D. (if de_account_id d = x then h d else 0) + (\<Sum>d\<leftarrow>filter (\<lambda>d. de_account_id d = x) ds. h d))"
    by (rule sum.cong) auto
  with Cons assms(1) show ?case by (simp add: sum.distrib)
qed simp

lemma sum_received:
  assumes "ledger_ok L"
  shows "(\<Sum>x\<in>dom L. received f L x) = (\<Sum>y\<in>dom L. \<Sum>d\<leftarrow>snd (the (L y)). f (contribution (fst (the (L y))) (de_bps d)))"
proof -
  have fin: "finite (dom L)" using assms by (simp add: ledger_ok_def)
  have "(\<Sum>x\<in>dom L. received f L x) = (\<Sum>y\<in>dom L. \<Sum>x\<in>dom L. share_to f x (the (L y)))"
    unfolding received_def by (rule sum.swap)
  also have "\<dots> = (\<Sum>y\<in>dom L. \<Sum>d\<leftarrow>snd (the (L y)). f (contribution (fst (the (L y))) (de_bps d)))"
  proof (rule sum.cong [OF refl])
    fix y assume "y \<in> dom L"
    then obtain a where y: "L y = Some a" by auto
    have "de_account_id ` set (snd (the (L y))) \<subseteq> dom L"
      using ledger_ok_entry [OF assms y] by (simp add: y entries_ok_def)
    then show "(\<Sum>x\<in>dom L. share_to f x (the (L y)))
      = (\<Sum>d\<leftarrow>snd (the (L y)). f (contribution (fst (the (L y))) (de_bps d)))"
      unfolding share_to_def by (rule sum_shares [OF fin])
  qed
  finally show ?thesis .
qed

lemma pooled_parts: "pooled_near b + pooled_extra b = near_balance b + extra_venear_balance b"
  using truncate_millis_le [of "near_balance b"] unfolding pooled_near_def pooled_extra_def by linarith

lemma ft_balance_of_owned:
  assumes wf: "book_wf X T c" and e: "T = now e" "block_timestamp e < 2 ^ 64"
    and a: "ft_balance_of e c x = Inr v" "x \<in> dom (internal_get_account c)"
  obtains b where "book T c x = Some b" "owned_total b = Inr v"
proof -
  obtain a0 where a0: "internal_get_account c x = Some a0" using a(2) by auto
  then obtain b where b: "account_update (block_timestamp e) (internal_get_venear_growth_config c) a0 = Inr b"
    "owned_total b = Inr v"
    using a(1) by (auto simp: ft_balance_of_def total_balance_def res_simps)
  then have "internal_expect_account_updated e c x = Inr b"
    using a0 by (simp add: internal_expect_account_updated_def)
  from expect_updated(1) [OF wf e this] b(2) show thesis by (rule that)
qed

lemma ft_total_supply_total:
  assumes wf: "book_wf X T c" and e: "T = now e" "block_timestamp e < 2 ^ 64"
    and s: "ft_total_supply e c = Inr s"
  shows "s = near_balance (total_at T c) + extra_venear_balance (total_at T c)"
  using s global_updated(1) [OF wf e] by (auto simp: ft_total_supply_def pooled_total_def res_simps)

lemma supply_conserved:
  assumes inv: "venear_inv X T c" and e: "T = now e" "block_timestamp e < 2 ^ 64"
    and s: "ft_total_supply e c = Inr s"
    and v: "\<And>x. x \<in> dom (internal_get_account c) \<Longrightarrow> ft_balance_of e c x = Inr (v x)"
  shows "s = (\<Sum>x \<in> dom (internal_get_account c). v x)"
proof -
  let ?L = "ledger_of T c" and ?D = "dom (internal_get_account c)"
  have wf: "book_wf X T c" and ok: "ledger_ok ?L" and der: "derived_ok T c"
    using inv by (simp_all add: venear_inv_def)
  have D: "dom ?L = ?D" by (rule dom_ledger_of)
  define out where "out y = (\<Sum>d\<leftarrow>snd (the (?L y)). near_balance (contribution (fst (the (?L y))) (de_bps d)))
      + (\<Sum>d\<leftarrow>snd (the (?L y)). extra_venear_balance (contribution (fst (the (?L y))) (de_bps d)))" for y
  have each: "v x + out x = (received near_balance ?L x + received extra_venear_balance ?L x)
      + (pooled_near (fst (the (?L x))) + pooled_extra (fst (the (?L x))))" if x: "x \<in> ?D" for x
  proof -
    obtain b where b: "book T c x = Some b" "owned_total b = Inr (v x)"
      by (rule ft_balance_of_owned [OF wf e v [OF x] x])
    have Lx: "?L x = Some (balance b, delegations b)" using b by (simp add: ledger_of_def owns_def)
    have "bps_ok (delegations b)" using ledger_ok_entry [OF ok Lx] by (simp add: entries_ok_def)
    from owned_total_value [OF this b(2)] show ?thesis
      using der b(1) unfolding pooled_parts
      by (simp add: derived_ok_def Lx out_def passed_on_def sum_list_addf)
  qed
  have "(\<Sum>x\<in>?D. v x) + (\<Sum>x\<in>?D. out x)
    = (\<Sum>x\<in>?D. (received near_balance ?L x + received extra_venear_balance ?L x)
        + (pooled_near (fst (the (?L x))) + pooled_extra (fst (the (?L x)))))"
    unfolding sum.distrib [symmetric] by (rule sum.cong) (simp_all add: each)
  also have "\<dots> = (\<Sum>x\<in>?D. received near_balance ?L x) + (\<Sum>x\<in>?D. received extra_venear_balance ?L x)
      + (pool_sum pooled_near ?L + pool_sum pooled_extra ?L)"
    by (simp add: sum.distrib pool_sum_def D)
  also have "(\<Sum>x\<in>?D. received near_balance ?L x) + (\<Sum>x\<in>?D. received extra_venear_balance ?L x) = (\<Sum>x\<in>?D. out x)"
    using sum_received [OF ok, of near_balance] sum_received [OF ok, of extra_venear_balance]
    by (simp add: D out_def sum.distrib)
  finally have "(\<Sum>x\<in>?D. v x) = pool_sum pooled_near ?L + pool_sum pooled_extra ?L" by simp
  with ft_total_supply_total [OF wf e s] der show ?thesis by (simp add: derived_ok_def)
qed

section \<open>Delegation always goes through\<close>

text \<open>
  \<open>roomy\<close>: the products and sums that an account takes part in fit their width.
\<close>

definition roomy :: "account \<Rightarrow> bool" where
  "roomy a \<longleftrightarrow> bps_ok (delegations a) \<and> vb_ok (balance a)
     \<and> near_balance (delegated_balance a) + extra_venear_balance (delegated_balance a)
       + near_balance (balance a) + extra_venear_balance (balance a) < 2 ^ 128"

lemma roomy_owned_total: "roomy a \<Longrightarrow> \<exists>n. owned_total a = Inr n"
  unfolding roomy_def using owned_total_ok by blast

lemma roomy_earlier: "roomy (age r T a) \<Longrightarrow> roomy a"
  by (auto simp: roomy_def vb_ok_def)

definition book_roomy :: "nat \<Rightarrow> venear \<Rightarrow> bool" where
  "book_roomy T c \<longleftrightarrow> (\<forall>x a. book T c x = Some a \<longrightarrow> roomy a)"

lemma expect_updated_ok:
  assumes wf: "book_wf X T c" and e: "T = now e" "block_timestamp e < 2 ^ 64"
    and a: "book T c x = Some a" and room: "roomy a"
  shows "internal_expect_account_updated e c x = Inr a"
proof -
  obtain a0 where a0: "internal_get_account c x = Some a0" "a = age (ve_rate c) T a0"
    using a by (auto simp: book_def)
  have w: "account_wf T x a0" "growth_config_ok (internal_get_venear_growth_config c)"
    using wf a0 by (auto simp: book_wf_def)
  have "account_update (block_timestamp e) (internal_get_venear_growth_config c) a0 = Inr a"
  proof (subst account_update_eq_Inr [OF w(2) _ e(2)])
    show "update_timestamp a0 \<le> truncate_to_seconds (block_timestamp e)
      \<and> extra_venear_balance (balance (age (rate_of (internal_get_venear_growth_config c))
          (truncate_to_seconds (block_timestamp e)) a0)) < 2 ^ 128
      \<and> extra_venear_balance (delegated_balance (age (rate_of (internal_get_venear_growth_config c))
          (truncate_to_seconds (block_timestamp e)) a0)) < 2 ^ 128
      \<and> a = age (rate_of (internal_get_venear_growth_config c)) (truncate_to_seconds (block_timestamp e)) a0"
      using a0(2) e(1) w(1) room by (auto simp: now_def ve_rate_def account_wf_def roomy_def vb_ok_def)
  qed (use w(1) in \<open>auto simp: account_wf_def\<close>)
  with a0(1) show ?thesis by (simp add: internal_expect_account_updated_def)
qed

lemma set_account_ok:
  assumes wf: "book_wf X T c" and x: "book T c x = Some a" and room: "roomy a" "roomy a'"
  shows "\<exists>c'. internal_set_account X e x a' c = Inr c'"
proof -
  obtain a0 where a0: "internal_get_account c x = Some a0" "a = age (ve_rate c) T a0"
    using x by (auto simp: book_def)
  obtain m n where "owned_total a0 = Inr m" "owned_total a' = Inr n"
    using roomy_owned_total roomy_earlier room a0(2) by metis
  moreover have "mt_get (ve_tree c) x \<noteq> None" using a0(1) by (auto simp: internal_get_account_def)
  then obtain r t where "mt_set (ext_hasher X) (block_height e) x (vaccount_from a') (ve_tree c) = Inr (r, t)"
    using mt_set_spec [of "ext_hasher X" "ve_tree c" x "block_height e" "vaccount_from a'"] wf
    by (auto simp: book_wf_def)
  ultimately show ?thesis by (simp add: internal_set_account_def a0 Let_def)
qed

text \<open>
  When one pass of a loop over delegates goes through: the delegate has at least what is taken
  from it, and room for what is given to it.
\<close>

definition has_room :: "account \<Rightarrow> nat \<Rightarrow> nat \<Rightarrow> bool" where
  "has_room a n x \<longleftrightarrow> (near_balance (delegated_balance a) + n) + (extra_venear_balance (delegated_balance a) + x)
     + near_balance (balance a) + extra_venear_balance (balance a) < 2 ^ 128"

definition body_total ::
  "venear_ext \<Rightarrow> nat \<Rightarrow> (delegation_entry \<Rightarrow> venear \<Rightarrow> venear res)
    \<Rightarrow> (delegation_entry \<Rightarrow> venear_balance) \<Rightarrow> (delegation_entry \<Rightarrow> venear_balance) \<Rightarrow> delegation_entry \<Rightarrow> bool" where
  "body_total X T f out inn d \<longleftrightarrow> (\<forall>c a. book_wf X T c \<longrightarrow> book T c (de_account_id d) = Some a \<longrightarrow> roomy a
     \<longrightarrow> (\<forall>g \<in> parts. g (out d) \<le> g (delegated_balance a))
     \<longrightarrow> has_room a (near_balance (inn d)) (extra_venear_balance (inn d)) \<longrightarrow> (\<exists>c'. f d c = Inr c'))"

lemma ball_parts: "(\<forall>g \<in> parts. P g) \<longleftrightarrow> P near_balance \<and> P extra_venear_balance"
  by (simp add: parts_def)

lemma roomy_has_room: "roomy a \<Longrightarrow> has_room a 0 0"
  by (simp add: roomy_def has_room_def)

lemma roomy_shift:
  assumes "roomy a" "\<forall>g \<in> parts. g q + g p = g (delegated_balance a) + g i"
    "has_room a (near_balance i) (extra_venear_balance i)"
  shows "roomy (a\<lparr>delegated_balance := q\<rparr>)"
proof -
  have "near_balance q \<le> near_balance (delegated_balance a) + near_balance i"
    "extra_venear_balance q \<le> extra_venear_balance (delegated_balance a) + extra_venear_balance i"
    using assms(2) unfolding ball_parts by linarith+
  with assms(1,3) show ?thesis by (simp add: roomy_def has_room_def)
qed

lemma shift_loop_ok:
  assumes wf: "book_wf X T c" and room: "book_roomy T c"
    and body: "\<And>d. d \<in> set ds \<Longrightarrow> body_ok X T f out inn d" "\<And>d. d \<in> set ds \<Longrightarrow> body_total X T f out inn d"
    and reg: "de_account_id ` set ds \<subseteq> dom (book T c)"
    and le: "\<And>x a g. book T c x = Some a \<Longrightarrow> g \<in> parts \<Longrightarrow> passed g out ds x \<le> g (delegated_balance a)"
    and fits: "\<And>x a. book T c x = Some a \<Longrightarrow> has_room a (passed near_balance inn ds x) (passed extra_venear_balance inn ds x)"
  shows "\<exists>c'. for_each f ds c = Inr c' \<and> book_roomy T c'"
  using assms
proof (induction ds arbitrary: c)
  case Nil
  then show ?case by simp
next
  case (Cons d ds)
  let ?x = "de_account_id d"
  obtain a where a: "book T c ?x = Some a" using Cons.prems(5) by auto
  have ra: "roomy a" using Cons.prems(2) a by (auto simp: book_roomy_def)
  have out: "g (out d) \<le> g (delegated_balance a)" if "g \<in> parts" for g using Cons.prems(6) [OF a that] by simp
  have rm: "has_room a (near_balance (inn d)) (extra_venear_balance (inn d))"
    using Cons.prems(7) [OF a] by (simp add: has_room_def)
  have "body_total X T f out inn d" "body_ok X T f out inn d" using Cons.prems(3,4) by simp_all
  then obtain c1 q where c1: "f d c = Inr c1" "book_wf X T c1"
    "book T c1 = (book T c)(?x \<mapsto> a\<lparr>delegated_balance := q\<rparr>)"
    and q: "\<forall>g \<in> parts. g q + g (out d) = g (delegated_balance a) + g (inn d)"
    using Cons.prems(1) a ra out rm unfolding body_total_def body_ok_def by (metis option.inject)
  have r1: "book_roomy T c1"
    using Cons.prems(2) c1(3) roomy_shift [OF ra q rm] by (auto simp: book_roomy_def split: if_splits)
  have le1: "passed g out ds x \<le> g (delegated_balance b)" if b: "book T c1 x = Some b" and g: "g \<in> parts" for x b g
  proof (cases "x = ?x")
    case True
    then have "b = a\<lparr>delegated_balance := q\<rparr>" using b c1(3) by simp
    moreover have "passed g out ds x + g (out d) \<le> g (delegated_balance a)"
      using Cons.prems(6) [OF a g] True by simp
    moreover have "g q + g (out d) = g (delegated_balance a) + g (inn d)" using q g by blast
    ultimately show ?thesis by simp
  next
    case False
    with Cons.prems(6) [of x b g] b g c1(3) show ?thesis by simp
  qed
  have fits1: "has_room b (passed near_balance inn ds x) (passed extra_venear_balance inn ds x)"
    if b: "book T c1 x = Some b" for x b
  proof (cases "x = ?x")
    case True
    then have "b = a\<lparr>delegated_balance := q\<rparr>" using b c1(3) by simp
    moreover have "near_balance q \<le> near_balance (delegated_balance a) + near_balance (inn d)"
      "extra_venear_balance q \<le> extra_venear_balance (delegated_balance a) + extra_venear_balance (inn d)"
      using q unfolding ball_parts by linarith+
    ultimately show ?thesis using Cons.prems(7) [OF a] True by (simp add: has_room_def)
  next
    case False
    with Cons.prems(7) [of x b] b c1(3) show ?thesis by simp
  qed
  have "\<exists>c'. for_each f ds c1 = Inr c' \<and> book_roomy T c'"
    by (rule Cons.IH [OF c1(2) r1 _ _ _ le1 fits1]) (use Cons.prems(3,4,5) c1(3) in auto)
  then show ?case by (simp add: c1)
qed

lemma remove_delegation_total:
  assumes e: "T = now e" "block_timestamp e < 2 ^ 64" and b: "vb_ok b" and d: "de_bps d \<le> 10000"
  shows "body_total X T (remove_delegation X e b) (\<lambda>d. contribution b (de_bps d)) (\<lambda>_. vb_default) d"
  unfolding body_total_def
proof (intro allI impI)
  fix c a
  assume wf: "book_wf X T c" and a: "book T c (de_account_id d) = Some a" and ra: "roomy a"
    and le: "\<forall>g \<in> parts. g (contribution b (de_bps d)) \<le> g (delegated_balance a)"
  obtain p where p: "pooled_sub_delegation (delegated_balance a) b (de_bps d) = Inr p"
    using le delegation_contribution_ok [OF b d] unfolding ball_parts
    by (simp add: pooled_sub_delegation_def vb_sub_eq_Inr)
  note pp = vb_sub_parts [OF contribution_bps_sub [OF p d]]
  have rp: "roomy (a\<lparr>delegated_balance := p\<rparr>)"
    using ra pp [of near_balance] pp [of extra_venear_balance] by (auto simp: roomy_def)
  show "\<exists>c'. remove_delegation X e b d c = Inr c'"
    using set_account_ok [OF wf a ra rp] p expect_updated_ok [OF wf e a ra] by (simp add: remove_delegation_def)
qed

lemma add_delegation_total:
  assumes e: "T = now e" "block_timestamp e < 2 ^ 64" and b: "vb_ok b" and d: "de_bps d \<le> 10000"
  shows "body_total X T (add_delegation X e b) (\<lambda>_. vb_default) (\<lambda>d. contribution b (de_bps d)) d"
  unfolding body_total_def
proof (intro allI impI)
  fix c a
  assume wf: "book_wf X T c" and a: "book T c (de_account_id d) = Some a" and ra: "roomy a"
    and le: "has_room a (near_balance (contribution b (de_bps d))) (extra_venear_balance (contribution b (de_bps d)))"
  obtain p where p: "pooled_add_delegation (delegated_balance a) b (de_bps d) = Inr p"
    using le delegation_contribution_ok [OF b d] by (simp add: pooled_add_delegation_def vb_add_eq_Inr has_room_def)
  note pp = vb_add_parts [OF contribution_bps [OF p d]]
  have rp: "roomy (a\<lparr>delegated_balance := p\<rparr>)"
    using ra pp [of near_balance] pp [of extra_venear_balance] le by (auto simp: roomy_def has_room_def)
  show "\<exists>c'. add_delegation X e b d c = Inr c'"
    using set_account_ok [OF wf a ra rp] p expect_updated_ok [OF wf e a ra] by (simp add: add_delegation_def)
qed

lemma replace_delegation_total:
  assumes e: "T = now e" "block_timestamp e < 2 ^ 64" and b: "vb_ok b" "vb_ok b'" and d: "de_bps d \<le> 10000"
  shows "body_total X T (replace_delegation X e b b') (\<lambda>d. contribution b (de_bps d)) (\<lambda>d. contribution b' (de_bps d)) d"
  unfolding body_total_def
proof (intro allI impI)
  fix c a
  assume wf: "book_wf X T c" and a: "book T c (de_account_id d) = Some a" and ra: "roomy a"
    and lo: "\<forall>g \<in> parts. g (contribution b (de_bps d)) \<le> g (delegated_balance a)"
    and le: "has_room a (near_balance (contribution b' (de_bps d))) (extra_venear_balance (contribution b' (de_bps d)))"
  obtain p where p: "pooled_sub_delegation (delegated_balance a) b (de_bps d) = Inr p"
    using lo delegation_contribution_ok [OF b(1) d] unfolding ball_parts
    by (simp add: pooled_sub_delegation_def vb_sub_eq_Inr)
  note pp = vb_sub_parts [OF contribution_bps_sub [OF p d]]
  have pl: "near_balance p \<le> near_balance (delegated_balance a)"
    "extra_venear_balance p \<le> extra_venear_balance (delegated_balance a)"
    using pp [of near_balance] pp [of extra_venear_balance] by simp_all
  obtain q where q: "pooled_add_delegation p b' (de_bps d) = Inr q"
    using le pl delegation_contribution_ok [OF b(2) d] by (simp add: pooled_add_delegation_def vb_add_eq_Inr has_room_def)
  note qq = vb_add_parts [OF contribution_bps [OF q d]]
  have rq: "roomy (a\<lparr>delegated_balance := q\<rparr>)"
    using ra pl qq [of near_balance] qq [of extra_venear_balance] le by (auto simp: roomy_def has_room_def)
  show "\<exists>c'. replace_delegation X e b b' d c = Inr c'"
    using set_account_ok [OF wf a ra rq] p q expect_updated_ok [OF wf e a ra] by (simp add: replace_delegation_def)
qed

text \<open>What one account holds is bounded by what all accounts own.\<close>

lemma share_to_le:
  assumes "bps_ok ds" "f \<in> parts"
  shows "share_to f x (b, ds) \<le> f b"
proof -
  have "share_to f x (b, ds) \<le> (\<Sum>d\<leftarrow>ds. f (contribution b (de_bps d)))"
    unfolding share_to_def by (induction ds) auto
  also have "\<dots> \<le> f b"
    using sum_contribution_le [of "map de_bps ds" b] assms by (auto simp: parts_def bps_ok_def comp_def)
  finally show ?thesis .
qed

lemma received_le:
  assumes ok: "ledger_ok L" and x: "L x = Some (b, ds)" and f: "f \<in> parts"
  shows "received f L x + f b \<le> pool_sum f L"
proof -
  have fin: "finite (dom L)" using ok by (simp add: ledger_ok_def)
  have xD: "x \<in> dom L" using x by auto
  have "x \<notin> de_account_id ` set ds" using ledger_ok_entry [OF ok x] by (simp add: entries_ok_def)
  then have self: "share_to f x (the (L x)) = 0" by (simp add: x share_to_passed passed_nobody)
  have "received f L x = (\<Sum>y\<in>dom L - {x}. share_to f x (the (L y)))"
    unfolding received_def by (subst sum.remove [OF fin xD]) (simp add: self)
  also have "\<dots> \<le> (\<Sum>y\<in>dom L - {x}. f (fst (the (L y))))"
  proof (rule sum_mono)
    fix y assume "y \<in> dom L - {x}"
    then obtain a where y: "L y = Some a" by auto
    have "bps_ok (snd a)" using ledger_ok_entry [OF ok y] by (simp add: entries_ok_def)
    then show "share_to f x (the (L y)) \<le> f (fst (the (L y)))"
      using share_to_le [of "snd a" f x "fst a"] f by (simp add: y)
  qed
  finally have "received f L x + f b \<le> (\<Sum>y\<in>dom L - {x}. f (fst (the (L y)))) + f b" by simp
  also have "\<dots> = pool_sum f L"
    unfolding pool_sum_def by (subst sum.remove [OF fin xD]) (simp add: x)
  finally show ?thesis .
qed

text \<open>The amounts of the whole ledger leave room for a factor of ten thousand.\<close>

definition ledger_fits :: "ledger \<Rightarrow> bool" where
  "ledger_fits L \<longleftrightarrow> pool_sum near_balance L * 10000 < 2 ^ 128
     \<and> pool_sum near_balance L + pool_sum extra_venear_balance L < 2 ^ 128"

lemma ledger_fits_account:
  assumes ok: "ledger_ok L" and fits: "ledger_fits L" and x: "L x = Some (b, ds)"
  shows "vb_ok b" and "received near_balance L x + received extra_venear_balance L x
    + near_balance b + extra_venear_balance b < 2 ^ 128"
proof -
  have le: "received near_balance L x + near_balance b \<le> pool_sum near_balance L"
    "received extra_venear_balance L x + extra_venear_balance b \<le> pool_sum extra_venear_balance L"
    using received_le [OF ok x] by auto
  have "near_balance b * 10000 \<le> pool_sum near_balance L * 10000" using le(1) by simp
  also have "\<dots> < 2 ^ 128" using fits by (simp add: ledger_fits_def)
  finally have "near_balance b * 10000 < 2 ^ 128" .
  moreover have "pool_sum near_balance L + pool_sum extra_venear_balance L < 2 ^ 128"
    using fits by (simp add: ledger_fits_def)
  ultimately show "vb_ok b" and "received near_balance L x + received extra_venear_balance L x
    + near_balance b + extra_venear_balance b < 2 ^ 128"
    using le by (simp_all add: vb_ok_def)
qed

lemma book_roomy_fits:
  assumes inv: "venear_inv X T c" and fits: "ledger_fits (ledger_of T c)"
  shows "book_roomy T c"
  unfolding book_roomy_def
proof (intro allI impI)
  fix x a assume a: "book T c x = Some a"
  have ok: "ledger_ok (ledger_of T c)" and der: "derived_ok T c" using inv by (simp_all add: venear_inv_def)
  have Lx: "ledger_of T c x = Some (balance a, delegations a)" using a by (simp add: ledger_of_def owns_def)
  have "bps_ok (delegations a)" using ledger_ok_entry [OF ok Lx] by (simp add: entries_ok_def)
  then show "roomy a"
    using ledger_fits_account [OF ok fits Lx] der a by (simp add: roomy_def derived_ok_def)
qed

text \<open>After the old shares are taken back, there is room for the new ones.\<close>

lemma redelegation_bound:
  assumes der: "derived_ok T c" and fin: "finite (dom (ledger_of T c))" and a: "book T c x = Some a"
    and ok': "ledger_ok ((ledger_of T c)(x \<mapsto> (balance a, es)))"
    and fits': "ledger_fits ((ledger_of T c)(x \<mapsto> (balance a, es)))"
    and sh: "shifted (\<lambda>d. contribution (balance a) (de_bps d)) (\<lambda>_. vb_default) (delegations a) (book T c) V1"
    and y: "V1 y = Some b"
  shows "has_room b (passed near_balance (\<lambda>d. contribution (balance a) (de_bps d)) es y)
    (passed extra_venear_balance (\<lambda>d. contribution (balance a) (de_bps d)) es y)"
proof -
  let ?L = "ledger_of T c" and ?g = "\<lambda>d. contribution (balance a) (de_bps d)"
  define L' where "L' = ?L(x \<mapsto> (balance a, es))"
  have Lx: "?L x = Some (balance a, delegations a)" using a by (simp add: ledger_of_def owns_def)
  obtain b0 where b0: "book T c y = Some b0" using y sh by (metis domD domI shifted_def)
  obtain p where p: "V1 y = Some (b0\<lparr>delegated_balance := p\<rparr>)"
    and eq: "\<And>f. f \<in> parts \<Longrightarrow> f p + passed f ?g (delegations a) y
      = f (delegated_balance b0) + passed f (\<lambda>_. vb_default) (delegations a) y"
    by (rule shiftedE [OF sh b0]) blast
  have bp: "b = b0\<lparr>delegated_balance := p\<rparr>" using p y by simp
  have rec: "f p + passed f ?g es y = received f L' y" if "f \<in> parts" for f
    using eq [OF that] received_cong [OF fin Lx, of f "(balance a, es)" y, folded L'_def] der b0 that
    by (simp add: share_to_passed derived_ok_def)
  obtain ds where "L' y = Some (balance b0, ds)"
    using b0 a by (cases "y = x") (auto simp: ledger_of_def owns_def L'_def)
  from ledger_fits_account(2) [OF ok' [folded L'_def] fits' [folded L'_def] this] rec [of near_balance] rec [of extra_venear_balance]
  show ?thesis by (simp add: bp has_room_def)
qed

text \<open>
  Everything in \<open>set_delegations\<close> up to the storage charge goes through: the call reaches a state \<open>c4\<close> with the new delegations, and only
  the cost of the storage that \<open>c4\<close> uses more than before decides whether it is accepted.
\<close>

lemma set_delegations_charges:
  assumes inv: "venear_inv X T c" and e: "T = now e" "block_timestamp e < 2 ^ 64"
    and fits: "ledger_fits (ledger_of T c)" and live: "\<not> ve_paused c" "0 < attached_deposit e"
    and owner: "predecessor e \<in> dom (ledger_of T c)"
    and val: "validate_delegations es (predecessor e) (vc_max_delegations (ve_config c)) = Inr (Inr s)"
    and reg: "de_account_id ` set es \<subseteq> dom (ledger_of T c)"
  shows "\<exists>c4 b ds. ledger_of T c (predecessor e) = Some (b, ds) \<and> ledger_of T c4 = (ledger_of T c)(predecessor e \<mapsto> (b, es))
    \<and> venear_inv X T c4 \<and> set_delegations X e es c = and_then (storage_refund X (attached_deposit e) (storage_usage X c) (storage_usage X c4))
        (\<lambda>refund. Inr (if 0 < refund then emit (Transfer (predecessor e) refund) c4 else c4))"
proof -
  let ?x = "predecessor e" and ?L = "ledger_of T c"
  have wf: "book_wf X T c" and ok: "ledger_ok ?L" and der: "derived_ok T c"
    using inv by (simp_all add: venear_inv_def)
  have room: "book_roomy T c" by (rule book_roomy_fits [OF inv fits])
  have dL: "dom ?L = dom (book T c)" by (auto simp: ledger_of_def dom_def)
  obtain a where a: "book T c ?x = Some a" using owner dL by auto
  have ra: "roomy a" using room a by (auto simp: book_roomy_def)
  have ex: "internal_expect_account_updated e c ?x = Inr a" by (rule expect_updated_ok [OF wf e a ra])
  have Lx: "?L ?x = Some (balance a, delegations a)" using a by (simp add: ledger_of_def owns_def)
  note old = ledger_ok_entry [OF ok Lx, simplified, unfolded entries_ok_def]
  have b: "vb_ok (balance a)" using ra by (simp add: roomy_def)
  let ?g = "\<lambda>d. contribution (balance a) (de_bps d)"
  have v: "or_panic (validate_delegations es ?x (vc_max_delegations (ve_config c))) = Inr s" by (simp add: val)
  note v = validate_delegations_ok [OF v]
  have fin: "finite (dom ?L)" using ok by (simp add: ledger_ok_def)
  have share: "share_to f y (balance a, delegations a) \<le> received f ?L y" for f y
    unfolding received_def using member_le_sum [OF _ _ fin, of ?x "\<lambda>z. share_to f y (the (?L z))"] owner Lx by auto
  have out: "passed f ?g (delegations a) y \<le> f (delegated_balance b)" if "book T c y = Some b" "f \<in> parts" for y b f
    using share [of f y] der that by (simp add: share_to_passed derived_ok_def)
  have bps: "\<And>d. d \<in> set (delegations a) \<Longrightarrow> de_bps d \<le> 10000" "\<And>d. d \<in> set es \<Longrightarrow> de_bps d \<le> 10000"
    using old v(4) bps_ok_entry by auto
  have "de_account_id ` set (delegations a) \<subseteq> dom (book T c)" using old dL by simp
  from shift_loop_ok [OF wf room remove_delegation_body [OF e bps(1)] remove_delegation_total [OF e b bps(1)] this out]
  obtain c1 where c1: "for_each (remove_delegation X e (balance a)) (delegations a) c = Inr c1" "book_roomy T c1"
    using room roomy_has_room by (auto simp: book_roomy_def)
  have s1: "book_wf X T c1 \<and> same_rest c c1 \<and> shifted ?g (\<lambda>_. vb_default) (delegations a) (book T c) (book T c1)"
    by (rule shift_loop [OF wf c1(1)]) (rule remove_delegation_body [OF e bps(1)])
  have d1: "dom (book T c1) = dom (book T c)" using s1 by (simp add: shifted_def)
  let ?L' = "?L(?x \<mapsto> (balance a, es))"
  have ok': "ledger_ok ?L'"
    using v reg owner by (intro ledger_ok_write [OF ok]) (auto simp: entries_ok_def)
  have fits': "ledger_fits ?L'"
    using fits pool_sum_cong [OF fin Lx, of _ "(balance a, es)"] by (simp add: ledger_fits_def)
  note bound = redelegation_bound [OF der fin a ok' fits' conjunct2 [OF conjunct2 [OF s1]]]
  have "de_account_id ` set es \<subseteq> dom (book T c1)" using reg dL d1 by simp
  from shift_loop_ok [OF conjunct1 [OF s1] c1(2) add_delegation_body [OF e bps(2)] add_delegation_total [OF e b bps(2)]
      this _ bound]
  obtain c2 where c2: "for_each (add_delegation X e (balance a)) es c1 = Inr c2" "book_roomy T c2" by auto
  have s2: "book_wf X T c2 \<and> same_rest c1 c2 \<and> shifted (\<lambda>_. vb_default) ?g es (book T c1) (book T c2)"
    by (rule shift_loop [OF conjunct1 [OF s1] c2(1)]) (rule add_delegation_body [OF e bps(2)])
  let ?c3 = "emit (Delegation_Change ?x (delegations a) es) c2"
  have "?x \<in> dom (book T c2)" using owner dL d1 s2 by (auto simp: shifted_def)
  then obtain a2 where a2: "book T ?c3 ?x = Some a2" "roomy a2"
    using c2(2) book_cong(3) [of ?c3 c2] by (auto simp: book_roomy_def)
  have r3: "roomy (a\<lparr>delegations := es\<rparr>)" using ra v(4) by (simp add: roomy_def)
  have "book_wf X T ?c3" using s2 book_cong(6) [of ?c3 c2] by simp
  then obtain c4 where c4: "internal_set_account X e ?x (a\<lparr>delegations := es\<rparr>) ?c3 = Inr c4"
    using set_account_ok [OF _ a2(1,2) r3] by blast
  have eq: "set_delegations X e es c = and_then (storage_refund X (attached_deposit e) (storage_usage X c) (storage_usage X c4))
        (\<lambda>refund. Inr (if 0 < refund then emit (Transfer ?x refund) c4 else c4))"
    using live ex c1 c2 c4 by (simp add: set_delegations_def venear_assert_not_paused_def val Let_def)
  have "or_panic (validate_delegations es ?x (vc_max_delegations (ve_config c))) = Inr (\<Sum>d\<leftarrow>es. de_bps d)" using val v(6) by simp
  note k = set_delegations_core [OF inv e this ex c1(1) c2(1) c4]
  show ?thesis using k(1-3) eq by blast
qed

text \<open>The storage charge: accepted if the deposit covers it, and then the rest is returned.\<close>

lemma storage_refund_value:
  assumes "attached < 2 ^ 128"
  shows "storage_refund X attached u v = (if storage_byte_cost X * (v - u) \<le> attached
    then Inr (attached - storage_byte_cost X * (v - u))
    else Inl (Msg (if storage_byte_cost X * (v - u) < 2 ^ 128 then ''Insufficient deposit for storage. Required: ''
      else ''Storage cost overflow'')))"
  using assms by (auto simp: storage_refund_def expect_def require_def sub_u_def)

lemma set_delegations_available:
  assumes "venear_inv X T c" "T = now e" "block_timestamp e < 2 ^ 64" "ledger_fits (ledger_of T c)" "\<not> ve_paused c" "0 < attached_deposit e"
    "predecessor e \<in> dom (ledger_of T c)" "validate_delegations es (predecessor e) (vc_max_delegations (ve_config c)) = Inr (Inr s)"
    "de_account_id ` set es \<subseteq> dom (ledger_of T c)" "storage_usage X = (\<lambda>_. 0)"
  shows "\<exists>c'. set_delegations X e es c = Inr c'"
  using set_delegations_charges [OF assms(1-9)] assms(10) by (auto simp: storage_refund_def)

lemma ft_balance_of_ok:
  assumes inv: "venear_inv X T c" and e: "T = now e" "block_timestamp e < 2 ^ 64"
    and fits: "ledger_fits (ledger_of T c)" and x: "x \<in> dom (internal_get_account c)"
  shows "\<exists>v. ft_balance_of e c x = Inr v"
proof -
  obtain a0 where a0: "internal_get_account c x = Some a0" using x by auto
  obtain a where a: "book T c x = Some a" using a0 by (simp add: book_def)
  have ra: "roomy a" using book_roomy_fits [OF inv fits] a by (auto simp: book_roomy_def)
  have wf: "book_wf X T c" using inv by (simp add: venear_inv_def)
  from expect_updated_ok [OF wf e a ra] roomy_owned_total [OF ra] a0 show ?thesis
    by (auto simp: ft_balance_of_def total_balance_def internal_expect_account_updated_def)
qed

lemma supply_bound:
  assumes "venear_inv X T c"
  shows "near_balance (total_at T c) + extra_venear_balance (total_at T c)
    = pool_sum near_balance (ledger_of T c) + pool_sum extra_venear_balance (ledger_of T c)"
proof -
  have "near_balance (total_at T c) + extra_venear_balance (total_at T c)
    = pool_sum pooled_near (ledger_of T c) + pool_sum pooled_extra (ledger_of T c)"
    using assms by (simp add: venear_inv_def derived_ok_def)
  also have "\<dots> = pool_sum near_balance (ledger_of T c) + pool_sum extra_venear_balance (ledger_of T c)"
    by (simp add: pool_sum_def sum.distrib [symmetric] pooled_parts)
  finally show ?thesis .
qed

lemma global_updated_ok:
  assumes wf: "book_wf X T c" and e: "T = now e" "block_timestamp e < 2 ^ 64"
    and fits: "extra_venear_balance (total_at T c) < 2 ^ 128"
  shows "\<exists>g. internal_global_state_updated e c = Inr g"
proof -
  have w: "growth_config_ok (growth_config (ve_global c))" "valid_ts (gs_update_timestamp (ve_global c))"
    "near_balance (total_venear_balance (ve_global c)) < 2 ^ 128" "gs_update_timestamp (ve_global c) \<le> T"
    using wf by (simp_all add: book_wf_def growth_config_ve_global)
  have "total_venear_balance (age_global T (ve_global c)) = total_at T c"
    by (simp add: age_global_def total_at_def ve_rate_def growth_config_ve_global)
  then show ?thesis
    unfolding internal_global_state_updated_def using w e fits by (simp add: global_state_update_eq_Inr now_def)
qed

lemma ft_total_supply_ok:
  assumes inv: "venear_inv X T c" and e: "T = now e" "block_timestamp e < 2 ^ 64"
    and fits: "ledger_fits (ledger_of T c)"
  shows "\<exists>s. ft_total_supply e c = Inr s"
proof -
  have wf: "book_wf X T c" using inv by (simp add: venear_inv_def)
  have sum: "near_balance (total_at T c) + extra_venear_balance (total_at T c) < 2 ^ 128"
    using supply_bound [OF inv] fits by (simp add: ledger_fits_def)
  then obtain g where g: "internal_global_state_updated e c = Inr g"
    using global_updated_ok [OF wf e] by fastforce
  from global_updated(1) [OF wf e g] sum g show ?thesis
    by (simp add: ft_total_supply_def pooled_total_def vb_total_def near_add_def)
qed

section \<open>Lockup updates always go through\<close>

definition fits_with :: "ledger \<Rightarrow> venear_balance \<Rightarrow> bool" where
  "fits_with L b \<longleftrightarrow> (pool_sum near_balance L + near_balance b) * 10000 < 2 ^ 128
     \<and> pool_sum near_balance L + pool_sum extra_venear_balance L + near_balance b + extra_venear_balance b < 2 ^ 128"

lemma fits_with_ledger: "fits_with L b \<Longrightarrow> ledger_fits L"
  by (simp add: fits_with_def ledger_fits_def add_mult_distrib)

lemma fits_with_vb_ok: "fits_with L b \<Longrightarrow> vb_ok b"
  by (simp add: fits_with_def vb_ok_def add_mult_distrib)

lemma pool_sum_member:
  assumes "finite (dom L)" "L x = Some a"
  shows "g (fst a) \<le> pool_sum g L"
proof -
  have "x \<in> dom L" using assms(2) by auto
  from member_le_sum [OF this _ assms(1), of "\<lambda>y. g (fst (the (L y)))"] show ?thesis
    by (simp add: pool_sum_def assms(2))
qed

lemma received_member:
  assumes "finite (dom L)" "L x = Some a"
  shows "share_to f y a \<le> received f L y"
proof -
  have "x \<in> dom L" using assms(2) by auto
  from member_le_sum [OF this _ assms(1), of "\<lambda>z. share_to f y (the (L z))"] show ?thesis
    by (simp add: received_def assms(2))
qed

lemma pooled_move_ok:
  assumes "pooled_near b \<le> near_balance q" "pooled_extra b \<le> extra_venear_balance q"
    and "near_balance q + extra_venear_balance q + near_balance b' + extra_venear_balance b' < 2 ^ 128"
  shows "\<exists>p r. pooled_sub q b = Inr p \<and> pooled_add p b' = Inr r"
proof -
  have t: "pooled_near b' + pooled_extra b' = near_balance b' + extra_venear_balance b'" by (rule pooled_parts)
  let ?p = "\<lparr>near_balance = near_balance q - pooled_near b, extra_venear_balance = extra_venear_balance q - pooled_extra b\<rparr>"
  have "pooled_extra b < 2 ^ 128" using assms(2,3) by linarith
  then have p: "pooled_sub q b = Inr ?p"
    using assms(1,2) unfolding pooled_sub_eq_Inr pooled_near_def pooled_extra_def by simp
  have "near_balance ?p + pooled_near b' < 2 ^ 128" "extra_venear_balance ?p + pooled_extra b' < 2 ^ 128"
    using t assms(3) by simp_all
  then have "\<exists>r. pooled_add ?p b' = Inr r"
    unfolding pooled_add_eq_Inr pooled_near_def pooled_extra_def by blast
  with p show ?thesis by blast
qed

lemma lockup_update_available:
  assumes inv: "venear_inv X T c" and e: "T = now e" "block_timestamp e < 2 ^ 64"
    and i: "internal_get_account_internal c x = Some i" "ai_lockup_update_nonce i < lu_nonce u"
    and Lx: "ledger_of T c x = Some (b, ds)"
    and fits: "fits_with (ledger_of T c) (relocked b (ai_deposit i) (locked_near_balance u))"
  shows "\<exists>c'. internal_lockup_update X e x i u c = Inr c'"
proof -
  let ?L = "ledger_of T c" and ?b = "relocked b (ai_deposit i) (locked_near_balance u)"
  have wf: "book_wf X T c" and ok: "ledger_ok ?L" and der: "derived_ok T c" and int: "internals_ok T c"
    using inv by (simp_all add: venear_inv_def)
  have fin: "finite (dom ?L)" using ok by (simp add: ledger_ok_def)
  have lf: "ledger_fits ?L" and b': "vb_ok ?b" by (rule fits_with_ledger [OF fits], rule fits_with_vb_ok [OF fits])
  have room: "book_roomy T c" by (rule book_roomy_fits [OF inv lf])
  obtain a where a: "book T c x = Some a" "b = balance a" "ds = delegations a"
    using Lx by (auto simp: ledger_of_def owns_def)
  have ra: "roomy a" using room a(1) by (auto simp: book_roomy_def)
  have b: "vb_ok b" using ra a by (simp add: roomy_def)
  have bds: "bps_ok ds" using ledger_ok_entry [OF ok Lx] by (simp add: entries_ok_def)
  note bps = bps_ok_entry [OF bds]
  have tot: "near_balance (total_at T c) = pool_sum pooled_near ?L" "extra_venear_balance (total_at T c) = pool_sum pooled_extra ?L"
    using der by (simp_all add: derived_ok_def)
  have sum: "near_balance (total_at T c) + extra_venear_balance (total_at T c) + near_balance ?b + extra_venear_balance ?b < 2 ^ 128"
    using supply_bound [OF inv] fits by (simp add: fits_with_def)
  obtain g where g: "internal_global_state_updated e c = Inr g"
    using global_updated_ok [OF wf e] sum by fastforce
  obtain p r where pr: "pooled_sub (total_venear_balance g) b = Inr p" "pooled_add p ?b = Inr r"
    using pooled_move_ok [OF _ _ sum, of b] pool_sum_member [OF fin Lx] global_updated(1) [OF wf e g]
    by (auto simp: tot)
  have out: "passed f (\<lambda>d. contribution b (de_bps d)) ds y \<le> f (delegated_balance a')"
    if "book T c y = Some a'" "f \<in> parts" for y a' f
    using received_member [OF fin Lx, of f y] der that by (simp add: share_to_passed derived_ok_def)
  have inn: "has_room a' (passed near_balance (\<lambda>d. contribution ?b (de_bps d)) ds y)
      (passed extra_venear_balance (\<lambda>d. contribution ?b (de_bps d)) ds y)" if y: "book T c y = Some a'" for y a'
  proof -
    have Ly: "?L y = Some (balance a', delegations a')" using y by (simp add: ledger_of_def owns_def)
    note rl = received_le [OF ok Ly]
    have "passed f (\<lambda>d. contribution ?b (de_bps d)) ds y \<le> f ?b" if "f \<in> parts" for f
      using share_to_le [OF bds that, of y ?b] by (simp add: share_to_passed)
    from this [of near_balance] this [of extra_venear_balance] rl [of near_balance] rl [of extra_venear_balance]
    show ?thesis using fits der y by (simp add: has_room_def fits_with_def derived_ok_def)
  qed
  have reg: "de_account_id ` set ds \<subseteq> dom (book T c)"
    using ledger_ok_entry [OF ok Lx] by (auto simp: entries_ok_def ledger_of_def dom_def)
  obtain c1 where c1: "for_each (replace_delegation X e b ?b) ds c = Inr c1" "book_roomy T c1"
    using shift_loop_ok [OF wf room replace_delegation_body [OF e bps] replace_delegation_total [OF e b b' bps] reg out inn] by blast
  have s1: "book_wf X T c1 \<and> same_rest c c1 \<and> shifted (\<lambda>d. contribution b (de_bps d)) (\<lambda>d. contribution ?b (de_bps d)) ds (book T c) (book T c1)"
    by (rule shift_loop [OF wf c1(1)]) (rule replace_delegation_body [OF e bps])
  let ?c2 = "c1\<lparr>ve_accounts := (ve_accounts c1)(x \<mapsto> Current (i\<lparr>ai_lockup_update_nonce := lu_nonce u\<rparr>))\<rparr>"
  have w2: "book_wf X T ?c2" "book T ?c2 = book T c1" using s1 book_cong [of ?c2 c1] by auto
  obtain a2 where a2: "book T ?c2 x = Some a2" "roomy a2"
    using s1 a(1) c1(2) w2(2) by (metis book_roomy_def domD domI shifted_def)
  have "roomy (a\<lparr>balance := ?b\<rparr>)"
    using ra b' received_le [OF ok Lx, of near_balance] received_le [OF ok Lx, of extra_venear_balance] fits der a(1)
    by (simp add: roomy_def fits_with_def derived_ok_def)
  then obtain c3 where c3: "internal_set_account X e x (a\<lparr>balance := ?b\<rparr>) ?c2 = Inr c3"
    using set_account_ok [OF w2(1) a2(1,2)] by blast
  have dep: "ai_deposit i \<le> near_balance b" using int i(1) Lx by (auto simp: internals_ok_def)
  have "locked_near_balance u + ai_deposit i < 2 ^ 128"
    using fits by (simp add: fits_with_def relocked_def)
  with dep have "relocked_balance b (ai_deposit i) (locked_near_balance u) = Inr ?b"
    by (simp add: relocked_balance_eq_Inr)
  then show ?thesis
    using i(2) expect_updated_ok [OF wf e a(1) ra] g pr c1(1) c3
    by (simp add: internal_lockup_update_def internal_set_account_internal_def Let_def a(2,3))
qed

lemma on_lockup_update_available:
  assumes inv: "venear_inv X T c" and e: "T = now e" "block_timestamp e < 2 ^ 64" "attached_deposit e = 0"
    and l: "get_lockup_account_id X e x = Inr (predecessor e)"
    and i: "internal_get_account_internal c x = Some i" "ai_lockup_version i = Some v"
      "ai_lockup_update_nonce i < lu_nonce u"
    and Lx: "ledger_of T c x = Some (b, ds)"
    and fits: "fits_with (ledger_of T c) (relocked b (ai_deposit i) (locked_near_balance u))"
  shows "\<exists>c'. on_lockup_update X e v x (VLockupUpdate_V1 u) c = Inr c'"
proof -
  let ?c = "emit (Lockup_Action ''lockup_update'' x v (Some (lu_nonce u)) (Some (lu_timestamp u))
            (Some (locked_near_balance u))) c"
  have t: "ve_tree ?c = ve_tree c" "ve_accounts ?c = ve_accounts c" by simp_all
  have inv': "venear_inv X T ?c" using inv venear_inv_cong [OF t] by simp
  have i': "internal_get_account_internal ?c x = Some i"
    using i(1) by (simp add: internal_get_account_internal_def)
  have "\<exists>c'. internal_lockup_update X e x i u ?c = Inr c'"
    by (rule lockup_update_available [OF inv' e(1,2) i' i(3)])
      (use Lx fits book_cong(4) [OF t(1)] in simp_all)
  then show ?thesis using e(3) l i by (simp add: on_lockup_update_def assert_no_deposit_def)
qed

section \<open>Registration always goes through\<close>

lemma register_available:
  assumes inv: "venear_inv X T c" and e: "T = now e" "block_timestamp e < 2 ^ 64"
    and new: "ve_accounts c x = None" and room: "mt_length (ve_tree c) < 2 ^ 31"
    and fits: "near_balance (total_at T c) + extra_venear_balance (total_at T c) + deposit < 2 ^ 128"
  shows "\<exists>c'. internal_register_account X e x deposit c = Inr c'"
proof -
  let ?i = "\<lparr>ai_lockup_version = None, ai_deposit = deposit, ai_lockup_update_nonce = 0\<rparr>"
  let ?c1 = "c\<lparr>ve_accounts := (ve_accounts c)(x \<mapsto> Current ?i)\<rparr>"
  let ?a = "\<lparr>acc_account_id = x, update_timestamp = T, balance = vb_from_near deposit,
    delegated_balance = vb_default, delegations = []\<rparr>"
  have wf: "book_wf X T c" and int: "internals_ok T c" using inv by (simp_all add: venear_inv_def)
  have Lx: "ledger_of T c x = None" using new int by (metis domIff internals_ok_def)
  then have gx: "internal_get_account c x = None" by (metis dom_ledger_of domIff)
  have c1: "ve_tree ?c1 = ve_tree c" by simp
  obtain g where g: "internal_global_state_updated e ?c1 = Inr g"
    using global_updated_ok [of X T ?c1 e] e fits wf book_cong [OF c1] by fastforce
  have tg: "total_venear_balance g = total_at T c"
    using global_updated(1) [OF _ e g] wf book_cong [OF c1] by simp
  have add: "\<exists>q. pooled_add (total_at T c) (vb_from_near deposit) = Inr q"
  proof -
    have "near_balance (total_at T c) + truncate_near_to_millis deposit < 2 ^ 128"
      "extra_venear_balance (total_at T c) + (0 + (deposit - truncate_near_to_millis deposit)) < 2 ^ 128"
      using fits truncate_millis_le [of deposit] by linarith+
    then show ?thesis unfolding pooled_add_eq_Inr vb_from_near_def venear_balance.simps by blast
  qed
  have own: "owned_total ?a = Inr deposit"
    using fits by (simp add: owned_total_def pooled_total_def vb_total_def near_add_def vb_default_def vb_from_near_def)
  obtain r t where t: "mt_set (ext_hasher X) (block_height e) x (vaccount_from ?a) (ve_tree c) = Inr (r, t)"
    using mt_set_spec [of "ext_hasher X" "ve_tree c" x "block_height e" "vaccount_from ?a"] wf room
    by (auto simp: book_wf_def)
  have "internal_get_account ?c1 x = None" using gx by (simp add: internal_get_account_def)
  then have "\<exists>c2. internal_set_account X e x ?a ?c1 = Inr c2"
    using own t by (simp add: internal_set_account_def Let_def)
  then show ?thesis
    using new g add e(1) tg
    by (auto simp: internal_register_account_def internal_set_account_internal_def Let_def now_def)
qed

section \<open>Lockup nonces\<close>

definition nonce_of :: "venear \<Rightarrow> account_id \<Rightarrow> nat option" where
  "nonce_of c x = map_option ai_lockup_update_nonce (internal_get_account_internal c x)"

lemma nonce_of_upd:
  "ve_accounts c' = (ve_accounts c)(y \<mapsto> Current i) \<Longrightarrow>
     nonce_of c' x = (if x = y then Some (ai_lockup_update_nonce i) else nonce_of c x)"
  by (simp add: nonce_of_def internal_get_account_internal_def)

lemma nonce_of_cong: "ve_accounts c' = ve_accounts c \<Longrightarrow> nonce_of c' x = nonce_of c x"
  by (simp add: nonce_of_def internal_get_account_internal_def)

lemma on_lockup_update_nonce:
  assumes inv: "venear_inv X T c" and e: "T = now e" "block_timestamp e < 2 ^ 64"
    and r: "on_lockup_update X e v x (VLockupUpdate_V1 u) c = Inr c'"
  obtains n where "nonce_of c x = Some n" "n < lu_nonce u" "nonce_of c' x = Some (lu_nonce u)"
    "\<And>y. y \<noteq> x \<Longrightarrow> nonce_of c' y = nonce_of c y"
proof -
  obtain i w c1 where 1: "VLockupUpdate_V1 u = VLockupUpdate_V1 w" "internal_get_account_internal c x = Some i"
    "ve_tree c1 = ve_tree c" "same_rest c c1" "internal_lockup_update X e x i w c1 = Inr c'"
    by (rule on_lockup_update_cases [OF r]) blast
  have inv1: "venear_inv X T c1" using 1 inv venear_inv_cong [of c1 c] by (simp add: same_rest_def)
  have i1: "internal_get_account_internal c1 x = Some i" using 1 same_rest_simps(5) by simp
  obtain "ai_lockup_update_nonce i < lu_nonce w"
    "ve_accounts c' = (ve_accounts c1)(x \<mapsto> Current (i\<lparr>ai_lockup_update_nonce := lu_nonce w\<rparr>))"
    using lockup_update_effect [OF inv1 e i1 1(5)] by blast
  with 1 have "ai_lockup_update_nonce i < lu_nonce u"
    "ve_accounts c' = (ve_accounts c)(x \<mapsto> Current (i\<lparr>ai_lockup_update_nonce := lu_nonce u\<rparr>))"
    by (simp_all add: same_rest_def)
  moreover from nonce_of_upd [OF this(2)] have "nonce_of c' x = Some (lu_nonce u)"
    "\<And>y. y \<noteq> x \<Longrightarrow> nonce_of c' y = nonce_of c y" by simp_all
  moreover have "nonce_of c x = Some (ai_lockup_update_nonce i)" using 1(2) by (simp add: nonce_of_def)
  ultimately show thesis using that by blast
qed

lemma lockup_accepted:
  assumes inv: "venear_inv X T c" and e: "T = now e" "block_timestamp e < 2 ^ 64"
    and r: "on_lockup_update X e v x (VLockupUpdate_V1 u) c = Inr c'"
  shows "\<exists>b ds i. ledger_of T c x = Some (b, ds) \<and> internal_get_account_internal c x = Some i
    \<and> ledger_of T c' = (ledger_of T c)(x \<mapsto> (relocked b (ai_deposit i) (locked_near_balance u), ds))
    \<and> venear_inv X T c'
    \<and> internal_get_account_internal c' x = Some (i\<lparr>ai_lockup_update_nonce := lu_nonce u\<rparr>)"
proof -
  obtain i w c1 where 1: "VLockupUpdate_V1 u = VLockupUpdate_V1 w" "internal_get_account_internal c x = Some i"
    "ve_tree c1 = ve_tree c" "same_rest c c1" "internal_lockup_update X e x i w c1 = Inr c'"
    by (rule on_lockup_update_cases [OF r]) blast
  have inv1: "venear_inv X T c1" using 1 inv venear_inv_cong [of c1 c] by (simp add: same_rest_def)
  have i1: "internal_get_account_internal c1 x = Some i" using 1 same_rest_simps(5) by simp
  from lockup_update_effect [OF inv1 e i1 1(5)] book_cong(4) [OF 1(3)] 1(1,2) show ?thesis
    by (auto simp: internal_get_account_internal_def)
qed

lemma exec_nonce:
  assumes inv: "venear_inv X T c" and e: "T = now e" "block_timestamp e < 2 ^ 64"
    and r: "venear_exec X e m c = Inr c'" and n: "nonce_of c x = Some n"
  shows "\<exists>n' \<ge> n. nonce_of c' x = Some n'"
proof (cases "touches_book m")
  case False
  then have "ve_accounts c' = ve_accounts c" using exec_other_frame [OF r] by simp
  from nonce_of_cong [OF this] n show ?thesis by simp
next
  case True
  then consider (deposit) a where "m = Storage_Deposit a" | (delegate) es where "m = Set_Delegations es"
    | (update) v y w where "m = On_Lockup_Update v y w" | (deployed) s args where "m = On_Lockup_Deployed s args"
    by (cases m) auto
  then show ?thesis
  proof cases
    case deposit
    then obtain b where "storage_deposit X e a c = Inr (c', b)" using r by (auto simp: res_simps)
    from storage_deposit_cases [OF this] consider "ve_accounts c' = ve_accounts c"
      | c1 y d where "internal_register_account X e y d c = Inr c1" "ve_accounts c' = ve_accounts c1" by blast
    then show ?thesis
    proof cases
      case 1
      from nonce_of_cong [OF this] n show ?thesis by simp
    next
      case 2
      from register_effect [OF inv e 2(1)] have "ledger_of T c y = None"
        and a: "ve_accounts c1 = (ve_accounts c)(y \<mapsto> Current \<lparr>ai_lockup_version = None, ai_deposit = d, ai_lockup_update_nonce = 0\<rparr>)"
        by auto
      then have "ve_accounts c y = None" using inv by (metis domIff internals_ok_def venear_inv_def)
      then have "x \<noteq> y" using n by (auto simp: nonce_of_def internal_get_account_internal_def)
      with 2(2) a n show ?thesis by (auto simp: nonce_of_def internal_get_account_internal_def)
    qed
  next
    case delegate
    then have "ve_accounts c' = ve_accounts c"
      using r set_delegations_effect [OF inv e] by (auto simp: same_rest_def)
    from nonce_of_cong [OF this] n show ?thesis by simp
  next
    case update
    obtain u where "w = VLockupUpdate_V1 u" by (cases w)
    then have "on_lockup_update X e v y (VLockupUpdate_V1 u) c = Inr c'" using r update by simp
    then obtain k where "nonce_of c y = Some k" "k < lu_nonce u" "nonce_of c' y = Some (lu_nonce u)"
      "\<And>z. z \<noteq> y \<Longrightarrow> nonce_of c' z = nonce_of c z"
      by (rule on_lockup_update_nonce [OF inv e]) blast
    with n show ?thesis by (cases "x = y") auto
  next
    case deployed
    then obtain l where d: "on_lockup_deployed X e s args c = Inr (c', l)" using r by (auto simp: res_simps)
    from on_lockup_deployed_frame(2) [OF d] n show ?thesis
      by (auto simp: nonce_of_def internal_get_account_internal_def)
  qed
qed

lemma run_nonce:
  assumes "venear_run_inv X (t, c)" "nonce_of c x = Some n" "run (venear_deliver X) ms (t, c) = (t', c')"
  shows "\<exists>n' \<ge> n. nonce_of c' x = Some n'"
  using assms
proof (induction ms arbitrary: t c n)
  case (Cons em ms)
  obtain e m where em: "em = (e, m)" by fastforce
  obtain t1 c1 where s1: "after (venear_deliver X em (t, c)) (t, c) = (t1, c1)" by fastforce
  have inv1: "venear_run_inv X (t1, c1)" using vem.after_keeps [OF Cons.prems(1), of em] s1 by simp
  have "\<exists>n1 \<ge> n. nonce_of c1 x = Some n1"
  proof (cases "venear_deliver X em (t, c)")
    case (Inl p)
    then show ?thesis using s1 Cons.prems(2) by (auto simp: after_def)
  next
    case (Inr r)
    then have "fst r = (t1, c1)" using s1 by (cases r) (simp add: after_def)
    with Inr obtain c' where c': "t \<le> block_timestamp e" "block_timestamp e < 2 ^ 64" "venear_exec X e m c = Inr c'"
      "c1 = c'"
      using s1 by (cases r) (auto simp: em after_def venear_deliver_eq_Inr dest: sym)
    show ?thesis
      using exec_nonce [OF venear_inv_at_call [OF Cons.prems(1) c'(1,2)] refl c'(2,3) Cons.prems(2)] c'(4) by simp
  qed
  then obtain n1 where "n \<le> n1" "nonce_of c1 x = Some n1" by blast
  with Cons.IH [OF inv1 this(2)] Cons.prems(3) s1 show ?case by force
qed simp

section \<open>A sample contract\<close>

text \<open>Two registered accounts, for the examples below.\<close>

definition sample_ext :: venear_ext where
  "sample_ext = \<lparr>ext_hasher = \<lparr>sha256 = (\<lambda>_. 0), to_vec = (\<lambda>_. [])\<rparr>, hex_encode = (\<lambda>_. ''00''),
     valid_account_id = (\<lambda>_. True), storage_usage = (\<lambda>_. 0), storage_byte_cost = 10 ^ 19\<rparr>"

definition sample_venear_config :: venear_config where
  "sample_venear_config = \<lparr>vc_lockup_contract_config = None, vc_unlock_duration_ns = 0,
     vc_staking_pool_whitelist_account_id = ''w'', vc_lockup_code_deployers = [], vc_local_deposit = 10 ^ 23,
     vc_min_lockup_deposit = 10 ^ 24, vc_owner_account_id = ''owner'', vc_guardians = [],
     vc_proposed_new_owner_account_id = None, vc_max_delegations = 8\<rparr>"

definition sample_env :: "account_id \<Rightarrow> nat \<Rightarrow> nat \<Rightarrow> env" where
  "sample_env x d t = \<lparr>block_timestamp = t, block_height = 7, predecessor = x, signer = x,
     current_account = ''v'', attached_deposit = d, account_balance = 0, prepaid_gas = 0, used_gas = 0, epoch_height = 0\<rparr>"

definition sample_new :: venear where
  "sample_new = \<lparr>ve_tree = mt_new 7 (vglobal_from (global_state_new 0 sample_config)),
     ve_accounts = Map.empty, ve_config = sample_venear_config, ve_paused = False,
     ve_lockup_code = Map.empty, ve_outbox = []\<rparr>"

lemma sample_new_eq:
  "venear_new (sample_env ''owner'' 0 0) sample_venear_config (annual_growth_rate_ns sample_config) = Inr sample_new"
  by (simp add: venear_new_def sample_env_def sample_config_def assert_no_deposit_def sample_new_def)

lemma sample_new_inv: "venear_run_inv sample_ext (0, sample_new)"
  using venear_new_inv [OF sample_new_eq] by (simp add: sample_config_def sample_env_def)

lemma now_sample_env [simp]: "now (sample_env x d 0) = 0"
  by (simp add: now_def sample_env_def truncate_to_seconds_def)

lemma tree_length_ledger:
  assumes "book_wf X T c"
  shows "mt_length (ve_tree c) = card (dom (ledger_of T c))"
proof -
  have inv: "merkle_inv (ext_hasher X) (ve_tree c)" using assms by (simp add: book_wf_def)
  have "dom (mt_accounts (ve_tree c)) = dom (ledger_of T c)"
    unfolding dom_ledger_of using mt_accounts_None_iff [OF inv]
    by (simp add: dom_def internal_get_account_def)
  with index_count(2) [OF inv] show ?thesis by simp
qed

lemma sample_register:
  assumes inv: "venear_inv sample_ext 0 c" and x: "ledger_of 0 c x = None"
    and small: "card (dom (ledger_of 0 c)) < 10"
      "pool_sum near_balance (ledger_of 0 c) + pool_sum extra_venear_balance (ledger_of 0 c) \<le> 10 ^ 24"
  shows "\<exists>c'. internal_register_account sample_ext (sample_env y d 0) x (10 ^ 23) c = Inr c'"
proof (rule register_available [OF inv])
  show "ve_accounts c x = None" using inv x by (metis domIff internals_ok_def venear_inv_def)
  have "mt_length (ve_tree c) = card (dom (ledger_of 0 c))"
    by (rule tree_length_ledger [where X = sample_ext]) (use inv in \<open>simp add: venear_inv_def\<close>)
  then show "mt_length (ve_tree c) < 2 ^ 31" using small(1) by simp
  show "near_balance (total_at 0 c) + extra_venear_balance (total_at 0 c) + 10 ^ 23 < 2 ^ 128"
    using supply_bound [OF inv] small(2) by simp
qed (simp_all add: sample_env_def now_def truncate_to_seconds_def)

definition sample_ledger :: ledger where
  "sample_ledger = [''alice'' \<mapsto> (vb_from_near (10 ^ 23), []), ''bob'' \<mapsto> (vb_from_near (10 ^ 23), [])]"

lemma sample_two_accounts:
  "\<exists>c. venear_inv sample_ext 0 c \<and> ledger_of 0 c = sample_ledger \<and> ve_config c = sample_venear_config
     \<and> \<not> ve_paused c \<and> internal_get_account_internal c ''alice''
         = Some \<lparr>ai_lockup_version = None, ai_deposit = 10 ^ 23, ai_lockup_update_nonce = 0\<rparr>"
proof -
  let ?e = "sample_env ''alice'' 0 0"
  have inv0: "venear_inv sample_ext 0 sample_new"
    using sample_new_inv by (simp add: venear_run_inv_def truncate_to_seconds_def)
  have L0: "ledger_of 0 sample_new = Map.empty"
    by (auto simp: ledger_of_def book_def internal_get_account_def sample_new_def)
  have env: "0 = now ?e" "block_timestamp ?e < 2 ^ 64" by (simp_all add: sample_env_def now_def truncate_to_seconds_def)
  obtain c1 where c1: "internal_register_account sample_ext ?e ''alice'' (10 ^ 23) sample_new = Inr c1"
    using sample_register [OF inv0, of "''alice''" "''alice''" 0] unfolding L0 pool_sum_def by auto
  note r1 = register_effect [OF inv0 env c1]
  have L1: "ledger_of 0 c1 = [''alice'' \<mapsto> (vb_from_near (10 ^ 23), [])]" using r1 by (simp add: L0)
  obtain c2 where c2: "internal_register_account sample_ext ?e ''bob'' (10 ^ 23) c1 = Inr c2"
    using sample_register [of c1 "''bob''" "''alice''" 0] r1 unfolding L1 pool_sum_def
    by (auto simp: vb_from_near_def)
  note r2 = register_effect [OF conjunct1 [OF conjunct2 [OF conjunct2 [OF r1]]] env c2]
  have "internal_get_account_internal c2 ''alice''
      = Some \<lparr>ai_lockup_version = None, ai_deposit = 10 ^ 23, ai_lockup_update_nonce = 0\<rparr>"
    using r1 r2 by (simp add: internal_get_account_internal_def)
  moreover have "ve_config c2 = sample_venear_config" "\<not> ve_paused c2"
    using r1 r2 by (simp_all add: sample_new_def)
  ultimately show ?thesis using r2 L1 by (auto simp: sample_ledger_def)
qed

lemma sample_ledger_fits: "ledger_fits sample_ledger"
  by (simp add: ledger_fits_def sample_ledger_def pool_sum_def vb_from_near_def)

definition sample_entries :: "delegation_entry list" where
  "sample_entries = [\<lparr>de_account_id = ''bob'', de_bps = 2500\<rparr>]"

lemma sample_entries_valid: "validate_delegations sample_entries ''alice'' 8 = Inr (Inr 2500)"
  by (simp add: sample_entries_def validate_delegations_def bps_is_zero_def)

definition sample_internal :: account_internal where
  "sample_internal = \<lparr>ai_lockup_version = Some 1, ai_deposit = 10 ^ 23, ai_lockup_update_nonce = 5\<rparr>"

definition sample_update :: "nat \<Rightarrow> nat \<Rightarrow> lockup_update_v1" where
  "sample_update nonce locked = \<lparr>locked_near_balance = locked, lu_timestamp = 0, lu_nonce = nonce\<rparr>"

lemma sample_lockup_account:
  "\<exists>c. venear_inv sample_ext 0 c \<and> ledger_of 0 c = sample_ledger
     \<and> internal_get_account_internal c ''alice'' = Some sample_internal"
proof -
  obtain c where c: "venear_inv sample_ext 0 c" "ledger_of 0 c = sample_ledger"
    "internal_get_account_internal c ''alice'' = Some \<lparr>ai_lockup_version = None, ai_deposit = 10 ^ 23, ai_lockup_update_nonce = 0\<rparr>"
    using sample_two_accounts by blast
  let ?e = "sample_env ''v'' 0 0"
  let ?args = "\<lparr>ola_version = 1, ola_account_id = ''alice'', ola_lockup_update_nonce = 5, ola_lockup_deposit = 0\<rparr>"
  obtain c1 l where d: "on_lockup_deployed sample_ext ?e True ?args c = Inr (c1, l)"
    "internal_get_account_internal c1 ''alice'' = Some sample_internal"
  proof (rule that)
    let ?c1 = "(emit (Lockup_Action ''lockup_deployed'' ''alice'' 1 None None None) c)
      \<lparr>ve_accounts := (ve_accounts c)(''alice'' \<mapsto> Current sample_internal)\<rparr>"
    show "on_lockup_deployed sample_ext ?e True ?args c = Inr (?c1, Some ''00.v'')"
      by (simp add: on_lockup_deployed_def c(3) sample_env_def assert_no_deposit_def assert_private_def
        internal_set_account_internal_def emit_def get_lockup_account_id_def sample_ext_def Let_def sample_internal_def)
    show "internal_get_account_internal ?c1 ''alice'' = Some sample_internal"
      by (simp add: internal_get_account_internal_def)
  qed
  have "venear_exec sample_ext ?e (On_Lockup_Deployed True ?args) c = Inr c1" using d(1) by simp
  from venear_exec_keeps [OF _ refl _ this] c(1) have "venear_inv sample_ext 0 c1"
    by (simp add: sample_env_def now_def truncate_to_seconds_def)
  with d(2) c(2) book_cong(4) [OF on_lockup_deployed_frame(1) [OF d(1)]] show ?thesis by auto
qed

lemma sample_update_accepted:
  assumes inv: "venear_inv sample_ext 0 c"
    and i: "internal_get_account_internal c ''alice'' = Some i" "ai_lockup_version i = Some 1"
      "ai_deposit i = 10 ^ 23" "ai_lockup_update_nonce i < n"
    and L: "ledger_of 0 c = sample_ledger(''alice'' \<mapsto> (b, []))"
    and b: "near_balance b \<le> 10 ^ 25" "extra_venear_balance b = 0" "k \<le> 10 ^ 25"
  shows "\<exists>c'. on_lockup_update sample_ext (sample_env ''00.v'' 0 0) 1 ''alice'' (VLockupUpdate_V1 (sample_update n k)) c = Inr c'"
proof (rule on_lockup_update_available [OF inv _ _ _ _ i(1,2)])
  show "fits_with (ledger_of 0 c) (relocked b (ai_deposit i) (locked_near_balance (sample_update n k)))"
    using b i(3) by (simp add: L fits_with_def relocked_def pool_sum_def sample_ledger_def vb_from_near_def sample_update_def)
qed (use i L in \<open>simp_all add: sample_env_def now_def truncate_to_seconds_def get_lockup_account_id_def sample_ext_def
      Let_def sample_update_def\<close>)

section \<open>Who may change what\<close>

lemma set_account_frame:
  assumes "internal_set_account X e x a c = Inr c'"
  shows "ve_config c' = ve_config c \<and> ve_paused c' = ve_paused c"
proof -
  obtain old t o' n where "c' = (emit_balance_change x o' n c)\<lparr>ve_tree := t\<rparr>"
    using assms by (auto simp: internal_set_account_def res_simps Let_def)
  with emit_balance_change_simps(2) [of c x o' n] show ?thesis by (simp add: same_rest_def)
qed

lemma body_frame:
  "remove_delegation X e b d c = Inr c' \<Longrightarrow> ve_config c' = ve_config c \<and> ve_paused c' = ve_paused c"
  "add_delegation X e b d c = Inr c' \<Longrightarrow> ve_config c' = ve_config c \<and> ve_paused c' = ve_paused c"
  "replace_delegation X e b b' d c = Inr c' \<Longrightarrow> ve_config c' = ve_config c \<and> ve_paused c' = ve_paused c"
  by (auto simp: remove_delegation_def add_delegation_def replace_delegation_def and_then_eq_Inr
      dest!: set_account_frame)

lemma loop_frame:
  assumes "for_each f ds c = Inr c'" "\<And>d c c'. f d c = Inr c' \<Longrightarrow> ve_config c' = ve_config c \<and> ve_paused c' = ve_paused c"
  shows "ve_config c' = ve_config c \<and> ve_paused c' = ve_paused c"
  by (rule for_each_inv [OF assms(1), where P = "\<lambda>s. ve_config s = ve_config c \<and> ve_paused s = ve_paused c"])
    (auto dest: assms(2))

lemma lockup_update_frame:
  assumes "internal_lockup_update X e x i u c = Inr c'"
  shows "ve_config c' = ve_config c \<and> ve_paused c' = ve_paused c"
proof (rule lockup_update_parts [OF assms])
  fix a :: account and g p total c1 c3
  let ?b = "relocked (balance a) (ai_deposit i) (locked_near_balance u)"
  assume loop: "for_each (replace_delegation X e (balance a) ?b) (delegations a) c = Inr c1"
    and s: "internal_set_account X e x (a\<lparr>balance := ?b\<rparr>)
      (c1\<lparr>ve_accounts := (ve_accounts c1)(x \<mapsto> Current (i\<lparr>ai_lockup_update_nonce := lu_nonce u\<rparr>))\<rparr>) = Inr c3"
    and c': "c' = internal_set_global_state e (g\<lparr>total_venear_balance := total\<rparr>) c3"
  show ?thesis
    using loop_frame [OF loop body_frame(3)] set_account_frame [OF s] by (simp add: c' internal_set_global_state_def)
qed

lemma register_frame:
  assumes "internal_register_account X e x d c = Inr c'"
  shows "ve_config c' = ve_config c \<and> ve_paused c' = ve_paused c"
proof -
  obtain i a g c2 where "internal_set_account X e x a (c\<lparr>ve_accounts := i\<rparr>) = Inr c2" "c' = internal_set_global_state e g c2"
    using assms
    by (simp add: internal_register_account_def internal_set_account_internal_def Let_def and_then_eq_Inr) blast
  with set_account_frame [OF this(1)] show ?thesis by (simp add: internal_set_global_state_def)
qed

lemma storage_deposit_frame:
  assumes "storage_deposit X e a c = Inr (c', b)"
  shows "ve_config c' = ve_config c \<and> ve_paused c' = ve_paused c"
  using assms
  by (auto simp: storage_deposit_def venear_assert_not_paused_def Let_def and_then_eq_Inr require_eq_Inr emit_def
      split: if_splits dest: register_frame)

lemma book_messages_frame:
  assumes "venear_exec X e m c = Inr c'" "touches_book m"
  shows "ve_config c' = ve_config c \<and> ve_paused c' = ve_paused c"
proof -
  consider (deposit) a where "m = Storage_Deposit a" | (delegate) es where "m = Set_Delegations es"
    | (update) v y w where "m = On_Lockup_Update v y w" | (deployed) s args where "m = On_Lockup_Deployed s args"
    using assms(2) by (cases m) auto
  then show ?thesis
  proof cases
    case deposit
    then obtain b where "storage_deposit X e a c = Inr (c', b)" using assms(1) by (auto simp: res_simps)
    then show ?thesis by (rule storage_deposit_frame)
  next
    case delegate
    then have "set_delegations X e es c = Inr c'" using assms(1) by simp
    then show ?thesis
    proof (rule set_delegations_loops)
      fix a :: account and c1 c2 c4
      assume loops: "for_each (remove_delegation X e (balance a)) (delegations a) c = Inr c1"
        "for_each (add_delegation X e (balance a)) es c1 = Inr c2"
        and s: "internal_set_account X e (predecessor e) (a\<lparr>delegations := es\<rparr>)
          (emit (Delegation_Change (predecessor e) (delegations a) es) c2) = Inr c4"
        and c': "c' = c4 \<or> (\<exists>r. c' = emit r c4)"
      show ?thesis
        using loop_frame [OF loops(1) body_frame(1)] loop_frame [OF loops(2) body_frame(2)] set_account_frame [OF s] c'
        by (auto simp: emit_def)
    qed
  next
    case update
    then have "on_lockup_update X e v y w c = Inr c'" using assms(1) by simp
    then show ?thesis
      by (rule on_lockup_update_cases) (use lockup_update_frame in \<open>metis same_rest_def\<close>)
  next
    case deployed
    with assms(1) show ?thesis
      by (auto simp: on_lockup_deployed_def internal_set_account_internal_def res_simps Let_def split: if_splits)
  qed
qed

lemma config_messages_authorised:
  assumes "venear_exec X e m c = Inr c'" "\<not> touches_book m"
  shows "(ve_config c' \<noteq> ve_config c \<longrightarrow> attached_deposit e = 1 \<and> (predecessor e = vc_owner_account_id (ve_config c)
        \<or> m = Accept_Ownership \<and> vc_proposed_new_owner_account_id (ve_config c) = Some (predecessor e)))
    \<and> (ve_paused c' \<noteq> ve_paused c \<longrightarrow> (if ve_paused c' then predecessor e \<in> set (vc_guardians (ve_config c))
          \<or> predecessor e = vc_owner_account_id (ve_config c) else predecessor e = vc_owner_account_id (ve_config c)))"
  using assms
  by (cases m) (auto simp: venear_config_defs deploy_lockup_def internal_deploy_lockup_def prepare_lockup_code_def
      internal_get_hash_and_size_def res_simps Let_def emit_def split: if_splits)

section \<open>Properties\<close>

text \<open>
  C1. Over any sequence of calls of any accounts, from the initialisation of the contract on and
  whatever calls fail, the delegated balance stored with every account is exactly the sum of
  the shares that others pass to it, both parts of it, at the current time; and the pooled
  total is exactly the sum over all accounts of whole milliNEAR and of growth with remainders.
\<close>

theorem venear_books_balance:
  assumes "venear_new e cfg rate = Inr c" and "numerator rate < 2 ^ 128" and "block_timestamp e < 2 ^ 64"
    and "run (venear_deliver X) calls (block_timestamp e, c) = (t, c')"
  shows "(\<forall>x a. book (truncate_to_seconds t) c' x = Some a \<longrightarrow>
        near_balance (delegated_balance a) = received near_balance (ledger_of (truncate_to_seconds t) c') x
        \<and> extra_venear_balance (delegated_balance a) = received extra_venear_balance (ledger_of (truncate_to_seconds t) c') x)
    \<and> near_balance (total_at (truncate_to_seconds t) c') = pool_sum pooled_near (ledger_of (truncate_to_seconds t) c')
    \<and> extra_venear_balance (total_at (truncate_to_seconds t) c') = pool_sum pooled_extra (ledger_of (truncate_to_seconds t) c')"
proof -
  have "venear_run_inv X (t, c')"
    using vem.run_keeps [OF venear_new_inv [OF assms(1-3)], of X calls] assms(4) by simp
  then show ?thesis by (simp add: venear_run_inv_def venear_inv_def derived_ok_def)
qed

theorem venear_books_balance_witness:
  "near_balance (total_at 0 sample_new) = pool_sum pooled_near (ledger_of 0 sample_new)"
  using venear_books_balance [OF sample_new_eq, of sample_ext "[]"]
  by (simp add: sample_config_def sample_env_def truncate_to_seconds_def)

text \<open>
  C5. Setting delegations refines one update of the abstract ledger: what the caller owns stays,
  its delegations become the new ones, every other account keeps what it owns and whom
  it delegates to, and the books balance again.
\<close>

theorem set_delegations_refines_ledger:
  assumes "venear_inv X (now e) c" and "block_timestamp e < 2 ^ 64" and "set_delegations X e es c = Inr c'"
  shows "\<exists>b ds. ledger_of (now e) c (predecessor e) = Some (b, ds)
    \<and> ledger_of (now e) c' = (ledger_of (now e) c)(predecessor e \<mapsto> (b, es))
    \<and> venear_inv X (now e) c'"
  using set_delegations_effect [OF assms(1) refl assms(2,3)] by blast

theorem set_delegations_refines_ledger_witness:
  "\<exists>c c'. set_delegations sample_ext (sample_env ''alice'' 1 0) sample_entries c = Inr c'
    \<and> ledger_of 0 c' = sample_ledger(''alice'' \<mapsto> (vb_from_near (10 ^ 23), sample_entries))"
proof -
  obtain c where c: "venear_inv sample_ext 0 c" "ledger_of 0 c = sample_ledger"
    "ve_config c = sample_venear_config" "\<not> ve_paused c"
    using sample_two_accounts by blast
  let ?e = "sample_env ''alice'' 1 0"
  have "\<exists>c'. set_delegations sample_ext ?e sample_entries c = Inr c'"
    by (rule set_delegations_available [OF c(1), of ?e])
      (use c sample_ledger_fits sample_entries_valid in
        \<open>simp_all add: sample_env_def sample_ledger_def now_def truncate_to_seconds_def
          sample_venear_config_def sample_entries_def sample_ext_def\<close>)
  then obtain c' where c': "set_delegations sample_ext ?e sample_entries c = Inr c'" by blast
  have "predecessor ?e = ''alice''" "block_timestamp ?e < 2 ^ 64" by (simp_all add: sample_env_def)
  with set_delegations_refines_ledger [OF _ _ c'] c c' show ?thesis
    by (auto simp: sample_ledger_def)
qed

text \<open>
  C6. Delegating never gets stuck: if a registered account of a contract that is not paused replaces its delegations by a valid list of
  registered delegates, no subtraction of the old shares underflows and no sum overflows, as long as the amounts of
  the whole ledger leave room for a factor of ten thousand; the call gets to a state \<open>c'\<close> with the new delegations and balanced books,
  and the only thing that can refuse it is a deposit below the cost of the storage that \<open>c'\<close> uses more. If the deposit covers it, the
  call is accepted and exactly the rest is returned to the caller.
\<close>

theorem set_delegations_never_stuck:
  assumes "venear_inv X (now e) c" and "block_timestamp e < 2 ^ 64"
    and "ledger_fits (ledger_of (now e) c)" and "\<not> ve_paused c" and "0 < attached_deposit e" and "attached_deposit e < 2 ^ 128"
    and "predecessor e \<in> dom (ledger_of (now e) c)"
    and "validate_delegations es (predecessor e) (vc_max_delegations (ve_config c)) = Inr (Inr s)"
    and "de_account_id ` set es \<subseteq> dom (ledger_of (now e) c)"
  shows "\<exists>c' b ds cost. ledger_of (now e) c (predecessor e) = Some (b, ds)
    \<and> ledger_of (now e) c' = (ledger_of (now e) c)(predecessor e \<mapsto> (b, es)) \<and> venear_inv X (now e) c'
    \<and> cost = storage_byte_cost X * (storage_usage X c' - storage_usage X c)
    \<and> set_delegations X e es c = (if cost < attached_deposit e then Inr (emit (Transfer (predecessor e) (attached_deposit e - cost)) c')
        else if cost = attached_deposit e then Inr c'
        else Inl (Msg (if cost < 2 ^ 128 then ''Insufficient deposit for storage. Required: '' else ''Storage cost overflow'')))"
proof -
  obtain c' b ds where c': "ledger_of (now e) c (predecessor e) = Some (b, ds)"
    "ledger_of (now e) c' = (ledger_of (now e) c)(predecessor e \<mapsto> (b, es))" "venear_inv X (now e) c'"
    "set_delegations X e es c = and_then (storage_refund X (attached_deposit e) (storage_usage X c) (storage_usage X c'))
        (\<lambda>refund. Inr (if 0 < refund then emit (Transfer (predecessor e) refund) c' else c'))"
    using set_delegations_charges [OF assms(1) refl assms(2-5,7-9)] by blast
  then show ?thesis unfolding c'(4) storage_refund_value [OF assms(6)]
    by (intro exI [of _ c'] exI [of _ b] exI [of _ ds] exI conjI) auto
qed

text \<open>For the example, a host that charges 64 bytes for every delegation of the two accounts of the sample.\<close>

definition charging_ext :: venear_ext where
  "charging_ext = sample_ext\<lparr>storage_usage := \<lambda>c. 64 * (\<Sum>x\<leftarrow>[''alice'', ''bob'']. case ledger_of 0 c x of None \<Rightarrow> 0 | Some (_, ds) \<Rightarrow> length ds)\<rparr>"

theorem set_delegations_never_stuck_witness:
  "\<exists>c c' r. ledger_of 0 c = sample_ledger \<and> ledger_of 0 c' = sample_ledger(''alice'' \<mapsto> (vb_from_near (10 ^ 23), sample_entries))
    \<and> 0 < r \<and> r < 10 ^ 21 \<and> set_delegations charging_ext (sample_env ''alice'' (10 ^ 21) 0) sample_entries c = Inr (emit (Transfer ''alice'' r) c')
    \<and> (\<exists>err. set_delegations charging_ext (sample_env ''alice'' 10 0) sample_entries c = Inl err)"
proof -
  obtain c where c: "venear_inv sample_ext 0 c" "ledger_of 0 c = sample_ledger"
    "ve_config c = sample_venear_config" "\<not> ve_paused c"
    using sample_two_accounts by blast
  let ?e = "\<lambda>d. sample_env ''alice'' d 0"
  have inv: "venear_inv charging_ext 0 c" using c(1) by (simp add: charging_ext_def venear_inv_def book_wf_def)
  have env: "now (?e d) = 0" "predecessor (?e d) = ''alice''" "attached_deposit (?e d) = d" "block_timestamp (?e d) = 0" for d
    by (simp_all add: sample_env_def now_def truncate_to_seconds_def)
  have use: "\<exists>c' b ds cost. ledger_of 0 c ''alice'' = Some (b, ds) \<and> ledger_of 0 c' = (ledger_of 0 c)(''alice'' \<mapsto> (b, sample_entries))
    \<and> venear_inv charging_ext 0 c' \<and> cost = storage_byte_cost charging_ext * (storage_usage charging_ext c' - storage_usage charging_ext c)
    \<and> set_delegations charging_ext (?e d) sample_entries c = (if cost < d then Inr (emit (Transfer ''alice'' (d - cost)) c')
        else if cost = d then Inr c'
        else Inl (Msg (if cost < 2 ^ 128 then ''Insufficient deposit for storage. Required: '' else ''Storage cost overflow'')))"
    if "0 < d" "d < 2 ^ 128" for d
    by (rule set_delegations_never_stuck [of charging_ext "?e d" c sample_entries 2500, unfolded env])
      (use inv c sample_ledger_fits sample_entries_valid that in
        \<open>simp_all add: sample_ledger_def sample_venear_config_def sample_entries_def\<close>)
  have L: "ledger_of 0 c ''alice'' = Some (vb_from_near (10 ^ 23), [])" by (simp add: c(2) sample_ledger_def)
  have cost: "storage_byte_cost charging_ext * (storage_usage charging_ext c' - storage_usage charging_ext c) = 64 * 10 ^ 19"
    if "ledger_of 0 c' = sample_ledger(''alice'' \<mapsto> (b, sample_entries))" for c' b
    using that c(2) by (simp add: charging_ext_def sample_ext_def sample_ledger_def sample_entries_def)
  obtain c' where c': "ledger_of 0 c' = sample_ledger(''alice'' \<mapsto> (vb_from_near (10 ^ 23), sample_entries))"
    "set_delegations charging_ext (?e (10 ^ 21)) sample_entries c = Inr (emit (Transfer ''alice'' (10 ^ 21 - 64 * 10 ^ 19)) c')"
    using use [of "10 ^ 21"] cost L c(2) by auto
  moreover have "\<exists>err. set_delegations charging_ext (?e 10) sample_entries c = Inl err" using use [of 10] cost L c(2) by auto
  ultimately show ?thesis using c(2) by (intro exI [of _ c] exI [of _ c'] exI [of _ "10 ^ 21 - 64 * 10 ^ 19"]) simp
qed

text \<open>
  C2. Voting power is conserved: the total supply that the contract reports is the sum of the
  balances it reports for all registered accounts, to the last yocto, however the accounts
  delegate to each other and whenever they were last updated.
\<close>

theorem supply_is_sum_of_balances:
  assumes "venear_inv X (now e) c" and "block_timestamp e < 2 ^ 64" and "ledger_fits (ledger_of (now e) c)"
  shows "\<exists>s v. ft_total_supply e c = Inr s
    \<and> (\<forall>x \<in> dom (internal_get_account c). ft_balance_of e c x = Inr (v x))
    \<and> s = (\<Sum>x \<in> dom (internal_get_account c). v x)"
proof -
  obtain s where s: "ft_total_supply e c = Inr s"
    using ft_total_supply_ok [OF assms(1) refl assms(2,3)] by blast
  obtain v where v: "\<forall>x \<in> dom (internal_get_account c). ft_balance_of e c x = Inr (v x)"
    using ft_balance_of_ok [OF assms(1) refl assms(2,3)] by metis
  show ?thesis using supply_conserved [OF assms(1) refl assms(2) s] s v by blast
qed

theorem supply_is_sum_of_balances_witness:
  "\<exists>c s v. ledger_of 0 c = sample_ledger \<and> ft_total_supply (sample_env ''a'' 0 0) c = Inr s
    \<and> (\<forall>x \<in> dom (internal_get_account c). ft_balance_of (sample_env ''a'' 0 0) c x = Inr (v x))
    \<and> s = (\<Sum>x \<in> dom (internal_get_account c). v x)"
proof -
  obtain c where c: "venear_inv sample_ext 0 c" "ledger_of 0 c = sample_ledger"
    using sample_two_accounts by blast
  then have "venear_inv sample_ext (now (sample_env ''a'' 0 0)) c" "ledger_fits (ledger_of (now (sample_env ''a'' 0 0)) c)"
    using sample_ledger_fits by simp_all
  from supply_is_sum_of_balances [OF this(1) _ this(2)] c(2) show ?thesis
    by (auto simp: sample_env_def)
qed

text \<open>
  C8. Updates of one lockup are applied in order and at most once: if the contract accepts an update
  of an account and later, after any other calls, accepts another update of the same
  account, then the nonce of the later one is greater. A replayed or overtaken update is rejected.
\<close>

theorem lockup_updates_in_order:
  assumes "venear_run_inv X (t, c)" and "t \<le> block_timestamp e" and "block_timestamp e < 2 ^ 64"
    and "on_lockup_update X e v x (VLockupUpdate_V1 u) c = Inr c1"
    and "run (venear_deliver X) calls (block_timestamp e, c1) = (t2, c2)"
    and "t2 \<le> block_timestamp e'" and "block_timestamp e' < 2 ^ 64"
    and "on_lockup_update X e' v' x (VLockupUpdate_V1 u') c2 = Inr c3"
  shows "lu_nonce u < lu_nonce u'"
proof -
  note inv = venear_inv_at_call [OF assms(1-3)]
  have "venear_exec X e (On_Lockup_Update v x (VLockupUpdate_V1 u)) c = Inr c1" using assms(4) by simp
  then have inv1: "venear_run_inv X (block_timestamp e, c1)"
    using venear_exec_keeps [OF inv refl assms(3)] assms(3) unfolding venear_run_inv_def now_def by blast
  have n1: "nonce_of c1 x = Some (lu_nonce u)"
    by (rule on_lockup_update_nonce [OF inv refl assms(3,4)])
  obtain n2 where n2: "lu_nonce u \<le> n2" "nonce_of c2 x = Some n2"
    using run_nonce [OF inv1 n1 assms(5)] by blast
  have "venear_run_inv X (t2, c2)" using vem.run_keeps [OF inv1, of calls] assms(5) by simp
  note inv2 = venear_inv_at_call [OF this assms(6,7)]
  obtain n where "nonce_of c2 x = Some n" "n < lu_nonce u'"
    by (rule on_lockup_update_nonce [OF inv2 refl assms(7,8)])
  with n2 show ?thesis by simp
qed

theorem lockup_updates_in_order_witness:
  "\<exists>c c1 c3. on_lockup_update sample_ext (sample_env ''00.v'' 0 0) 1 ''alice'' (VLockupUpdate_V1 (sample_update 6 (10 ^ 24))) c = Inr c1
    \<and> on_lockup_update sample_ext (sample_env ''00.v'' 0 0) 1 ''alice'' (VLockupUpdate_V1 (sample_update 7 0)) c1 = Inr c3
    \<and> lu_nonce (sample_update 6 (10 ^ 24)) < lu_nonce (sample_update 7 0)"
proof -
  let ?e = "sample_env ''00.v'' 0 0" and ?u = "sample_update 6 (10 ^ 24)" and ?u' = "sample_update 7 0"
  obtain c where c: "venear_inv sample_ext 0 c" "ledger_of 0 c = sample_ledger"
    "internal_get_account_internal c ''alice'' = Some sample_internal"
    using sample_lockup_account by blast
  obtain c1 where c1: "on_lockup_update sample_ext ?e 1 ''alice'' (VLockupUpdate_V1 ?u) c = Inr c1"
    using sample_update_accepted [OF c(1,3), of 6 "vb_from_near (10 ^ 23)" "10 ^ 24"] c(2)
    by (auto simp: sample_internal_def sample_ledger_def vb_from_near_def fun_upd_twist)
  have e: "0 = now ?e" "block_timestamp ?e < 2 ^ 64" by (simp_all add: sample_env_def now_def truncate_to_seconds_def)
  from lockup_accepted [OF c(1) e c1] c(2,3) have L1: "venear_inv sample_ext 0 c1"
    "ledger_of 0 c1 = sample_ledger(''alice'' \<mapsto> (relocked (vb_from_near (10 ^ 23)) (10 ^ 23) (10 ^ 24), []))"
    "internal_get_account_internal c1 ''alice'' = Some (sample_internal\<lparr>ai_lockup_update_nonce := 6\<rparr>)"
    by (auto simp: sample_ledger_def sample_internal_def sample_update_def)
  obtain c3 where c3: "on_lockup_update sample_ext ?e 1 ''alice'' (VLockupUpdate_V1 ?u') c1 = Inr c3"
    using sample_update_accepted [OF L1(1,3), of 7 "relocked (vb_from_near (10 ^ 23)) (10 ^ 23) (10 ^ 24)" 0] L1(2)
    by (auto simp: sample_internal_def relocked_def vb_from_near_def)
  have "lu_nonce ?u < lu_nonce ?u'"
  proof (rule lockup_updates_in_order [of sample_ext 0 c ?e 1 "''alice''" ?u c1 "[]" 0 c1 ?e 1 ?u' c3])
    show "venear_run_inv sample_ext (0, c)" using c(1) by (simp add: venear_run_inv_def truncate_to_seconds_def)
  qed (use c1 c3 in \<open>simp_all add: sample_env_def\<close>)
  with c1 c3 show ?thesis by blast
qed

text \<open>
  C7. An update from a lockup refines one update of the abstract ledger: the owner of the lockup owns
  the reported amount plus its storage deposit; what had grown is kept if the locked
  amount did not decrease and forfeited if it did; all other accounts keep what they own, every
  delegation stays, and the books balance again.
\<close>

theorem lockup_update_refines_ledger:
  assumes "venear_inv X (now e) c" and "block_timestamp e < 2 ^ 64"
    and "on_lockup_update X e v x (VLockupUpdate_V1 u) c = Inr c'"
  shows "\<exists>b ds i. ledger_of (now e) c x = Some (b, ds) \<and> internal_get_account_internal c x = Some i
    \<and> ledger_of (now e) c' = (ledger_of (now e) c)(x \<mapsto>
        (\<lparr>near_balance = locked_near_balance u + ai_deposit i,
          extra_venear_balance = (if locked_near_balance u + ai_deposit i < near_balance b then 0
            else extra_venear_balance b)\<rparr>, ds))
    \<and> venear_inv X (now e) c'"
  using lockup_accepted [OF assms(1) refl assms(2,3)] by (auto simp: relocked_def)

theorem lockup_update_refines_ledger_witness:
  "\<exists>c c'. on_lockup_update sample_ext (sample_env ''00.v'' 0 0) 1 ''alice'' (VLockupUpdate_V1 (sample_update 6 (10 ^ 24))) c = Inr c'
    \<and> ledger_of 0 c' = sample_ledger(''alice'' \<mapsto> (vb_from_near (10 ^ 24 + 10 ^ 23), []))"
proof -
  let ?e = "sample_env ''00.v'' 0 0" and ?u = "sample_update 6 (10 ^ 24)"
  obtain c where c: "venear_inv sample_ext 0 c" "ledger_of 0 c = sample_ledger"
    "internal_get_account_internal c ''alice'' = Some sample_internal"
    using sample_lockup_account by blast
  obtain c1 where c1: "on_lockup_update sample_ext ?e 1 ''alice'' (VLockupUpdate_V1 ?u) c = Inr c1"
    using sample_update_accepted [OF c(1,3), of 6 "vb_from_near (10 ^ 23)" "10 ^ 24"] c(2)
    by (auto simp: sample_internal_def sample_ledger_def vb_from_near_def fun_upd_twist)
  have "venear_inv sample_ext (now ?e) c" "block_timestamp ?e < 2 ^ 64" using c(1) by (simp_all add: sample_env_def now_def truncate_to_seconds_def)
  from lockup_update_refines_ledger [OF this c1] c c1 show ?thesis
    by (auto simp: sample_ledger_def sample_internal_def sample_update_def vb_from_near_def)
qed

text \<open>
  The contract never gets out of step with a lockup: an update with a fresh nonce from the lockup of
  a registered account is always accepted, paused or not, as long as the amounts of the ledger
  leave room for the new balance; no subtraction from the total or from a delegate underflows.
\<close>

theorem lockup_update_never_stuck:
  assumes "venear_inv X (now e) c" and "block_timestamp e < 2 ^ 64" and "attached_deposit e = 0"
    and "get_lockup_account_id X e x = Inr (predecessor e)"
    and "internal_get_account_internal c x = Some i" and "ai_lockup_version i = Some v"
    and "ai_lockup_update_nonce i < lu_nonce u" and "ledger_of (now e) c x = Some (b, ds)"
    and "fits_with (ledger_of (now e) c) (relocked b (ai_deposit i) (locked_near_balance u))"
  shows "\<exists>c'. on_lockup_update X e v x (VLockupUpdate_V1 u) c = Inr c'"
  by (rule on_lockup_update_available [OF assms(1) refl assms(2-9)])

theorem lockup_update_never_stuck_witness:
  "\<exists>c c'. ledger_of 0 c = sample_ledger
    \<and> on_lockup_update sample_ext (sample_env ''00.v'' 0 0) 1 ''alice'' (VLockupUpdate_V1 (sample_update 6 0)) c = Inr c'"
proof -
  let ?e = "sample_env ''00.v'' 0 0" and ?u = "sample_update 6 0"
  obtain c where c: "venear_inv sample_ext 0 c" "ledger_of 0 c = sample_ledger"
    "internal_get_account_internal c ''alice'' = Some sample_internal"
    using sample_lockup_account by blast
  have "\<exists>c'. on_lockup_update sample_ext ?e 1 ''alice'' (VLockupUpdate_V1 ?u) c = Inr c'"
  proof (rule lockup_update_never_stuck [where i = sample_internal and b = "vb_from_near (10 ^ 23)" and ds = "[]"])
    show "fits_with (ledger_of (now ?e) c) (relocked (vb_from_near (10 ^ 23)) (ai_deposit sample_internal) (locked_near_balance ?u))"
      by (simp add: c(2) fits_with_def relocked_def pool_sum_def sample_ledger_def vb_from_near_def sample_update_def sample_internal_def)
  qed (use c in \<open>simp_all add: sample_env_def now_def truncate_to_seconds_def get_lockup_account_id_def sample_ext_def
      Let_def sample_update_def sample_internal_def sample_ledger_def\<close>)
  with c(2) show ?thesis by blast
qed

text \<open>
  Authority: whatever call is accepted, the configuration changes only by the owner, or by the
  account the owner proposed as its successor when it accepts; the contract is paused only
  by a guardian or the owner and unpaused only by the owner; and while it is paused, no account
  can register, delegate or deploy a lockup.
\<close>

theorem venear_authority:
  assumes "venear_exec X e m c = Inr c'"
  shows "(ve_config c' \<noteq> ve_config c \<longrightarrow> attached_deposit e = 1 \<and> (predecessor e = vc_owner_account_id (ve_config c)
        \<or> m = Accept_Ownership \<and> vc_proposed_new_owner_account_id (ve_config c) = Some (predecessor e)))
    \<and> (ve_paused c' \<noteq> ve_paused c \<longrightarrow> (if ve_paused c' then predecessor e \<in> set (vc_guardians (ve_config c))
          \<or> predecessor e = vc_owner_account_id (ve_config c) else predecessor e = vc_owner_account_id (ve_config c)))
    \<and> (ve_paused c \<longrightarrow> m \<noteq> Deploy_Lockup \<and> (\<forall>x. m \<noteq> Storage_Deposit x) \<and> (\<forall>es. m \<noteq> Set_Delegations es)
        \<and> (\<forall>code. m \<noteq> Prepare_Lockup_Code code))"
proof -
  have "ve_paused c \<longrightarrow> m \<noteq> Deploy_Lockup \<and> (\<forall>x. m \<noteq> Storage_Deposit x) \<and> (\<forall>es. m \<noteq> Set_Delegations es)
        \<and> (\<forall>code. m \<noteq> Prepare_Lockup_Code code)"
    using assms by (cases m) (auto simp: deploy_lockup_def storage_deposit_def set_delegations_def prepare_lockup_code_def
        venear_assert_not_paused_def res_simps)
  then show ?thesis
    using book_messages_frame [OF assms] config_messages_authorised [OF assms] by (cases "touches_book m") simp_all
qed

theorem venear_authority_witness:
  "\<exists>c'. venear_exec sample_ext (sample_env ''owner'' 1 0) Pause sample_new = Inr c' \<and> ve_paused c'
    \<and> predecessor (sample_env ''owner'' 1 0) = vc_owner_account_id (ve_config sample_new)"
proof -
  let ?e = "sample_env ''owner'' 1 0"
  obtain c' where c': "venear_exec sample_ext ?e Pause sample_new = Inr c'" "ve_paused c'"
    by (simp add: venear_pause_def assert_one_yocto_def venear_assert_guardian_def sample_env_def sample_new_def sample_venear_config_def)
  with venear_authority [OF c'(1)] show ?thesis
    by (auto simp: sample_new_def sample_venear_config_def)
qed

end
