(* ===== verification/Voting_Proposal.thy ===== *)
theory Voting_Proposal
  imports Accounts Merkle_Tree
begin

text \<open>
  The proposals of the voting contract (\<open>voting-contract/src/proposal.rs\<close>, \<open>legacy.rs\<close>,
  \<open>metadata.rs\<close> and the vocabulary of \<open>common/src/voting.rs\<close>): the data, the tallies, the
  conversion of the stored legacy shapes, the clock-driven part of the life cycle
  (\<open>Proposal::update\<close> for both flows), the outcome of a ballot and the calendar rule for the
  start of a scheduled ballot. Times are nanoseconds (\<open>u64\<close>), amounts yoctoNEAR (\<open>u128\<close>).

  The lemmas show that bringing a proposal up to date never panics on a well-formed proposal,
  is idempotent, moves its status along the life cycle only, and that the start of a scheduled
  ballot is a Monday midnight in the fixed zone UTC+1.
\<close>

section \<open>Vocabulary (\<open>common/src/voting.rs\<close>)\<close>

type_synonym proposal_id = nat

datatype vote_option = For | Against | Abstain

fun vote_option_u8 :: "vote_option \<Rightarrow> nat" where
  "vote_option_u8 For = 0"
| "vote_option_u8 Against = 1"
| "vote_option_u8 Abstain = 2"

datatype majority_type = Simple | Strong

datatype proposal_status =
    Created | Rejected | ApprovalLegacy | Voting | FinishLegacy | Vetoed | Timelock | Expired
  | Succeeded | Defeated | Executable | InProgress | Failed | Slashed | Sandbox | Scheduled | Queued

record queue_state =
  qs_active_proposals :: "proposal_id list"
  qs_pending_queue :: "proposal_id list"

section \<open>Data (\<open>proposal.rs\<close>, \<open>legacy.rs\<close>, \<open>metadata.rs\<close>)\<close>

datatype proposal_action =
    FunctionCall (pa_receiver_id: account_id) (pa_method_name: string) (pa_args: "byte list")
      (pa_deposit: nat) (pa_gas: nat)
  | TransferAction (pa_receiver_id: account_id) (pa_amount: nat)

datatype proposal_flow = Classic | FastTrack

record vote_stats =
  vs_total_venear :: nat
  vs_total_votes :: nat

definition vote_stats_default :: vote_stats where
  "vote_stats_default = \<lparr>vs_total_venear = 0, vs_total_votes = 0\<rparr>"

record snapshot_and_state =
  ss_snapshot :: merkle_tree_snapshot
  ss_timestamp_ns :: nat
  ss_total_venear :: nat
  ss_venear_growth_config :: venear_growth_config

record proposal =
  pr_id :: proposal_id
  pr_creation_time_ns :: nat
  pr_proposer_id :: account_id
  pr_reviewer_id :: "account_id option"
  pr_rejecter_id :: "account_id option"
  pr_approval_time_ns :: "nat option"
  pr_voting_start_time_ns :: "nat option"
  pr_voting_duration_ns :: nat
  pr_expiration_ns :: nat
  pr_snapshot_and_state :: "snapshot_and_state option"
  pr_votes :: "vote_stats list"
  pr_total_votes :: vote_stats
  pr_status :: proposal_status
  pr_quorum_threshold_bps :: bps
  pr_quorum_floor :: nat
  pr_approval_threshold_bps :: bps
  pr_actions :: "proposal_action list option"
  pr_flow :: proposal_flow
  pr_timelock_duration_ns :: nat
  pr_sandbox_start_time_ns :: "nat option"
  pr_bond_amount :: nat
  pr_sandbox_duration_ns :: nat
  pr_sandbox_threshold_bps :: bps

record proposal_v1 =
  v1_id :: proposal_id
  v1_creation_time_ns :: nat
  v1_proposer_id :: account_id
  v1_reviewer_id :: "account_id option"
  v1_voting_start_time_ns :: "nat option"
  v1_voting_duration_ns :: nat
  v1_rejected :: bool
  v1_snapshot_and_state :: "snapshot_and_state option"
  v1_votes :: "vote_stats list"
  v1_total_votes :: vote_stats
  v1_status :: proposal_status

record proposal_v2 =
  v2_id :: proposal_id
  v2_creation_time_ns :: nat
  v2_proposer_id :: account_id
  v2_reviewer_id :: "account_id option"
  v2_rejecter_id :: "account_id option"
  v2_voting_start_time_ns :: "nat option"
  v2_voting_duration_ns :: nat
  v2_timelock_duration_ns :: nat
  v2_expiration_ns :: nat
  v2_snapshot_and_state :: "snapshot_and_state option"
  v2_votes :: "vote_stats list"
  v2_total_votes :: vote_stats
  v2_status :: proposal_status
  v2_quorum_threshold_bps :: nat
  v2_quorum_floor :: nat
  v2_approval_threshold_bps :: nat
  v2_actions :: "proposal_action list option"

datatype vproposal = VProposal_V1 proposal_v1 | VProposal_V2 proposal_v2 | VProposal_Current proposal

definition proposal_from_v1 :: "proposal_v1 \<Rightarrow> proposal" where
  "proposal_from_v1 v =
     \<lparr>pr_id = v1_id v,
      pr_creation_time_ns = v1_creation_time_ns v,
      pr_proposer_id = v1_proposer_id v,
      pr_reviewer_id = v1_reviewer_id v,
      pr_rejecter_id = None,
      pr_approval_time_ns = v1_voting_start_time_ns v,
      pr_voting_start_time_ns = v1_voting_start_time_ns v,
      pr_voting_duration_ns = v1_voting_duration_ns v,
      pr_expiration_ns = 0,
      pr_snapshot_and_state = v1_snapshot_and_state v,
      pr_votes = v1_votes v,
      pr_total_votes = v1_total_votes v,
      pr_status = v1_status v,
      pr_quorum_threshold_bps = bps_ZERO,
      pr_quorum_floor = 0,
      pr_approval_threshold_bps = bps_ZERO,
      pr_actions = None,
      pr_flow = Classic,
      pr_timelock_duration_ns = 0,
      pr_sandbox_start_time_ns = None,
      pr_bond_amount = 0,
      pr_sandbox_duration_ns = 0,
      pr_sandbox_threshold_bps = bps_ZERO\<rparr>"

definition proposal_from_v2 :: "proposal_v2 \<Rightarrow> proposal res" where
  "proposal_from_v2 v =
     and_then (bps_new (v2_quorum_threshold_bps v)) (\<lambda>quorum.
     and_then (bps_new (v2_approval_threshold_bps v)) (\<lambda>approval. Inr
     \<lparr>pr_id = v2_id v,
      pr_creation_time_ns = v2_creation_time_ns v,
      pr_proposer_id = v2_proposer_id v,
      pr_reviewer_id = v2_reviewer_id v,
      pr_rejecter_id = v2_rejecter_id v,
      pr_approval_time_ns = v2_voting_start_time_ns v,
      pr_voting_start_time_ns = v2_voting_start_time_ns v,
      pr_voting_duration_ns = v2_voting_duration_ns v,
      pr_expiration_ns = v2_expiration_ns v,
      pr_snapshot_and_state = v2_snapshot_and_state v,
      pr_votes = v2_votes v,
      pr_total_votes = v2_total_votes v,
      pr_status = v2_status v,
      pr_quorum_threshold_bps = quorum,
      pr_quorum_floor = v2_quorum_floor v,
      pr_approval_threshold_bps = approval,
      pr_actions = v2_actions v,
      pr_flow = Classic,
      pr_timelock_duration_ns = v2_timelock_duration_ns v,
      pr_sandbox_start_time_ns = None,
      pr_bond_amount = 0,
      pr_sandbox_duration_ns = 0,
      pr_sandbox_threshold_bps = bps_ZERO\<rparr>))"

fun proposal_from :: "vproposal \<Rightarrow> proposal res" where
  "proposal_from (VProposal_V1 p) = Inr (proposal_from_v1 p)"
| "proposal_from (VProposal_V2 p) = proposal_from_v2 p"
| "proposal_from (VProposal_Current p) = Inr p"

record proposal_metadata =
  pm_title :: "string option"
  pm_description :: "string option"
  pm_link :: "string option"

record proposal_metadata_v1 =
  pm1_title :: "string option"
  pm1_description :: "string option"
  pm1_link :: "string option"
  pm1_voting_options :: "string list"

datatype vproposal_metadata = VMetadata_V1 proposal_metadata_v1 | VMetadata_Current proposal_metadata

fun metadata_from :: "vproposal_metadata \<Rightarrow> proposal_metadata" where
  "metadata_from (VMetadata_V1 v1) = \<lparr>pm_title = pm1_title v1, pm_description = pm1_description v1, pm_link = pm1_link v1\<rparr>"
| "metadata_from (VMetadata_Current current) = current"

record proposal_info =
  pi_proposal :: proposal
  pi_metadata :: proposal_metadata

section \<open>Operations on one proposal (\<open>proposal.rs\<close>)\<close>

definition add_vote :: "nat \<Rightarrow> vote_stats \<Rightarrow> vote_stats res" where
  "add_vote venear s =
     and_then (add_u 32 (vs_total_votes s) 1) (\<lambda>n.
     and_then (near_add (vs_total_venear s) venear) (\<lambda>v.
     Inr \<lparr>vs_total_venear = v, vs_total_votes = n\<rparr>))"

definition remove_vote :: "nat \<Rightarrow> vote_stats \<Rightarrow> vote_stats res" where
  "remove_vote venear s =
     and_then (sub_u (vs_total_votes s) 1) (\<lambda>n.
     and_then (near_sub (vs_total_venear s) venear) (\<lambda>v.
     Inr \<lparr>vs_total_venear = v, vs_total_votes = n\<rparr>))"

definition NS_PER_DAY :: nat where "NS_PER_DAY = 86400000000000"
definition SNAPSHOT_STORAGE_RESERVE_BYTES :: nat where "SNAPSHOT_STORAGE_RESERVE_BYTES = 101"
definition CET_OFFSET_NS :: nat where "CET_OFFSET_NS = 3600 * 1000000000"

text \<open>\<open>sandbox\<close> is the build feature of that name.\<close>

definition next_voting_start_ns :: "bool \<Rightarrow> nat \<Rightarrow> nat res" where
  "next_voting_start_ns sandbox after_ns =
     (if sandbox then add_u 64 after_ns (120 * 1000000000)
      else and_then (add_u 64 after_ns CET_OFFSET_NS) (\<lambda>shifted.
        let days_since_epoch = shifted div NS_PER_DAY;
            day_of_week = days_since_epoch mod 7;
            days_until_monday = (10 - day_of_week) mod 7 + 1
        in and_then (mul_u 64 (days_since_epoch + days_until_monday) NS_PER_DAY) (\<lambda>t.
           sub_u t CET_OFFSET_NS)))"

definition has_actions :: "proposal \<Rightarrow> bool" where
  "has_actions p = (case pr_actions p of None \<Rightarrow> False | Some a \<Rightarrow> a \<noteq> [])"

definition activate :: "nat \<Rightarrow> proposal \<Rightarrow> proposal" where
  "activate start_time p =
     (case pr_flow p of
        Classic \<Rightarrow> p\<lparr>pr_voting_start_time_ns := Some start_time, pr_status := Voting\<rparr>
      | FastTrack \<Rightarrow> p\<lparr>pr_sandbox_start_time_ns := Some start_time, pr_status := Sandbox\<rparr>)"

text \<open>The voting power recorded for the option at an index, zero if the list is shorter.\<close>

definition power_at :: "nat \<Rightarrow> proposal \<Rightarrow> nat" where
  "power_at i p = (if i < length (pr_votes p) then vs_total_venear (pr_votes p ! i) else 0)"

definition sandbox_threshold_met :: "proposal \<Rightarrow> bool res" where
  "sandbox_threshold_met p =
     (case pr_snapshot_and_state p of
        None \<Rightarrow> Inr False
      | Some snapshot \<Rightarrow>
          let for_power = power_at 0 p in
          and_then (bps_mul (pr_sandbox_threshold_bps p) (ss_total_venear snapshot)) (\<lambda>threshold.
          Inr (threshold \<le> for_power)))"

definition compute_final_status :: "proposal \<Rightarrow> proposal_status res" where
  "compute_final_status p =
     (case pr_snapshot_and_state p of
        None \<Rightarrow> Inr Defeated
      | Some snapshot \<Rightarrow>
          and_then (bps_mul (pr_quorum_threshold_bps p) (ss_total_venear snapshot)) (\<lambda>bps_quorum.
          let quorum_required = max bps_quorum (pr_quorum_floor p);
              quorum_met = quorum_required \<le> vs_total_venear (pr_total_votes p);
              for_power = power_at 0 p;
              against_power = power_at 1 p
          in and_then (add_u 128 for_power against_power) (\<lambda>denominator.
             and_then (if 0 < denominator
                  then and_then (mul_u 128 for_power 10000) (\<lambda>l.
                       and_then (mul_u 128 (pr_approval_threshold_bps p) denominator) (\<lambda>r. Inr (r \<le> l)))
                  else Inr False) (\<lambda>approval_met.
             Inr (if quorum_met \<and> approval_met then Succeeded else Defeated)))))"

definition active_end_time_ns :: "proposal \<Rightarrow> nat res" where
  "active_end_time_ns p =
     (case pr_flow p of
        Classic \<Rightarrow>
          and_then (unwrap (pr_voting_start_time_ns p)) (\<lambda>start.
          and_then (add_u 64 start (pr_voting_duration_ns p)) (\<lambda>voting_end.
          and_then (compute_final_status p) (\<lambda>final.
          if final = Succeeded then add_u 64 voting_end (pr_timelock_duration_ns p) else Inr voting_end)))
      | FastTrack \<Rightarrow>
          (case pr_voting_start_time_ns p of
             Some voting_start \<Rightarrow> add_u 64 voting_start (pr_voting_duration_ns p)
           | None \<Rightarrow> and_then (unwrap (pr_sandbox_start_time_ns p)) (\<lambda>start.
               add_u 64 start (pr_sandbox_duration_ns p))))"

definition update_classic :: "nat \<Rightarrow> proposal \<Rightarrow> proposal res" where
  "update_classic timestamp p =
     (if pr_status p = Created
      then Inr (if 0 < pr_expiration_ns p \<and> pr_expiration_ns p \<le> timestamp
                then p\<lparr>pr_status := Expired\<rparr> else p)
      else if pr_status p \<in> {Voting, Timelock}
      then and_then (unwrap (pr_voting_start_time_ns p)) (\<lambda>start.
           and_then (add_u 64 start (pr_voting_duration_ns p)) (\<lambda>voting_end.
           and_then (add_u 64 voting_end (pr_timelock_duration_ns p)) (\<lambda>timelock_end.
           if voting_end \<le> timestamp
           then and_then (compute_final_status p) (\<lambda>final_status. Inr (p\<lparr>pr_status :=
                  if final_status \<noteq> Succeeded then final_status
                  else if timestamp < timelock_end then Timelock
                  else if has_actions p then Executable else Succeeded\<rparr>))
           else Inr p)))
      else Inr p)"

definition update_fast_track :: "nat \<Rightarrow> proposal \<Rightarrow> proposal res" where
  "update_fast_track timestamp p =
     (if pr_status p = Created
      then Inr (if 0 < pr_expiration_ns p \<and> pr_expiration_ns p \<le> timestamp
                then p\<lparr>pr_status := Expired\<rparr> else p)
      else if pr_status p = Sandbox
      then and_then (unwrap (pr_sandbox_start_time_ns p)) (\<lambda>start.
           and_then (add_u 64 start (pr_sandbox_duration_ns p)) (\<lambda>sandbox_end.
           Inr (if sandbox_end \<le> timestamp then p\<lparr>pr_status := Defeated\<rparr> else p)))
      else if pr_status p \<in> {Scheduled, Voting}
      then and_then (unwrap (pr_voting_start_time_ns p)) (\<lambda>voting_start.
           and_then (add_u 64 voting_start (pr_voting_duration_ns p)) (\<lambda>voting_end.
           if voting_end \<le> timestamp
           then and_then (compute_final_status p) (\<lambda>final_status. Inr (p\<lparr>pr_status :=
                  if final_status \<noteq> Succeeded then final_status
                  else if has_actions p then Executable else Succeeded\<rparr>))
           else Inr (if voting_start \<le> timestamp then p\<lparr>pr_status := Voting\<rparr> else p)))
      else Inr p)"

definition update_proposal :: "nat \<Rightarrow> proposal \<Rightarrow> proposal res" where
  "update_proposal timestamp p =
     (case pr_flow p of
        Classic \<Rightarrow> update_classic timestamp p
      | FastTrack \<Rightarrow> update_fast_track timestamp p)"

definition is_active_status :: "proposal_status \<Rightarrow> bool" where
  "is_active_status s \<longleftrightarrow> s \<in> {Sandbox, Scheduled, Voting, Timelock}"

section \<open>The life cycle\<close>

text \<open>
  The moves of a proposal, for each flow: by the clock, by the scheduler, by a reviewer, by the
  council, by the ballot and by the execution of its actions.
\<close>

fun successors :: "proposal_flow \<Rightarrow> proposal_status \<Rightarrow> proposal_status list" where
  "successors Classic Created = [Expired, Rejected, Queued, Voting]"
| "successors Classic Queued = [Voting]"
| "successors Classic Voting = [Timelock, Defeated, Executable, Succeeded]"
| "successors Classic Timelock = [Vetoed, Executable, Succeeded]"
| "successors FastTrack Created = [Expired, Rejected, Slashed, Queued, Sandbox]"
| "successors FastTrack Queued = [Sandbox]"
| "successors FastTrack Sandbox = [Scheduled, Defeated]"
| "successors FastTrack Scheduled = [Voting, Vetoed, Defeated, Executable, Succeeded]"
| "successors FastTrack Voting = [Vetoed, Defeated, Executable, Succeeded]"
| "successors _ Executable = [InProgress]"
| "successors _ InProgress = [Succeeded, Failed]"
| "successors _ _ = []"

definition life_edge :: "proposal_flow \<Rightarrow> proposal_status \<Rightarrow> proposal_status \<Rightarrow> bool" where
  "life_edge flow s s' \<longleftrightarrow> s' \<in> set (successors flow s)"

abbreviation life_path :: "proposal_flow \<Rightarrow> proposal_status \<Rightarrow> proposal_status \<Rightarrow> bool" where
  "life_path flow \<equiv> (life_edge flow)\<^sup>*\<^sup>*"

lemma life_edge_step: "s' \<in> set (successors flow s) \<Longrightarrow> life_path flow s s'"
  by (simp add: life_edge_def r_into_rtranclp)

definition terminal_status :: "proposal_status \<Rightarrow> bool" where
  "terminal_status s \<longleftrightarrow> s \<in> {Expired, Rejected, Slashed, Vetoed, Defeated, Succeeded, Failed}"

lemma terminal_no_successor: "terminal_status s \<Longrightarrow> successors flow s = []"
  by (cases flow; cases s) (simp_all add: terminal_status_def)

lemma life_path_terminal: "life_path flow s s' \<Longrightarrow> terminal_status s \<Longrightarrow> s' = s"
  by (induction rule: converse_rtranclp_induct) (auto simp: life_edge_def terminal_no_successor)

section \<open>Well-formed proposals\<close>

text \<open>The statuses of a flow and the times that the clock-driven moves read.\<close>

definition shape_ok :: "proposal \<Rightarrow> bool" where
  "shape_ok p = (case pr_flow p of
     Classic \<Rightarrow> pr_status p \<notin> {Slashed, Sandbox, Scheduled}
       \<and> (pr_status p \<in> {Voting, Timelock} \<longrightarrow> pr_voting_start_time_ns p \<noteq> None)
   | FastTrack \<Rightarrow> pr_status p \<noteq> Timelock
       \<and> (pr_status p = Sandbox \<longrightarrow> pr_sandbox_start_time_ns p \<noteq> None)
       \<and> (pr_status p \<in> {Scheduled, Voting} \<longrightarrow> pr_voting_start_time_ns p \<noteq> None))"

text \<open>A proposal that is past its ballot has won it.\<close>

definition passed_status :: "proposal_status \<Rightarrow> bool" where
  "passed_status s \<longleftrightarrow> s \<in> {Timelock, Executable, InProgress, Failed, Succeeded}"

definition earned :: "proposal \<Rightarrow> bool" where
  "earned p \<longleftrightarrow> (passed_status (pr_status p) \<longrightarrow> compute_final_status p = Inr Succeeded)"

text \<open>A bond is held for FastTrack proposals that are waiting for review, rejected or expired.\<close>

definition bond_ok :: "proposal \<Rightarrow> bool" where
  "bond_ok p \<longleftrightarrow> (0 < pr_bond_amount p \<longrightarrow> pr_flow p = FastTrack \<and> pr_status p \<in> {Created, Rejected, Expired})"

definition life_ok :: "proposal \<Rightarrow> bool" where
  "life_ok p \<longleftrightarrow> shape_ok p \<and> earned p \<and> bond_ok p"

lemma power_at_status [simp]: "power_at i (p\<lparr>pr_status := s\<rparr>) = power_at i p"
  by (simp add: power_at_def)

text \<open>The outcome depends on the ballot only.\<close>

definition same_ballot :: "proposal \<Rightarrow> proposal \<Rightarrow> bool" where
  "same_ballot p q \<longleftrightarrow> pr_snapshot_and_state p = pr_snapshot_and_state q \<and> pr_votes p = pr_votes q
     \<and> pr_total_votes p = pr_total_votes q \<and> pr_quorum_threshold_bps p = pr_quorum_threshold_bps q
     \<and> pr_quorum_floor p = pr_quorum_floor q \<and> pr_approval_threshold_bps p = pr_approval_threshold_bps q"

lemma compute_final_status_cong: "same_ballot p q \<Longrightarrow> compute_final_status p = compute_final_status q"
  by (simp add: same_ballot_def compute_final_status_def power_at_def Let_def cong: if_cong option.case_cong)

lemma compute_final_status_status [simp]: "compute_final_status (p\<lparr>pr_status := s\<rparr>) = compute_final_status p"
  by (rule compute_final_status_cong) (simp add: same_ballot_def)

lemma has_actions_status [simp]: "has_actions (p\<lparr>pr_status := s\<rparr>) = has_actions p"
  by (simp add: has_actions_def)

text \<open>What decides a ballot: quorum and approval, written over the recorded tallies.\<close>

lemma compute_final_status_Succeeded:
  "compute_final_status p = Inr Succeeded \<longleftrightarrow>
     (\<exists>s q. pr_snapshot_and_state p = Some s \<and> bps_mul (pr_quorum_threshold_bps p) (ss_total_venear s) = Inr q
        \<and> max q (pr_quorum_floor p) \<le> vs_total_venear (pr_total_votes p)
        \<and> 0 < power_at 0 p + power_at 1 p
        \<and> pr_approval_threshold_bps p * (power_at 0 p + power_at 1 p) \<le> power_at 0 p * 10000
        \<and> power_at 0 p * 10000 < 2 ^ 128 \<and> power_at 0 p + power_at 1 p < 2 ^ 128)"
  by (auto simp: compute_final_status_def Let_def res_simps split: option.split if_splits)

lemma compute_final_status_cases:
  "compute_final_status p = Inr s \<Longrightarrow> s = Succeeded \<or> s = Defeated"
  by (auto simp: compute_final_status_def Let_def res_simps split: option.splits if_splits)

section \<open>Bringing a proposal up to date\<close>

lemmas update_defs = update_proposal_def update_classic_def update_fast_track_def

text \<open>The moves of the clock, case by case.\<close>

definition ballot_phase :: "proposal \<Rightarrow> bool" where
  "ballot_phase p = (case pr_flow p of
     Classic \<Rightarrow> pr_status p = Voting \<or> pr_status p = Timelock
   | FastTrack \<Rightarrow> pr_status p = Scheduled \<or> pr_status p = Voting)"

inductive clock_move :: "proposal \<Rightarrow> proposal_status \<Rightarrow> bool" for p where
  expires: "pr_status p = Created \<Longrightarrow> clock_move p Expired"
| sandbox_ends: "pr_flow p = FastTrack \<Longrightarrow> pr_status p = Sandbox \<Longrightarrow> clock_move p Defeated"
| ballot_opens: "pr_flow p = FastTrack \<Longrightarrow> pr_status p = Scheduled \<Longrightarrow> clock_move p Voting"
| ballot_lost: "ballot_phase p \<Longrightarrow> compute_final_status p = Inr Defeated \<Longrightarrow> clock_move p Defeated"
| ballot_won: "ballot_phase p \<Longrightarrow> compute_final_status p = Inr Succeeded
    \<Longrightarrow> s = (if has_actions p then Executable else Succeeded) \<Longrightarrow> clock_move p s"
| timelocked: "pr_flow p = Classic \<Longrightarrow> pr_status p = Voting \<Longrightarrow> compute_final_status p = Inr Succeeded
    \<Longrightarrow> clock_move p Timelock"

lemma same_status: "pr_status p = s \<Longrightarrow> p\<lparr>pr_status := s\<rparr> = p"
  by auto

text \<open>The phases one by one; the two ballot phases with their deadlines computed.\<close>

lemma update_phases:
  "pr_status p = Created \<Longrightarrow> update_classic t p = Inr (if 0 < pr_expiration_ns p \<and> pr_expiration_ns p \<le> t
     then p\<lparr>pr_status := Expired\<rparr> else p)"
  "pr_status p = Created \<Longrightarrow> update_fast_track t p = Inr (if 0 < pr_expiration_ns p \<and> pr_expiration_ns p \<le> t
     then p\<lparr>pr_status := Expired\<rparr> else p)"
  "pr_status p \<notin> {Created, Voting, Timelock} \<Longrightarrow> update_classic t p = Inr p"
  "pr_status p \<notin> {Created, Sandbox, Scheduled, Voting} \<Longrightarrow> update_fast_track t p = Inr p"
  by (simp_all add: update_classic_def update_fast_track_def)

lemma update_fast_track_sandbox:
  assumes "pr_status p = Sandbox" and "update_fast_track t p = Inr p'"
  obtains s se where "pr_sandbox_start_time_ns p = Some s" "add_u 64 s (pr_sandbox_duration_ns p) = Inr se"
    "p' = (if se \<le> t then p\<lparr>pr_status := Defeated\<rparr> else p)"
proof -
  have n: "pr_status p \<noteq> Created" using assms(1) by simp
  show thesis
    using assms(2) that unfolding update_fast_track_def if_not_P [OF n] if_P [OF assms(1)] and_then_eq_Inr unwrap_eq_Inr
      sum.inject by blast
qed

lemma update_classic_ballot:
  assumes "pr_status p \<in> {Voting, Timelock}" and "update_classic t p = Inr p'"
  obtains s ve te where "pr_voting_start_time_ns p = Some s" "add_u 64 s (pr_voting_duration_ns p) = Inr ve"
    "add_u 64 ve (pr_timelock_duration_ns p) = Inr te" "t < ve" "p' = p"
  | s ve te f where "pr_voting_start_time_ns p = Some s" "add_u 64 s (pr_voting_duration_ns p) = Inr ve"
    "add_u 64 ve (pr_timelock_duration_ns p) = Inr te" "ve \<le> t" "compute_final_status p = Inr f"
    "p' = p\<lparr>pr_status := if f \<noteq> Succeeded then f else if t < te then Timelock
        else if has_actions p then Executable else Succeeded\<rparr>"
proof -
  have n: "pr_status p \<noteq> Created" using assms by auto
  obtain s ve te where 1: "pr_voting_start_time_ns p = Some s" "add_u 64 s (pr_voting_duration_ns p) = Inr ve"
    "add_u 64 ve (pr_timelock_duration_ns p) = Inr te"
    using assms(2) unfolding update_classic_def if_P [OF assms(1)] if_not_P [OF n] and_then_eq_Inr unwrap_eq_Inr by blast
  have 2: "(if ve \<le> t then and_then (compute_final_status p) (\<lambda>f. Inr (p\<lparr>pr_status :=
      if f \<noteq> Succeeded then f else if t < te then Timelock else if has_actions p then Executable else Succeeded\<rparr>))
      else Inr p) = Inr p'"
    using assms(2) unfolding update_classic_def if_P [OF assms(1)] if_not_P [OF n] 1 by (simp only: unwrap_simps and_then_Inr 1)
  show thesis
  proof (cases "ve \<le> t")
    case True
    with 2 obtain f where "compute_final_status p = Inr f" "p' = p\<lparr>pr_status := if f \<noteq> Succeeded then f
      else if t < te then Timelock else if has_actions p then Executable else Succeeded\<rparr>"
      by (auto simp only: if_True and_then_eq_Inr sum.inject)
    then show thesis by (rule that(2) [OF 1 True])
  next
    case False
    with 2 have "p' = p" by (simp only: if_False sum.inject)
    then show thesis using False by (intro that(1) [OF 1]) simp_all
  qed
qed

lemma update_fast_track_ballot:
  assumes "pr_status p \<in> {Scheduled, Voting}" and "update_fast_track t p = Inr p'"
  obtains s ve where "pr_voting_start_time_ns p = Some s" "add_u 64 s (pr_voting_duration_ns p) = Inr ve"
    "t < ve" "p' = (if s \<le> t then p\<lparr>pr_status := Voting\<rparr> else p)"
  | s ve f where "pr_voting_start_time_ns p = Some s" "add_u 64 s (pr_voting_duration_ns p) = Inr ve"
    "ve \<le> t" "compute_final_status p = Inr f"
    "p' = p\<lparr>pr_status := if f \<noteq> Succeeded then f else if has_actions p then Executable else Succeeded\<rparr>"
proof -
  have n: "pr_status p \<noteq> Created" "pr_status p \<noteq> Sandbox" using assms by auto
  note unfolded = update_fast_track_def if_P [OF assms(1)] if_not_P [OF n(1)] if_not_P [OF n(2)]
  obtain s ve where 1: "pr_voting_start_time_ns p = Some s" "add_u 64 s (pr_voting_duration_ns p) = Inr ve"
    using assms(2) unfolding unfolded and_then_eq_Inr unwrap_eq_Inr by blast
  have 2: "(if ve \<le> t then and_then (compute_final_status p) (\<lambda>f. Inr (p\<lparr>pr_status :=
      if f \<noteq> Succeeded then f else if has_actions p then Executable else Succeeded\<rparr>))
      else Inr (if s \<le> t then p\<lparr>pr_status := Voting\<rparr> else p)) = Inr p'"
    using assms(2) unfolding unfolded 1 by (simp only: unwrap_simps and_then_Inr 1)
  show thesis
  proof (cases "ve \<le> t")
    case True
    with 2 obtain f where "compute_final_status p = Inr f" "p' = p\<lparr>pr_status := if f \<noteq> Succeeded then f
      else if has_actions p then Executable else Succeeded\<rparr>"
      by (auto simp only: if_True and_then_eq_Inr sum.inject)
    then show thesis by (rule that(2) [OF 1 True])
  next
    case False
    with 2 have "p' = (if s \<le> t then p\<lparr>pr_status := Voting\<rparr> else p)" by (simp only: if_False sum.inject)
    then show thesis using False by (intro that(1) [OF 1]) simp_all
  qed
qed

lemma ballot_decided:
  assumes "ballot_phase p" and "compute_final_status p = Inr f"
    and "s = (if f \<noteq> Succeeded then f else if has_actions p then Executable else Succeeded)"
  shows "clock_move p s \<and> s \<in> {Defeated, Executable, Succeeded}"
proof (cases "f = Succeeded")
  case True
  then show ?thesis using assms(2,3) clock_move.ballot_won [OF assms(1)] by simp
next
  case False
  then have "f = Defeated" using compute_final_status_cases [OF assms(2)] by simp
  then show ?thesis using assms(2,3) clock_move.ballot_lost [OF assms(1)] by simp
qed

lemma update_classic_move:
  assumes "update_classic t p = Inr p'" and "pr_flow p = Classic"
  shows "p' = p \<or> (\<exists>s. p' = p\<lparr>pr_status := s\<rparr> \<and> clock_move p s)"
proof (cases "pr_status p \<in> {Voting, Timelock}")
  case True
  then have phase: "ballot_phase p" using assms(2) by (auto simp: ballot_phase_def)
  have tl: ?thesis if "p' = p\<lparr>pr_status := Timelock\<rparr>" "compute_final_status p = Inr Succeeded"
  proof (cases "pr_status p = Timelock")
    case True
    then show ?thesis using that(1) same_status by metis
  next
    case False
    then have "pr_status p = Voting" using \<open>pr_status p \<in> {Voting, Timelock}\<close> by simp
    then show ?thesis using that clock_move.timelocked [OF assms(2)] by blast
  qed
  from True assms(1) show ?thesis
  proof (cases rule: update_classic_ballot)
    case (2 s ve te f)
    show ?thesis
    proof (cases "f = Succeeded \<and> t < te")
      case True
      then have "p' = p\<lparr>pr_status := Timelock\<rparr>" "compute_final_status p = Inr Succeeded" using 2(5,6) by simp_all
      then show ?thesis by (rule tl)
    next
      case False
      then have "p' = p\<lparr>pr_status := if f \<noteq> Succeeded then f else if has_actions p then Executable else Succeeded\<rparr>"
        using 2(6) by (cases "f = Succeeded") simp_all
      then show ?thesis using ballot_decided [OF phase 2(5) refl] by blast
    qed
  qed simp
next
  case False
  show ?thesis
  proof (cases "pr_status p = Created")
    case True
    then have "p' = p \<or> p' = p\<lparr>pr_status := Expired\<rparr>" using assms(1) by (simp add: update_phases split: if_splits)
    then show ?thesis using clock_move.expires [OF True] by blast
  qed (use False assms(1) in \<open>simp add: update_phases\<close>)
qed

lemma update_fast_track_move:
  assumes "update_fast_track t p = Inr p'" and "pr_flow p = FastTrack"
  shows "p' = p \<or> (\<exists>s. p' = p\<lparr>pr_status := s\<rparr> \<and> clock_move p s)"
proof (cases "pr_status p \<in> {Scheduled, Voting}")
  case True
  then have phase: "ballot_phase p" using assms(2) by (auto simp: ballot_phase_def)
  have opens: ?thesis if "p' = p\<lparr>pr_status := Voting\<rparr>"
  proof (cases "pr_status p = Voting")
    case True
    then show ?thesis using that same_status by metis
  next
    case False
    then have "pr_status p = Scheduled" using \<open>pr_status p \<in> {Scheduled, Voting}\<close> by simp
    then show ?thesis using that clock_move.ballot_opens [OF assms(2)] by blast
  qed
  from True assms(1) show ?thesis
  proof (cases rule: update_fast_track_ballot)
    case (1 s ve)
    then show ?thesis using opens by (cases "s \<le> t") simp_all
  next
    case (2 s ve f)
    then show ?thesis using ballot_decided [OF phase 2(4) refl] by blast
  qed
next
  case False
  then consider (new) "pr_status p = Created" | (sandbox) "pr_status p = Sandbox"
    | (other) "pr_status p \<notin> {Created, Sandbox, Scheduled, Voting}" by auto
  then show ?thesis
  proof cases
    case new
    then have "p' = p \<or> p' = p\<lparr>pr_status := Expired\<rparr>" using assms(1) by (simp add: update_phases split: if_splits)
    then show ?thesis using clock_move.expires [OF new] by blast
  next
    case sandbox
    from this assms(1) show ?thesis
    proof (rule update_fast_track_sandbox)
      fix se
      assume "p' = (if se \<le> t then p\<lparr>pr_status := Defeated\<rparr> else p)"
      then show ?thesis using clock_move.sandbox_ends [OF assms(2) sandbox] by (cases "se \<le> t") auto
    qed
  qed (use assms(1) in \<open>simp add: update_phases\<close>)
qed

lemma update_move:
  assumes "update_proposal t p = Inr p'"
  shows "p' = p \<or> (\<exists>s. p' = p\<lparr>pr_status := s\<rparr> \<and> clock_move p s)"
proof (cases "pr_flow p")
  case Classic
  with assms have "update_classic t p = Inr p'" by (simp add: update_proposal_def)
  from update_classic_move [OF this Classic] show ?thesis .
next
  case FastTrack
  with assms have "update_fast_track t p = Inr p'" by (simp add: update_proposal_def)
  from update_fast_track_move [OF this FastTrack] show ?thesis .
qed

lemma update_changes_status_only:
  assumes "update_proposal t p = Inr p'"
  shows "p' = p\<lparr>pr_status := pr_status p'\<rparr>"
  using update_move [OF assms] by auto

lemma update_inert:
  "pr_status p \<notin> {Created, Voting, Timelock, Sandbox, Scheduled} \<Longrightarrow> update_proposal t p = Inr p"
  by (cases "pr_flow p") (simp_all add: update_defs)

lemma update_by_cases:
  assumes "update_proposal t p = Inr p'" and "P p" and "\<And>s. clock_move p s \<Longrightarrow> P (p\<lparr>pr_status := s\<rparr>)"
  shows "P p'"
  using update_move [OF assms(1)] assms(2,3) by blast

lemmas life_defs = life_ok_def shape_ok_def earned_def bond_ok_def passed_status_def

lemma clock_move_edge:
  assumes "clock_move p s" and "life_ok p"
  shows "s = pr_status p \<or> life_edge (pr_flow p) (pr_status p) s"
  using assms
  by (cases rule: clock_move.cases; cases "pr_flow p")
    (auto simp: life_edge_def life_defs ballot_phase_def)

lemma clock_move_life_ok:
  assumes "clock_move p s" and "life_ok p"
  shows "life_ok (p\<lparr>pr_status := s\<rparr>)"
  using assms
  by (cases rule: clock_move.cases; cases "pr_flow p") (auto simp: life_defs ballot_phase_def)

lemma update_edge:
  assumes "update_proposal t p = Inr p'" and "life_ok p"
  shows "pr_status p' = pr_status p \<or> life_edge (pr_flow p) (pr_status p) (pr_status p')"
  by (rule update_by_cases [OF assms(1)]) (use clock_move_edge [OF _ assms(2)] in simp_all)

lemma update_life_ok:
  assumes "update_proposal t p = Inr p'" and "life_ok p"
  shows "life_ok p'"
  by (rule update_by_cases [OF assms(1)]) (use clock_move_life_ok assms(2) in simp_all)

lemma update_waiting:
  assumes "update_proposal t p = Inr p'" and "pr_status p' \<in> {Created, Queued, InProgress, Sandbox}"
  shows "p' = p"
proof -
  have "pr_status p' \<in> {Created, Queued, InProgress, Sandbox} \<longrightarrow> p' = p"
    by (rule update_by_cases [OF assms(1)]) (auto elim!: clock_move.cases split: if_splits)
  then show ?thesis using assms(2) by blast
qed

lemma update_not_Queued:
  assumes "update_proposal t p = Inr p'" and "pr_status p \<noteq> Queued"
  shows "pr_status p' \<noteq> Queued"
  using update_waiting [OF assms(1)] assms(2) by auto

lemma update_active:
  assumes "update_proposal t p = Inr p'" and "is_active_status (pr_status p')"
  shows "is_active_status (pr_status p)"
proof -
  have "is_active_status (pr_status p') \<longrightarrow> is_active_status (pr_status p)"
    by (rule update_by_cases [OF assms(1)]) (auto simp: is_active_status_def elim!: clock_move.cases split: if_splits)
  then show ?thesis using assms(2) by simp
qed

lemma update_idem_classic:
  assumes "update_classic t p = Inr p'" and "pr_flow p = Classic"
  shows "update_classic t p' = Inr p'"
proof (cases "pr_status p \<in> {Voting, Timelock}")
  case True
  then have phase: "ballot_phase p" using assms(2) by (auto simp: ballot_phase_def)
  from True assms(1) show ?thesis
  proof (cases rule: update_classic_ballot)
    case 1
    then show ?thesis using assms(1) by simp
  next
    case (2 s ve te f)
    show ?thesis
    proof (cases "f = Succeeded \<and> t < te")
      case True
      then show ?thesis using 2 by (simp add: update_classic_def)
    next
      case False
      then have "pr_status p' \<in> {Defeated, Executable, Succeeded}"
        using 2(6) ballot_decided [OF phase 2(5) refl] by auto
      then show ?thesis by (intro update_phases(3)) auto
    qed
  qed
next
  case False
  then show ?thesis using assms(1) by (cases "pr_status p = Created") (auto simp: update_phases split: if_splits)
qed

lemma update_idem_fast_track:
  assumes "update_fast_track t p = Inr p'" and "pr_flow p = FastTrack"
  shows "update_fast_track t p' = Inr p'"
proof (cases "pr_status p \<in> {Scheduled, Voting}")
  case True
  then have phase: "ballot_phase p" using assms(2) by (auto simp: ballot_phase_def)
  from True assms(1) show ?thesis
  proof (cases rule: update_fast_track_ballot)
    case (1 s ve)
    then show ?thesis using assms(1) by (cases "s \<le> t") (simp_all add: update_fast_track_def)
  next
    case (2 s ve f)
    then have "pr_status p' = (if f \<noteq> Succeeded then f else if has_actions p then Executable else Succeeded)" by simp
    from ballot_decided [OF phase 2(4) this] have "pr_status p' \<in> {Defeated, Executable, Succeeded}" ..
    then show ?thesis by (intro update_phases(4)) auto
  qed
next
  case False
  then consider (new) "pr_status p = Created" | (sandbox) "pr_status p = Sandbox"
    | (other) "pr_status p \<notin> {Created, Sandbox, Scheduled, Voting}" by auto
  then show ?thesis
  proof cases
    case new
    then show ?thesis using assms(1) by (auto simp: update_phases split: if_splits)
  next
    case sandbox
    from this assms(1) show ?thesis
    proof (rule update_fast_track_sandbox)
      fix se
      assume "p' = (if se \<le> t then p\<lparr>pr_status := Defeated\<rparr> else p)"
      then show ?thesis using assms(1) by (cases "se \<le> t") (simp_all add: update_phases)
    qed
  qed (use assms(1) in \<open>simp add: update_phases\<close>)
qed

lemma update_idem:
  assumes "update_proposal t p = Inr p'"
  shows "update_proposal t p' = Inr p'"
proof -
  have "pr_flow p' = pr_flow p" by (rule update_by_cases [OF assms]) simp_all
  then show ?thesis
    using assms update_idem_classic update_idem_fast_track by (cases "pr_flow p") (auto simp: update_proposal_def)
qed

text \<open>Starting an approved or queued proposal.\<close>

lemma activate_simps [simp]:
  "pr_id (activate t p) = pr_id p" "pr_flow (activate t p) = pr_flow p"
  "pr_votes (activate t p) = pr_votes p" "pr_total_votes (activate t p) = pr_total_votes p"
  "pr_snapshot_and_state (activate t p) = pr_snapshot_and_state p"
  "pr_bond_amount (activate t p) = pr_bond_amount p"
  "is_active_status (pr_status (activate t p))" "pr_actions (activate t p) = pr_actions p"
  by (simp_all add: activate_def is_active_status_def split: proposal_flow.split)

lemma activate_edge:
  "pr_status p = Queued \<or> pr_status p = Created \<Longrightarrow> life_edge (pr_flow p) (pr_status p) (pr_status (activate t p))"
  by (auto simp: activate_def life_edge_def split: proposal_flow.split)

lemma activate_life_ok: "pr_bond_amount p = 0 \<Longrightarrow> life_ok (activate t p)"
  by (auto simp: activate_def life_ok_def shape_ok_def earned_def passed_status_def bond_ok_def
      split: proposal_flow.split)

lemma queued_no_bond: "life_ok p \<Longrightarrow> pr_status p = Queued \<Longrightarrow> pr_bond_amount p = 0"
  by (auto simp: life_ok_def bond_ok_def)

text \<open>
  The clock never gets stuck: on a well-formed proposal whose times and amounts are in range, bringing it
  up to date returns. A start time lies less than eight days after the clock, durations are
  \<open>u32\<close> numbers of seconds, and amounts leave room for a factor of ten thousand.
\<close>

definition max_duration :: nat where "max_duration = (2 ^ 32 - 1) * 10 ^ 9"
definition max_start :: nat where "max_start = 2 ^ 62 + 8 * NS_PER_DAY"

definition in_range :: "proposal \<Rightarrow> bool" where
  "in_range p \<longleftrightarrow> pr_voting_duration_ns p \<le> max_duration \<and> pr_timelock_duration_ns p \<le> max_duration
     \<and> pr_sandbox_duration_ns p \<le> max_duration
     \<and> (\<forall>s. pr_voting_start_time_ns p = Some s \<longrightarrow> s \<le> max_start)
     \<and> (\<forall>s. pr_sandbox_start_time_ns p = Some s \<longrightarrow> s \<le> max_start)
     \<and> pr_quorum_threshold_bps p \<le> 10000 \<and> pr_approval_threshold_bps p \<le> 10000
     \<and> pr_sandbox_threshold_bps p \<le> 10000
     \<and> (power_at 0 p + power_at 1 p) * 10000 < 2 ^ 128
     \<and> (\<forall>s. pr_snapshot_and_state p = Some s \<longrightarrow> ss_total_venear s * 10000 < 2 ^ 128)"

lemma bps_mul_total:
  assumes "b \<le> 10000" and "n * 10000 < 2 ^ 128"
  shows "\<exists>m. bps_mul b n = Inr m"
proof -
  have "n * b \<le> n * 10000" using assms(1) by (rule mult_left_mono) simp
  then have "n * b < 2 ^ 128" using assms(2) by (rule le_less_trans)
  then show ?thesis using bps_mul_ok [of n b] by blast
qed

lemma compute_final_status_total:
  assumes "in_range p"
  shows "\<exists>s. compute_final_status p = Inr s"
proof (cases "pr_snapshot_and_state p")
  case None
  then show ?thesis by (simp add: compute_final_status_def)
next
  case (Some s)
  let ?d = "power_at 0 p + power_at 1 p"
  have r: "?d * 10000 < 2 ^ 128" "pr_approval_threshold_bps p \<le> 10000" "ss_total_venear s * 10000 < 2 ^ 128"
    "pr_quorum_threshold_bps p \<le> 10000"
    using assms Some by (simp_all add: in_range_def)
  obtain q where q: "bps_mul (pr_quorum_threshold_bps p) (ss_total_venear s) = Inr q" using bps_mul_total r by blast
  have "pr_approval_threshold_bps p * ?d \<le> 10000 * ?d" using r(2) by (rule mult_right_mono) simp
  then have b: "pr_approval_threshold_bps p * ?d < 2 ^ 128" "?d < 2 ^ 128" "power_at 0 p * 10000 < 2 ^ 128"
    using r(1) by simp_all
  have "add_u 128 (power_at 0 p) (power_at 1 p) = Inr ?d" "mul_u 128 (power_at 0 p) 10000 = Inr (power_at 0 p * 10000)"
    "mul_u 128 (pr_approval_threshold_bps p) ?d = Inr (pr_approval_threshold_bps p * ?d)"
    using b by (simp_all only: add_u_ok mul_u_ok)
  then show ?thesis by (simp add: compute_final_status_def Some q Let_def)
qed

lemma duration_adds_up:
  assumes "s \<le> max_start" "d \<le> max_duration" "d' \<le> max_duration"
  shows "add_u 64 s d = Inr (s + d)" "add_u 64 (s + d) d' = Inr (s + d + d')"
  using assms by (simp_all add: add_u_def check_def max_start_def max_duration_def NS_PER_DAY_def)

lemma update_total:
  assumes "life_ok p" and "in_range p"
  shows "\<exists>p'. update_proposal t p = Inr p'"
proof -
  obtain s where s: "compute_final_status p = Inr s" using compute_final_status_total [OF assms(2)] by blast
  show ?thesis
    using assms s
    by (cases "pr_flow p")
      (auto simp: update_defs life_ok_def shape_ok_def in_range_def duration_adds_up)
qed

lemma active_end_time_total:
  assumes "in_range p" and "pr_flow p = Classic \<longrightarrow> pr_voting_start_time_ns p \<noteq> None"
    and "pr_voting_start_time_ns p \<noteq> None \<or> pr_sandbox_start_time_ns p \<noteq> None"
  shows "\<exists>t. active_end_time_ns p = Inr t"
proof -
  obtain s where s: "compute_final_status p = Inr s" using compute_final_status_total [OF assms(1)] by blast
  show ?thesis
    using assms s
    by (cases "pr_flow p") (auto simp: active_end_time_ns_def in_range_def duration_adds_up split: option.split)
qed

section \<open>The calendar\<close>

lemma next_voting_start_value:
  assumes "next_voting_start_ns False t = Inr u"
  shows "t < u \<and> u \<le> t + 7 * NS_PER_DAY \<and> (u + CET_OFFSET_NS) mod NS_PER_DAY = 0
    \<and> (u + CET_OFFSET_NS) div NS_PER_DAY mod 7 = 4"
proof -
  let ?d = "(t + CET_OFFSET_NS) div NS_PER_DAY"
  let ?k = "(10 - ?d mod 7) mod 7 + 1"
  have u: "u + CET_OFFSET_NS = (?d + ?k) * NS_PER_DAY"
    using assms by (auto simp: next_voting_start_ns_def res_simps Let_def)
  have "?d mod 7 < 7" by simp
  then have "?d mod 7 \<in> {0, 1, 2, 3, 4, 5, 6}" by auto
  then have k: "1 \<le> ?k" "?k \<le> 7" by auto
  have "(?d + ?k) mod 7 = (?d mod 7 + ?k) mod 7" by (rule mod_add_left_eq [symmetric])
  also have "\<dots> = 4" using \<open>?d mod 7 \<in> {0, 1, 2, 3, 4, 5, 6}\<close> by auto
  finally have k7: "(?d + ?k) mod 7 = 4" .
  have "?d * NS_PER_DAY \<le> t + CET_OFFSET_NS" by simp
  moreover have "t + CET_OFFSET_NS < ?d * NS_PER_DAY + NS_PER_DAY"
    using mod_less_divisor [of NS_PER_DAY "t + CET_OFFSET_NS"] div_mult_mod_eq [of "t + CET_OFFSET_NS" NS_PER_DAY]
    by (simp add: NS_PER_DAY_def)
  moreover have "(?d + ?k) * NS_PER_DAY = ?d * NS_PER_DAY + ?k * NS_PER_DAY" by (simp add: algebra_simps)
  moreover have "NS_PER_DAY \<le> ?k * NS_PER_DAY" using k(1) by simp
  moreover have "?k * NS_PER_DAY \<le> 7 * NS_PER_DAY" using k(2) by (rule mult_right_mono) simp
  ultimately have "t < u" "u \<le> t + 7 * NS_PER_DAY" using u by linarith+
  moreover have "(u + CET_OFFSET_NS) mod NS_PER_DAY = 0" by (simp add: u)
  moreover have "(u + CET_OFFSET_NS) div NS_PER_DAY = ?d + ?k" by (simp add: u NS_PER_DAY_def)
  ultimately show ?thesis using k7 by simp
qed

end
