(* ===== verification/Voting.thy ===== *)
theory Voting
  imports Voting_Proposal
begin

text \<open>
  The voting contract (\<open>voting-contract/src\<close>): its configuration, its state and every method, in
  the order of the source files. A call that panics leaves the state unchanged, so a method is
  a function into \<open>panic + \<dots>\<close>. Logs, transfers and cross-contract calls are appended to
  \<open>vo_outbox\<close>; the callbacks \<open>on_get_snapshot\<close>, \<open>on_execute_proposal\<close> and the chained vote are methods
  of their own, whose calls arrive as later messages.

  Parameters of the model (\<open>voting_ext\<close>): the hash function and the serialisation of an account
  in a Merkle proof, the storage the host charges for a state, the price of a byte, and the
  build feature \<open>sandbox\<close>. \<open>Vector\<close> is a list, \<open>LookupMap\<close> a partial map; \<open>IterableSet\<close> is the list of
  its elements in iteration order, where an insertion appends and a removal moves the last
  element into the gap.
\<close>

section \<open>Configuration and state (\<open>config.rs\<close>, \<open>lib.rs\<close>)\<close>

record voting_config =
  cf_venear_account_id :: account_id
  cf_reviewer_ids :: "account_id list"
  cf_council_ids :: "account_id list"
  cf_owner_account_id :: account_id
  cf_classic_voting_duration_ns :: nat
  cf_fast_track_voting_duration_ns :: nat
  cf_timelock_duration_ns :: nat
  cf_base_proposal_fee :: nat
  cf_bond_amount :: nat
  cf_treasury_account_id :: account_id
  cf_vote_storage_fee :: nat
  cf_guardians :: "account_id list"
  cf_classic_proposal_expiration_ns :: nat
  cf_fast_track_proposal_expiration_ns :: nat
  cf_proposed_new_owner_account_id :: "account_id option"
  cf_quorum_threshold_bps :: bps
  cf_quorum_floor :: nat
  cf_approval_threshold_bps :: bps
  cf_simple_majority_threshold_bps :: bps
  cf_strong_majority_threshold_bps :: bps
  cf_sandbox_duration_ns :: nat
  cf_sandbox_threshold_bps :: bps
  cf_max_active_proposals :: nat

record vote_payload =
  vp_vote :: vote_option
  vp_merkle_proof :: merkle_proof
  vp_v_account :: vaccount

datatype voting_effect =
    Proposal_Event string account_id proposal_id
  | Proposal_Vote string account_id proposal_id nat nat
  | Execute_Result proposal_id bool
  | Pay account_id nat
  | Fetch_Snapshot account_id proposal_id
  | Chained_Vote proposal_id vote_payload nat
  | Run_Actions proposal_id "proposal_action list"
  | Upgrade_Code "byte list"

record voting =
  vo_config :: voting_config
  vo_proposals :: "vproposal list"
  vo_metadata :: "vproposal_metadata list"
  vo_votes :: "account_id \<times> proposal_id \<rightharpoonup> nat"
  vo_paused :: bool
  vo_pending_queue :: "proposal_id list"
  vo_active_proposals :: "proposal_id list"
  vo_outbox :: "voting_effect list"

record voting_ext =
  vx_hasher :: "vaccount hasher"
  vx_storage_usage :: "voting \<Rightarrow> nat"
  vx_storage_byte_cost :: nat
  vx_sandbox :: bool

definition notify :: "voting_effect \<Rightarrow> voting \<Rightarrow> voting" where
  "notify x c = c\<lparr>vo_outbox := vo_outbox c @ [x]\<rparr>"

definition voting_new :: "env \<Rightarrow> voting_config \<Rightarrow> voting res" where
  "voting_new e config =
     and_then (assert_no_deposit e ''new'') (\<lambda>_. Inr
     \<lparr>vo_config = config, vo_proposals = [], vo_metadata = [], vo_votes = Map.empty, vo_paused = False,
      vo_pending_queue = [], vo_active_proposals = [], vo_outbox = []\<rparr>)"

section \<open>Pausing and guards (\<open>pause.rs\<close>, \<open>governance.rs\<close>, \<open>reviewer.rs\<close>)\<close>

definition voting_assert_not_paused :: "voting \<Rightarrow> unit res" where
  "voting_assert_not_paused c = require (\<not> vo_paused c) ''Contract is paused. Please try again later.''"

definition voting_assert_owner :: "env \<Rightarrow> voting \<Rightarrow> unit res" where
  "voting_assert_owner e c =
     require (predecessor e = cf_owner_account_id (vo_config c)) ''Only the owner can call this method''"

definition voting_assert_guardian :: "env \<Rightarrow> voting \<Rightarrow> unit res" where
  "voting_assert_guardian e c =
     require (predecessor e \<in> set (cf_guardians (vo_config c)) \<or> predecessor e = cf_owner_account_id (vo_config c))
       ''Only the guardian can call this method''"

definition assert_called_by_reviewer :: "env \<Rightarrow> voting \<Rightarrow> unit res" where
  "assert_called_by_reviewer e c =
     require (predecessor e \<in> set (cf_reviewer_ids (vo_config c))) ''Only the reviewers can call this method''"

definition assert_called_by_council :: "env \<Rightarrow> voting \<Rightarrow> unit res" where
  "assert_called_by_council e c =
     require (predecessor e \<in> set (cf_council_ids (vo_config c))) ''Only the council can call this method''"

definition voting_pause :: "env \<Rightarrow> voting \<Rightarrow> voting res" where
  "voting_pause e c =
     and_then (assert_one_yocto e) (\<lambda>_.
     and_then (voting_assert_guardian e c) (\<lambda>_. Inr (c\<lparr>vo_paused := True\<rparr>)))"

definition voting_unpause :: "env \<Rightarrow> voting \<Rightarrow> voting res" where
  "voting_unpause e c =
     and_then (assert_one_yocto e) (\<lambda>_.
     and_then (voting_assert_owner e c) (\<lambda>_. Inr (c\<lparr>vo_paused := False\<rparr>)))"

section \<open>Stored proposals (\<open>proposal.rs\<close>)\<close>

definition internal_set_proposal :: "proposal \<Rightarrow> voting \<Rightarrow> voting res" where
  "internal_set_proposal p c =
     (let pid = pr_id p;
          new_active = is_active_status (pr_status p);
          was_active = pid \<in> set (vo_active_proposals c);
          c1 = (if \<not> was_active \<and> new_active then c\<lparr>vo_active_proposals := vo_active_proposals c @ [pid]\<rparr>
                else if was_active \<and> \<not> new_active
                then c\<lparr>vo_active_proposals := iterable_remove pid (vo_active_proposals c)\<rparr> else c)
      in and_then (require (pid < length (vo_proposals c1)) ''Index out of bounds'') (\<lambda>_.
         Inr (c1\<lparr>vo_proposals := (vo_proposals c1)[pid := VProposal_Current p]\<rparr>)))"

definition internal_get_proposal :: "env \<Rightarrow> voting \<Rightarrow> proposal_id \<Rightarrow> (proposal \<times> bool) option res" where
  "internal_get_proposal e c pid =
     (if pid < length (vo_proposals c)
      then and_then (proposal_from (vo_proposals c ! pid)) (\<lambda>p.
           and_then (update_proposal (block_timestamp e) p) (\<lambda>p'.
           Inr (Some (p', pr_status p' \<noteq> pr_status p))))
      else Inr None)"

definition internal_expect_proposal_updated :: "env \<Rightarrow> voting \<Rightarrow> proposal_id \<Rightarrow> proposal res" where
  "internal_expect_proposal_updated e c pid =
     and_then (internal_get_proposal e c pid) (\<lambda>r.
     and_then (expect r ''Proposal is not found'') (\<lambda>(p, _). Inr p))"

section \<open>The queue (\<open>queue.rs\<close>)\<close>

record queue_advance_outcome =
  qo_active_updates :: "proposal list"
  qo_queue_promotions :: "proposal list"

text \<open>The position of the first slot time that is not earlier, and the insertion there.\<close>

definition insert_slot_time :: "nat \<Rightarrow> nat list \<Rightarrow> nat list" where
  "insert_slot_time end_time slots =
     takeWhile (\<lambda>t. t < end_time) slots @ end_time # dropWhile (\<lambda>t. t < end_time) slots"

text \<open>One pass of the loop over the active proposals; the state is the updates, the count and the freed slots.\<close>

definition scan_active ::
  "env \<Rightarrow> voting \<Rightarrow> proposal_id \<Rightarrow> proposal list \<times> nat \<times> nat list \<Rightarrow> (proposal list \<times> nat \<times> nat list) res" where
  "scan_active e c pid = (\<lambda>(updates, count, freed).
     and_then (internal_get_proposal e c pid) (\<lambda>r.
     and_then (expect r ''active proposal missing'') (\<lambda>(p, updated).
     and_then (if is_active_status (pr_status p) then add_u 32 count 1 else Inr count) (\<lambda>count'.
     if updated
     then and_then (if is_active_status (pr_status p) then Inr freed
            else and_then (active_end_time_ns p) (\<lambda>end_time. Inr (insert_slot_time end_time freed))) (\<lambda>freed'.
          Inr (updates @ [p], count', freed'))
     else Inr (updates, count', freed)))))"

text \<open>The loop over the pending queue, which stops as soon as every slot is taken.\<close>

fun promote_queue ::
  "env \<Rightarrow> voting \<Rightarrow> proposal_id list \<Rightarrow> nat \<Rightarrow> nat list \<Rightarrow> proposal list \<Rightarrow> proposal list res" where
  "promote_queue e c [] count freed promotions = Inr promotions"
| "promote_queue e c (pid # ids) count freed promotions =
     (if cf_max_active_proposals (vo_config c) \<le> count then Inr promotions
      else and_then (internal_expect_proposal_updated e c pid) (\<lambda>p.
        let (start_time, freed1) = (case freed of [] \<Rightarrow> (block_timestamp e, []) | t # ts \<Rightarrow> (t, ts))
        in and_then (update_proposal (block_timestamp e) (activate start_time p)) (\<lambda>p'.
           if is_active_status (pr_status p')
           then and_then (add_u 32 count 1) (\<lambda>count'. promote_queue e c ids count' freed1 (promotions @ [p']))
           else and_then (active_end_time_ns p') (\<lambda>end.
                promote_queue e c ids count (insert_slot_time end freed1) (promotions @ [p'])))))"

definition compute_queue_advance :: "env \<Rightarrow> voting \<Rightarrow> queue_advance_outcome res" where
  "compute_queue_advance e c =
     and_then (for_each (scan_active e c) (vo_active_proposals c) ([], 0, [])) (\<lambda>(updates, count, freed).
     and_then (promote_queue e c (vo_pending_queue c) count freed []) (\<lambda>promotions.
     Inr \<lparr>qo_active_updates = updates, qo_queue_promotions = promotions\<rparr>))"

definition internal_advance_queue :: "env \<Rightarrow> voting \<Rightarrow> voting res" where
  "internal_advance_queue e c =
     and_then (compute_queue_advance e c) (\<lambda>outcome.
     and_then (check 32 (length (qo_queue_promotions outcome))) (\<lambda>n.
     let c1 = c\<lparr>vo_pending_queue := drop n (vo_pending_queue c)\<rparr> in
     and_then (for_each internal_set_proposal (qo_queue_promotions outcome) c1) (\<lambda>c2.
     for_each internal_set_proposal (qo_active_updates outcome) c2)))"

definition advance_queue :: "env \<Rightarrow> voting \<Rightarrow> voting res" where
  "advance_queue e c =
     and_then (assert_no_deposit e ''advance_queue'') (\<lambda>_.
     and_then (voting_assert_not_paused c) (\<lambda>_. internal_advance_queue e c))"

definition get_queue_state :: "env \<Rightarrow> voting \<Rightarrow> queue_state res" where
  "get_queue_state e c =
     and_then (compute_queue_advance e c) (\<lambda>outcome.
     let exiting = map pr_id (filter (\<lambda>p. \<not> is_active_status (pr_status p)) (qo_active_updates outcome));
         active = filter (\<lambda>pid. pid \<notin> set exiting) (vo_active_proposals c)
           @ map pr_id (filter (\<lambda>p. is_active_status (pr_status p)) (qo_queue_promotions outcome))
     in Inr \<lparr>qs_active_proposals = active,
             qs_pending_queue = drop (length (qo_queue_promotions outcome)) (vo_pending_queue c)\<rparr>)"

definition get_proposals_virtual_updates :: "env \<Rightarrow> voting \<Rightarrow> (proposal_id \<rightharpoonup> proposal) res" where
  "get_proposals_virtual_updates e c =
     and_then (compute_queue_advance e c) (\<lambda>outcome.
     Inr (map_of (rev (map (\<lambda>p. (pr_id p, p)) (qo_queue_promotions outcome)))))"

section \<open>Creating and reading proposals (\<open>proposal.rs\<close>)\<close>

text \<open>The proposal that a creator gets; the durations and the bond are those of its flow.\<close>

definition new_proposal ::
  "env \<Rightarrow> voting_config \<Rightarrow> proposal_id \<Rightarrow> proposal_action list option \<Rightarrow> proposal_flow \<Rightarrow> proposal res" where
  "new_proposal e cfg pid actions flow =
     (let creation_time = block_timestamp e;
          (flow_expiration, voting_duration, timelock_duration, bond) =
            (case flow of
               Classic \<Rightarrow> (cf_classic_proposal_expiration_ns cfg, cf_classic_voting_duration_ns cfg,
                           cf_timelock_duration_ns cfg, 0)
             | FastTrack \<Rightarrow> (cf_fast_track_proposal_expiration_ns cfg, cf_fast_track_voting_duration_ns cfg,
                           0, cf_bond_amount cfg))
      in and_then (if 0 < flow_expiration then add_u 64 creation_time flow_expiration else Inr 0) (\<lambda>expiration.
         Inr \<lparr>pr_id = pid, pr_creation_time_ns = creation_time, pr_proposer_id = predecessor e,
           pr_reviewer_id = None, pr_rejecter_id = None, pr_approval_time_ns = None,
           pr_voting_start_time_ns = None, pr_voting_duration_ns = voting_duration,
           pr_expiration_ns = expiration, pr_snapshot_and_state = None,
           pr_votes = replicate 3 vote_stats_default, pr_total_votes = vote_stats_default,
           pr_status = Created, pr_quorum_threshold_bps = bps_ZERO, pr_quorum_floor = 0,
           pr_approval_threshold_bps = bps_ZERO, pr_actions = actions, pr_flow = flow,
           pr_timelock_duration_ns = timelock_duration, pr_sandbox_start_time_ns = None,
           pr_bond_amount = bond, pr_sandbox_duration_ns = 0, pr_sandbox_threshold_bps = bps_ZERO\<rparr>))"

text \<open>The bond, the base fee and the storage that was added, with the reserve for the snapshot.\<close>

definition required_deposit :: "voting_ext \<Rightarrow> nat \<Rightarrow> nat \<Rightarrow> nat \<Rightarrow> nat \<Rightarrow> nat res" where
  "required_deposit X bond base_fee storage_before storage_after =
     and_then (add_u 64 storage_after SNAPSHOT_STORAGE_RESERVE_BYTES) (\<lambda>updated_storage.
     let storage_added = saturating_sub updated_storage storage_before in
     and_then (mul_u 128 (vx_storage_byte_cost X) storage_added) (\<lambda>storage_cost.
     and_then (near_add bond base_fee) (\<lambda>fee. near_add fee storage_cost)))"

definition create_proposal ::
  "voting_ext \<Rightarrow> env \<Rightarrow> proposal_metadata \<Rightarrow> proposal_action list option \<Rightarrow> proposal_flow \<Rightarrow> voting
     \<Rightarrow> (voting \<times> proposal_id) res" where
  "create_proposal X e metadata actions flow c =
     and_then (voting_assert_not_paused c) (\<lambda>_.
     and_then (require (actions \<noteq> Some []) ''Actions list cannot be empty'') (\<lambda>_.
     let pid = length (vo_proposals c);
         c1 = notify (Proposal_Event ''create_proposal'' (predecessor e) pid) c
     in and_then (new_proposal e (vo_config c1) pid actions flow) (\<lambda>p.
     let c2 = c1\<lparr>vo_proposals := vo_proposals c1 @ [VProposal_Current p],
                 vo_metadata := vo_metadata c1 @ [VMetadata_Current metadata]\<rparr>
     in and_then (required_deposit X (pr_bond_amount p) (cf_base_proposal_fee (vo_config c1))
          (vx_storage_usage X c1) (vx_storage_usage X c2)) (\<lambda>required.
     and_then (require (required \<le> attached_deposit e) ''Requires deposit of '') (\<lambda>_.
     and_then (if required < attached_deposit e
          then and_then (near_sub (attached_deposit e) required) (\<lambda>refund.
               Inr (notify (Pay (predecessor e) refund) c2))
          else Inr c2) (\<lambda>c3.
     Inr (c3, pid)))))))"

definition get_proposal :: "env \<Rightarrow> voting \<Rightarrow> proposal_id \<Rightarrow> proposal_info option res" where
  "get_proposal e c pid =
     and_then (get_proposals_virtual_updates e c) (\<lambda>overrides.
     and_then (case overrides pid of
          Some p \<Rightarrow> Inr (Some p)
        | None \<Rightarrow> and_then (internal_get_proposal e c pid) (\<lambda>r. Inr (map_option fst r))) (\<lambda>r.
     Inr (case r of
        None \<Rightarrow> None
      | Some p \<Rightarrow> if pid < length (vo_metadata c)
          then Some \<lparr>pi_proposal = p, pi_metadata = metadata_from (vo_metadata c ! pid)\<rparr> else None)))"

definition get_num_proposals :: "voting \<Rightarrow> nat" where
  "get_num_proposals c = length (vo_proposals c)"

definition get_proposals :: "env \<Rightarrow> voting \<Rightarrow> nat \<Rightarrow> nat option \<Rightarrow> proposal_info list res" where
  "get_proposals e c from_index limit =
     and_then (get_proposals_virtual_updates e c) (\<lambda>overrides.
     let l = (case limit of None \<Rightarrow> 2 ^ 32 - 1 | Some n \<Rightarrow> n);
         to_index = min (saturating_add 32 from_index l) (get_num_proposals c)
     in for_each (\<lambda>i acc.
          and_then (case overrides i of
               Some p \<Rightarrow> Inr p
             | None \<Rightarrow> and_then (internal_get_proposal e c i) (\<lambda>r. and_then (unwrap r) (\<lambda>(p, _). Inr p))) (\<lambda>p.
          and_then (unwrap (if i < length (vo_metadata c) then Some (vo_metadata c ! i) else None)) (\<lambda>m.
          Inr (acc @ [\<lparr>pi_proposal = p, pi_metadata = metadata_from m\<rparr>])))) [from_index..<to_index] [])"

section \<open>Votes (\<open>votes.rs\<close>)\<close>

text \<open>\<open>votes[i]\<close> is updated in place; an index outside the list panics.\<close>

definition at_index :: "(vote_stats \<Rightarrow> vote_stats res) \<Rightarrow> nat \<Rightarrow> vote_stats list \<Rightarrow> vote_stats list res" where
  "at_index f i xs =
     (if i < length xs then and_then (f (xs ! i)) (\<lambda>s. Inr (xs[i := s]))
      else Inl (Msg ''index out of bounds''))"

text \<open>The tally of one ballot: withdraw the previous vote of the account if there is one, add the new one.\<close>

definition withdraw_ballot :: "nat option \<Rightarrow> nat \<Rightarrow> proposal \<Rightarrow> proposal res" where
  "withdraw_ballot previous_vote weight p =
     (case previous_vote of
        None \<Rightarrow> Inr p
      | Some i \<Rightarrow>
          and_then (at_index (remove_vote weight) i (pr_votes p)) (\<lambda>vs.
          and_then (remove_vote weight (pr_total_votes p)) (\<lambda>t.
          Inr (p\<lparr>pr_votes := vs, pr_total_votes := t\<rparr>))))"

definition cast_ballot :: "nat \<Rightarrow> nat \<Rightarrow> proposal \<Rightarrow> proposal res" where
  "cast_ballot vote_index weight p =
     and_then (at_index (add_vote weight) vote_index (pr_votes p)) (\<lambda>vs.
     and_then (add_vote weight (pr_total_votes p)) (\<lambda>t.
     Inr (p\<lparr>pr_votes := vs, pr_total_votes := t\<rparr>)))"

text \<open>A FastTrack proposal that reaches its threshold in the sandbox is scheduled.\<close>

definition graduate :: "voting_ext \<Rightarrow> env \<Rightarrow> proposal \<Rightarrow> proposal res" where
  "graduate X e p =
     and_then (if pr_flow p = FastTrack \<and> pr_status p = Sandbox then sandbox_threshold_met p else Inr False) (\<lambda>met.
     if met
     then and_then (next_voting_start_ns (vx_sandbox X) (block_timestamp e)) (\<lambda>scheduled_start.
          Inr (p\<lparr>pr_voting_start_time_ns := Some scheduled_start, pr_status := Scheduled\<rparr>))
     else Inr p)"

definition vote ::
  "voting_ext \<Rightarrow> env \<Rightarrow> proposal_id \<Rightarrow> vote_option \<Rightarrow> merkle_proof \<Rightarrow> vaccount \<Rightarrow> voting \<Rightarrow> voting res" where
  "vote X e pid v merkle_proof v_account c0 =
     and_then (voting_assert_not_paused c0) (\<lambda>_.
     and_then (internal_advance_queue e c0) (\<lambda>c.
     and_then (require (attached_deposit e \<noteq> 0) ''Requires attached deposit'') (\<lambda>_.
     and_then (internal_expect_proposal_updated e c pid) (\<lambda>p.
     and_then (if pr_status p = Voting then Inr ()
          else if pr_status p = Sandbox
          then require (v = For) ''Only 'For' votes are allowed during the sandbox period''
          else Inl (Msg ''Proposal is not in the voting phase'')) (\<lambda>_.
     and_then (expect (pr_snapshot_and_state p) ''Snapshot has not been taken yet'') (\<lambda>s.
     and_then (require (is_valid (vx_hasher X) merkle_proof (snap_root (ss_snapshot s))
          (snap_length (ss_snapshot s)) v_account) ''Invalid merkle proof'') (\<lambda>_.
     let account = account_from v_account;
         voter = acc_account_id account
     in and_then (require (voter = predecessor e \<or> predecessor e = current_account e)
          ''Account ID doesn't match the predecessor account ID or self-call.'') (\<lambda>_.
     and_then (total_balance (ss_timestamp_ns s) (ss_venear_growth_config s) account) (\<lambda>weight.
     and_then (require (weight \<noteq> 0) ''Account has no veNEAR balance'') (\<lambda>_.
     let vote_index = vote_option_u8 v;
         previous_vote = vo_votes c (voter, pid)
     in and_then (require (previous_vote \<noteq> Some vote_index) ''Already voted for the same option'') (\<lambda>_.
     let storage_added = (if previous_vote = None then cf_vote_storage_fee (vo_config c) else 0) in
     and_then (withdraw_ballot previous_vote weight p) (\<lambda>p1.
     let c1 = (case previous_vote of None \<Rightarrow> c
         | Some i \<Rightarrow> notify (Proposal_Vote ''remove_vote'' voter pid i weight) c) in
     and_then (cast_ballot vote_index weight p1) (\<lambda>p2.
     and_then (require (storage_added \<le> attached_deposit e) ''Requires deposit of '') (\<lambda>_.
     and_then (near_add storage_added 1) (\<lambda>kept.
     and_then (if kept < attached_deposit e
          then and_then (near_sub (attached_deposit e) kept) (\<lambda>refund.
               Inr (notify (Pay (if predecessor e = current_account e then signer e else predecessor e) refund) c1))
          else Inr c1) (\<lambda>c2.
     let c3 = notify (Proposal_Vote ''add_vote'' voter pid vote_index weight) c2 in
     and_then (graduate X e p2) (\<lambda>p3.
     internal_set_proposal p3 (c3\<lparr>vo_votes := (vo_votes c3)((voter, pid) \<mapsto> vote_index)\<rparr>))))))))))))))))))"

definition get_vote :: "voting \<Rightarrow> account_id \<Rightarrow> proposal_id \<Rightarrow> nat option" where
  "get_vote c account pid = vo_votes c (account, pid)"

definition take_snapshot_and_vote ::
  "env \<Rightarrow> proposal_id \<Rightarrow> vote_payload option \<Rightarrow> voting \<Rightarrow> voting res" where
  "take_snapshot_and_vote e pid v c0 =
     and_then (voting_assert_not_paused c0) (\<lambda>_.
     and_then (internal_advance_queue e c0) (\<lambda>c.
     and_then (internal_expect_proposal_updated e c pid) (\<lambda>p.
     and_then (require (pr_status p = Sandbox \<or> pr_status p = Voting)
          ''Proposal must be in Sandbox or Voting status to take a snapshot'') (\<lambda>_.
     and_then (if v = None
          then and_then (require (pr_snapshot_and_state p = None) ''Snapshot is already set for this proposal'') (\<lambda>_.
               require (attached_deposit e = 0) ''Snapshot-only call must not attach a deposit'')
          else Inr ()) (\<lambda>_.
     let c1 = (if pr_snapshot_and_state p = None
               then notify (Fetch_Snapshot (cf_venear_account_id (vo_config c)) pid) c else c)
     in case v of
          None \<Rightarrow> Inr c1
        | Some payload \<Rightarrow>
            and_then (require (acc_account_id (account_from (vp_v_account payload)) = predecessor e)
              ''v_account does not match the caller'') (\<lambda>_.
            Inr (notify (Chained_Vote pid payload (attached_deposit e)) c1)))))))"

section \<open>Reviewers and council (\<open>reviewer.rs\<close>)\<close>

text \<open>A bond that is still held goes to the treasury.\<close>

definition forfeit_bond :: "proposal \<Rightarrow> voting \<Rightarrow> voting \<times> proposal" where
  "forfeit_bond p c =
     (if 0 < pr_bond_amount p
      then (notify (Pay (cf_treasury_account_id (vo_config c)) (pr_bond_amount p)) c, p\<lparr>pr_bond_amount := 0\<rparr>)
      else (c, p))"

text \<open>The terms of the ballot are fixed when the proposal is approved.\<close>

definition set_terms :: "voting_config \<Rightarrow> majority_type option \<Rightarrow> proposal \<Rightarrow> proposal res" where
  "set_terms cfg majority p =
     (case pr_flow p of
        Classic \<Rightarrow> Inr (p\<lparr>pr_approval_threshold_bps := cf_approval_threshold_bps cfg\<rparr>)
      | FastTrack \<Rightarrow>
          and_then (unwrap majority) (\<lambda>m.
          Inr (p\<lparr>pr_approval_threshold_bps := (case m of
                    Simple \<Rightarrow> cf_simple_majority_threshold_bps cfg | Strong \<Rightarrow> cf_strong_majority_threshold_bps cfg),
                  pr_sandbox_duration_ns := cf_sandbox_duration_ns cfg,
                  pr_sandbox_threshold_bps := cf_sandbox_threshold_bps cfg\<rparr>)))"

definition approve_proposal ::
  "env \<Rightarrow> proposal_id \<Rightarrow> majority_type option \<Rightarrow> voting \<Rightarrow> (voting \<times> proposal_info option) res" where
  "approve_proposal e pid majority c0 =
     and_then (assert_one_yocto e) (\<lambda>_.
     and_then (voting_assert_not_paused c0) (\<lambda>_.
     and_then (assert_called_by_reviewer e c0) (\<lambda>_.
     and_then (internal_advance_queue e c0) (\<lambda>c.
     and_then (internal_expect_proposal_updated e c pid) (\<lambda>p.
     and_then (require (pr_status p = Created) ''Proposal is not in the Created status'') (\<lambda>_.
     and_then (require (\<not> (pr_flow p = FastTrack \<and> majority = None)) ''FastTrack proposals require a majority_type'') (\<lambda>_.
     let c1 = notify (Proposal_Event ''approve_proposal'' (predecessor e) pid) c;
         cfg = vo_config c1;
         p1 = p\<lparr>pr_reviewer_id := Some (predecessor e), pr_approval_time_ns := Some (block_timestamp e),
                pr_quorum_threshold_bps := cf_quorum_threshold_bps cfg, pr_quorum_floor := cf_quorum_floor cfg\<rparr>;
         (c2, p2) = forfeit_bond p1 c1
     in and_then (set_terms cfg majority p2) (\<lambda>p3.
     if length (vo_active_proposals c2) < cf_max_active_proposals cfg
     then and_then (internal_set_proposal (activate (block_timestamp e) p3) c2) (\<lambda>c3.
          Inr (notify (Fetch_Snapshot (cf_venear_account_id cfg) pid) c3, None))
     else and_then (internal_set_proposal (p3\<lparr>pr_status := Queued\<rparr>) c2) (\<lambda>c3.
          let c4 = c3\<lparr>vo_pending_queue := vo_pending_queue c3 @ [pid]\<rparr> in
          and_then (get_proposal e c4 pid) (\<lambda>info. Inr (c4, info)))))))))))"

definition reject_proposal :: "env \<Rightarrow> proposal_id \<Rightarrow> voting \<Rightarrow> voting res" where
  "reject_proposal e pid c =
     and_then (assert_one_yocto e) (\<lambda>_.
     and_then (voting_assert_not_paused c) (\<lambda>_.
     and_then (assert_called_by_reviewer e c) (\<lambda>_.
     and_then (internal_expect_proposal_updated e c pid) (\<lambda>p.
     and_then (require (pr_status p = Created) ''Proposal can only be rejected while in the Created status'') (\<lambda>_.
     internal_set_proposal (p\<lparr>pr_reviewer_id := Some (predecessor e), pr_status := Rejected\<rparr>)
       (notify (Proposal_Event ''reject_proposal'' (predecessor e) pid) c))))))"

definition can_be_vetoed :: "proposal_flow \<Rightarrow> proposal_status \<Rightarrow> bool" where
  "can_be_vetoed flow status =
     (case flow of Classic \<Rightarrow> status = Timelock | FastTrack \<Rightarrow> status = Voting \<or> status = Scheduled)"

definition veto_proposal :: "env \<Rightarrow> proposal_id \<Rightarrow> voting \<Rightarrow> voting res" where
  "veto_proposal e pid c0 =
     and_then (assert_one_yocto e) (\<lambda>_.
     and_then (voting_assert_not_paused c0) (\<lambda>_.
     and_then (assert_called_by_council e c0) (\<lambda>_.
     and_then (internal_advance_queue e c0) (\<lambda>c.
     and_then (internal_expect_proposal_updated e c pid) (\<lambda>p.
     and_then (require (can_be_vetoed (pr_flow p) (pr_status p)) ''Proposal cannot be vetoed in its current state'') (\<lambda>_.
     and_then (internal_set_proposal (p\<lparr>pr_rejecter_id := Some (predecessor e), pr_status := Vetoed\<rparr>)
       (notify (Proposal_Event ''veto_proposal'' (predecessor e) pid) c)) (\<lambda>c1.
     internal_advance_queue e c1)))))))"

definition noveto_proposal :: "env \<Rightarrow> proposal_id \<Rightarrow> voting \<Rightarrow> voting res" where
  "noveto_proposal e pid c =
     and_then (assert_one_yocto e) (\<lambda>_.
     and_then (voting_assert_not_paused c) (\<lambda>_.
     and_then (assert_called_by_council e c) (\<lambda>_.
     and_then (internal_expect_proposal_updated e c pid) (\<lambda>p.
     and_then (require (pr_status p = Timelock) ''Proposal can only be noveto'd during the timelock period'') (\<lambda>_.
     and_then (internal_set_proposal (p\<lparr>pr_status := if has_actions p then Executable else Succeeded\<rparr>)
       (notify (Proposal_Event ''noveto_proposal'' (predecessor e) pid) c)) (\<lambda>c1.
     internal_advance_queue e c1))))))"

definition slash_proposal :: "env \<Rightarrow> proposal_id \<Rightarrow> voting \<Rightarrow> voting res" where
  "slash_proposal e pid c =
     and_then (assert_one_yocto e) (\<lambda>_.
     and_then (voting_assert_not_paused c) (\<lambda>_.
     and_then (assert_called_by_reviewer e c) (\<lambda>_.
     and_then (internal_expect_proposal_updated e c pid) (\<lambda>p.
     and_then (require (pr_flow p = FastTrack) ''Only FastTrack proposals can be slashed'') (\<lambda>_.
     and_then (require (pr_status p = Created) ''Proposal can only be slashed while in Created status'') (\<lambda>_.
     let p1 = p\<lparr>pr_status := Slashed\<rparr>;
         c1 = notify (Proposal_Event ''slash_proposal'' (predecessor e) pid) c;
         (c2, p2) = forfeit_bond p1 c1
     in internal_set_proposal p2 c2))))))"

text \<open>The callback's argument is the result of the promise, \<open>None\<close> if it failed.\<close>

definition on_get_snapshot ::
  "voting_ext \<Rightarrow> env \<Rightarrow> (merkle_tree_snapshot \<times> vglobal_state) option \<Rightarrow> proposal_id \<Rightarrow> voting
     \<Rightarrow> (voting \<times> proposal_info) res" where
  "on_get_snapshot X e result pid c =
     and_then (assert_no_deposit e ''on_get_snapshot'') (\<lambda>_.
     and_then (assert_private e ''on_get_snapshot'') (\<lambda>_.
     and_then (expect result ''Callback computation 0 was not successful'') (\<lambda>(snapshot, v_global).
     and_then (voting_assert_not_paused c) (\<lambda>_.
     and_then (internal_expect_proposal_updated e c pid) (\<lambda>p.
     and_then (require (pr_status p = Sandbox \<or> pr_status p = Voting) ''Proposal must be in Sandbox or Voting status'') (\<lambda>_.
     and_then (require (pr_snapshot_and_state p = None) ''Snapshot is already set for this proposal'') (\<lambda>_.
     and_then (global_state_update (block_timestamp e) (global_from v_global)) (\<lambda>g.
     and_then (pooled_total (total_venear_balance g)) (\<lambda>total.
     let p1 = p\<lparr>pr_snapshot_and_state := Some \<lparr>ss_snapshot = snapshot, ss_timestamp_ns = block_timestamp e,
            ss_total_venear = total, ss_venear_growth_config = growth_config g\<rparr>\<rparr>;
         storage_before = vx_storage_usage X c
     in and_then (internal_set_proposal p1 c) (\<lambda>c1.
     let storage_added = saturating_sub (vx_storage_usage X c1) storage_before in
     and_then (require (storage_added \<le> SNAPSHOT_STORAGE_RESERVE_BYTES) ''Snapshot write exceeded reserved storage'') (\<lambda>_.
     and_then (get_proposal e c1 pid) (\<lambda>r.
     and_then (unwrap r) (\<lambda>info. Inr (c1, info))))))))))))))"

section \<open>Bonds and execution (\<open>bond.rs\<close>, \<open>execute.rs\<close>)\<close>

definition claim_bond :: "env \<Rightarrow> proposal_id \<Rightarrow> voting \<Rightarrow> voting res" where
  "claim_bond e pid c =
     and_then (assert_no_deposit e ''claim_bond'') (\<lambda>_.
     and_then (internal_expect_proposal_updated e c pid) (\<lambda>p.
     and_then (require (pr_flow p = FastTrack) ''Bonds only exist on FastTrack proposals'') (\<lambda>_.
     and_then (require (pr_proposer_id p = predecessor e) ''Only the proposer can claim the bond'') (\<lambda>_.
     and_then (require (0 < pr_bond_amount p) ''No bond to claim'') (\<lambda>_.
     and_then (require (pr_status p \<in> {Expired, Rejected})
          ''Bond can only be claimed from expired or rejected proposals'') (\<lambda>_.
     and_then (internal_set_proposal (p\<lparr>pr_bond_amount := 0\<rparr>) c) (\<lambda>c1.
     Inr (notify (Pay (pr_proposer_id p) (pr_bond_amount p)) c1))))))))"

definition execute_proposal :: "env \<Rightarrow> proposal_id \<Rightarrow> voting \<Rightarrow> voting res" where
  "execute_proposal e pid c0 =
     and_then (assert_no_deposit e ''execute_proposal'') (\<lambda>_.
     and_then (voting_assert_not_paused c0) (\<lambda>_.
     and_then (internal_advance_queue e c0) (\<lambda>c.
     and_then (internal_expect_proposal_updated e c pid) (\<lambda>p.
     and_then (require (pr_status p = Executable) ''Proposal is not in Executable status'') (\<lambda>_.
     and_then (unwrap (pr_actions p)) (\<lambda>actions.
     and_then (unwrap (if actions = [] then None else Some ())) (\<lambda>_.
     let c1 = notify (Proposal_Event ''execute_proposal'' (predecessor e) pid) c in
     and_then (internal_set_proposal (p\<lparr>pr_status := InProgress\<rparr>) c1) (\<lambda>c2.
     Inr (notify (Run_Actions pid actions) c2)))))))))"

text \<open>\<open>results\<close> says of each promise result whether it is a success.\<close>

definition on_execute_proposal :: "env \<Rightarrow> bool list \<Rightarrow> proposal_id \<Rightarrow> voting \<Rightarrow> voting res" where
  "on_execute_proposal e results pid c0 =
     and_then (assert_no_deposit e ''on_execute_proposal'') (\<lambda>_.
     and_then (assert_private e ''on_execute_proposal'') (\<lambda>_.
     and_then (internal_advance_queue e c0) (\<lambda>c.
     and_then (internal_expect_proposal_updated e c pid) (\<lambda>p.
     let all_succeeded = list_all (\<lambda>r. r) results;
         p1 = p\<lparr>pr_status := if all_succeeded then Succeeded else Failed\<rparr>
     in internal_set_proposal p1 (notify (Execute_Result pid all_succeeded) c)))))"

section \<open>Governance and upgrade (\<open>governance.rs\<close>, \<open>upgrade.rs\<close>)\<close>

definition configured_by_owner :: "env \<Rightarrow> (voting_config \<Rightarrow> voting_config) \<Rightarrow> voting \<Rightarrow> voting res" where
  "configured_by_owner e f c =
     and_then (assert_one_yocto e) (\<lambda>_.
     and_then (voting_assert_owner e c) (\<lambda>_. Inr (c\<lparr>vo_config := f (vo_config c)\<rparr>)))"

text \<open>A duration argument is a \<open>u32\<close> number of seconds; the product with \<open>10 ^ 9\<close> is a \<open>u64\<close>.\<close>

definition duration_by_owner :: "env \<Rightarrow> nat \<Rightarrow> (nat \<Rightarrow> voting_config \<Rightarrow> voting_config) \<Rightarrow> voting \<Rightarrow> voting res" where
  "duration_by_owner e sec f c =
     and_then (assert_one_yocto e) (\<lambda>_.
     and_then (voting_assert_owner e c) (\<lambda>_.
     and_then (mul_u 64 sec (10 ^ 9)) (\<lambda>ns. Inr (c\<lparr>vo_config := f ns (vo_config c)\<rparr>))))"

definition set_venear_account_id :: "env \<Rightarrow> account_id \<Rightarrow> voting \<Rightarrow> voting res" where
  "set_venear_account_id e x = configured_by_owner e (\<lambda>g. g\<lparr>cf_venear_account_id := x\<rparr>)"

definition set_reviewer_ids :: "env \<Rightarrow> account_id list \<Rightarrow> voting \<Rightarrow> voting res" where
  "set_reviewer_ids e xs = configured_by_owner e (\<lambda>g. g\<lparr>cf_reviewer_ids := xs\<rparr>)"

definition set_classic_voting_duration :: "env \<Rightarrow> nat \<Rightarrow> voting \<Rightarrow> voting res" where
  "set_classic_voting_duration e sec = duration_by_owner e sec (\<lambda>n g. g\<lparr>cf_classic_voting_duration_ns := n\<rparr>)"

definition set_fast_track_voting_duration :: "env \<Rightarrow> nat \<Rightarrow> voting \<Rightarrow> voting res" where
  "set_fast_track_voting_duration e sec = duration_by_owner e sec (\<lambda>n g. g\<lparr>cf_fast_track_voting_duration_ns := n\<rparr>)"

definition set_base_proposal_fee :: "env \<Rightarrow> nat \<Rightarrow> voting \<Rightarrow> voting res" where
  "set_base_proposal_fee e x = configured_by_owner e (\<lambda>g. g\<lparr>cf_base_proposal_fee := x\<rparr>)"

definition voting_propose_new_owner_account_id :: "env \<Rightarrow> account_id option \<Rightarrow> voting \<Rightarrow> voting res" where
  "voting_propose_new_owner_account_id e x = configured_by_owner e (\<lambda>g. g\<lparr>cf_proposed_new_owner_account_id := x\<rparr>)"

definition voting_accept_ownership :: "env \<Rightarrow> voting \<Rightarrow> voting res" where
  "voting_accept_ownership e c =
     and_then (assert_one_yocto e) (\<lambda>_.
     and_then (require (cf_proposed_new_owner_account_id (vo_config c) = Some (predecessor e))
          ''Only the proposed new owner can call this method'') (\<lambda>_.
     Inr (c\<lparr>vo_config := (vo_config c)\<lparr>cf_owner_account_id := predecessor e,
            cf_proposed_new_owner_account_id := None\<rparr>\<rparr>)))"

definition voting_set_guardians :: "env \<Rightarrow> account_id list \<Rightarrow> voting \<Rightarrow> voting res" where
  "voting_set_guardians e xs = configured_by_owner e (\<lambda>g. g\<lparr>cf_guardians := xs\<rparr>)"

definition set_council_ids :: "env \<Rightarrow> account_id list \<Rightarrow> voting \<Rightarrow> voting res" where
  "set_council_ids e xs = configured_by_owner e (\<lambda>g. g\<lparr>cf_council_ids := xs\<rparr>)"

definition set_timelock_duration :: "env \<Rightarrow> nat \<Rightarrow> voting \<Rightarrow> voting res" where
  "set_timelock_duration e sec = duration_by_owner e sec (\<lambda>n g. g\<lparr>cf_timelock_duration_ns := n\<rparr>)"

definition set_classic_proposal_expiration :: "env \<Rightarrow> nat \<Rightarrow> voting \<Rightarrow> voting res" where
  "set_classic_proposal_expiration e sec =
     duration_by_owner e sec (\<lambda>n g. g\<lparr>cf_classic_proposal_expiration_ns := n\<rparr>)"

definition set_fast_track_proposal_expiration :: "env \<Rightarrow> nat \<Rightarrow> voting \<Rightarrow> voting res" where
  "set_fast_track_proposal_expiration e sec =
     duration_by_owner e sec (\<lambda>n g. g\<lparr>cf_fast_track_proposal_expiration_ns := n\<rparr>)"

definition set_quorum_threshold_bps :: "env \<Rightarrow> bps \<Rightarrow> voting \<Rightarrow> voting res" where
  "set_quorum_threshold_bps e x = configured_by_owner e (\<lambda>g. g\<lparr>cf_quorum_threshold_bps := x\<rparr>)"

definition set_quorum_floor :: "env \<Rightarrow> nat \<Rightarrow> voting \<Rightarrow> voting res" where
  "set_quorum_floor e x = configured_by_owner e (\<lambda>g. g\<lparr>cf_quorum_floor := x\<rparr>)"

definition set_approval_threshold_bps :: "env \<Rightarrow> bps \<Rightarrow> voting \<Rightarrow> voting res" where
  "set_approval_threshold_bps e x = configured_by_owner e (\<lambda>g. g\<lparr>cf_approval_threshold_bps := x\<rparr>)"

definition set_bond_amount :: "env \<Rightarrow> nat \<Rightarrow> voting \<Rightarrow> voting res" where
  "set_bond_amount e x = configured_by_owner e (\<lambda>g. g\<lparr>cf_bond_amount := x\<rparr>)"

definition set_treasury_account_id :: "env \<Rightarrow> account_id \<Rightarrow> voting \<Rightarrow> voting res" where
  "set_treasury_account_id e x = configured_by_owner e (\<lambda>g. g\<lparr>cf_treasury_account_id := x\<rparr>)"

definition set_simple_majority_threshold_bps :: "env \<Rightarrow> bps \<Rightarrow> voting \<Rightarrow> voting res" where
  "set_simple_majority_threshold_bps e x = configured_by_owner e (\<lambda>g. g\<lparr>cf_simple_majority_threshold_bps := x\<rparr>)"

definition set_strong_majority_threshold_bps :: "env \<Rightarrow> bps \<Rightarrow> voting \<Rightarrow> voting res" where
  "set_strong_majority_threshold_bps e x = configured_by_owner e (\<lambda>g. g\<lparr>cf_strong_majority_threshold_bps := x\<rparr>)"

definition set_sandbox_duration :: "env \<Rightarrow> nat \<Rightarrow> voting \<Rightarrow> voting res" where
  "set_sandbox_duration e sec = duration_by_owner e sec (\<lambda>n g. g\<lparr>cf_sandbox_duration_ns := n\<rparr>)"

definition set_sandbox_threshold_bps :: "env \<Rightarrow> bps \<Rightarrow> voting \<Rightarrow> voting res" where
  "set_sandbox_threshold_bps e x = configured_by_owner e (\<lambda>g. g\<lparr>cf_sandbox_threshold_bps := x\<rparr>)"

definition set_max_active_proposals :: "env \<Rightarrow> nat \<Rightarrow> voting \<Rightarrow> voting res" where
  "set_max_active_proposals e n c =
     and_then (assert_one_yocto e) (\<lambda>_.
     and_then (voting_assert_owner e c) (\<lambda>_.
     and_then (require (0 < n) ''max_active_proposals must be greater than 0'') (\<lambda>_.
     internal_advance_queue e (c\<lparr>vo_config := (vo_config c)\<lparr>cf_max_active_proposals := n\<rparr>\<rparr>))))"

definition voting_migrate_state :: "env \<Rightarrow> voting \<Rightarrow> voting res" where
  "voting_migrate_state e c =
     and_then (assert_no_deposit e ''migrate_state'') (\<lambda>_.
     and_then (assert_private e ''migrate_state'') (\<lambda>_. Inr c))"

definition voting_upgrade :: "env \<Rightarrow> byte list \<Rightarrow> voting \<Rightarrow> voting res" where
  "voting_upgrade e code c = and_then (voting_assert_owner e c) (\<lambda>_. Inr (notify (Upgrade_Code code) c))"

end
