(* ===== verification/Voting_Queue.thy ===== *)
theory Voting_Queue
  imports Voting "HOL-Library.Multiset"
begin

text \<open>
  The scheduler of the voting contract. The invariant \<open>queue_inv\<close> ties the three structures of the
  state together: the proposal stored under an index carries that index and is well formed;
  the active set holds exactly the proposals with an active status; the pending queue holds
  exactly the queued ones, each once. \<open>advances\<close> is the abstract specification of
  \<open>internal_advance_queue\<close>: which proposals are brought up to date, which prefix of the queue is
  promoted, at which times the promoted ones start, and that promotion fills the free slots and no more. The start times are
  those of an abstract priority queue: a multiset of the times at which slots became free, of which each promoted proposal takes
  the least (\<open>seated\<close>); the code keeps a sorted list. The code implements it (\<open>advance_effect\<close>), and the views compute the state that the next advance will store.
\<close>

section \<open>Invariant\<close>

definition stored :: "voting \<Rightarrow> proposal_id \<Rightarrow> proposal option" where
  "stored c i = (if i < length (vo_proposals c)
     then case proposal_from (vo_proposals c ! i) of Inl _ \<Rightarrow> None | Inr p \<Rightarrow> Some p else None)"

definition ids_ok :: "voting \<Rightarrow> bool" where
  "ids_ok c \<longleftrightarrow> (\<forall>i < length (vo_proposals c). \<exists>p. stored c i = Some p \<and> pr_id p = i \<and> life_ok p)"

definition slots_ok :: "voting \<Rightarrow> bool" where
  "slots_ok c \<longleftrightarrow> distinct (vo_active_proposals c)
     \<and> (\<forall>i. i \<in> set (vo_active_proposals c) \<longleftrightarrow> (\<exists>p. stored c i = Some p \<and> is_active_status (pr_status p)))"

definition line_ok :: "voting \<Rightarrow> bool" where
  "line_ok c \<longleftrightarrow> distinct (vo_pending_queue c)
     \<and> (\<forall>i. i \<in> set (vo_pending_queue c) \<longleftrightarrow> (\<exists>p. stored c i = Some p \<and> pr_status p = Queued))"

definition queue_inv :: "voting \<Rightarrow> bool" where
  "queue_inv c \<longleftrightarrow> ids_ok c \<and> slots_ok c \<and> line_ok c"

text \<open>What the scheduler does not touch.\<close>

definition same_ledger :: "voting \<Rightarrow> voting \<Rightarrow> bool" where
  "same_ledger c c' \<longleftrightarrow> vo_config c' = vo_config c \<and> vo_metadata c' = vo_metadata c \<and> vo_votes c' = vo_votes c
     \<and> vo_paused c' = vo_paused c \<and> vo_outbox c' = vo_outbox c
     \<and> length (vo_proposals c') = length (vo_proposals c)"

lemma same_ledger_refl [simp]: "same_ledger c c"
  by (simp add: same_ledger_def)

lemma same_ledger_trans: "same_ledger a b \<Longrightarrow> same_ledger b c \<Longrightarrow> same_ledger a c"
  by (simp add: same_ledger_def)

lemma stored_cong: "vo_proposals c' = vo_proposals c \<Longrightarrow> stored c' = stored c"
  by (rule ext) (simp add: stored_def)

lemma stored_less: "stored c i = Some p \<Longrightarrow> i < length (vo_proposals c)"
  by (auto simp: stored_def split: if_splits)

lemma ids_ok_stored:
  assumes "ids_ok c" and "stored c i = Some p"
  shows "pr_id p = i" and "life_ok p"
  using assms stored_less [OF assms(2)] by (auto simp: ids_ok_def)

lemma queue_inv_cong:
  assumes "vo_proposals c' = vo_proposals c" "vo_active_proposals c' = vo_active_proposals c"
    "vo_pending_queue c' = vo_pending_queue c"
  shows "queue_inv c' \<longleftrightarrow> queue_inv c"
  using assms by (simp add: queue_inv_def ids_ok_def slots_ok_def line_ok_def stored_cong [OF assms(1)])

lemma notify_simps [simp]:
  "vo_proposals (notify x c) = vo_proposals c" "vo_active_proposals (notify x c) = vo_active_proposals c"
  "vo_pending_queue (notify x c) = vo_pending_queue c" "vo_config (notify x c) = vo_config c"
  "vo_votes (notify x c) = vo_votes c" "vo_metadata (notify x c) = vo_metadata c" "vo_paused (notify x c) = vo_paused c"
  "vo_outbox (notify x c) = vo_outbox c @ [x]" "stored (notify x c) = stored c" "queue_inv (notify x c) = queue_inv c"
proof -
  show "stored (notify x c) = stored c" by (rule stored_cong) (simp add: notify_def)
  show "queue_inv (notify x c) = queue_inv c" by (rule queue_inv_cong) (simp_all add: notify_def)
qed (simp_all add: notify_def)

section \<open>Writing proposals\<close>

lemma iterable_remove_set:
  assumes "distinct xs"
  shows "set (iterable_remove x xs) = set xs - {x} \<and> distinct (iterable_remove x xs)"
proof (cases "x \<in> set xs")
  case True
  then obtain ys zs where xs: "xs = ys @ x # zs" and y: "x \<notin> set ys" by (metis split_list_first)
  then have "takeWhile (\<lambda>y. y \<noteq> x) xs = ys" "tl (dropWhile (\<lambda>y. y \<noteq> x) xs) = zs"
    by (auto simp: takeWhile_append dropWhile_append)
  then have r: "iterable_remove x xs = (if zs = [] then ys else ys @ last zs # butlast zs)"
    by (simp add: iterable_remove_def Let_def)
  show ?thesis
  proof (cases "zs = []")
    case False
    then obtain ws z where "zs = ws @ [z]" by (metis rev_exhaust)
    with assms y xs show ?thesis unfolding r by auto
  qed (use r xs y assms in auto)
next
  case False
  then have "takeWhile (\<lambda>y. y \<noteq> x) xs = xs" "dropWhile (\<lambda>y. y \<noteq> x) xs = []"
    by (auto simp: takeWhile_eq_all_conv dropWhile_eq_Nil_conv)
  then have "iterable_remove x xs = xs" unfolding iterable_remove_def Let_def by (simp only: list.sel if_P [OF refl])
  then show ?thesis using assms False by simp
qed

lemma set_proposal_effect:
  assumes "internal_set_proposal p c = Inr c'" and "slots_ok c"
  shows "stored c' = (stored c)(pr_id p \<mapsto> p)" and "slots_ok c'" and "same_ledger c c'"
    and "vo_pending_queue c' = vo_pending_queue c" and "pr_id p < length (vo_proposals c)"
proof -
  let ?i = "pr_id p"
  obtain ac where c': "c' = c\<lparr>vo_active_proposals := ac, vo_proposals := (vo_proposals c)[?i := VProposal_Current p]\<rparr>"
    and i: "?i < length (vo_proposals c)"
    and ac: "ac = (if ?i \<notin> set (vo_active_proposals c) \<and> is_active_status (pr_status p) then vo_active_proposals c @ [?i]
      else if ?i \<in> set (vo_active_proposals c) \<and> \<not> is_active_status (pr_status p)
      then iterable_remove ?i (vo_active_proposals c) else vo_active_proposals c)"
    using assms(1) by (auto simp: internal_set_proposal_def Let_def res_simps split: if_splits)
  show s: "stored c' = (stored c)(?i \<mapsto> p)"
    using i by (auto simp: c' stored_def fun_eq_iff nth_list_update)
  show "same_ledger c c'" "vo_pending_queue c' = vo_pending_queue c" by (simp_all add: c' same_ledger_def)
  show "?i < length (vo_proposals c)" by (rule i)
  have d: "distinct (vo_active_proposals c)" using assms(2) by (simp add: slots_ok_def)
  have "distinct ac \<and> set ac = (if is_active_status (pr_status p) then insert ?i (set (vo_active_proposals c))
      else set (vo_active_proposals c) - {?i})"
    using d iterable_remove_set [OF d, of ?i] by (auto simp: ac)
  then have "distinct (vo_active_proposals c')"
    "\<And>k. k \<in> set (vo_active_proposals c') \<longleftrightarrow> (if k = ?i then is_active_status (pr_status p) else k \<in> set (vo_active_proposals c))"
    by (auto simp: c')
  then show "slots_ok c'" using assms(2) by (simp add: slots_ok_def s)
qed

definition as_map :: "proposal list \<Rightarrow> proposal_id \<rightharpoonup> proposal" where
  "as_map ps = map_of (rev (map (\<lambda>p. (pr_id p, p)) ps))"

lemma as_map_Nil [simp]: "as_map [] = Map.empty"
  by (simp add: as_map_def)

lemma as_map_None: "as_map ps i = None \<longleftrightarrow> i \<notin> pr_id ` set ps"
  by (simp add: as_map_def map_of_eq_None_iff image_image)

lemma as_map_Some: "as_map ps i = Some p \<Longrightarrow> p \<in> set ps \<and> pr_id p = i"
  by (auto simp: as_map_def dest: map_of_SomeD)

lemma set_all_effect:
  assumes "for_each internal_set_proposal ps c = Inr c'" and "slots_ok c"
  shows "stored c' = stored c ++ as_map ps \<and> slots_ok c' \<and> same_ledger c c' \<and> vo_pending_queue c' = vo_pending_queue c"
  using assms
proof (induction ps arbitrary: c)
  case (Cons p ps)
  from Cons.prems(1) obtain c1 where 1: "internal_set_proposal p c = Inr c1" "for_each internal_set_proposal ps c1 = Inr c'"
    by (auto simp: and_then_eq_Inr)
  note e = set_proposal_effect [OF 1(1) Cons.prems(2)]
  have m: "(stored c)(pr_id p \<mapsto> p) ++ as_map ps = stored c ++ as_map (p # ps)"
    by (simp add: as_map_def map_of_append map_add_assoc [symmetric] map_add_def fun_eq_iff split: option.split)
  have "same_ledger c c'" using Cons.IH [OF 1(2) e(2)] same_ledger_trans [OF e(3)] by simp
  then show ?case using Cons.IH [OF 1(2) e(2)] e(4) by (simp only: e(1) m)
qed simp

section \<open>Reading proposals\<close>

text \<open>The proposal under an index, brought up to date.\<close>

definition fresh :: "env \<Rightarrow> voting \<Rightarrow> proposal_id \<Rightarrow> proposal option" where
  "fresh e c i = (case stored c i of None \<Rightarrow> None
     | Some p \<Rightarrow> (case update_proposal (block_timestamp e) p of Inl _ \<Rightarrow> None | Inr p' \<Rightarrow> Some p'))"

lemma fresh_eq: "fresh e c i = Some p' \<longleftrightarrow> (\<exists>p. stored c i = Some p \<and> update_proposal (block_timestamp e) p = Inr p')"
  by (auto simp: fresh_def split: option.splits sum.splits)

lemma get_proposal_eq:
  "internal_get_proposal e c i = Inr (Some (p', b)) \<longleftrightarrow>
     (\<exists>p. stored c i = Some p \<and> update_proposal (block_timestamp e) p = Inr p' \<and> b = (pr_status p' \<noteq> pr_status p))"
  by (auto simp: internal_get_proposal_def stored_def and_then_eq_Inr split: sum.splits if_splits)

lemma expect_updated_eq:
  "internal_expect_proposal_updated e c i = Inr p' \<longleftrightarrow> fresh e c i = Some p'"
proof
  assume "internal_expect_proposal_updated e c i = Inr p'"
  then obtain b where "internal_get_proposal e c i = Inr (Some (p', b))"
    by (auto simp: internal_expect_proposal_updated_def and_then_eq_Inr expect_eq_Inr)
  then show "fresh e c i = Some p'" by (auto simp: get_proposal_eq fresh_eq)
next
  assume "fresh e c i = Some p'"
  then obtain b where "internal_get_proposal e c i = Inr (Some (p', b))"
    unfolding fresh_eq using get_proposal_eq by blast
  then show "internal_expect_proposal_updated e c i = Inr p'" by (simp add: internal_expect_proposal_updated_def)
qed

section \<open>Advancing the queue\<close>

definition moved :: "env \<Rightarrow> voting \<Rightarrow> proposal_id \<Rightarrow> bool" where
  "moved e c i \<longleftrightarrow> pr_status (the (fresh e c i)) \<noteq> pr_status (the (stored c i))"

definition stays_active :: "env \<Rightarrow> voting \<Rightarrow> proposal_id \<Rightarrow> bool" where
  "stays_active e c i \<longleftrightarrow> is_active_status (pr_status (the (fresh e c i)))"

abbreviation count_active :: "proposal list \<Rightarrow> nat" where
  "count_active ps \<equiv> length (filter (\<lambda>p. is_active_status (pr_status p)) ps)"

text \<open>The end of the slot of a proposal: the end of its ballot, with the timelock if it passed, or of its sandbox.\<close>

definition slot_end :: "proposal \<Rightarrow> nat" where
  "slot_end p = (case pr_flow p of
     Classic \<Rightarrow> the (pr_voting_start_time_ns p) + pr_voting_duration_ns p
       + (if compute_final_status p = Inr Succeeded then pr_timelock_duration_ns p else 0)
   | FastTrack \<Rightarrow> (case pr_voting_start_time_ns p of
       Some t \<Rightarrow> t + pr_voting_duration_ns p
     | None \<Rightarrow> the (pr_sandbox_start_time_ns p) + pr_sandbox_duration_ns p))"

lemma active_end_slot: "active_end_time_ns p = Inr t \<Longrightarrow> t = slot_end p"
  by (auto simp: active_end_time_ns_def slot_end_def res_simps split: proposal_flow.splits option.splits if_splits)

lemma insert_slot_time_simps [simp]:
  "insert_slot_time t [] = [t]" "insert_slot_time t (x # xs) = (if x < t then x # insert_slot_time t xs else t # x # xs)"
  by (simp_all add: insert_slot_time_def)

lemma mset_insert_slot_time [simp]: "mset (insert_slot_time t ts) = add_mset t (mset ts)"
  by (induction ts) simp_all

lemma insert_slot_time_set: "set (insert_slot_time t ts) = insert t (set ts)"
  by (induction ts) auto

lemma sorted_insert_slot_time: "sorted ts \<Longrightarrow> sorted (insert_slot_time t ts)"
  by (induction ts) (auto simp: insert_slot_time_set)

text \<open>The times at which the slots became free that the active proposals leave.\<close>

definition freed_slots :: "env \<Rightarrow> voting \<Rightarrow> nat multiset" where
  "freed_slots e c = image_mset (\<lambda>i. slot_end (the (fresh e c i))) (mset (filter (\<lambda>i. \<not> stays_active e c i) (vo_active_proposals c)))"

lemma scan_active_step:
  assumes "scan_active e c i (us, n, fr) = Inr (us', n', fr')"
  shows "fresh e c i \<noteq> None \<and> us' = us @ (if moved e c i then [the (fresh e c i)] else [])
    \<and> n' = n + (if stays_active e c i then 1 else 0)
    \<and> fr' = (if moved e c i \<and> \<not> stays_active e c i then insert_slot_time (slot_end (the (fresh e c i))) fr else fr)"
proof -
  obtain p' b where g: "internal_get_proposal e c i = Inr (Some (p', b))"
    using assms by (auto simp: scan_active_def and_then_eq_Inr expect_eq_Inr)
  then obtain p where p: "stored c i = Some p" "update_proposal (block_timestamp e) p = Inr p'" "b = (pr_status p' \<noteq> pr_status p)"
    by (auto simp: get_proposal_eq)
  then have "fresh e c i = Some p'" by (simp add: fresh_def)
  then show ?thesis
    using assms g p
    by (auto simp: scan_active_def moved_def stays_active_def res_simps split: if_splits dest!: active_end_slot)
qed

lemma scan_effect:
  assumes "for_each (scan_active e c) ids (us, n, fr) = Inr (us', n', fr')"
  shows "(\<forall>i \<in> set ids. fresh e c i \<noteq> None) \<and> us' = us @ map (\<lambda>i. the (fresh e c i)) (filter (moved e c) ids)
    \<and> n' = n + length (filter (stays_active e c) ids) \<and> (sorted fr \<longrightarrow> sorted fr')
    \<and> mset fr' = mset fr + image_mset (\<lambda>i. slot_end (the (fresh e c i))) (mset (filter (\<lambda>i. moved e c i \<and> \<not> stays_active e c i) ids))"
  using assms
proof (induction ids arbitrary: us n fr)
  case (Cons i ids)
  from Cons.prems obtain us1 n1 fr1 where 1: "scan_active e c i (us, n, fr) = Inr (us1, n1, fr1)"
    "for_each (scan_active e c) ids (us1, n1, fr1) = Inr (us', n', fr')"
    by (auto simp: and_then_eq_Inr)
  from scan_active_step [OF 1(1)] Cons.IH [OF 1(2)] sorted_insert_slot_time show ?case by simp
qed simp

text \<open>
  The first proposals of the queue take the slots: each starts at the earliest time at which a slot became free, or now if no slot
  became free, and is brought up to date; if its time is over by then it frees its slot again at the end of it.
\<close>

fun seated :: "env \<Rightarrow> voting \<Rightarrow> nat multiset \<Rightarrow> proposal_id list \<Rightarrow> proposal list \<Rightarrow> bool" where
  "seated e c F [] ps \<longleftrightarrow> ps = []"
| "seated e c F (i # is) ps \<longleftrightarrow> (\<exists>p p' qs. ps = p' # qs \<and> stored c i = Some p
     \<and> (let t = (if F = {#} then block_timestamp e else Min_mset F)
        in update_proposal (block_timestamp e) (activate t p) = Inr p'
         \<and> seated e c (F - {#t#} + (if is_active_status (pr_status p') then {#} else {#slot_end p'#})) is qs))"

text \<open>What the invariants need of it: a queued proposal that got a slot starts at some time and is brought up to date.\<close>

definition promoted :: "env \<Rightarrow> voting \<Rightarrow> proposal_id \<Rightarrow> proposal \<Rightarrow> bool" where
  "promoted e c i p' \<longleftrightarrow> (\<exists>p t. stored c i = Some p \<and> update_proposal (block_timestamp e) (activate t p) = Inr p')"

lemma promote_effect:
  assumes "promote_queue e c ids n fr acc = Inr ps"
    and "\<forall>i \<in> set ids. \<exists>p. stored c i = Some p \<and> pr_status p = Queued"
  shows "\<exists>k new. ps = acc @ new \<and> k \<le> length ids \<and> list_all2 (promoted e c) (take k ids) new
    \<and> (sorted fr \<longrightarrow> seated e c (mset fr) (take k ids) new)
    \<and> n + count_active new \<le> max n (cf_max_active_proposals (vo_config c))
    \<and> (k < length ids \<longrightarrow> cf_max_active_proposals (vo_config c) \<le> n + count_active new)
    \<and> (0 < k \<longrightarrow> n < cf_max_active_proposals (vo_config c))"
  using assms
proof (induction ids arbitrary: n fr acc)
  case Nil
  then show ?case by auto
next
  case (Cons i ids)
  let ?max = "cf_max_active_proposals (vo_config c)"
  show ?case
  proof (cases "?max \<le> n")
    case True
    then show ?thesis using Cons.prems by (intro exI [of _ 0] exI [of _ "[]"]) auto
  next
    case False
    obtain p where p: "stored c i = Some p" "pr_status p = Queued" using Cons.prems(2) by auto
    then have "fresh e c i = Some p" by (simp add: fresh_def update_inert)
    then have x: "internal_expect_proposal_updated e c i = Inr p" by (simp add: expect_updated_eq)
    define t where "t = (case fr of [] \<Rightarrow> block_timestamp e | t # ts \<Rightarrow> t)"
    define fr1 where "fr1 = (case fr of [] \<Rightarrow> [] | t # ts \<Rightarrow> ts)"
    have tf: "(case fr of [] \<Rightarrow> (block_timestamp e, []) | t # ts \<Rightarrow> (t, ts)) = (t, fr1)"
      by (simp add: t_def fr1_def split: list.split)
    obtain p' where p': "update_proposal (block_timestamp e) (activate t p) = Inr p'"
      using Cons.prems(1) False by (auto simp: x tf and_then_eq_Inr)
    let ?d = "if is_active_status (pr_status p') then 1 else 0"
    define fr2 where "fr2 = (if is_active_status (pr_status p') then fr1 else insert_slot_time (slot_end p') fr1)"
    have "promote_queue e c ids (n + ?d) fr2 (acc @ [p']) = Inr ps"
      using Cons.prems(1) False by (auto simp: x tf p' fr2_def res_simps split: if_splits dest!: active_end_slot)
    from Cons.IH [OF this] Cons.prems(2) obtain k new where
      k: "ps = (acc @ [p']) @ new" "k \<le> length ids" "list_all2 (promoted e c) (take k ids) new"
        "sorted fr2 \<longrightarrow> seated e c (mset fr2) (take k ids) new"
        "n + ?d + count_active new \<le> max (n + ?d) ?max" "k < length ids \<longrightarrow> ?max \<le> n + ?d + count_active new"
      by auto
    have "promoted e c i p'" using p p' by (auto simp: promoted_def)
    moreover have "seated e c (mset fr) (take (Suc k) (i # ids)) (p' # new)" if s: "sorted fr"
    proof -
      have t: "t = (if mset fr = {#} then block_timestamp e else Min_mset (mset fr))"
        using s by (cases fr) (auto simp: t_def intro!: Min_eqI [symmetric])
      have "mset fr - {#t#} = mset fr1" by (cases fr) (simp_all add: t_def fr1_def)
      then have m: "mset fr - {#t#} + (if is_active_status (pr_status p') then {#} else {#slot_end p'#}) = mset fr2"
        by (simp add: fr2_def)
      have "sorted fr1" using s by (cases fr) (simp_all add: fr1_def)
      then have "sorted fr2" by (simp add: fr2_def sorted_insert_slot_time)
      with k(4) have rest: "seated e c (mset fr2) (take k ids) new" by blast
      show ?thesis unfolding take_Suc_Cons seated.simps(2) t [symmetric] Let_def
        by (rule exI [of _ p], rule exI [of _ p'], rule exI [of _ new]) (simp only: rest m p(1) p' refl simp_thms)
    qed
    moreover from calculation(1) k(3) have "list_all2 (promoted e c) (take (Suc k) (i # ids)) (p' # new)" by simp
    ultimately show ?thesis using k False
      by (intro exI [of _ "Suc k"] exI [of _ "p' # new"]) (auto simp del: seated.simps take_Suc_Cons)
  qed
qed

lemma compute_effect:
  assumes "compute_queue_advance e c = Inr out" and "queue_inv c"
  shows "(\<forall>i \<in> set (vo_active_proposals c). fresh e c i \<noteq> None)
    \<and> qo_active_updates out = map (\<lambda>i. the (fresh e c i)) (filter (moved e c) (vo_active_proposals c))
    \<and> (\<exists>k \<le> length (vo_pending_queue c). list_all2 (promoted e c) (take k (vo_pending_queue c)) (qo_queue_promotions out)
      \<and> seated e c (freed_slots e c) (take k (vo_pending_queue c)) (qo_queue_promotions out)
      \<and> length (filter (stays_active e c) (vo_active_proposals c)) + count_active (qo_queue_promotions out)
          \<le> max (length (filter (stays_active e c) (vo_active_proposals c))) (cf_max_active_proposals (vo_config c))
      \<and> (k < length (vo_pending_queue c) \<longrightarrow> cf_max_active_proposals (vo_config c)
          \<le> length (filter (stays_active e c) (vo_active_proposals c)) + count_active (qo_queue_promotions out))
      \<and> (0 < k \<longrightarrow> length (filter (stays_active e c) (vo_active_proposals c)) < cf_max_active_proposals (vo_config c)))"
proof -
  obtain us n fr where s: "for_each (scan_active e c) (vo_active_proposals c) ([], 0, []) = Inr (us, n, fr)"
    and p: "promote_queue e c (vo_pending_queue c) n fr [] = Inr (qo_queue_promotions out)" "qo_active_updates out = us"
    using assms(1) by (auto simp: compute_queue_advance_def and_then_eq_Inr)
  have q: "\<forall>i \<in> set (vo_pending_queue c). \<exists>p. stored c i = Some p \<and> pr_status p = Queued"
    using assms(2) by (simp add: queue_inv_def line_ok_def)
  have "\<not> stays_active e c i \<Longrightarrow> moved e c i" if "i \<in> set (vo_active_proposals c)" for i
    using that assms(2) by (auto simp: queue_inv_def slots_ok_def moved_def stays_active_def)
  then have "filter (\<lambda>i. moved e c i \<and> \<not> stays_active e c i) (vo_active_proposals c) = filter (\<lambda>i. \<not> stays_active e c i) (vo_active_proposals c)"
    by (intro filter_cong) auto
  then have "sorted fr" "mset fr = freed_slots e c" using scan_effect [OF s] by (simp_all add: freed_slots_def)
  with promote_effect [OF p(1) q] scan_effect [OF s] p(2) show ?thesis by auto
qed

text \<open>
  The specification of an advance by \<open>k\<close> promotions: the first \<open>k\<close> queued proposals get a slot in
  the order of the queue, with the start times of \<open>seated\<close>, the active ones are brought up to date, and nothing else changes.
  Promotion stops when all slots are taken and not earlier.
\<close>

definition advances :: "env \<Rightarrow> voting \<Rightarrow> voting \<Rightarrow> nat \<Rightarrow> bool" where
  "advances e c c' k \<longleftrightarrow>
     k \<le> length (vo_pending_queue c) \<and> vo_pending_queue c' = drop k (vo_pending_queue c) \<and> same_ledger c c'
   \<and> (\<exists>ps. seated e c (freed_slots e c) (take k (vo_pending_queue c)) ps \<and> map (stored c') (take k (vo_pending_queue c)) = map Some ps)
   \<and> (\<forall>i \<in> set (vo_active_proposals c). \<exists>p'. stored c' i = Some p' \<and> fresh e c i = Some p')
   \<and> (\<forall>i. i \<notin> set (take k (vo_pending_queue c)) \<longrightarrow> i \<notin> set (vo_active_proposals c) \<longrightarrow> stored c' i = stored c i)
   \<and> (0 < k \<longrightarrow> length (vo_active_proposals c') \<le> cf_max_active_proposals (vo_config c))
   \<and> (k = 0 \<longrightarrow> set (vo_active_proposals c') \<subseteq> set (vo_active_proposals c))
   \<and> (k < length (vo_pending_queue c) \<longrightarrow> cf_max_active_proposals (vo_config c) \<le> length (vo_active_proposals c'))"

lemma seated_promoted: "seated e c F is ps \<Longrightarrow> list_all2 (promoted e c) is ps"
  by (induction e c F "is" ps rule: seated.induct) (auto simp: Let_def promoted_def)

lemma advances_promoted:
  assumes "advances e c c' k" and "i \<in> set (take k (vo_pending_queue c))"
  shows "\<exists>p'. stored c' i = Some p' \<and> promoted e c i p'"
proof -
  obtain ps where ps: "list_all2 (promoted e c) (take k (vo_pending_queue c)) ps" "map (stored c') (take k (vo_pending_queue c)) = map Some ps"
    using assms(1) seated_promoted unfolding advances_def by blast
  obtain j where j: "j < length (take k (vo_pending_queue c))" "take k (vo_pending_queue c) ! j = i"
    using assms(2) by (metis in_set_conv_nth)
  have l: "length ps = length (take k (vo_pending_queue c))" using list_all2_lengthD [OF ps(1)] by simp
  have "stored c' i = Some (ps ! j)" using arg_cong [OF ps(2), of "\<lambda>xs. xs ! j"] j l by simp
  moreover have "promoted e c i (ps ! j)" using list_all2_nthD [OF ps(1) j(1)] j(2) by simp
  ultimately show ?thesis by blast
qed

lemma promoted_facts:
  assumes "promoted e c i p'" and "queue_inv c" and "i \<in> set (vo_pending_queue c)"
  shows "pr_id p' = i" and "life_ok p'" and "pr_status p' \<noteq> Queued"
proof -
  obtain p t where p: "stored c i = Some p" "update_proposal (block_timestamp e) (activate t p) = Inr p'"
    using assms(1) by (auto simp: promoted_def)
  have q: "pr_status p = Queued" "pr_id p = i" "life_ok p"
    using assms(2,3) p(1) ids_ok_stored by (auto simp: queue_inv_def line_ok_def)
  have "pr_id p' = pr_id (activate t p)" by (rule update_by_cases [OF p(2)]) simp_all
  then show "pr_id p' = i" using q by simp
  have "life_ok (activate t p)" by (rule activate_life_ok) (rule queued_no_bond [OF q(3,1)])
  then show "life_ok p'" by (rule update_life_ok [OF p(2)])
  have "pr_status (activate t p) \<noteq> Queued" using activate_simps(7) [of t p] by (auto simp: is_active_status_def)
  then show "pr_status p' \<noteq> Queued" by (rule update_not_Queued [OF p(2)])
qed

lemma fresh_facts:
  assumes "fresh e c i = Some p'" and "queue_inv c"
  shows "pr_id p' = i" and "life_ok p'"
proof -
  obtain p where p: "stored c i = Some p" "update_proposal (block_timestamp e) p = Inr p'"
    using assms(1) by (auto simp: fresh_eq)
  have q: "pr_id p = i" "life_ok p" using assms(2) p(1) ids_ok_stored by (auto simp: queue_inv_def)
  have "pr_id p' = pr_id p" by (rule update_by_cases [OF p(2)]) simp_all
  then show "pr_id p' = i" "life_ok p'" using q update_life_ok [OF p(2)] by simp_all
qed

lemma fresh_unmoved:
  assumes "fresh e c i = Some p'" and "\<not> moved e c i"
  shows "stored c i = Some p'"
proof -
  obtain p where p: "stored c i = Some p" "update_proposal (block_timestamp e) p = Inr p'"
    using assms(1) by (auto simp: fresh_eq)
  then show ?thesis using assms update_changes_status_only [OF p(2)] by (simp add: moved_def)
qed

lemma list_all2_inverse:
  assumes "list_all2 R xs ys" and "\<And>x y. x \<in> set xs \<Longrightarrow> R x y \<Longrightarrow> f y = x"
  shows "map f ys = xs"
  using assms by (induction rule: list_all2_induct) auto

lemma list_all2_ids:
  assumes "list_all2 (promoted e c) (take k (vo_pending_queue c)) ps" and "queue_inv c"
  shows "map pr_id ps = take k (vo_pending_queue c)"
  by (rule list_all2_inverse [OF assms(1)]) (use promoted_facts(1) [OF _ assms(2)] in_set_takeD in fast)

lemma as_map_all2:
  assumes "list_all2 R is ps" and "map pr_id ps = is" and "i \<in> set is"
  shows "\<exists>p. as_map ps i = Some p \<and> R i p"
proof -
  obtain p where p: "as_map ps i = Some p" using assms(2,3) as_map_None [of ps i] by (cases "as_map ps i") auto
  from as_map_Some [OF p] obtain k where k: "k < length ps" "ps ! k = p" by (auto simp: in_set_conv_nth)
  then have "is ! k = i" using as_map_Some [OF p] assms(2) by auto
  with k assms(1) p show ?thesis by (auto simp: list_all2_conv_all_nth)
qed

lemma as_map_ids:
  assumes "distinct (map pr_id ps)"
  shows "map (as_map ps) (map pr_id ps) = map Some ps"
proof -
  have "as_map ps (pr_id p) = Some p" if "p \<in> set ps" for p
    using assms that by (auto simp: as_map_def rev_map [symmetric] intro!: map_of_is_SomeI simp: o_def)
  then show ?thesis by simp
qed

lemma length_active:
  assumes "slots_ok c" and "\<And>i. i \<in> A \<longleftrightarrow> (\<exists>p. stored c i = Some p \<and> is_active_status (pr_status p))"
  shows "length (vo_active_proposals c) = card A"
proof -
  have "A = set (vo_active_proposals c)" using assms by (auto simp: slots_ok_def)
  then show ?thesis using assms(1) distinct_card [of "vo_active_proposals c"] by (simp add: slots_ok_def)
qed

lemma pending_not_active:
  assumes "queue_inv c" and "i \<in> set (vo_pending_queue c)"
  shows "i \<notin> set (vo_active_proposals c)"
  using assms by (auto simp: queue_inv_def line_ok_def slots_ok_def is_active_status_def)

text \<open>What an advance computes, as one function from indices to the proposals it writes.\<close>

lemma advance_stored:
  assumes "compute_queue_advance e c = Inr out" and "queue_inv c"
    and "list_all2 (promoted e c) (take k (vo_pending_queue c)) (qo_queue_promotions out)"
  defines "m \<equiv> (stored c ++ as_map (qo_queue_promotions out)) ++ as_map (qo_active_updates out)"
  shows "i \<in> set (take k (vo_pending_queue c)) \<Longrightarrow> \<exists>p'. m i = Some p' \<and> promoted e c i p'"
    and "i \<in> set (vo_active_proposals c) \<Longrightarrow> \<exists>p'. m i = Some p' \<and> fresh e c i = Some p'"
    and "i \<notin> set (take k (vo_pending_queue c)) \<Longrightarrow> i \<notin> set (vo_active_proposals c) \<Longrightarrow> m i = stored c i"
    and "map m (take k (vo_pending_queue c)) = map Some (qo_queue_promotions out)"
proof -
  let ?act = "vo_active_proposals c" and ?us = "qo_active_updates out" and ?ps = "qo_queue_promotions out"
  have us: "?us = map (\<lambda>i. the (fresh e c i)) (filter (moved e c) ?act)" and f: "\<forall>i \<in> set ?act. fresh e c i \<noteq> None"
    using compute_effect [OF assms(1,2)] by auto
  have ps: "map pr_id ?ps = take k (vo_pending_queue c)" by (rule list_all2_ids [OF assms(3,2)])
  have fr: "\<exists>p. fresh e c i = Some p \<and> pr_id p = i" if "i \<in> set ?act" for i
    using f that fresh_facts(1) [OF _ assms(2)] by (cases "fresh e c i") auto
  have ids: "pr_id ` set ?us = {i \<in> set ?act. moved e c i}"
    using fr by (force simp: us image_image)
  have upd: "as_map ?us i = (if i \<in> set ?act \<and> moved e c i then fresh e c i else None)" for i
  proof (cases "as_map ?us i")
    case None
    then show ?thesis using ids as_map_None [of ?us i] by auto
  next
    case (Some p)
    from as_map_Some [OF Some] obtain j where j: "j \<in> set ?act" "moved e c j" "p = the (fresh e c j)" "pr_id p = i"
      by (auto simp: us)
    moreover have "j = i" "fresh e c j = Some p" using fr [OF j(1)] j(3,4) by auto
    ultimately show ?thesis using Some by simp
  qed
  have prom: "as_map ?ps i = None" if "i \<notin> set (take k (vo_pending_queue c))" for i
    using that as_map_None [of ?ps i] arg_cong [OF ps, of set] by auto
  show "\<exists>p'. m i = Some p' \<and> promoted e c i p'" if i: "i \<in> set (take k (vo_pending_queue c))"
  proof -
    have "as_map ?us i = None" using upd pending_not_active [OF assms(2) in_set_takeD [OF i]] by simp
    with as_map_all2 [OF assms(3) ps i] show ?thesis by (auto simp: m_def map_add_def)
  qed
  have d: "distinct (map pr_id ?ps)" using assms(2) by (simp add: ps queue_inv_def line_ok_def)
  have "m i = as_map ?ps i" if i: "i \<in> set (take k (vo_pending_queue c))" for i
    using upd pending_not_active [OF assms(2) in_set_takeD [OF i]] as_map_all2 [OF assms(3) ps i] by (auto simp: m_def map_add_def)
  then have "map m (take k (vo_pending_queue c)) = map (as_map ?ps) (map pr_id ?ps)" unfolding ps by simp
  then show "map m (take k (vo_pending_queue c)) = map Some ?ps" using as_map_ids [OF d] by simp
  show "\<exists>p'. m i = Some p' \<and> fresh e c i = Some p'" if i: "i \<in> set ?act"
  proof -
    have n: "as_map ?ps i = None" by (rule prom) (use pending_not_active [OF assms(2)] i in_set_takeD in fast)
    obtain p where p: "fresh e c i = Some p" using fr [OF i] by blast
    have "m i = Some p"
      using fresh_unmoved [OF p] n i p by (cases "moved e c i") (simp_all add: m_def map_add_def upd)
    with p show ?thesis by blast
  qed
  show "m i = stored c i" if "i \<notin> set (take k (vo_pending_queue c))" "i \<notin> set ?act"
    using that prom upd by (simp add: m_def map_add_def)
qed

lemma advance_writes:
  assumes "internal_advance_queue e c = Inr c'" and "queue_inv c"
  obtains out k where "compute_queue_advance e c = Inr out" and "k \<le> length (vo_pending_queue c)"
    and "list_all2 (promoted e c) (take k (vo_pending_queue c)) (qo_queue_promotions out)"
    and "stored c' = (stored c ++ as_map (qo_queue_promotions out)) ++ as_map (qo_active_updates out)"
    and "slots_ok c'" and "same_ledger c c'" and "vo_pending_queue c' = drop k (vo_pending_queue c)"
proof -
  obtain out c2 where out: "compute_queue_advance e c = Inr out"
    and 2: "for_each internal_set_proposal (qo_queue_promotions out)
        (c\<lparr>vo_pending_queue := drop (length (qo_queue_promotions out)) (vo_pending_queue c)\<rparr>) = Inr c2"
    and 3: "for_each internal_set_proposal (qo_active_updates out) c2 = Inr c'"
    using assms(1) by (auto simp: internal_advance_queue_def res_simps Let_def)
  from compute_effect [OF out assms(2)] obtain k where k: "k \<le> length (vo_pending_queue c)"
    "list_all2 (promoted e c) (take k (vo_pending_queue c)) (qo_queue_promotions out)" by blast
  have len: "length (qo_queue_promotions out) = k" using list_all2_lengthD [OF k(2)] k(1) by simp
  let ?c1 = "c\<lparr>vo_pending_queue := drop k (vo_pending_queue c)\<rparr>"
  have st: "stored ?c1 = stored c" by (rule stored_cong) simp
  have s1: "slots_ok ?c1" using assms(2) by (simp add: queue_inv_def slots_ok_def st)
  have 2: "for_each internal_set_proposal (qo_queue_promotions out) ?c1 = Inr c2" using 2 len by simp
  note e2 = set_all_effect [OF 2 s1]
  note e3 = set_all_effect [OF 3 conjunct1 [OF conjunct2 [OF e2]]]
  have l: "same_ledger c ?c1" by (simp add: same_ledger_def)
  show thesis
  proof (rule that [OF out k])
    show "stored c' = (stored c ++ as_map (qo_queue_promotions out)) ++ as_map (qo_active_updates out)"
      using e2 e3 st by (simp only:)
    show "same_ledger c c'" using e2 e3 l same_ledger_trans by meson
  qed (use e2 e3 in simp_all)
qed

lemma advance_line_ok:
  assumes "queue_inv c" and "k \<le> length (vo_pending_queue c)" and "vo_pending_queue c' = drop k (vo_pending_queue c)"
    and m: "\<And>i. i \<in> set (take k (vo_pending_queue c)) \<Longrightarrow> \<exists>p'. stored c' i = Some p' \<and> promoted e c i p'"
      "\<And>i. i \<in> set (vo_active_proposals c) \<Longrightarrow> \<exists>p'. stored c' i = Some p' \<and> fresh e c i = Some p'"
      "\<And>i. i \<notin> set (take k (vo_pending_queue c)) \<Longrightarrow> i \<notin> set (vo_active_proposals c) \<Longrightarrow> stored c' i = stored c i"
  shows "line_ok c'"
proof -
  let ?q = "vo_pending_queue c"
  have d: "distinct ?q" and q: "\<And>i. i \<in> set ?q \<longleftrightarrow> (\<exists>p. stored c i = Some p \<and> pr_status p = Queued)"
    using assms(1) by (auto simp: queue_inv_def line_ok_def)
  have td: "set (take k ?q) \<inter> set (drop k ?q) = {}" using d by (metis append_take_drop_id distinct_append)
  have qs: "set ?q = set (take k ?q) \<union> set (drop k ?q)" by (metis append_take_drop_id set_append)
  have "i \<in> set (drop k ?q) \<longleftrightarrow> (\<exists>p. stored c' i = Some p \<and> pr_status p = Queued)" for i
  proof -
    consider (promoted) "i \<in> set (take k ?q)" | (active) "i \<in> set (vo_active_proposals c)"
      | (other) "i \<notin> set (take k ?q)" "i \<notin> set (vo_active_proposals c)" by blast
    then show ?thesis
    proof cases
      case promoted
      then obtain p' where "stored c' i = Some p'" "promoted e c i p'" using m(1) by blast
      with promoted promoted_facts(3) [OF _ assms(1) in_set_takeD] td show ?thesis by auto
    next
      case active
      then obtain p' where p': "stored c' i = Some p'" "fresh e c i = Some p'" using m(2) by blast
      then obtain p where p: "stored c i = Some p" "update_proposal (block_timestamp e) p = Inr p'" by (auto simp: fresh_eq)
      have "pr_status p \<noteq> Queued" using active p(1) assms(1) by (auto simp: queue_inv_def slots_ok_def is_active_status_def)
      then have "pr_status p' \<noteq> Queued" by (rule update_not_Queued [OF p(2)])
      moreover have "i \<notin> set (drop k ?q)" using active pending_not_active [OF assms(1)] in_set_dropD by fast
      ultimately show ?thesis using p' by simp
    next
      case other
      then show ?thesis using m(3) q [of i] qs by auto
    qed
  qed
  then show ?thesis using d by (simp add: line_ok_def assms(3))
qed

lemma advance_inv:
  assumes "internal_advance_queue e c = Inr c'" and "queue_inv c"
  shows "queue_inv c'"
proof -
  obtain out k where out: "compute_queue_advance e c = Inr out" and k: "k \<le> length (vo_pending_queue c)"
    and all: "list_all2 (promoted e c) (take k (vo_pending_queue c)) (qo_queue_promotions out)"
    and st: "stored c' = (stored c ++ as_map (qo_queue_promotions out)) ++ as_map (qo_active_updates out)"
    and s: "slots_ok c'" "same_ledger c c'" "vo_pending_queue c' = drop k (vo_pending_queue c)"
    by (rule advance_writes [OF assms])
  note m = advance_stored [OF out assms(2) all, folded st]
  have "\<exists>p. stored c' i = Some p \<and> pr_id p = i \<and> life_ok p" if i: "i < length (vo_proposals c')" for i
  proof -
    consider (promoted) "i \<in> set (take k (vo_pending_queue c))" | (active) "i \<in> set (vo_active_proposals c)"
      | (other) "i \<notin> set (take k (vo_pending_queue c))" "i \<notin> set (vo_active_proposals c)" by blast
    then show ?thesis
    proof cases
      case promoted
      then show ?thesis using m(1) promoted_facts(1,2) [OF _ assms(2) in_set_takeD [OF promoted]] by blast
    next
      case active
      then show ?thesis using m(2) fresh_facts [OF _ assms(2)] by blast
    next
      case other
      then show ?thesis using m(3) i assms(2) s(2) by (simp add: queue_inv_def ids_ok_def same_ledger_def)
    qed
  qed
  moreover have "line_ok c'" by (rule advance_line_ok [OF assms(2) k s(3) m(1-3)])
  ultimately show ?thesis using s(1) by (simp add: queue_inv_def ids_ok_def)
qed

text \<open>The active set after an advance: the ones that stay, and the promoted ones that are still running.\<close>

lemma advance_active:
  assumes "internal_advance_queue e c = Inr c'" and "queue_inv c" and "compute_queue_advance e c = Inr out"
  shows "set (vo_active_proposals c') = set (filter (stays_active e c) (vo_active_proposals c))
      \<union> pr_id ` set (filter (\<lambda>p. is_active_status (pr_status p)) (qo_queue_promotions out))"
    and "length (vo_active_proposals c') = length (filter (stays_active e c) (vo_active_proposals c))
      + count_active (qo_queue_promotions out)"
proof -
  obtain out' k where "compute_queue_advance e c = Inr out'" and k: "k \<le> length (vo_pending_queue c)"
    and all': "list_all2 (promoted e c) (take k (vo_pending_queue c)) (qo_queue_promotions out')"
    and st': "stored c' = (stored c ++ as_map (qo_queue_promotions out')) ++ as_map (qo_active_updates out')"
    and s: "slots_ok c'" by (rule advance_writes [OF assms(1,2)])
  then have [simp]: "out' = out" using assms(3) by simp
  note all = all' [simplified] and st = st' [simplified]
  note m = advance_stored [OF assms(3,2) all, folded st]
  let ?stay = "set (filter (stays_active e c) (vo_active_proposals c))"
    and ?run = "filter (\<lambda>p. is_active_status (pr_status p)) (qo_queue_promotions out)"
  have ids: "map pr_id (qo_queue_promotions out) = take k (vo_pending_queue c)" by (rule list_all2_ids [OF all assms(2)])
  have d: "distinct (map pr_id (qo_queue_promotions out))" using assms(2) by (simp add: ids queue_inv_def line_ok_def)
  have prom: "as_map (qo_queue_promotions out) i = stored c' i" if i: "i \<in> set (take k (vo_pending_queue c))" for i
  proof -
    have "i \<notin> pr_id ` set (qo_active_updates out)"
    proof
      assume "i \<in> pr_id ` set (qo_active_updates out)"
      then obtain j where "j \<in> set (vo_active_proposals c)" "pr_id (the (fresh e c j)) = i"
        using compute_effect [OF assms(3,2)] by auto
      moreover from this compute_effect [OF assms(3,2)] obtain p where "fresh e c j = Some p" by auto
      ultimately have "i \<in> set (vo_active_proposals c)" using fresh_facts(1) [OF _ assms(2)] by auto
      then show False using pending_not_active [OF assms(2) in_set_takeD [OF i]] by simp
    qed
    then have "as_map (qo_active_updates out) i = None" by (simp add: as_map_None)
    moreover have "as_map (qo_queue_promotions out) i \<noteq> None" using i by (simp add: as_map_None ids [symmetric])
    ultimately show ?thesis by (auto simp: st map_add_def)
  qed
  have run: "i \<in> pr_id ` set ?run \<longleftrightarrow> i \<in> set (take k (vo_pending_queue c))
      \<and> (\<exists>p. stored c' i = Some p \<and> is_active_status (pr_status p))" for i
  proof
    assume "i \<in> pr_id ` set ?run"
    then obtain p where p: "p \<in> set (qo_queue_promotions out)" "is_active_status (pr_status p)" "pr_id p = i" by auto
    then have i: "i \<in> set (take k (vo_pending_queue c))" by (auto simp: ids [symmetric])
    have "as_map (qo_queue_promotions out) i = Some p"
      using p d by (auto simp: as_map_def rev_map [symmetric] intro!: map_of_is_SomeI simp: o_def)
    then have "stored c' i = Some p" using prom [OF i] by simp
    with p(2) i show "i \<in> set (take k (vo_pending_queue c)) \<and> (\<exists>p. stored c' i = Some p \<and> is_active_status (pr_status p))"
      by blast
  next
    assume i: "i \<in> set (take k (vo_pending_queue c)) \<and> (\<exists>p. stored c' i = Some p \<and> is_active_status (pr_status p))"
    then obtain p where "as_map (qo_queue_promotions out) i = Some p" "is_active_status (pr_status p)" using prom by auto
    with as_map_Some show "i \<in> pr_id ` set ?run" by fastforce
  qed
  have A: "i \<in> ?stay \<union> pr_id ` set ?run \<longleftrightarrow> (\<exists>p. stored c' i = Some p \<and> is_active_status (pr_status p))" for i
  proof -
    consider (promoted) "i \<in> set (take k (vo_pending_queue c))" | (active) "i \<in> set (vo_active_proposals c)"
      | (other) "i \<notin> set (take k (vo_pending_queue c))" "i \<notin> set (vo_active_proposals c)" by blast
    then show ?thesis
    proof cases
      case promoted
      then show ?thesis using run [of i] pending_not_active [OF assms(2) in_set_takeD [OF promoted]] by auto
    next
      case active
      then obtain p where p: "stored c' i = Some p" "fresh e c i = Some p" using m(2) by blast
      have "i \<notin> set (take k (vo_pending_queue c))" using active pending_not_active [OF assms(2)] in_set_takeD by fast
      then show ?thesis using p run [of i] active by (auto simp: stays_active_def)
    next
      case other
      moreover have "\<not> (\<exists>p. stored c i = Some p \<and> is_active_status (pr_status p))"
        using other(2) assms(2) by (simp add: queue_inv_def slots_ok_def)
      ultimately show ?thesis using m(3) [OF other] run [of i] by auto
    qed
  qed
  show "set (vo_active_proposals c') = ?stay \<union> pr_id ` set ?run"
    using s unfolding slots_ok_def by (intro set_eqI) (simp only: A)
  have "length (vo_active_proposals c') = card (?stay \<union> pr_id ` set ?run)" by (rule length_active [OF s A])
  also have "\<dots> = card ?stay + card (pr_id ` set ?run)"
  proof (rule card_Un_disjoint)
    have "i \<notin> ?stay" if "i \<in> pr_id ` set ?run" for i
      using that run [of i] pending_not_active [OF assms(2), of i] in_set_takeD [of i k] by auto
    then show "?stay \<inter> pr_id ` set ?run = {}" by blast
  qed simp_all
  also have "card ?stay = length (filter (stays_active e c) (vo_active_proposals c))"
    by (rule distinct_card) (use assms(2) in \<open>simp add: queue_inv_def slots_ok_def\<close>)
  also have "card (pr_id ` set ?run) = length ?run"
    using distinct_card [of "map pr_id ?run"] distinct_map_filter [OF d] by simp
  finally show "length (vo_active_proposals c') = length (filter (stays_active e c) (vo_active_proposals c)) + length ?run" .
qed

lemma advance_effect:
  assumes "internal_advance_queue e c = Inr c'" and "queue_inv c"
  shows "\<exists>k. advances e c c' k"
proof -
  obtain out where out: "compute_queue_advance e c = Inr out"
    using assms(1) by (auto simp: internal_advance_queue_def and_then_eq_Inr)
  let ?max = "cf_max_active_proposals (vo_config c)" and ?n = "length (filter (stays_active e c) (vo_active_proposals c))"
  obtain out' k where w: "compute_queue_advance e c = Inr out'" "k \<le> length (vo_pending_queue c)"
    "list_all2 (promoted e c) (take k (vo_pending_queue c)) (qo_queue_promotions out')"
    "stored c' = (stored c ++ as_map (qo_queue_promotions out')) ++ as_map (qo_active_updates out')"
    "same_ledger c c'" "vo_pending_queue c' = drop k (vo_pending_queue c)"
    by (rule advance_writes [OF assms])
  then have [simp]: "out' = out" using out by simp
  note m = advance_stored [OF w(1) assms(2) w(3), folded w(4)]
  obtain k' where k': "k' \<le> length (vo_pending_queue c)" "list_all2 (promoted e c) (take k' (vo_pending_queue c)) (qo_queue_promotions out)"
    and seat: "seated e c (freed_slots e c) (take k' (vo_pending_queue c)) (qo_queue_promotions out)" and b:
    "?n + count_active (qo_queue_promotions out) \<le> max ?n ?max"
    "k' < length (vo_pending_queue c) \<longrightarrow> ?max \<le> ?n + count_active (qo_queue_promotions out)" "0 < k' \<longrightarrow> ?n < ?max"
    using compute_effect [OF out assms(2)] by blast
  have kk: "k' = k" using list_all2_lengthD [OF k'(2)] list_all2_lengthD [OF w(3)] k'(1) w(2) by simp
  note a = advance_active [OF assms out]
  have "k = 0 \<longrightarrow> qo_queue_promotions out = []" using w(3) by (auto simp: list_all2_Nil)
  then have "k = 0 \<longrightarrow> set (vo_active_proposals c') \<subseteq> set (vo_active_proposals c)" using a(1) by auto
  moreover have "0 < k \<longrightarrow> length (vo_active_proposals c') \<le> ?max" using a(2) b(1,3) kk by auto
  moreover have "k < length (vo_pending_queue c) \<longrightarrow> ?max \<le> length (vo_active_proposals c')" using a(2) b(2) kk by auto
  moreover have "\<exists>ps. seated e c (freed_slots e c) (take k (vo_pending_queue c)) ps \<and> map (stored c') (take k (vo_pending_queue c)) = map Some ps"
    using seat m(4) kk by auto
  ultimately have "advances e c c' k" using w m(2,3) unfolding advances_def by blast
  then show ?thesis by blast
qed

section \<open>The views\<close>

text \<open>
  \<open>get_queue_state\<close> shows the active set and the queue that the next advance stores, and
  \<open>get_proposal\<close> the proposal it stores.
\<close>

lemma queue_state_predicts:
  assumes "get_queue_state e c = Inr q" and "internal_advance_queue e c = Inr c'" and "queue_inv c"
  shows "set (qs_active_proposals q) = set (vo_active_proposals c')"
    and "length (qs_active_proposals q) = length (vo_active_proposals c')"
    and "qs_pending_queue q = vo_pending_queue c'"
proof -
  let ?act = "vo_active_proposals c"
  obtain out where out: "compute_queue_advance e c = Inr out"
    and q: "qs_active_proposals q = filter (\<lambda>i. i \<notin> set (map pr_id (filter (\<lambda>p. \<not> is_active_status (pr_status p))
          (qo_active_updates out)))) ?act
        @ map pr_id (filter (\<lambda>p. is_active_status (pr_status p)) (qo_queue_promotions out))"
      "qs_pending_queue q = drop (length (qo_queue_promotions out)) (vo_pending_queue c)"
    using assms(1) by (auto simp: get_queue_state_def and_then_eq_Inr Let_def)
  obtain out' k where w: "compute_queue_advance e c = Inr out'" "k \<le> length (vo_pending_queue c)"
    "list_all2 (promoted e c) (take k (vo_pending_queue c)) (qo_queue_promotions out')"
    "vo_pending_queue c' = drop k (vo_pending_queue c)"
    by (rule advance_writes [OF assms(2,3)])
  then have [simp]: "out' = out" using out by simp
  note ce = compute_effect [OF out assms(3)]
  have "i \<in> set (map pr_id (filter (\<lambda>p. \<not> is_active_status (pr_status p)) (qo_active_updates out))) \<longleftrightarrow> \<not> stays_active e c i"
    if i: "i \<in> set ?act" for i
  proof -
    have fr: "\<exists>p. fresh e c j = Some p \<and> pr_id p = j" if "j \<in> set ?act" for j
      using ce that fresh_facts(1) [OF _ assms(3)] by (cases "fresh e c j") auto
    have "moved e c i" if "\<not> stays_active e c i"
    proof -
      have "is_active_status (pr_status (the (stored c i)))" using i assms(3) by (auto simp: queue_inv_def slots_ok_def)
      then show ?thesis using that by (auto simp: moved_def stays_active_def)
    qed
    moreover have "i \<in> set (map pr_id (filter (\<lambda>p. \<not> is_active_status (pr_status p)) (qo_active_updates out)))
        \<longleftrightarrow> (\<exists>j \<in> set ?act. moved e c j \<and> \<not> stays_active e c j \<and> pr_id (the (fresh e c j)) = i)"
      using conjunct1 [OF conjunct2 [OF ce]] by (auto simp: stays_active_def)
    ultimately show ?thesis using fr i by fastforce
  qed
  then have f: "filter (\<lambda>i. i \<notin> set (map pr_id (filter (\<lambda>p. \<not> is_active_status (pr_status p)) (qo_active_updates out)))) ?act
      = filter (stays_active e c) ?act"
    by (intro filter_cong) auto
  show "set (qs_active_proposals q) = set (vo_active_proposals c')"
    unfolding q(1) f advance_active(1) [OF assms(2,3) out] by simp
  show "length (qs_active_proposals q) = length (vo_active_proposals c')"
    unfolding q(1) f advance_active(2) [OF assms(2,3) out] by simp
  have "length (qo_queue_promotions out) = k" using list_all2_lengthD [OF w(3)] w(2) by simp
  then show "qs_pending_queue q = vo_pending_queue c'" by (simp add: q(2) w(4))
qed

lemma get_proposal_predicts:
  assumes "get_proposal e c i = Inr (Some info)" and "internal_advance_queue e c = Inr c'" and "queue_inv c"
    and "i \<in> set (vo_active_proposals c) \<or> i \<in> set (vo_pending_queue c)"
  shows "stored c' i = Some (pi_proposal info)"
proof -
  obtain out where out: "compute_queue_advance e c = Inr out"
    and g: "(case as_map (qo_queue_promotions out) i of Some p \<Rightarrow> Inr (Some p)
      | None \<Rightarrow> and_then (internal_get_proposal e c i) (\<lambda>r. Inr (map_option fst r))) = Inr (Some (pi_proposal info))"
    using assms(1)
    by (auto simp: get_proposal_def get_proposals_virtual_updates_def and_then_eq_Inr as_map_def split: option.splits if_splits)
  obtain out' k where w: "compute_queue_advance e c = Inr out'" "k \<le> length (vo_pending_queue c)"
    "list_all2 (promoted e c) (take k (vo_pending_queue c)) (qo_queue_promotions out')"
    "stored c' = (stored c ++ as_map (qo_queue_promotions out')) ++ as_map (qo_active_updates out')"
    by (rule advance_writes [OF assms(2,3)])
  then have [simp]: "out' = out" using out by simp
  note m = advance_stored [OF w(1) assms(3) w(3), folded w(4)]
  note ids = list_all2_ids [OF w(3) assms(3)]
  have None: "fresh e c i = Some (pi_proposal info)" if "as_map (qo_queue_promotions out) i = None"
    using g that by (auto simp: and_then_eq_Inr get_proposal_eq fresh_eq)
  show ?thesis
  proof (cases "i \<in> set (vo_active_proposals c)")
    case True
    then have "i \<notin> set (take k (vo_pending_queue c))" using pending_not_active [OF assms(3)] in_set_takeD by fast
    then have "as_map (qo_queue_promotions out) i = None" using as_map_None [of "qo_queue_promotions out" i]
        arg_cong [OF ids, of set] by auto
    with None m(2) [OF True] show ?thesis by auto
  next
    case False
    then have q: "i \<in> set (vo_pending_queue c)" using assms(4) by simp
    show ?thesis
    proof (cases "i \<in> set (take k (vo_pending_queue c))")
      case True
      then obtain p where p: "as_map (qo_queue_promotions out) i = Some p" using as_map_all2 [OF w(3) ids] by auto
      have "i \<notin> pr_id ` set (qo_active_updates out)"
        using False compute_effect [OF out assms(3)] fresh_facts(1) [OF _ assms(3)] by fastforce
      then have "as_map (qo_active_updates out) i = None" by (simp add: as_map_None)
      with p g show ?thesis by (simp add: w(4) map_add_def)
    next
      case later: False
      then have "as_map (qo_queue_promotions out) i = None" using as_map_None [of "qo_queue_promotions out" i]
          arg_cong [OF ids, of set] by auto
      then have "fresh e c i = Some (pi_proposal info)" by (rule None)
      moreover obtain p where "stored c i = Some p" "pr_status p = Queued"
        using q assms(3) by (auto simp: queue_inv_def line_ok_def)
      ultimately show ?thesis using m(3) [OF later False] by (simp add: fresh_def update_inert)
    qed
  qed
qed

end
