(* ===== verification/Voting_Tally.thy ===== *)
theory Voting_Tally
  imports Voting_Queue
begin

text \<open>
  The tallies. The recorded ballots are the map \<open>votes\<close> of the contract; what an account may cast
  for a proposal is fixed by the snapshot of the proposal and given by an electoral roll
  \<open>roll\<close>, a function from snapshots and accounts to voting power. \<open>tally_ok\<close> says that the stored
  counters are the exact sums over the recorded ballots. Withdrawing and casting a ballot
  keep it, and withdrawing never underflows.
\<close>

type_synonym roll = "snapshot_and_state \<Rightarrow> account_id \<Rightarrow> nat"
type_synonym ballots = "account_id \<rightharpoonup> nat"

definition ballots_of :: "voting \<Rightarrow> proposal_id \<Rightarrow> ballots" where
  "ballots_of c i = (\<lambda>a. vo_votes c (a, i))"

definition voters :: "ballots \<Rightarrow> nat \<Rightarrow> account_id set" where
  "voters b i = {a. b a = Some i}"

definition tally_ok :: "(account_id \<Rightarrow> nat) \<Rightarrow> ballots \<Rightarrow> proposal \<Rightarrow> bool" where
  "tally_ok R b p \<longleftrightarrow> finite (dom b) \<and> ran b \<subseteq> {..<3} \<and> length (pr_votes p) = 3
     \<and> (\<forall>i < 3. vs_total_votes (pr_votes p ! i) = card (voters b i)
          \<and> vs_total_venear (pr_votes p ! i) = (\<Sum>a \<in> voters b i. R a))
     \<and> vs_total_votes (pr_total_votes p) = card (dom b)
     \<and> vs_total_venear (pr_total_votes p) = (\<Sum>a \<in> dom b. R a)"

text \<open>A counter that holds the number and the sum of a set of accounts.\<close>

definition counts :: "(account_id \<Rightarrow> nat) \<Rightarrow> account_id set \<Rightarrow> vote_stats \<Rightarrow> bool" where
  "counts R A s \<longleftrightarrow> vs_total_votes s = card A \<and> vs_total_venear s = (\<Sum>a \<in> A. R a)"

lemma tally_ok_counts:
  "tally_ok R b p \<longleftrightarrow> finite (dom b) \<and> ran b \<subseteq> {..<3} \<and> length (pr_votes p) = 3
     \<and> (\<forall>i < 3. counts R (voters b i) (pr_votes p ! i)) \<and> counts R (dom b) (pr_total_votes p)"
  by (auto simp: tally_ok_def counts_def)

lemma counts_add:
  assumes "counts R A s" "finite A" "a \<notin> A" "add_vote w s = Inr s'" "w = R a"
  shows "counts R (insert a A) s'"
  using assms by (auto simp: counts_def add_vote_def near_add_eq_Inr res_simps)

lemma counts_remove:
  assumes "counts R A s" "finite A" "a \<in> A"
  shows "\<exists>s'. remove_vote (R a) s = Inr s'" and "remove_vote (R a) s = Inr s' \<Longrightarrow> counts R (A - {a}) s'"
proof -
  have "1 \<le> card A" using assms(2,3) by (metis One_nat_def Suc_leI card_gt_0_iff empty_iff)
  moreover have "(\<Sum>x \<in> A. R x) = R a + (\<Sum>x \<in> A - {a}. R x)" using assms(2,3) by (simp add: sum.remove)
  ultimately show "\<exists>s'. remove_vote (R a) s = Inr s'" "remove_vote (R a) s = Inr s' \<Longrightarrow> counts R (A - {a}) s'"
    using assms by (auto simp: counts_def remove_vote_def near_sub_eq_Inr res_simps)
qed

lemma voters_finite: "finite (dom b) \<Longrightarrow> finite (voters b i)"
  by (rule finite_subset [of _ "dom b"]) (auto simp: voters_def)

lemma withdraw_tally:
  assumes "tally_ok R b p" and "b a = v"
  shows "\<exists>p'. withdraw_ballot v (R a) p = Inr p'"
    and "withdraw_ballot v (R a) p = Inr p' \<Longrightarrow> tally_ok R (b(a := None)) p'
      \<and> (\<exists>vs t. p' = p\<lparr>pr_votes := vs, pr_total_votes := t\<rparr>)"
proof -
  have t: "finite (dom b)" "ran b \<subseteq> {..<3}" "length (pr_votes p) = 3" "\<forall>i < 3. counts R (voters b i) (pr_votes p ! i)"
    "counts R (dom b) (pr_total_votes p)" using assms(1) by (auto simp: tally_ok_counts)
  have "(\<exists>p'. withdraw_ballot v (R a) p = Inr p') \<and> (\<forall>p'. withdraw_ballot v (R a) p = Inr p' \<longrightarrow> tally_ok R (b(a := None)) p'
      \<and> (\<exists>vs t. p' = p\<lparr>pr_votes := vs, pr_total_votes := t\<rparr>))"
  proof (cases v)
    case None
    then have "b(a := None) = b" using assms(2) by auto
    moreover have "p = p\<lparr>pr_votes := pr_votes p, pr_total_votes := pr_total_votes p\<rparr>" by simp
    ultimately show ?thesis using assms(1) None unfolding withdraw_ballot_def by (metis option.simps(4) sum.inject(2))
  next
    case (Some i)
    have i: "i < 3" "a \<in> voters b i" "a \<in> dom b" using t(2) assms(2) Some by (auto simp: voters_def ran_def)
    obtain s where s: "remove_vote (R a) (pr_votes p ! i) = Inr s" "counts R (voters b i - {a}) s"
      using counts_remove [OF _ voters_finite [OF t(1)] i(2)] t(4) i(1) by meson
    obtain u where u: "remove_vote (R a) (pr_total_votes p) = Inr u" "counts R (dom b - {a}) u"
      using counts_remove [OF t(5,1) i(3)] by meson
    let ?p = "p\<lparr>pr_votes := (pr_votes p)[i := s], pr_total_votes := u\<rparr>"
    have w: "withdraw_ballot v (R a) p = Inr ?p"
      using Some i(1) t(3) by (simp add: withdraw_ballot_def at_index_def s u)
    have vot: "voters (b(a := None)) k = (if k = i then voters b i - {a} else voters b k)" for k
      using assms(2) Some by (auto simp: voters_def)
    have d: "dom (b(a := None)) = dom b - {a}" by auto
    have r: "ran (b(a := None)) \<subseteq> {..<3}" using t(2) by (auto simp: ran_def split: if_splits)
    have "\<forall>k < 3. counts R (voters (b(a := None)) k) ((pr_votes p)[i := s] ! k)"
      using t(3,4) s(2) i(1) by (simp add: vot nth_list_update)
    then have "tally_ok R (b(a := None)) ?p" using t(1,3) r d u(2) by (simp add: tally_ok_counts)
    then show ?thesis unfolding w by blast
  qed
  then show "\<exists>p'. withdraw_ballot v (R a) p = Inr p'"
    "withdraw_ballot v (R a) p = Inr p' \<Longrightarrow> tally_ok R (b(a := None)) p'
      \<and> (\<exists>vs t. p' = p\<lparr>pr_votes := vs, pr_total_votes := t\<rparr>)" by blast+
qed

lemma cast_tally:
  assumes "tally_ok R b p" and "b a = None" and "j < 3" and "cast_ballot j (R a) p = Inr p'"
  shows "tally_ok R (b(a \<mapsto> j)) p' \<and> (\<exists>vs t. p' = p\<lparr>pr_votes := vs, pr_total_votes := t\<rparr>)"
proof -
  have t: "finite (dom b)" "ran b \<subseteq> {..<3}" "length (pr_votes p) = 3" "\<forall>i < 3. counts R (voters b i) (pr_votes p ! i)"
    "counts R (dom b) (pr_total_votes p)" using assms(1) by (auto simp: tally_ok_counts)
  obtain s u where s: "add_vote (R a) (pr_votes p ! j) = Inr s" "add_vote (R a) (pr_total_votes p) = Inr u"
    and p': "p' = p\<lparr>pr_votes := (pr_votes p)[j := s], pr_total_votes := u\<rparr>"
    using assms(3,4) t(3) by (auto simp: cast_ballot_def at_index_def and_then_eq_Inr)
  have "counts R (insert a (voters b j)) s"
    by (rule counts_add [OF _ voters_finite [OF t(1)] _ s(1)]) (use t(4) assms(2,3) in \<open>auto simp: voters_def\<close>)
  moreover have "counts R (insert a (dom b)) u" by (rule counts_add [OF t(5,1) _ s(2)]) (use assms(2) in auto)
  moreover have "voters (b(a \<mapsto> j)) k = (if k = j then insert a (voters b j) else voters b k)" for k
    using assms(2) by (auto simp: voters_def)
  moreover have "ran (b(a \<mapsto> j)) \<subseteq> {..<3}" using t(2) assms(3) by (auto simp: ran_def split: if_splits)
  ultimately have "tally_ok R (b(a \<mapsto> j)) p'"
    using t(1,3,4) assms(3) by (simp add: tally_ok_counts p' nth_list_update)
  then show ?thesis using p' by blast
qed

text \<open>The shape of a ballot: first withdraw, then cast.\<close>

lemma revote_tally:
  assumes "tally_ok R b p" and "withdraw_ballot (b a) (R a) p = Inr p1" and "cast_ballot j (R a) p1 = Inr p2" and "j < 3"
  shows "tally_ok R (b(a \<mapsto> j)) p2" and "\<exists>vs t. p2 = p\<lparr>pr_votes := vs, pr_total_votes := t\<rparr>"
proof -
  have 1: "tally_ok R (b(a := None)) p1" "\<exists>vs t. p1 = p\<lparr>pr_votes := vs, pr_total_votes := t\<rparr>"
    using withdraw_tally(2) [OF assms(1) refl assms(2)] by blast+
  have 2: "tally_ok R ((b(a := None))(a \<mapsto> j)) p2" "\<exists>vs t. p2 = p1\<lparr>pr_votes := vs, pr_total_votes := t\<rparr>"
    using cast_tally [OF 1(1) _ assms(4,3)] by simp_all
  show "tally_ok R (b(a \<mapsto> j)) p2" using 2(1) by simp
  from 1(2) 2(2) obtain vs t us u where "p1 = p\<lparr>pr_votes := vs, pr_total_votes := t\<rparr>"
    "p2 = p1\<lparr>pr_votes := us, pr_total_votes := u\<rparr>" by blast
  then have "p2 = p\<lparr>pr_votes := us, pr_total_votes := u\<rparr>" by simp
  then show "\<exists>vs t. p2 = p\<lparr>pr_votes := vs, pr_total_votes := t\<rparr>" by blast
qed

lemma tally_power:
  assumes "tally_ok R b p"
  shows "i < 3 \<Longrightarrow> power_at i p = (\<Sum>a \<in> voters b i. R a)" and "power_at 0 p + power_at 1 p \<le> vs_total_venear (pr_total_votes p)"
proof -
  have p: "power_at i p = (\<Sum>a \<in> voters b i. R a)" if "i < 3" for i
    using assms that by (simp add: tally_ok_def power_at_def)
  then show "i < 3 \<Longrightarrow> power_at i p = (\<Sum>a \<in> voters b i. R a)" .
  have f: "finite (dom b)" using assms by (simp add: tally_ok_def)
  have d: "voters b 0 \<inter> voters b 1 = {}" by (auto simp: voters_def)
  have "power_at 0 p + power_at 1 p = (\<Sum>a \<in> voters b 0. R a) + (\<Sum>a \<in> voters b 1. R a)"
    using p [of 0] p [of 1] by linarith
  also have "\<dots> = (\<Sum>a \<in> voters b 0 \<union> voters b 1. R a)"
    by (rule sum.union_disjoint [OF voters_finite [OF f] voters_finite [OF f] d, symmetric])
  also have "\<dots> \<le> (\<Sum>a \<in> dom b. R a)" by (rule sum_mono2 [OF f]) (auto simp: voters_def)
  also have "\<dots> = vs_total_venear (pr_total_votes p)" using assms by (simp add: tally_ok_def)
  finally show "power_at 0 p + power_at 1 p \<le> vs_total_venear (pr_total_votes p)" .
qed

end
