(* ===== verification/Voting_Invariant.thy ===== *)
theory Voting_Invariant
  imports Voting_Tally
begin

text \<open>
  The invariant of the voting contract and its preservation. \<open>voting_inv\<close> joins the scheduler
  invariant with the books: exact tallies for every proposal, no ballot before the snapshot,
  and snapshots that agree with the electoral roll on every ballot paper in circulation. The
  set \<open>V\<close> holds the ballot papers (Merkle proof and account) that are ever submitted.

  The calls of the contract are the type \<open>voting_msg\<close>; \<open>voting_step\<close> adds the receipts that the
  contract schedules for itself: the callback of a snapshot request, the chained vote and the
  callback of an execution, which arrives at most once for each execution.
\<close>

section \<open>Invariant\<close>

definition roll_of :: "roll \<Rightarrow> proposal \<Rightarrow> account_id \<Rightarrow> nat" where
  "roll_of roll p = (case pr_snapshot_and_state p of None \<Rightarrow> (\<lambda>_. 0) | Some s \<Rightarrow> roll s)"

definition roll_ok :: "voting_ext \<Rightarrow> (merkle_proof \<times> vaccount) set \<Rightarrow> roll \<Rightarrow> snapshot_and_state \<Rightarrow> bool" where
  "roll_ok X V roll s \<longleftrightarrow> (\<forall>(q, v) \<in> V. \<forall>w. is_valid (vx_hasher X) q (snap_root (ss_snapshot s)) (snap_length (ss_snapshot s)) v
     \<longrightarrow> total_balance (ss_timestamp_ns s) (ss_venear_growth_config s) (account_from v) = Inr w
     \<longrightarrow> roll s (acc_account_id (account_from v)) = w)"

definition book_ok :: "voting_ext \<Rightarrow> (merkle_proof \<times> vaccount) set \<Rightarrow> roll \<Rightarrow> ballots \<Rightarrow> proposal \<Rightarrow> bool" where
  "book_ok X V roll b p \<longleftrightarrow> tally_ok (roll_of roll p) b p
     \<and> (case pr_snapshot_and_state p of None \<Rightarrow> b = Map.empty | Some s \<Rightarrow> roll_ok X V roll s)"

fun page_ok :: "voting_ext \<Rightarrow> (merkle_proof \<times> vaccount) set \<Rightarrow> roll \<Rightarrow> ballots \<Rightarrow> proposal option \<Rightarrow> bool" where
  "page_ok X V roll b None \<longleftrightarrow> b = Map.empty"
| "page_ok X V roll b (Some p) \<longleftrightarrow> book_ok X V roll b p"

definition books_ok :: "voting_ext \<Rightarrow> (merkle_proof \<times> vaccount) set \<Rightarrow> roll \<Rightarrow> voting \<Rightarrow> bool" where
  "books_ok X V roll c \<longleftrightarrow> length (vo_metadata c) = length (vo_proposals c)
     \<and> (\<forall>i. page_ok X V roll (ballots_of c i) (stored c i))"

definition voting_inv :: "voting_ext \<Rightarrow> (merkle_proof \<times> vaccount) set \<Rightarrow> roll \<Rightarrow> voting \<Rightarrow> bool" where
  "voting_inv X V roll c \<longleftrightarrow> queue_inv c \<and> books_ok X V roll c"

section \<open>How one proposal evolves\<close>

text \<open>What stays when only the clock or the scheduler moves a proposal.\<close>

definition carried :: "proposal \<Rightarrow> proposal \<Rightarrow> bool" where
  "carried p p' \<longleftrightarrow> pr_votes p' = pr_votes p \<and> pr_total_votes p' = pr_total_votes p
     \<and> pr_snapshot_and_state p' = pr_snapshot_and_state p \<and> pr_flow p' = pr_flow p \<and> pr_actions p' = pr_actions p
     \<and> pr_bond_amount p' = pr_bond_amount p \<and> life_path (pr_flow p) (pr_status p) (pr_status p')"

lemma carried_refl [simp]: "carried p p"
  by (simp add: carried_def)

lemma carried_trans: "carried p q \<Longrightarrow> carried q r \<Longrightarrow> carried p r"
  by (auto simp: carried_def)

lemma carried_update:
  assumes "update_proposal t p = Inr p'" and "life_ok p"
  shows "carried p p'"
proof -
  have "life_path (pr_flow p) (pr_status p) (pr_status p')" using update_edge [OF assms] by auto
  moreover have "pr_votes p' = pr_votes p \<and> pr_total_votes p' = pr_total_votes p
      \<and> pr_snapshot_and_state p' = pr_snapshot_and_state p \<and> pr_flow p' = pr_flow p \<and> pr_actions p' = pr_actions p
      \<and> pr_bond_amount p' = pr_bond_amount p"
    by (rule update_by_cases [OF assms(1)]) simp_all
  ultimately show ?thesis by (simp add: carried_def)
qed

lemma carried_activate: "pr_status p = Queued \<Longrightarrow> carried p (activate t p)"
  using activate_edge [of p t] by (auto simp: carried_def)

lemma carried_book: "carried p p' \<Longrightarrow> book_ok X V roll b p' = book_ok X V roll b p"
  by (simp add: carried_def book_ok_def tally_ok_def roll_of_def)

definition carries :: "voting \<Rightarrow> voting \<Rightarrow> bool" where
  "carries c c' \<longleftrightarrow> (\<forall>i. rel_option carried (stored c i) (stored c' i))"

lemma carries_refl [simp]: "carries c c"
  by (simp add: carries_def option.rel_refl)

lemma carries_Some: "carries c c' \<Longrightarrow> stored c i = Some p \<Longrightarrow> \<exists>p'. stored c' i = Some p' \<and> carried p p'"
  unfolding carries_def by (metis option_rel_Some1)

lemma carries_None: "carries c c' \<Longrightarrow> stored c i = None \<Longrightarrow> stored c' i = None"
  unfolding carries_def by (metis rel_option_None1)

lemma carries_books:
  assumes "carries c c'" and "same_ledger c c'" and "books_ok X V roll c"
  shows "books_ok X V roll c'"
proof -
  have b: "ballots_of c' i = ballots_of c i" for i using assms(2) by (simp add: ballots_of_def same_ledger_def)
  have "page_ok X V roll (ballots_of c' i) (stored c' i)" for i
  proof -
    have "page_ok X V roll (ballots_of c i) (stored c i)" using assms(3) by (simp add: books_ok_def)
    then show ?thesis
      using carries_None [OF assms(1), of i] carries_Some [OF assms(1), of i] carried_book b by (cases "stored c i") auto
  qed
  then show ?thesis using assms(2,3) by (simp add: books_ok_def same_ledger_def)
qed

lemma advance_carries:
  assumes "internal_advance_queue e c = Inr c'" and "queue_inv c"
  shows "carries c c'" and "same_ledger c c'"
proof -
  obtain k where k: "advances e c c' k" using advance_effect [OF assms] by blast
  show "same_ledger c c'" using k by (simp add: advances_def)
  have "rel_option carried (stored c i) (stored c' i)" for i
  proof -
    consider (promoted) p' where "i \<in> set (vo_pending_queue c)" "stored c' i = Some p'" "promoted e c i p'"
      | (active) p' where "stored c' i = Some p'" "fresh e c i = Some p'" | (other) "stored c' i = stored c i"
      using k advances_promoted [OF k] unfolding advances_def by (metis in_set_takeD)
    then show ?thesis
    proof cases
      case promoted
      then obtain p t where p: "stored c i = Some p" "update_proposal (block_timestamp e) (activate t p) = Inr p'"
        by (auto simp: promoted_def)
      have q: "pr_status p = Queued" "life_ok p"
        using promoted(1) p(1) assms(2) ids_ok_stored by (auto simp: queue_inv_def line_ok_def)
      have "life_ok (activate t p)" by (rule activate_life_ok) (rule queued_no_bond [OF q(2,1)])
      then have "carried p p'" using carried_trans [OF carried_activate [OF q(1)] carried_update [OF p(2)]] by simp
      then show ?thesis using p promoted by simp
    next
      case active
      then obtain p where p: "stored c i = Some p" "update_proposal (block_timestamp e) p = Inr p'" by (auto simp: fresh_eq)
      have "life_ok p" using p(1) assms(2) ids_ok_stored by (auto simp: queue_inv_def)
      then show ?thesis using p active carried_update [OF p(2)] by simp
    next
      case other
      then show ?thesis by (simp add: option.rel_refl)
    qed
  qed
  then show "carries c c'" by (simp add: carries_def)
qed

lemma advance_keeps:
  assumes "internal_advance_queue e c = Inr c'" and "voting_inv X V roll c"
  shows "voting_inv X V roll c'"
  using assms advance_inv advance_carries carries_books by (meson voting_inv_def)

lemma fresh_carried:
  assumes "fresh e c i = Some p'" and "queue_inv c"
  obtains p where "stored c i = Some p" "carried p p'" "pr_status p' \<noteq> Queued \<Longrightarrow> pr_status p \<noteq> Queued"
proof -
  obtain p where p: "stored c i = Some p" "update_proposal (block_timestamp e) p = Inr p'" using assms(1) by (auto simp: fresh_eq)
  have "life_ok p" using p(1) assms(2) ids_ok_stored by (auto simp: queue_inv_def)
  then have "carried p p'" by (rule carried_update [OF p(2)])
  moreover have "pr_status p \<noteq> Queued" if "pr_status p' \<noteq> Queued" using that p(2) by (auto simp: update_inert)
  ultimately show thesis using p(1) that by blast
qed

section \<open>Writing a proposal\<close>

text \<open>Writing back a proposal that has left, or never entered, the queue.\<close>

lemma write_queue_inv:
  assumes "internal_set_proposal p' c = Inr c'" and "queue_inv c" and "life_ok p'"
    and "stored c (pr_id p') = Some p" and "pr_status p \<noteq> Queued" and "pr_status p' \<noteq> Queued"
  shows "queue_inv c'" and "stored c' = (stored c)(pr_id p' \<mapsto> p')" and "same_ledger c c'"
proof -
  have s: "slots_ok c" using assms(2) by (simp add: queue_inv_def)
  note w = set_proposal_effect [OF assms(1) s]
  show "stored c' = (stored c)(pr_id p' \<mapsto> p')" "same_ledger c c'" by (rule w)+
  have "ids_ok c'" using assms(2,3) w(3) by (auto simp: queue_inv_def ids_ok_def w(1) same_ledger_def)
  moreover have "line_ok c'" using assms(2,4-6) by (auto simp: queue_inv_def line_ok_def w(1,4))
  ultimately show "queue_inv c'" using w(2) by (simp add: queue_inv_def)
qed

lemma books_ok_proposal:
  assumes "books_ok X V roll c" and "stored c i = Some p"
  shows "book_ok X V roll (ballots_of c i) p"
  using assms unfolding books_ok_def by (metis page_ok.simps(2))

lemma books_ok_write:
  assumes "books_ok X V roll c" and "stored c' = (stored c)(i \<mapsto> p')" and "length (vo_proposals c') = length (vo_proposals c)"
    and "vo_metadata c' = vo_metadata c" and "\<And>j. j \<noteq> i \<Longrightarrow> ballots_of c' j = ballots_of c j"
    and "book_ok X V roll (ballots_of c' i) p'"
  shows "books_ok X V roll c'"
  using assms by (auto simp: books_ok_def)

lemma write_keeps:
  assumes inv: "voting_inv X V roll c" and r: "internal_set_proposal p' c = Inr c'"
    and f: "fresh e c i = Some p" and p': "pr_id p' = i" "life_ok p'" "pr_status p' \<noteq> Queued" "pr_status p \<noteq> Queued"
    and t: "pr_votes p' = pr_votes p" "pr_total_votes p' = pr_total_votes p"
      "pr_snapshot_and_state p' = pr_snapshot_and_state p"
  shows "voting_inv X V roll c'" and "stored c' = (stored c)(i \<mapsto> p')" and "same_ledger c c'"
proof -
  have q: "queue_inv c" and b: "books_ok X V roll c" using inv by (simp_all add: voting_inv_def)
  obtain p0 where p0: "stored c i = Some p0" "carried p0 p" "pr_status p0 \<noteq> Queued"
    by (rule fresh_carried [OF f q]) (use p'(4) in blast)
  note w = write_queue_inv [OF r q p'(2) _ p0(3) p'(3), unfolded p'(1), OF p0(1)]
  show "stored c' = (stored c)(i \<mapsto> p')" "same_ledger c c'" by (rule w)+
  have bo: "ballots_of c' j = ballots_of c j" for j using w(3) by (simp add: ballots_of_def same_ledger_def)
  have "book_ok X V roll (ballots_of c i) p" using books_ok_proposal [OF b p0(1)] carried_book [OF p0(2)] by simp
  then have "book_ok X V roll (ballots_of c' i) p'" using t bo by (simp add: book_ok_def tally_ok_def roll_of_def)
  then have "books_ok X V roll c'"
    by (intro books_ok_write [OF b w(2)]) (use w(3) bo in \<open>simp_all add: same_ledger_def\<close>)
  then show "voting_inv X V roll c'" using w(1) by (simp add: voting_inv_def)
qed

lemma voting_inv_cong:
  assumes "vo_proposals c' = vo_proposals c" "vo_active_proposals c' = vo_active_proposals c"
    "vo_pending_queue c' = vo_pending_queue c" "vo_votes c' = vo_votes c" "vo_metadata c' = vo_metadata c"
  shows "voting_inv X V roll c' \<longleftrightarrow> voting_inv X V roll c"
  using queue_inv_cong [OF assms(1-3)] stored_cong [OF assms(1)] assms
  by (simp add: voting_inv_def books_ok_def ballots_of_def)

lemma voting_inv_notify [simp]: "voting_inv X V roll (notify x c) = voting_inv X V roll c"
  by (rule voting_inv_cong) simp_all

end
