(* ===== verification/Voting_Steps.thy ===== *)
theory Voting_Steps
  imports Voting_Invariant
begin

text \<open>
  What each method of the voting contract does, stated over the abstract state: a method advances
  the queue, edits one proposal (\<open>edits\<close>), and leaves the rest alone. From these facts every
  accepted call keeps \<open>voting_inv\<close> and moves each proposal along its life cycle (\<open>progress\<close>).
\<close>

section \<open>Editing one proposal\<close>

lemma set_proposal_notify:
  "internal_set_proposal p (notify x c) = Inr c' \<longleftrightarrow> (\<exists>c1. internal_set_proposal p c = Inr c1 \<and> c' = notify x c1)"
  by (auto simp: internal_set_proposal_def notify_def Let_def res_simps)

definition edits :: "env \<Rightarrow> voting \<Rightarrow> proposal_id \<Rightarrow> proposal \<Rightarrow> proposal \<Rightarrow> voting_effect list \<Rightarrow> voting \<Rightarrow> bool" where
  "edits e c i p p' xs c' \<longleftrightarrow> fresh e c i = Some p
     \<and> (\<exists>c1. internal_set_proposal p' c = Inr c1 \<and> c' = c1\<lparr>vo_outbox := vo_outbox c1 @ xs\<rparr>)"

definition progress :: "voting \<Rightarrow> voting \<Rightarrow> bool" where
  "progress c c' \<longleftrightarrow> (\<forall>i p. stored c i = Some p \<longrightarrow> (\<exists>p'. stored c' i = Some p' \<and> pr_flow p' = pr_flow p
     \<and> pr_actions p' = pr_actions p \<and> life_path (pr_flow p) (pr_status p) (pr_status p')))"

lemma progress_trans:
  assumes "progress a b" "progress b c"
  shows "progress a c"
  unfolding progress_def
proof (intro allI impI)
  fix i p
  assume "stored a i = Some p"
  then obtain q where q: "stored b i = Some q" "pr_flow q = pr_flow p" "pr_actions q = pr_actions p"
    "life_path (pr_flow p) (pr_status p) (pr_status q)"
    using assms(1) by (auto simp: progress_def)
  then obtain r where "stored c i = Some r" "pr_flow r = pr_flow q" "pr_actions r = pr_actions q" "life_path (pr_flow q) (pr_status q) (pr_status r)"
    using assms(2) unfolding progress_def by blast
  then show "\<exists>p'. stored c i = Some p' \<and> pr_flow p' = pr_flow p \<and> pr_actions p' = pr_actions p
      \<and> life_path (pr_flow p) (pr_status p) (pr_status p')"
    using q by auto
qed

lemma progress_same: "stored c' = stored c \<Longrightarrow> progress c c'"
  by (simp add: progress_def)

lemma progress_carries: "carries c c' \<Longrightarrow> progress c c'"
  unfolding progress_def using carries_Some carried_def by blast

lemma advance_progress: "internal_advance_queue e c = Inr c' \<Longrightarrow> queue_inv c \<Longrightarrow> progress c c'"
  by (rule progress_carries [OF advance_carries(1)])

text \<open>An edit that does not touch the ballot and does not concern the queue.\<close>

definition moves_to :: "proposal \<Rightarrow> proposal \<Rightarrow> bool" where
  "moves_to p p' \<longleftrightarrow> pr_id p' = pr_id p \<and> pr_flow p' = pr_flow p \<and> pr_actions p' = pr_actions p \<and> pr_votes p' = pr_votes p
     \<and> pr_total_votes p' = pr_total_votes p \<and> pr_snapshot_and_state p' = pr_snapshot_and_state p
     \<and> pr_status p \<noteq> Queued \<and> pr_status p' \<noteq> Queued \<and> life_path (pr_flow p) (pr_status p) (pr_status p') \<and> life_ok p'"

lemma edits_stored:
  assumes "edits e c i p p' xs c'" and "queue_inv c" and "pr_id p' = i"
  shows "stored c' = (stored c)(i \<mapsto> p')" and "vo_config c' = vo_config c" and "vo_votes c' = vo_votes c"
    and "vo_outbox c' = vo_outbox c @ xs" and "vo_paused c' = vo_paused c"
    and "vo_metadata c' = vo_metadata c" and "length (vo_proposals c') = length (vo_proposals c)"
proof -
  obtain c1 where c1: "internal_set_proposal p' c = Inr c1" and c': "c' = c1\<lparr>vo_outbox := vo_outbox c1 @ xs\<rparr>"
    using assms(1) by (auto simp: edits_def)
  note w = set_proposal_effect [OF c1 conjunct1 [OF conjunct2 [OF assms(2) [unfolded queue_inv_def]]]]
  have "stored c' = stored c1" by (rule stored_cong) (simp add: c')
  then show "stored c' = (stored c)(i \<mapsto> p')" using w(1) assms(3) by simp
  show "vo_config c' = vo_config c" "vo_votes c' = vo_votes c" "vo_outbox c' = vo_outbox c @ xs" "vo_paused c' = vo_paused c"
    "vo_metadata c' = vo_metadata c" "length (vo_proposals c') = length (vo_proposals c)"
    using w(3) by (simp_all add: c' same_ledger_def)
qed

lemma edits_progress:
  assumes "edits e c i p p' xs c'" and "queue_inv c" and "pr_id p' = i"
    and "pr_flow p' = pr_flow p" "life_path (pr_flow p) (pr_status p) (pr_status p')" "pr_actions p' = pr_actions p"
  shows "progress c c'"
proof -
  have f: "fresh e c i = Some p" using assms(1) by (simp add: edits_def)
  note s = edits_stored(1) [OF assms(1-3)]
  obtain p0 where p0: "stored c i = Some p0" "carried p0 p" by (rule fresh_carried [OF f assms(2)])
  show ?thesis
    unfolding progress_def
  proof (intro allI impI)
    fix j q
    assume q: "stored c j = Some q"
    show "\<exists>q'. stored c' j = Some q' \<and> pr_flow q' = pr_flow q \<and> pr_actions q' = pr_actions q
        \<and> life_path (pr_flow q) (pr_status q) (pr_status q')"
    proof (cases "j = i")
      case True
      then have "q = p0" using p0 q by simp
      moreover have "life_path (pr_flow p0) (pr_status p0) (pr_status p')"
        using p0(2) assms(5) by (auto simp: carried_def)
      ultimately show ?thesis using p0(2) s True assms(4,6) by (simp add: carried_def)
    qed (use s q in auto)
  qed
qed

lemma moves_keeps:
  assumes "voting_inv X V roll c" and "edits e c i p p' xs c'" and "moves_to p p'"
  shows "voting_inv X V roll c'" and "progress c c'" and "pr_id p' = i"
proof -
  have q: "queue_inv c" using assms(1) by (simp add: voting_inv_def)
  have f: "fresh e c i = Some p" using assms(2) by (simp add: edits_def)
  show i: "pr_id p' = i" using fresh_facts(1) [OF f q] assms(3) by (simp add: moves_to_def)
  obtain c1 where c1: "internal_set_proposal p' c = Inr c1" and c': "c' = c1\<lparr>vo_outbox := vo_outbox c1 @ xs\<rparr>"
    using assms(2) by (auto simp: edits_def)
  have m: "pr_flow p' = pr_flow p" "life_path (pr_flow p) (pr_status p) (pr_status p')" "life_ok p'" "pr_status p' \<noteq> Queued"
    "pr_status p \<noteq> Queued" "pr_votes p' = pr_votes p" "pr_total_votes p' = pr_total_votes p"
    "pr_snapshot_and_state p' = pr_snapshot_and_state p" "pr_actions p' = pr_actions p"
    using assms(3) by (simp_all add: moves_to_def)
  have "voting_inv X V roll c1" by (rule write_keeps(1) [OF assms(1) c1 f i m(3-8)])
  then show "voting_inv X V roll c'" by (subst voting_inv_cong [of _ c1]) (simp_all add: c')
  show "progress c c'" by (rule edits_progress [OF assms(2) q i m(1,2,9)])
qed

section \<open>The methods\<close>

lemma fresh_notify [simp]: "fresh e (notify x c) i = fresh e c i"
  by (simp add: fresh_def)

lemma edits_notify:
  assumes "fresh e c i = Some p" and "internal_set_proposal p' (notify x c) = Inr c'"
  shows "edits e c i p p' [x] c'"
  using assms unfolding edits_def set_proposal_notify by (auto simp: notify_def)

lemmas guards = voting_assert_not_paused_def assert_called_by_reviewer_def assert_called_by_council_def

lemma reject_edits:
  assumes "reject_proposal e i c = Inr c'"
  obtains p where "pr_status p = Created"
    "edits e c i p (p\<lparr>pr_reviewer_id := Some (predecessor e), pr_status := Rejected\<rparr>)
       [Proposal_Event ''reject_proposal'' (predecessor e) i] c'"
    "predecessor e \<in> set (cf_reviewer_ids (vo_config c))" "attached_deposit e = 1" "\<not> vo_paused c"
  using assms
  by (auto simp: reject_proposal_def guards res_simps expect_updated_eq intro: edits_notify)

lemma forfeit_bond_eq:
  "forfeit_bond p c = ((if 0 < pr_bond_amount p then notify (Pay (cf_treasury_account_id (vo_config c)) (pr_bond_amount p)) c else c),
     p\<lparr>pr_bond_amount := 0\<rparr>)"
  by (simp add: forfeit_bond_def)

lemma snd_forfeit_bond [simp]: "snd (forfeit_bond p c) = p\<lparr>pr_bond_amount := 0\<rparr>"
  by (simp add: forfeit_bond_eq)

definition bond_payment :: "voting \<Rightarrow> proposal \<Rightarrow> voting_effect list" where
  "bond_payment c p = (if 0 < pr_bond_amount p then [Pay (cf_treasury_account_id (vo_config c)) (pr_bond_amount p)] else [])"

lemma edits_forfeit:
  assumes "fresh e c i = Some p" and "internal_set_proposal p' (fst (forfeit_bond p1 (notify x c))) = Inr c'"
    and "pr_bond_amount p1 = pr_bond_amount p"
  shows "edits e c i p p' (x # bond_payment c p) c'"
proof (cases "0 < pr_bond_amount p")
  case True
  let ?y = "Pay (cf_treasury_account_id (vo_config c)) (pr_bond_amount p)"
  have "fst (forfeit_bond p1 (notify x c)) = notify ?y (notify x c)" using assms(3) True by (simp add: forfeit_bond_eq)
  then obtain c1 where "internal_set_proposal p' c = Inr c1" "c' = notify ?y (notify x c1)"
    using assms(2) by (auto simp: set_proposal_notify)
  then show ?thesis using assms(1) True by (auto simp: edits_def bond_payment_def notify_def)
next
  case False
  then have "fst (forfeit_bond p1 (notify x c)) = notify x c" using assms(3) by (simp add: forfeit_bond_eq)
  then show ?thesis using assms(1,2) False by (auto simp: bond_payment_def intro: edits_notify)
qed

lemma slash_edits:
  assumes "slash_proposal e i c = Inr c'"
  obtains p where "pr_status p = Created" "pr_flow p = FastTrack"
    "edits e c i p (p\<lparr>pr_status := Slashed, pr_bond_amount := 0\<rparr>)
       (Proposal_Event ''slash_proposal'' (predecessor e) i # bond_payment c p) c'"
    "predecessor e \<in> set (cf_reviewer_ids (vo_config c))" "attached_deposit e = 1" "\<not> vo_paused c"
proof -
  obtain p where p: "fresh e c i = Some p" "pr_status p = Created" "pr_flow p = FastTrack"
    "internal_set_proposal (p\<lparr>pr_status := Slashed, pr_bond_amount := 0\<rparr>) (fst (forfeit_bond (p\<lparr>pr_status := Slashed\<rparr>)
        (notify (Proposal_Event ''slash_proposal'' (predecessor e) i) c))) = Inr c'"
    "predecessor e \<in> set (cf_reviewer_ids (vo_config c))" "attached_deposit e = 1" "\<not> vo_paused c"
    using assms by (auto simp: slash_proposal_def guards res_simps expect_updated_eq Let_def case_prod_beta)
  with edits_forfeit [OF p(1,4)] show thesis by (intro that) simp_all
qed

lemma claim_edits:
  assumes "claim_bond e i c = Inr c'"
  obtains p where "pr_status p \<in> {Expired, Rejected}" "pr_flow p = FastTrack" "0 < pr_bond_amount p"
    "edits e c i p (p\<lparr>pr_bond_amount := 0\<rparr>) [Pay (pr_proposer_id p) (pr_bond_amount p)] c'"
    "pr_proposer_id p = predecessor e" "attached_deposit e = 0"
  using assms by (auto simp: claim_bond_def res_simps expect_updated_eq edits_def notify_def)

lemma veto_edits:
  assumes "veto_proposal e i c0 = Inr c'"
  obtains c p c1 where "internal_advance_queue e c0 = Inr c" "can_be_vetoed (pr_flow p) (pr_status p)"
    "edits e c i p (p\<lparr>pr_rejecter_id := Some (predecessor e), pr_status := Vetoed\<rparr>)
       [Proposal_Event ''veto_proposal'' (predecessor e) i] c1"
    "internal_advance_queue e c1 = Inr c'" "predecessor e \<in> set (cf_council_ids (vo_config c0))" "attached_deposit e = 1" "\<not> vo_paused c0"
  using assms by (auto simp: veto_proposal_def guards res_simps expect_updated_eq intro: edits_notify)

lemma noveto_edits:
  assumes "noveto_proposal e i c = Inr c'"
  obtains p c1 where "pr_status p = Timelock"
    "edits e c i p (p\<lparr>pr_status := if has_actions p then Executable else Succeeded\<rparr>)
       [Proposal_Event ''noveto_proposal'' (predecessor e) i] c1"
    "internal_advance_queue e c1 = Inr c'" "predecessor e \<in> set (cf_council_ids (vo_config c))" "attached_deposit e = 1" "\<not> vo_paused c"
  using assms by (auto simp: noveto_proposal_def guards res_simps expect_updated_eq intro: edits_notify)

lemma execute_edits:
  assumes "execute_proposal e i c0 = Inr c'"
  obtains c p actions where "internal_advance_queue e c0 = Inr c" "pr_status p = Executable" "pr_actions p = Some actions"
    "edits e c i p (p\<lparr>pr_status := InProgress\<rparr>)
       [Proposal_Event ''execute_proposal'' (predecessor e) i, Run_Actions i actions] c'" "attached_deposit e = 0" "\<not> vo_paused c0"
proof -
  obtain c p actions c2 where 1: "internal_advance_queue e c0 = Inr c" "fresh e c i = Some p" "pr_status p = Executable"
    "pr_actions p = Some actions" "attached_deposit e = 0" "\<not> vo_paused c0"
    and 2: "internal_set_proposal (p\<lparr>pr_status := InProgress\<rparr>) (notify (Proposal_Event ''execute_proposal'' (predecessor e) i) c) = Inr c2"
      "c' = notify (Run_Actions i actions) c2"
    using assms by (auto simp: execute_proposal_def guards res_simps expect_updated_eq)
  have "edits e c i p (p\<lparr>pr_status := InProgress\<rparr>)
      [Proposal_Event ''execute_proposal'' (predecessor e) i, Run_Actions i actions] c'"
    using 2 1(2) unfolding edits_def set_proposal_notify by (auto simp: notify_def)
  with 1 show thesis by (intro that)
qed

lemma on_execute_edits:
  assumes "on_execute_proposal e rs i c0 = Inr c'"
  obtains c p where "internal_advance_queue e c0 = Inr c"
    "edits e c i p (p\<lparr>pr_status := if list_all (\<lambda>r. r) rs then Succeeded else Failed\<rparr>)
       [Execute_Result i (list_all (\<lambda>r. r) rs)] c'" "attached_deposit e = 0" "predecessor e = current_account e"
proof -
  let ?s = "if list_all (\<lambda>r. r) rs then Succeeded else Failed"
  obtain c p where 1: "internal_advance_queue e c0 = Inr c" "fresh e c i = Some p" "attached_deposit e = 0"
    "predecessor e = current_account e"
    "internal_set_proposal (p\<lparr>pr_status := ?s\<rparr>) (notify (Execute_Result i (list_all (\<lambda>r. r) rs)) c) = Inr c'"
    using assms by (auto simp: on_execute_proposal_def res_simps expect_updated_eq Let_def)
  from edits_notify [OF 1(2,5)] 1 show thesis by (intro that)
qed

text \<open>Creating a proposal appends it under the next index.\<close>

lemma new_proposal_facts:
  assumes "new_proposal e cfg i actions flow = Inr p"
  shows "pr_id p = i" "pr_status p = Created" "pr_flow p = flow" "pr_snapshot_and_state p = None" "pr_actions p = actions"
    "pr_votes p = replicate 3 vote_stats_default" "pr_total_votes p = vote_stats_default" "life_ok p"
    "pr_bond_amount p = (case flow of Classic \<Rightarrow> 0 | FastTrack \<Rightarrow> cf_bond_amount cfg)"
  using assms by (cases flow; auto simp: new_proposal_def Let_def and_then_eq_Inr life_defs)+

lemma create_effect:
  assumes "create_proposal X e md actions flow c = Inr (c', i)"
  obtains p refund where "i = length (vo_proposals c)" "actions \<noteq> Some []" "\<not> vo_paused c"
    "new_proposal e (vo_config c) i actions flow = Inr p" "vo_proposals c' = vo_proposals c @ [VProposal_Current p]"
    "vo_metadata c' = vo_metadata c @ [VMetadata_Current md]" "vo_votes c' = vo_votes c" "vo_config c' = vo_config c"
    "vo_active_proposals c' = vo_active_proposals c" "vo_pending_queue c' = vo_pending_queue c" "vo_paused c' = vo_paused c"
    "vo_outbox c' = vo_outbox c @ Proposal_Event ''create_proposal'' (predecessor e) i #
       (if 0 < refund then [Pay (predecessor e) refund] else [])"
    "refund + pr_bond_amount p \<le> attached_deposit e"
proof -
  let ?c1 = "notify (Proposal_Event ''create_proposal'' (predecessor e) (length (vo_proposals c))) c"
  obtain p req where 1: "\<not> vo_paused c" "actions \<noteq> Some []" "i = length (vo_proposals c)"
    and p: "new_proposal e (vo_config c) i actions flow = Inr p"
    and req: "required_deposit X (pr_bond_amount p) (cf_base_proposal_fee (vo_config c)) (vx_storage_usage X ?c1)
       (vx_storage_usage X (?c1\<lparr>vo_proposals := vo_proposals c @ [VProposal_Current p],
         vo_metadata := vo_metadata c @ [VMetadata_Current md]\<rparr>)) = Inr req" "req \<le> attached_deposit e"
    and c': "(if req < attached_deposit e
          then and_then (near_sub (attached_deposit e) req) (\<lambda>refund. Inr (notify (Pay (predecessor e) refund)
             (?c1\<lparr>vo_proposals := vo_proposals c @ [VProposal_Current p], vo_metadata := vo_metadata c @ [VMetadata_Current md]\<rparr>)))
          else Inr (?c1\<lparr>vo_proposals := vo_proposals c @ [VProposal_Current p],
             vo_metadata := vo_metadata c @ [VMetadata_Current md]\<rparr>)) = Inr c'"
    using assms unfolding create_proposal_def and_then_eq_Inr guards require_eq_Inr Let_def by (auto cong: if_cong)
  have b: "pr_bond_amount p \<le> req" using req(1) by (auto simp: required_deposit_def Let_def and_then_eq_Inr near_add_eq_Inr)
  show thesis
    by (rule that [OF 1(3,2,1) p, of "attached_deposit e - req"])
      (use b req(2) c' 1 in \<open>auto simp: and_then_eq_Inr near_sub_eq_Inr split: if_splits\<close>)
qed

lemma create_keeps:
  assumes "create_proposal X e md actions flow c = Inr (c', i)" and "voting_inv X V roll c"
  shows "voting_inv X V roll c'" and "progress c c'"
proof -
  obtain p where 1: "i = length (vo_proposals c)" "vo_proposals c' = vo_proposals c @ [VProposal_Current p]"
    "vo_metadata c' = vo_metadata c @ [VMetadata_Current md]" "vo_votes c' = vo_votes c"
    "vo_active_proposals c' = vo_active_proposals c" "vo_pending_queue c' = vo_pending_queue c"
    and np: "new_proposal e (vo_config c) i actions flow = Inr p"
    by (rule create_effect [OF assms(1)])
  let ?p = p and ?n = "length (vo_proposals c)"
  note p = new_proposal_facts [OF np]
  have q: "ids_ok c" "slots_ok c" "line_ok c" and b: "books_ok X V roll c"
    using assms(2) by (auto simp: voting_inv_def queue_inv_def)
  have s: "stored c' = (stored c)(?n \<mapsto> ?p)"
    by (auto simp: stored_def 1(2) nth_append fun_eq_iff split: if_splits)
  have n: "stored c ?n = None" by (simp add: stored_def)
  have "ids_ok c'" using q(1) p(1,8) 1(1) by (auto simp: ids_ok_def s 1(2) less_Suc_eq)
  moreover have "slots_ok c'" using q(2) n p(2) by (auto simp: slots_ok_def s 1(5) is_active_status_def)
  moreover have "line_ok c'" using q(3) n p(2) by (auto simp: line_ok_def s 1(6))
  moreover have "books_ok X V roll c'"
  proof -
    have "page_ok X V roll (ballots_of c j) (stored c j)" for j using b by (simp add: books_ok_def)
    from this [of ?n] have e: "ballots_of c ?n = Map.empty" using n by simp
    have "tally_ok (\<lambda>_. 0) Map.empty ?p"
      by (auto simp: tally_ok_def p voters_def vote_stats_default_def)
    then have "book_ok X V roll (ballots_of c ?n) ?p" by (simp add: book_ok_def roll_of_def e p)
    then show ?thesis using b by (simp add: books_ok_def s 1(2,3) ballots_of_def 1(4))
  qed
  ultimately show "voting_inv X V roll c'" by (simp add: voting_inv_def queue_inv_def)
  show "progress c c'" using n by (auto simp: progress_def s)
qed

text \<open>Approval fixes the terms of the ballot, and starts the proposal or puts it at the end of the queue.\<close>

lemma set_terms_facts:
  assumes "set_terms cfg m p = Inr p'"
  shows "pr_id p' = pr_id p" "pr_flow p' = pr_flow p" "pr_votes p' = pr_votes p" "pr_total_votes p' = pr_total_votes p"
    "pr_snapshot_and_state p' = pr_snapshot_and_state p" "pr_status p' = pr_status p" "pr_bond_amount p' = pr_bond_amount p"
    "pr_actions p' = pr_actions p"
  using assms by (auto simp: set_terms_def and_then_eq_Inr split: proposal_flow.splits)

definition approved :: "env \<Rightarrow> voting_config \<Rightarrow> majority_type option \<Rightarrow> proposal \<Rightarrow> proposal res" where
  "approved e cfg m p = set_terms cfg m (p\<lparr>pr_reviewer_id := Some (predecessor e), pr_approval_time_ns := Some (block_timestamp e),
     pr_quorum_threshold_bps := cf_quorum_threshold_bps cfg, pr_quorum_floor := cf_quorum_floor cfg, pr_bond_amount := 0\<rparr>)"

lemma approved_facts:
  assumes "approved e cfg m p = Inr p'"
  shows "pr_id p' = pr_id p" "pr_flow p' = pr_flow p" "pr_votes p' = pr_votes p" "pr_total_votes p' = pr_total_votes p"
    "pr_snapshot_and_state p' = pr_snapshot_and_state p" "pr_status p' = pr_status p" "pr_bond_amount p' = 0"
    "pr_actions p' = pr_actions p"
  using set_terms_facts [OF assms [unfolded approved_def]] by simp_all

lemma approve_edits:
  assumes "approve_proposal e i m c0 = Inr (c', info)"
  obtains (started) c p p' where "internal_advance_queue e c0 = Inr c" "pr_status p = Created"
      "approved e (vo_config c) m p = Inr p'" "length (vo_active_proposals c) < cf_max_active_proposals (vo_config c)"
      "edits e c i p (activate (block_timestamp e) p')
         (Proposal_Event ''approve_proposal'' (predecessor e) i # bond_payment c p
           @ [Fetch_Snapshot (cf_venear_account_id (vo_config c)) i]) c'"
      "predecessor e \<in> set (cf_reviewer_ids (vo_config c0))" "attached_deposit e = 1" "\<not> vo_paused c0"
  | (queued) c p p' c3 where "internal_advance_queue e c0 = Inr c" "pr_status p = Created"
      "approved e (vo_config c) m p = Inr p'" "cf_max_active_proposals (vo_config c) \<le> length (vo_active_proposals c)"
      "edits e c i p (p'\<lparr>pr_status := Queued\<rparr>)
         (Proposal_Event ''approve_proposal'' (predecessor e) i # bond_payment c p) c3"
      "c' = c3\<lparr>vo_pending_queue := vo_pending_queue c3 @ [i]\<rparr>"
      "predecessor e \<in> set (cf_reviewer_ids (vo_config c0))" "attached_deposit e = 1" "\<not> vo_paused c0"
proof -
  let ?ev = "Proposal_Event ''approve_proposal'' (predecessor e) i"
  obtain c p where c: "internal_advance_queue e c0 = Inr c" "fresh e c i = Some p" "pr_status p = Created"
    "predecessor e \<in> set (cf_reviewer_ids (vo_config c0))" "attached_deposit e = 1" "\<not> vo_paused c0"
    and mj: "\<not> (pr_flow p = FastTrack \<and> m = None)"
    using assms by (auto simp: approve_proposal_def guards res_simps expect_updated_eq Let_def)
  define p1 where "p1 = p\<lparr>pr_reviewer_id := Some (predecessor e), pr_approval_time_ns := Some (block_timestamp e),
     pr_quorum_threshold_bps := cf_quorum_threshold_bps (vo_config c), pr_quorum_floor := cf_quorum_floor (vo_config c)\<rparr>"
  define c2 where "c2 = fst (forfeit_bond p1 (notify ?ev c))"
  have c2': "vo_active_proposals c2 = vo_active_proposals c" by (simp add: c2_def forfeit_bond_eq)
  have b1: "pr_bond_amount p1 = pr_bond_amount p" by (simp add: p1_def)
  have r: "and_then (set_terms (vo_config c) m (p1\<lparr>pr_bond_amount := 0\<rparr>)) (\<lambda>p3.
     if length (vo_active_proposals c2) < cf_max_active_proposals (vo_config c)
     then and_then (internal_set_proposal (activate (block_timestamp e) p3) c2) (\<lambda>c3.
          Inr (notify (Fetch_Snapshot (cf_venear_account_id (vo_config c)) i) c3, None))
     else and_then (internal_set_proposal (p3\<lparr>pr_status := Queued\<rparr>) c2) (\<lambda>c3.
          let c4 = c3\<lparr>vo_pending_queue := vo_pending_queue c3 @ [i]\<rparr> in
          and_then (get_proposal e c4 i) (\<lambda>info. Inr (c4, info)))) = Inr (c', info)"
  proof -
    have "internal_expect_proposal_updated e c i = Inr p" using c(2) by (simp add: expect_updated_eq)
    then show ?thesis
      using assms c mj
      by (simp add: approve_proposal_def guards assert_one_yocto_def Let_def case_prod_beta p1_def c2_def cong: if_cong)
  qed
  then obtain p' where p': "approved e (vo_config c) m p = Inr p'"
    and r': "(if length (vo_active_proposals c) < cf_max_active_proposals (vo_config c)
     then and_then (internal_set_proposal (activate (block_timestamp e) p') c2) (\<lambda>c3.
          Inr (notify (Fetch_Snapshot (cf_venear_account_id (vo_config c)) i) c3, None))
     else and_then (internal_set_proposal (p'\<lparr>pr_status := Queued\<rparr>) c2) (\<lambda>c3.
          let c4 = c3\<lparr>vo_pending_queue := vo_pending_queue c3 @ [i]\<rparr> in
          and_then (get_proposal e c4 i) (\<lambda>info. Inr (c4, info)))) = Inr (c', info)"
    unfolding and_then_eq_Inr c2' approved_def p1_def by auto
  show thesis
  proof (cases "length (vo_active_proposals c) < cf_max_active_proposals (vo_config c)")
    case True
    with r' obtain c3 where c3: "internal_set_proposal (activate (block_timestamp e) p') c2 = Inr c3"
      "c' = notify (Fetch_Snapshot (cf_venear_account_id (vo_config c)) i) c3" by (auto simp: and_then_eq_Inr)
    from edits_forfeit [OF c(2) c3(1) [unfolded c2_def] b1] c3(2)
    have "edits e c i p (activate (block_timestamp e) p') (?ev # bond_payment c p
        @ [Fetch_Snapshot (cf_venear_account_id (vo_config c)) i]) c'"
      by (auto simp: edits_def notify_def)
    with c p' True show thesis by (intro that(1))
  next
    case False
    with r' obtain c3 where c3: "internal_set_proposal (p'\<lparr>pr_status := Queued\<rparr>) c2 = Inr c3"
      "c' = c3\<lparr>vo_pending_queue := vo_pending_queue c3 @ [i]\<rparr>" by (auto simp: and_then_eq_Inr Let_def)
    from edits_forfeit [OF c(2) c3(1) [unfolded c2_def] b1] c p' False c3(2) show thesis by (intro that(2)) auto
  qed
qed

lemma fresh_life:
  assumes "fresh e c i = Some p" and "voting_inv X V roll c"
  shows "pr_id p = i" "life_ok p" "book_ok X V roll (ballots_of c i) p"
proof -
  have q: "queue_inv c" and b: "books_ok X V roll c" using assms(2) by (simp_all add: voting_inv_def)
  show "pr_id p = i" "life_ok p" by (rule fresh_facts [OF assms(1) q])+
  obtain p0 where "stored c i = Some p0" "carried p0 p" by (rule fresh_carried [OF assms(1) q])
  then show "book_ok X V roll (ballots_of c i) p" using books_ok_proposal [OF b] carried_book by blast
qed

lemma queue_up_keeps:
  assumes inv: "voting_inv X V roll c" and ed: "edits e c i p p' xs c3" and p: "pr_status p = Created"
    and p': "pr_id p' = i" "pr_status p' = Queued" "life_ok p'" "pr_flow p' = pr_flow p" "pr_votes p' = pr_votes p"
      "pr_total_votes p' = pr_total_votes p" "pr_snapshot_and_state p' = pr_snapshot_and_state p"
      "pr_actions p' = pr_actions p"
    and c': "c' = c3\<lparr>vo_pending_queue := vo_pending_queue c3 @ [i]\<rparr>"
  shows "voting_inv X V roll c'" and "progress c c'"
proof -
  have q: "queue_inv c" and b: "books_ok X V roll c" using inv by (simp_all add: voting_inv_def)
  have f: "fresh e c i = Some p" using ed by (simp add: edits_def)
  obtain c1 where c1: "internal_set_proposal p' c = Inr c1" and c3: "c3 = c1\<lparr>vo_outbox := vo_outbox c1 @ xs\<rparr>"
    using ed by (auto simp: edits_def)
  have "slots_ok c" using q by (simp add: queue_inv_def)
  note w = set_proposal_effect [OF c1 this, unfolded p'(1)]
  have s: "stored c' = (stored c)(i \<mapsto> p')" using w(1) stored_cong [of c' c1] by (simp add: c' c3)
  obtain p0 where p0: "stored c i = Some p0" "update_proposal (block_timestamp e) p0 = Inr p" using f by (auto simp: fresh_eq)
  then have "p0 = p" using update_waiting [OF p0(2)] p by simp
  then have i: "i \<notin> set (vo_pending_queue c)" using p0(1) p q by (auto simp: queue_inv_def line_ok_def)
  have "ids_ok c'" using q p'(1,3) w(3) by (auto simp: queue_inv_def ids_ok_def s) (auto simp: c' c3 same_ledger_def)
  moreover have "slots_ok c'" using w(2) by (simp add: slots_ok_def s w(1)) (simp add: c' c3)
  moreover have "line_ok c'"
    using q i p'(2) w(4) by (auto simp: queue_inv_def line_ok_def s) (auto simp: c' c3)
  moreover have "books_ok X V roll c'"
  proof (rule books_ok_write [OF b s])
    have "book_ok X V roll (ballots_of c i) p'"
      using fresh_life(3) [OF f inv] p'(5-7) by (simp add: book_ok_def tally_ok_def roll_of_def)
    then show "book_ok X V roll (ballots_of c' i) p'" using w(3) by (simp add: c' c3 ballots_of_def same_ledger_def)
  qed (use w(3) in \<open>simp_all add: c' c3 ballots_of_def same_ledger_def\<close>)
  ultimately show "voting_inv X V roll c'" by (simp add: voting_inv_def queue_inv_def)
  have "life_path (pr_flow p) (pr_status p) (pr_status p')"
    using p p'(2) by (intro life_edge_step) (cases "pr_flow p"; simp)
  from edits_progress [OF ed q p'(1,4) this p'(8)] show "progress c c'"
    using stored_cong [of c' c3] by (simp add: progress_def c')
qed

lemma approve_keeps:
  assumes "approve_proposal e i m c0 = Inr (c', info)" and "voting_inv X V roll c0"
  shows "voting_inv X V roll c' \<and> progress c0 c'"
  using assms(1)
proof (cases rule: approve_edits)
  case (started c p p')
  have inv: "voting_inv X V roll c" by (rule advance_keeps [OF started(1) assms(2)])
  have q: "queue_inv c0" using assms(2) by (simp add: voting_inv_def)
  have f: "fresh e c i = Some p" using started(5) by (simp add: edits_def)
  note a = approved_facts [OF started(3)]
  have "moves_to p (activate (block_timestamp e) p')"
    unfolding moves_to_def
    using a started(2) activate_edge [of p' "block_timestamp e"] activate_life_ok [OF a(7), of "block_timestamp e"]
      activate_simps(7) [of "block_timestamp e" p'] by (auto simp: is_active_status_def)
  note m = moves_keeps [OF inv started(5) this]
  show ?thesis using m(1) progress_trans [OF advance_progress [OF started(1) q] m(2)] by blast
next
  case (queued c p p' c3)
  have inv: "voting_inv X V roll c" by (rule advance_keeps [OF queued(1) assms(2)])
  have q: "queue_inv c0" using assms(2) by (simp add: voting_inv_def)
  have f: "fresh e c i = Some p" using queued(5) by (simp add: edits_def)
  note a = approved_facts [OF queued(3)] and l = fresh_life [OF f inv]
  have "life_ok (p'\<lparr>pr_status := Queued\<rparr>)" using a(7) by (cases "pr_flow p'") (auto simp: life_defs)
  then have "voting_inv X V roll c'" "progress c c'"
    using a l by (intro queue_up_keeps [OF inv queued(5,2) _ _ _ _ _ _ _ _ queued(6)]; simp)+
  then show ?thesis using progress_trans [OF advance_progress [OF queued(1) q]] by blast
qed

text \<open>
  What an effect takes out of the account. \<open>returned\<close> is what the contract pays of its own accord: bonds, excess deposits, and the
  deposit of the vote that it sends to itself. The actions of an executed proposal are paid from the same account.
\<close>

fun action_amount :: "proposal_action \<Rightarrow> nat" where
  "action_amount (FunctionCall _ _ _ deposit _) = deposit"
| "action_amount (TransferAction _ amount) = amount"

definition actions_amount :: "proposal_action list \<Rightarrow> nat" where
  "actions_amount xs = (\<Sum>x\<leftarrow>xs. action_amount x)"

fun returned :: "voting_effect \<Rightarrow> nat" where
  "returned (Pay _ n) = n"
| "returned (Chained_Vote _ _ n) = n"
| "returned _ = 0"

definition returned_out :: "voting_effect list \<Rightarrow> nat" where
  "returned_out xs = (\<Sum>x\<leftarrow>xs. returned x)"

lemma returned_out_simps [simp]:
  "returned_out [] = 0" "returned_out (x # xs) = returned x + returned_out xs" "returned_out (xs @ ys) = returned_out xs + returned_out ys"
  by (simp_all add: returned_out_def)

fun voted :: "voting_effect \<Rightarrow> nat" where
  "voted (Run_Actions _ actions) = actions_amount actions"
| "voted _ = 0"

definition paid_out :: "voting_effect list \<Rightarrow> nat" where
  "paid_out xs = (\<Sum>x\<leftarrow>xs. returned x + voted x)"

lemma paid_out_split: "paid_out xs = returned_out xs + (\<Sum>x\<leftarrow>xs. voted x)"
  by (simp add: paid_out_def returned_out_def sum_list_addf)

text \<open>A vote replaces the ballot of the voter and may schedule the proposal.\<close>

definition vote_log :: "env \<Rightarrow> account_id \<Rightarrow> proposal_id \<Rightarrow> nat option \<Rightarrow> nat \<Rightarrow> nat \<Rightarrow> nat \<Rightarrow> voting_effect list" where
  "vote_log e voter i previous j w kept =
     (case previous of None \<Rightarrow> [] | Some k \<Rightarrow> [Proposal_Vote ''remove_vote'' voter i k w])
     @ (if kept < attached_deposit e
        then [Pay (if predecessor e = current_account e then signer e else predecessor e) (attached_deposit e - kept)] else [])
     @ [Proposal_Vote ''add_vote'' voter i j w]"

lemma vote_effect:
  assumes "vote X e i v q va c0 = Inr c'"
  defines "voter \<equiv> acc_account_id (account_from va)" and "j \<equiv> vote_option_u8 v"
  obtains c p s w p1 p2 p3 kept where "internal_advance_queue e c0 = Inr c" "fresh e c i = Some p"
    "pr_status p = Voting \<or> pr_status p = Sandbox \<and> v = For" "pr_snapshot_and_state p = Some s"
    "is_valid (vx_hasher X) q (snap_root (ss_snapshot s)) (snap_length (ss_snapshot s)) va"
    "voter = predecessor e \<or> predecessor e = current_account e"
    "total_balance (ss_timestamp_ns s) (ss_venear_growth_config s) (account_from va) = Inr w" "0 < w"
    "withdraw_ballot (vo_votes c (voter, i)) w p = Inr p1" "cast_ballot j w p1 = Inr p2" "graduate X e p2 = Inr p3"
    "internal_set_proposal p3 (c\<lparr>vo_outbox := vo_outbox c @ vote_log e voter i (vo_votes c (voter, i)) j w kept,
       vo_votes := (vo_votes c)((voter, i) \<mapsto> j)\<rparr>) = Inr c'" "\<not> vo_paused c0" "vo_votes c (voter, i) \<noteq> Some j"
proof -
  let ?fee = "\<lambda>c. if vo_votes c (voter, i) = None then cf_vote_storage_fee (vo_config c) else 0"
  obtain c p s w p1 p2 p3 kept where 1: "internal_advance_queue e c0 = Inr c" "fresh e c i = Some p"
    "pr_status p = Voting \<or> pr_status p = Sandbox \<and> v = For" "pr_snapshot_and_state p = Some s"
    "is_valid (vx_hasher X) q (snap_root (ss_snapshot s)) (snap_length (ss_snapshot s)) va"
    "voter = predecessor e \<or> predecessor e = current_account e"
    "total_balance (ss_timestamp_ns s) (ss_venear_growth_config s) (account_from va) = Inr w" "0 < w"
    "withdraw_ballot (vo_votes c (voter, i)) w p = Inr p1" "cast_ballot j w p1 = Inr p2" "graduate X e p2 = Inr p3"
    "\<not> vo_paused c0" "vo_votes c (voter, i) \<noteq> Some j" "near_add (?fee c) 1 = Inr kept"
    and 2: "\<exists>c2. (if kept < attached_deposit e
        then and_then (near_sub (attached_deposit e) kept) (\<lambda>refund.
          Inr (notify (Pay (if predecessor e = current_account e then signer e else predecessor e) refund)
            (case vo_votes c (voter, i) of None \<Rightarrow> c | Some k \<Rightarrow> notify (Proposal_Vote ''remove_vote'' voter i k w) c)))
        else Inr (case vo_votes c (voter, i) of None \<Rightarrow> c | Some k \<Rightarrow> notify (Proposal_Vote ''remove_vote'' voter i k w) c)) = Inr c2
      \<and> internal_set_proposal p3 ((notify (Proposal_Vote ''add_vote'' voter i j w) c2)
          \<lparr>vo_votes := (vo_votes (notify (Proposal_Vote ''add_vote'' voter i j w) c2))((voter, i) \<mapsto> j)\<rparr>) = Inr c'"
    using assms(1) unfolding vote_def and_then_eq_Inr guards require_eq_Inr expect_eq_Inr expect_updated_eq Let_def
      voter_def [symmetric] j_def [symmetric]
    by (elim exE conjE) (rule that; (assumption | blast | auto split: if_splits simp: require_eq_Inr))
  show thesis
  proof (rule that [OF 1(1-11) _ 1(12,13)])
    show "internal_set_proposal p3 (c\<lparr>vo_outbox := vo_outbox c @ vote_log e voter i (vo_votes c (voter, i)) j w kept,
       vo_votes := (vo_votes c)((voter, i) \<mapsto> j)\<rparr>) = Inr c'"
      using 2 by (cases "vo_votes c (voter, i)"; cases "kept < attached_deposit e")
        (auto simp: vote_log_def notify_def near_sub_eq_Inr and_then_eq_Inr)
  qed
qed

lemma graduate_cases:
  assumes "graduate X e p = Inr p'"
  shows "p' = p \<or> (\<exists>t. p' = p\<lparr>pr_voting_start_time_ns := Some t, pr_status := Scheduled\<rparr> \<and> pr_flow p = FastTrack
    \<and> pr_status p = Sandbox \<and> next_voting_start_ns (vx_sandbox X) (block_timestamp e) = Inr t)"
  using assms by (auto simp: graduate_def and_then_eq_Inr split: if_splits)

lemma vote_option_less: "vote_option_u8 v < 3"
  by (cases v) simp_all

lemma shape_ok_cong:
  assumes "pr_flow p' = pr_flow p" "pr_status p' = pr_status p" "pr_voting_start_time_ns p' = pr_voting_start_time_ns p"
    "pr_sandbox_start_time_ns p' = pr_sandbox_start_time_ns p"
  shows "shape_ok p' = shape_ok p"
  using assms by (cases "pr_flow p") (simp_all add: shape_ok_def)

lemma ballot_life_ok:
  assumes "life_ok p" and "pr_status p \<in> {Voting, Sandbox}"
  shows "life_ok (p\<lparr>pr_votes := vs, pr_total_votes := t\<rparr>)" and "life_ok (p\<lparr>pr_snapshot_and_state := s\<rparr>)"
proof -
  have "\<not> passed_status (pr_status p)" using assms(2) by (auto simp: passed_status_def)
  then show "life_ok (p\<lparr>pr_votes := vs, pr_total_votes := t\<rparr>)" "life_ok (p\<lparr>pr_snapshot_and_state := s\<rparr>)"
    using assms(1) shape_ok_cong [of "p\<lparr>pr_votes := vs, pr_total_votes := t\<rparr>" p] shape_ok_cong [of "p\<lparr>pr_snapshot_and_state := s\<rparr>" p]
    by (simp_all add: life_ok_def earned_def bond_ok_def)
qed

lemma graduated:
  assumes "graduate X e p = Inr p'" and "life_ok p" and "pr_status p \<in> {Voting, Sandbox}"
  shows "life_ok p'" and "pr_id p' = pr_id p" and "pr_flow p' = pr_flow p" and "life_path (pr_flow p) (pr_status p) (pr_status p')"
    and "pr_status p' \<noteq> Queued" and "pr_votes p' = pr_votes p" and "pr_total_votes p' = pr_total_votes p"
    and "pr_snapshot_and_state p' = pr_snapshot_and_state p" and "pr_bond_amount p' = pr_bond_amount p"
    and "pr_actions p' = pr_actions p"
proof -
  consider "p' = p" | t where "p' = p\<lparr>pr_voting_start_time_ns := Some t, pr_status := Scheduled\<rparr>" "pr_flow p = FastTrack"
    "pr_status p = Sandbox" using graduate_cases [OF assms(1)] by blast
  then have "life_ok p' \<and> pr_id p' = pr_id p \<and> pr_flow p' = pr_flow p \<and> life_path (pr_flow p) (pr_status p) (pr_status p')
    \<and> pr_status p' \<noteq> Queued \<and> pr_votes p' = pr_votes p \<and> pr_total_votes p' = pr_total_votes p
    \<and> pr_snapshot_and_state p' = pr_snapshot_and_state p \<and> pr_bond_amount p' = pr_bond_amount p \<and> pr_actions p' = pr_actions p"
  proof cases
    case 2
    then show ?thesis using assms(2) by (auto simp: life_defs intro!: life_edge_step)
  qed (use assms in auto)
  then show "life_ok p'" and "pr_id p' = pr_id p" and "pr_flow p' = pr_flow p" and "life_path (pr_flow p) (pr_status p) (pr_status p')"
    and "pr_status p' \<noteq> Queued" and "pr_votes p' = pr_votes p" and "pr_total_votes p' = pr_total_votes p"
    and "pr_snapshot_and_state p' = pr_snapshot_and_state p" and "pr_bond_amount p' = pr_bond_amount p"
    and "pr_actions p' = pr_actions p" by blast+
qed

lemma vote_keeps:
  assumes "vote X e i v q va c0 = Inr c'" and "voting_inv X V roll c0" and "(q, va) \<in> V"
  shows "voting_inv X V roll c' \<and> progress c0 c'"
proof -
  let ?a = "acc_account_id (account_from va)" and ?j = "vote_option_u8 v"
  obtain c p s w p1 p2 p3 kept where r: "internal_advance_queue e c0 = Inr c" "fresh e c i = Some p"
    "pr_status p = Voting \<or> pr_status p = Sandbox \<and> v = For" "pr_snapshot_and_state p = Some s"
    "is_valid (vx_hasher X) q (snap_root (ss_snapshot s)) (snap_length (ss_snapshot s)) va"
    "total_balance (ss_timestamp_ns s) (ss_venear_growth_config s) (account_from va) = Inr w"
    "withdraw_ballot (vo_votes c (?a, i)) w p = Inr p1" "cast_ballot ?j w p1 = Inr p2" "graduate X e p2 = Inr p3"
    "internal_set_proposal p3 (c\<lparr>vo_outbox := vo_outbox c @ vote_log e ?a i (vo_votes c (?a, i)) ?j w kept,
       vo_votes := (vo_votes c)((?a, i) \<mapsto> ?j)\<rparr>) = Inr c'"
    by (rule vote_effect [OF assms(1)])
  let ?c = "c\<lparr>vo_outbox := vo_outbox c @ vote_log e ?a i (vo_votes c (?a, i)) ?j w kept,
       vo_votes := (vo_votes c)((?a, i) \<mapsto> ?j)\<rparr>"
  have inv: "voting_inv X V roll c" by (rule advance_keeps [OF r(1) assms(2)])
  have q: "queue_inv c" and b: "books_ok X V roll c" using inv by (simp_all add: voting_inv_def)
  note f = fresh_life [OF r(2) inv]
  have R: "roll_of roll p = roll s" by (simp add: roll_of_def r(4))
  have "roll_ok X V roll s" and t: "tally_ok (roll s) (ballots_of c i) p"
    using f(3) by (simp_all add: book_ok_def r(4) R)
  then have w: "w = roll s ?a" using assms(3) r(5,6) by (auto simp: roll_ok_def)
  have t2: "tally_ok (roll s) ((ballots_of c i)(?a \<mapsto> ?j)) p2" and "\<exists>vs u. p2 = p\<lparr>pr_votes := vs, pr_total_votes := u\<rparr>"
    using revote_tally [OF t _ _ vote_option_less] r(7,8) by (simp_all add: w ballots_of_def)
  then obtain vs u where p2: "p2 = p\<lparr>pr_votes := vs, pr_total_votes := u\<rparr>" by blast
  have st: "pr_status p \<in> {Voting, Sandbox}" using r(3) by auto
  have l2: "life_ok p2" unfolding p2 by (rule ballot_life_ok(1) [OF f(2) st])
  note g = graduated [OF r(9) l2, simplified p2, simplified, OF st [simplified]]
  have qc: "queue_inv ?c" using queue_inv_cong [of ?c c] q by simp
  have sc: "stored ?c = stored c" by (rule stored_cong) simp
  obtain p0 where p0: "stored c i = Some p0" "pr_status p0 \<noteq> Queued"
    by (rule fresh_carried [OF r(2) q]) (use r(3) in auto)
  have i3: "pr_id p3 = i" using g(2) f(1) by simp
  note wq = write_queue_inv [OF r(10) qc g(1) _ p0(2) g(5), unfolded sc i3, OF p0(1)]
  have "books_ok X V roll c'"
  proof (rule books_ok_write [OF b wq(2)])
    have "ballots_of c' i = (ballots_of c i)(?a \<mapsto> ?j)" using wq(3) by (auto simp: ballots_of_def same_ledger_def)
    moreover have "tally_ok (roll s) ((ballots_of c i)(?a \<mapsto> ?j)) p3" using t2 g by (simp add: tally_ok_def p2)
    ultimately show "book_ok X V roll (ballots_of c' i) p3"
      using g(8) r(4) \<open>roll_ok X V roll s\<close> by (simp add: book_ok_def roll_of_def)
  qed (use wq(3) in \<open>auto simp: ballots_of_def same_ledger_def\<close>)
  moreover have "progress c c'"
  proof -
    have "edits e ?c i p p3 [] c'" using r(2,10) sc by (simp add: edits_def fresh_def)
    from edits_progress [OF this qc i3] g(3,4,10) have "progress ?c c'" by simp
    then show ?thesis using sc by (simp add: progress_def)
  qed
  moreover have "queue_inv c0" using assms(2) by (simp add: voting_inv_def)
  ultimately show ?thesis
    using wq(1) progress_trans [OF advance_progress [OF r(1)]] by (simp add: voting_inv_def)
qed

text \<open>The snapshot: requested by \<open>take_snapshot_and_vote\<close>, stored once by the callback.\<close>

lemma take_snapshot_effect:
  assumes "take_snapshot_and_vote e i v c0 = Inr c'"
  obtains c p xs where "internal_advance_queue e c0 = Inr c" "fresh e c i = Some p" "pr_status p = Sandbox \<or> pr_status p = Voting"
    "c' = c\<lparr>vo_outbox := vo_outbox c @ xs\<rparr>" "\<not> vo_paused c0"
    "xs = (if pr_snapshot_and_state p = None then [Fetch_Snapshot (cf_venear_account_id (vo_config c)) i] else [])
      @ (case v of None \<Rightarrow> [] | Some pay \<Rightarrow> [Chained_Vote i pay (attached_deposit e)])"
    "\<And>pay. v = Some pay \<Longrightarrow> acc_account_id (account_from (vp_v_account pay)) = predecessor e"
    "v = None \<Longrightarrow> attached_deposit e = 0"
proof -
  obtain c p where c: "internal_advance_queue e c0 = Inr c" "fresh e c i = Some p" "pr_status p = Sandbox \<or> pr_status p = Voting"
    "\<not> vo_paused c0" and n: "v = None \<Longrightarrow> attached_deposit e = 0"
    and r: "(case v of None \<Rightarrow> Inr (if pr_snapshot_and_state p = None then notify (Fetch_Snapshot (cf_venear_account_id (vo_config c)) i) c else c)
        | Some payload \<Rightarrow> and_then (require (acc_account_id (account_from (vp_v_account payload)) = predecessor e)
              ''v_account does not match the caller'') (\<lambda>_.
            Inr (notify (Chained_Vote i payload (attached_deposit e))
              (if pr_snapshot_and_state p = None then notify (Fetch_Snapshot (cf_venear_account_id (vo_config c)) i) c else c)))) = Inr c'"
    using assms unfolding take_snapshot_and_vote_def and_then_eq_Inr guards require_eq_Inr expect_updated_eq Let_def
    by (elim exE conjE) (rule that; (assumption | blast | auto simp: res_simps split: if_splits))
  show thesis
  proof (cases v)
    case None
    then show thesis using r by (intro that [OF c(1-3) _ c(4)]) (auto simp: notify_def n)
  next
    case (Some pay)
    then show thesis using r by (intro that [OF c(1-3) _ c(4)]) (auto simp: notify_def res_simps)
  qed
qed

lemma take_snapshot_keeps:
  assumes "take_snapshot_and_vote e i v c0 = Inr c'" and "voting_inv X V roll c0"
  shows "voting_inv X V roll c' \<and> progress c0 c'"
proof -
  obtain c xs where c: "internal_advance_queue e c0 = Inr c" "c' = c\<lparr>vo_outbox := vo_outbox c @ xs\<rparr>"
    by (rule take_snapshot_effect [OF assms(1)])
  have "voting_inv X V roll c" by (rule advance_keeps [OF c(1) assms(2)])
  moreover have "stored c' = stored c" by (rule stored_cong) (simp add: c(2))
  moreover have "progress c0 c" using advance_progress [OF c(1)] assms(2) by (simp add: voting_inv_def)
  ultimately show ?thesis using voting_inv_cong [of c' c] by (simp add: c(2) progress_def)
qed

definition taken_snapshot :: "env \<Rightarrow> merkle_tree_snapshot \<Rightarrow> global_state \<Rightarrow> nat \<Rightarrow> snapshot_and_state" where
  "taken_snapshot e snapshot g venear = \<lparr>ss_snapshot = snapshot, ss_timestamp_ns = block_timestamp e,
     ss_total_venear = venear, ss_venear_growth_config = growth_config g\<rparr>"

lemma on_get_snapshot_effect:
  assumes "on_get_snapshot X e result i c = Inr (c', info)"
  obtains p snapshot vg g venear where "result = Some (snapshot, vg)" "pr_status p = Sandbox \<or> pr_status p = Voting"
    "pr_snapshot_and_state p = None" "global_state_update (block_timestamp e) (global_from vg) = Inr g"
    "pooled_total (total_venear_balance g) = Inr venear" "attached_deposit e = 0" "predecessor e = current_account e" "\<not> vo_paused c"
    "edits e c i p (p\<lparr>pr_snapshot_and_state := Some (taken_snapshot e snapshot g venear)\<rparr>) [] c'"
  using assms
  by (auto simp: on_get_snapshot_def guards res_simps expect_updated_eq Let_def edits_def taken_snapshot_def split: prod.splits)

lemma on_get_snapshot_keeps:
  assumes "on_get_snapshot X e result i c = Inr (c', info)" and "voting_inv X V roll c"
    and "\<And>snapshot vg g venear. result = Some (snapshot, vg) \<Longrightarrow> global_state_update (block_timestamp e) (global_from vg) = Inr g
      \<Longrightarrow> pooled_total (total_venear_balance g) = Inr venear \<Longrightarrow> roll_ok X V roll (taken_snapshot e snapshot g venear)"
  shows "voting_inv X V roll c' \<and> progress c c'"
proof -
  obtain p snapshot vg g venear where 1: "result = Some (snapshot, vg)" "pr_status p = Sandbox \<or> pr_status p = Voting"
    "pr_snapshot_and_state p = None" "global_state_update (block_timestamp e) (global_from vg) = Inr g"
    "pooled_total (total_venear_balance g) = Inr venear"
    and ed: "edits e c i p (p\<lparr>pr_snapshot_and_state := Some (taken_snapshot e snapshot g venear)\<rparr>) [] c'"
    by (rule on_get_snapshot_effect [OF assms(1)])
  let ?s = "taken_snapshot e snapshot g venear" and ?p = "p\<lparr>pr_snapshot_and_state := Some (taken_snapshot e snapshot g venear)\<rparr>"
  have q: "queue_inv c" and b: "books_ok X V roll c" using assms(2) by (simp_all add: voting_inv_def)
  have f: "fresh e c i = Some p" and set: "internal_set_proposal ?p c = Inr c'" using ed by (auto simp: edits_def)
  note l = fresh_life [OF f assms(2)]
  have lp: "life_ok ?p" by (rule ballot_life_ok(2) [OF l(2)]) (use 1(2) in auto)
  obtain p0 where p0: "stored c i = Some p0" "pr_status p0 \<noteq> Queued"
    by (rule fresh_carried [OF f q]) (use 1(2) in auto)
  have i: "pr_id ?p = i" using l(1) by simp
  have nq: "pr_status ?p \<noteq> Queued" using 1(2) by auto
  note w = write_queue_inv [OF set q lp _ p0(2) nq, unfolded i, OF p0(1)]
  have e: "ballots_of c i = Map.empty" "tally_ok (\<lambda>_. 0) Map.empty p"
    using l(3) 1(3) by (auto simp: book_ok_def roll_of_def)
  have "books_ok X V roll c'"
  proof (rule books_ok_write [OF b w(2)])
    have "tally_ok (roll ?s) Map.empty ?p" using e(2) by (auto simp: tally_ok_def voters_def)
    moreover have "ballots_of c' i = Map.empty" using e(1) w(3) by (simp add: ballots_of_def same_ledger_def)
    ultimately show "book_ok X V roll (ballots_of c' i) ?p"
      using assms(3) [OF 1(1,4,5)] by (simp add: book_ok_def roll_of_def)
  qed (use w(3) in \<open>simp_all add: ballots_of_def same_ledger_def\<close>)
  moreover have "progress c c'" by (rule edits_progress [OF ed q i]) simp_all
  ultimately show ?thesis using w(1) by (simp add: voting_inv_def)
qed

end
