(* ===== verification/Voting_Run.thy ===== *)
theory Voting_Run
  imports Voting_Steps
begin

text \<open>
  Runs of the voting contract. \<open>voting_exec\<close> dispatches a call; \<open>voting_step\<close> is the transition
  relation of the contract with its environment: calls from other accounts, and the receipts
  the contract has scheduled for itself (recorded in its outbox). The execution callbacks that
  are still under way are part of the state, so that each execution is answered at most once.
  \<open>voting_reach\<close> collects the states that can be reached from initialisation.
\<close>

section \<open>Calls\<close>

datatype voting_msg =
    Pause_Voting | Unpause_Voting
  | Create_Proposal proposal_metadata "proposal_action list option" proposal_flow
  | Vote proposal_id vote_option merkle_proof vaccount
  | Take_Snapshot_And_Vote proposal_id "vote_payload option"
  | Approve_Proposal proposal_id "majority_type option"
  | Reject_Proposal proposal_id
  | Veto_Proposal proposal_id
  | Noveto_Proposal proposal_id
  | Slash_Proposal proposal_id
  | Claim_Bond proposal_id
  | Execute_Proposal proposal_id
  | Advance_Queue
  | Set_Max_Active_Proposals nat
  | Set_Venear_Account_Id account_id | Set_Reviewer_Ids "account_id list" | Set_Council_Ids "account_id list"
  | Set_Classic_Voting_Duration nat | Set_Fast_Track_Voting_Duration nat | Set_Timelock_Duration nat
  | Set_Base_Proposal_Fee nat | Propose_New_Owner "account_id option" | Accept_Voting_Ownership
  | Set_Voting_Guardians "account_id list"
  | Set_Classic_Proposal_Expiration nat | Set_Fast_Track_Proposal_Expiration nat
  | Set_Quorum_Threshold_Bps bps | Set_Quorum_Floor nat | Set_Approval_Threshold_Bps bps
  | Set_Bond_Amount nat | Set_Treasury_Account_Id account_id
  | Set_Simple_Majority_Threshold_Bps bps | Set_Strong_Majority_Threshold_Bps bps
  | Set_Sandbox_Duration nat | Set_Sandbox_Threshold_Bps bps
  | Upgrade_Voting "byte list"

fun voting_exec :: "voting_ext \<Rightarrow> env \<Rightarrow> voting_msg \<Rightarrow> voting \<Rightarrow> voting res" where
  "voting_exec X e Pause_Voting c = voting_pause e c"
| "voting_exec X e Unpause_Voting c = voting_unpause e c"
| "voting_exec X e (Create_Proposal md actions flow) c = and_then (create_proposal X e md actions flow c) (\<lambda>(c', _). Inr c')"
| "voting_exec X e (Vote i v q va) c = vote X e i v q va c"
| "voting_exec X e (Take_Snapshot_And_Vote i v) c = take_snapshot_and_vote e i v c"
| "voting_exec X e (Approve_Proposal i m) c = and_then (approve_proposal e i m c) (\<lambda>(c', _). Inr c')"
| "voting_exec X e (Reject_Proposal i) c = reject_proposal e i c"
| "voting_exec X e (Veto_Proposal i) c = veto_proposal e i c"
| "voting_exec X e (Noveto_Proposal i) c = noveto_proposal e i c"
| "voting_exec X e (Slash_Proposal i) c = slash_proposal e i c"
| "voting_exec X e (Claim_Bond i) c = claim_bond e i c"
| "voting_exec X e (Execute_Proposal i) c = execute_proposal e i c"
| "voting_exec X e Advance_Queue c = advance_queue e c"
| "voting_exec X e (Set_Max_Active_Proposals n) c = set_max_active_proposals e n c"
| "voting_exec X e (Set_Venear_Account_Id x) c = set_venear_account_id e x c"
| "voting_exec X e (Set_Reviewer_Ids x) c = set_reviewer_ids e x c"
| "voting_exec X e (Set_Council_Ids x) c = set_council_ids e x c"
| "voting_exec X e (Set_Classic_Voting_Duration x) c = set_classic_voting_duration e x c"
| "voting_exec X e (Set_Fast_Track_Voting_Duration x) c = set_fast_track_voting_duration e x c"
| "voting_exec X e (Set_Timelock_Duration x) c = set_timelock_duration e x c"
| "voting_exec X e (Set_Base_Proposal_Fee x) c = set_base_proposal_fee e x c"
| "voting_exec X e (Propose_New_Owner x) c = voting_propose_new_owner_account_id e x c"
| "voting_exec X e Accept_Voting_Ownership c = voting_accept_ownership e c"
| "voting_exec X e (Set_Voting_Guardians x) c = voting_set_guardians e x c"
| "voting_exec X e (Set_Classic_Proposal_Expiration x) c = set_classic_proposal_expiration e x c"
| "voting_exec X e (Set_Fast_Track_Proposal_Expiration x) c = set_fast_track_proposal_expiration e x c"
| "voting_exec X e (Set_Quorum_Threshold_Bps x) c = set_quorum_threshold_bps e x c"
| "voting_exec X e (Set_Quorum_Floor x) c = set_quorum_floor e x c"
| "voting_exec X e (Set_Approval_Threshold_Bps x) c = set_approval_threshold_bps e x c"
| "voting_exec X e (Set_Bond_Amount x) c = set_bond_amount e x c"
| "voting_exec X e (Set_Treasury_Account_Id x) c = set_treasury_account_id e x c"
| "voting_exec X e (Set_Simple_Majority_Threshold_Bps x) c = set_simple_majority_threshold_bps e x c"
| "voting_exec X e (Set_Strong_Majority_Threshold_Bps x) c = set_strong_majority_threshold_bps e x c"
| "voting_exec X e (Set_Sandbox_Duration x) c = set_sandbox_duration e x c"
| "voting_exec X e (Set_Sandbox_Threshold_Bps x) c = set_sandbox_threshold_bps e x c"
| "voting_exec X e (Upgrade_Voting x) c = voting_upgrade e x c"

text \<open>The calls that concern a proposal; the others change the configuration, the pause flag or the code.\<close>

fun about_proposals :: "voting_msg \<Rightarrow> bool" where
  "about_proposals (Create_Proposal _ _ _) = True"
| "about_proposals (Vote _ _ _ _) = True"
| "about_proposals (Take_Snapshot_And_Vote _ _) = True"
| "about_proposals (Approve_Proposal _ _) = True"
| "about_proposals (Reject_Proposal _) = True"
| "about_proposals (Veto_Proposal _) = True"
| "about_proposals (Noveto_Proposal _) = True"
| "about_proposals (Slash_Proposal _) = True"
| "about_proposals (Claim_Bond _) = True"
| "about_proposals (Execute_Proposal _) = True"
| "about_proposals Advance_Queue = True"
| "about_proposals (Set_Max_Active_Proposals _) = True"
| "about_proposals _ = False"

lemmas setting_defs = voting_pause_def voting_unpause_def set_venear_account_id_def set_reviewer_ids_def set_council_ids_def
  set_classic_voting_duration_def set_fast_track_voting_duration_def set_timelock_duration_def set_base_proposal_fee_def
  voting_propose_new_owner_account_id_def voting_accept_ownership_def voting_set_guardians_def
  set_classic_proposal_expiration_def set_fast_track_proposal_expiration_def set_quorum_threshold_bps_def
  set_quorum_floor_def set_approval_threshold_bps_def set_bond_amount_def set_treasury_account_id_def
  set_simple_majority_threshold_bps_def set_strong_majority_threshold_bps_def set_sandbox_duration_def
  set_sandbox_threshold_bps_def voting_upgrade_def configured_by_owner_def duration_by_owner_def
  voting_assert_owner_def voting_assert_guardian_def notify_def

lemma settings_frame:
  assumes "voting_exec X e m c = Inr c'" and "\<not> about_proposals m"
  shows "vo_proposals c' = vo_proposals c \<and> vo_active_proposals c' = vo_active_proposals c
    \<and> vo_pending_queue c' = vo_pending_queue c \<and> vo_votes c' = vo_votes c \<and> vo_metadata c' = vo_metadata c
    \<and> (\<exists>xs. vo_outbox c' = vo_outbox c @ xs \<and> returned_out xs = 0 \<and> (\<forall>x \<in> set xs. \<exists>code. x = Upgrade_Code code))"
  using assms by (cases m) (auto simp: setting_defs res_simps)

section \<open>Each call keeps the invariant\<close>

lemma life_ok_moved:
  assumes "pr_flow p' = pr_flow p" and "same_ballot p' p" and "pr_status p' \<notin> {Voting, Timelock, Sandbox, Scheduled}"
    and "pr_status p' = Slashed \<longrightarrow> pr_flow p = FastTrack"
    and "passed_status (pr_status p') \<longrightarrow> compute_final_status p = Inr Succeeded"
    and "0 < pr_bond_amount p' \<longrightarrow> pr_flow p = FastTrack \<and> pr_status p' \<in> {Created, Rejected, Expired}"
  shows "life_ok p'"
proof -
  have "shape_ok p'" using assms(1,3,4) by (cases "pr_flow p") (simp_all add: shape_ok_def)
  moreover have "earned p'" using assms(5) compute_final_status_cong [OF assms(2)] by (simp add: earned_def)
  moreover have "bond_ok p'" using assms(1,6) by (simp add: bond_ok_def)
  ultimately show ?thesis by (simp add: life_ok_def)
qed

lemma no_bond: "life_ok p \<Longrightarrow> pr_status p \<notin> {Created, Rejected, Expired} \<Longrightarrow> pr_bond_amount p = 0"
  by (simp add: life_ok_def bond_ok_def)

lemma moves_toI:
  assumes "pr_id p' = pr_id p" "pr_flow p' = pr_flow p" "same_ballot p' p" "pr_status p \<noteq> Queued"
    "pr_status p' \<in> set (successors (pr_flow p) (pr_status p))" "pr_status p' \<notin> {Voting, Timelock, Sandbox, Scheduled, Queued}"
    "pr_status p' = Slashed \<longrightarrow> pr_flow p = FastTrack"
    "passed_status (pr_status p') \<longrightarrow> compute_final_status p = Inr Succeeded"
    "0 < pr_bond_amount p' \<longrightarrow> pr_flow p = FastTrack \<and> pr_status p' \<in> {Created, Rejected, Expired}"
    "pr_actions p' = pr_actions p"
  shows "moves_to p p'"
proof -
  have "life_ok p'" using assms(6) by (intro life_ok_moved [OF assms(2,3) _ assms(7-9)]) simp
  then show ?thesis using assms life_edge_step [OF assms(5)] by (auto simp: moves_to_def same_ballot_def)
qed

lemma advance_then:
  assumes "internal_advance_queue e c0 = Inr c" and "voting_inv X V roll c0"
    and "voting_inv X V roll c \<Longrightarrow> voting_inv X V roll c' \<and> progress c c'"
  shows "voting_inv X V roll c' \<and> progress c0 c'"
proof -
  have "voting_inv X V roll c" by (rule advance_keeps [OF assms(1,2)])
  moreover have "progress c0 c" using advance_progress [OF assms(1)] assms(2) by (simp add: voting_inv_def)
  ultimately show ?thesis using assms(3) progress_trans by blast
qed

lemma then_advance:
  assumes "voting_inv X V roll c \<and> progress c0 c" and "internal_advance_queue e c = Inr c'"
  shows "voting_inv X V roll c' \<and> progress c0 c'"
  using assms advance_keeps advance_progress progress_trans by (meson voting_inv_def)

lemma edit_keeps:
  assumes "edits e c i p p' xs c'" and "voting_inv X V roll c" and "life_ok p \<Longrightarrow> moves_to p p'"
  shows "voting_inv X V roll c' \<and> progress c c'"
proof -
  have "fresh e c i = Some p" using assms(1) by (simp add: edits_def)
  then have "moves_to p p'" using fresh_life(2) [OF _ assms(2)] assms(3) by blast
  then show ?thesis using moves_keeps [OF assms(2,1)] by blast
qed

lemma reject_keeps:
  assumes "reject_proposal e i c = Inr c'" and "voting_inv X V roll c"
  shows "voting_inv X V roll c' \<and> progress c c'"
  using assms(1)
proof (rule reject_edits)
  fix p
  assume p: "pr_status p = Created" and ed: "edits e c i p (p\<lparr>pr_reviewer_id := Some (predecessor e), pr_status := Rejected\<rparr>)
       [Proposal_Event ''reject_proposal'' (predecessor e) i] c'"
  show ?thesis
    by (rule edit_keeps [OF ed assms(2)], rule moves_toI)
      (use p in \<open>cases "pr_flow p"; simp add: same_ballot_def passed_status_def life_ok_def bond_ok_def\<close>)+
qed

lemma slash_keeps:
  assumes "slash_proposal e i c = Inr c'" and "voting_inv X V roll c"
  shows "voting_inv X V roll c' \<and> progress c c'"
  using assms(1)
proof (rule slash_edits)
  fix p
  assume p: "pr_status p = Created" "pr_flow p = FastTrack"
    and ed: "edits e c i p (p\<lparr>pr_status := Slashed, pr_bond_amount := 0\<rparr>)
       (Proposal_Event ''slash_proposal'' (predecessor e) i # bond_payment c p) c'"
  show ?thesis
    by (rule edit_keeps [OF ed assms(2)], rule moves_toI)
      (use p in \<open>simp_all add: same_ballot_def passed_status_def\<close>)
qed

lemma claim_keeps:
  assumes "claim_bond e i c = Inr c'" and "voting_inv X V roll c"
  shows "voting_inv X V roll c' \<and> progress c c'"
  using assms(1)
proof (rule claim_edits)
  fix p
  assume p: "pr_status p \<in> {Expired, Rejected}"
    and ed: "edits e c i p (p\<lparr>pr_bond_amount := 0\<rparr>) [Pay (pr_proposer_id p) (pr_bond_amount p)] c'"
  show ?thesis
  proof (rule edit_keeps [OF ed assms(2)])
    have "life_ok (p\<lparr>pr_bond_amount := 0\<rparr>)"
      using p by (intro life_ok_moved) (auto simp: same_ballot_def passed_status_def)
    then show "moves_to p (p\<lparr>pr_bond_amount := 0\<rparr>)" using p by (auto simp: moves_to_def)
  qed
qed

lemma veto_keeps:
  assumes "veto_proposal e i c0 = Inr c'" and "voting_inv X V roll c0"
  shows "voting_inv X V roll c' \<and> progress c0 c'"
  using assms(1)
proof (rule veto_edits)
  fix c p c1
  assume a: "internal_advance_queue e c0 = Inr c" "internal_advance_queue e c1 = Inr c'"
    and p: "can_be_vetoed (pr_flow p) (pr_status p)"
    and ed: "edits e c i p (p\<lparr>pr_rejecter_id := Some (predecessor e), pr_status := Vetoed\<rparr>)
       [Proposal_Event ''veto_proposal'' (predecessor e) i] c1"
  have "moves_to p (p\<lparr>pr_rejecter_id := Some (predecessor e), pr_status := Vetoed\<rparr>)" if "life_ok p"
    by (rule moves_toI) (use p no_bond [OF that] in \<open>cases "pr_flow p"; auto simp: can_be_vetoed_def same_ballot_def passed_status_def\<close>)+
  then have "voting_inv X V roll c1 \<and> progress c0 c1"
    by (intro advance_then [OF a(1) assms(2)] edit_keeps [OF ed])
  then show ?thesis by (rule then_advance [OF _ a(2)])
qed

lemma noveto_keeps:
  assumes "noveto_proposal e i c = Inr c'" and "voting_inv X V roll c"
  shows "voting_inv X V roll c' \<and> progress c c'"
  using assms(1)
proof (rule noveto_edits)
  fix p c1
  let ?s = "if has_actions p then Executable else Succeeded"
  assume a: "internal_advance_queue e c1 = Inr c'" and p: "pr_status p = Timelock"
    and ed: "edits e c i p (p\<lparr>pr_status := ?s\<rparr>) [Proposal_Event ''noveto_proposal'' (predecessor e) i] c1"
  have "moves_to p (p\<lparr>pr_status := ?s\<rparr>)" if l: "life_ok p"
  proof (rule moves_toI)
    have "pr_flow p = Classic" using l p by (cases "pr_flow p") (simp_all add: life_ok_def shape_ok_def)
    then show "pr_status (p\<lparr>pr_status := ?s\<rparr>) \<in> set (successors (pr_flow p) (pr_status p))" using p by simp
    show "passed_status (pr_status (p\<lparr>pr_status := ?s\<rparr>)) \<longrightarrow> compute_final_status p = Inr Succeeded"
      using l p by (simp add: life_ok_def earned_def passed_status_def)
  qed (use p no_bond [OF l] in \<open>simp_all add: same_ballot_def\<close>)
  then have "voting_inv X V roll c1 \<and> progress c c1" by (rule edit_keeps [OF ed assms(2)])
  then show ?thesis by (rule then_advance [OF _ a])
qed

lemma execute_keeps:
  assumes "execute_proposal e i c0 = Inr c'" and "voting_inv X V roll c0"
  shows "voting_inv X V roll c' \<and> progress c0 c'"
  using assms(1)
proof (rule execute_edits)
  fix c p actions
  assume a: "internal_advance_queue e c0 = Inr c" and p: "pr_status p = Executable"
    and ed: "edits e c i p (p\<lparr>pr_status := InProgress\<rparr>)
       [Proposal_Event ''execute_proposal'' (predecessor e) i, Run_Actions i actions] c'"
  have "moves_to p (p\<lparr>pr_status := InProgress\<rparr>)" if l: "life_ok p"
    by (rule moves_toI)
      (use p no_bond [OF l] l in \<open>cases "pr_flow p"; simp add: same_ballot_def life_ok_def earned_def passed_status_def\<close>)+
  then show ?thesis by (intro advance_then [OF a assms(2)] edit_keeps [OF ed])
qed

lemma on_execute_keeps:
  assumes "on_execute_proposal e rs i c0 = Inr c'" and "voting_inv X V roll c0"
    and "stored c0 i = Some p0" and "pr_status p0 = InProgress"
  shows "voting_inv X V roll c' \<and> progress c0 c'"
  using assms(1)
proof (rule on_execute_edits)
  fix c p
  let ?s = "if list_all (\<lambda>r. r) rs then Succeeded else Failed"
  assume a: "internal_advance_queue e c0 = Inr c"
    and ed: "edits e c i p (p\<lparr>pr_status := ?s\<rparr>) [Execute_Result i (list_all (\<lambda>r. r) rs)] c'"
  obtain k where "advances e c0 c k" using advance_effect [OF a] assms(2) by (auto simp: voting_inv_def)
  moreover have "i \<notin> set (vo_pending_queue c0)" "i \<notin> set (vo_active_proposals c0)"
    using assms(2-4) by (auto simp: voting_inv_def queue_inv_def slots_ok_def line_ok_def is_active_status_def)
  ultimately have "stored c i = Some p0" using assms(3) in_set_takeD unfolding advances_def by metis
  then have "p = p0" using ed assms(4) by (simp add: edits_def fresh_def update_inert)
  then have p: "pr_status p = InProgress" using assms(4) by simp
  have "moves_to p (p\<lparr>pr_status := ?s\<rparr>)" if l: "life_ok p"
    by (rule moves_toI)
      (use p no_bond [OF l] l in \<open>cases "pr_flow p"; simp add: same_ballot_def life_ok_def earned_def passed_status_def\<close>)+
  then show ?thesis by (intro advance_then [OF a assms(2)] edit_keeps [OF ed])
qed

fun papers :: "voting_msg \<Rightarrow> (merkle_proof \<times> vaccount) set" where
  "papers (Vote i v q va) = {(q, va)}"
| "papers _ = {}"

lemma about_proposals_cases:
  assumes "about_proposals m"
  obtains (create) md actions flow where "m = Create_Proposal md actions flow" | (vote) i v q va where "m = Vote i v q va"
    | (snapshot) i v where "m = Take_Snapshot_And_Vote i v" | (approve) i mj where "m = Approve_Proposal i mj"
    | (reject) i where "m = Reject_Proposal i" | (veto) i where "m = Veto_Proposal i" | (noveto) i where "m = Noveto_Proposal i"
    | (slash) i where "m = Slash_Proposal i" | (claim) i where "m = Claim_Bond i" | (execute) i where "m = Execute_Proposal i"
    | (advance) "m = Advance_Queue" | (resize) n where "m = Set_Max_Active_Proposals n"
  using assms by (cases m) auto

lemma resize_exec:
  assumes "voting_exec X e (Set_Max_Active_Proposals n) c = Inr c'"
  shows "internal_advance_queue e (c\<lparr>vo_config := (vo_config c)\<lparr>cf_max_active_proposals := n\<rparr>\<rparr>) = Inr c'"
  using assms by (auto simp: set_max_active_proposals_def res_simps)

lemma voting_exec_keeps:
  assumes "voting_exec X e m c = Inr c'" and "voting_inv X V roll c" and "papers m \<subseteq> V"
  shows "voting_inv X V roll c' \<and> progress c c'"
proof (cases "about_proposals m")
  case False
  note f = settings_frame [OF assms(1) False]
  have "stored c' = stored c" by (rule stored_cong) (use f in simp)
  then show ?thesis using voting_inv_cong [of c' c] f assms(2) by (simp add: progress_def)
next
  case True
  note r = assms(1)
  from True show ?thesis
  proof (cases rule: about_proposals_cases)
    case (create md actions flow)
    then obtain i where "create_proposal X e md actions flow c = Inr (c', i)" using r by (auto simp: and_then_eq_Inr)
    then show ?thesis using create_keeps assms(2) by blast
  next
    case (approve i mj)
    then obtain info where "approve_proposal e i mj c = Inr (c', info)" using r by (auto simp: and_then_eq_Inr)
    then show ?thesis by (rule approve_keeps [OF _ assms(2)])
  next
    case advance
    then have "internal_advance_queue e c = Inr c'" using r by (auto simp: advance_queue_def guards res_simps)
    then show ?thesis by (rule advance_then [OF _ assms(2)]) (simp add: progress_def)
  next
    case (resize n)
    let ?c = "c\<lparr>vo_config := (vo_config c)\<lparr>cf_max_active_proposals := n\<rparr>\<rparr>"
    have "voting_inv X V roll ?c \<and> progress c ?c"
      using voting_inv_cong [of ?c c] stored_cong [of ?c c] assms(2) by (simp add: progress_def)
    then show ?thesis by (rule then_advance [OF _ resize_exec [OF r [unfolded resize]]])
  next
    case (vote i v q va)
    then show ?thesis using r assms(3) vote_keeps [OF _ assms(2)] by simp
  next
    case (snapshot i v)
    then show ?thesis using r take_snapshot_keeps [OF _ assms(2)] by simp
  next
    case (reject i)
    then show ?thesis using r reject_keeps [OF _ assms(2)] by simp
  next
    case (veto i)
    then show ?thesis using r veto_keeps [OF _ assms(2)] by simp
  next
    case (noveto i)
    then show ?thesis using r noveto_keeps [OF _ assms(2)] by simp
  next
    case (slash i)
    then show ?thesis using r slash_keeps [OF _ assms(2)] by simp
  next
    case (claim i)
    then show ?thesis using r claim_keeps [OF _ assms(2)] by simp
  next
    case (execute i)
    then show ?thesis using r execute_keeps [OF _ assms(2)] by simp
  qed
qed

section \<open>Money and executions\<close>

definition bond_at :: "voting \<Rightarrow> proposal_id \<Rightarrow> nat" where
  "bond_at c i = (case stored c i of None \<Rightarrow> 0 | Some p \<Rightarrow> pr_bond_amount p)"

definition bonds :: "voting \<Rightarrow> nat" where
  "bonds c = (\<Sum>i < length (vo_proposals c). bond_at c i)"

definition is_run :: "proposal_id \<Rightarrow> voting_effect \<Rightarrow> bool" where
  "is_run i x = (case x of Run_Actions j _ \<Rightarrow> j = i | _ \<Rightarrow> False)"

text \<open>
  A call is accounted for if what it logs is appended, what it pays and what is bonded afterwards is covered by the
  deposit and what was bonded before, it dispatches the actions of no proposal outside \<open>R\<close>, and it leaves
  running executions alone.
\<close>

definition accounted :: "nat \<Rightarrow> proposal_id set \<Rightarrow> voting \<Rightarrow> voting \<Rightarrow> bool" where
  "accounted d R c c' \<longleftrightarrow> (\<exists>xs. vo_outbox c' = vo_outbox c @ xs \<and> bonds c' + returned_out xs \<le> bonds c + d
      \<and> (\<forall>i. length (filter (is_run i) xs) \<le> (if i \<in> R then 1 else 0)))
    \<and> (\<forall>i p. stored c i = Some p \<longrightarrow> pr_status p = InProgress \<longrightarrow> stored c' i = Some p)"

lemma accountedI:
  assumes "vo_outbox c' = vo_outbox c @ xs" "bonds c' + returned_out xs \<le> bonds c + d"
    "\<And>i. length (filter (is_run i) xs) \<le> (if i \<in> R then 1 else 0)"
    "\<And>i p. stored c i = Some p \<Longrightarrow> pr_status p = InProgress \<Longrightarrow> stored c' i = Some p"
  shows "accounted d R c c'"
  using assms unfolding accounted_def by blast

lemma accounted_trans:
  assumes "accounted 0 {} a b" and "accounted d R b c"
  shows "accounted d R a c"
proof -
  obtain xs ys where x: "vo_outbox b = vo_outbox a @ xs" "bonds b + returned_out xs \<le> bonds a" "\<And>i. filter (is_run i) xs = []"
    and y: "vo_outbox c = vo_outbox b @ ys" "bonds c + returned_out ys \<le> bonds b + d"
      "\<And>i. length (filter (is_run i) ys) \<le> (if i \<in> R then 1 else 0)"
    using assms by (auto simp: accounted_def)
  show ?thesis
    by (rule accountedI [of _ _ "xs @ ys"]) (use x y assms in \<open>auto simp: accounted_def\<close>)
qed

lemma trans_accounted:
  assumes "accounted d R a b" and "accounted 0 {} b c"
  shows "accounted d R a c"
proof -
  obtain xs ys where x: "vo_outbox b = vo_outbox a @ xs" "bonds b + returned_out xs \<le> bonds a + d"
      "\<And>i. length (filter (is_run i) xs) \<le> (if i \<in> R then 1 else 0)"
    and y: "vo_outbox c = vo_outbox b @ ys" "bonds c + returned_out ys \<le> bonds b" "\<And>i. filter (is_run i) ys = []"
    using assms by (auto simp: accounted_def)
  show ?thesis
    by (rule accountedI [of _ _ "xs @ ys"]) (use x y assms in \<open>auto simp: accounted_def\<close>)
qed

lemma bonds_cong: "stored c' = stored c \<Longrightarrow> length (vo_proposals c') = length (vo_proposals c) \<Longrightarrow> bonds c' = bonds c"
  by (simp add: bonds_def bond_at_def)

lemma bonds_carries:
  assumes "carries c c'" "length (vo_proposals c') = length (vo_proposals c)"
  shows "bonds c' = bonds c"
proof -
  have "bond_at c' i = bond_at c i" for i
    using carries_Some [OF assms(1), of i] carries_None [OF assms(1), of i] by (cases "stored c i") (auto simp: bond_at_def carried_def)
  then show ?thesis using assms(2) by (simp add: bonds_def)
qed

lemma advance_accounted:
  assumes "internal_advance_queue e c = Inr c'" and "queue_inv c"
  shows "accounted 0 {} c c'"
proof (rule accountedI [of _ _ "[]"])
  note a = advance_carries [OF assms]
  show "vo_outbox c' = vo_outbox c @ []" using a(2) by (simp add: same_ledger_def)
  show "bonds c' + returned_out [] \<le> bonds c + 0" using bonds_carries [OF a(1)] a(2) by (simp add: same_ledger_def)
  fix i p
  assume p: "stored c i = Some p" "pr_status p = InProgress"
  obtain k where "advances e c c' k" using advance_effect [OF assms] by blast
  moreover have "i \<notin> set (vo_pending_queue c)" "i \<notin> set (vo_active_proposals c)"
    using assms(2) p by (auto simp: queue_inv_def slots_ok_def line_ok_def is_active_status_def)
  ultimately show "stored c' i = Some p" using p in_set_takeD unfolding advances_def by metis
qed simp

lemma bonds_write:
  assumes "stored c' = (stored c)(i \<mapsto> p')" "length (vo_proposals c') = length (vo_proposals c)" "stored c i = Some p"
  shows "bonds c' + pr_bond_amount p = bonds c + pr_bond_amount p'"
proof -
  have i: "i \<in> {..<length (vo_proposals c)}" using stored_less [OF assms(3)] by simp
  have "bonds c = pr_bond_amount p + (\<Sum>j \<in> {..<length (vo_proposals c)} - {i}. bond_at c j)"
    unfolding bonds_def using i by (subst sum.remove [of _ i]) (simp_all add: bond_at_def assms(3))
  moreover have "bonds c' = pr_bond_amount p' + (\<Sum>j \<in> {..<length (vo_proposals c)} - {i}. bond_at c' j)"
    unfolding bonds_def assms(2) using i by (subst sum.remove [of _ i]) (simp_all add: bond_at_def assms(1))
  moreover have "(\<Sum>j \<in> {..<length (vo_proposals c)} - {i}. bond_at c' j) = (\<Sum>j \<in> {..<length (vo_proposals c)} - {i}. bond_at c j)"
    by (rule sum.cong) (auto simp: bond_at_def assms(1))
  ultimately show ?thesis by simp
qed

lemma edits_accounted:
  assumes "edits e c i p p' xs c'" and "queue_inv c" and "pr_id p' = pr_id p" and "pr_status p \<noteq> InProgress"
    and "pr_bond_amount p' + returned_out xs \<le> pr_bond_amount p + d"
    and "\<And>j. length (filter (is_run j) xs) \<le> (if j \<in> R then 1 else 0)"
  shows "accounted d R c c'"
proof -
  have f: "fresh e c i = Some p" using assms(1) by (simp add: edits_def)
  have i: "pr_id p' = i" using fresh_facts(1) [OF f assms(2)] assms(3) by simp
  note s = edits_stored [OF assms(1,2) i]
  obtain p0 where p0: "stored c i = Some p0" "carried p0 p" by (rule fresh_carried [OF f assms(2)])
  have "pr_status p0 \<noteq> InProgress"
  proof
    assume "pr_status p0 = InProgress"
    then have "p = p0" using f p0(1) by (simp add: fresh_def update_inert)
    then show False using \<open>pr_status p0 = InProgress\<close> assms(4) by simp
  qed
  then have "stored c' j = Some q" if "stored c j = Some q" "pr_status q = InProgress" for j q
    using that p0(1) s(1) by auto
  moreover have "bonds c' + pr_bond_amount p = bonds c + pr_bond_amount p'"
    using bonds_write [OF s(1,7) p0(1)] p0(2) by (simp add: carried_def)
  ultimately show ?thesis using s(4) assms(5,6) by (intro accountedI [of _ _ xs]) auto
qed

lemma paid_bond_payment [simp]: "returned_out (bond_payment c p) = pr_bond_amount p"
  by (simp add: bond_payment_def)

lemma is_run_simps [simp]:
  "\<not> is_run i (Proposal_Event a b j)" "\<not> is_run i (Pay a n)" "\<not> is_run i (Fetch_Snapshot a j)" "\<not> is_run i (Chained_Vote j v n)"
  "\<not> is_run i (Proposal_Vote a b j k n)" "\<not> is_run i (Execute_Result j r)" "is_run i (Run_Actions j xs) \<longleftrightarrow> j = i"
  "filter (is_run i) (bond_payment c p) = []" "\<not> is_run i (Upgrade_Code code)"
  by (simp_all add: is_run_def bond_payment_def)

lemma create_accounted:
  assumes "create_proposal X e md actions flow c = Inr (c', i)" and "queue_inv c"
  shows "accounted (attached_deposit e) {} c c'"
proof -
  obtain p refund where 1: "i = length (vo_proposals c)" "new_proposal e (vo_config c) i actions flow = Inr p"
    "vo_proposals c' = vo_proposals c @ [VProposal_Current p]"
    and o: "vo_outbox c' = vo_outbox c @ Proposal_Event ''create_proposal'' (predecessor e) i #
       (if 0 < refund then [Pay (predecessor e) refund] else [])"
    and r: "refund + pr_bond_amount p \<le> attached_deposit e" by (rule create_effect [OF assms(1)])
  have s: "stored c' = (stored c)(length (vo_proposals c) \<mapsto> p)"
    by (auto simp: stored_def 1(3) nth_append fun_eq_iff split: if_splits)
  have "(\<Sum>j < length (vo_proposals c). bond_at c' j) = bonds c"
    unfolding bonds_def by (rule sum.cong) (auto simp: bond_at_def s)
  moreover have "bond_at c' (length (vo_proposals c)) = pr_bond_amount p" by (simp add: bond_at_def s)
  ultimately have "bonds c' = bonds c + pr_bond_amount p" by (simp add: bonds_def 1(3) lessThan_Suc)
  moreover have "stored c' j = Some q" if "stored c j = Some q" for j q
    using that stored_less [OF that] by (simp add: s)
  ultimately show ?thesis using o r by (intro accountedI [OF o]) auto
qed

lemma vote_accounted:
  assumes "vote X e i v q va c0 = Inr c'" and "voting_inv X V roll c0" and "(q, va) \<in> V"
  shows "accounted (attached_deposit e) {} c0 c'"
proof -
  let ?a = "acc_account_id (account_from va)" and ?j = "vote_option_u8 v"
  obtain c p s w p1 p2 p3 kept where r: "internal_advance_queue e c0 = Inr c" "fresh e c i = Some p"
    "pr_status p = Voting \<or> pr_status p = Sandbox \<and> v = For"
    "withdraw_ballot (vo_votes c (?a, i)) w p = Inr p1" "cast_ballot ?j w p1 = Inr p2" "graduate X e p2 = Inr p3"
    "internal_set_proposal p3 (c\<lparr>vo_outbox := vo_outbox c @ vote_log e ?a i (vo_votes c (?a, i)) ?j w kept,
       vo_votes := (vo_votes c)((?a, i) \<mapsto> ?j)\<rparr>) = Inr c'"
    by (rule vote_effect [OF assms(1)])
  let ?l = "vote_log e ?a i (vo_votes c (?a, i)) ?j w kept"
  let ?c = "c\<lparr>vo_outbox := vo_outbox c @ ?l, vo_votes := (vo_votes c)((?a, i) \<mapsto> ?j)\<rparr>"
  have inv: "voting_inv X V roll c" by (rule advance_keeps [OF r(1) assms(2)])
  have q: "queue_inv c" "queue_inv c0" using inv assms(2) by (simp_all add: voting_inv_def)
  have qc: "queue_inv ?c" using queue_inv_cong [of ?c c] q by simp
  have sc: "stored ?c = stored c" by (rule stored_cong) simp
  have p1: "pr_id p1 = pr_id p" "pr_bond_amount p1 = pr_bond_amount p"
    using r(4) by (auto simp: withdraw_ballot_def and_then_eq_Inr split: option.splits)
  have p2: "pr_id p2 = pr_id p" "pr_bond_amount p2 = pr_bond_amount p"
    using r(5) p1 by (auto simp: cast_ballot_def and_then_eq_Inr)
  have p3: "pr_id p3 = pr_id p" "pr_bond_amount p3 = pr_bond_amount p" using graduate_cases [OF r(6)] p2 by auto
  have "edits e ?c i p p3 [] c'" using r(2,7) sc by (simp add: edits_def fresh_def)
  from edits_accounted [OF this qc p3(1)] r(3) p3(2) have a: "accounted 0 {} ?c c'" by auto
  have l: "returned_out ?l \<le> attached_deposit e" "\<And>j. filter (is_run j) ?l = []"
    by (simp_all add: vote_log_def split: option.split)
  have "bonds ?c = bonds c" by (rule bonds_cong [OF sc]) simp
  then have "accounted (attached_deposit e) {} c ?c"
    by (intro accountedI [of _ _ ?l]) (use l sc in auto)
  from accounted_trans [OF advance_accounted [OF r(1) q(2)] trans_accounted [OF this a]] show ?thesis .
qed

lemma edit_accounted:
  assumes "edits e c i p p' xs c'" and "voting_inv X V roll c" and "pr_id p' = pr_id p" and "pr_status p \<noteq> InProgress"
    and "pr_bond_amount p' + returned_out xs \<le> pr_bond_amount p"
    and "\<And>j. length (filter (is_run j) xs) \<le> (if j \<in> R then 1 else 0)"
  shows "accounted d R c c'"
  by (rule edits_accounted [OF assms(1) _ assms(3,4) _ assms(6)]) (use assms(2,5) in \<open>simp_all add: voting_inv_def\<close>)

lemma approve_accounted:
  assumes "approve_proposal e i m c0 = Inr (c', info)" and "voting_inv X V roll c0"
  shows "accounted d {} c0 c'"
  using assms(1)
proof (cases rule: approve_edits)
  case (started c p p')
  have inv: "voting_inv X V roll c" by (rule advance_keeps [OF started(1) assms(2)])
  note a = approved_facts [OF started(3)]
  have "accounted d {} c c'" by (rule edit_accounted [OF started(5) inv]) (use a started(2) in simp_all)
  with advance_accounted [OF started(1)] assms(2) show ?thesis using accounted_trans by (auto simp: voting_inv_def)
next
  case (queued c p p' c3)
  have inv: "voting_inv X V roll c" by (rule advance_keeps [OF queued(1) assms(2)])
  note a = approved_facts [OF queued(3)]
  have "accounted d {} c c3" by (rule edit_accounted [OF queued(5) inv]) (use a queued(2) in simp_all)
  moreover have "stored c' = stored c3" by (rule stored_cong) (simp add: queued(6))
  moreover from this have "bonds c' = bonds c3" by (rule bonds_cong) (simp add: queued(6))
  ultimately have "accounted d {} c c'" by (simp add: accounted_def queued(6))
  with advance_accounted [OF queued(1)] assms(2) show ?thesis using accounted_trans by (auto simp: voting_inv_def)
qed

lemma take_snapshot_accounted:
  assumes "take_snapshot_and_vote e i v c0 = Inr c'" and "voting_inv X V roll c0"
  shows "accounted (attached_deposit e) {} c0 c'"
  using assms(1)
proof (rule take_snapshot_effect)
  fix c p xs
  assume c: "internal_advance_queue e c0 = Inr c" "c' = c\<lparr>vo_outbox := vo_outbox c @ xs\<rparr>"
    and x: "xs = (if pr_snapshot_and_state p = None then [Fetch_Snapshot (cf_venear_account_id (vo_config c)) i] else [])
      @ (case v of None \<Rightarrow> [] | Some pay \<Rightarrow> [Chained_Vote i pay (attached_deposit e)])"
  have s: "stored c' = stored c" by (rule stored_cong) (simp add: c(2))
  have b: "bonds c' = bonds c" by (rule bonds_cong [OF s]) (simp add: c(2))
  have l: "returned_out xs \<le> attached_deposit e" "filter (is_run j) xs = []" for j by (simp_all add: x split: option.split)
  have "accounted (attached_deposit e) {} c c'"
    by (rule accountedI [of _ _ xs]) (use b l s c(2) in auto)
  moreover have "accounted 0 {} c0 c" using advance_accounted [OF c(1)] assms(2) by (simp add: voting_inv_def)
  ultimately show ?thesis by (rule accounted_trans [rotated])
qed

lemma accounted_more: "accounted 0 {} c c' \<Longrightarrow> accounted d R c c'"
  unfolding accounted_def by (fastforce intro: le_SucI)

lemma on_get_snapshot_accounted:
  assumes "on_get_snapshot X e result i c = Inr (c', info)" and "voting_inv X V roll c"
  shows "accounted d {} c c'"
  using assms(1)
proof (rule on_get_snapshot_effect)
  fix p s
  assume p: "pr_status p = Sandbox \<or> pr_status p = Voting"
    and "edits e c i p (p\<lparr>pr_snapshot_and_state := Some s\<rparr>) [] c'"
  from edit_accounted [OF this(2) assms(2)] p show ?thesis by auto
qed

fun executes :: "voting_msg \<Rightarrow> proposal_id set" where
  "executes (Execute_Proposal i) = {i}"
| "executes _ = {}"

lemma veto_accounted:
  assumes "veto_proposal e i c0 = Inr c'" and "voting_inv X V roll c0"
  shows "accounted d {} c0 c'"
  using assms(1)
proof (rule veto_edits)
  fix c p c1
  assume a: "internal_advance_queue e c0 = Inr c" "internal_advance_queue e c1 = Inr c'"
    and p: "can_be_vetoed (pr_flow p) (pr_status p)"
    and ed: "edits e c i p (p\<lparr>pr_rejecter_id := Some (predecessor e), pr_status := Vetoed\<rparr>)
       [Proposal_Event ''veto_proposal'' (predecessor e) i] c1"
  have inv: "voting_inv X V roll c" by (rule advance_keeps [OF a(1) assms(2)])
  have f: "fresh e c i = Some p" using ed by (simp add: edits_def)
  have n: "pr_status p \<noteq> InProgress" "pr_status p \<noteq> Queued" using p by (cases "pr_flow p"; auto simp: can_be_vetoed_def)+
  obtain p0 where p0: "stored c i = Some p0" "pr_status p0 \<noteq> Queued"
    by (rule fresh_carried [OF f]) (use inv n in \<open>auto simp: voting_inv_def\<close>)
  have l: "life_ok p" by (rule fresh_life(2) [OF f inv])
  have "moves_to p (p\<lparr>pr_rejecter_id := Some (predecessor e), pr_status := Vetoed\<rparr>)"
    by (rule moves_toI) (use p no_bond [OF l] in \<open>cases "pr_flow p"; auto simp: can_be_vetoed_def same_ballot_def passed_status_def\<close>)+
  then have "queue_inv c1" using moves_keeps(1) [OF inv ed] by (simp add: voting_inv_def)
  then have "accounted 0 {} c1 c'" by (rule advance_accounted [OF a(2)])
  moreover have "accounted d {} c c1" by (rule edit_accounted [OF ed inv]) (use n in simp_all)
  moreover have "accounted 0 {} c0 c" using advance_accounted [OF a(1)] assms(2) by (simp add: voting_inv_def)
  ultimately show ?thesis using accounted_trans trans_accounted by blast
qed

lemma noveto_accounted:
  assumes "noveto_proposal e i c = Inr c'" and "voting_inv X V roll c"
  shows "accounted d {} c c'"
  using assms(1)
proof (rule noveto_edits)
  fix p c1
  let ?s = "if has_actions p then Executable else Succeeded"
  assume a: "internal_advance_queue e c1 = Inr c'" and p: "pr_status p = Timelock"
    and ed: "edits e c i p (p\<lparr>pr_status := ?s\<rparr>) [Proposal_Event ''noveto_proposal'' (predecessor e) i] c1"
  have f: "fresh e c i = Some p" and c1: "\<exists>c2. internal_set_proposal (p\<lparr>pr_status := ?s\<rparr>) c = Inr c2
      \<and> c1 = c2\<lparr>vo_outbox := vo_outbox c2 @ [Proposal_Event ''noveto_proposal'' (predecessor e) i]\<rparr>"
    using ed by (auto simp: edits_def)
  have l: "life_ok p" "pr_id p = i" by (rule fresh_life [OF f assms(2)])+
  have q: "queue_inv c" using assms(2) by (simp add: voting_inv_def)
  have ok: "life_ok (p\<lparr>pr_status := ?s\<rparr>)"
    using l(1) p by (intro life_ok_moved [of _ p]) (simp_all add: same_ballot_def life_ok_def earned_def passed_status_def bond_ok_def)
  obtain p0 where p0: "stored c i = Some p0" "pr_status p0 \<noteq> Queued" by (rule fresh_carried [OF f q]) (use p in auto)
  obtain c2 where c2: "internal_set_proposal (p\<lparr>pr_status := ?s\<rparr>) c = Inr c2"
    "c1 = c2\<lparr>vo_outbox := vo_outbox c2 @ [Proposal_Event ''noveto_proposal'' (predecessor e) i]\<rparr>" using c1 by blast
  have "queue_inv c2" by (rule write_queue_inv(1) [OF c2(1) q ok _ p0(2)]) (use p0(1) l(2) in simp_all)
  then have "queue_inv c1" using queue_inv_cong [of c1 c2] by (simp add: c2(2))
  then have "accounted 0 {} c1 c'" by (rule advance_accounted [OF a])
  moreover have "accounted d {} c c1" by (rule edit_accounted [OF ed assms(2)]) (use p in simp_all)
  ultimately show ?thesis using trans_accounted by blast
qed

lemma execute_accounted:
  assumes "execute_proposal e i c0 = Inr c'" and "voting_inv X V roll c0"
  shows "accounted d {i} c0 c'"
  using assms(1)
proof (rule execute_edits)
  fix c p actions
  assume a: "internal_advance_queue e c0 = Inr c" and p: "pr_status p = Executable"
    and ed: "edits e c i p (p\<lparr>pr_status := InProgress\<rparr>)
       [Proposal_Event ''execute_proposal'' (predecessor e) i, Run_Actions i actions] c'"
  have inv: "voting_inv X V roll c" by (rule advance_keeps [OF a assms(2)])
  have "accounted d {i} c c'" by (rule edit_accounted [OF ed inv]) (use p in auto)
  moreover have "accounted 0 {} c0 c" using advance_accounted [OF a] assms(2) by (simp add: voting_inv_def)
  ultimately show ?thesis by (rule accounted_trans [rotated])
qed

lemma exec_accounted:
  assumes "voting_exec X e m c = Inr c'" and "voting_inv X V roll c" and "papers m \<subseteq> V"
  shows "accounted (attached_deposit e) (executes m) c c'"
proof (cases "about_proposals m")
  case False
  note f = settings_frame [OF assms(1) False]
  then obtain xs where xs: "vo_outbox c' = vo_outbox c @ xs" "returned_out xs = 0" "\<forall>x \<in> set xs. \<exists>code. x = Upgrade_Code code"
    by blast
  have run: "filter (is_run i) xs = []" for i using xs(3) by (auto simp: filter_empty_conv)
  have s: "stored c' = stored c" by (rule stored_cong) (use f in simp)
  then have "bonds c' = bonds c" using f by (intro bonds_cong) auto
  then show ?thesis using xs(2) run s by (intro accountedI [OF xs(1)]) auto
next
  case True
  note r = assms(1) and q = assms(2) [unfolded voting_inv_def, THEN conjunct1]
  from True show ?thesis
  proof (cases rule: about_proposals_cases)
    case (create md actions flow)
    then obtain i where "create_proposal X e md actions flow c = Inr (c', i)" using r by (auto simp: and_then_eq_Inr)
    then show ?thesis using create_accounted [OF _ q] create by simp
  next
    case (approve i mj)
    then obtain info where "approve_proposal e i mj c = Inr (c', info)" using r by (auto simp: and_then_eq_Inr)
    then show ?thesis using approve_accounted [OF _ assms(2)] approve by simp
  next
    case advance
    then have "internal_advance_queue e c = Inr c'" using r by (auto simp: advance_queue_def guards res_simps)
    then show ?thesis by (rule accounted_more [OF advance_accounted [OF _ q]])
  next
    case (resize n)
    let ?c = "c\<lparr>vo_config := (vo_config c)\<lparr>cf_max_active_proposals := n\<rparr>\<rparr>"
    have s: "stored ?c = stored c" by (rule stored_cong) simp
    have "queue_inv ?c" using queue_inv_cong [of ?c c] q by simp
    then have "accounted 0 {} ?c c'" by (rule advance_accounted [OF resize_exec [OF r [unfolded resize]]])
    moreover have "bonds ?c = bonds c" by (rule bonds_cong [OF s]) simp
    ultimately have "accounted 0 {} c c'" using s by (simp add: accounted_def)
    then show ?thesis by (rule accounted_more)
  next
    case (vote i v q' va)
    then show ?thesis using r assms(3) vote_accounted [OF _ assms(2)] by simp
  next
    case (snapshot i v)
    then show ?thesis using r take_snapshot_accounted [OF _ assms(2)] by simp
  next
    case (reject i)
    then have "reject_proposal e i c = Inr c'" using r by simp
    then show ?thesis
      by (rule reject_edits) (erule edit_accounted [OF _ assms(2)]; auto)
  next
    case (slash i)
    then have "slash_proposal e i c = Inr c'" using r by simp
    then show ?thesis
      by (rule slash_edits) (erule edit_accounted [OF _ assms(2)]; auto)
  next
    case (claim i)
    then have "claim_bond e i c = Inr c'" using r by simp
    then show ?thesis
      by (rule claim_edits) (erule edit_accounted [OF _ assms(2)]; auto)
  next
    case (veto i)
    then show ?thesis using r veto_accounted [OF _ assms(2)] by simp
  next
    case (noveto i)
    then show ?thesis using r noveto_accounted [OF _ assms(2)] by simp
  next
    case (execute i)
    then show ?thesis using r execute_accounted [OF _ assms(2)] by simp
  qed
qed

end
