(* ===== verification/Voting_World.thy ===== *)
theory Voting_World
  imports Voting_Run
begin

text \<open>
  The voting contract in its environment. A world is the contract, the proposals whose execution
  callback is still under way, and the deposits received so far. \<open>voting_step\<close> delivers a call, the
  callback of an execution, or the answer of the veNEAR contract to a snapshot request. A
  chained vote is a call like any other, sent by the contract to itself. The answer to a snapshot
  request is one against which the ballot papers \<open>V\<close> in circulation carry the voting power of the
  electoral roll; the veNEAR side of that agreement is a property of the Merkle tree.
\<close>

section \<open>Transitions\<close>

record voting_world =
  vw_contract :: voting
  vw_callbacks :: "proposal_id list"
  vw_deposits :: nat

fun schedules :: "voting_msg \<Rightarrow> proposal_id list" where
  "schedules (Execute_Proposal i) = [i]"
| "schedules _ = []"

lemma executes_schedules: "executes m = set (schedules m)"
  by (cases m) simp_all

definition answer_ok :: "voting_ext \<Rightarrow> (merkle_proof \<times> vaccount) set \<Rightarrow> roll \<Rightarrow> env
    \<Rightarrow> (merkle_tree_snapshot \<times> vglobal_state) option \<Rightarrow> bool" where
  "answer_ok X V roll e result \<longleftrightarrow> (\<forall>snapshot vg g venear. result = Some (snapshot, vg)
     \<longrightarrow> global_state_update (block_timestamp e) (global_from vg) = Inr g \<longrightarrow> pooled_total (total_venear_balance g) = Inr venear
     \<longrightarrow> roll_ok X V roll (taken_snapshot e snapshot g venear))"

inductive voting_step :: "voting_ext \<Rightarrow> (merkle_proof \<times> vaccount) set \<Rightarrow> roll \<Rightarrow> voting_world \<Rightarrow> voting_world \<Rightarrow> bool"
  for X V roll where
  call: "voting_exec X e m (vw_contract w) = Inr c' \<Longrightarrow> papers m \<subseteq> V
    \<Longrightarrow> voting_step X V roll w \<lparr>vw_contract = c', vw_callbacks = schedules m @ vw_callbacks w,
          vw_deposits = vw_deposits w + attached_deposit e\<rparr>"
| executed: "i \<in> set (vw_callbacks w) \<Longrightarrow> on_execute_proposal e results i (vw_contract w) = Inr c'
    \<Longrightarrow> voting_step X V roll w (w\<lparr>vw_contract := c', vw_callbacks := remove1 i (vw_callbacks w)\<rparr>)"
| callback_failed: "i \<in> set (vw_callbacks w)
    \<Longrightarrow> voting_step X V roll w (w\<lparr>vw_callbacks := remove1 i (vw_callbacks w)\<rparr>)"
| snapshot: "Fetch_Snapshot a i \<in> set (vo_outbox (vw_contract w))
    \<Longrightarrow> on_get_snapshot X e result i (vw_contract w) = Inr (c', info) \<Longrightarrow> answer_ok X V roll e result
    \<Longrightarrow> voting_step X V roll w (w\<lparr>vw_contract := c'\<rparr>)"

inductive_cases voting_stepE: "voting_step X V roll w w'"

definition voting_init :: "voting_world \<Rightarrow> bool" where
  "voting_init w \<longleftrightarrow> (\<exists>e cfg. voting_new e cfg = Inr (vw_contract w)) \<and> vw_callbacks w = [] \<and> vw_deposits w = 0"

definition voting_reaches :: "voting_ext \<Rightarrow> (merkle_proof \<times> vaccount) set \<Rightarrow> roll \<Rightarrow> voting_world \<Rightarrow> bool" where
  "voting_reaches X V roll w \<longleftrightarrow> (\<exists>w0. voting_init w0 \<and> (voting_step X V roll)\<^sup>*\<^sup>* w0 w)"

section \<open>Invariant of a run\<close>

definition has_run :: "voting \<Rightarrow> proposal_id \<Rightarrow> bool" where
  "has_run c i \<longleftrightarrow> (\<exists>p. stored c i = Some p \<and> pr_status p \<in> {InProgress, Succeeded, Failed})"

definition running :: "voting \<Rightarrow> proposal_id \<Rightarrow> bool" where
  "running c i \<longleftrightarrow> (\<exists>p. stored c i = Some p \<and> pr_status p = InProgress)"

definition runs :: "voting \<Rightarrow> proposal_id \<Rightarrow> nat" where
  "runs c i = length (filter (is_run i) (vo_outbox c))"

definition run_count_ok :: "voting \<Rightarrow> bool" where
  "run_count_ok c \<longleftrightarrow> (\<forall>i. runs c i \<le> (if has_run c i then 1 else 0))"

text \<open>What is dispatched for a proposal are the actions that the proposal stores.\<close>

definition runs_stored :: "voting \<Rightarrow> bool" where
  "runs_stored c \<longleftrightarrow> (\<forall>i xs. Run_Actions i xs \<in> set (vo_outbox c) \<longrightarrow> (\<exists>p. stored c i = Some p \<and> pr_actions p = Some xs))"

definition world_inv :: "voting_ext \<Rightarrow> (merkle_proof \<times> vaccount) set \<Rightarrow> roll \<Rightarrow> voting_world \<Rightarrow> bool" where
  "world_inv X V roll w \<longleftrightarrow> voting_inv X V roll (vw_contract w)
     \<and> distinct (vw_callbacks w) \<and> (\<forall>i \<in> set (vw_callbacks w). running (vw_contract w) i)
     \<and> bonds (vw_contract w) + returned_out (vo_outbox (vw_contract w)) \<le> vw_deposits w
     \<and> run_count_ok (vw_contract w) \<and> runs_stored (vw_contract w)"

lemma running_has_run: "running c i \<Longrightarrow> has_run c i"
  by (auto simp: running_def has_run_def)

lemma accounted_running: "accounted d R c c' \<Longrightarrow> running c i \<Longrightarrow> running c' i"
  by (auto simp: accounted_def running_def)

lemma progress_has_run:
  assumes "progress c c'" and "running c i \<Longrightarrow> running c' i" and "has_run c i"
  shows "has_run c' i"
proof -
  obtain p where p: "stored c i = Some p" "pr_status p \<in> {InProgress, Succeeded, Failed}"
    using assms(3) by (auto simp: has_run_def)
  show ?thesis
  proof (cases "pr_status p = InProgress")
    case True
    then show ?thesis using assms(2) p(1) running_has_run by (auto simp: running_def)
  next
    case False
    then have "terminal_status (pr_status p)" using p(2) by (auto simp: terminal_status_def)
    moreover obtain p' where "stored c' i = Some p'" "life_path (pr_flow p) (pr_status p) (pr_status p')"
      using assms(1) p(1) by (auto simp: progress_def)
    ultimately show ?thesis using life_path_terminal p(2) by (auto simp: has_run_def)
  qed
qed

lemma accounted_has_run: "accounted d R c c' \<Longrightarrow> progress c c' \<Longrightarrow> has_run c i \<Longrightarrow> has_run c' i"
  using progress_has_run accounted_running by blast

lemma run_count_le:
  assumes "run_count_ok c" and "runs c' i \<le> runs c i" and "has_run c i \<Longrightarrow> has_run c' i"
  shows "runs c' i \<le> (if has_run c' i then 1 else 0)"
proof -
  have "runs c i \<le> (if has_run c i then 1 else 0)" using assms(1) by (simp add: run_count_ok_def)
  then show ?thesis using assms(2,3) by (cases "has_run c i") auto
qed

lemma accounted_paid:
  assumes "accounted d R c c'"
  shows "bonds c' + returned_out (vo_outbox c') \<le> bonds c + returned_out (vo_outbox c) + d"
    and "runs c' i \<le> runs c i + (if i \<in> R then 1 else 0)"
proof -
  obtain xs where xs: "vo_outbox c' = vo_outbox c @ xs" "bonds c' + returned_out xs \<le> bonds c + d"
    "\<And>i. length (filter (is_run i) xs) \<le> (if i \<in> R then 1 else 0)" using assms by (auto simp: accounted_def)
  show "bonds c' + returned_out (vo_outbox c') \<le> bonds c + returned_out (vo_outbox c) + d" using xs(1,2) by simp
  show "runs c' i \<le> runs c i + (if i \<in> R then 1 else 0)" using xs(1) xs(3) [of i] by (simp add: runs_def)
qed

lemma runs_stored_progress:
  assumes "runs_stored c" and "progress c c'"
    and "\<And>i xs. Run_Actions i xs \<in> set (vo_outbox c') \<Longrightarrow> Run_Actions i xs \<in> set (vo_outbox c)
      \<or> (\<exists>p. stored c' i = Some p \<and> pr_actions p = Some xs)"
  shows "runs_stored c'"
proof -
  have "\<exists>p. stored c' i = Some p \<and> pr_actions p = Some xs" if x: "Run_Actions i xs \<in> set (vo_outbox c)" for i xs
  proof -
    obtain p where p: "stored c i = Some p" "pr_actions p = Some xs" using x assms(1) unfolding runs_stored_def by blast
    then obtain p' where "stored c' i = Some p'" "pr_actions p' = pr_actions p" using assms(2) unfolding progress_def by blast
    then show ?thesis using p(2) by simp
  qed
  then show ?thesis using assms(3) unfolding runs_stored_def by blast
qed

lemma accounted_old_run:
  assumes "accounted d R c c'" and "Run_Actions i xs \<in> set (vo_outbox c')" and "i \<notin> R"
  shows "Run_Actions i xs \<in> set (vo_outbox c)"
proof -
  obtain ys where ys: "vo_outbox c' = vo_outbox c @ ys" "filter (is_run i) ys = []"
  proof -
    obtain ys where "vo_outbox c' = vo_outbox c @ ys" "\<forall>i. length (filter (is_run i) ys) \<le> (if i \<in> R then 1 else 0)"
      using assms(1) unfolding accounted_def by blast
    from this(2) [rule_format, of i] this(1) assms(3) show thesis by (intro that) auto
  qed
  then have "Run_Actions i xs \<notin> set ys" by (auto simp: filter_empty_conv)
  then show ?thesis using ys(1) assms(2) by simp
qed

lemma execute_starts:
  assumes "execute_proposal e i c0 = Inr c'" and "voting_inv X V roll c0"
  shows "running c' i" and "\<not> has_run c0 i"
    and "Run_Actions i xs \<in> set (vo_outbox c') \<Longrightarrow> Run_Actions i xs \<in> set (vo_outbox c0)
      \<or> (\<exists>p. stored c' i = Some p \<and> pr_actions p = Some xs)"
proof -
  obtain c p actions where a: "internal_advance_queue e c0 = Inr c" and p: "pr_status p = Executable"
    and acts: "pr_actions p = Some actions"
    and ed: "edits e c i p (p\<lparr>pr_status := InProgress\<rparr>)
       [Proposal_Event ''execute_proposal'' (predecessor e) i, Run_Actions i actions] c'"
    by (rule execute_edits [OF assms(1)])
  have inv: "voting_inv X V roll c" by (rule advance_keeps [OF a assms(2)])
  have q: "queue_inv c0" "queue_inv c" using inv assms(2) by (simp_all add: voting_inv_def)
  have f: "fresh e c i = Some p" using ed by (simp add: edits_def)
  have id: "pr_id (p\<lparr>pr_status := InProgress\<rparr>) = i" using fresh_facts(1) [OF f q(2)] by simp
  note w = edits_stored [OF ed q(2) id]
  then show "running c' i" by (simp add: running_def)
  show "Run_Actions i xs \<in> set (vo_outbox c0) \<or> (\<exists>p. stored c' i = Some p \<and> pr_actions p = Some xs)"
    if "Run_Actions i xs \<in> set (vo_outbox c')"
    using that w(1,4) acts advance_carries(2) [OF a q(1)] by (auto simp: same_ledger_def)
  show "\<not> has_run c0 i"
  proof
    assume "has_run c0 i"
    then have "has_run c i"
      by (rule accounted_has_run [OF advance_accounted [OF a q(1)] advance_progress [OF a q(1)]])
    then obtain p1 where p1: "stored c i = Some p1" "pr_status p1 \<in> {InProgress, Succeeded, Failed}" by (auto simp: has_run_def)
    then have "p = p1" using f by (auto simp: fresh_def update_inert)
    then show False using p p1(2) by simp
  qed
qed

text \<open>The callback of an execution ends that execution and touches nothing else.\<close>

lemma on_execute_effect:
  assumes "on_execute_proposal e rs i c0 = Inr c'" and "voting_inv X V roll c0" and "running c0 i"
  shows "has_run c' i" and "j \<noteq> i \<Longrightarrow> running c0 j \<Longrightarrow> running c' j" and "bonds c' = bonds c0"
    and "returned_out (vo_outbox c') = returned_out (vo_outbox c0)" and "runs c' j = runs c0 j"
    and "Run_Actions j xs \<in> set (vo_outbox c') \<Longrightarrow> Run_Actions j xs \<in> set (vo_outbox c0)"
proof -
  let ?s = "if list_all (\<lambda>r. r) rs then Succeeded else Failed"
  obtain c p where a: "internal_advance_queue e c0 = Inr c"
    and ed: "edits e c i p (p\<lparr>pr_status := ?s\<rparr>) [Execute_Result i (list_all (\<lambda>r. r) rs)] c'"
    by (rule on_execute_edits [OF assms(1)])
  have q0: "queue_inv c0" using assms(2) by (simp add: voting_inv_def)
  have q: "queue_inv c" using advance_keeps [OF a assms(2)] by (simp add: voting_inv_def)
  note adv = advance_carries [OF a q0] and acc = advance_accounted [OF a q0]
  have f: "fresh e c i = Some p" using ed by (simp add: edits_def)
  have id: "pr_id (p\<lparr>pr_status := ?s\<rparr>) = i" using fresh_facts(1) [OF f q] by simp
  note s = edits_stored [OF ed q id]
  show "has_run c' i" by (simp add: has_run_def s(1))
  show "running c' j" if "j \<noteq> i" "running c0 j"
    using accounted_running [OF acc that(2)] that(1) by (simp add: running_def s(1))
  obtain p0 where p0: "stored c i = Some p0" "carried p0 p" by (rule fresh_carried [OF f q])
  have "bonds c' = bonds c" using bonds_write [OF s(1,7) p0(1)] p0(2) by (simp add: carried_def)
  then show "bonds c' = bonds c0" using bonds_carries [OF adv(1)] adv(2) by (simp add: same_ledger_def)
  show "returned_out (vo_outbox c') = returned_out (vo_outbox c0)" "runs c' j = runs c0 j"
    using s(4) adv(2) by (simp_all add: same_ledger_def runs_def)
  show "Run_Actions j xs \<in> set (vo_outbox c') \<Longrightarrow> Run_Actions j xs \<in> set (vo_outbox c0)"
    using s(4) adv(2) by (simp add: same_ledger_def)
qed

lemma call_keeps_world:
  assumes "world_inv X V roll w" and r: "voting_exec X e m (vw_contract w) = Inr c'" and V: "papers m \<subseteq> V"
  shows "world_inv X V roll \<lparr>vw_contract = c', vw_callbacks = schedules m @ vw_callbacks w,
    vw_deposits = vw_deposits w + attached_deposit e\<rparr>"
proof -
  let ?c = "vw_contract w"
  have inv: "voting_inv X V roll ?c" and k: "distinct (vw_callbacks w)" "\<forall>i \<in> set (vw_callbacks w). running ?c i"
    and d: "bonds ?c + returned_out (vo_outbox ?c) \<le> vw_deposits w" and n: "run_count_ok ?c" and rs: "runs_stored ?c"
    using assms(1) by (simp_all add: world_inv_def)
  note keep = voting_exec_keeps [OF r inv V] and acc = exec_accounted [OF r inv V]
  have start: "running c' i \<and> \<not> has_run ?c i" if "i \<in> set (schedules m)" for i
  proof -
    have m: "m = Execute_Proposal i" using that by (cases m) simp_all
    show ?thesis using execute_starts [OF _ inv] r by (simp add: m)
  qed
  have kept: "running c' i" if "i \<in> set (vw_callbacks w)" for i
    using accounted_running [OF acc] k(2) that by blast
  have "distinct (schedules m)" by (cases m) simp_all
  moreover have "set (schedules m) \<inter> set (vw_callbacks w) = {}" using start running_has_run k(2) by blast
  ultimately have "distinct (schedules m @ vw_callbacks w)" using k(1) by simp
  moreover have "\<forall>i \<in> set (schedules m @ vw_callbacks w). running c' i" using start kept by auto
  moreover have "bonds c' + returned_out (vo_outbox c') \<le> vw_deposits w + attached_deposit e" using accounted_paid(1) [OF acc] d by simp
  moreover have "runs c' i \<le> (if has_run c' i then 1 else 0)" for i
  proof (cases "i \<in> executes m")
    case True
    then have "running c' i" "\<not> has_run ?c i" using start by (simp_all add: executes_schedules)
    moreover have "runs ?c i = 0" using n \<open>\<not> has_run ?c i\<close> unfolding run_count_ok_def by (metis le_zero_eq)
    ultimately show ?thesis using accounted_paid(2) [OF acc, of i] True running_has_run by simp
  next
    case False
    then have "runs c' i \<le> runs ?c i" using accounted_paid(2) [OF acc, of i] by simp
    then show ?thesis by (rule run_count_le [OF n]) (use accounted_has_run [OF acc] keep in blast)
  qed
  moreover have "runs_stored c'"
  proof (rule runs_stored_progress [OF rs])
    fix i xs
    assume x: "Run_Actions i xs \<in> set (vo_outbox c')"
    show "Run_Actions i xs \<in> set (vo_outbox ?c) \<or> (\<exists>p. stored c' i = Some p \<and> pr_actions p = Some xs)"
    proof (cases "i \<in> executes m")
      case True
      then have m: "m = Execute_Proposal i" by (cases m) simp_all
      show ?thesis using execute_starts(3) [OF _ inv x] r by (simp add: m)
    qed (use accounted_old_run [OF acc x] in simp)
  qed (use keep in simp)
  ultimately show ?thesis using keep by (simp add: world_inv_def run_count_ok_def)
qed

lemma executed_keeps_world:
  assumes "world_inv X V roll w" and i: "i \<in> set (vw_callbacks w)"
    and r: "on_execute_proposal e results i (vw_contract w) = Inr c'"
  shows "world_inv X V roll (w\<lparr>vw_contract := c', vw_callbacks := remove1 i (vw_callbacks w)\<rparr>)"
proof -
  let ?c = "vw_contract w"
  have inv: "voting_inv X V roll ?c" and k: "distinct (vw_callbacks w)" "\<forall>i \<in> set (vw_callbacks w). running ?c i"
    and d: "bonds ?c + returned_out (vo_outbox ?c) \<le> vw_deposits w" and n: "run_count_ok ?c" and rs: "runs_stored ?c"
    using assms(1) by (simp_all add: world_inv_def)
  have run: "running ?c i" using k(2) i by blast
  then obtain p0 where p0: "stored ?c i = Some p0" "pr_status p0 = InProgress" by (auto simp: running_def)
  note keep = on_execute_keeps [OF r inv p0] and eff = on_execute_effect [OF r inv run]
  have "has_run c' j" if "has_run ?c j" for j
  proof (cases "j = i")
    case False
    show ?thesis by (rule progress_has_run [OF _ eff(2) [OF False] that]) (use keep in simp)
  qed (use eff(1) in simp)
  then have "runs c' j \<le> (if has_run c' j then 1 else 0)" for j
    using eff(5) [of j] by (intro run_count_le [OF n]) simp_all
  moreover have "\<forall>j \<in> set (remove1 i (vw_callbacks w)). running c' j" using k eff(2) by (auto simp: set_remove1_eq)
  moreover have "runs_stored c'" by (rule runs_stored_progress [OF rs]) (use keep eff(6) in simp_all)
  ultimately show ?thesis using keep k(1) d eff(3,4) by (simp add: world_inv_def run_count_ok_def distinct_remove1)
qed

lemma snapshot_keeps_world:
  assumes "world_inv X V roll w" and r: "on_get_snapshot X e result i (vw_contract w) = Inr (c', info)"
    and a: "answer_ok X V roll e result"
  shows "world_inv X V roll (w\<lparr>vw_contract := c'\<rparr>)" and "progress (vw_contract w) c'"
proof -
  let ?c = "vw_contract w"
  have inv: "voting_inv X V roll ?c" and k: "distinct (vw_callbacks w)" "\<forall>i \<in> set (vw_callbacks w). running ?c i"
    and d: "bonds ?c + returned_out (vo_outbox ?c) \<le> vw_deposits w" and n: "run_count_ok ?c" and rs: "runs_stored ?c"
    using assms(1) by (simp_all add: world_inv_def)
  have keep: "voting_inv X V roll c' \<and> progress ?c c'"
    by (rule on_get_snapshot_keeps [OF r inv]) (use a in \<open>unfold answer_ok_def, blast\<close>)
  then show "progress ?c c'" by simp
  have acc: "accounted 0 {} ?c c'" by (rule on_get_snapshot_accounted [OF r inv])
  have "runs c' j \<le> (if has_run c' j then 1 else 0)" for j
    by (rule run_count_le [OF n]) (use accounted_paid(2) [OF acc, of j] accounted_has_run [OF acc] keep in simp_all)
  moreover have "runs_stored c'" by (rule runs_stored_progress [OF rs]) (use keep accounted_old_run [OF acc] in simp_all)
  ultimately show "world_inv X V roll (w\<lparr>vw_contract := c'\<rparr>)"
    using keep k accounted_running [OF acc] accounted_paid(1) [OF acc] d by (auto simp: world_inv_def run_count_ok_def)
qed

lemma voting_new_inv:
  assumes "voting_init w"
  shows "world_inv X V roll w"
proof -
  obtain cfg where c: "vw_contract w = \<lparr>vo_config = cfg, vo_proposals = [], vo_metadata = [], vo_votes = Map.empty,
      vo_paused = False, vo_pending_queue = [], vo_active_proposals = [], vo_outbox = []\<rparr>"
    using assms unfolding voting_init_def voting_new_def and_then_eq_Inr sum.inject by metis
  have "queue_inv (vw_contract w)"
    by (simp add: c queue_inv_def ids_ok_def slots_ok_def line_ok_def stored_def)
  moreover have "books_ok X V roll (vw_contract w)" by (simp add: c books_ok_def stored_def ballots_of_def)
  ultimately show ?thesis using assms
    by (simp add: world_inv_def voting_init_def voting_inv_def run_count_ok_def) (simp add: c bonds_def runs_def runs_stored_def)
qed

interpretation vw: transition_system voting_init "voting_step X V roll" "world_inv X V roll" for X V roll
proof
  show "world_inv X V roll w" if "voting_init w" for w by (rule voting_new_inv [OF that])
  fix w w'
  assume inv: "world_inv X V roll w" and "voting_step X V roll w w'"
  from this(2) show "world_inv X V roll w'"
  proof (rule voting_stepE)
    fix i
    assume "w' = w\<lparr>vw_callbacks := remove1 i (vw_callbacks w)\<rparr>"
    then show "world_inv X V roll w'" using inv by (auto simp: world_inv_def distinct_remove1 dest: notin_set_remove1)
  qed (simp_all only: call_keeps_world [OF inv] executed_keeps_world [OF inv] snapshot_keeps_world [OF inv])
qed

lemma reaches_inv: "voting_reaches X V roll w \<Longrightarrow> world_inv X V roll w"
  using vw.reachable_inv by (auto simp: voting_reaches_def)

text \<open>
  What the executed actions cost: each proposal that was executed pays for its stored actions, once.
\<close>

definition run_cost :: "voting \<Rightarrow> proposal_id \<Rightarrow> nat" where
  "run_cost c i = (case stored c i of None \<Rightarrow> 0
     | Some p \<Rightarrow> if pr_status p \<in> {InProgress, Succeeded, Failed} then (case pr_actions p of None \<Rightarrow> 0 | Some xs \<Rightarrow> actions_amount xs) else 0)"

lemma voted_by_proposal:
  assumes "\<And>i xs. Run_Actions i xs \<in> set ys \<Longrightarrow> i < n"
  shows "(\<Sum>y\<leftarrow>ys. voted y) = (\<Sum>i < n. \<Sum>y\<leftarrow>filter (is_run i) ys. voted y)"
  using assms
proof (induction ys)
  case (Cons y ys)
  have IH: "(\<Sum>y\<leftarrow>ys. voted y) = (\<Sum>i < n. \<Sum>y\<leftarrow>filter (is_run i) ys. voted y)" by (rule Cons.IH) (use Cons.prems in auto)
  have "voted y = (\<Sum>i < n. if is_run i y then voted y else 0)"
  proof (cases y)
    case (Run_Actions j xs)
    then show ?thesis using Cons.prems [of j xs] by (simp add: sum.delta)
  qed simp_all
  moreover have "(\<Sum>z\<leftarrow>filter (is_run i) (y # ys). voted z) = (if is_run i y then voted y else 0) + (\<Sum>z\<leftarrow>filter (is_run i) ys. voted z)" for i
    by simp
  ultimately show ?case using IH by (simp add: sum.distrib)
qed simp

lemma voted_le_run_cost:
  assumes "run_count_ok c" and "runs_stored c"
  shows "(\<Sum>y\<leftarrow>filter (is_run i) (vo_outbox c). voted y) \<le> run_cost c i"
proof (cases "filter (is_run i) (vo_outbox c)")
  case (Cons y ys)
  have "runs c i \<le> (if has_run c i then 1 else 0)" using assms(1) by (simp add: run_count_ok_def)
  then have ys: "ys = []" and h: "has_run c i" using Cons by (auto simp: runs_def split: if_splits)
  have y: "y \<in> set (vo_outbox c)" "is_run i y" using Cons [symmetric] by (auto dest!: arg_cong [of _ _ set])
  then obtain xs where xs: "y = Run_Actions i xs" by (auto simp: is_run_def split: voting_effect.splits)
  then obtain p where "stored c i = Some p" "pr_actions p = Some xs" using assms(2) y(1) unfolding runs_stored_def by blast
  then show ?thesis using h ys xs Cons by (auto simp: run_cost_def has_run_def)
qed simp

lemma voted_le:
  assumes "world_inv X V roll w"
  shows "(\<Sum>y\<leftarrow>vo_outbox (vw_contract w). voted y) \<le> (\<Sum>i < length (vo_proposals (vw_contract w)). run_cost (vw_contract w) i)"
proof -
  have 1: "run_count_ok (vw_contract w)" "runs_stored (vw_contract w)" using assms by (simp_all add: world_inv_def)
  have "i < length (vo_proposals (vw_contract w))" if "Run_Actions i xs \<in> set (vo_outbox (vw_contract w))" for i xs
    using 1(2) that stored_less unfolding runs_stored_def by blast
  from voted_by_proposal [OF this] show ?thesis by (simp add: sum_mono voted_le_run_cost [OF 1])
qed

lemma step_progress:
  assumes "voting_step X V roll w w'" and "world_inv X V roll w"
  shows "progress (vw_contract w) (vw_contract w')"
  using assms(1)
proof (rule voting_stepE)
  have inv: "voting_inv X V roll (vw_contract w)" using assms(2) by (simp add: world_inv_def)
  fix e m c'
  assume "w' = \<lparr>vw_contract = c', vw_callbacks = schedules m @ vw_callbacks w, vw_deposits = vw_deposits w + attached_deposit e\<rparr>"
    "voting_exec X e m (vw_contract w) = Inr c'" "papers m \<subseteq> V"
  then show ?thesis using voting_exec_keeps [OF _ inv] by simp
next
  have inv: "voting_inv X V roll (vw_contract w)" using assms(2) by (simp add: world_inv_def)
  fix i e results c'
  assume w': "w' = w\<lparr>vw_contract := c', vw_callbacks := remove1 i (vw_callbacks w)\<rparr>"
    and i: "i \<in> set (vw_callbacks w)" and r: "on_execute_proposal e results i (vw_contract w) = Inr c'"
  obtain p where "stored (vw_contract w) i = Some p" "pr_status p = InProgress"
    using assms(2) i by (auto simp: world_inv_def running_def)
  from on_execute_keeps [OF r inv this] show ?thesis by (simp add: w')
next
  fix a i e result c' info
  assume "w' = w\<lparr>vw_contract := c'\<rparr>" "on_get_snapshot X e result i (vw_contract w) = Inr (c', info)" "answer_ok X V roll e result"
  then show ?thesis using snapshot_keeps_world(2) [OF assms(2)] by simp
qed (simp add: progress_def)

lemma steps_progress:
  assumes "(voting_step X V roll)\<^sup>*\<^sup>* w w'" and "world_inv X V roll w"
  shows "progress (vw_contract w) (vw_contract w')"
  using assms
proof (induction rule: rtranclp_induct)
  case base
  then show ?case by (simp add: progress_def)
next
  case (step y z)
  have "world_inv X V roll y" by (rule vw.path_inv [OF step(1) step.prems])
  from step_progress [OF step(2) this] step.IH [OF step.prems] show ?case using progress_trans by blast
qed

end
