(* ===== verification/Voting_Sample.thy ===== *)
theory Voting_Sample
  imports Voting_World
begin

text \<open>
  A short run of the voting contract, evaluated step by step, for the examples of the properties:
  a Classic proposal with one action is created, approved, gets its snapshot, alice
  votes for it, the ballot and the timelock end, and the actions are dispatched. A FastTrack
  proposal with a bond is created beside it.
\<close>

definition sample_voting_config :: voting_config where
  "sample_voting_config = \<lparr>cf_venear_account_id = ''v'', cf_reviewer_ids = [''rev''], cf_council_ids = [''council''],
     cf_owner_account_id = ''owner'', cf_classic_voting_duration_ns = 100, cf_fast_track_voting_duration_ns = 50,
     cf_timelock_duration_ns = 10, cf_base_proposal_fee = 5, cf_bond_amount = 7, cf_treasury_account_id = ''treasury'',
     cf_vote_storage_fee = 3, cf_guardians = [], cf_classic_proposal_expiration_ns = 1000,
     cf_fast_track_proposal_expiration_ns = 1000, cf_proposed_new_owner_account_id = None, cf_quorum_threshold_bps = 3500,
     cf_quorum_floor = 1, cf_approval_threshold_bps = 5000, cf_simple_majority_threshold_bps = 5001,
     cf_strong_majority_threshold_bps = 6667, cf_sandbox_duration_ns = 20, cf_sandbox_threshold_bps = 1000,
     cf_max_active_proposals = 1\<rparr>"

definition sample_voting_ext :: voting_ext where
  "sample_voting_ext = \<lparr>vx_hasher = \<lparr>sha256 = (\<lambda>_. 0), to_vec = (\<lambda>_. [])\<rparr>, vx_storage_usage = (\<lambda>_. 0),
     vx_storage_byte_cost = 1, vx_sandbox = False\<rparr>"

definition at_time :: "account_id \<Rightarrow> nat \<Rightarrow> nat \<Rightarrow> env" where
  "at_time x d t = \<lparr>block_timestamp = t, block_height = 7, predecessor = x, signer = x,
     current_account = ''voting'', attached_deposit = d, account_balance = 0, prepaid_gas = 0, used_gas = 0, epoch_height = 0\<rparr>"

definition sample_voter :: vaccount where
  "sample_voter = VAccount_V1 \<lparr>acc_account_id = ''alice'', update_timestamp = 0, balance = vb_from_near 5000,
     delegated_balance = vb_default, delegations = []\<rparr>"

definition sample_paper :: merkle_proof where
  "sample_paper = \<lparr>proof_index = 0, proof_path = []\<rparr>"

definition sample_V :: "(merkle_proof \<times> vaccount) set" where
  "sample_V = {(sample_paper, sample_voter)}"

definition sample_roll :: roll where
  "sample_roll s a = (if a = ''alice'' then 5000 else 0)"

definition sample_metadata :: proposal_metadata where
  "sample_metadata = \<lparr>pm_title = None, pm_description = None, pm_link = None\<rparr>"

definition sample_actions :: "proposal_action list" where
  "sample_actions = [TransferAction ''bob'' 1]"

definition sample_c0 :: voting where
  "sample_c0 = \<lparr>vo_config = sample_voting_config, vo_proposals = [], vo_metadata = [], vo_votes = Map.empty,
     vo_paused = False, vo_pending_queue = [], vo_active_proposals = [], vo_outbox = []\<rparr>"

definition sample_p :: proposal where
  "sample_p = \<lparr>pr_id = 0, pr_creation_time_ns = 1, pr_proposer_id = ''bob'',
           pr_reviewer_id = None, pr_rejecter_id = None, pr_approval_time_ns = None,
           pr_voting_start_time_ns = None, pr_voting_duration_ns = 100,
           pr_expiration_ns = 1001, pr_snapshot_and_state = None,
           pr_votes = [vote_stats_default, vote_stats_default, vote_stats_default], pr_total_votes = vote_stats_default,
           pr_status = Created, pr_quorum_threshold_bps = bps_ZERO, pr_quorum_floor = 0,
           pr_approval_threshold_bps = bps_ZERO, pr_actions = Some sample_actions, pr_flow = Classic,
           pr_timelock_duration_ns = 10, pr_sandbox_start_time_ns = None,
           pr_bond_amount = 0, pr_sandbox_duration_ns = 0, pr_sandbox_threshold_bps = bps_ZERO\<rparr>"

definition sample_c1 :: voting where
  "sample_c1 = sample_c0\<lparr>vo_proposals := [VProposal_Current sample_p], vo_metadata := [VMetadata_Current sample_metadata],
     vo_outbox := [Proposal_Event ''create_proposal'' ''bob'' 0]\<rparr>"

lemmas sample_defs = sample_voting_config_def sample_voting_ext_def at_time_def sample_voter_def sample_paper_def
  sample_V_def sample_roll_def sample_metadata_def sample_actions_def sample_c0_def

lemma replicate_three: "replicate 3 x = [x, x, x]"
  by (simp add: numeral_3_eq_3)

lemmas run_defs = guards assert_one_yocto_def assert_no_deposit_def assert_private_def notify_def Let_def near_add_def near_sub_def add_u_def sub_u_def mul_u_def check_def
  saturating_sub_def SNAPSHOT_STORAGE_RESERVE_BYTES_def bps_ZERO_def

lemmas advance_defs = internal_advance_queue_def compute_queue_advance_def scan_active_def internal_get_proposal_def
  internal_expect_proposal_updated_def update_proposal_def update_classic_def update_fast_track_def is_active_status_def internal_set_proposal_def

lemma sample_create:
  "voting_exec sample_voting_ext (at_time ''bob'' 106 1)
     (Create_Proposal sample_metadata (Some sample_actions) Classic) sample_c0 = Inr sample_c1"
  by (simp add: create_proposal_def new_proposal_def replicate_three required_deposit_def run_defs sample_defs sample_p_def sample_c1_def cong: and_then_step)

text \<open>The FastTrack proposal: its bond is kept, what the creator paid too much is returned.\<close>

definition sample_q :: proposal where
  "sample_q = sample_p\<lparr>pr_id := 1, pr_proposer_id := ''carol'', pr_voting_duration_ns := 50, pr_actions := None,
     pr_flow := FastTrack, pr_timelock_duration_ns := 0, pr_bond_amount := 7\<rparr>"

definition sample_c2 :: voting where
  "sample_c2 = sample_c1\<lparr>vo_proposals := [VProposal_Current sample_p, VProposal_Current sample_q],
     vo_metadata := [VMetadata_Current sample_metadata, VMetadata_Current sample_metadata],
     vo_outbox := vo_outbox sample_c1 @ [Proposal_Event ''create_proposal'' ''carol'' 1, Pay ''carol'' 7]\<rparr>"

lemma sample_create_fast:
  "voting_exec sample_voting_ext (at_time ''carol'' 120 1) (Create_Proposal sample_metadata None FastTrack) sample_c1 = Inr sample_c2"
  by (simp add: create_proposal_def new_proposal_def replicate_three required_deposit_def run_defs sample_defs sample_p_def sample_c1_def
      sample_q_def sample_c2_def cong: and_then_step)

definition sample_p3 :: proposal where
  "sample_p3 = sample_p\<lparr>pr_reviewer_id := Some ''rev'', pr_approval_time_ns := Some 2, pr_quorum_threshold_bps := 3500,
     pr_quorum_floor := 1, pr_approval_threshold_bps := 5000, pr_voting_start_time_ns := Some 2, pr_status := Voting\<rparr>"

definition sample_c3 :: voting where
  "sample_c3 = sample_c2\<lparr>vo_proposals := [VProposal_Current sample_p3, VProposal_Current sample_q],
     vo_active_proposals := [0],
     vo_outbox := vo_outbox sample_c2 @ [Proposal_Event ''approve_proposal'' ''rev'' 0, Fetch_Snapshot ''v'' 0]\<rparr>"

lemma sample_approve:
  "voting_exec sample_voting_ext (at_time ''rev'' 1 2) (Approve_Proposal 0 None) sample_c2 = Inr sample_c3"
  by (simp add: approve_proposal_def advance_defs run_defs sample_defs sample_p_def sample_c1_def sample_q_def sample_c2_def
      sample_c3_def sample_p3_def forfeit_bond_def set_terms_def activate_def cong: and_then_step)

definition sample_answer :: "(merkle_tree_snapshot \<times> vglobal_state) option" where
  "sample_answer = Some (\<lparr>snap_root = 0, snap_length = 1, snap_block_height = 6\<rparr>, VGlobalState_V0
     \<lparr>gs_update_timestamp = 0, total_venear_balance = vb_from_near 5000, growth_config = sample_config\<rparr>)"

definition sample_snapshot :: snapshot_and_state where
  "sample_snapshot = \<lparr>ss_snapshot = \<lparr>snap_root = 0, snap_length = 1, snap_block_height = 6\<rparr>, ss_timestamp_ns = 3,
     ss_total_venear = 5000, ss_venear_growth_config = sample_config\<rparr>"

definition sample_p4 :: proposal where
  "sample_p4 = sample_p3\<lparr>pr_snapshot_and_state := Some sample_snapshot\<rparr>"

definition sample_c4 :: voting where
  "sample_c4 = sample_c3\<lparr>vo_proposals := [VProposal_Current sample_p4, VProposal_Current sample_q]\<rparr>"

lemmas power_defs = global_state_update_def pooled_update_def pooled_total_def vb_update_def vb_total_def vb_from_near_def
  truncate_to_seconds_def calculate_def sample_config_def account_update_def owned_total_def total_balance_def vb_default_def

lemma sample_global:
  "global_state_update 3 \<lparr>gs_update_timestamp = 0, total_venear_balance = vb_from_near 5000, growth_config = sample_config\<rparr>
    = Inr \<lparr>gs_update_timestamp = 0, total_venear_balance = vb_from_near 5000, growth_config = sample_config\<rparr>"
  "pooled_total (vb_from_near 5000) = Inr 5000"
  by (simp_all add: run_defs power_defs cong: and_then_step)

lemma sample_get_snapshot:
  "\<exists>info. on_get_snapshot sample_voting_ext (at_time ''voting'' 0 3) sample_answer 0 sample_c3 = Inr (sample_c4, info)"
  by (simp add: on_get_snapshot_def advance_defs run_defs sample_defs sample_answer_def sample_global sample_p_def sample_c1_def
      sample_q_def sample_c2_def sample_c3_def sample_p3_def sample_c4_def sample_p4_def sample_snapshot_def
      get_proposal_def get_proposals_virtual_updates_def cong: and_then_step)

definition sample_p5 :: proposal where
  "sample_p5 = sample_p4\<lparr>pr_votes := [\<lparr>vs_total_venear = 5000, vs_total_votes = 1\<rparr>, vote_stats_default, vote_stats_default],
     pr_total_votes := \<lparr>vs_total_venear = 5000, vs_total_votes = 1\<rparr>\<rparr>"

definition sample_c5 :: voting where
  "sample_c5 = sample_c4\<lparr>vo_proposals := [VProposal_Current sample_p5, VProposal_Current sample_q],
     vo_votes := [(''alice'', 0) \<mapsto> 0],
     vo_outbox := vo_outbox sample_c4 @ [Proposal_Vote ''add_vote'' ''alice'' 0 0 5000]\<rparr>"

lemma sample_power: "total_balance 3 sample_config (account_from sample_voter) = Inr 5000"
  by (simp add: run_defs power_defs sample_voter_def cong: and_then_step)

lemma sample_vote:
  "voting_exec sample_voting_ext (at_time ''alice'' 4 4) (Vote 0 For sample_paper sample_voter) sample_c4 = Inr sample_c5"
proof -
  have "leading_zeros w 0 = w" for w by (induction w) simp_all
  then have v: "is_valid \<lparr>sha256 = \<lambda>_. 0, to_vec = \<lambda>_. []\<rparr> sample_paper 0 (Suc 0) sample_voter"
    by (simp add: is_valid_def sample_paper_def height_of_length_def)
  have a: "acc_account_id (account_from sample_voter) = ''alice''" by (simp add: sample_voter_def)
  show ?thesis
    by (simp add: vote_def advance_defs run_defs sample_voting_config_def sample_voting_ext_def at_time_def sample_metadata_def
      sample_actions_def sample_c0_def v a sample_power sample_p_def sample_c1_def
      sample_q_def sample_c2_def sample_c3_def sample_p3_def sample_c4_def sample_p4_def sample_snapshot_def sample_p5_def sample_c5_def
      withdraw_ballot_def cast_ballot_def at_index_def add_vote_def vote_stats_default_def graduate_def cong: and_then_step)
qed

text \<open>At time 200 the ballot and the timelock are over, and the proposal has won.\<close>

definition sample_p6 :: proposal where
  "sample_p6 = sample_p5\<lparr>pr_status := InProgress\<rparr>"

definition sample_c6 :: voting where
  "sample_c6 = sample_c5\<lparr>vo_proposals := [VProposal_Current sample_p6, VProposal_Current sample_q],
     vo_active_proposals := [],
     vo_outbox := vo_outbox sample_c5 @ [Proposal_Event ''execute_proposal'' ''bob'' 0, Run_Actions 0 sample_actions]\<rparr>"

lemma sample_execute:
  "voting_exec sample_voting_ext (at_time ''bob'' 0 200) (Execute_Proposal 0) sample_c5 = Inr sample_c6"
  by (simp add: execute_proposal_def advance_defs run_defs sample_voting_config_def at_time_def sample_actions_def has_actions_def
      sample_c0_def sample_p_def sample_c1_def sample_q_def sample_c2_def sample_c3_def sample_p3_def sample_c4_def sample_p4_def
      sample_snapshot_def sample_p5_def sample_c5_def sample_p6_def sample_c6_def compute_final_status_def power_at_def
      vote_stats_default_def bps_mul_def bps_is_zero_def bps_is_full_def MAX_RAW_def active_end_time_ns_def
      insert_slot_time_def iterable_remove_def cong: and_then_step)

section \<open>The run\<close>

definition sample_world :: "voting \<Rightarrow> proposal_id list \<Rightarrow> nat \<Rightarrow> voting_world" where
  "sample_world c ks d = \<lparr>vw_contract = c, vw_callbacks = ks, vw_deposits = d\<rparr>"

abbreviation "sample_step \<equiv> voting_step sample_voting_ext sample_V sample_roll"

lemma sample_call:
  assumes "voting_exec sample_voting_ext e m c = Inr c'" "papers m \<subseteq> sample_V"
  shows "sample_step (sample_world c ks d) (sample_world c' (schedules m @ ks) (d + attached_deposit e))"
  using voting_step.call [of sample_voting_ext e m "sample_world c ks d" c'] assms by (simp add: sample_world_def)

lemma sample_initial: "voting_init (sample_world sample_c0 [] 0)"
proof -
  have "voting_new (at_time ''owner'' 0 0) sample_voting_config = Inr sample_c0"
    by (simp add: voting_new_def run_defs at_time_def sample_c0_def)
  then show ?thesis by (auto simp: voting_init_def sample_world_def)
qed

lemma sample_answer_ok: "answer_ok sample_voting_ext sample_V sample_roll (at_time ''voting'' 0 3) sample_answer"
  unfolding answer_ok_def
proof (intro allI impI)
  fix snapshot vg g venear
  assume "sample_answer = Some (snapshot, vg)" "global_state_update (block_timestamp (at_time ''voting'' 0 3)) (global_from vg) = Inr g"
  then have "growth_config g = sample_config" by (auto simp: sample_answer_def at_time_def sample_global)
  then show "roll_ok sample_voting_ext sample_V sample_roll (taken_snapshot (at_time ''voting'' 0 3) snapshot g venear)"
    using sample_power by (simp add: roll_ok_def sample_V_def taken_snapshot_def at_time_def) (simp add: sample_roll_def sample_voter_def)
qed

lemma sample_steps:
  "sample_step (sample_world sample_c0 [] 0) (sample_world sample_c1 [] 106)"
  "sample_step (sample_world sample_c1 [] 106) (sample_world sample_c2 [] 226)"
  "sample_step (sample_world sample_c2 [] 226) (sample_world sample_c3 [] 227)"
  "sample_step (sample_world sample_c3 [] 227) (sample_world sample_c4 [] 227)"
  "sample_step (sample_world sample_c4 [] 227) (sample_world sample_c5 [] 231)"
  "sample_step (sample_world sample_c5 [] 231) (sample_world sample_c6 [0] 231)"
proof -
  show "sample_step (sample_world sample_c0 [] 0) (sample_world sample_c1 [] 106)"
    using sample_call [OF sample_create, of "[]" 0] by (simp add: at_time_def)
  show "sample_step (sample_world sample_c1 [] 106) (sample_world sample_c2 [] 226)"
    using sample_call [OF sample_create_fast, of "[]" 106] by (simp add: at_time_def)
  show "sample_step (sample_world sample_c2 [] 226) (sample_world sample_c3 [] 227)"
    using sample_call [OF sample_approve, of "[]" 226] by (simp add: at_time_def)
  have "Fetch_Snapshot ''v'' 0 \<in> set (vo_outbox sample_c3)" by (simp add: sample_c3_def)
  then show "sample_step (sample_world sample_c3 [] 227) (sample_world sample_c4 [] 227)"
    using sample_get_snapshot sample_answer_ok voting_step.snapshot [where w = "sample_world sample_c3 [] 227"]
    by (auto simp: sample_world_def)
  show "sample_step (sample_world sample_c4 [] 227) (sample_world sample_c5 [] 231)"
    using sample_call [OF sample_vote, of "[]" 227] by (simp add: at_time_def sample_V_def)
  show "sample_step (sample_world sample_c5 [] 231) (sample_world sample_c6 [0] 231)"
    using sample_call [OF sample_execute, of "[]" 231] by (simp add: at_time_def)
qed

lemma reaches_init: "voting_init w \<Longrightarrow> voting_reaches X V roll w"
  by (auto simp: voting_reaches_def)

lemma reaches_step: "voting_reaches X V roll w \<Longrightarrow> voting_step X V roll w w' \<Longrightarrow> voting_reaches X V roll w'"
  by (auto simp: voting_reaches_def intro: rtranclp.rtrancl_into_rtrancl)

lemma sample_reaches:
  "voting_reaches sample_voting_ext sample_V sample_roll (sample_world sample_c2 [] 226)"
  "voting_reaches sample_voting_ext sample_V sample_roll (sample_world sample_c5 [] 231)"
  "voting_reaches sample_voting_ext sample_V sample_roll (sample_world sample_c6 [0] 231)"
proof -
  show c2: "voting_reaches sample_voting_ext sample_V sample_roll (sample_world sample_c2 [] 226)"
    by (rule reaches_step [OF reaches_step [OF reaches_init [OF sample_initial] sample_steps(1)] sample_steps(2)])
  show c5: "voting_reaches sample_voting_ext sample_V sample_roll (sample_world sample_c5 [] 231)"
    by (rule reaches_step [OF reaches_step [OF reaches_step [OF c2 sample_steps(3)] sample_steps(4)] sample_steps(5)])
  show "voting_reaches sample_voting_ext sample_V sample_roll (sample_world sample_c6 [0] 231)"
    by (rule reaches_step [OF c5 sample_steps(6)])
qed

lemma sample_stored:
  "stored sample_c2 0 = Some sample_p" "stored sample_c5 0 = Some sample_p5" "stored sample_c5 1 = Some sample_q"
  "stored sample_c6 0 = Some sample_p6" "stored sample_c6 1 = Some sample_q"
  by (simp_all add: stored_def sample_c2_def sample_c5_def sample_c6_def)

end
