(* ===== verification/Voting_Availability.thy ===== *)
theory Voting_Availability
  imports Voting_Run
begin

text \<open>
  The queue never gets stuck. Every method that moves proposals first advances the queue, so a panic
  there would block the contract. On a state that satisfies the invariant, with times, durations
  and amounts in the range \<open>in_range\<close>, advancing returns: the reads find their proposals, the clock
  arithmetic does not overflow, and a slot is freed at a time that has passed, so the
  proposals that take it over stay in range. A voter can therefore always change a ballot.
\<close>

section \<open>Slots are freed in the past\<close>

lemma classic_end:
  assumes "update_classic t p = Inr p'" "pr_flow p = Classic" "is_active_status (pr_status p)" "\<not> is_active_status (pr_status p')"
    "life_ok p" "active_end_time_ns p' = Inr u"
  shows "u \<le> t"
proof -
  have "pr_status p \<in> {Voting, Timelock}"
    using assms(2,3,5) by (auto simp: is_active_status_def life_ok_def shape_ok_def)
  from this assms(1) show ?thesis
  proof (cases rule: update_classic_ballot)
    case 1
    then show ?thesis using assms(3,4) by simp
  next
    case (2 s ve te f)
    have p': "pr_flow p' = Classic" "pr_voting_start_time_ns p' = Some s" "pr_voting_duration_ns p' = pr_voting_duration_ns p"
      "pr_timelock_duration_ns p' = pr_timelock_duration_ns p" "compute_final_status p' = Inr f"
      using 2(1,5) assms(2) by (simp_all add: 2(6))
    have "te \<le> t" if "f = Succeeded"
      using assms(4) that by (auto simp: 2(6) is_active_status_def split: if_splits)
    then show ?thesis using assms(6) 2(2-4) p' by (auto simp: active_end_time_ns_def split: if_splits)
  qed
qed

lemma fast_end:
  assumes "update_fast_track t p = Inr p'" "pr_flow p = FastTrack" "is_active_status (pr_status p)" "\<not> is_active_status (pr_status p')"
    "life_ok p" "pr_status p = Sandbox \<longrightarrow> pr_voting_start_time_ns p = None" "active_end_time_ns p' = Inr u"
  shows "u \<le> t"
proof (cases "pr_status p = Sandbox")
  case True
  from True assms(1) show ?thesis
  proof (rule update_fast_track_sandbox)
    fix s se
    assume 1: "pr_sandbox_start_time_ns p = Some s" "add_u 64 s (pr_sandbox_duration_ns p) = Inr se"
      "p' = (if se \<le> t then p\<lparr>pr_status := Defeated\<rparr> else p)"
    then have "se \<le> t" "p' = p\<lparr>pr_status := Defeated\<rparr>" using assms(3,4) by (auto split: if_splits)
    then show ?thesis using assms(2,6,7) True 1(1,2) by (simp add: active_end_time_ns_def)
  qed
next
  case False
  then have "pr_status p \<in> {Scheduled, Voting}"
    using assms(2,3,5) by (auto simp: is_active_status_def life_ok_def shape_ok_def)
  from this assms(1) show ?thesis
  proof (cases rule: update_fast_track_ballot)
    case 1
    then show ?thesis using assms(3,4) by (auto simp: is_active_status_def split: if_splits)
  next
    case (2 s ve f)
    then show ?thesis using assms(2,7) by (simp add: active_end_time_ns_def)
  qed
qed

text \<open>A proposal fit for the scheduler: in range, and not given a ballot before its sandbox is over.\<close>

definition schedulable :: "proposal \<Rightarrow> bool" where
  "schedulable p \<longleftrightarrow> in_range p \<and> (pr_flow p = FastTrack \<longrightarrow> pr_status p = Queued \<or> pr_status p = Sandbox
     \<longrightarrow> pr_voting_start_time_ns p = None)"

lemma in_range_status [simp]: "in_range (p\<lparr>pr_status := s\<rparr>) = in_range p"
  by (simp add: in_range_def power_at_def)

lemma update_in_range: "update_proposal t p = Inr p' \<Longrightarrow> in_range p \<Longrightarrow> in_range p'"
  by (erule update_by_cases) simp_all

lemma schedulable_activate:
  assumes "schedulable p" "pr_status p = Queued" "t \<le> max_start"
  shows "schedulable (activate t p)"
  using assms by (cases "pr_flow p") (auto simp: schedulable_def activate_def in_range_def power_at_def)

lemma exit_end:
  assumes "update_proposal t p = Inr p'" "is_active_status (pr_status p)" "\<not> is_active_status (pr_status p')"
    "life_ok p" "schedulable p"
  shows "\<exists>u \<le> t. active_end_time_ns p' = Inr u"
proof -
  have same: "pr_flow p' = pr_flow p \<and> pr_voting_start_time_ns p' = pr_voting_start_time_ns p
      \<and> pr_sandbox_start_time_ns p' = pr_sandbox_start_time_ns p"
    by (rule update_by_cases [OF assms(1)]) simp_all
  have "in_range p" using assms(5) by (simp add: schedulable_def)
  then have r: "in_range p'" by (rule update_in_range [OF assms(1)])
  have start: "pr_flow p = Classic \<longrightarrow> pr_voting_start_time_ns p \<noteq> None"
    "pr_voting_start_time_ns p \<noteq> None \<or> pr_sandbox_start_time_ns p \<noteq> None"
    using assms(2,4) by (cases "pr_flow p"; auto simp: is_active_status_def life_ok_def shape_ok_def)+
  obtain u where u: "active_end_time_ns p' = Inr u"
    using active_end_time_total [OF r] start same by auto
  have "u \<le> t"
  proof (cases "pr_flow p")
    case Classic
    then have "update_classic t p = Inr p'" using assms(1) by (simp add: update_proposal_def)
    from classic_end [OF this Classic assms(2-4) u] show ?thesis .
  next
    case FastTrack
    then have "update_fast_track t p = Inr p'" using assms(1) by (simp add: update_proposal_def)
    from fast_end [OF this FastTrack assms(2-4) _ u] assms(5) FastTrack show ?thesis by (simp add: schedulable_def)
  qed
  with u show ?thesis by blast
qed

section \<open>Advancing returns\<close>

definition all_schedulable :: "voting \<Rightarrow> bool" where
  "all_schedulable c \<longleftrightarrow> (\<forall>i p. stored c i = Some p \<longrightarrow> schedulable p)"

lemma life_ok_stored: "queue_inv c \<Longrightarrow> stored c i = Some p \<Longrightarrow> life_ok p"
  using ids_ok_stored by (auto simp: queue_inv_def)

lemma scan_total:
  assumes "queue_inv c" "all_schedulable c" "block_timestamp e \<le> max_start"
    and "set ids \<subseteq> set (vo_active_proposals c)" "n + length ids < 2 ^ 32" "\<forall>t \<in> set fr. t \<le> max_start"
  shows "\<exists>us' n' fr'. for_each (scan_active e c) ids (us, n, fr) = Inr (us', n', fr') \<and> (\<forall>t \<in> set fr'. t \<le> max_start)
    \<and> n' \<le> n + length ids"
  using assms(4-)
proof (induction ids arbitrary: us n fr)
  case (Cons i ids)
  obtain p where p: "stored c i = Some p" "is_active_status (pr_status p)"
    using assms(1) Cons.prems(1) by (auto simp: queue_inv_def slots_ok_def)
  have l: "life_ok p" "schedulable p" using life_ok_stored [OF assms(1) p(1)] assms(2) p(1) by (auto simp: all_schedulable_def)
  obtain p' where p': "update_proposal (block_timestamp e) p = Inr p'"
    using update_total [OF l(1)] l(2) by (auto simp: schedulable_def)
  have g: "internal_get_proposal e c i = Inr (Some (p', pr_status p' \<noteq> pr_status p))"
    using p(1) p' by (auto simp: get_proposal_eq)
  show ?case
  proof (cases "is_active_status (pr_status p')")
    case True
    have "add_u 32 n 1 = Inr (n + 1)" using Cons.prems(2) by (intro add_u_ok) simp
    then have "scan_active e c i (us, n, fr) = Inr (if pr_status p' \<noteq> pr_status p then us @ [p'] else us, n + 1, fr)"
      using True by (simp add: scan_active_def g)
    then obtain us1 where "scan_active e c i (us, n, fr) = Inr (us1, n + 1, fr)" by blast
    then show ?thesis using Cons.IH [of "n + 1" fr us1] Cons.prems by auto
  next
    case False
    obtain u where u: "u \<le> block_timestamp e" "active_end_time_ns p' = Inr u"
      using exit_end [OF p' p(2) False l] by blast
    have "pr_status p' \<noteq> pr_status p" using False p(2) by auto
    then have "scan_active e c i (us, n, fr) = Inr (us @ [p'], n, insert_slot_time u fr)"
      using False u(2) by (simp add: scan_active_def g)
    moreover have "\<forall>t \<in> set (insert_slot_time u fr). t \<le> max_start"
      using u(1) assms(3) Cons.prems(3) by (auto simp: insert_slot_time_set)
    ultimately show ?thesis using Cons.IH [of n "insert_slot_time u fr" "us @ [p']"] Cons.prems by auto
  qed
qed simp

lemma promote_total:
  assumes "queue_inv c" "all_schedulable c" "block_timestamp e \<le> max_start"
    and "set ids \<subseteq> set (vo_pending_queue c)" "n + length ids < 2 ^ 32" "\<forall>t \<in> set fr. t \<le> max_start"
  shows "\<exists>ps. promote_queue e c ids n fr acc = Inr ps \<and> length ps \<le> length acc + length ids"
  using assms(4-)
proof (induction ids arbitrary: n fr acc)
  case (Cons i ids)
  show ?case
  proof (cases "cf_max_active_proposals (vo_config c) \<le> n")
    case False
    obtain p where p: "stored c i = Some p" "pr_status p = Queued"
      using assms(1) Cons.prems(1) by (auto simp: queue_inv_def line_ok_def)
    have l: "life_ok p" "schedulable p" using life_ok_stored [OF assms(1) p(1)] assms(2) p(1) by (auto simp: all_schedulable_def)
    have x: "internal_expect_proposal_updated e c i = Inr p" using p by (simp add: expect_updated_eq fresh_def update_inert)
    obtain t fr1 where tf: "(case fr of [] \<Rightarrow> (block_timestamp e, []) | t # ts \<Rightarrow> (t, ts)) = (t, fr1)" by fastforce
    then have b: "t \<le> max_start" "\<forall>t \<in> set fr1. t \<le> max_start" using Cons.prems(3) assms(3) by (auto split: list.splits)
    have a: "life_ok (activate t p)" "schedulable (activate t p)" "is_active_status (pr_status (activate t p))"
      using activate_life_ok [OF queued_no_bond [OF l(1) p(2)]] schedulable_activate [OF l(2) p(2) b(1)] activate_simps(7) by auto
    obtain p' where p': "update_proposal (block_timestamp e) (activate t p) = Inr p'"
      using update_total [OF a(1)] a(2) by (auto simp: schedulable_def)
    show ?thesis
    proof (cases "is_active_status (pr_status p')")
      case True
      have "add_u 32 n 1 = Inr (n + 1)" using Cons.prems(2) by (intro add_u_ok) simp
      then show ?thesis using Cons.IH [of "n + 1" fr1 "acc @ [p']"] Cons.prems b False True by (auto simp: x tf p')
    next
      case exit: False
      obtain u where u: "u \<le> block_timestamp e" "active_end_time_ns p' = Inr u"
        using exit_end [OF p' a(3) exit a(1,2)] by blast
      have "\<forall>t \<in> set (insert_slot_time u fr1). t \<le> max_start"
        using u(1) assms(3) b(2) by (auto simp: insert_slot_time_set)
      then show ?thesis
        using Cons.IH [of n "insert_slot_time u fr1" "acc @ [p']"] Cons.prems False exit by (auto simp: x tf p' u(2))
    qed
  qed simp
qed simp

lemma set_proposal_total:
  "pr_id p < length (vo_proposals c)
    \<Longrightarrow> \<exists>c'. internal_set_proposal p c = Inr c' \<and> length (vo_proposals c') = length (vo_proposals c)"
  by (cases "pr_id p \<in> set (vo_active_proposals c)"; cases "is_active_status (pr_status p)")
    (simp_all add: internal_set_proposal_def Let_def)

lemma set_proposals_total:
  assumes "\<forall>p \<in> set ps. pr_id p < length (vo_proposals c)"
  shows "\<exists>c'. for_each internal_set_proposal ps c = Inr c' \<and> length (vo_proposals c') = length (vo_proposals c)"
  using assms
proof (induction ps arbitrary: c)
  case (Cons p ps)
  then obtain c1 where "internal_set_proposal p c = Inr c1" "length (vo_proposals c1) = length (vo_proposals c)"
    using set_proposal_total [of p c] by auto
  then show ?case using Cons.IH [of c1] Cons.prems by auto
qed simp

lemma advance_total:
  assumes "queue_inv c" "all_schedulable c" "block_timestamp e \<le> max_start"
    and "length (vo_active_proposals c) + length (vo_pending_queue c) < 2 ^ 32"
  shows "\<exists>c'. internal_advance_queue e c = Inr c'"
proof -
  obtain us n fr where s: "for_each (scan_active e c) (vo_active_proposals c) ([], 0, []) = Inr (us, n, fr)"
    "\<forall>t \<in> set fr. t \<le> max_start" "n \<le> length (vo_active_proposals c)"
    using scan_total [OF assms(1-3), of "vo_active_proposals c" 0 "[]" "[]"] assms(4) by auto
  obtain ps where ps: "promote_queue e c (vo_pending_queue c) n fr [] = Inr ps" "length ps \<le> length (vo_pending_queue c)"
    using promote_total [OF assms(1-3) order_refl _ s(2), of n "[]"] s(3) assms(4) by auto
  let ?out = "\<lparr>qo_active_updates = us, qo_queue_promotions = ps\<rparr>"
  have out: "compute_queue_advance e c = Inr ?out" by (simp add: compute_queue_advance_def s(1) ps(1))
  have n: "check 32 (length ps) = Inr (length ps)" using ps(2) assms(4) by (simp add: check_def)
  note ce = compute_effect [OF out assms(1)]
  obtain k where k: "list_all2 (promoted e c) (take k (vo_pending_queue c)) ps" using ce by auto
  have "pr_id p \<in> set (vo_pending_queue c)" if "p \<in> set ps" for p
    using list_all2_ids [OF k assms(1)] that in_set_takeD by (metis image_eqI list.set_map)
  then have 1: "\<forall>p \<in> set ps. pr_id p < length (vo_proposals c)"
    using assms(1) stored_less by (fastforce simp: queue_inv_def line_ok_def)
  have "\<forall>p \<in> set us. \<exists>i. fresh e c i = Some p" using ce by fastforce
  then have 2: "\<forall>p \<in> set us. pr_id p < length (vo_proposals c)"
    using fresh_facts(1) [OF _ assms(1)] stored_less by (fastforce simp: fresh_eq)
  let ?c1 = "c\<lparr>vo_pending_queue := drop (length ps) (vo_pending_queue c)\<rparr>"
  obtain c2 where c2: "for_each internal_set_proposal ps ?c1 = Inr c2" "length (vo_proposals c2) = length (vo_proposals c)"
    using set_proposals_total [of ps ?c1] 1 by auto
  obtain c3 where "for_each internal_set_proposal us c2 = Inr c3" using set_proposals_total [of us c2] 2 c2(2) by auto
  then show ?thesis by (simp add: internal_advance_queue_def out n Let_def c2(1))
qed

section \<open>A ballot can be changed\<close>

lemma tally_option_le:
  assumes "tally_ok R b p" "j < 3"
  shows "vs_total_votes (pr_votes p ! j) \<le> vs_total_votes (pr_total_votes p)"
    and "vs_total_venear (pr_votes p ! j) \<le> vs_total_venear (pr_total_votes p)"
proof -
  have f: "finite (dom b)" and sub: "voters b j \<subseteq> dom b" using assms(1) by (auto simp: tally_ok_def voters_def)
  show "vs_total_votes (pr_votes p ! j) \<le> vs_total_votes (pr_total_votes p)"
    using assms card_mono [OF f sub] by (simp add: tally_ok_def)
  show "vs_total_venear (pr_votes p ! j) \<le> vs_total_venear (pr_total_votes p)"
    using assms sum_mono2 [OF f sub, of R] by (simp add: tally_ok_def)
qed

lemma add_vote_total: "vs_total_votes s + 1 < 2 ^ 32 \<Longrightarrow> vs_total_venear s + w < 2 ^ 128 \<Longrightarrow> \<exists>s'. add_vote w s = Inr s'"
  by (simp add: add_vote_def near_add_def add_u_def check_def)

lemma cast_total:
  assumes "tally_ok R b p" "j < 3" "vs_total_votes (pr_total_votes p) + 1 < 2 ^ 32"
    "vs_total_venear (pr_total_votes p) + w < 2 ^ 128"
  shows "\<exists>p'. cast_ballot j w p = Inr p'"
proof -
  note le = tally_option_le [OF assms(1,2)]
  obtain s t where "add_vote w (pr_votes p ! j) = Inr s" "add_vote w (pr_total_votes p) = Inr t"
    using add_vote_total [of "pr_votes p ! j" w] add_vote_total [of "pr_total_votes p" w] le assms(3,4) by auto
  moreover have "j < length (pr_votes p)" using assms(1,2) by (simp add: tally_ok_def)
  ultimately show ?thesis by (simp add: cast_ballot_def at_index_def)
qed

lemma withdrawn_le:
  assumes "tally_ok R b p" "tally_ok R (b(a := None)) p1"
  shows "vs_total_votes (pr_total_votes p1) \<le> vs_total_votes (pr_total_votes p)"
    and "vs_total_venear (pr_total_votes p1) \<le> vs_total_venear (pr_total_votes p)"
proof -
  have f: "finite (dom b)" and sub: "dom (b(a := None)) \<subseteq> dom b" using assms(1) by (auto simp: tally_ok_def)
  show "vs_total_votes (pr_total_votes p1) \<le> vs_total_votes (pr_total_votes p)"
    using assms card_mono [OF f sub] by (simp add: tally_ok_def)
  show "vs_total_venear (pr_total_votes p1) \<le> vs_total_venear (pr_total_votes p)"
    using assms sum_mono2 [OF f sub, of R] by (simp add: tally_ok_def)
qed

lemma revote_total:
  assumes "tally_ok R b p" "j < 3" "vs_total_votes (pr_total_votes p) + 1 < 2 ^ 32"
    "vs_total_venear (pr_total_votes p) + R a < 2 ^ 128"
  shows "\<exists>p1 p2. withdraw_ballot (b a) (R a) p = Inr p1 \<and> cast_ballot j (R a) p1 = Inr p2
     \<and> (\<exists>vs t. p2 = p\<lparr>pr_votes := vs, pr_total_votes := t\<rparr>)"
proof -
  obtain p1 where p1: "withdraw_ballot (b a) (R a) p = Inr p1" using withdraw_tally(1) [OF assms(1) refl] by blast
  have t1: "tally_ok R (b(a := None)) p1" using withdraw_tally(2) [OF assms(1) refl p1] by blast
  note le = withdrawn_le [OF assms(1) t1]
  obtain p2 where p2: "cast_ballot j (R a) p1 = Inr p2"
    using cast_total [OF t1 assms(2), of "R a"] le assms(3,4) by auto
  with p1 revote_tally(2) [OF assms(1) p1 p2 assms(2)] show ?thesis by blast
qed

lemma vote_open:
  assumes "voting_inv X V roll c0" "\<not> vo_paused c0" "internal_advance_queue e c0 = Inr c"
    and p: "fresh e c i = Some p" "pr_status p = Voting" "pr_snapshot_and_state p = Some s"
    and va: "(q, va) \<in> V" "is_valid (vx_hasher X) q (snap_root (ss_snapshot s)) (snap_length (ss_snapshot s)) va"
      "acc_account_id (account_from va) = predecessor e"
      "total_balance (ss_timestamp_ns s) (ss_venear_growth_config s) (account_from va) = Inr w" "w \<noteq> 0"
    and new: "vo_votes c (predecessor e, i) \<noteq> Some (vote_option_u8 v)"
    and fee: "cf_vote_storage_fee (vo_config c) \<le> attached_deposit e" "0 < attached_deposit e" "attached_deposit e + 1 < 2 ^ 128"
    and room: "vs_total_votes (pr_total_votes p) + 1 < 2 ^ 32" "vs_total_venear (pr_total_votes p) + w < 2 ^ 128"
  shows "\<exists>c'. vote X e i v q va c0 = Inr c'"
proof -
  have inv: "voting_inv X V roll c" by (rule advance_keeps [OF assms(3,1)])
  then have qi: "queue_inv c" by (simp add: voting_inv_def)
  have "book_ok X V roll (ballots_of c i) p" using fresh_life(3) [OF p(1) inv] .
  then have tl: "tally_ok (roll s) (ballots_of c i) p" "roll_ok X V roll s"
    using p(3) by (simp_all add: book_ok_def roll_of_def)
  have w: "roll s (predecessor e) = w" 
    using bspec [OF tl(2) [unfolded roll_ok_def] va(1)] va(2-4) by simp
  have j: "vote_option_u8 v < 3" by (cases v) simp_all
  obtain p1 p2 vs t where r: "withdraw_ballot (vo_votes c (predecessor e, i)) w p = Inr p1"
    "cast_ballot (vote_option_u8 v) w p1 = Inr p2" "p2 = p\<lparr>pr_votes := vs, pr_total_votes := t\<rparr>"
    using revote_total [OF tl(1) j room(1), of "predecessor e"] room(2) by (auto simp: w ballots_of_def)
  have g: "graduate X e p2 = Inr p2" using p(2) by (simp add: graduate_def r(3))
  let ?fee = "if vo_votes c (predecessor e, i) = None then cf_vote_storage_fee (vo_config c) else 0"
  have k: "near_add ?fee 1 = Inr (?fee + 1)" "?fee \<le> attached_deposit e" using fee by (simp_all add: near_add_def check_def)
  have "pr_id p2 < length (vo_proposals d)" if "vo_proposals d = vo_proposals c" for d
    using fresh_facts(1) [OF p(1) qi] p(1) stored_less [of c i] that by (auto simp: r(3) fresh_eq)
  then have set: "\<exists>c'. internal_set_proposal p2 d = Inr c'" if "vo_proposals d = vo_proposals c" for d
    using set_proposal_total that by blast
  have x: "internal_expect_proposal_updated e c i = Inr p" using p(1) by (simp add: expect_updated_eq)
  have sub: "near_sub (attached_deposit e) (?fee + 1) = Inr (attached_deposit e - (?fee + 1))" if "?fee + 1 < attached_deposit e"
    using that by (simp add: near_sub_def sub_u_def)
  obtain f where f: "\<And>d. vo_proposals d = vo_proposals c \<Longrightarrow> internal_set_proposal p2 d = Inr (f d)" using set by metis
  note eval = vote_def voting_assert_not_paused_def Let_def assms(2,3) x p(2,3) va(2-5) new g r(1,2) f
  show ?thesis
  proof (cases "vo_votes c (predecessor e, i)")
    case None
    have 1: "near_add (cf_vote_storage_fee (vo_config c)) 1 = Inr (cf_vote_storage_fee (vo_config c) + 1)" using k(1) None by simp
    show ?thesis
    proof (cases "cf_vote_storage_fee (vo_config c) + 1 < attached_deposit e")
      case True
      then have "near_sub (attached_deposit e) (cf_vote_storage_fee (vo_config c) + 1)
        = Inr (attached_deposit e - (cf_vote_storage_fee (vo_config c) + 1))" using sub None by simp
      then show ?thesis using True fee None by (simp add: eval [unfolded None] 1 del: One_nat_def cong: and_then_step)
    next
      case False
      then show ?thesis using fee None by (simp add: eval [unfolded None] 1 del: One_nat_def cong: and_then_step)
    qed
  next
    case (Some old)
    have 1: "near_add 0 1 = Inr 1" "old \<noteq> vote_option_u8 v" using k(1) new Some by simp_all
    show ?thesis
    proof (cases "1 < attached_deposit e")
      case True
      then have "near_sub (attached_deposit e) 1 = Inr (attached_deposit e - 1)" using sub Some by simp
      then show ?thesis using True fee Some by (simp add: eval [unfolded Some] 1 del: One_nat_def cong: and_then_step)
    next
      case False
      then show ?thesis using fee Some by (simp add: eval [unfolded Some] 1 del: One_nat_def cong: and_then_step)
    qed
  qed
qed

end
