(* ===== verification/Voting_Properties.thy ===== *)
theory Voting_Properties
  imports Voting_Sample Voting_Availability
begin

text \<open>
  The properties of the voting contract over all its runs: exact tallies, proposals that pass only by
  their ballot, the life cycle, the schedule of the queue and its views, bonds, executions,
  availability, the calendar of FastTrack ballots and the control of who may change what.
\<close>

section \<open>Ballots\<close>

lemma reaches_tally:
  assumes "voting_reaches X V roll w" "stored (vw_contract w) i = Some p"
  shows "tally_ok (roll_of roll p) (ballots_of (vw_contract w) i) p"
proof -
  have "books_ok X V roll (vw_contract w)" using reaches_inv [OF assms(1)] by (simp add: world_inv_def voting_inv_def)
  from books_ok_proposal [OF this assms(2)] show ?thesis by (simp add: book_ok_def)
qed

lemma reaches_life:
  assumes "voting_reaches X V roll w" "stored (vw_contract w) i = Some p"
  shows "life_ok p"
  using reaches_inv [OF assms(1)] life_ok_stored [OF _ assms(2)] by (simp add: world_inv_def voting_inv_def)

text \<open>
  C20. In every state that the contract can reach, the counters of each proposal are exact: for every option, the number of
  accounts whose recorded vote is that option and the sum of the voting power that the snapshot of
  the proposal gives to them, and the same for the totals. Votes that were changed are counted once.
\<close>

theorem ballots_counted_exactly:
  assumes "voting_reaches X V roll w" and "stored (vw_contract w) i = Some p"
  shows "(\<forall>v. pr_votes p ! vote_option_u8 v =
      \<lparr>vs_total_venear = (\<Sum>a | get_vote (vw_contract w) a i = Some (vote_option_u8 v). roll_of roll p a),
       vs_total_votes = card {a. get_vote (vw_contract w) a i = Some (vote_option_u8 v)}\<rparr>)
    \<and> pr_total_votes p = \<lparr>vs_total_venear = (\<Sum>a | get_vote (vw_contract w) a i \<noteq> None. roll_of roll p a),
       vs_total_votes = card {a. get_vote (vw_contract w) a i \<noteq> None}\<rparr>"
proof -
  note t = reaches_tally [OF assms]
  have "vote_option_u8 v < 3" for v by (cases v) simp_all
  then show ?thesis
    using t by (simp add: tally_ok_def voters_def ballots_of_def get_vote_def dom_def)
qed

theorem ballots_counted_exactly_witness:
  "pr_votes sample_p5 ! vote_option_u8 For =
     \<lparr>vs_total_venear = (\<Sum>a | get_vote sample_c5 a 0 = Some 0. sample_roll sample_snapshot a),
      vs_total_votes = card {a. get_vote sample_c5 a 0 = Some 0}\<rparr> \<and> vs_total_venear (pr_votes sample_p5 ! 0) = 5000"
proof -
  have "roll_of sample_roll sample_p5 = sample_roll sample_snapshot"
    by (simp add: roll_of_def sample_p5_def sample_p4_def)
  moreover have "vs_total_venear (pr_votes sample_p5 ! 0) = 5000" by (simp add: sample_p5_def)
  ultimately show ?thesis
    using ballots_counted_exactly [OF sample_reaches(2), of 0 sample_p5] sample_stored(2)
    by (simp add: sample_world_def) (metis vote_option_u8.simps(1))
qed

text \<open>The voting power of the recorded votes of a proposal that satisfy \<open>P\<close>.\<close>

definition power_cast :: "roll \<Rightarrow> voting \<Rightarrow> proposal_id \<Rightarrow> proposal \<Rightarrow> (nat option \<Rightarrow> bool) \<Rightarrow> nat" where
  "power_cast roll c i p P = (\<Sum>a | P (get_vote c a i). roll_of roll p a)"

text \<open>
  C21. A proposal only gets past its ballot by winning it: whenever a proposal is in its timelock,
  executable, being executed or finished, its snapshot was taken, the voting power cast reaches the
  quorum (the share of the total at the snapshot and the absolute floor), somebody voted for
  or against, and the share of the votes for among these reaches the approval threshold.
\<close>

theorem passed_only_by_vote:
  assumes "voting_reaches X V roll w" and "stored (vw_contract w) i = Some p" and "passed_status (pr_status p)"
  shows "\<exists>s cast for against. pr_snapshot_and_state p = Some s
    \<and> cast = power_cast roll (vw_contract w) i p (\<lambda>v. v \<noteq> None)
    \<and> for = power_cast roll (vw_contract w) i p (\<lambda>v. v = Some (vote_option_u8 For))
    \<and> against = power_cast roll (vw_contract w) i p (\<lambda>v. v = Some (vote_option_u8 Against))
    \<and> ss_total_venear s * pr_quorum_threshold_bps p div 10000 \<le> cast \<and> pr_quorum_floor p \<le> cast
    \<and> 0 < for + against \<and> pr_approval_threshold_bps p * (for + against) \<le> for * 10000"
proof -
  note t = reaches_tally [OF assms(1,2)]
  have "compute_final_status p = Inr Succeeded"
    using reaches_life [OF assms(1,2)] assms(3) by (simp add: life_ok_def earned_def)
  then obtain s q where s: "pr_snapshot_and_state p = Some s" "bps_mul (pr_quorum_threshold_bps p) (ss_total_venear s) = Inr q"
    "max q (pr_quorum_floor p) \<le> vs_total_venear (pr_total_votes p)" "0 < power_at 0 p + power_at 1 p"
    "pr_approval_threshold_bps p * (power_at 0 p + power_at 1 p) \<le> power_at 0 p * 10000"
    unfolding compute_final_status_Succeeded by (elim exE conjE) (rule that)
  let ?power = "power_cast roll (vw_contract w) i p"
  have "?power (\<lambda>v. v = Some (vote_option_u8 For)) = power_at 0 p" "?power (\<lambda>v. v = Some (vote_option_u8 Against)) = power_at 1 p"
    using tally_power(1) [OF t] by (simp_all add: power_cast_def voters_def ballots_of_def get_vote_def)
  moreover have "?power (\<lambda>v. v \<noteq> None) = vs_total_venear (pr_total_votes p)"
    using t by (simp add: power_cast_def tally_ok_def ballots_of_def get_vote_def dom_def)
  moreover have "ss_total_venear s * pr_quorum_threshold_bps p div 10000 \<le> vs_total_venear (pr_total_votes p)"
    "pr_quorum_floor p \<le> vs_total_venear (pr_total_votes p)" using s(3) bps_mul_value [OF s(2)] by simp_all
  ultimately show ?thesis using s(1,4,5) by simp
qed

theorem passed_only_by_vote_witness:
  "passed_status (pr_status sample_p6)
    \<and> 3500 * 5000 div 10000 \<le> power_cast sample_roll sample_c6 0 sample_p6 (\<lambda>v. v \<noteq> None)"
proof -
  have "passed_status (pr_status sample_p6)" by (simp add: passed_status_def sample_p6_def)
  then show ?thesis
    using passed_only_by_vote [OF sample_reaches(3), of 0 sample_p6] sample_stored(4)
    by (auto simp: sample_world_def sample_p6_def sample_p5_def sample_p4_def sample_p3_def sample_snapshot_def)
qed

section \<open>Life cycle\<close>

text \<open>
  C22. Whatever happens after a state of a run, every proposal stays, keeps its flow and moves only along
  the life cycle of its flow; a proposal that is finished (expired, rejected, slashed, vetoed,
  defeated, succeeded or failed) never changes its status again.
\<close>

theorem life_cycle_respected:
  assumes "voting_reaches X V roll w" and "(voting_step X V roll)\<^sup>*\<^sup>* w w'" and "stored (vw_contract w) i = Some p"
  shows "\<exists>p'. stored (vw_contract w') i = Some p' \<and> pr_flow p' = pr_flow p
    \<and> life_path (pr_flow p) (pr_status p) (pr_status p') \<and> (terminal_status (pr_status p) \<longrightarrow> pr_status p' = pr_status p)"
proof -
  have "progress (vw_contract w) (vw_contract w')" by (rule steps_progress [OF assms(2) reaches_inv [OF assms(1)]])
  then show ?thesis using assms(3) life_path_terminal unfolding progress_def by blast
qed

theorem life_cycle_respected_witness:
  "\<exists>p'. stored sample_c6 0 = Some p' \<and> life_path Classic Created (pr_status p') \<and> pr_status p' = InProgress"
proof -
  have "sample_step\<^sup>*\<^sup>* (sample_world sample_c2 [] 226) (sample_world sample_c6 [0] 231)"
    using sample_steps(3-6) by (meson converse_rtranclp_into_rtranclp rtranclp.rtrancl_refl)
  from life_cycle_respected [OF sample_reaches(1) this, of 0 sample_p] sample_stored(1,4) show ?thesis
    by (auto simp: sample_world_def sample_p_def sample_p6_def)
qed

section \<open>The queue\<close>

text \<open>
  C23. In every reachable state the set of active proposals is exactly the set of those in the sandbox, scheduled, in the
  ballot or in the timelock, the queue holds exactly the queued ones, and neither has duplicates.
\<close>

theorem slots_and_queue_exact:
  assumes "voting_reaches X V roll w"
  shows "distinct (vo_active_proposals (vw_contract w)) \<and> distinct (vo_pending_queue (vw_contract w))
    \<and> (\<forall>i. i \<in> set (vo_active_proposals (vw_contract w)) \<longleftrightarrow> (\<exists>p. stored (vw_contract w) i = Some p \<and> is_active_status (pr_status p)))
    \<and> (\<forall>i. i \<in> set (vo_pending_queue (vw_contract w)) \<longleftrightarrow> (\<exists>p. stored (vw_contract w) i = Some p \<and> pr_status p = Queued))"
  using reaches_inv [OF assms] by (simp add: world_inv_def voting_inv_def queue_inv_def slots_ok_def line_ok_def)

theorem slots_and_queue_exact_witness:
  "0 \<in> set (vo_active_proposals sample_c5) \<and> (\<exists>p. stored sample_c5 0 = Some p \<and> is_active_status (pr_status p))"
proof -
  have "0 \<in> set (vo_active_proposals sample_c5)" by (simp add: sample_c5_def sample_c4_def sample_c3_def)
  then show ?thesis using slots_and_queue_exact [OF sample_reaches(2)] by (simp add: sample_world_def)
qed

text \<open>
  C24. Advancing the queue implements the abstract schedule: some number of queued proposals, in the order of
  the queue, get a slot and are activated and brought up to date. The start times are fixed: each
  takes the earliest end time among the slots that have been freed and not been taken since, so that a promotion that comes late
  is backdated, and the current time if there is none. The active proposals are brought up to date;
  all other proposals, the votes, the configuration and the effects stay. A promotion never
  exceeds the number of slots, and it stops only when all slots are taken or the queue is empty.
\<close>

theorem advance_refines_schedule:
  assumes "queue_inv c" and "internal_advance_queue e c = Inr c'"
  shows "queue_inv c' \<and> (\<exists>k. advances e c c' k)"
  using advance_inv [OF assms(2,1)] advance_effect [OF assms(2,1)] by blast

definition sample_queued :: voting where
  "sample_queued = sample_c5\<lparr>vo_proposals := [VProposal_Current sample_p5,
     VProposal_Current (sample_q\<lparr>pr_status := Queued, pr_bond_amount := 0, pr_sandbox_duration_ns := 500\<rparr>)], vo_pending_queue := [1]\<rparr>"

definition sample_promoted :: voting where
  "sample_promoted = sample_c5\<lparr>vo_proposals := [VProposal_Current (sample_p5\<lparr>pr_status := Executable\<rparr>),
     VProposal_Current (sample_q\<lparr>pr_status := Sandbox, pr_bond_amount := 0, pr_sandbox_duration_ns := 500,
        pr_sandbox_start_time_ns := Some 112\<rparr>)], vo_active_proposals := [1]\<rparr>"

lemma sample_advance: "internal_advance_queue (at_time ''bob'' 0 200) sample_queued = Inr sample_promoted"
  by (simp add: sample_queued_def sample_promoted_def advance_defs run_defs sample_voting_config_def at_time_def sample_actions_def
      has_actions_def activate_def
      sample_c0_def sample_p_def sample_c1_def sample_q_def sample_c2_def sample_c3_def sample_p3_def sample_c4_def sample_p4_def
      sample_snapshot_def sample_p5_def sample_c5_def sample_p6_def sample_c6_def compute_final_status_def power_at_def
      vote_stats_default_def bps_mul_def bps_is_zero_def bps_is_full_def MAX_RAW_def active_end_time_ns_def
      insert_slot_time_def iterable_remove_def cong: and_then_step)

lemma sample_queued_inv: "queue_inv sample_queued"
proof -
  have c: "length (vo_proposals sample_queued) = 2" "vo_pending_queue sample_queued = [1]" "vo_active_proposals sample_queued = [0]"
    by (simp_all add: sample_queued_def sample_c5_def sample_c4_def sample_c3_def)
  have s: "stored sample_queued i = (if i = 0 then Some sample_p5 else if i = 1
      then Some (sample_q\<lparr>pr_status := Queued, pr_bond_amount := 0, pr_sandbox_duration_ns := 500\<rparr>) else None)" for i
    by (simp add: stored_def sample_queued_def nth_Cons split: nat.split)
  show ?thesis
    by (auto simp: queue_inv_def ids_ok_def slots_ok_def line_ok_def c s is_active_status_def less_2_cases_iff life_defs
        sample_p5_def sample_p4_def sample_p3_def sample_p_def sample_q_def)
qed

theorem advance_refines_schedule_witness:
  "internal_advance_queue (at_time ''bob'' 0 200) sample_queued = Inr sample_promoted
    \<and> (\<exists>k. advances (at_time ''bob'' 0 200) sample_queued sample_promoted k)"
  using advance_refines_schedule [OF sample_queued_inv sample_advance] sample_advance by blast

text \<open>
  The views show what is about to be stored: the queue state and the proposal that are returned in a
  block are those which advancing the queue in that block stores, so a voter is never shown a status the
  contract would not act on.
\<close>

theorem views_predict_advance:
  assumes "queue_inv c" and "internal_advance_queue e c = Inr c'" and "get_queue_state e c = Inr q"
  shows "set (qs_active_proposals q) = set (vo_active_proposals c')
    \<and> length (qs_active_proposals q) = length (vo_active_proposals c') \<and> qs_pending_queue q = vo_pending_queue c'
    \<and> (\<forall>i info. i \<in> set (vo_active_proposals c) \<union> set (vo_pending_queue c) \<longrightarrow> get_proposal e c i = Inr (Some info)
        \<longrightarrow> stored c' i = Some (pi_proposal info))"
  using queue_state_predicts [OF assms(3,2,1)] get_proposal_predicts [OF _ assms(2,1)] by blast

theorem views_predict_advance_witness:
  "\<exists>q. get_queue_state (at_time ''bob'' 0 200) sample_queued = Inr q \<and> qs_pending_queue q = []
    \<and> set (qs_active_proposals q) = {1}"
proof -
  obtain out where "compute_queue_advance (at_time ''bob'' 0 200) sample_queued = Inr out"
    using sample_advance unfolding internal_advance_queue_def and_then_eq_Inr by blast
  then obtain q where q: "get_queue_state (at_time ''bob'' 0 200) sample_queued = Inr q"
    by (simp add: get_queue_state_def Let_def)
  from views_predict_advance [OF sample_queued_inv sample_advance q] q show ?thesis
    by (simp add: sample_promoted_def sample_c5_def sample_c4_def sample_c3_def sample_c2_def sample_c1_def sample_c0_def)
qed

section \<open>Money and executions\<close>

text \<open>
  C25. In every reachable state, the bonds that are still recorded and everything the contract has paid out
  (bonds, refunds, the deposits attached to its own calls, and the transfers and deposits of executed actions) are
  covered by the deposits it has received and the cost of the actions of the executed proposals, each counted once. So the
  contract pays no bond and no refund twice, and only the actions of proposals that were executed can draw on
  more than the deposits; the code sets nothing aside for the bonds when it executes them.
\<close>

theorem bonds_are_covered:
  assumes "voting_reaches X V roll w"
  shows "bonds (vw_contract w) + paid_out (vo_outbox (vw_contract w))
    \<le> vw_deposits w + (\<Sum>i < length (vo_proposals (vw_contract w)). run_cost (vw_contract w) i)"
  using reaches_inv [OF assms] voted_le [OF reaches_inv [OF assms]] by (simp add: world_inv_def paid_out_split)

theorem bonds_are_covered_witness:
  "bonds sample_c6 + paid_out (vo_outbox sample_c6) \<le> 232 \<and> bond_at sample_c6 1 = 7
    \<and> paid_out [Run_Actions 0 sample_actions] = 1"
proof -
  have "length (vo_proposals sample_c6) = Suc (Suc 0)" by (simp add: sample_c6_def)
  moreover have "run_cost sample_c6 0 = 1" "run_cost sample_c6 1 = 0"
    unfolding run_cost_def sample_stored by (simp_all add: sample_p6_def sample_p5_def sample_p4_def sample_p3_def sample_q_def
      sample_p_def sample_actions_def actions_amount_def)
  ultimately show ?thesis using bonds_are_covered [OF sample_reaches(3)] sample_stored(5)
    by (simp add: sample_world_def bond_at_def sample_q_def paid_out_def sample_actions_def actions_amount_def)
qed

text \<open>
  C26. The actions of a proposal are dispatched at most once, and only if the proposal won its ballot and
  is being executed or has been executed.
\<close>

theorem executed_at_most_once:
  assumes "voting_reaches X V roll w"
  shows "length (filter (is_run i) (vo_outbox (vw_contract w))) \<le> 1
    \<and> (filter (is_run i) (vo_outbox (vw_contract w)) \<noteq> [] \<longrightarrow> (\<exists>p. stored (vw_contract w) i = Some p
        \<and> pr_status p \<in> {InProgress, Succeeded, Failed} \<and> compute_final_status p = Inr Succeeded))"
proof -
  let ?c = "vw_contract w"
  have n: "runs ?c i \<le> (if has_run ?c i then 1 else 0)" using reaches_inv [OF assms] by (simp add: world_inv_def run_count_ok_def)
  have "\<exists>p. stored ?c i = Some p \<and> pr_status p \<in> {InProgress, Succeeded, Failed} \<and> compute_final_status p = Inr Succeeded"
    if "runs ?c i \<noteq> 0"
  proof -
    have "has_run ?c i" using n that by (cases "has_run ?c i") simp_all
    then obtain p where p: "stored ?c i = Some p" "pr_status p \<in> {InProgress, Succeeded, Failed}" by (auto simp: has_run_def)
    have "compute_final_status p = Inr Succeeded"
      using reaches_life [OF assms p(1)] p(2) by (auto simp: life_ok_def earned_def passed_status_def)
    then show ?thesis using p by blast
  qed
  moreover have "runs ?c i \<le> 1" using n by (cases "has_run ?c i") simp_all
  ultimately show ?thesis by (simp add: runs_def)
qed

theorem executed_at_most_once_witness:
  "filter (is_run 0) (vo_outbox sample_c6) = [Run_Actions 0 sample_actions] \<and> compute_final_status sample_p6 = Inr Succeeded"
proof -
  have "filter (is_run 0) (vo_outbox sample_c6) = [Run_Actions 0 sample_actions]"
    by (simp add: sample_c6_def sample_c5_def sample_c4_def sample_c3_def sample_c2_def sample_c1_def)
  then show ?thesis using executed_at_most_once [OF sample_reaches(3), of 0] sample_stored(4) by (simp add: sample_world_def)
qed

section \<open>Availability\<close>

text \<open>
  C27. The queue never gets stuck: on every state that satisfies the invariant, with times before the year 2116, durations that
  the setters accept and amounts that leave room for a factor of ten thousand, advancing the queue
  returns, so no proposal can block the methods that advance it.
\<close>

theorem queue_never_stuck:
  assumes "queue_inv c" and "all_schedulable c" and "block_timestamp e \<le> 2 ^ 62"
    and "length (vo_active_proposals c) + length (vo_pending_queue c) < 2 ^ 32"
  shows "\<exists>c'. internal_advance_queue e c = Inr c'"
  by (rule advance_total [OF assms(1,2) _ assms(4)]) (use assms(3) in \<open>simp add: max_start_def\<close>)

theorem queue_never_stuck_witness:
  "\<exists>c'. internal_advance_queue (at_time ''bob'' 0 (10 ^ 18)) sample_queued = Inr c'"
proof (rule queue_never_stuck [OF sample_queued_inv])
  have "stored sample_queued i = Some p \<Longrightarrow> p = sample_p5
      \<or> p = sample_q\<lparr>pr_status := Queued, pr_bond_amount := 0, pr_sandbox_duration_ns := 500\<rparr>" for i p
    by (auto simp: stored_def sample_queued_def nth_Cons split: nat.splits if_splits)
  moreover have "schedulable sample_p5"
    by (simp add: schedulable_def in_range_def sample_p5_def sample_p4_def sample_p3_def sample_p_def max_duration_def max_start_def
        power_at_def vote_stats_default_def sample_snapshot_def)
      (simp add: bps_ZERO_def)
  moreover have "schedulable (sample_q\<lparr>pr_status := Queued, pr_bond_amount := 0, pr_sandbox_duration_ns := 500\<rparr>)"
    by (simp add: schedulable_def in_range_def sample_q_def sample_p_def max_duration_def max_start_def
        power_at_def vote_stats_default_def bps_ZERO_def)
  ultimately show "all_schedulable sample_queued" unfolding all_schedulable_def by blast
qed (simp_all add: at_time_def sample_queued_def sample_c5_def sample_c4_def sample_c3_def)

text \<open>
  C28. While the ballot of a proposal is open, an account with a valid ballot paper and voting power can cast its
  vote or change it: withdrawing the old vote never underflows, whatever votes were cast and changed
  before. Needed are only the fee and room in the counters.
\<close>

theorem vote_never_stuck:
  assumes "voting_reaches X V roll w" and "\<not> vo_paused (vw_contract w)" and "internal_advance_queue e (vw_contract w) = Inr c"
    and "fresh e c i = Some p" and "pr_status p = Voting" and "pr_snapshot_and_state p = Some s"
    and "(q, va) \<in> V" and "is_valid (vx_hasher X) q (snap_root (ss_snapshot s)) (snap_length (ss_snapshot s)) va"
    and "acc_account_id (account_from va) = predecessor e"
    and "total_balance (ss_timestamp_ns s) (ss_venear_growth_config s) (account_from va) = Inr n" and "n \<noteq> 0"
    and "get_vote c (predecessor e) i \<noteq> Some (vote_option_u8 v)"
    and "cf_vote_storage_fee (vo_config c) \<le> attached_deposit e" and "0 < attached_deposit e" and "attached_deposit e + 1 < 2 ^ 128"
    and "vs_total_votes (pr_total_votes p) + 1 < 2 ^ 32" and "vs_total_venear (pr_total_votes p) + n < 2 ^ 128"
  shows "\<exists>c'. vote X e i v q va (vw_contract w) = Inr c'"
proof -
  have "voting_inv X V roll (vw_contract w)" using reaches_inv [OF assms(1)] by (simp add: world_inv_def)
  from vote_open [OF this assms(2-12) [unfolded get_vote_def] assms(13-17)] show ?thesis .
qed

lemma sample_c5_current:
  "internal_advance_queue (at_time x 3 5) sample_c5 = Inr sample_c5" "fresh (at_time x 3 5) sample_c5 0 = Some sample_p5"
proof -
  have p: "update_proposal 5 sample_p5 = Inr sample_p5"
    by (simp add: advance_defs run_defs sample_p_def sample_p3_def sample_p4_def sample_p5_def cong: and_then_step)
  then show "fresh (at_time x 3 5) sample_c5 0 = Some sample_p5" by (simp add: fresh_def sample_stored at_time_def)
  have "pr_status sample_p5 = Voting" by (simp add: sample_p5_def sample_p4_def sample_p3_def)
  then show "internal_advance_queue (at_time x 3 5) sample_c5 = Inr sample_c5"
    by (simp add: internal_advance_queue_def compute_queue_advance_def scan_active_def internal_get_proposal_def is_active_status_def
      run_defs p at_time_def sample_c5_def sample_c4_def sample_c3_def sample_c2_def sample_c1_def sample_c0_def cong: and_then_step)
qed

theorem vote_never_stuck_witness:
  "get_vote sample_c5 ''alice'' 0 = Some (vote_option_u8 For)
    \<and> (\<exists>c'. vote sample_voting_ext (at_time ''alice'' 3 5) 0 Against sample_paper sample_voter sample_c5 = Inr c')"
proof -
  have "leading_zeros w 0 = w" for w by (induction w) simp_all
  then have v: "is_valid (vx_hasher sample_voting_ext) sample_paper 0 (Suc 0) sample_voter"
    by (simp add: is_valid_def sample_paper_def height_of_length_def sample_voting_ext_def)
  have "\<exists>c'. vote sample_voting_ext (at_time ''alice'' 3 5) 0 Against sample_paper sample_voter
      (vw_contract (sample_world sample_c5 [] 231)) = Inr c'"
  proof (rule vote_never_stuck [OF sample_reaches(2), where c = sample_c5 and p = sample_p5 and s = sample_snapshot and n = 5000])
    show "total_balance (ss_timestamp_ns sample_snapshot) (ss_venear_growth_config sample_snapshot) (account_from sample_voter) = Inr 5000"
      using sample_power by (simp add: sample_snapshot_def)
  qed (use v sample_c5_current in \<open>simp_all add: sample_world_def sample_snapshot_def sample_V_def sample_voter_def at_time_def
      sample_voting_config_def get_vote_def sample_p5_def sample_p4_def sample_p3_def sample_c5_def sample_c4_def sample_c3_def
      sample_c2_def sample_c1_def sample_c0_def\<close>)
  moreover have "get_vote sample_c5 ''alice'' 0 = Some (vote_option_u8 For)" by (simp add: get_vote_def sample_c5_def)
  ultimately show ?thesis by (simp add: sample_world_def)
qed

text \<open>
  A call to vote that the rules do not allow is rejected with the reason: no deposit, the proposal is not open, another option
  than For in the sandbox, no snapshot yet, an invalid ballot paper, the paper of somebody else, or the
  same option again. The state of the contract is then unchanged.
\<close>

theorem vote_rejections:
  assumes "\<not> vo_paused c0" and "internal_advance_queue e c0 = Inr c" and "fresh e c i = Some p"
    and "vote X e i v q va c0 = r"
  shows "(attached_deposit e = 0 \<longrightarrow> r = Inl (Msg ''Requires attached deposit''))
    \<and> (attached_deposit e \<noteq> 0 \<longrightarrow>
        (pr_status p \<notin> {Voting, Sandbox} \<longrightarrow> r = Inl (Msg ''Proposal is not in the voting phase''))
      \<and> (pr_status p = Sandbox \<longrightarrow> v \<noteq> For \<longrightarrow> r = Inl (Msg ''Only 'For' votes are allowed during the sandbox period''))
      \<and> (pr_status p = Voting \<longrightarrow> pr_snapshot_and_state p = None \<longrightarrow> r = Inl (Msg ''Snapshot has not been taken yet''))
      \<and> (\<forall>s. pr_status p = Voting \<longrightarrow> pr_snapshot_and_state p = Some s \<longrightarrow>
          (\<not> is_valid (vx_hasher X) q (snap_root (ss_snapshot s)) (snap_length (ss_snapshot s)) va
             \<longrightarrow> r = Inl (Msg ''Invalid merkle proof''))
        \<and> (is_valid (vx_hasher X) q (snap_root (ss_snapshot s)) (snap_length (ss_snapshot s)) va
             \<longrightarrow> acc_account_id (account_from va) \<noteq> predecessor e \<longrightarrow> predecessor e \<noteq> current_account e
             \<longrightarrow> r = Inl (Msg ''Account ID doesn't match the predecessor account ID or self-call.''))))"
proof -
  have x: "internal_expect_proposal_updated e c i = Inr p" using assms(3) by (simp add: expect_updated_eq)
  show ?thesis
    unfolding assms(4) [symmetric] by (auto simp: vote_def voting_assert_not_paused_def assms(1,2) x cong: and_then_step)
qed

theorem vote_rejections_witness:
  "vote sample_voting_ext (at_time ''bob'' 3 5) 0 Against sample_paper sample_voter sample_c5
     = Inl (Msg ''Account ID doesn't match the predecessor account ID or self-call.'')"
proof -
  have "leading_zeros w 0 = w" for w by (induction w) simp_all
  then have v: "is_valid (vx_hasher sample_voting_ext) sample_paper 0 (Suc 0) sample_voter"
    by (simp add: is_valid_def sample_paper_def height_of_length_def sample_voting_ext_def)
  have "\<not> vo_paused sample_c5"
    by (simp add: sample_c5_def sample_c4_def sample_c3_def sample_c2_def sample_c1_def sample_c0_def)
  then show ?thesis
    using vote_rejections [of sample_c5 "at_time ''bob'' 3 5" sample_c5 0 sample_p5] v sample_c5_current
    by (simp add: sample_p5_def sample_p4_def sample_p3_def sample_snapshot_def sample_voter_def at_time_def)
qed

section \<open>The calendar\<close>

text \<open>
  A FastTrack proposal that leaves the sandbox is scheduled for a Monday, midnight Central European
  time (day 4 of the week of 1970-01-01): the time always exists for clocks before the year 2116, lies strictly in the future and
  at most seven days ahead.
\<close>

theorem voting_starts_on_monday:
  assumes "t < 2 ^ 62"
  shows "\<exists>u. next_voting_start_ns False t = Inr u \<and> t < u \<and> u \<le> t + 7 * NS_PER_DAY
    \<and> (u + CET_OFFSET_NS) mod NS_PER_DAY = 0 \<and> (u + CET_OFFSET_NS) div NS_PER_DAY mod 7 = 4"
proof -
  let ?d = "(t + CET_OFFSET_NS) div NS_PER_DAY"
  let ?k = "(10 - ?d mod 7) mod 7 + 1"
  have "?d * NS_PER_DAY \<le> t + CET_OFFSET_NS" by simp
  moreover have "?k * NS_PER_DAY \<le> 7 * NS_PER_DAY" by (rule mult_right_mono) (simp_all add: less_Suc_eq_le [symmetric])
  moreover have "(?d + ?k) * NS_PER_DAY = ?d * NS_PER_DAY + ?k * NS_PER_DAY" by (rule add_mult_distrib)
  ultimately have b: "(?d + ?k) * NS_PER_DAY \<le> t + CET_OFFSET_NS + 7 * NS_PER_DAY" by linarith
  have "t + CET_OFFSET_NS < 2 ^ 64" "t + CET_OFFSET_NS + 7 * NS_PER_DAY < 2 ^ 64"
    using assms by (simp_all add: CET_OFFSET_NS_def NS_PER_DAY_def)
  then have r: "add_u 64 t CET_OFFSET_NS = Inr (t + CET_OFFSET_NS)"
    "mul_u 64 (?d + ?k) NS_PER_DAY = Inr ((?d + ?k) * NS_PER_DAY)"
    using b by (simp_all only: add_u_ok mul_u_ok le_less_trans [OF b])
  have "CET_OFFSET_NS \<le> NS_PER_DAY" by (simp add: CET_OFFSET_NS_def NS_PER_DAY_def)
  also have "\<dots> \<le> (?d + ?k) * NS_PER_DAY" by simp
  finally have "sub_u ((?d + ?k) * NS_PER_DAY) CET_OFFSET_NS = Inr ((?d + ?k) * NS_PER_DAY - CET_OFFSET_NS)" by (simp add: sub_u_def)
  then have u: "next_voting_start_ns False t = Inr ((?d + ?k) * NS_PER_DAY - CET_OFFSET_NS)"
    unfolding next_voting_start_ns_def Let_def if_False r and_then_Inr .
  show ?thesis by (intro exI [of _ "(?d + ?k) * NS_PER_DAY - CET_OFFSET_NS"] conjI [OF u] next_voting_start_value [OF u])
qed

theorem voting_starts_on_monday_witness:
  "\<exists>u. next_voting_start_ns False (1700000000 * 10 ^ 9) = Inr u \<and> 1700000000 * 10 ^ 9 < u"
  using voting_starts_on_monday [of "1700000000 * 10 ^ 9"] by auto

section \<open>Authority\<close>

text \<open>The configuration messages: what each of them needs.\<close>

lemma settings_authorised:
  assumes "voting_exec X e m c = Inr c'" and "\<not> about_proposals m"
  shows "(vo_config c' \<noteq> vo_config c \<longrightarrow> attached_deposit e = 1 \<and> (predecessor e = cf_owner_account_id (vo_config c)
        \<or> m = Accept_Voting_Ownership \<and> cf_proposed_new_owner_account_id (vo_config c) = Some (predecessor e)))
    \<and> (vo_paused c' \<noteq> vo_paused c \<longrightarrow> (if vo_paused c' then predecessor e \<in> set (cf_guardians (vo_config c))
          \<or> predecessor e = cf_owner_account_id (vo_config c) else predecessor e = cf_owner_account_id (vo_config c)))"
  using assms by (cases m) (auto simp: setting_defs res_simps)

text \<open>What governs the contract: its configuration and the pause flag.\<close>

definition same_rules :: "voting \<Rightarrow> voting \<Rightarrow> bool" where
  "same_rules c c' \<longleftrightarrow> vo_config c' = vo_config c \<and> vo_paused c' = vo_paused c"

lemma set_proposal_rules: "internal_set_proposal p c = Inr c' \<Longrightarrow> same_rules c c'"
  by (cases "pr_id p \<in> set (vo_active_proposals c)"; cases "is_active_status (pr_status p)")
    (auto simp: internal_set_proposal_def Let_def res_simps same_rules_def)

lemma set_proposals_rules: "for_each internal_set_proposal ps c = Inr c' \<Longrightarrow> same_rules c c'"
  by (erule for_each_inv [where P = "same_rules c"])
    (auto simp: same_rules_def dest: set_proposal_rules [unfolded same_rules_def])

lemma advance_rules: "internal_advance_queue e c = Inr c' \<Longrightarrow> same_rules c c'"
  by (auto simp: internal_advance_queue_def res_simps Let_def same_rules_def dest!: set_proposals_rules [unfolded same_rules_def])

lemma edits_rules: "edits e c i p p' xs c' \<Longrightarrow> same_rules c c'"
  unfolding edits_def by (elim exE conjE) (drule set_proposal_rules, simp add: same_rules_def)

lemma same_rules_trans: "same_rules a b \<Longrightarrow> same_rules b c \<Longrightarrow> same_rules a c"
  by (simp add: same_rules_def)

fun is_resize :: "voting_msg \<Rightarrow> bool" where
  "is_resize (Set_Max_Active_Proposals _) = True"
| "is_resize _ = False"

lemma proposals_same_rules:
  assumes "voting_exec X e m c = Inr c'" and "about_proposals m" and "\<not> is_resize m"
  shows "same_rules c c'"
  using assms(2)
proof (cases rule: about_proposals_cases)
  case (create md actions flow)
  then obtain i where "create_proposal X e md actions flow c = Inr (c', i)" using assms(1) by (auto simp: and_then_eq_Inr)
  then show ?thesis by (rule create_effect) (simp add: same_rules_def)
next
  case (vote i v q va)
  then have "Voting.vote X e i v q va c = Inr c'" using assms(1) by simp
  then show ?thesis by (rule vote_effect) (drule set_proposal_rules, drule advance_rules, simp add: same_rules_def)
next
  case (snapshot i v)
  then have "take_snapshot_and_vote e i v c = Inr c'" using assms(1) by simp
  then show ?thesis by (rule take_snapshot_effect) (drule advance_rules, simp add: same_rules_def)
next
  case (approve i mj)
  then obtain info where "approve_proposal e i mj c = Inr (c', info)" using assms(1) by (auto simp: and_then_eq_Inr)
  then show ?thesis
    by (cases rule: approve_edits) (drule edits_rules, drule advance_rules, simp add: same_rules_def)+
next
  case (reject i)
  then have "reject_proposal e i c = Inr c'" using assms(1) by simp
  then show ?thesis by (rule reject_edits) (rule edits_rules)
next
  case (veto i)
  then have "veto_proposal e i c = Inr c'" using assms(1) by simp
  then show ?thesis by (rule veto_edits) (blast dest: edits_rules advance_rules intro: same_rules_trans)
next
  case (noveto i)
  then have "noveto_proposal e i c = Inr c'" using assms(1) by simp
  then show ?thesis by (rule noveto_edits) (blast dest: edits_rules advance_rules intro: same_rules_trans)
next
  case (slash i)
  then have "slash_proposal e i c = Inr c'" using assms(1) by simp
  then show ?thesis by (rule slash_edits) (rule edits_rules)
next
  case (claim i)
  then have "claim_bond e i c = Inr c'" using assms(1) by simp
  then show ?thesis by (rule claim_edits) (rule edits_rules)
next
  case (execute i)
  then have "execute_proposal e i c = Inr c'" using assms(1) by simp
  then show ?thesis by (rule execute_edits) (blast dest: edits_rules advance_rules intro: same_rules_trans)
next
  case advance
  then have "internal_advance_queue e c = Inr c'" using assms(1) by (auto simp: advance_queue_def res_simps)
  then show ?thesis by (rule advance_rules)
next
  case (resize n)
  then show ?thesis using assms(3) by simp
qed

text \<open>
  Authority: whatever call is accepted, the configuration changes only by the owner, or by the account the owner proposed
  as its successor when it accepts; the contract is paused only by a guardian or the owner and unpaused only by the
  owner; proposals are approved, rejected and slashed only by reviewers, vetoed and released from the timelock only by the
  council; and while the contract is paused, the only calls about proposals that are
  accepted are claiming a bond and changing the number of slots.
\<close>

theorem voting_authority:
  assumes "voting_exec X e m c = Inr c'"
  shows "(vo_config c' \<noteq> vo_config c \<longrightarrow> attached_deposit e = 1 \<and> (predecessor e = cf_owner_account_id (vo_config c)
        \<or> m = Accept_Voting_Ownership \<and> cf_proposed_new_owner_account_id (vo_config c) = Some (predecessor e)))
    \<and> (vo_paused c' \<noteq> vo_paused c \<longrightarrow> (if vo_paused c' then predecessor e \<in> set (cf_guardians (vo_config c))
          \<or> predecessor e = cf_owner_account_id (vo_config c) else predecessor e = cf_owner_account_id (vo_config c)))
    \<and> (\<forall>i. (\<exists>mj. m = Approve_Proposal i mj) \<or> m = Reject_Proposal i \<or> m = Slash_Proposal i
          \<longrightarrow> predecessor e \<in> set (cf_reviewer_ids (vo_config c)) \<and> attached_deposit e = 1)
    \<and> (\<forall>i. m = Veto_Proposal i \<or> m = Noveto_Proposal i \<longrightarrow> predecessor e \<in> set (cf_council_ids (vo_config c)) \<and> attached_deposit e = 1)
    \<and> (vo_paused c \<longrightarrow> about_proposals m \<longrightarrow> is_resize m \<or> (\<exists>i. m = Claim_Bond i))"
proof -
  have rules: "(vo_config c' \<noteq> vo_config c \<longrightarrow> attached_deposit e = 1 \<and> (predecessor e = cf_owner_account_id (vo_config c)
        \<or> m = Accept_Voting_Ownership \<and> cf_proposed_new_owner_account_id (vo_config c) = Some (predecessor e)))
    \<and> (vo_paused c' \<noteq> vo_paused c \<longrightarrow> (if vo_paused c' then predecessor e \<in> set (cf_guardians (vo_config c))
          \<or> predecessor e = cf_owner_account_id (vo_config c) else predecessor e = cf_owner_account_id (vo_config c)))"
  proof (cases "about_proposals m")
    case True
    show ?thesis
    proof (cases "is_resize m")
      case resize: True
      then obtain n where m: "m = Set_Max_Active_Proposals n" by (cases m) simp_all
      have "attached_deposit e = 1 \<and> predecessor e = cf_owner_account_id (vo_config c)"
        using assms by (auto simp: m set_max_active_proposals_def voting_assert_owner_def res_simps)
      moreover have "vo_paused c' = vo_paused c"
        using advance_rules [OF resize_exec [OF assms [unfolded m]]] by (simp add: same_rules_def)
      ultimately show ?thesis by simp
    next
      case False
      then show ?thesis using proposals_same_rules [OF assms True] by (simp add: same_rules_def)
    qed
  qed (rule settings_authorised [OF assms])
  moreover have "\<forall>i. (\<exists>mj. m = Approve_Proposal i mj) \<or> m = Reject_Proposal i \<or> m = Slash_Proposal i
          \<longrightarrow> predecessor e \<in> set (cf_reviewer_ids (vo_config c)) \<and> attached_deposit e = 1"
    "\<forall>i. m = Veto_Proposal i \<or> m = Noveto_Proposal i \<longrightarrow> predecessor e \<in> set (cf_council_ids (vo_config c)) \<and> attached_deposit e = 1"
    using assms by (auto simp: approve_proposal_def reject_proposal_def slash_proposal_def veto_proposal_def noveto_proposal_def guards
        and_then_eq_Inr require_eq_Inr assert_one_yocto_Inr)
  moreover have "vo_paused c \<longrightarrow> about_proposals m \<longrightarrow> is_resize m \<or> (\<exists>i. m = Claim_Bond i)"
    using assms by (cases m) (auto simp: create_proposal_def vote_def take_snapshot_and_vote_def approve_proposal_def reject_proposal_def
      veto_proposal_def noveto_proposal_def slash_proposal_def execute_proposal_def advance_queue_def guards and_then_eq_Inr)
  ultimately show ?thesis by blast
qed

theorem voting_authority_witness:
  "voting_exec sample_voting_ext (at_time ''rev'' 1 2) (Approve_Proposal 0 None) sample_c2 = Inr sample_c3
    \<and> ''rev'' \<in> set (cf_reviewer_ids (vo_config sample_c2))"
  using voting_authority [OF sample_approve] sample_approve by (simp add: at_time_def)

end
