(* ===== verification/Lockup.thy ===== *)
theory Lockup
  imports Accounts
begin

text \<open>
  The lockup contract (\<open>lockup-contract/src\<close>): the account that holds the NEAR of one owner, locks it
  for veNEAR, and stakes it with a staking pool. Every method, in the order of the source
  files. Promises and logs are appended to \<open>lk_outbox\<close>; a log is its template with its arguments. The
  answers of the staking pool and of the whitelist arrive as calls of the callbacks, whose argument is
  the result of the promise. The balance of the account is the environment's; the validity of an
  account name, a host function, is the parameter \<open>valid\<close>. The gas attached to promises is not modelled.
\<close>

section \<open>State (\<open>types.rs\<close>, \<open>lib.rs\<close>)\<close>

datatype transaction_status = Idle | Busy

record staking_information =
  si_staking_pool_account_id :: account_id
  si_status :: transaction_status
  si_deposit_amount :: nat

datatype lockup_effect =
    Lockup_Log string "nat option" "account_id option"
  | Lockup_Event string account_id nat "nat option" "nat option" "nat option"
  | Venear_Update account_id nat account_id vlockup_update
  | Is_Whitelisted account_id account_id
  | Pool_Deposit account_id nat
  | Pool_Deposit_And_Stake account_id nat
  | Pool_Withdraw account_id nat
  | Pool_Stake account_id nat
  | Pool_Unstake account_id nat
  | Pool_Unstake_All account_id
  | Pool_Get_Total account_id
  | Pool_Get_Unstaked account_id
  | Send account_id nat
  | Delete_Account account_id

record lockup =
  lk_owner_account_id :: account_id
  lk_venear_account_id :: account_id
  lk_staking_pool_whitelist_account_id :: account_id
  lk_staking_information :: "staking_information option"
  lk_unlock_duration_ns :: nat
  lk_venear_locked_balance :: nat
  lk_venear_unlock_timestamp :: nat
  lk_venear_pending_balance :: nat
  lk_lockup_update_nonce :: nat
  lk_version :: nat
  lk_min_lockup_deposit :: nat
  lk_outbox :: "lockup_effect list"

definition lockup_emit :: "lockup_effect \<Rightarrow> lockup \<Rightarrow> lockup" where
  "lockup_emit x c = c\<lparr>lk_outbox := lk_outbox c @ [x]\<rparr>"

definition lockup_new ::
  "env \<Rightarrow> account_id \<Rightarrow> account_id \<Rightarrow> nat \<Rightarrow> account_id \<Rightarrow> nat \<Rightarrow> nat \<Rightarrow> nat \<Rightarrow> lockup res" where
  "lockup_new e owner venear unlock_duration whitelist version nonce min_lockup_deposit =
     and_then (require (min_lockup_deposit \<le> account_balance e) ''Not enough NEAR for storage'') (\<lambda>_. Inr
     \<lparr>lk_owner_account_id = owner, lk_venear_account_id = venear,
      lk_staking_pool_whitelist_account_id = whitelist, lk_staking_information = None,
      lk_unlock_duration_ns = unlock_duration, lk_venear_locked_balance = 0, lk_venear_unlock_timestamp = 0,
      lk_venear_pending_balance = 0, lk_lockup_update_nonce = nonce, lk_version = version,
      lk_min_lockup_deposit = min_lockup_deposit, lk_outbox = []\<rparr>)"

section \<open>Internal methods (\<open>internal.rs\<close>)\<close>

definition get_account_balance :: "env \<Rightarrow> lockup \<Rightarrow> nat" where
  "get_account_balance e c = saturating_sub (account_balance e) (lk_min_lockup_deposit c)"

definition set_staking_pool_status :: "transaction_status \<Rightarrow> lockup \<Rightarrow> lockup res" where
  "set_staking_pool_status status c =
     and_then (expect (lk_staking_information c) ''Staking pool should be selected'') (\<lambda>s.
     Inr (c\<lparr>lk_staking_information := Some (s\<lparr>si_status := status\<rparr>)\<rparr>))"

definition assert_no_staking_or_idle :: "lockup \<Rightarrow> unit res" where
  "assert_no_staking_or_idle c =
     (case lk_staking_information c of
        None \<Rightarrow> Inr ()
      | Some s \<Rightarrow> (case si_status s of
            Idle \<Rightarrow> Inr ()
          | Busy \<Rightarrow> Inl (Msg ''Contract is currently busy with another operation'')))"

definition assert_staking_pool_is_idle :: "lockup \<Rightarrow> unit res" where
  "assert_staking_pool_is_idle c =
     and_then (require (lk_staking_information c \<noteq> None) ''Staking pool is not selected'') (\<lambda>_.
     and_then (unwrap (lk_staking_information c)) (\<lambda>s.
     case si_status s of
       Idle \<Rightarrow> Inr ()
     | Busy \<Rightarrow> Inl (Msg ''Contract is currently busy with another operation'')))"

definition assert_staking_pool_is_not_selected :: "lockup \<Rightarrow> unit res" where
  "assert_staking_pool_is_not_selected c =
     require (lk_staking_information c = None) ''Staking pool is already selected''"

definition lockup_assert_owner :: "env \<Rightarrow> lockup \<Rightarrow> unit res" where
  "lockup_assert_owner e c = require (predecessor e = lk_owner_account_id c) ''Can only be called by the owner''"

section \<open>Views (\<open>getters.rs\<close>, \<open>transfer.rs\<close>)\<close>

definition get_owner_account_id :: "lockup \<Rightarrow> account_id" where
  "get_owner_account_id c = lk_owner_account_id c"

definition get_staking_pool_account_id :: "lockup \<Rightarrow> account_id option" where
  "get_staking_pool_account_id c = map_option si_staking_pool_account_id (lk_staking_information c)"

definition get_known_deposited_balance :: "lockup \<Rightarrow> nat" where
  "get_known_deposited_balance c =
     (case lk_staking_information c of None \<Rightarrow> 0 | Some s \<Rightarrow> si_deposit_amount s)"

definition get_lockup_balance :: "env \<Rightarrow> lockup \<Rightarrow> nat res" where
  "get_lockup_balance e c = add_u 128 (account_balance e) (get_known_deposited_balance c)"

definition get_owners_balance :: "env \<Rightarrow> lockup \<Rightarrow> nat res" where
  "get_owners_balance e c = get_lockup_balance e c"

definition get_liquid_owners_balance :: "env \<Rightarrow> lockup \<Rightarrow> nat" where
  "get_liquid_owners_balance e c = get_account_balance e c"

definition get_lockup_version :: "lockup \<Rightarrow> nat" where
  "get_lockup_version c = lk_version c"

text \<open>The tokens of the selected pool are accepted, none is returned.\<close>

definition ft_on_transfer :: "env \<Rightarrow> lockup \<Rightarrow> nat res" where
  "ft_on_transfer e c =
     and_then (require (Some (predecessor e) = map_option si_staking_pool_account_id (lk_staking_information c))
       ''Only currently selected LST is accepted'') (\<lambda>_. Inr 0)"

section \<open>Locking (\<open>venear.rs\<close>)\<close>

definition venear_liquid_balance :: "env \<Rightarrow> lockup \<Rightarrow> nat res" where
  "venear_liquid_balance e c =
     and_then (add_u 128 (account_balance e) (get_known_deposited_balance c)) (\<lambda>total_near_balance.
     and_then (expect (if lk_venear_locked_balance c \<le> total_near_balance
          then Some (total_near_balance - lk_venear_locked_balance c) else None) ''Illegal balance'') (\<lambda>rest.
     expect (if lk_venear_pending_balance c \<le> rest then Some (rest - lk_venear_pending_balance c) else None)
       ''Illegal balance''))"

definition set_venear_unlock_timestamp :: "env \<Rightarrow> lockup \<Rightarrow> lockup res" where
  "set_venear_unlock_timestamp e c =
     and_then (add_u 64 (block_timestamp e) (lk_unlock_duration_ns c)) (\<lambda>t.
     Inr (c\<lparr>lk_venear_unlock_timestamp := t\<rparr>))"

definition venear_lockup_update :: "env \<Rightarrow> lockup \<Rightarrow> lockup res" where
  "venear_lockup_update e c0 =
     and_then (add_u 64 (lk_lockup_update_nonce c0) 1) (\<lambda>nonce.
     let c = c0\<lparr>lk_lockup_update_nonce := nonce\<rparr> in
     Inr (lockup_emit (Venear_Update (lk_venear_account_id c) (lk_version c) (lk_owner_account_id c)
       (VLockupUpdate_V1 \<lparr>locked_near_balance = lk_venear_locked_balance c,
          lu_timestamp = block_timestamp e, lu_nonce = lk_lockup_update_nonce c\<rparr>)) c))"

definition get_venear_locked_balance :: "lockup \<Rightarrow> nat" where
  "get_venear_locked_balance c = lk_venear_locked_balance c"

definition get_venear_unlock_timestamp :: "lockup \<Rightarrow> nat" where
  "get_venear_unlock_timestamp c = lk_venear_unlock_timestamp c"

definition get_lockup_update_nonce :: "lockup \<Rightarrow> nat" where
  "get_lockup_update_nonce c = lk_lockup_update_nonce c"

definition get_venear_pending_balance :: "lockup \<Rightarrow> nat" where
  "get_venear_pending_balance c = lk_venear_pending_balance c"

definition get_venear_liquid_balance :: "env \<Rightarrow> lockup \<Rightarrow> nat res" where
  "get_venear_liquid_balance e c = venear_liquid_balance e c"

definition lock_near :: "env \<Rightarrow> nat option \<Rightarrow> lockup \<Rightarrow> lockup res" where
  "lock_near e amount c =
     and_then (lockup_assert_owner e c) (\<lambda>_.
     and_then (assert_one_yocto e) (\<lambda>_.
     and_then (case amount of Some n \<Rightarrow> Inr n | None \<Rightarrow> venear_liquid_balance e c) (\<lambda>n.
     and_then (venear_liquid_balance e c) (\<lambda>liquid.
     and_then (require (n \<le> liquid) ''Invalid amount'') (\<lambda>_.
     and_then (add_u 128 (lk_venear_locked_balance c) n) (\<lambda>locked.
     let c1 = c\<lparr>lk_venear_locked_balance := locked\<rparr>;
         c2 = lockup_emit (Lockup_Event ''lockup_lock_near'' (current_account e) (lk_version c1)
           (Some (lk_lockup_update_nonce c1)) (Some (block_timestamp e)) (Some n)) c1
     in venear_lockup_update e c2))))))"

definition begin_unlock_near :: "env \<Rightarrow> nat option \<Rightarrow> lockup \<Rightarrow> lockup res" where
  "begin_unlock_near e amount c =
     and_then (lockup_assert_owner e c) (\<lambda>_.
     and_then (assert_one_yocto e) (\<lambda>_.
     let n = (case amount of Some n \<Rightarrow> n | None \<Rightarrow> lk_venear_locked_balance c) in
     and_then (require (n \<le> lk_venear_locked_balance c) ''Invalid amount'') (\<lambda>_.
     and_then (sub_u (lk_venear_locked_balance c) n) (\<lambda>locked.
     and_then (add_u 128 (lk_venear_pending_balance c) n) (\<lambda>pending.
     let c1 = c\<lparr>lk_venear_locked_balance := locked, lk_venear_pending_balance := pending\<rparr> in
     and_then (set_venear_unlock_timestamp e c1) (\<lambda>c2. venear_lockup_update e c2))))))"

definition end_unlock_near :: "env \<Rightarrow> nat option \<Rightarrow> lockup \<Rightarrow> lockup res" where
  "end_unlock_near e amount c =
     and_then (lockup_assert_owner e c) (\<lambda>_.
     and_then (assert_one_yocto e) (\<lambda>_.
     let n = (case amount of Some n \<Rightarrow> n | None \<Rightarrow> lk_venear_pending_balance c) in
     and_then (require (n \<le> lk_venear_pending_balance c) ''Invalid amount'') (\<lambda>_.
     and_then (require (lk_venear_unlock_timestamp c \<le> block_timestamp e) ''Invalid unlock time'') (\<lambda>_.
     and_then (sub_u (lk_venear_pending_balance c) n) (\<lambda>pending.
     venear_lockup_update e (c\<lparr>lk_venear_pending_balance := pending\<rparr>))))))"

definition lock_pending_near :: "env \<Rightarrow> nat option \<Rightarrow> lockup \<Rightarrow> lockup res" where
  "lock_pending_near e amount c =
     and_then (lockup_assert_owner e c) (\<lambda>_.
     and_then (assert_one_yocto e) (\<lambda>_.
     let n = (case amount of Some n \<Rightarrow> n | None \<Rightarrow> lk_venear_pending_balance c) in
     and_then (require (n \<le> lk_venear_pending_balance c) ''Invalid amount'') (\<lambda>_.
     and_then (sub_u (lk_venear_pending_balance c) n) (\<lambda>pending.
     and_then (add_u 128 (lk_venear_locked_balance c) n) (\<lambda>locked.
     venear_lockup_update e (c\<lparr>lk_venear_pending_balance := pending, lk_venear_locked_balance := locked\<rparr>))))))"

section \<open>The owner's methods (\<open>owner.rs\<close>)\<close>

definition select_staking_pool :: "(account_id \<Rightarrow> bool) \<Rightarrow> env \<Rightarrow> account_id \<Rightarrow> lockup \<Rightarrow> lockup res" where
  "select_staking_pool valid e pool c =
     and_then (lockup_assert_owner e c) (\<lambda>_.
     and_then (assert_one_yocto e) (\<lambda>_.
     and_then (require (valid pool) ''The staking pool account ID is invalid'') (\<lambda>_.
     and_then (assert_staking_pool_is_not_selected c) (\<lambda>_.
     let c1 = lockup_emit (Lockup_Log (''Selecting staking pool @'' @ ''{}. Going to check whitelist first.'') None (Some pool)) c
     in Inr (lockup_emit (Is_Whitelisted (lk_staking_pool_whitelist_account_id c1) pool) c1)))))"

definition unselect_staking_pool :: "env \<Rightarrow> lockup \<Rightarrow> lockup res" where
  "unselect_staking_pool e c =
     and_then (lockup_assert_owner e c) (\<lambda>_.
     and_then (assert_one_yocto e) (\<lambda>_.
     and_then (assert_staking_pool_is_idle c) (\<lambda>_.
     and_then (unwrap (lk_staking_information c)) (\<lambda>s.
     and_then (require (si_deposit_amount s = 0) ''There is still a deposit on the staking pool'') (\<lambda>_.
     let c1 = lockup_emit (Lockup_Log (''Unselected current staking pool @'' @ ''{}.'') None (Some (si_staking_pool_account_id s))) c
     in Inr (c1\<lparr>lk_staking_information := None\<rparr>))))))"

text \<open>
  What all requests to the selected pool share: the log, the mark that a transaction is in progress, and
  the promise, whose callback is the method of the next section with the same name.
\<close>

definition request_to_pool ::
  "string \<Rightarrow> nat option \<Rightarrow> (account_id \<Rightarrow> lockup_effect) \<Rightarrow> lockup \<Rightarrow> lockup res" where
  "request_to_pool log amount call c =
     and_then (unwrap (lk_staking_information c)) (\<lambda>s.
     let c1 = lockup_emit (Lockup_Log log amount (Some (si_staking_pool_account_id s))) c in
     and_then (set_staking_pool_status Busy c1) (\<lambda>c2.
     and_then (unwrap (lk_staking_information c2)) (\<lambda>s2.
     Inr (lockup_emit (call (si_staking_pool_account_id s2)) c2))))"

definition deposit_to_staking_pool :: "env \<Rightarrow> nat \<Rightarrow> lockup \<Rightarrow> lockup res" where
  "deposit_to_staking_pool e amount c =
     and_then (lockup_assert_owner e c) (\<lambda>_.
     and_then (assert_one_yocto e) (\<lambda>_.
     and_then (require (0 < amount) ''Amount should be positive'') (\<lambda>_.
     and_then (assert_staking_pool_is_idle c) (\<lambda>_.
     and_then (require (amount \<le> get_account_balance e c)
       ''The balance that can be deposited to the staking pool is lower than the extra amount'') (\<lambda>_.
     request_to_pool (''Depositing {} to the staking pool @'' @ ''{}'') (Some amount) (\<lambda>pool. Pool_Deposit pool amount) c)))))"

definition deposit_and_stake :: "env \<Rightarrow> nat \<Rightarrow> lockup \<Rightarrow> lockup res" where
  "deposit_and_stake e amount c =
     and_then (lockup_assert_owner e c) (\<lambda>_.
     and_then (assert_one_yocto e) (\<lambda>_.
     and_then (require (0 < amount) ''Amount should be positive'') (\<lambda>_.
     and_then (assert_staking_pool_is_idle c) (\<lambda>_.
     and_then (require (amount \<le> get_account_balance e c)
       ''The balance that can be deposited to the staking pool is lower than the extra amount'') (\<lambda>_.
     request_to_pool (''Depositing and staking {} to the staking pool @'' @ ''{}'') (Some amount)
       (\<lambda>pool. Pool_Deposit_And_Stake pool amount) c)))))"

definition refresh_staking_pool_balance :: "env \<Rightarrow> lockup \<Rightarrow> lockup res" where
  "refresh_staking_pool_balance e c =
     and_then (lockup_assert_owner e c) (\<lambda>_.
     and_then (assert_one_yocto e) (\<lambda>_.
     and_then (assert_staking_pool_is_idle c) (\<lambda>_.
     request_to_pool (''Fetching total balance from the staking pool @'' @ ''{}'') None Pool_Get_Total c)))"

definition withdraw_from_staking_pool :: "env \<Rightarrow> nat \<Rightarrow> lockup \<Rightarrow> lockup res" where
  "withdraw_from_staking_pool e amount c =
     and_then (lockup_assert_owner e c) (\<lambda>_.
     and_then (assert_one_yocto e) (\<lambda>_.
     and_then (require (0 < amount) ''Amount should be positive'') (\<lambda>_.
     and_then (assert_staking_pool_is_idle c) (\<lambda>_.
     request_to_pool (''Withdrawing {} from the staking pool @'' @ ''{}'') (Some amount) (\<lambda>pool. Pool_Withdraw pool amount) c))))"

definition withdraw_all_from_staking_pool :: "env \<Rightarrow> lockup \<Rightarrow> lockup res" where
  "withdraw_all_from_staking_pool e c =
     and_then (lockup_assert_owner e c) (\<lambda>_.
     and_then (assert_one_yocto e) (\<lambda>_.
     and_then (assert_staking_pool_is_idle c) (\<lambda>_.
     request_to_pool (''Going to query the unstaked balance at the staking pool @'' @ ''{}'') None Pool_Get_Unstaked c)))"

definition stake :: "env \<Rightarrow> nat \<Rightarrow> lockup \<Rightarrow> lockup res" where
  "stake e amount c =
     and_then (lockup_assert_owner e c) (\<lambda>_.
     and_then (assert_one_yocto e) (\<lambda>_.
     and_then (require (0 < amount) ''Amount should be positive'') (\<lambda>_.
     and_then (assert_staking_pool_is_idle c) (\<lambda>_.
     request_to_pool (''Staking {} at the staking pool @'' @ ''{}'') (Some amount) (\<lambda>pool. Pool_Stake pool amount) c))))"

definition unstake :: "env \<Rightarrow> nat \<Rightarrow> lockup \<Rightarrow> lockup res" where
  "unstake e amount c =
     and_then (lockup_assert_owner e c) (\<lambda>_.
     and_then (assert_one_yocto e) (\<lambda>_.
     and_then (require (0 < amount) ''Amount should be positive'') (\<lambda>_.
     and_then (assert_staking_pool_is_idle c) (\<lambda>_.
     request_to_pool (''Unstaking {} from the staking pool @'' @ ''{}'') (Some amount) (\<lambda>pool. Pool_Unstake pool amount) c))))"

definition unstake_all :: "env \<Rightarrow> lockup \<Rightarrow> lockup res" where
  "unstake_all e c =
     and_then (lockup_assert_owner e c) (\<lambda>_.
     and_then (assert_one_yocto e) (\<lambda>_.
     and_then (assert_staking_pool_is_idle c) (\<lambda>_.
     request_to_pool (''Unstaking all tokens from the staking pool @'' @ ''{}'') None Pool_Unstake_All c)))"

definition lockup_transfer :: "(account_id \<Rightarrow> bool) \<Rightarrow> env \<Rightarrow> nat \<Rightarrow> account_id \<Rightarrow> lockup \<Rightarrow> lockup res" where
  "lockup_transfer valid e amount receiver c =
     and_then (lockup_assert_owner e c) (\<lambda>_.
     and_then (assert_one_yocto e) (\<lambda>_.
     and_then (require (0 < amount) ''Amount should be positive'') (\<lambda>_.
     and_then (require (valid receiver) ''The receiver account ID is invalid'') (\<lambda>_.
     and_then (assert_no_staking_or_idle c) (\<lambda>_.
     and_then (require (amount \<le> get_liquid_owners_balance e c)
       ''The available liquid balance is smaller than the requested transfer amount'') (\<lambda>_.
     and_then (venear_liquid_balance e c) (\<lambda>liquid.
     and_then (require (amount \<le> liquid)
       ''The available liquid balance is smaller than the requested transfer amount'') (\<lambda>_.
     let c1 = lockup_emit (Lockup_Log (''Transferring {} to account @'' @ ''{}'') (Some amount) (Some receiver)) c
     in Inr (lockup_emit (Send receiver amount) c1)))))))))"

definition delete_lockup :: "env \<Rightarrow> lockup \<Rightarrow> lockup res" where
  "delete_lockup e c =
     and_then (lockup_assert_owner e c) (\<lambda>_.
     and_then (assert_one_yocto e) (\<lambda>_.
     and_then (assert_no_staking_or_idle c) (\<lambda>_.
     and_then (require (get_known_deposited_balance c = 0)
       ''Can't delete account with non-zero staked NEAR balance'') (\<lambda>_.
     and_then (require (lk_venear_locked_balance c = 0)
       ''Can't delete account with non-zero locked venear balance'') (\<lambda>_.
     and_then (require (lk_venear_pending_balance c = 0)
       ''Can't delete account with non-zero pending venear balance'') (\<lambda>_.
     let c1 = lockup_emit (Lockup_Event ''lockup_delete'' (predecessor e) (lk_version c)
           (Some (lk_lockup_update_nonce c)) None None) c
     in Inr (lockup_emit (Delete_Account (lk_owner_account_id c1)) c1)))))))"

section \<open>Callbacks (\<open>owner_callbacks.rs\<close>)\<close>

text \<open>\<open>ok\<close> is the success of the promise; a callback argument is \<open>None\<close> if the promise failed.\<close>

definition set_deposit_amount :: "(nat \<Rightarrow> nat res) \<Rightarrow> lockup \<Rightarrow> lockup res" where
  "set_deposit_amount f c =
     and_then (unwrap (lk_staking_information c)) (\<lambda>s.
     and_then (f (si_deposit_amount s)) (\<lambda>n.
     Inr (c\<lparr>lk_staking_information := Some (s\<lparr>si_deposit_amount := n\<rparr>)\<rparr>)))"

definition log_at_pool :: "string \<Rightarrow> nat option \<Rightarrow> lockup \<Rightarrow> lockup res" where
  "log_at_pool log amount c =
     and_then (unwrap (lk_staking_information c)) (\<lambda>s.
     Inr (lockup_emit (Lockup_Log log amount (Some (si_staking_pool_account_id s))) c))"

definition on_whitelist_is_whitelisted :: "env \<Rightarrow> bool option \<Rightarrow> account_id \<Rightarrow> lockup \<Rightarrow> lockup res" where
  "on_whitelist_is_whitelisted e result pool c =
     and_then (assert_no_deposit e ''on_whitelist_is_whitelisted'') (\<lambda>_.
     and_then (assert_private e ''on_whitelist_is_whitelisted'') (\<lambda>_.
     and_then (expect result ''Callback computation 0 was not successful'') (\<lambda>is_whitelisted.
     and_then (require is_whitelisted ''The given staking pool account ID is not whitelisted'') (\<lambda>_.
     and_then (assert_staking_pool_is_not_selected c) (\<lambda>_.
     Inr (c\<lparr>lk_staking_information := Some \<lparr>si_staking_pool_account_id = pool, si_status = Idle,
       si_deposit_amount = 0\<rparr>\<rparr>))))))"

definition on_staking_pool_deposit_inner :: "nat \<Rightarrow> bool \<Rightarrow> lockup \<Rightarrow> lockup res" where
  "on_staking_pool_deposit_inner amount ok c =
     and_then (set_staking_pool_status Idle c) (\<lambda>c1.
     if ok
     then and_then (set_deposit_amount (\<lambda>d. add_u 128 d amount) c1) (log_at_pool (''The deposit of {} to @'' @ ''{} succeeded'') (Some amount))
     else log_at_pool (''The deposit of {} to @'' @ ''{} has failed'') (Some amount) c1)"

definition on_staking_pool_deposit :: "env \<Rightarrow> nat \<Rightarrow> bool \<Rightarrow> lockup \<Rightarrow> lockup res" where
  "on_staking_pool_deposit e amount ok c =
     and_then (assert_no_deposit e ''on_staking_pool_deposit'') (\<lambda>_.
     and_then (assert_private e ''on_staking_pool_deposit'') (\<lambda>_.
     on_staking_pool_deposit_inner amount ok c))"

definition on_staking_pool_deposit_and_stake :: "env \<Rightarrow> nat \<Rightarrow> bool \<Rightarrow> lockup \<Rightarrow> lockup res" where
  "on_staking_pool_deposit_and_stake e amount ok c =
     and_then (assert_no_deposit e ''on_staking_pool_deposit_and_stake'') (\<lambda>_.
     and_then (assert_private e ''on_staking_pool_deposit_and_stake'') (\<lambda>_.
     and_then (set_staking_pool_status Idle c) (\<lambda>c1.
     if ok
     then and_then (set_deposit_amount (\<lambda>d. add_u 128 d amount) c1)
       (log_at_pool (''The deposit and stake of {} to @'' @ ''{} succeeded'') (Some amount))
     else log_at_pool (''The deposit and stake of {} to @'' @ ''{} has failed'') (Some amount) c1)))"

definition on_staking_pool_withdraw_inner :: "nat \<Rightarrow> bool \<Rightarrow> lockup \<Rightarrow> lockup res" where
  "on_staking_pool_withdraw_inner amount ok c =
     and_then (set_staking_pool_status Idle c) (\<lambda>c1.
     if ok
     then and_then (set_deposit_amount (\<lambda>d. Inr (saturating_sub d amount)) c1)
       (log_at_pool (''The withdrawal of {} from @'' @ ''{} succeeded'') (Some amount))
     else log_at_pool (''The withdrawal of {} from @'' @ ''{} failed'') (Some amount) c1)"

definition on_staking_pool_withdraw :: "env \<Rightarrow> nat \<Rightarrow> bool \<Rightarrow> lockup \<Rightarrow> lockup res" where
  "on_staking_pool_withdraw e amount ok c =
     and_then (assert_no_deposit e ''on_staking_pool_withdraw'') (\<lambda>_.
     and_then (assert_private e ''on_staking_pool_withdraw'') (\<lambda>_.
     on_staking_pool_withdraw_inner amount ok c))"

definition on_staking_pool_stake_inner :: "nat \<Rightarrow> bool \<Rightarrow> lockup \<Rightarrow> lockup res" where
  "on_staking_pool_stake_inner amount ok c =
     and_then (set_staking_pool_status Idle c)
     (log_at_pool (if ok then (''Staking of {} at @'' @ ''{} succeeded'') else (''Staking {} at @'' @ ''{} has failed'')) (Some amount))"

definition on_staking_pool_stake :: "env \<Rightarrow> nat \<Rightarrow> bool \<Rightarrow> lockup \<Rightarrow> lockup res" where
  "on_staking_pool_stake e amount ok c =
     and_then (assert_no_deposit e ''on_staking_pool_stake'') (\<lambda>_.
     and_then (assert_private e ''on_staking_pool_stake'') (\<lambda>_.
     on_staking_pool_stake_inner amount ok c))"

definition on_staking_pool_unstake_inner :: "nat \<Rightarrow> bool \<Rightarrow> lockup \<Rightarrow> lockup res" where
  "on_staking_pool_unstake_inner amount ok c =
     and_then (set_staking_pool_status Idle c)
     (log_at_pool (if ok then (''Unstaking of {} at @'' @ ''{} succeeded'') else (''Unstaking {} at @'' @ ''{} has failed'')) (Some amount))"

definition on_staking_pool_unstake :: "env \<Rightarrow> nat \<Rightarrow> bool \<Rightarrow> lockup \<Rightarrow> lockup res" where
  "on_staking_pool_unstake e amount ok c =
     and_then (assert_no_deposit e ''on_staking_pool_unstake'') (\<lambda>_.
     and_then (assert_private e ''on_staking_pool_unstake'') (\<lambda>_.
     on_staking_pool_unstake_inner amount ok c))"

definition on_staking_pool_unstake_all :: "env \<Rightarrow> bool \<Rightarrow> lockup \<Rightarrow> lockup res" where
  "on_staking_pool_unstake_all e ok c =
     and_then (assert_no_deposit e ''on_staking_pool_unstake_all'') (\<lambda>_.
     and_then (assert_private e ''on_staking_pool_unstake_all'') (\<lambda>_.
     and_then (set_staking_pool_status Idle c)
     (log_at_pool (if ok then (''Unstaking all at @'' @ ''{} succeeded'') else (''Unstaking all at @'' @ ''{} has failed'')) None)))"

definition on_get_account_total_balance :: "env \<Rightarrow> nat option \<Rightarrow> lockup \<Rightarrow> lockup res" where
  "on_get_account_total_balance e result c =
     and_then (assert_no_deposit e ''on_get_account_total_balance'') (\<lambda>_.
     and_then (assert_private e ''on_get_account_total_balance'') (\<lambda>_.
     and_then (expect result ''Callback computation 0 was not successful'') (\<lambda>total_balance.
     and_then (set_staking_pool_status Idle c) (\<lambda>c1.
     set_deposit_amount (\<lambda>_. Inr total_balance)
       (lockup_emit (Lockup_Log ''The current total balance on the staking pool is {}'' (Some total_balance) None) c1)))))"

definition on_get_account_unstaked_balance_to_withdraw_by_owner :: "env \<Rightarrow> nat option \<Rightarrow> lockup \<Rightarrow> lockup res" where
  "on_get_account_unstaked_balance_to_withdraw_by_owner e result c =
     and_then (assert_no_deposit e ''on_get_account_unstaked_balance_to_withdraw_by_owner'') (\<lambda>_.
     and_then (assert_private e ''on_get_account_unstaked_balance_to_withdraw_by_owner'') (\<lambda>_.
     and_then (expect result ''Callback computation 0 was not successful'') (\<lambda>unstaked_balance.
     if 0 < unstaked_balance
     then and_then (unwrap (lk_staking_information c)) (\<lambda>s.
          let c1 = lockup_emit (Lockup_Log (''Withdrawing {} from the staking pool @'' @ ''{}'') (Some unstaked_balance)
                (Some (si_staking_pool_account_id s))) c
          in Inr (lockup_emit (Pool_Withdraw (si_staking_pool_account_id s) unstaked_balance) c1))
     else set_staking_pool_status Idle
       (lockup_emit (Lockup_Log ''No unstaked balance on the staking pool to withdraw'' None None) c))))"

end
