(* ===== verification/Lockup_World.thy ===== *)
theory Lockup_World
  imports Lockup
begin

text \<open>
  The lockup contract in its environment: the balance of its account, the clock, the selected staking
  pool with what it holds for the account, the request to the pool that is under way, and the NEAR that the
  pool or the runtime has sent to the account and that has not arrived. A staking pool is assumed to do what its
  interface documents: it credits a deposit or lets it be refunded, pays a withdrawal out of what it holds
  and reports its holdings; rewards only add to them. A payment or refund is a receipt of its own: it arrives
  before or after the callback of the request, and the owner may call the contract in between.

  While a withdrawal is paid and its callback has not run, the contract still counts the amount as a deposit. Locking
  NEAR then counts it twice. \<open>lw_double\<close> records, for the specification only, the largest amount that was counted twice
  when NEAR was locked; the invariant bounds what is locked without backing by it.
\<close>

section \<open>Calls\<close>

datatype lockup_msg =
    Lock_Near "nat option" | Begin_Unlock_Near "nat option" | End_Unlock_Near "nat option" | Lock_Pending_Near "nat option"
  | Select_Staking_Pool account_id | Unselect_Staking_Pool
  | Deposit_To_Staking_Pool nat | Deposit_And_Stake nat | Refresh_Staking_Pool_Balance
  | Withdraw_From_Staking_Pool nat | Withdraw_All_From_Staking_Pool
  | Stake nat | Unstake nat | Unstake_All
  | Transfer_Near nat account_id

fun lockup_exec :: "(account_id \<Rightarrow> bool) \<Rightarrow> env \<Rightarrow> lockup_msg \<Rightarrow> lockup \<Rightarrow> lockup res" where
  "lockup_exec valid e (Lock_Near n) c = lock_near e n c"
| "lockup_exec valid e (Begin_Unlock_Near n) c = begin_unlock_near e n c"
| "lockup_exec valid e (End_Unlock_Near n) c = end_unlock_near e n c"
| "lockup_exec valid e (Lock_Pending_Near n) c = lock_pending_near e n c"
| "lockup_exec valid e (Select_Staking_Pool p) c = select_staking_pool valid e p c"
| "lockup_exec valid e Unselect_Staking_Pool c = unselect_staking_pool e c"
| "lockup_exec valid e (Deposit_To_Staking_Pool n) c = deposit_to_staking_pool e n c"
| "lockup_exec valid e (Deposit_And_Stake n) c = deposit_and_stake e n c"
| "lockup_exec valid e Refresh_Staking_Pool_Balance c = refresh_staking_pool_balance e c"
| "lockup_exec valid e (Withdraw_From_Staking_Pool n) c = withdraw_from_staking_pool e n c"
| "lockup_exec valid e Withdraw_All_From_Staking_Pool c = withdraw_all_from_staking_pool e c"
| "lockup_exec valid e (Stake n) c = stake e n c"
| "lockup_exec valid e (Unstake n) c = unstake e n c"
| "lockup_exec valid e Unstake_All c = unstake_all e c"
| "lockup_exec valid e (Transfer_Near n x) c = lockup_transfer valid e n x c"

lemmas lockup_guards = lockup_assert_owner_def assert_staking_pool_is_idle_def assert_no_staking_or_idle_def
  assert_staking_pool_is_not_selected_def get_account_balance_def get_liquid_owners_balance_def

lemmas lockup_defs = lock_near_def begin_unlock_near_def end_unlock_near_def lock_pending_near_def select_staking_pool_def
  unselect_staking_pool_def deposit_to_staking_pool_def deposit_and_stake_def refresh_staking_pool_balance_def
  withdraw_from_staking_pool_def withdraw_all_from_staking_pool_def stake_def unstake_def unstake_all_def lockup_transfer_def
  venear_lockup_update_def set_venear_unlock_timestamp_def request_to_pool_def set_staking_pool_status_def lockup_emit_def Let_def

section \<open>Money and requests\<close>

datatype pool_request = Deposit_Request nat | Deposit_Failed nat | Withdraw_Request nat | Withdraw_Paid nat
  | Total_Request | Unstaked_Request | Other_Request

text \<open>What an effect takes out of the account, and the answer it waits for.\<close>

fun takes :: "lockup_effect \<Rightarrow> nat" where
  "takes (Pool_Deposit _ n) = n"
| "takes (Pool_Deposit_And_Stake _ n) = n"
| "takes (Send _ n) = n"
| "takes _ = 0"

fun asks :: "lockup_effect \<Rightarrow> pool_request option" where
  "asks (Pool_Deposit _ n) = Some (Deposit_Request n)"
| "asks (Pool_Deposit_And_Stake _ n) = Some (Deposit_Request n)"
| "asks (Pool_Withdraw _ n) = Some (Withdraw_Request n)"
| "asks (Pool_Get_Total _) = Some Total_Request"
| "asks (Pool_Get_Unstaked _) = Some Unstaked_Request"
| "asks (Pool_Stake _ _) = Some Other_Request"
| "asks (Pool_Unstake _ _) = Some Other_Request"
| "asks (Pool_Unstake_All _) = Some Other_Request"
| "asks _ = None"

definition news :: "lockup \<Rightarrow> lockup \<Rightarrow> lockup_effect list" where
  "news c c' = drop (length (lk_outbox c)) (lk_outbox c')"

definition taken :: "lockup_effect list \<Rightarrow> nat" where
  "taken xs = sum_list (map takes xs)"

definition asked :: "lockup_effect list \<Rightarrow> pool_request option \<Rightarrow> pool_request option" where
  "asked xs r = foldl (\<lambda>r x. case asks x of None \<Rightarrow> r | Some q \<Rightarrow> Some q) r xs"

lemma news_append [simp]: "lk_outbox c' = lk_outbox c @ xs \<Longrightarrow> news c c' = xs"
  by (simp add: news_def)

lemma taken_simps [simp]: "taken [] = 0" "taken (x # xs) = takes x + taken xs"
  by (simp_all add: taken_def)

lemma asked_simps [simp]: "asked [] r = r" "asked (x # xs) r = asked xs (case asks x of None \<Rightarrow> r | Some q \<Rightarrow> Some q)"
  by (simp_all add: asked_def)

fun in_flight :: "pool_request option \<Rightarrow> nat" where
  "in_flight (Some (Deposit_Request n)) = n"
| "in_flight _ = 0"

text \<open>What the pool has paid while the contract waits for the callback of the withdrawal.\<close>

fun unconfirmed :: "pool_request option \<Rightarrow> nat" where
  "unconfirmed (Some (Withdraw_Paid n)) = n"
| "unconfirmed _ = 0"

section \<open>Transitions\<close>

record lockup_world =
  lw_contract :: lockup
  lw_balance :: nat
  lw_clock :: nat
  lw_pool :: nat
  lw_request :: "pool_request option"
  lw_incoming :: nat
  lw_double :: nat

text \<open>The part of the known deposit that the pool has already paid out.\<close>

definition counted_twice :: "lockup_world \<Rightarrow> nat" where
  "counted_twice w = min (unconfirmed (lw_request w)) (get_known_deposited_balance (lw_contract w))"

fun locks_more :: "lockup_msg \<Rightarrow> bool" where
  "locks_more (Lock_Near _) = True"
| "locks_more _ = False"

inductive lockup_step :: "(account_id \<Rightarrow> bool) \<Rightarrow> lockup_world \<Rightarrow> lockup_world \<Rightarrow> bool" for valid where
  call: "lw_clock w \<le> block_timestamp e \<Longrightarrow> account_balance e = lw_balance w + attached_deposit e
    \<Longrightarrow> lockup_exec valid e m (lw_contract w) = Inr c'
    \<Longrightarrow> lockup_step valid w (w\<lparr>lw_contract := c', lw_balance := account_balance e - taken (news (lw_contract w) c'),
          lw_clock := block_timestamp e, lw_request := asked (news (lw_contract w) c') (lw_request w),
          lw_double := if locks_more m then max (lw_double w) (counted_twice w) else lw_double w\<rparr>)"
| receive: "lockup_step valid w (w\<lparr>lw_balance := lw_balance w + n\<rparr>)"
| arrives: "n \<le> lw_incoming w
    \<Longrightarrow> lockup_step valid w (w\<lparr>lw_balance := lw_balance w + n, lw_incoming := lw_incoming w - n\<rparr>)"
| reward: "lockup_step valid w (w\<lparr>lw_pool := lw_pool w + n\<rparr>)"
| whitelisted: "on_whitelist_is_whitelisted e result p (lw_contract w) = Inr c'
    \<Longrightarrow> lockup_step valid w (w\<lparr>lw_contract := c', lw_pool := n\<rparr>)"
| deposited: "lw_request w = Some (Deposit_Request n)
    \<Longrightarrow> on_staking_pool_deposit e n True (lw_contract w) = Inr c' \<or> on_staking_pool_deposit_and_stake e n True (lw_contract w) = Inr c'
    \<Longrightarrow> lockup_step valid w (w\<lparr>lw_contract := c', lw_pool := lw_pool w + n, lw_request := None\<rparr>)"
| deposit_fails: "lw_request w = Some (Deposit_Request n)
    \<Longrightarrow> lockup_step valid w (w\<lparr>lw_request := Some (Deposit_Failed n), lw_incoming := lw_incoming w + n\<rparr>)"
| not_deposited: "lw_request w = Some (Deposit_Failed n)
    \<Longrightarrow> on_staking_pool_deposit e n False (lw_contract w) = Inr c' \<or> on_staking_pool_deposit_and_stake e n False (lw_contract w) = Inr c'
    \<Longrightarrow> lockup_step valid w (w\<lparr>lw_contract := c', lw_request := None\<rparr>)"
| pool_pays: "lw_request w = Some (Withdraw_Request n) \<Longrightarrow> n \<le> lw_pool w
    \<Longrightarrow> lockup_step valid w (w\<lparr>lw_pool := lw_pool w - n, lw_request := Some (Withdraw_Paid n), lw_incoming := lw_incoming w + n\<rparr>)"
| withdrawn: "lw_request w = Some (Withdraw_Paid n) \<Longrightarrow> on_staking_pool_withdraw e n True (lw_contract w) = Inr c'
    \<Longrightarrow> lockup_step valid w (w\<lparr>lw_contract := c', lw_request := None\<rparr>)"
| not_withdrawn: "lw_request w = Some (Withdraw_Request n) \<Longrightarrow> on_staking_pool_withdraw e n False (lw_contract w) = Inr c'
    \<Longrightarrow> lockup_step valid w (w\<lparr>lw_contract := c', lw_request := None\<rparr>)"
| total_known: "lw_request w = Some Total_Request \<Longrightarrow> on_get_account_total_balance e (Some (lw_pool w)) (lw_contract w) = Inr c'
    \<Longrightarrow> lockup_step valid w (w\<lparr>lw_contract := c', lw_request := None\<rparr>)"
| unstaked_known: "lw_request w = Some Unstaked_Request \<Longrightarrow> n \<le> lw_pool w
    \<Longrightarrow> on_get_account_unstaked_balance_to_withdraw_by_owner e (Some n) (lw_contract w) = Inr c'
    \<Longrightarrow> lockup_step valid w (w\<lparr>lw_contract := c', lw_request := asked (news (lw_contract w) c') None\<rparr>)"
| other_done: "lw_request w = Some Other_Request
    \<Longrightarrow> on_staking_pool_stake e n ok (lw_contract w) = Inr c' \<or> on_staking_pool_unstake e n ok (lw_contract w) = Inr c'
        \<or> on_staking_pool_unstake_all e ok (lw_contract w) = Inr c'
    \<Longrightarrow> lockup_step valid w (w\<lparr>lw_contract := c', lw_request := None\<rparr>)"
| query_failed: "lw_request w = Some Total_Request \<or> lw_request w = Some Unstaked_Request
    \<Longrightarrow> lockup_step valid w (w\<lparr>lw_request := None\<rparr>)"

inductive_cases lockup_stepE: "lockup_step valid w w'"

definition lockup_init :: "lockup_world \<Rightarrow> bool" where
  "lockup_init w \<longleftrightarrow> (\<exists>e owner venear d wl v n m. lockup_new e owner venear d wl v n m = Inr (lw_contract w)
     \<and> lw_balance w = account_balance e \<and> lw_clock w = block_timestamp e) \<and> lw_request w = None
     \<and> lw_incoming w = 0 \<and> lw_double w = 0"

definition lockup_reaches :: "(account_id \<Rightarrow> bool) \<Rightarrow> lockup_world \<Rightarrow> bool" where
  "lockup_reaches valid w \<longleftrightarrow> (\<exists>w0. lockup_init w0 \<and> (lockup_step valid)\<^sup>*\<^sup>* w0 w)"

section \<open>Invariant\<close>

definition lockup_backed :: "lockup_world \<Rightarrow> bool" where
  "lockup_backed w \<longleftrightarrow> lk_venear_locked_balance (lw_contract w) + lk_venear_pending_balance (lw_contract w) + counted_twice w
     \<le> lw_balance w + lw_incoming w + get_known_deposited_balance (lw_contract w) + in_flight (lw_request w) + lw_double w"

definition pool_ok :: "lockup_world \<Rightarrow> bool" where
  "pool_ok w \<longleftrightarrow> get_known_deposited_balance (lw_contract w) \<le> lw_pool w + unconfirmed (lw_request w)"

definition width_ok :: "lockup_world \<Rightarrow> bool" where
  "width_ok w \<longleftrightarrow> lk_venear_locked_balance (lw_contract w) + lk_venear_pending_balance (lw_contract w) < 2 ^ 128"

definition busy_ok :: "lockup_world \<Rightarrow> bool" where
  "busy_ok w \<longleftrightarrow> (lw_request w \<noteq> None \<longrightarrow> (\<exists>s. lk_staking_information (lw_contract w) = Some s \<and> si_status s = Busy))"

definition reserve_ok :: "lockup_world \<Rightarrow> bool" where
  "reserve_ok w \<longleftrightarrow> lk_min_lockup_deposit (lw_contract w) \<le> lw_balance w"

definition unlock_ok :: "lockup_world \<Rightarrow> bool" where
  "unlock_ok w \<longleftrightarrow> lk_venear_unlock_timestamp (lw_contract w) \<le> lw_clock w + lk_unlock_duration_ns (lw_contract w)"

definition held :: "lockup \<Rightarrow> nat" where
  "held c = lk_venear_locked_balance c + lk_venear_pending_balance c"

text \<open>The updates for the veNEAR contract, oldest first.\<close>

fun update_of :: "lockup_effect \<Rightarrow> lockup_update_v1 list" where
  "update_of (Venear_Update _ _ _ (VLockupUpdate_V1 u)) = [u]"
| "update_of _ = []"

definition updates :: "lockup \<Rightarrow> lockup_update_v1 list" where
  "updates c = concat (map update_of (lk_outbox c))"

definition updates_ok :: "lockup \<Rightarrow> bool" where
  "updates_ok c \<longleftrightarrow> sorted_wrt (<) (map lu_nonce (updates c)) \<and> (\<forall>u \<in> set (updates c). lu_nonce u \<le> lk_lockup_update_nonce c)
     \<and> (if updates c = [] then lk_venear_locked_balance c = 0
        else lu_nonce (last (updates c)) = lk_lockup_update_nonce c
          \<and> locked_near_balance (last (updates c)) = lk_venear_locked_balance c)"

definition lockup_world_inv :: "lockup_world \<Rightarrow> bool" where
  "lockup_world_inv w \<longleftrightarrow> lockup_backed w \<and> pool_ok w \<and> width_ok w \<and> busy_ok w \<and> reserve_ok w \<and> unlock_ok w
     \<and> updates_ok (lw_contract w)"

lemmas lockup_inv_defs = lockup_world_inv_def lockup_backed_def pool_ok_def width_ok_def busy_ok_def reserve_ok_def unlock_ok_def
  counted_twice_def

text \<open>What a call does, by kind: it changes the amounts and tells the veNEAR contract, or it deals with the pool, or it pays.\<close>

definition told :: "env \<Rightarrow> lockup \<Rightarrow> lockup_effect" where
  "told e c = Venear_Update (lk_venear_account_id c) (lk_version c) (lk_owner_account_id c)
     (VLockupUpdate_V1 \<lparr>locked_near_balance = lk_venear_locked_balance c, lu_timestamp = block_timestamp e,
        lu_nonce = lk_lockup_update_nonce c\<rparr>)"

inductive lockup_call :: "env \<Rightarrow> lockup \<Rightarrow> lockup \<Rightarrow> bool" for e c where
  amounts: "c' = c\<lparr>lk_venear_locked_balance := l, lk_venear_pending_balance := p, lk_venear_unlock_timestamp := t,
      lk_lockup_update_nonce := lk_lockup_update_nonce c + 1, lk_outbox := lk_outbox c @ xs @ [told e (c\<lparr>lk_venear_locked_balance := l,
        lk_lockup_update_nonce := lk_lockup_update_nonce c + 1\<rparr>)]\<rparr>
    \<Longrightarrow> taken xs = 0 \<Longrightarrow> (\<forall>r. asked xs r = r) \<Longrightarrow> concat (map update_of xs) = []
    \<Longrightarrow> t = lk_venear_unlock_timestamp c \<and> lk_venear_locked_balance c \<le> l
          \<and> (lk_venear_locked_balance c + lk_venear_pending_balance c \<le> l + p \<or> lk_venear_unlock_timestamp c \<le> block_timestamp e)
        \<or> t = block_timestamp e + lk_unlock_duration_ns c \<and> l + p = lk_venear_locked_balance c + lk_venear_pending_balance c
    \<Longrightarrow> l + p \<le> lk_venear_locked_balance c + lk_venear_pending_balance c
        \<or> l + p \<le> account_balance e + get_known_deposited_balance c \<and> account_balance e + get_known_deposited_balance c < 2 ^ 128
    \<Longrightarrow> lockup_call e c c'"
| request: "lk_staking_information c = Some s \<Longrightarrow> si_status s = Idle
    \<Longrightarrow> c' = c\<lparr>lk_staking_information := Some (s\<lparr>si_status := Busy\<rparr>), lk_outbox := lk_outbox c @ [x, y]\<rparr>
    \<Longrightarrow> takes x = 0 \<Longrightarrow> asks x = None \<Longrightarrow> asks y = Some r \<Longrightarrow> takes y = in_flight (Some r)
    \<Longrightarrow> takes y = 0 \<or> takes y + lk_min_lockup_deposit c \<le> account_balance e \<Longrightarrow> update_of x = [] \<Longrightarrow> update_of y = []
    \<Longrightarrow> lockup_call e c c'"
| other: "c' = c\<lparr>lk_staking_information := s, lk_outbox := lk_outbox c @ xs\<rparr>
    \<Longrightarrow> (\<forall>r. asked xs r = r) \<Longrightarrow> concat (map update_of xs) = []
    \<Longrightarrow> s = lk_staking_information c \<or> s = None \<and> (\<exists>i. lk_staking_information c = Some i \<and> si_status i = Idle \<and> si_deposit_amount i = 0)
    \<Longrightarrow> taken xs = 0 \<or> (\<forall>i. lk_staking_information c = Some i \<longrightarrow> si_status i = Idle) \<and> taken xs + lk_min_lockup_deposit c \<le> account_balance e
         \<and> taken xs + lk_venear_locked_balance c + lk_venear_pending_balance c \<le> account_balance e + get_known_deposited_balance c
    \<Longrightarrow> lockup_call e c c'"

lemma liquid_eq:
  "venear_liquid_balance e c = Inr n \<longleftrightarrow> account_balance e + get_known_deposited_balance c < 2 ^ 128
     \<and> lk_venear_locked_balance c + lk_venear_pending_balance c + n = account_balance e + get_known_deposited_balance c"
  by (auto simp: venear_liquid_balance_def res_simps split: if_splits)

lemma lockup_exec_owner:
  assumes "lockup_exec valid e m c = Inr c'"
  shows "predecessor e = lk_owner_account_id c \<and> attached_deposit e = 1"
  using assms by (cases m) (auto simp: lockup_defs lockup_guards and_then_eq_Inr require_eq_Inr assert_one_yocto_Inr)

text \<open>The four methods that change the amounts, as equations.\<close>

definition amounts_set :: "env \<Rightarrow> nat \<Rightarrow> nat \<Rightarrow> nat \<Rightarrow> lockup_effect list \<Rightarrow> lockup \<Rightarrow> lockup" where
  "amounts_set e l p t xs c = c\<lparr>lk_venear_locked_balance := l, lk_venear_pending_balance := p, lk_venear_unlock_timestamp := t,
      lk_lockup_update_nonce := lk_lockup_update_nonce c + 1, lk_outbox := lk_outbox c @ xs @ [told e (c\<lparr>lk_venear_locked_balance := l,
        lk_lockup_update_nonce := lk_lockup_update_nonce c + 1\<rparr>)]\<rparr>"

lemma lock_near_Inr:
  assumes "lock_near e a c = Inr c'"
  obtains n where "lk_venear_locked_balance c + lk_venear_pending_balance c + n \<le> account_balance e + get_known_deposited_balance c"
    "account_balance e + get_known_deposited_balance c < 2 ^ 128"
    "c' = amounts_set e (lk_venear_locked_balance c + n) (lk_venear_pending_balance c) (lk_venear_unlock_timestamp c)
       [Lockup_Event ''lockup_lock_near'' (current_account e) (lk_version c)
           (Some (lk_lockup_update_nonce c)) (Some (block_timestamp e)) (Some n)] c"
proof -
  define n where "n = (case a of Some n \<Rightarrow> n | None \<Rightarrow>
    account_balance e + get_known_deposited_balance c - (lk_venear_locked_balance c + lk_venear_pending_balance c))"
  have "lk_venear_locked_balance c + lk_venear_pending_balance c + n \<le> account_balance e + get_known_deposited_balance c
    \<and> account_balance e + get_known_deposited_balance c < 2 ^ 128
    \<and> c' = amounts_set e (lk_venear_locked_balance c + n) (lk_venear_pending_balance c) (lk_venear_unlock_timestamp c)
       [Lockup_Event ''lockup_lock_near'' (current_account e) (lk_version c)
           (Some (lk_lockup_update_nonce c)) (Some (block_timestamp e)) (Some n)] c"
  proof (cases a)
    case None
    then obtain x where "venear_liquid_balance e c = Inr x" using assms by (auto simp: lock_near_def res_simps)
    moreover from this have "n = x" by (auto simp: n_def None liquid_eq)
    ultimately show ?thesis using assms None by (auto simp: lockup_defs res_simps told_def amounts_set_def liquid_eq)
  next
    case (Some k)
    then show ?thesis using assms by (auto simp: n_def lockup_defs res_simps told_def amounts_set_def liquid_eq)
  qed
  then show thesis using that by blast
qed

lemma begin_unlock_Inr:
  assumes "begin_unlock_near e a c = Inr c'"
  defines "n \<equiv> (case a of Some n \<Rightarrow> n | None \<Rightarrow> lk_venear_locked_balance c)"
  shows "n \<le> lk_venear_locked_balance c" and "c' = amounts_set e (lk_venear_locked_balance c - n) (lk_venear_pending_balance c + n)
    (block_timestamp e + lk_unlock_duration_ns c) [] c"
  using assms by (auto simp: lockup_defs res_simps told_def amounts_set_def)

lemma end_unlock_Inr:
  assumes "end_unlock_near e a c = Inr c'"
  defines "n \<equiv> (case a of Some n \<Rightarrow> n | None \<Rightarrow> lk_venear_pending_balance c)"
  shows "n \<le> lk_venear_pending_balance c" and "lk_venear_unlock_timestamp c \<le> block_timestamp e"
    and "c' = amounts_set e (lk_venear_locked_balance c) (lk_venear_pending_balance c - n) (lk_venear_unlock_timestamp c) [] c"
  using assms by (auto simp: lockup_defs res_simps told_def amounts_set_def)

lemma lock_pending_Inr:
  assumes "lock_pending_near e a c = Inr c'"
  defines "n \<equiv> (case a of Some n \<Rightarrow> n | None \<Rightarrow> lk_venear_pending_balance c)"
  shows "n \<le> lk_venear_pending_balance c" and "c' = amounts_set e (lk_venear_locked_balance c + n) (lk_venear_pending_balance c - n)
    (lk_venear_unlock_timestamp c) [] c"
  using assms by (auto simp: lockup_defs res_simps told_def amounts_set_def)

text \<open>A request to the pool: the contract was idle and is busy now.\<close>

lemma idle_Inr: "assert_staking_pool_is_idle c = Inr u \<longleftrightarrow> (\<exists>s. lk_staking_information c = Some s \<and> si_status s = Idle)"
  by (cases "lk_staking_information c") (auto simp: assert_staking_pool_is_idle_def split: transaction_status.split)

lemma no_staking_or_idle_Inr:
  "assert_no_staking_or_idle c = Inr u \<longleftrightarrow> (\<forall>s. lk_staking_information c = Some s \<longrightarrow> si_status s = Idle)"
  by (cases "lk_staking_information c") (auto simp: assert_no_staking_or_idle_def split: transaction_status.split)

lemma request_Inr:
  assumes "request_to_pool log a call c = Inr c'"
  obtains s where "lk_staking_information c = Some s" "c' = c\<lparr>lk_staking_information := Some (s\<lparr>si_status := Busy\<rparr>),
    lk_outbox := lk_outbox c @ [Lockup_Log log a (Some (si_staking_pool_account_id s)), call (si_staking_pool_account_id s)]\<rparr>"
  using assms by (auto simp: request_to_pool_def set_staking_pool_status_def lockup_emit_def res_simps Let_def)

lemma request_call:
  assumes "request_to_pool log a call c = Inr c'" and "assert_staking_pool_is_idle c = Inr u"
    and "\<And>x. \<exists>r. asks (call x) = Some r \<and> takes (call x) = in_flight (Some r)
        \<and> (takes (call x) = 0 \<or> takes (call x) + lk_min_lockup_deposit c \<le> account_balance e) \<and> update_of (call x) = []"
  shows "lockup_call e c c'"
proof -
  obtain s where s: "lk_staking_information c = Some s" "c' = c\<lparr>lk_staking_information := Some (s\<lparr>si_status := Busy\<rparr>),
    lk_outbox := lk_outbox c @ [Lockup_Log log a (Some (si_staking_pool_account_id s)), call (si_staking_pool_account_id s)]\<rparr>"
    using request_Inr [OF assms(1)] by blast
  obtain r where r: "asks (call (si_staking_pool_account_id s)) = Some r" "takes (call (si_staking_pool_account_id s)) = in_flight (Some r)"
    "takes (call (si_staking_pool_account_id s)) = 0 \<or> takes (call (si_staking_pool_account_id s)) + lk_min_lockup_deposit c \<le> account_balance e"
    "update_of (call (si_staking_pool_account_id s)) = []"
    using assms(3) by blast
  show ?thesis by (rule lockup_call.request [OF s(1) _ s(2) _ _ r(1-3) _ r(4)]) (use assms(2) s(1) in \<open>auto simp: idle_Inr\<close>)
qed

lemma lockup_exec_call:
  assumes "lockup_exec valid e m c = Inr c'"
  shows "lockup_call e c c'"
proof (cases m)
  case (Lock_Near a)
  then have "lock_near e a c = Inr c'" using assms by simp
  then show ?thesis
  proof (rule lock_near_Inr)
    fix n
    assume n: "lk_venear_locked_balance c + lk_venear_pending_balance c + n \<le> account_balance e + get_known_deposited_balance c"
      and b: "account_balance e + get_known_deposited_balance c < 2 ^ 128"
      and c': "c' = amounts_set e (lk_venear_locked_balance c + n) (lk_venear_pending_balance c) (lk_venear_unlock_timestamp c)
       [Lockup_Event ''lockup_lock_near'' (current_account e) (lk_version c)
           (Some (lk_lockup_update_nonce c)) (Some (block_timestamp e)) (Some n)] c"
    show ?thesis by (rule lockup_call.amounts [OF c' [unfolded amounts_set_def]]) (use n b in auto)
  qed
next
  case (Begin_Unlock_Near a)
  then have "begin_unlock_near e a c = Inr c'" using assms by simp
  note r = begin_unlock_Inr [OF this]
  show ?thesis by (rule lockup_call.amounts [OF r(2) [unfolded amounts_set_def]]) (use r(1) in auto)
next
  case (End_Unlock_Near a)
  then have "end_unlock_near e a c = Inr c'" using assms by simp
  note r = end_unlock_Inr [OF this]
  show ?thesis by (rule lockup_call.amounts [OF r(3) [unfolded amounts_set_def]]) (use r(1,2) in auto)
next
  case (Lock_Pending_Near a)
  then have "lock_pending_near e a c = Inr c'" using assms by simp
  note r = lock_pending_Inr [OF this]
  show ?thesis by (rule lockup_call.amounts [OF r(2) [unfolded amounts_set_def]]) (use r(1) in auto)
next
  case (Select_Staking_Pool x)
  then have "c' = c\<lparr>lk_staking_information := lk_staking_information c, lk_outbox := lk_outbox c @
      [Lockup_Log (''Selecting staking pool @'' @ ''{}. Going to check whitelist first.'') None (Some x), Is_Whitelisted (lk_staking_pool_whitelist_account_id c) x]\<rparr>"
    using assms by (auto simp: select_staking_pool_def lockup_emit_def Let_def res_simps)
  then show ?thesis by (rule lockup_call.other) simp_all
next
  case Unselect_Staking_Pool
  then obtain s where s: "lk_staking_information c = Some s" "si_status s = Idle" "si_deposit_amount s = 0"
    "c' = c\<lparr>lk_staking_information := None, lk_outbox := lk_outbox c @
      [Lockup_Log (''Unselected current staking pool @'' @ ''{}.'') None (Some (si_staking_pool_account_id s))]\<rparr>"
    using assms by (auto simp: unselect_staking_pool_def lockup_emit_def Let_def res_simps idle_Inr)
  show ?thesis by (rule lockup_call.other [OF s(4)]) (use s(1-3) in simp_all)
next
  case (Transfer_Near n x)
  then obtain l where t: "\<forall>s. lk_staking_information c = Some s \<longrightarrow> si_status s = Idle" "0 < n" "n \<le> account_balance e - lk_min_lockup_deposit c"
    "venear_liquid_balance e c = Inr l" "n \<le> l"
    "c' = c\<lparr>lk_staking_information := lk_staking_information c, lk_outbox := lk_outbox c @
      [Lockup_Log (''Transferring {} to account @'' @ ''{}'') (Some n) (Some x), Send x n]\<rparr>"
    using assms by (auto simp: lockup_transfer_def lockup_emit_def Let_def res_simps no_staking_or_idle_Inr get_liquid_owners_balance_def
        get_account_balance_def saturating_sub_def)
  show ?thesis by (rule lockup_call.other [OF t(6)]) (use t(1-5) in \<open>auto simp: liquid_eq\<close>)
qed (use assms in \<open>auto simp: deposit_to_staking_pool_def deposit_and_stake_def refresh_staking_pool_balance_def
  withdraw_from_staking_pool_def withdraw_all_from_staking_pool_def stake_def unstake_def unstake_all_def and_then_eq_Inr require_eq_Inr
  get_account_balance_def saturating_sub_def elim!: request_call\<close>)

text \<open>Only \<open>lock_near\<close> locks NEAR that was neither locked nor pending.\<close>

lemma exec_held:
  assumes "lockup_exec valid e m c = Inr c'" and "\<not> locks_more m"
  shows "held c' \<le> held c"
proof -
  have "held c' \<le> held c" if "begin_unlock_near e a c = Inr c'" for a
    using begin_unlock_Inr [OF that] by (simp add: held_def amounts_set_def)
  moreover have "held c' \<le> held c" if "end_unlock_near e a c = Inr c'" for a
    using end_unlock_Inr [OF that] by (simp add: held_def amounts_set_def)
  moreover have "held c' \<le> held c" if "lock_pending_near e a c = Inr c'" for a
    using lock_pending_Inr [OF that] by (simp add: held_def amounts_set_def)
  ultimately show ?thesis using assms
    by (cases m) (auto simp: select_staking_pool_def unselect_staking_pool_def deposit_to_staking_pool_def deposit_and_stake_def
      refresh_staking_pool_balance_def withdraw_from_staking_pool_def withdraw_all_from_staking_pool_def stake_def unstake_def
      unstake_all_def lockup_transfer_def lockup_emit_def Let_def res_simps held_def elim!: request_Inr)
qed

section \<open>Answers of the pool\<close>

text \<open>An answer makes the contract idle again and records the known deposit \<open>d\<close>.\<close>

definition answered :: "nat \<Rightarrow> lockup \<Rightarrow> lockup \<Rightarrow> bool" where
  "answered d c c' \<longleftrightarrow> (\<exists>s. lk_staking_information c = Some s
       \<and> c' = c\<lparr>lk_staking_information := Some (s\<lparr>si_status := Idle, si_deposit_amount := d\<rparr>), lk_outbox := lk_outbox c'\<rparr>)
     \<and> (\<exists>l a x. lk_outbox c' = lk_outbox c @ [Lockup_Log l a x])"

lemmas answer_defs = set_staking_pool_status_def set_deposit_amount_def log_at_pool_def lockup_emit_def

lemma deposit_answered:
  assumes "on_staking_pool_deposit e n ok c = Inr c' \<or> on_staking_pool_deposit_and_stake e n ok c = Inr c'"
  shows "answered (get_known_deposited_balance c + (if ok then n else 0)) c c'"
  using assms
  by (cases ok) (auto simp: on_staking_pool_deposit_def on_staking_pool_deposit_and_stake_def on_staking_pool_deposit_inner_def
      answer_defs res_simps answered_def get_known_deposited_balance_def)

lemma withdraw_answered:
  assumes "on_staking_pool_withdraw e n ok c = Inr c'"
  shows "answered (get_known_deposited_balance c - (if ok then n else 0)) c c'"
  using assms
  by (cases ok) (auto simp: on_staking_pool_withdraw_def on_staking_pool_withdraw_inner_def answer_defs res_simps
      answered_def get_known_deposited_balance_def saturating_sub_def)

lemma total_answered:
  assumes "on_get_account_total_balance e (Some n) c = Inr c'"
  shows "answered n c c'"
  using assms by (auto simp: on_get_account_total_balance_def answer_defs res_simps answered_def)

lemma other_answered:
  assumes "on_staking_pool_stake e n ok c = Inr c' \<or> on_staking_pool_unstake e n ok c = Inr c'
    \<or> on_staking_pool_unstake_all e ok c = Inr c'"
  shows "answered (get_known_deposited_balance c) c c'"
  using assms
  by (auto simp: on_staking_pool_stake_def on_staking_pool_unstake_def on_staking_pool_unstake_all_def on_staking_pool_stake_inner_def
      on_staking_pool_unstake_inner_def answer_defs res_simps answered_def get_known_deposited_balance_def)

text \<open>The answer to the query of the unstaked balance: nothing to withdraw, or a withdrawal is asked for.\<close>

lemma unstaked_answered:
  assumes "on_get_account_unstaked_balance_to_withdraw_by_owner e (Some n) c = Inr c'"
  shows "if n = 0 then answered (get_known_deposited_balance c) c c' else (\<exists>s. lk_staking_information c = Some s
    \<and> c' = c\<lparr>lk_outbox := lk_outbox c @ [Lockup_Log (''Withdrawing {} from the staking pool @'' @ ''{}'') (Some n) (Some (si_staking_pool_account_id s)),
          Pool_Withdraw (si_staking_pool_account_id s) n]\<rparr>)"
  using assms
  by (auto simp: on_get_account_unstaked_balance_to_withdraw_by_owner_def answer_defs res_simps answered_def Let_def
      get_known_deposited_balance_def split: if_splits)

lemma updates_append: "lk_outbox c' = lk_outbox c @ xs \<Longrightarrow> updates c' = updates c @ concat (map update_of xs)"
  by (simp add: updates_def)

lemma updates_ok_cong:
  assumes "lk_outbox c' = lk_outbox c @ xs" "concat (map update_of xs) = []" "lk_lockup_update_nonce c' = lk_lockup_update_nonce c"
    "lk_venear_locked_balance c' = lk_venear_locked_balance c"
  shows "updates_ok c' = updates_ok c"
  using updates_append [OF assms(1)] assms(2-4) by (simp add: updates_ok_def)

lemma updates_ok_told:
  assumes "updates_ok c" and "lk_outbox c' = lk_outbox c @ xs @ [told e c1]" "concat (map update_of xs) = []"
    "lk_lockup_update_nonce c1 = lk_lockup_update_nonce c + 1" "lk_lockup_update_nonce c' = lk_lockup_update_nonce c1"
    "lk_venear_locked_balance c' = lk_venear_locked_balance c1"
  shows "updates_ok c'"
proof -
  have u: "updates c' = updates c @ [\<lparr>locked_near_balance = lk_venear_locked_balance c1, lu_timestamp = block_timestamp e,
        lu_nonce = lk_lockup_update_nonce c1\<rparr>]"
    using updates_append [OF assms(2)] assms(3) by (simp add: told_def)
  have "\<forall>x \<in> set (updates c). lu_nonce x < lk_lockup_update_nonce c1"
    using assms(1,4) by (auto simp: updates_ok_def less_Suc_eq_le)
  then show ?thesis using assms(1,4-6) by (auto simp: updates_ok_def u sorted_wrt_append)
qed

lemma answered_keeps:
  assumes "answered d (lw_contract w) c'" and "lockup_world_inv w" and "d \<le> p"
    and "get_known_deposited_balance (lw_contract w) + in_flight (lw_request w) \<le> d + counted_twice w"
  shows "lockup_world_inv (w\<lparr>lw_contract := c', lw_pool := p, lw_request := None\<rparr>)"
proof -
  obtain s l a x where s: "lk_staking_information (lw_contract w) = Some s"
    "c' = (lw_contract w)\<lparr>lk_staking_information := Some (s\<lparr>si_status := Idle, si_deposit_amount := d\<rparr>), lk_outbox := lk_outbox c'\<rparr>"
    and o: "lk_outbox c' = lk_outbox (lw_contract w) @ [Lockup_Log l a x]"
    using assms(1) unfolding answered_def by blast
  have f: "lk_venear_locked_balance c' = lk_venear_locked_balance (lw_contract w)" "lk_venear_pending_balance c' = lk_venear_pending_balance (lw_contract w)"
    "lk_lockup_update_nonce c' = lk_lockup_update_nonce (lw_contract w)" "lk_min_lockup_deposit c' = lk_min_lockup_deposit (lw_contract w)"
    "lk_venear_unlock_timestamp c' = lk_venear_unlock_timestamp (lw_contract w)" "lk_unlock_duration_ns c' = lk_unlock_duration_ns (lw_contract w)"
    "lk_staking_information c' = Some (s\<lparr>si_status := Idle, si_deposit_amount := d\<rparr>)"
    by (subst s(2), simp)+
  have "updates_ok c'" using updates_ok_cong [OF o _ f(3,1)] assms(2) by (simp add: lockup_world_inv_def)
  then show ?thesis using assms(2-4) s(1)
    by (simp add: lockup_inv_defs get_known_deposited_balance_def f)
qed

section \<open>Every step keeps the invariant\<close>

lemma call_keeps_lockup:
  assumes "lockup_call e (lw_contract w) c'" and "lockup_world_inv w" and "lw_clock w \<le> block_timestamp e"
    and "account_balance e = lw_balance w + d"
    and "held c' \<le> held (lw_contract w) \<and> lw_double w \<le> m \<or> lw_double w \<le> m \<and> counted_twice w \<le> m"
  shows "lockup_world_inv (w\<lparr>lw_contract := c', lw_balance := account_balance e - taken (news (lw_contract w) c'),
          lw_clock := block_timestamp e, lw_request := asked (news (lw_contract w) c') (lw_request w), lw_double := m\<rparr>)"
  using assms(1)
proof cases
  case (amounts xs l t p)
  let ?c = "lw_contract w"
  have o: "lk_outbox c' = lk_outbox ?c @ xs @ [told e (?c\<lparr>lk_venear_locked_balance := l,
        lk_lockup_update_nonce := lk_lockup_update_nonce ?c + 1\<rparr>)]" by (simp add: amounts(1))
  have "updates_ok c'" by (rule updates_ok_told [OF _ o amounts(4)]) (use assms(2) in \<open>simp_all add: lockup_world_inv_def amounts(1)\<close>)
  moreover have n: "taken (news ?c c') = 0" "asked (news ?c c') (lw_request w) = lw_request w"
    unfolding news_append [OF o] using amounts(2,3) by (simp_all add: taken_def told_def asked_def)
  moreover have f: "get_known_deposited_balance c' = get_known_deposited_balance ?c" "lk_venear_locked_balance c' = l"
      "lk_venear_pending_balance c' = p" "lk_venear_unlock_timestamp c' = t" "lk_unlock_duration_ns c' = lk_unlock_duration_ns ?c"
      "lk_min_lockup_deposit c' = lk_min_lockup_deposit ?c" "lk_staking_information c' = lk_staking_information ?c"
    by (simp_all add: amounts(1) get_known_deposited_balance_def)
  moreover have "l + p + counted_twice w \<le> account_balance e + lw_incoming w + get_known_deposited_balance ?c + in_flight (lw_request w) + m"
    using assms(2,4,5) amounts(6) by (auto simp: lockup_world_inv_def lockup_backed_def held_def f)
  moreover have "l + p < 2 ^ 128" using assms(2) amounts(6) by (auto simp: lockup_world_inv_def width_ok_def)
  moreover have "t \<le> block_timestamp e + lk_unlock_duration_ns ?c"
    using assms(2,3) amounts(5) by (auto simp: lockup_world_inv_def unlock_ok_def)
  ultimately show ?thesis using assms(2,4) by (simp add: lockup_inv_defs)
next
  case (request s x y r)
  let ?c = "lw_contract w"
  have o: "lk_outbox c' = lk_outbox ?c @ [x, y]" by (simp add: request(3))
  have "updates_ok c'" by (subst updates_ok_cong [OF o]) (use assms(2) request in \<open>simp_all add: lockup_world_inv_def\<close>)
  moreover have "lw_request w = None" using assms(2) request(1,2) by (auto simp: lockup_world_inv_def busy_ok_def)
  moreover have "unconfirmed (Some r) = 0" using request(6) by (cases y) auto
  moreover have "lw_double w \<le> m" using assms(5) by blast
  moreover have "taken (news ?c c') = in_flight (Some r)" "asked (news ?c c') (lw_request w) = Some r"
    unfolding news_append [OF o] using request(4-7) by simp_all
  moreover have "get_known_deposited_balance c' = get_known_deposited_balance ?c" "lk_venear_locked_balance c' = lk_venear_locked_balance ?c"
      "lk_venear_pending_balance c' = lk_venear_pending_balance ?c" "lk_venear_unlock_timestamp c' = lk_venear_unlock_timestamp ?c"
      "lk_unlock_duration_ns c' = lk_unlock_duration_ns ?c" "lk_min_lockup_deposit c' = lk_min_lockup_deposit ?c"
      "lk_staking_information c' = Some (s\<lparr>si_status := Busy\<rparr>)"
    by (simp_all add: request(1,3) get_known_deposited_balance_def)
  moreover have "in_flight (Some r) = 0 \<or> in_flight (Some r) + lk_min_lockup_deposit ?c \<le> account_balance e" using request(7,8) by simp
  ultimately show ?thesis using assms(2-4) by (auto simp: lockup_inv_defs)
next
  case (other xs s)
  let ?c = "lw_contract w"
  have o: "lk_outbox c' = lk_outbox ?c @ xs" by (simp add: other(1))
  have "updates_ok c'" by (subst updates_ok_cong [OF o]) (use assms(2) other in \<open>simp_all add: lockup_world_inv_def\<close>)
  moreover have "lw_request w = None \<or> s = lk_staking_information ?c \<and> taken xs = 0"
    using assms(2) other(4,5) by (auto simp: lockup_world_inv_def busy_ok_def)
  moreover have "lw_double w \<le> m" using assms(5) by blast
  moreover have "taken (news ?c c') = taken xs" "asked (news ?c c') (lw_request w) = lw_request w"
    unfolding news_append [OF o] using other(2) by simp_all
  moreover have "get_known_deposited_balance c' = get_known_deposited_balance ?c" "lk_venear_locked_balance c' = lk_venear_locked_balance ?c"
      "lk_venear_pending_balance c' = lk_venear_pending_balance ?c" "lk_venear_unlock_timestamp c' = lk_venear_unlock_timestamp ?c"
      "lk_unlock_duration_ns c' = lk_unlock_duration_ns ?c" "lk_min_lockup_deposit c' = lk_min_lockup_deposit ?c" "lk_staking_information c' = s"
    using other(4) by (auto simp: other(1) get_known_deposited_balance_def)
  ultimately show ?thesis using assms(2-4) other(5) by (auto simp: lockup_inv_defs)
qed

lemma whitelist_Inr:
  assumes "on_whitelist_is_whitelisted e result p c = Inr c'"
  shows "lk_staking_information c = None" and "c' = c\<lparr>lk_staking_information := Some \<lparr>si_staking_pool_account_id = p, si_status = Idle,
       si_deposit_amount = 0\<rparr>\<rparr>"
  using assms by (auto simp: on_whitelist_is_whitelisted_def assert_staking_pool_is_not_selected_def res_simps)

lemma unstaked_keeps:
  assumes "on_get_account_unstaked_balance_to_withdraw_by_owner e (Some n) (lw_contract w) = Inr c'" and "lockup_world_inv w"
    and "lw_request w = Some Unstaked_Request"
  shows "lockup_world_inv (w\<lparr>lw_contract := c', lw_request := asked (news (lw_contract w) c') None\<rparr>)"
proof (cases "n = 0")
  case True
  then have a: "answered (get_known_deposited_balance (lw_contract w)) (lw_contract w) c'" using unstaked_answered [OF assms(1)] by simp
  then obtain l b x where "lk_outbox c' = lk_outbox (lw_contract w) @ [Lockup_Log l b x]" by (auto simp: answered_def)
  then have "asked (news (lw_contract w) c') None = None" by simp
  then show ?thesis using answered_keeps [OF a assms(2), of "lw_pool w"] assms(2,3) by (simp add: lockup_inv_defs)
next
  case False
  let ?c = "lw_contract w"
  obtain s where s: "lk_staking_information ?c = Some s"
    "c' = ?c\<lparr>lk_outbox := lk_outbox ?c @ [Lockup_Log (''Withdrawing {} from the staking pool @'' @ ''{}'') (Some n) (Some (si_staking_pool_account_id s)),
          Pool_Withdraw (si_staking_pool_account_id s) n]\<rparr>"
    using unstaked_answered [OF assms(1)] False by auto
  then have o: "lk_outbox c' = lk_outbox ?c @ [Lockup_Log (''Withdrawing {} from the staking pool @'' @ ''{}'') (Some n) (Some (si_staking_pool_account_id s)),
          Pool_Withdraw (si_staking_pool_account_id s) n]" by simp
  have "updates_ok c'" by (subst updates_ok_cong [OF o]) (use assms(2) s in \<open>simp_all add: lockup_world_inv_def\<close>)
  then show ?thesis using assms(2,3) s(1)
    by (simp add: lockup_inv_defs news_append [OF o])
      (simp add: s(2) get_known_deposited_balance_def)
qed

lemma new_keeps:
  assumes "lockup_init w"
  shows "lockup_world_inv w"
proof -
  obtain e owner venear d wl v n m where c: "lockup_new e owner venear d wl v n m = Inr (lw_contract w)"
    "lw_balance w = account_balance e" "lw_request w = None" using assms by (auto simp: lockup_init_def)
  have "m \<le> account_balance e" "\<lparr>lk_owner_account_id = owner, lk_venear_account_id = venear,
      lk_staking_pool_whitelist_account_id = wl, lk_staking_information = None,
      lk_unlock_duration_ns = d, lk_venear_locked_balance = 0, lk_venear_unlock_timestamp = 0,
      lk_venear_pending_balance = 0, lk_lockup_update_nonce = n, lk_version = v,
      lk_min_lockup_deposit = m, lk_outbox = []\<rparr> = lw_contract w" using c(1) by (simp_all add: lockup_new_def res_simps)
  note this(1) this(2) [symmetric]
  then show ?thesis using c(2,3)
    by (simp add: lockup_inv_defs updates_ok_def updates_def
        get_known_deposited_balance_def)
qed

interpretation lw: transition_system lockup_init "lockup_step valid" lockup_world_inv for valid
proof
  show "lockup_world_inv w" if "lockup_init w" for w by (rule new_keeps [OF that])
  fix w w'
  assume inv: "lockup_world_inv w" and "lockup_step valid w w'"
  have pool: "get_known_deposited_balance (lw_contract w) \<le> lw_pool w + unconfirmed (lw_request w)"
    using inv by (simp add: lockup_world_inv_def pool_ok_def)
  from \<open>lockup_step valid w w'\<close> show "lockup_world_inv w'"
  proof cases
    case (call e m c')
    show ?thesis unfolding call(1)
      by (rule call_keeps_lockup [OF lockup_exec_call [OF call(4)] inv call(2,3)])
        (use exec_held [OF call(4)] in \<open>cases "locks_more m"; simp\<close>)
  next
    case (receive n)
    then show ?thesis using inv by (simp add: lockup_inv_defs)
  next
    case (reward n)
    then show ?thesis using inv by (simp add: lockup_inv_defs)
  next
    case (whitelisted e result p c' n)
    note r = whitelist_Inr [OF whitelisted(2)]
    have "updates_ok c'" using inv r updates_ok_cong [of c' "lw_contract w" "[]"] by (simp add: lockup_world_inv_def)
    moreover have "lw_request w = None" using inv r(1) by (auto simp: lockup_world_inv_def busy_ok_def)
    ultimately show ?thesis using inv r(1) whitelisted(1)
      by (simp add: lockup_inv_defs)
        (simp add: get_known_deposited_balance_def r(2))
  next
    case (deposited n e c')
    then show ?thesis using answered_keeps [OF deposit_answered [OF deposited(3)] inv, of "lw_pool w + n"] pool by simp
  next
    case (not_deposited n e c')
    then show ?thesis using answered_keeps [OF deposit_answered [OF not_deposited(3)] inv, of "lw_pool w"] pool by simp
  next
    case (withdrawn n e c')
    then show ?thesis using answered_keeps [OF withdraw_answered [OF withdrawn(3)] inv, of "lw_pool w"] pool
      by (simp add: counted_twice_def)
  next
    case (not_withdrawn n e c')
    then show ?thesis using answered_keeps [OF withdraw_answered [OF not_withdrawn(3)] inv, of "lw_pool w"] pool by simp
  next
    case (total_known e c')
    then show ?thesis using answered_keeps [OF total_answered [OF total_known(3)] inv, of "lw_pool w"] pool by simp
  next
    case (unstaked_known n e c')
    then show ?thesis using unstaked_keeps [OF unstaked_known(4) inv] by simp
  next
    case (other_done e n ok c')
    then show ?thesis using answered_keeps [OF other_answered [OF other_done(3)] inv, of "lw_pool w"] pool by simp
  next
    case (arrives n)
    then show ?thesis using inv by (simp add: lockup_inv_defs)
  next
    case (deposit_fails n)
    then show ?thesis using inv by (simp add: lockup_inv_defs)
  next
    case (pool_pays n)
    then show ?thesis using inv by (simp add: lockup_inv_defs) (simp add: min_def)
  next
    case query_failed
    then show ?thesis using inv by (auto simp: lockup_inv_defs)
  qed
qed

lemma lockup_reaches_inv: "lockup_reaches valid w \<Longrightarrow> lockup_world_inv w"
  using lw.reachable_inv by (auto simp: lockup_reaches_def)

end
