(* ===== verification/Lockup_Sample.thy ===== *)
theory Lockup_Sample
  imports Lockup_World
begin

text \<open>
  A short run of a lockup, evaluated step by step, for the examples of the properties: alice locks 50, starts to
  unlock 20, selects a staking pool and asks it for its balance; then the query fails. A second run selects a pool at once, deposits 50,
  withdraws them and locks all liquid NEAR after the payment has arrived and before the callback.
\<close>

definition lockup_at :: "nat \<Rightarrow> nat \<Rightarrow> env" where
  "lockup_at t b = \<lparr>block_timestamp = t, block_height = 7, predecessor = ''alice'', signer = ''alice'',
     current_account = ''lock'', attached_deposit = 1, account_balance = b, prepaid_gas = 0, used_gas = 0, epoch_height = 0\<rparr>"

definition lockup_callback :: env where
  "lockup_callback = \<lparr>block_timestamp = 5, block_height = 7, predecessor = ''lock'', signer = ''alice'',
     current_account = ''lock'', attached_deposit = 0, account_balance = 0, prepaid_gas = 0, used_gas = 0, epoch_height = 0\<rparr>"

definition sample_l0 :: lockup where
  "sample_l0 = \<lparr>lk_owner_account_id = ''alice'', lk_venear_account_id = ''v'', lk_staking_pool_whitelist_account_id = ''wl'',
     lk_staking_information = None, lk_unlock_duration_ns = 100, lk_venear_locked_balance = 0, lk_venear_unlock_timestamp = 0,
     lk_venear_pending_balance = 0, lk_lockup_update_nonce = 5, lk_version = 1, lk_min_lockup_deposit = 10, lk_outbox = []\<rparr>"

definition sample_l1 :: lockup where
  "sample_l1 = sample_l0\<lparr>lk_venear_locked_balance := 50, lk_lockup_update_nonce := 6, lk_outbox :=
     [Lockup_Event ''lockup_lock_near'' ''lock'' 1 (Some 5) (Some 0) (Some 50),
      Venear_Update ''v'' 1 ''alice'' (VLockupUpdate_V1 \<lparr>locked_near_balance = 50, lu_timestamp = 0, lu_nonce = 6\<rparr>)]\<rparr>"

definition sample_l2 :: lockup where
  "sample_l2 = sample_l1\<lparr>lk_venear_locked_balance := 30, lk_venear_pending_balance := 20, lk_venear_unlock_timestamp := 100,
     lk_lockup_update_nonce := 7, lk_outbox := lk_outbox sample_l1 @
     [Venear_Update ''v'' 1 ''alice'' (VLockupUpdate_V1 \<lparr>locked_near_balance = 30, lu_timestamp = 0, lu_nonce = 7\<rparr>)]\<rparr>"

definition sample_l3 :: lockup where
  "sample_l3 = sample_l2\<lparr>lk_outbox := lk_outbox sample_l2 @
     [Lockup_Log (''Selecting staking pool @'' @ ''{}. Going to check whitelist first.'') None (Some ''p''), Is_Whitelisted ''wl'' ''p'']\<rparr>"

definition sample_l4 :: lockup where
  "sample_l4 = sample_l3\<lparr>lk_staking_information := Some \<lparr>si_staking_pool_account_id = ''p'', si_status = Idle, si_deposit_amount = 0\<rparr>\<rparr>"

definition sample_l5 :: lockup where
  "sample_l5 = sample_l4\<lparr>lk_staking_information := Some \<lparr>si_staking_pool_account_id = ''p'', si_status = Busy, si_deposit_amount = 0\<rparr>,
     lk_outbox := lk_outbox sample_l4 @
     [Lockup_Log (''Fetching total balance from the staking pool @'' @ ''{}'') None (Some ''p''), Pool_Get_Total ''p'']\<rparr>"

definition lockup_sample :: "lockup \<Rightarrow> nat \<Rightarrow> nat \<Rightarrow> pool_request option \<Rightarrow> lockup_world" where
  "lockup_sample c b t r = \<lparr>lw_contract = c, lw_balance = b, lw_clock = t, lw_pool = 0, lw_request = r,
     lw_incoming = 0, lw_double = 0\<rparr>"

lemmas lockup_sample_defs = sample_l0_def sample_l1_def sample_l2_def sample_l3_def sample_l4_def sample_l5_def
  lockup_at_def lockup_callback_def

lemma sample_lock: "lock_near (lockup_at 0 101) (Some 50) sample_l0 = Inr sample_l1"
  by (simp add: lockup_sample_defs lockup_defs lockup_guards venear_liquid_balance_def get_known_deposited_balance_def assert_one_yocto_def
      add_u_def cong: and_then_step)

lemma sample_begin: "begin_unlock_near (lockup_at 0 102) (Some 20) sample_l1 = Inr sample_l2"
  by (simp add: lockup_sample_defs lockup_defs lockup_guards assert_one_yocto_def add_u_def sub_u_def cong: and_then_step)

lemma sample_select: "select_staking_pool (\<lambda>_. True) (lockup_at 4 103) ''p'' sample_l2 = Inr sample_l3"
  by (simp add: lockup_sample_defs lockup_defs lockup_guards assert_one_yocto_def cong: and_then_step)

lemma sample_whitelisted: "on_whitelist_is_whitelisted lockup_callback (Some True) ''p'' sample_l3 = Inr sample_l4"
  by (simp add: lockup_sample_defs on_whitelist_is_whitelisted_def lockup_guards assert_no_deposit_def assert_private_def cong: and_then_step)

lemma sample_refresh: "refresh_staking_pool_balance (lockup_at 5 104) sample_l4 = Inr sample_l5"
  by (simp add: lockup_sample_defs lockup_defs lockup_guards assert_one_yocto_def cong: and_then_step)

lemma sample_lockup_init: "lockup_init (lockup_sample sample_l0 100 0 None)"
proof -
  have "lockup_new (lockup_at 0 100) ''alice'' ''v'' 100 ''wl'' 1 5 10 = Inr sample_l0"
    by (simp add: lockup_new_def lockup_sample_defs)
  then show ?thesis unfolding lockup_init_def lockup_sample_def
    by (intro conjI exI [of _ "lockup_at 0 100"] exI) (assumption | simp add: lockup_at_def)+
qed

text \<open>One accepted call of the sample, as a step.\<close>

lemma sample_lockup_call:
  assumes "lockup_exec (\<lambda>_. True) (lockup_at t (Suc b)) m c = Inr c'" "t0 \<le> t" "unconfirmed r = 0" "taken (news c c') = 0" "asked (news c c') r = r'"
  shows "lockup_step (\<lambda>_. True) (lockup_sample c b t0 r) (lockup_sample c' (Suc b) t r')"
  using lockup_step.call [of "lockup_sample c b t0 r" "lockup_at t (Suc b)" "\<lambda>_. True" m c'] assms
  by (simp add: lockup_sample_def lockup_at_def counted_twice_def cong: if_cong)

lemma sample_step1: "lockup_step (\<lambda>_. True) (lockup_sample sample_l0 100 0 None) (lockup_sample sample_l1 101 0 None)"
  using sample_lockup_call [of 0 100 "Lock_Near (Some 50)" sample_l0 sample_l1 0 None None] sample_lock
  by (simp add: news_def) (simp add: lockup_sample_defs)

lemma sample_step2: "lockup_step (\<lambda>_. True) (lockup_sample sample_l1 101 0 None) (lockup_sample sample_l2 102 0 None)"
  using sample_lockup_call [of 0 101 "Begin_Unlock_Near (Some 20)" sample_l1 sample_l2 0 None None] sample_begin
  by (simp add: news_def) (simp add: lockup_sample_defs)

lemma sample_step3: "lockup_step (\<lambda>_. True) (lockup_sample sample_l2 102 0 None) (lockup_sample sample_l3 103 4 None)"
  using sample_lockup_call [of 4 102 "Select_Staking_Pool ''p''" sample_l2 sample_l3 0 None None] sample_select
  by (simp add: news_def) (simp add: lockup_sample_defs)

lemma sample_step4: "lockup_step (\<lambda>_. True) (lockup_sample sample_l3 103 4 None) (lockup_sample sample_l4 103 4 None)"
  using lockup_step.whitelisted [of lockup_callback "Some True" "''p''" "lockup_sample sample_l3 103 4 None" sample_l4 "\<lambda>_. True" 0]
    sample_whitelisted by (simp add: lockup_sample_def)

lemma sample_step5: "lockup_step (\<lambda>_. True) (lockup_sample sample_l4 103 4 None) (lockup_sample sample_l5 104 5 (Some Total_Request))"
  using sample_lockup_call [of 5 103 "Refresh_Staking_Pool_Balance" sample_l4 sample_l5 4 None "Some Total_Request"] sample_refresh
  by (simp add: news_def) (simp add: lockup_sample_defs)

lemma sample_step6: "lockup_step (\<lambda>_. True) (lockup_sample sample_l5 104 5 (Some Total_Request)) (lockup_sample sample_l5 104 5 None)"
  using lockup_step.query_failed [of "lockup_sample sample_l5 104 5 (Some Total_Request)" "\<lambda>_. True"] by (simp add: lockup_sample_def)

lemma sample_lockup_reaches:
  "lockup_reaches (\<lambda>_. True) (lockup_sample sample_l2 102 0 None)"
  "lockup_reaches (\<lambda>_. True) (lockup_sample sample_l5 104 5 (Some Total_Request))"
  "lockup_reaches (\<lambda>_. True) (lockup_sample sample_l5 104 5 None)"
proof -
  have two: "(lockup_step (\<lambda>_. True))\<^sup>*\<^sup>* (lockup_sample sample_l0 100 0 None) (lockup_sample sample_l2 102 0 None)"
    using sample_step1 sample_step2 by (metis r_into_rtranclp rtranclp.rtrancl_into_rtrancl)
  have five: "(lockup_step (\<lambda>_. True))\<^sup>*\<^sup>* (lockup_sample sample_l0 100 0 None) (lockup_sample sample_l5 104 5 (Some Total_Request))"
    using two sample_step3 sample_step4 sample_step5 by (metis rtranclp.rtrancl_into_rtrancl)
  show "lockup_reaches (\<lambda>_. True) (lockup_sample sample_l2 102 0 None)"
    "lockup_reaches (\<lambda>_. True) (lockup_sample sample_l5 104 5 (Some Total_Request))"
    "lockup_reaches (\<lambda>_. True) (lockup_sample sample_l5 104 5 None)"
    unfolding lockup_reaches_def using sample_lockup_init two five rtranclp.rtrancl_into_rtrancl [OF five sample_step6] by blast+
qed

section \<open>A withdrawal that is counted twice\<close>

definition pool_known :: "transaction_status \<Rightarrow> nat \<Rightarrow> staking_information option" where
  "pool_known st d = Some \<lparr>si_staking_pool_account_id = ''p'', si_status = st, si_deposit_amount = d\<rparr>"

definition double_l1 :: lockup where
  "double_l1 = sample_l0\<lparr>lk_outbox := [Lockup_Log (''Selecting staking pool @'' @ ''{}. Going to check whitelist first.'') None (Some ''p''),
     Is_Whitelisted ''wl'' ''p'']\<rparr>"

definition double_l2 :: lockup where
  "double_l2 = double_l1\<lparr>lk_staking_information := pool_known Idle 0\<rparr>"

definition double_l3 :: lockup where
  "double_l3 = double_l2\<lparr>lk_staking_information := pool_known Busy 0, lk_outbox := lk_outbox double_l2 @
     [Lockup_Log (''Depositing {} to the staking pool @'' @ ''{}'') (Some 50) (Some ''p''), Pool_Deposit ''p'' 50]\<rparr>"

definition double_l4 :: lockup where
  "double_l4 = double_l3\<lparr>lk_staking_information := pool_known Idle 50, lk_outbox := lk_outbox double_l3 @
     [Lockup_Log (''The deposit of {} to @'' @ ''{} succeeded'') (Some 50) (Some ''p'')]\<rparr>"

definition double_l5 :: lockup where
  "double_l5 = double_l4\<lparr>lk_staking_information := pool_known Busy 50, lk_outbox := lk_outbox double_l4 @
     [Lockup_Log (''Withdrawing {} from the staking pool @'' @ ''{}'') (Some 50) (Some ''p''), Pool_Withdraw ''p'' 50]\<rparr>"

definition double_l6 :: lockup where
  "double_l6 = double_l5\<lparr>lk_venear_locked_balance := 154, lk_lockup_update_nonce := 6, lk_outbox := lk_outbox double_l5 @
     [Lockup_Event ''lockup_lock_near'' ''lock'' 1 (Some 5) (Some 3) (Some 154),
      Venear_Update ''v'' 1 ''alice'' (VLockupUpdate_V1 \<lparr>locked_near_balance = 154, lu_timestamp = 3, lu_nonce = 6\<rparr>)]\<rparr>"

definition double_l7 :: lockup where
  "double_l7 = double_l6\<lparr>lk_staking_information := pool_known Idle 0, lk_outbox := lk_outbox double_l6 @
     [Lockup_Log (''The withdrawal of {} from @'' @ ''{} succeeded'') (Some 50) (Some ''p'')]\<rparr>"

definition double_world :: "lockup \<Rightarrow> nat \<Rightarrow> nat \<Rightarrow> nat \<Rightarrow> pool_request option \<Rightarrow> nat \<Rightarrow> nat \<Rightarrow> lockup_world" where
  "double_world c b t k r i d = \<lparr>lw_contract = c, lw_balance = b, lw_clock = t, lw_pool = k, lw_request = r, lw_incoming = i, lw_double = d\<rparr>"

lemmas double_defs = double_l1_def double_l2_def double_l3_def double_l4_def double_l5_def double_l6_def double_l7_def pool_known_def
  sample_l0_def lockup_at_def lockup_callback_def

lemma double_calls:
  "select_staking_pool (\<lambda>_. True) (lockup_at 0 101) ''p'' sample_l0 = Inr double_l1"
  "on_whitelist_is_whitelisted lockup_callback (Some True) ''p'' double_l1 = Inr double_l2"
  "deposit_to_staking_pool (lockup_at 1 102) 50 double_l2 = Inr double_l3"
  "on_staking_pool_deposit lockup_callback 50 True double_l3 = Inr double_l4"
  "withdraw_from_staking_pool (lockup_at 2 53) 50 double_l4 = Inr double_l5"
  "lock_near (lockup_at 3 104) None double_l5 = Inr double_l6"
  "on_staking_pool_withdraw lockup_callback 50 True double_l6 = Inr double_l7"
  by (simp_all add: double_defs lockup_defs lockup_guards on_whitelist_is_whitelisted_def on_staking_pool_deposit_def
      on_staking_pool_deposit_inner_def on_staking_pool_withdraw_def on_staking_pool_withdraw_inner_def answer_defs
      assert_no_deposit_def assert_private_def assert_one_yocto_def venear_liquid_balance_def get_known_deposited_balance_def
      saturating_sub_def add_u_def sub_u_def cong: and_then_step)

lemma double_call_step:
  assumes "lockup_exec (\<lambda>_. True) (lockup_at t a) m c = Inr c'" "a = Suc b" "t0 \<le> t" "a - taken (news c c') = b'" "asked (news c c') r = r'"
    "d' = (if locks_more m then max d (min (unconfirmed r) (get_known_deposited_balance c)) else d)"
  shows "lockup_step (\<lambda>_. True) (double_world c b t0 k r i d) (double_world c' b' t k r' i d')"
  using lockup_step.call [of "double_world c b t0 k r i d" "lockup_at t a" "\<lambda>_. True" m c'] assms
  by (simp add: double_world_def lockup_at_def counted_twice_def cong: if_cong)

lemma double_steps:
  "lockup_step (\<lambda>_. True) (double_world sample_l0 100 0 0 None 0 0) (double_world double_l1 101 0 0 None 0 0)"
  "lockup_step (\<lambda>_. True) (double_world double_l1 101 0 0 None 0 0) (double_world double_l2 101 0 0 None 0 0)"
  "lockup_step (\<lambda>_. True) (double_world double_l2 101 0 0 None 0 0) (double_world double_l3 52 1 0 (Some (Deposit_Request 50)) 0 0)"
  "lockup_step (\<lambda>_. True) (double_world double_l3 52 1 0 (Some (Deposit_Request 50)) 0 0) (double_world double_l4 52 1 50 None 0 0)"
  "lockup_step (\<lambda>_. True) (double_world double_l4 52 1 50 None 0 0) (double_world double_l5 53 2 50 (Some (Withdraw_Request 50)) 0 0)"
  "lockup_step (\<lambda>_. True) (double_world double_l5 53 2 50 (Some (Withdraw_Request 50)) 0 0) (double_world double_l5 53 2 0 (Some (Withdraw_Paid 50)) 50 0)"
  "lockup_step (\<lambda>_. True) (double_world double_l5 53 2 0 (Some (Withdraw_Paid 50)) 50 0) (double_world double_l5 103 2 0 (Some (Withdraw_Paid 50)) 0 0)"
  "lockup_step (\<lambda>_. True) (double_world double_l5 103 2 0 (Some (Withdraw_Paid 50)) 0 0) (double_world double_l6 104 3 0 (Some (Withdraw_Paid 50)) 0 50)"
  "lockup_step (\<lambda>_. True) (double_world double_l6 104 3 0 (Some (Withdraw_Paid 50)) 0 50) (double_world double_l7 104 3 0 None 0 50)"
proof -
  show "lockup_step (\<lambda>_. True) (double_world sample_l0 100 0 0 None 0 0) (double_world double_l1 101 0 0 None 0 0)"
    by (rule double_call_step [where m = "Select_Staking_Pool ''p''" and a = 101], use double_calls(1) in simp) (simp_all add: news_def double_defs)
  show "lockup_step (\<lambda>_. True) (double_world double_l1 101 0 0 None 0 0) (double_world double_l2 101 0 0 None 0 0)"
    using lockup_step.whitelisted [of lockup_callback "Some True" "''p''" "double_world double_l1 101 0 0 None 0 0" double_l2 _ 0]
      double_calls(2) by (simp add: double_world_def)
  show "lockup_step (\<lambda>_. True) (double_world double_l2 101 0 0 None 0 0) (double_world double_l3 52 1 0 (Some (Deposit_Request 50)) 0 0)"
    by (rule double_call_step [where m = "Deposit_To_Staking_Pool 50" and a = 102], use double_calls(3) in simp) (simp_all add: news_def double_defs)
  show "lockup_step (\<lambda>_. True) (double_world double_l3 52 1 0 (Some (Deposit_Request 50)) 0 0) (double_world double_l4 52 1 50 None 0 0)"
    using lockup_step.deposited [of "double_world double_l3 52 1 0 (Some (Deposit_Request 50)) 0 0" 50 lockup_callback double_l4]
      double_calls(4) by (simp add: double_world_def)
  show "lockup_step (\<lambda>_. True) (double_world double_l4 52 1 50 None 0 0) (double_world double_l5 53 2 50 (Some (Withdraw_Request 50)) 0 0)"
    by (rule double_call_step [where m = "Withdraw_From_Staking_Pool 50" and a = 53], use double_calls(5) in simp) (simp_all add: news_def double_defs)
  show "lockup_step (\<lambda>_. True) (double_world double_l5 53 2 50 (Some (Withdraw_Request 50)) 0 0)
     (double_world double_l5 53 2 0 (Some (Withdraw_Paid 50)) 50 0)"
    using lockup_step.pool_pays [of "double_world double_l5 53 2 50 (Some (Withdraw_Request 50)) 0 0" 50] by (simp add: double_world_def)
  show "lockup_step (\<lambda>_. True) (double_world double_l5 53 2 0 (Some (Withdraw_Paid 50)) 50 0)
     (double_world double_l5 103 2 0 (Some (Withdraw_Paid 50)) 0 0)"
    using lockup_step.arrives [of 50 "double_world double_l5 53 2 0 (Some (Withdraw_Paid 50)) 50 0"] by (simp add: double_world_def)
  show "lockup_step (\<lambda>_. True) (double_world double_l5 103 2 0 (Some (Withdraw_Paid 50)) 0 0)
     (double_world double_l6 104 3 0 (Some (Withdraw_Paid 50)) 0 50)"
    by (rule double_call_step [where m = "Lock_Near None" and a = 104], use double_calls(6) in simp)
      (simp_all add: news_def double_defs get_known_deposited_balance_def)
  show "lockup_step (\<lambda>_. True) (double_world double_l6 104 3 0 (Some (Withdraw_Paid 50)) 0 50) (double_world double_l7 104 3 0 None 0 50)"
    using lockup_step.withdrawn [of "double_world double_l6 104 3 0 (Some (Withdraw_Paid 50)) 0 50" 50 lockup_callback double_l7]
      double_calls(7) by (simp add: double_world_def)
qed

lemma double_reaches: "lockup_reaches (\<lambda>_. True) (double_world double_l7 104 3 0 None 0 50)"
proof -
  have "lockup_init (double_world sample_l0 100 0 0 None 0 0)"
    using sample_lockup_init by (simp add: double_world_def lockup_sample_def)
  moreover have "(lockup_step (\<lambda>_. True))\<^sup>*\<^sup>* (double_world sample_l0 100 0 0 None 0 0) (double_world double_l7 104 3 0 None 0 50)"
    using double_steps by (meson converse_rtranclp_into_rtranclp rtranclp.rtrancl_refl)
  ultimately show ?thesis unfolding lockup_reaches_def by blast
qed

end
