(* ===== verification/Lockup_Properties.thy ===== *)
theory Lockup_Properties
  imports Lockup_Sample
begin

text \<open>
  The properties of the lockup contract over all its runs: what is locked is backed, locked NEAR stays for
  the unlock period, the updates for veNEAR are ordered and report the locked balance, the owner gets the
  funds out, nobody else does, and the contract talks to the staking pool one request at a time.
\<close>

section \<open>A step and the locked amount\<close>








section \<open>Requests to the pool\<close>

fun locking :: "lockup_msg \<Rightarrow> bool" where
  "locking (Lock_Near _) = True"
| "locking (Begin_Unlock_Near _) = True"
| "locking (End_Unlock_Near _) = True"
| "locking (Lock_Pending_Near _) = True"
| "locking _ = False"

definition busy :: "lockup \<Rightarrow> bool" where
  "busy c \<longleftrightarrow> (\<exists>s. lk_staking_information c = Some s \<and> si_status s = Busy)"

lemma busy_not_idle: "busy c \<Longrightarrow> assert_staking_pool_is_idle c \<noteq> Inr u" "busy c \<Longrightarrow> assert_no_staking_or_idle c \<noteq> Inr u"
    "busy c \<Longrightarrow> assert_staking_pool_is_not_selected c \<noteq> Inr u"
  by (auto simp: busy_def lockup_guards res_simps)

text \<open>A busy contract refuses everything but the four methods that lock and unlock.\<close>

lemma busy_exec:
  assumes "busy c" and "lockup_exec valid e m c = Inr c'"
  shows "locking m"
  using assms by (cases m)
    (auto simp: select_staking_pool_def unselect_staking_pool_def deposit_to_staking_pool_def deposit_and_stake_def
      refresh_staking_pool_balance_def withdraw_from_staking_pool_def withdraw_all_from_staking_pool_def stake_def unstake_def
      unstake_all_def lockup_transfer_def and_then_eq_Inr busy_not_idle)

lemma busy_delete: "busy c \<Longrightarrow> delete_lockup e c \<noteq> Inr c'"
  by (auto simp: delete_lockup_def and_then_eq_Inr busy_not_idle)

lemma locking_exec:
  assumes "locking m" and "lockup_exec valid e m c = Inr c'"
  obtains l p t xs where "c' = amounts_set e l p t xs c" "taken xs = 0" "\<forall>r. asked xs r = r"
proof (cases m)
  case (Lock_Near a)
  with assms(2) show ?thesis by (auto elim!: lock_near_Inr intro: that)
next
  case (Begin_Unlock_Near a)
  with assms(2) show ?thesis by (auto dest!: begin_unlock_Inr(2) intro: that)
next
  case (End_Unlock_Near a)
  with assms(2) show ?thesis by (auto dest!: end_unlock_Inr intro: that)
next
  case (Lock_Pending_Near a)
  with assms(2) show ?thesis by (auto dest!: lock_pending_Inr intro: that)
qed (use assms in auto)

lemma busy_call:
  assumes "busy c" and "lockup_exec valid e m c = Inr c'"
  shows "lk_staking_information c' = lk_staking_information c" and "taken (news c c') = 0" and "asked (news c c') r = r"
proof -
  obtain l p t xs where c: "c' = amounts_set e l p t xs c" "taken xs = 0" "\<forall>r. asked xs r = r"
    using locking_exec [OF busy_exec [OF assms] assms(2)] .
  have o: "news c c' = xs @ [told e (c\<lparr>lk_venear_locked_balance := l, lk_lockup_update_nonce := lk_lockup_update_nonce c + 1\<rparr>)]"
    by (rule news_append) (simp add: c(1) amounts_set_def)
  show "lk_staking_information c' = lk_staking_information c" by (simp add: c(1) amounts_set_def)
  show "taken (news c c') = 0" "asked (news c c') r = r" unfolding o using c(2,3) by (simp_all add: taken_def asked_def told_def)
qed

text \<open>Without a request nothing makes a busy contract idle again.\<close>

definition stuck :: "lockup_world \<Rightarrow> bool" where
  "stuck w \<longleftrightarrow> lw_request w = None \<and> busy (lw_contract w)"

lemma stuck_step:
  assumes "lockup_step valid w w'" and "stuck w"
  shows "stuck w'"
  using assms(1)
proof cases
  case (call e m c')
  then show ?thesis using busy_call [of "lw_contract w" valid e m c'] assms(2) by (simp add: stuck_def busy_def)
next
  case (whitelisted e result p c' n)
  then show ?thesis using whitelist_Inr(1) [OF whitelisted(2)] assms(2) by (simp add: stuck_def busy_def)
qed (use assms(2) in \<open>simp_all add: stuck_def\<close>)

lemma stuck_steps: "(lockup_step valid)\<^sup>*\<^sup>* w w' \<Longrightarrow> stuck w \<Longrightarrow> stuck w'"
  by (induction rule: rtranclp_induct) (auto intro: stuck_step)

section \<open>Properties\<close>

text \<open>
  C29. The NEAR that an owner has locked, or is unlocking, is there: in every reachable state it is covered by the
  balance of the account, the payments and refunds on their way, the known deposit at the staking pool less what the pool has already
  paid of it, and a deposit on its way, but for at most the largest amount that was paid and not yet confirmed when the owner locked NEAR
  (none, if NEAR is never locked between the payment of a withdrawal and its callback). The known deposit is at the pool or
  paid by it, and the account keeps its storage reserve, whatever is transferred or staked.
\<close>

theorem locked_near_is_backed:
  assumes "lockup_reaches valid w"
  shows "get_venear_locked_balance (lw_contract w) + get_venear_pending_balance (lw_contract w) + counted_twice w
      \<le> lw_balance w + lw_incoming w + get_known_deposited_balance (lw_contract w) + in_flight (lw_request w) + lw_double w
    \<and> get_known_deposited_balance (lw_contract w) \<le> lw_pool w + unconfirmed (lw_request w)
    \<and> lk_min_lockup_deposit (lw_contract w) \<le> lw_balance w"
  using lockup_reaches_inv [OF assms]
  by (simp add: lockup_world_inv_def lockup_backed_def pool_ok_def reserve_ok_def get_venear_locked_balance_def get_venear_pending_balance_def)

theorem locked_near_is_backed_witness:
  "get_venear_locked_balance sample_l2 = 30 \<and> get_venear_pending_balance sample_l2 = 20
    \<and> 30 + 20 \<le> 102 + get_known_deposited_balance sample_l2 + in_flight None"
  using locked_near_is_backed [OF sample_lockup_reaches(1)]
  by (simp add: lockup_sample_def get_venear_locked_balance_def get_venear_pending_balance_def) (simp add: lockup_sample_defs counted_twice_def)

text \<open>
  C37. The bound on the unbacked amount is reached, so a withdrawal can be counted twice: there is a run from the creation of a lockup, with an honest
  pool, after which no request and no payment is under way and the owner has more NEAR locked than there is in the account and at the pool
  together; the last update to the veNEAR contract reports it. The owner has locked everything after the payment of a
  withdrawal arrived and before its callback.
\<close>

theorem withdrawal_counted_twice:
  "\<exists>w. lockup_reaches (\<lambda>_. True) w \<and> lw_request w = None \<and> lw_incoming w = 0
    \<and> lw_balance w + lw_pool w + lw_double w = get_venear_locked_balance (lw_contract w) \<and> 0 < lw_double w
    \<and> get_known_deposited_balance (lw_contract w) = lw_pool w
    \<and> locked_near_balance (last (updates (lw_contract w))) = get_venear_locked_balance (lw_contract w)"
  by (rule exI [of _ "double_world double_l7 104 3 0 None 0 50"])
    (use double_reaches in \<open>simp add: double_world_def get_venear_locked_balance_def get_known_deposited_balance_def updates_def double_defs\<close>)



text \<open>
  C31. The veNEAR contract is told about every change: the updates a lockup has sent carry strictly increasing
  nonces, and the last one has the current nonce and the current locked balance, so that the receiver who follows the
  nonces ends with the right balance in whatever order the updates arrive.
\<close>

theorem updates_report_locked_balance:
  assumes "lockup_reaches valid w"
  shows "sorted_wrt (<) (map lu_nonce (updates (lw_contract w)))
    \<and> (if updates (lw_contract w) = [] then get_venear_locked_balance (lw_contract w) = 0
       else lu_nonce (last (updates (lw_contract w))) = get_lockup_update_nonce (lw_contract w)
         \<and> locked_near_balance (last (updates (lw_contract w))) = get_venear_locked_balance (lw_contract w))"
  using lockup_reaches_inv [OF assms] by (simp add: lockup_world_inv_def updates_ok_def get_venear_locked_balance_def get_lockup_update_nonce_def)

theorem updates_report_locked_balance_witness:
  "updates sample_l2 \<noteq> [] \<and> lu_nonce (last (updates sample_l2)) = get_lockup_update_nonce sample_l2
    \<and> locked_near_balance (last (updates sample_l2)) = 30"
proof -
  have "updates sample_l2 \<noteq> [] \<and> get_venear_locked_balance sample_l2 = 30"
    by (simp add: updates_def get_venear_locked_balance_def lockup_sample_defs)
  then show ?thesis using updates_report_locked_balance [OF sample_lockup_reaches(1)] by (simp add: lockup_sample_def)
qed

text \<open>
  Only the owner acts, with one yoctoNEAR attached: every accepted call but the callbacks comes from the
  owner, and so does the deletion of the account, which needs that nothing is locked, pending, staked or under way and
  sends the balance to the owner.
\<close>

theorem lockup_owner_only:
  assumes "lockup_exec valid e m c = Inr c' \<or> delete_lockup e c = Inr c'"
  shows "predecessor e = get_owner_account_id c \<and> attached_deposit e = 1 \<and> get_owner_account_id c' = get_owner_account_id c
    \<and> (delete_lockup e c = Inr c' \<longrightarrow> get_venear_locked_balance c = 0 \<and> get_venear_pending_balance c = 0 \<and> get_known_deposited_balance c = 0
        \<and> (\<forall>s. lk_staking_information c = Some s \<longrightarrow> si_status s = Idle)
        \<and> filter (\<lambda>x. 0 < takes x \<or> (\<exists>a. x = Delete_Account a)) (news c c') = [Delete_Account (get_owner_account_id c)])"
proof -
  have del: "predecessor e = lk_owner_account_id c \<and> attached_deposit e = 1 \<and> lk_owner_account_id c' = lk_owner_account_id c
    \<and> lk_venear_locked_balance c = 0 \<and> lk_venear_pending_balance c = 0 \<and> get_known_deposited_balance c = 0
    \<and> (\<forall>s. lk_staking_information c = Some s \<longrightarrow> si_status s = Idle)
    \<and> news c c' = [Lockup_Event ''lockup_delete'' (predecessor e) (lk_version c) (Some (lk_lockup_update_nonce c)) None None,
         Delete_Account (lk_owner_account_id c)]" if "delete_lockup e c = Inr c'"
    using that by (auto simp: delete_lockup_def lockup_assert_owner_def res_simps no_staking_or_idle_Inr Let_def lockup_emit_def news_def)
  have "lk_owner_account_id c' = lk_owner_account_id c" if "lockup_exec valid e m c = Inr c'"
    using lockup_exec_call [OF that] by (auto elim!: lockup_call.cases)
  with assms del lockup_exec_owner [of valid e m c c'] show ?thesis
    by (auto simp: get_owner_account_id_def get_venear_locked_balance_def get_venear_pending_balance_def)
qed

theorem lockup_owner_only_witness:
  "predecessor (lockup_at 0 102) = get_owner_account_id sample_l1 \<and> attached_deposit (lockup_at 0 102) = 1"
  using lockup_owner_only [of "\<lambda>_. True" "lockup_at 0 102" "Begin_Unlock_Near (Some 20)" sample_l1 sample_l2] sample_begin by simp

text \<open>
  C32. The owner gets the funds out: from every reachable state without a transaction in progress, with times, nonces and balances in
  range, starting to unlock everything is accepted; ending the unlock a period later is accepted and leaves nothing locked or
  pending; and then every amount in the account above the storage reserve can be sent to any valid account.
\<close>

theorem funds_withdrawable:
  assumes "lockup_reaches valid w" and "\<forall>s. lk_staking_information (lw_contract w) = Some s \<longrightarrow> si_status s = Idle"
    and "\<forall>x \<in> {e1, e2, e3}. predecessor x = get_owner_account_id (lw_contract w) \<and> attached_deposit x = 1"
    and "block_timestamp e1 + lk_unlock_duration_ns (lw_contract w) \<le> block_timestamp e2" and "block_timestamp e2 < 2 ^ 64"
    and "get_lockup_update_nonce (lw_contract w) + 2 < 2 ^ 64"
    and "account_balance e3 + get_known_deposited_balance (lw_contract w) < 2 ^ 128"
    and "0 < n" "n + lk_min_lockup_deposit (lw_contract w) \<le> account_balance e3" "valid receiver"
  shows "\<exists>c1 c2 c3. begin_unlock_near e1 None (lw_contract w) = Inr c1 \<and> end_unlock_near e2 None c1 = Inr c2
    \<and> get_venear_locked_balance c2 = 0 \<and> get_venear_pending_balance c2 = 0
    \<and> lockup_transfer valid e3 n receiver c2 = Inr c3 \<and> Send receiver n \<in> set (news c2 c3)"
proof -
  let ?c = "lw_contract w"
  let ?t = "block_timestamp e1 + lk_unlock_duration_ns ?c"
  define c1 where "c1 = amounts_set e1 0 (lk_venear_pending_balance ?c + lk_venear_locked_balance ?c) ?t [] ?c"
  define c2 where "c2 = amounts_set e2 0 0 ?t [] c1"
  have "lk_venear_locked_balance ?c + lk_venear_pending_balance ?c < 2 ^ 128"
    using lockup_reaches_inv [OF assms(1)] by (simp add: lockup_world_inv_def width_ok_def)
  then have 1: "begin_unlock_near e1 None ?c = Inr c1"
    using assms(3-6) by (simp add: c1_def lockup_defs lockup_guards told_def amounts_set_def assert_one_yocto_def get_owner_account_id_def
        get_lockup_update_nonce_def require_def add_u_def sub_u_def)
  have 2: "end_unlock_near e2 None c1 = Inr c2"
    using assms(3-6) by (simp add: c2_def lockup_defs lockup_guards told_def amounts_set_def assert_one_yocto_def get_owner_account_id_def
        get_lockup_update_nonce_def require_def add_u_def sub_u_def) (simp add: c1_def amounts_set_def)
  have f: "lk_venear_locked_balance c2 = 0" "lk_venear_pending_balance c2 = 0" "lk_staking_information c2 = lk_staking_information ?c"
    "lk_owner_account_id c2 = lk_owner_account_id ?c" "lk_min_lockup_deposit c2 = lk_min_lockup_deposit ?c"
    "get_known_deposited_balance c2 = get_known_deposited_balance ?c"
    by (simp_all add: c1_def c2_def amounts_set_def get_known_deposited_balance_def)
  have "venear_liquid_balance e3 c2 = Inr (account_balance e3 + get_known_deposited_balance ?c)"
    using assms(7) by (simp add: liquid_eq f)
  moreover have "assert_no_staking_or_idle c2 = Inr ()" using assms(2) by (simp add: no_staking_or_idle_Inr f)
  moreover have "n \<le> account_balance e3 - lk_min_lockup_deposit ?c" "n \<le> account_balance e3 + get_known_deposited_balance ?c"
    using assms(9) by linarith+
  ultimately have "\<exists>c3. lockup_transfer valid e3 n receiver c2 = Inr c3 \<and> Send receiver n \<in> set (news c2 c3)"
    using assms(3,8,10) by (simp add: lockup_transfer_def lockup_assert_owner_def assert_one_yocto_def get_owner_account_id_def require_def
        get_liquid_owners_balance_def get_account_balance_def saturating_sub_def lockup_emit_def news_def f)
  with 1 2 f(1,2) show ?thesis by (auto simp: get_venear_pending_balance_def get_venear_locked_balance_def)
qed

theorem funds_withdrawable_witness:
  "\<exists>c1 c2 c3. begin_unlock_near (lockup_at 4 103) None sample_l2 = Inr c1 \<and> end_unlock_near (lockup_at 104 104) None c1 = Inr c2
    \<and> get_venear_locked_balance c2 = 0 \<and> get_venear_pending_balance c2 = 0
    \<and> lockup_transfer (\<lambda>_. True) (lockup_at 105 105) 95 ''bob'' c2 = Inr c3 \<and> Send ''bob'' 95 \<in> set (news c2 c3)"
  using funds_withdrawable [OF sample_lockup_reaches(1), of "lockup_at 4 103" "lockup_at 104 104" "lockup_at 105 105" 95 "''bob''"]
  by (simp add: lockup_sample_def) (simp add: lockup_sample_defs get_owner_account_id_def get_lockup_update_nonce_def get_known_deposited_balance_def)

text \<open>
  The contract deals with the pool one request at a time: while a request is under way no accepted call sends
  another one or pays anything out, the account is not deleted, and every other call than locking and unlocking is refused.
\<close>

theorem one_request_at_a_time:
  assumes "lockup_reaches valid w" and "lw_request w \<noteq> None"
  shows "delete_lockup e (lw_contract w) \<noteq> Inr c' \<and> (lockup_exec valid e m (lw_contract w) = Inr c' \<longrightarrow>
      locking m \<and> taken (news (lw_contract w) c') = 0 \<and> asked (news (lw_contract w) c') (lw_request w) = lw_request w
      \<and> lk_staking_information c' = lk_staking_information (lw_contract w))"
proof -
  have "busy (lw_contract w)" using lockup_reaches_inv [OF assms(1)] assms(2) by (simp add: lockup_world_inv_def busy_ok_def busy_def)
  note b = busy_exec [OF this] busy_call [OF this] busy_delete [OF this]
  show ?thesis by (intro conjI impI b) assumption+
qed

theorem one_request_at_a_time_witness:
  "delete_lockup (lockup_at 6 105) sample_l5 \<noteq> Inr sample_l5
    \<and> lockup_exec (\<lambda>_. True) (lockup_at 6 105) Withdraw_All_From_Staking_Pool sample_l5 \<noteq> Inr sample_l5"
  using one_request_at_a_time [OF sample_lockup_reaches(2), of "lockup_at 6 105" sample_l5 Withdraw_All_From_Staking_Pool]
  by (simp add: lockup_sample_def del: lockup_exec.simps)

text \<open>
  C33. A failed query blocks the account: the callbacks of the two balance queries do not run their body when the
  query has failed, so the contract stays busy, and from then on every continuation refuses to
  transfer, to deal with the pool, to unselect it and to delete the account.
\<close>

theorem failed_query_blocks:
  assumes "lockup_reaches valid w" and "lw_request w = Some Total_Request \<or> lw_request w = Some Unstaked_Request"
    and "(lockup_step valid)\<^sup>*\<^sup>* (w\<lparr>lw_request := None\<rparr>) w'"
  shows "lockup_step valid w (w\<lparr>lw_request := None\<rparr>)
    \<and> on_get_account_total_balance e None (lw_contract w) \<noteq> Inr c'
    \<and> on_get_account_unstaked_balance_to_withdraw_by_owner e None (lw_contract w) \<noteq> Inr c'
    \<and> delete_lockup e (lw_contract w') \<noteq> Inr c' \<and> (\<not> locking m \<longrightarrow> lockup_exec valid e m (lw_contract w') \<noteq> Inr c')"
proof -
  have "stuck (w\<lparr>lw_request := None\<rparr>)" using lockup_reaches_inv [OF assms(1)] assms(2)
    by (auto simp: lockup_world_inv_def busy_ok_def busy_def stuck_def)
  then have "busy (lw_contract w')" using stuck_steps [OF assms(3)] by (simp add: stuck_def)
  note b = busy_exec [OF this] busy_delete [OF this]
  show ?thesis using b lockup_step.query_failed [OF assms(2)]
    by (auto simp: on_get_account_total_balance_def on_get_account_unstaked_balance_to_withdraw_by_owner_def and_then_eq_Inr expect_def)
qed

theorem failed_query_blocks_witness:
  "delete_lockup (lockup_at 6 105) sample_l5 \<noteq> Inr sample_l5
    \<and> lockup_exec (\<lambda>_. True) (lockup_at 6 105) (Transfer_Near 1 ''bob'') sample_l5 \<noteq> Inr sample_l5"
proof -
  have "(lockup_step (\<lambda>_. True))\<^sup>*\<^sup>* ((lockup_sample sample_l5 104 5 (Some Total_Request))\<lparr>lw_request := None\<rparr>)
      (lockup_sample sample_l5 104 5 None)" by (simp add: lockup_sample_def)
  from failed_query_blocks [OF sample_lockup_reaches(2) _ this, of "lockup_at 6 105" sample_l5 "Transfer_Near 1 ''bob''"]
  show ?thesis by (simp add: lockup_sample_def del: lockup_exec.simps)
qed

end
