(* ===== verification/Composition.thy ===== *)
theory Composition
  imports Venear_Properties Voting_Properties Lockup_Properties
begin

text \<open>
  The contracts together. The updates of a lockup arrive at the veNEAR contract, whose record of the owner
  ends with the balance that the lockup has locked; the snapshot that the veNEAR contract hands to the
  voting contract is a roll of voters as the voting contract assumes it, and no ballot counts more voting
  power than there is.
\<close>

section \<open>From the lockup to the veNEAR contract\<close>

definition near_of :: "venear \<Rightarrow> account_id \<Rightarrow> nat option" where
  "near_of c x = map_option (\<lambda>a. near_balance (balance a)) (internal_get_account c x)"

definition deposit_of :: "venear \<Rightarrow> account_id \<Rightarrow> nat option" where
  "deposit_of c x = map_option ai_deposit (internal_get_account_internal c x)"

lemma near_of_ledger: "near_of c x = map_option (\<lambda>(b, ds). near_balance b) (ledger_of T c x)"
  by (simp add: near_of_def ledger_of_def book_def owns_def option.map_comp comp_def)

text \<open>The calls of the veNEAR contract that concern the lockup of \<open>x\<close>.\<close>

fun lockup_call_of :: "account_id \<Rightarrow> venear_msg \<Rightarrow> bool" where
  "lockup_call_of x (On_Lockup_Update v y u) \<longleftrightarrow> y = x"
| "lockup_call_of x (On_Lockup_Deployed ok args) \<longleftrightarrow> ola_account_id args = x"
| "lockup_call_of x _ \<longleftrightarrow> False"

text \<open>All others leave its record alone.\<close>

lemma exec_elsewhere:
  assumes inv: "venear_inv X T c" and e: "T = now e" "block_timestamp e < 2 ^ 64"
    and r: "venear_exec X e m c = Inr c'" and m: "\<not> lockup_call_of x m" and x: "nonce_of c x = Some n"
  shows "nonce_of c' x = Some n \<and> near_of c' x = near_of c x \<and> deposit_of c' x = deposit_of c x"
proof (cases "touches_book m")
  case False
  from exec_other_frame [OF r False] x show ?thesis
    by (simp add: near_of_def deposit_of_def nonce_of_def internal_get_account_def internal_get_account_internal_def)
next
  case True
  then consider (deposit) a where "m = Storage_Deposit a" | (delegate) es where "m = Set_Delegations es"
    | (update) v y w where "m = On_Lockup_Update v y w" | (deployed) s args where "m = On_Lockup_Deployed s args"
    by (cases m) auto
  then show ?thesis
  proof cases
    case deposit
    then obtain b where "storage_deposit X e a c = Inr (c', b)" using r by (auto simp: res_simps)
    from storage_deposit_cases [OF this] consider "ve_tree c' = ve_tree c" "ve_accounts c' = ve_accounts c"
      | c1 y d where "internal_register_account X e y d c = Inr c1" "ve_tree c' = ve_tree c1" "ve_accounts c' = ve_accounts c1" by blast
    then show ?thesis
    proof cases
      case 1
      with x show ?thesis
        by (simp add: near_of_def deposit_of_def nonce_of_def internal_get_account_def internal_get_account_internal_def)
    next
      case 2
      from register_effect [OF inv e 2(1)] have new: "ledger_of T c y = None"
        and l: "ledger_of T c1 = (ledger_of T c)(y \<mapsto> (vb_from_near d, []))"
        and a: "ve_accounts c1 = (ve_accounts c)(y \<mapsto> Current \<lparr>ai_lockup_version = None, ai_deposit = d, ai_lockup_update_nonce = 0\<rparr>)"
        by auto
      from new have "ve_accounts c y = None" using inv by (metis domIff internals_ok_def venear_inv_def)
      then have "x \<noteq> y" using x by (auto simp: nonce_of_def internal_get_account_internal_def)
      moreover have "near_of c' x = near_of c1 x" using 2(2) by (simp add: near_of_def internal_get_account_def)
      ultimately show ?thesis using 2(3) a x
        by (simp add: near_of_ledger [of _ x T] l deposit_of_def nonce_of_def internal_get_account_internal_def)
    qed
  next
    case delegate
    then obtain b ds where "ledger_of T c (predecessor e) = Some (b, ds)" "ledger_of T c' = (ledger_of T c)(predecessor e \<mapsto> (b, es))"
      "same_rest c c'" using r set_delegations_effect [OF inv e, of es c'] by auto
    then show ?thesis using x
      by (auto simp: near_of_ledger [of _ x T] same_rest_def deposit_of_def nonce_of_def internal_get_account_internal_def)
  next
    case update
    obtain u where "w = VLockupUpdate_V1 u" by (cases w)
    then have r': "on_lockup_update X e v y (VLockupUpdate_V1 u) c = Inr c'" using r update by simp
    have y: "x \<noteq> y" using m update by simp
    obtain i w c1 where 1: "VLockupUpdate_V1 u = VLockupUpdate_V1 w" "internal_get_account_internal c y = Some i"
      "ve_tree c1 = ve_tree c" "same_rest c c1" "internal_lockup_update X e y i w c1 = Inr c'"
      by (rule on_lockup_update_cases [OF r']) blast
    have inv1: "venear_inv X T c1" using 1 inv venear_inv_cong [of c1 c] by (simp add: same_rest_def)
    have i1: "internal_get_account_internal c1 y = Some i" using 1 same_rest_simps(5) by simp
    from lockup_update_effect [OF inv1 e i1 1(5)] y have "ledger_of T c' x = ledger_of T c1 x" "ve_accounts c' x = ve_accounts c1 x" by auto
    then show ?thesis using x 1(4) book_cong(4) [OF 1(3)]
      by (simp add: near_of_ledger [of _ x T] same_rest_def deposit_of_def nonce_of_def internal_get_account_internal_def)
  next
    case deployed
    then obtain l where d: "on_lockup_deployed X e s args c = Inr (c', l)" using r by (auto simp: res_simps)
    have "ola_account_id args \<noteq> x" using m deployed by simp
    then show ?thesis using on_lockup_deployed_frame [OF d] x
      by (auto simp: near_of_def internal_get_account_def deposit_of_def nonce_of_def internal_get_account_internal_def)
  qed
qed

text \<open>An accepted update of \<open>x\<close>.\<close>

lemma exec_update:
  assumes inv: "venear_inv X T c" and e: "T = now e" "block_timestamp e < 2 ^ 64"
    and r: "on_lockup_update X e v x (VLockupUpdate_V1 u) c = Inr c'"
  shows "nonce_of c' x = Some (lu_nonce u) \<and> (\<exists>d. deposit_of c' x = Some d \<and> near_of c' x = Some (locked_near_balance u + d))"
proof -
  from lockup_accepted [OF inv e r] obtain b ds i where
    "ledger_of T c' = (ledger_of T c)(x \<mapsto> (relocked b (ai_deposit i) (locked_near_balance u), ds))"
    "internal_get_account_internal c' x = Some (i\<lparr>ai_lockup_update_nonce := lu_nonce u\<rparr>)" by blast
  then show ?thesis by (simp add: near_of_ledger [of _ x T] nonce_of_def deposit_of_def relocked_def)
qed

text \<open>The calls that reach the veNEAR contract about the lockup of \<open>x\<close> are updates out of \<open>us\<close>, in any order and any number.\<close>

definition carries_updates :: "account_id \<Rightarrow> lockup_update_v1 list \<Rightarrow> (env \<times> venear_msg) list \<Rightarrow> bool" where
  "carries_updates x us calls \<longleftrightarrow> (\<forall>(e, m) \<in> set calls. lockup_call_of x m \<longrightarrow>
     (\<exists>v u. m = On_Lockup_Update v x (VLockupUpdate_V1 u) \<and> u \<in> set us))"

definition settled :: "account_id \<Rightarrow> nat \<Rightarrow> lockup_update_v1 list \<Rightarrow> venear \<Rightarrow> bool" where
  "settled x n0 us c \<longleftrightarrow> (\<exists>n. nonce_of c x = Some n \<and> (n = n0
     \<or> (\<exists>u \<in> set us. n = lu_nonce u \<and> (\<exists>d. deposit_of c x = Some d \<and> near_of c x = Some (locked_near_balance u + d)))))"

lemma exec_settled:
  assumes inv: "venear_inv X T c" and e: "T = now e" "block_timestamp e < 2 ^ 64" and r: "venear_exec X e m c = Inr c'"
    and m: "lockup_call_of x m \<longrightarrow> (\<exists>v u. m = On_Lockup_Update v x (VLockupUpdate_V1 u) \<and> u \<in> set us)" and s: "settled x n0 us c"
  shows "settled x n0 us c'"
proof (cases "lockup_call_of x m")
  case True
  then obtain v u where u: "m = On_Lockup_Update v x (VLockupUpdate_V1 u)" "u \<in> set us" using m by blast
  then have "on_lockup_update X e v x (VLockupUpdate_V1 u) c = Inr c'" using r by simp
  from exec_update [OF inv e this] u(2) show ?thesis by (auto simp: settled_def)
next
  case False
  obtain n where "nonce_of c x = Some n" using s by (auto simp: settled_def)
  from exec_elsewhere [OF inv e r False this] this s show ?thesis by (simp add: settled_def)
qed

lemma run_settled:
  assumes "venear_run_inv X (t, c)" "carries_updates x us ms" "settled x n0 us c" "run (venear_deliver X) ms (t, c) = (t', c')"
  shows "settled x n0 us c'"
  using assms
proof (induction ms arbitrary: t c)
  case (Cons em ms)
  obtain e m where em: "em = (e, m)" by fastforce
  obtain t1 c1 where s1: "after (venear_deliver X em (t, c)) (t, c) = (t1, c1)" by fastforce
  have inv1: "venear_run_inv X (t1, c1)" using vem.after_keeps [OF Cons.prems(1), of em] s1 by simp
  have "settled x n0 us c1"
  proof (cases "venear_deliver X em (t, c)")
    case (Inl p)
    then show ?thesis using s1 Cons.prems(3) by (auto simp: after_def)
  next
    case (Inr r)
    then have "fst r = (t1, c1)" using s1 by (cases r) (simp add: after_def)
    with Inr obtain c' where c': "t \<le> block_timestamp e" "block_timestamp e < 2 ^ 64" "venear_exec X e m c = Inr c'" "c1 = c'"
      using s1 by (cases r) (auto simp: em after_def venear_deliver_eq_Inr dest: sym)
    show ?thesis
      using exec_settled [OF venear_inv_at_call [OF Cons.prems(1) c'(1,2)] refl c'(2,3) _ Cons.prems(3)] c'(4) Cons.prems(2)
      by (simp add: carries_updates_def em)
  qed
  from Cons.IH [OF inv1 _ this] show ?case using Cons.prems(2,4) s1 by (simp add: carries_updates_def)
qed simp

text \<open>
  C9. The veNEAR contract follows the lockup: whatever calls it receives, with the updates of a lockup among them in
  any order, repeated or lost, as soon as it has accepted the last one the NEAR it records for the owner is what
  the lockup has locked plus the owner's storage deposit.
\<close>

theorem locked_balance_arrives:
  assumes "lockup_reaches valid w" and "updates (lw_contract w) \<noteq> []"
    and "venear_run_inv X (t, c)" and "carries_updates x (updates (lw_contract w)) calls"
    and "run (venear_deliver X) calls (t, c) = (t', c')"
    and "nonce_of c x = Some n0" and "n0 < get_lockup_update_nonce (lw_contract w)"
    and "nonce_of c' x = Some (get_lockup_update_nonce (lw_contract w))"
  shows "\<exists>a i. internal_get_account c' x = Some a \<and> internal_get_account_internal c' x = Some i
    \<and> near_balance (balance a) = get_venear_locked_balance (lw_contract w) + ai_deposit i"
proof -
  let ?us = "updates (lw_contract w)"
  have us: "sorted_wrt (<) (map lu_nonce ?us)" "lu_nonce (last ?us) = get_lockup_update_nonce (lw_contract w)"
    "locked_near_balance (last ?us) = get_venear_locked_balance (lw_contract w)"
    using lockup_reaches_inv [OF assms(1)] assms(2)
    by (simp_all add: lockup_world_inv_def updates_ok_def get_lockup_update_nonce_def get_venear_locked_balance_def)
  have "settled x n0 ?us c" using assms(6) by (simp add: settled_def)
  from run_settled [OF assms(3,4) this assms(5)] assms(7,8) obtain u d where u: "u \<in> set ?us" "lu_nonce u = lu_nonce (last ?us)"
    "deposit_of c' x = Some d" "near_of c' x = Some (locked_near_balance u + d)" by (auto simp: settled_def us(2))
  have "inj_on lu_nonce (set ?us)" using us(1) strict_sorted_iff [of "map lu_nonce ?us"] by (simp add: distinct_map)
  from inj_onD [OF this u(2)] u(1) assms(2) have "u = last ?us" by simp
  with u(3,4) us(3) show ?thesis by (auto simp: deposit_of_def near_of_def)
qed

theorem locked_balance_arrives_witness:
  "\<exists>c c' a i. on_lockup_update sample_ext (sample_env ''00.v'' 0 0) 1 ''alice'' (VLockupUpdate_V1 (last (updates sample_l2))) c = Inr c'
    \<and> internal_get_account c' ''alice'' = Some a \<and> internal_get_account_internal c' ''alice'' = Some i
    \<and> near_balance (balance a) = 30 + ai_deposit i"
proof -
  let ?e = "sample_env ''00.v'' 0 0" and ?calls = "[(sample_env ''00.v'' 0 0, On_Lockup_Update 1 ''alice'' (VLockupUpdate_V1 (sample_update 7 30)))]"
  have l2: "updates sample_l2 = [sample_update 6 50, sample_update 7 30]" "get_lockup_update_nonce sample_l2 = 7"
    "get_venear_locked_balance sample_l2 = 30"
    by (simp_all add: updates_def get_lockup_update_nonce_def get_venear_locked_balance_def lockup_sample_defs sample_update_def)
  obtain c where c: "venear_inv sample_ext 0 c" "ledger_of 0 c = sample_ledger" "internal_get_account_internal c ''alice'' = Some sample_internal"
    using sample_lockup_account by blast
  obtain c' where c': "on_lockup_update sample_ext ?e 1 ''alice'' (VLockupUpdate_V1 (sample_update 7 30)) c = Inr c'"
    using sample_update_accepted [OF c(1,3), of 7 "vb_from_near (10 ^ 23)" 30] c(2)
    by (auto simp: sample_internal_def sample_ledger_def vb_from_near_def fun_upd_twist)
  have "nonce_of c' ''alice'' = Some 7"
    using exec_update [OF c(1) _ _ c'] by (simp add: now_def sample_env_def truncate_to_seconds_def sample_update_def)
  moreover have "run (venear_deliver sample_ext) ?calls (0, c) = (0, c')"
    using c' by (simp add: venear_deliver_def after_def sample_env_def del: One_nat_def)
  moreover have "venear_run_inv sample_ext (0, c)" using c(1) by (simp add: venear_run_inv_def truncate_to_seconds_def)
  moreover have "carries_updates ''alice'' (updates sample_l2) ?calls" by (simp add: carries_updates_def l2)
  moreover have "nonce_of c ''alice'' = Some 5" using c(3) by (simp add: nonce_of_def sample_internal_def)
  ultimately have "\<exists>a i. internal_get_account c' ''alice'' = Some a \<and> internal_get_account_internal c' ''alice'' = Some i
      \<and> near_balance (balance a) = 30 + ai_deposit i"
    using locked_balance_arrives [OF sample_lockup_reaches(1), of sample_ext 0 c "''alice''" ?calls 0 c' 5] l2
    by (simp add: lockup_sample_def)
  with c' show ?thesis by (auto simp: l2)
qed

section \<open>From the veNEAR contract to the voting contract\<close>

text \<open>The voting power of an account at a time, as the veNEAR contract knows it.\<close>

definition voter_power :: "nat \<Rightarrow> venear \<Rightarrow> account_id \<Rightarrow> nat" where
  "voter_power t c x = (case internal_get_account c x of None \<Rightarrow> 0
     | Some a \<Rightarrow> (case total_balance t (internal_get_venear_growth_config c) a of Inr n \<Rightarrow> n | Inl _ \<Rightarrow> 0))"

lemma voter_power_eq: "ft_balance_of e c x = Inr n \<Longrightarrow> voter_power (block_timestamp e) c x = n"
  by (auto simp: ft_balance_of_def voter_power_def split: option.splits)

text \<open>The papers \<open>V\<close> against a tree: no two different values or nodes among what is hashed have the same hash.\<close>

definition no_collision :: "vaccount hasher \<Rightarrow> (merkle_proof \<times> vaccount) set \<Rightarrow> (vaccount, vglobal_state) merkle_tree \<Rightarrow> bool" where
  "no_collision H V t \<longleftrightarrow> inj_on (to_vec H) (snd ` V \<union> ran (mt_get t))
     \<and> (\<forall>(q, v) \<in> V. \<forall>a r w. mt_get_proof t a = Inr (Some (r, w)) \<longrightarrow> inj_on (sha256 H) (proof_inputs H q v \<union> proof_inputs H r w))"

lemma paper_stored:
  assumes inv: "merkle_inv H t" and V: "no_collision H V t" "(q, v) \<in> V" and ok: "is_valid H q (mt_root t) (mt_length t) v"
  obtains a where "mt_get t a = Some v"
proof -
  let ?i = "proof_index q"
  have "?i < mt_length t" using ok by (auto simp: is_valid_def split: if_splits)
  then obtain w where w: "mt_data t ?i = Some w" using inv by (auto simp: merkle_inv_def index_ok_def dom_def)
  from \<open>?i < mt_length t\<close> obtain a where a: "mt_accounts t a = Some ?i" using inv by (auto simp: merkle_inv_def index_ok_def ran_def)
  have g: "mt_get t a = Some w" using a w by (simp add: mt_get_def)
  have "inj_on (sha256 H) (proof_inputs H q v \<union> proof_inputs H (\<lparr>proof_index = ?i,
      proof_path = map (\<lambda>k. node_hash H (mt_data t) (mt_length t) k (drop_bit k ?i XOR 1)) [0..<tree_height t - 1]\<rparr>) w)"
    using V mt_get_proof_reference [OF inv a w] unfolding no_collision_def by blast
  then have "to_vec H v = to_vec H w" by (rule is_valid_bytes [OF ok is_valid_reference [OF inv w], rotated]) simp
  moreover have "v \<in> snd ` V" "w \<in> ran (mt_get t)" using V(2) g by (force simp: ran_def)+
  moreover have "inj_on (to_vec H) (snd ` V \<union> ran (mt_get t))" using V(1) by (simp add: no_collision_def)
  ultimately have "v = w" by (meson UnCI inj_onD)
  with g show thesis by (simp add: that)
qed

lemma supply_is_power:
  assumes "venear_inv X (truncate_to_seconds t) c" "t < 2 ^ 64" "ledger_fits (ledger_of (truncate_to_seconds t) c)"
    and "global_state_update t (ve_global c) = Inr g" "pooled_total (total_venear_balance g) = Inr n"
  shows "n = (\<Sum>x \<in> dom (internal_get_account c). voter_power t c x)"
proof -
  let ?e = "at_time [] 0 t"
  have e: "truncate_to_seconds t = now ?e" "block_timestamp ?e < 2 ^ 64" "block_timestamp ?e = t"
    using assms(2) by (simp_all add: now_def at_time_def)
  have "ft_total_supply ?e c = Inr n" using assms(4,5) by (simp add: ft_total_supply_def internal_global_state_updated_def e(3))
  moreover have "ft_balance_of ?e c x = Inr (voter_power t c x)" if "x \<in> dom (internal_get_account c)" for x
    using ft_balance_of_ok [OF assms(1) e(1,2) assms(3) that] voter_power_eq [of ?e c x] e(3) by auto
  ultimately show ?thesis by (rule supply_conserved [OF assms(1) e(1,2)])
qed

text \<open>A contract in which alice alone is registered, with as much as the voter of the sample ballot has.\<close>

lemma sample_one_account:
  "\<exists>c. venear_inv sample_ext 0 c \<and> ledger_of 0 c = [''alice'' \<mapsto> (vb_from_near 5000, [])]"
proof -
  let ?e = "sample_env ''alice'' 0 0"
  have inv0: "venear_inv sample_ext 0 sample_new"
    using sample_new_inv by (simp add: venear_run_inv_def truncate_to_seconds_def)
  have L0: "ledger_of 0 sample_new = Map.empty"
    by (auto simp: ledger_of_def book_def internal_get_account_def sample_new_def)
  have env: "0 = now ?e" "block_timestamp ?e < 2 ^ 64" by (simp_all add: sample_env_def now_def truncate_to_seconds_def)
  obtain c where "internal_register_account sample_ext ?e ''alice'' 5000 sample_new = Inr c"
  proof (rule exE [OF register_available [OF inv0 env, of "''alice''" 5000]])
    show "near_balance (total_at 0 sample_new) + extra_venear_balance (total_at 0 sample_new) + 5000 < 2 ^ 128"
      using supply_bound [OF inv0] by (simp add: L0 pool_sum_def)
  qed (simp_all add: sample_new_def mt_new_def)
  from register_effect [OF inv0 env this] show ?thesis by (auto simp: L0)
qed

text \<open>What the contracts read of it at time 3.\<close>

lemma sample_one_power:
  assumes inv: "venear_inv sample_ext 0 c" and L: "ledger_of 0 c = [''alice'' \<mapsto> (vb_from_near 5000, [])]"
  shows "dom (internal_get_account c) = {''alice''}" "ledger_fits (ledger_of 0 c)" "voter_power 3 c = sample_roll s"
    "\<exists>g. global_state_update 3 (ve_global c) = Inr g \<and> pooled_total (total_venear_balance g) = Inr 5000"
proof -
  let ?e = "at_time [] 0 3"
  have e: "0 = now ?e" "block_timestamp ?e < 2 ^ 64" by (simp_all add: now_def at_time_def truncate_to_seconds_def)
  show dom: "dom (internal_get_account c) = {''alice''}" using dom_ledger_of [of 0 c] L by simp
  show fits: "ledger_fits (ledger_of 0 c)" by (simp add: L ledger_fits_def pool_sum_def vb_from_near_def)
  obtain n where n: "ft_balance_of ?e c ''alice'' = Inr n" using ft_balance_of_ok [OF inv e fits, of "''alice''"] unfolding dom by auto
  have wf: "book_wf sample_ext 0 c" using inv by (simp add: venear_inv_def)
  obtain b where b: "book 0 c ''alice'' = Some b" "owned_total b = Inr n"
    by (rule ft_balance_of_owned [OF wf e n]) (simp_all add: dom)
  have own: "balance b = vb_from_near 5000" "delegations b = []"
    using b(1) fun_cong [OF L, of "''alice''"] by (simp_all add: ledger_of_def owns_def)
  have "\<forall>f \<in> parts. f (delegated_balance b) = 0"
    using inv b(1) by (simp add: venear_inv_def derived_ok_def L received_def share_to_def)
  then have "n = 5000" using owned_total_value [OF _ b(2)] own by (simp add: parts_def passed_on_def bps_ok_def vb_from_near_def)
  then have p: "voter_power 3 c ''alice'' = 5000" using voter_power_eq [OF n] by (simp add: at_time_def)
  show "voter_power 3 c = sample_roll s"
  proof
    show "voter_power 3 c x = sample_roll s x" for x
      using p dom by (cases "x = ''alice''") (auto simp: sample_roll_def voter_power_def dom_def split: option.splits)
  qed
  obtain m where m: "ft_total_supply ?e c = Inr m" using ft_total_supply_ok [OF inv e fits] by blast
  then obtain g where g: "global_state_update 3 (ve_global c) = Inr g" "pooled_total (total_venear_balance g) = Inr m"
    by (auto simp: ft_total_supply_def internal_global_state_updated_def at_time_def res_simps)
  have "m = 5000" using supply_is_power [OF _ _ _ g] inv fits dom p by (simp add: truncate_to_seconds_def)
  with g show "\<exists>g. global_state_update 3 (ve_global c) = Inr g \<and> pooled_total (total_venear_balance g) = Inr 5000" by blast
qed

text \<open>
  C10. The snapshot of the veNEAR contract is what the voting contract relies on. A proof that verifies against it, short of a
  hash collision, is for the record of its account, so all proofs of one account give the same voting power; and the total that the
  voting contract derives from the snapshot is the sum of the voting power of all accounts.
\<close>

theorem snapshot_is_a_roll:
  assumes "venear_inv X (now e) c" and "block_timestamp e < 2 ^ 64" and "vx_hasher VX = ext_hasher X"
    and "no_collision (ext_hasher X) V (ve_tree c)"
    and "\<forall>g n. roll (taken_snapshot e (fst (current_snapshot (ve_tree c))) g n) = voter_power (block_timestamp e) c"
  shows "answer_ok VX V roll e (Some (current_snapshot (ve_tree c)))
    \<and> (\<forall>g n. ledger_fits (ledger_of (now e) c) \<longrightarrow> global_state_update (block_timestamp e) (global_from (snd (current_snapshot (ve_tree c)))) = Inr g
        \<longrightarrow> pooled_total (total_venear_balance g) = Inr n \<longrightarrow> n = (\<Sum>x \<in> dom (internal_get_account c). voter_power (block_timestamp e) c x))"
proof
  let ?t = "ve_tree c"
  have wf: "book_wf X (now e) c" using assms(1) by (simp add: venear_inv_def)
  have inv: "merkle_inv (ext_hasher X) ?t" using wf by (simp add: book_wf_def)
  have "roll_ok VX V roll (taken_snapshot e (fst (current_snapshot ?t)) g n)" (is "roll_ok _ _ _ ?s")
    if g: "global_state_update (block_timestamp e) (global_from (snd (current_snapshot ?t))) = Inr g" for g n
    unfolding roll_ok_def
  proof clarify
    fix q v w
    assume v: "(q, v) \<in> V" and ok: "is_valid (vx_hasher VX) q (snap_root (ss_snapshot ?s)) (snap_length (ss_snapshot ?s)) v"
      and w: "total_balance (ss_timestamp_ns ?s) (ss_venear_growth_config ?s) (account_from v) = Inr w"
    obtain a where a: "mt_get ?t a = Some v"
      using paper_stored [OF inv assms(4) v] ok assms(3) by (auto simp: taken_snapshot_def current_snapshot_def)
    then have i: "internal_get_account c a = Some (account_from v)" by (simp add: internal_get_account_def)
    then have "acc_account_id (account_from v) = a" using wf by (auto simp: book_wf_def account_wf_def)
    moreover have "growth_config g = internal_get_venear_growth_config c"
      using global_updated(3) [OF wf refl assms(2)] g
      by (simp add: internal_global_state_updated_def current_snapshot_def growth_config_ve_global)
    moreover have "roll ?s = voter_power (block_timestamp e) c" using assms(5) by blast
    ultimately show "roll ?s (acc_account_id (account_from v)) = w" using w i by (simp add: voter_power_def taken_snapshot_def)
  qed
  then show "answer_ok VX V roll e (Some (current_snapshot ?t))" by (cases "current_snapshot ?t") (simp add: answer_ok_def)
  show "\<forall>g n. ledger_fits (ledger_of (now e) c) \<longrightarrow> global_state_update (block_timestamp e) (global_from (snd (current_snapshot ?t))) = Inr g
        \<longrightarrow> pooled_total (total_venear_balance g) = Inr n \<longrightarrow> n = (\<Sum>x \<in> dom (internal_get_account c). voter_power (block_timestamp e) c x)"
    using supply_is_power [of X "block_timestamp e" c] assms(1,2) by (auto simp: now_def current_snapshot_def)
qed

theorem snapshot_is_a_roll_witness:
  "\<exists>(c :: venear) q v. mt_get (ve_tree c) ''alice'' = Some v
    \<and> answer_ok sample_voting_ext {(q, v)} sample_roll (at_time ''voting'' 0 3) (Some (current_snapshot (ve_tree c)))"
proof -
  obtain c where c: "venear_inv sample_ext 0 c" "ledger_of 0 c = [''alice'' \<mapsto> (vb_from_near 5000, [])]" using sample_one_account by blast
  let ?H = "ext_hasher sample_ext" and ?t = "ve_tree c" and ?e = "at_time ''voting'' 0 3"
  have wf: "book_wf sample_ext 0 c" using c(1) by (simp add: venear_inv_def)
  have inv: "merkle_inv ?H ?t" using wf by (simp add: book_wf_def)
  have dom: "dom (mt_get ?t) = {''alice''}" using sample_one_power(1) [OF c] by (simp add: internal_get_account_def dom_def)
  then obtain v where v: "mt_get ?t ''alice'' = Some v" by (metis domD singletonI)
  have ran: "ran (mt_get ?t) = {v}" using dom_eq_singleton_conv [THEN iffD1, OF dom] v by auto
  have "leading_zeros k 0 = k" for k by (induction k) simp_all
  then have h: "tree_height ?t = 1" using tree_length_ledger [OF wf] c(2) by (simp add: tree_height_def height_of_length_def)
  let ?q = "\<lparr>proof_index = 0, proof_path = []\<rparr>"
  have "proof_path r = []" if p: "mt_get_proof ?t a = Inr (Some (r, w))" for a r w
    using p h by (auto simp: mt_get_proof_def res_simps split: option.splits)
  then have "no_collision ?H {(?q, v)} ?t"
    by (auto simp: no_collision_def ran proof_inputs_def) (simp add: sample_ext_def)
  then have "answer_ok sample_voting_ext {(?q, v)} sample_roll ?e (Some (current_snapshot ?t))"
    using snapshot_is_a_roll [of sample_ext ?e c sample_voting_ext "{(?q, v)}" sample_roll] c(1) sample_one_power(3) [OF c]
    by (simp add: now_def at_time_def truncate_to_seconds_def sample_ext_def sample_voting_ext_def)
  with v show ?thesis by blast
qed

text \<open>
  C11. No ballot counts more voting power than there is: when the snapshot of a proposal is that of a veNEAR state, the voting power
  recorded on it is at most the total supply in the snapshot, which the quorum refers to, and no option has more than all together.
\<close>

theorem votes_within_supply:
  assumes "voting_reaches VX V roll w" and "stored (vw_contract w) i = Some p" and "pr_snapshot_and_state p = Some s"
    and "venear_inv X (truncate_to_seconds (ss_timestamp_ns s)) c" and "ss_timestamp_ns s < 2 ^ 64"
    and "ledger_fits (ledger_of (truncate_to_seconds (ss_timestamp_ns s)) c)"
    and "roll s = voter_power (ss_timestamp_ns s) c"
    and "global_state_update (ss_timestamp_ns s) (ve_global c) = Inr g" "pooled_total (total_venear_balance g) = Inr (ss_total_venear s)"
  shows "vs_total_venear (pr_total_votes p) \<le> ss_total_venear s
    \<and> (\<forall>v. vs_total_venear (pr_votes p ! vote_option_u8 v) \<le> vs_total_venear (pr_total_votes p))"
proof -
  let ?b = "ballots_of (vw_contract w) i" and ?R = "voter_power (ss_timestamp_ns s) c" and ?D = "dom (internal_get_account c)"
  have t: "tally_ok ?R ?b p" using reaches_tally [OF assms(1,2)] assms(3,7) by (simp add: roll_of_def)
  then have fin: "finite (dom ?b)" and all: "vs_total_venear (pr_total_votes p) = (\<Sum>a \<in> dom ?b. ?R a)" by (simp_all add: tally_ok_def)
  have "finite ?D" using assms(4) by (simp add: venear_inv_def ledger_ok_def dom_ledger_of)
  have "(\<Sum>a \<in> dom ?b. ?R a) = (\<Sum>a \<in> dom ?b \<inter> ?D. ?R a)"
    by (rule sum.mono_neutral_right [OF fin]) (auto simp: voter_power_def split: option.splits)
  also have "\<dots> \<le> (\<Sum>a \<in> ?D. ?R a)" by (rule sum_mono2) (use \<open>finite ?D\<close> in auto)
  also have "\<dots> = ss_total_venear s" by (rule supply_is_power [OF assms(4-6,8,9), symmetric])
  finally have "vs_total_venear (pr_total_votes p) \<le> ss_total_venear s" by (simp add: all)
  moreover have "vs_total_venear (pr_votes p ! vote_option_u8 v) \<le> vs_total_venear (pr_total_votes p)" for v
  proof -
    have "vs_total_venear (pr_votes p ! vote_option_u8 v) = (\<Sum>a \<in> voters ?b (vote_option_u8 v). ?R a)"
      using t by (cases v) (simp_all add: tally_ok_def)
    also have "\<dots> \<le> (\<Sum>a \<in> dom ?b. ?R a)" by (rule sum_mono2 [OF fin]) (auto simp: voters_def)
    finally show ?thesis by (simp add: all)
  qed
  ultimately show ?thesis by blast
qed

theorem votes_within_supply_witness:
  "vs_total_venear (pr_total_votes sample_p5) \<le> ss_total_venear sample_snapshot \<and> vs_total_venear (pr_total_votes sample_p5) = 5000"
proof -
  obtain c where c: "venear_inv sample_ext 0 c" "ledger_of 0 c = [''alice'' \<mapsto> (vb_from_near 5000, [])]" using sample_one_account by blast
  obtain g where g: "global_state_update 3 (ve_global c) = Inr g" "pooled_total (total_venear_balance g) = Inr 5000"
    using sample_one_power(4) [OF c] by blast
  have s: "pr_snapshot_and_state sample_p5 = Some sample_snapshot" by (simp add: sample_p5_def sample_p4_def)
  have "stored (vw_contract (sample_world sample_c5 [] 231)) 0 = Some sample_p5" using sample_stored(2) by (simp add: sample_world_def)
  note r = votes_within_supply [OF sample_reaches(2) this s, of sample_ext c g]
  have "vs_total_venear (pr_total_votes sample_p5) \<le> ss_total_venear sample_snapshot"
    using r c g sample_one_power(2,3) [OF c] by (simp add: sample_snapshot_def truncate_to_seconds_def)
  then show ?thesis by (simp add: sample_p5_def)
qed

end
