(* ===== verification/Staking_State.thy ===== *)
theory Staking_State
  imports Near_Prelude
begin

text \<open>
  The staking contract (\<open>staking-contract/src\<close>): data types (\<open>types.rs\<close>, \<open>config.rs\<close>), the state (\<open>lib.rs\<close>), arithmetic of
  shares and prices (\<open>utils.rs\<close>) and the promises and events it emits. The wrappers
  \<open>VConfig\<close>, \<open>VValidator\<close> and so on have one variant each and are left out. The vectors and sets of the storage
  are lists in insertion order.
\<close>

section \<open>Types (\<open>types.rs\<close>)\<close>

type_synonym product_id = string
type_synonym price_id = string
type_synonym subscription_id = string
type_synonym lock_id = string
type_synonym purchase_id = string
type_synonym validator_id = account_id

record pool_account_view =
  pa_unstaked_balance :: nat
  pa_staked_balance :: nat
  pa_can_withdraw :: bool

definition pool_total_balance :: "pool_account_view \<Rightarrow> nat" where
  "pool_total_balance p = saturating_add 128 (pa_unstaked_balance p) (pa_staked_balance p)"

datatype price_type = OneOff | Recurring | Farm
datatype billing_period = Monthly
datatype catalog_status = Catalog_Active | Archived
datatype subscription_status = Subscription_Active | Subscription_Cancelled | Subscription_Expired
datatype validator_status = Validator_Active | Validator_Paused | Validator_Removed
datatype tx_status = Tx_Idle | Tx_Busy

record storage_account =
  sa_storage_deposit :: nat

record validator =
  va_validator_id :: validator_id
  va_catalog_manager_account_ids :: "account_id list"
  va_status :: validator_status
  va_total_shares :: nat
  va_total_staked_balance :: nat
  va_last_balance_refresh_ns :: nat
  va_pending_to_stake :: nat
  va_pending_to_unstake :: nat
  va_last_unstake_epoch :: nat
  va_last_settlement_epoch :: nat
  va_pending_to_withdraw :: nat
  va_pending_to_claim :: nat
  va_tx_status :: tx_status

definition pending_user_liability_yocto :: "validator \<Rightarrow> nat" where
  "pending_user_liability_yocto v =
     saturating_add 128 (saturating_add 128 (va_pending_to_unstake v) (va_pending_to_withdraw v)) (va_pending_to_claim v)"

definition pending_not_in_contract_yocto :: "validator \<Rightarrow> nat" where
  "pending_not_in_contract_yocto v = saturating_add 128 (va_pending_to_unstake v) (va_pending_to_withdraw v)"

definition gross_stake_yocto :: "validator \<Rightarrow> nat" where
  "gross_stake_yocto v = saturating_add 128 (va_total_staked_balance v) (va_pending_to_stake v)"

definition net_stake_yocto :: "validator \<Rightarrow> nat" where
  "net_stake_yocto v = saturating_sub (gross_stake_yocto v) (pending_not_in_contract_yocto v)"

record pending_unstake_tranche =
  tr_amount :: nat
  tr_available_epoch_height :: nat

datatype lock_status = Lock_Active | Lock_UnlockRequested | Lock_Withdrawn
datatype farm_status = Farm_Active | Farm_Closed

datatype order_ref =
    ProductPurchase product_id price_id
  | SubscriptionOrder subscription_id price_id nat nat

record product =
  pd_product_id :: product_id
  pd_validator_id :: validator_id
  pd_name :: string
  pd_description :: string
  pd_status :: catalog_status
  pd_created_ns :: nat
  pd_price_ids :: "price_id list"
  pd_default_price_id :: "price_id option"
  pd_usage_count :: nat

record price_metadata =
  pm_max_amount :: "nat option"
  pm_farm_reward_rate :: "nat option"

record price =
  pc_price_id :: price_id
  pc_product_id :: product_id
  pc_name :: string
  pc_description :: string
  pc_amount :: nat
  pc_price_type :: price_type
  pc_billing_period :: "billing_period option"
  pc_lock_factor_near_months :: nat
  pc_metadata :: "price_metadata option"
  pc_status :: catalog_status
  pc_usage_count :: nat

record pending_subscription_update =
  pu_target_price_id :: "price_id option"
  pu_target_amount :: "nat option"
  pu_apply_ns :: nat

record subscription =
  sb_subscription_id :: subscription_id
  sb_account_id :: account_id
  sb_product_id :: product_id
  sb_price_id :: price_id
  sb_start_ns :: nat
  sb_end_ns :: nat
  sb_anchor_day :: nat
  sb_last_lock_id :: lock_id
  sb_status :: subscription_status
  sb_cancel_at_period_end :: bool
  sb_pending_update :: "pending_subscription_update option"

record stake_lock =
  lo_lock_id :: lock_id
  lo_account_id :: account_id
  lo_validator_id :: validator_id
  lo_amount_near :: nat
  lo_shares :: nat
  lo_start_ns :: nat
  lo_end_ns :: nat
  lo_order :: order_ref
  lo_status :: lock_status

record purchase =
  pur_purchase_id :: purchase_id
  pur_account_id :: account_id
  pur_product_id :: product_id
  pur_price_id :: price_id
  pur_quantity :: nat
  pur_amount_paid :: nat
  pur_created_ns :: nat

record farm_pool =
  fp_price_id :: price_id
  fp_product_id :: product_id
  fp_reward_rate :: nat
  fp_total_farm_shares :: nat
  fp_acc_reward_per_share :: nat
  fp_last_reward_settle_ns :: nat

record farm_position =
  fo_account_id :: account_id
  fo_product_id :: product_id
  fo_price_id :: price_id
  fo_validator_id :: validator_id
  fo_shares :: nat
  fo_reward_debt :: nat
  fo_accrued_reward_units :: nat
  fo_status :: farm_status
  fo_created_ns :: nat
  fo_updated_ns :: nat

record farm_account =
  fa_account_id :: account_id
  fa_accumulated_reward_units :: nat
  fa_active_position_count :: nat
  fa_last_update_ns :: nat

text \<open>What to do after the settlement of a pool.\<close>

datatype user_action =
    CommitLock validator_id account_id nat nat order_ref
  | CommitRecurringSubscriptionLock validator_id account_id nat price_id
  | UnlockQueueUnstake validator_id lock_id account_id nat
  | WithdrawUserTransfer validator_id account_id
  | SettleOnly validator_id
  | SubscriptionUpdate validator_id account_id nat price_id nat subscription_id
  | CommitFarmStake validator_id account_id nat product_id price_id
  | FarmUnstakeQueue validator_id account_id product_id "nat option"

fun action_validator_id :: "user_action \<Rightarrow> validator_id" where
  "action_validator_id (CommitLock v _ _ _ _) = v"
| "action_validator_id (CommitRecurringSubscriptionLock v _ _ _) = v"
| "action_validator_id (UnlockQueueUnstake v _ _ _) = v"
| "action_validator_id (WithdrawUserTransfer v _) = v"
| "action_validator_id (SettleOnly v) = v"
| "action_validator_id (SubscriptionUpdate v _ _ _ _ _) = v"
| "action_validator_id (CommitFarmStake v _ _ _ _) = v"
| "action_validator_id (FarmUnstakeQueue v _ _ _) = v"

fun payable_refund :: "user_action \<Rightarrow> (account_id \<times> nat) option" where
  "payable_refund (CommitLock _ buyer locked _ _) = Some (buyer, locked)"
| "payable_refund (CommitRecurringSubscriptionLock _ buyer locked _) = Some (buyer, locked)"
| "payable_refund (SubscriptionUpdate _ buyer deposit _ _ _) = Some (buyer, deposit)"
| "payable_refund (CommitFarmStake _ account deposit _ _) = Some (account, deposit)"
| "payable_refund _ = None"

section \<open>Configuration and state (\<open>config.rs\<close>, \<open>lib.rs\<close>)\<close>

definition PROTOCOL_MIN_LOCK_AMOUNT_YOCTO :: nat where
  "PROTOCOL_MIN_LOCK_AMOUNT_YOCTO = 1000000000000000000000000"

definition require_min_lock_amount_at_protocol_floor :: "nat \<Rightarrow> unit res" where
  "require_min_lock_amount_at_protocol_floor n = require (PROTOCOL_MIN_LOCK_AMOUNT_YOCTO \<le> n)
     ''min_lock_amount must be at least 1 NEAR (stake pool delegation minimum)''"

record staking_config =
  sg_owner_account_id :: account_id
  sg_proposed_new_owner_account_id :: "account_id option"
  sg_guardians :: "account_id list"
  sg_min_lock_duration_ns :: nat
  sg_max_lock_duration_ns :: nat
  sg_epoch_unstake_settle_epochs :: nat
  sg_min_storage_deposit :: nat
  sg_per_lock_storage_stake :: nat
  sg_per_farm_position_storage_stake :: nat
  sg_per_purchase_storage_stake :: nat
  sg_min_lock_amount :: nat

text \<open>The callbacks that follow the question who owns a pool, with their arguments except for the caller.\<close>

datatype owner_callback =
    AddCatalogManager validator_id account_id
  | RemoveCatalogManager validator_id account_id
  | CreateProduct validator_id string string
  | EditProduct product_id string string
  | ArchiveProduct product_id
  | DeleteProduct product_id
  | UnarchiveProduct product_id
  | SetProductDefaultPrice product_id "price_id option"
  | CreatePrice product_id string string nat price_type "billing_period option" nat "price_metadata option"
  | EditPrice price_id "string option" "string option" "price_metadata option"
  | ArchivePrice price_id
  | DeletePrice price_id
  | UnarchivePrice price_id
  | WithdrawRevenue validator_id

text \<open>
  Promises with the callbacks that are chained to them, transfers, and events (name, texts and numbers in the order of
  the payload).
\<close>

datatype staking_effect =
    St_Event string "string list" "nat list"
  | St_Log string
  | St_Transfer account_id nat
  | St_Get_Account validator_id user_action
  | St_Pool_Withdraw validator_id nat user_action
  | St_Pool_Stake validator_id nat user_action
  | St_Pool_Unstake validator_id nat user_action
  | St_Tail user_action
  | St_Release validator_id
  | St_Get_Owner validator_id account_id owner_callback
  | St_Deploy_And_Migrate

record staking =
  st_config :: staking_config
  st_paused :: bool
  st_validators :: "validator_id \<rightharpoonup> validator"
  st_validator_ids :: "validator_id list"
  st_product_ids :: "product_id list"
  st_products :: "product_id \<rightharpoonup> product"
  st_prices :: "price_id \<rightharpoonup> price"
  st_accounts :: "account_id \<rightharpoonup> storage_account"
  st_account_ids :: "account_id list"
  st_subscriptions :: "subscription_id \<rightharpoonup> subscription"
  st_locks :: "lock_id \<rightharpoonup> stake_lock"
  st_lock_ids :: "lock_id list"
  st_locks_by_account :: "account_id \<rightharpoonup> lock_id list"
  st_user_validator_shares :: "account_id \<times> validator_id \<rightharpoonup> nat"
  st_user_pending_unstake :: "account_id \<times> validator_id \<rightharpoonup> pending_unstake_tranche list"
  st_user_pending_unstake_validator_count :: "account_id \<rightharpoonup> nat"
  st_user_lock_count :: "account_id \<rightharpoonup> nat"
  st_purchases :: "purchase_id \<rightharpoonup> purchase"
  st_purchase_ids :: "purchase_id list"
  st_purchases_by_account :: "account_id \<rightharpoonup> purchase_id list"
  st_purchases_by_product :: "product_id \<rightharpoonup> purchase_id list"
  st_user_purchase_count :: "account_id \<rightharpoonup> nat"
  st_revenue_by_validator :: "validator_id \<rightharpoonup> nat"
  st_farm_pools :: "price_id \<rightharpoonup> farm_pool"
  st_farm_positions :: "account_id \<times> product_id \<rightharpoonup> farm_position"
  st_farm_position_products_by_account :: "account_id \<rightharpoonup> product_id list"
  st_user_farm_position_count :: "account_id \<rightharpoonup> nat"
  st_farm_accounts :: "account_id \<rightharpoonup> farm_account"
  st_subscription_by_account_product :: "account_id \<times> product_id \<rightharpoonup> subscription_id"
  st_subscriptions_by_account :: "account_id \<rightharpoonup> subscription_id list"
  st_subscriptions_by_product :: "product_id \<rightharpoonup> subscription_id list"
  st_subscription_ids :: "subscription_id list"
  st_pending_update_target_price_counts :: "price_id \<rightharpoonup> nat"
  st_pending_update_target_product_counts :: "product_id \<rightharpoonup> nat"
  st_id_nonce :: nat
  st_outbox :: "staking_effect list"

definition staking_new :: "env \<Rightarrow> staking_config \<Rightarrow> staking res" where
  "staking_new e config =
     and_then (assert_no_deposit e ''new'') (\<lambda>_.
     and_then (require_min_lock_amount_at_protocol_floor (sg_min_lock_amount config)) (\<lambda>_. Inr
     \<lparr>st_config = config, st_paused = False, st_validators = Map.empty, st_validator_ids = [], st_product_ids = [],
      st_products = Map.empty, st_prices = Map.empty, st_accounts = Map.empty, st_account_ids = [],
      st_subscriptions = Map.empty, st_locks = Map.empty, st_lock_ids = [], st_locks_by_account = Map.empty,
      st_user_validator_shares = Map.empty, st_user_pending_unstake = Map.empty,
      st_user_pending_unstake_validator_count = Map.empty, st_user_lock_count = Map.empty, st_purchases = Map.empty,
      st_purchase_ids = [], st_purchases_by_account = Map.empty, st_purchases_by_product = Map.empty,
      st_user_purchase_count = Map.empty, st_revenue_by_validator = Map.empty, st_farm_pools = Map.empty,
      st_farm_positions = Map.empty, st_farm_position_products_by_account = Map.empty,
      st_user_farm_position_count = Map.empty, st_farm_accounts = Map.empty,
      st_subscription_by_account_product = Map.empty, st_subscriptions_by_account = Map.empty,
      st_subscriptions_by_product = Map.empty, st_subscription_ids = [],
      st_pending_update_target_price_counts = Map.empty, st_pending_update_target_product_counts = Map.empty,
      st_id_nonce = 0, st_outbox = []\<rparr>))"

definition st_emit :: "staking_effect \<Rightarrow> staking \<Rightarrow> staking" where
  "st_emit x c = c\<lparr>st_outbox := st_outbox c @ [x]\<rparr>"

definition or_zero :: "nat option \<Rightarrow> nat" where
  "or_zero x = (case x of None \<Rightarrow> 0 | Some n \<Rightarrow> n)"

definition set_insert :: "'a \<Rightarrow> 'a list \<Rightarrow> 'a list" where
  "set_insert x xs = (if x \<in> set xs then xs else xs @ [x])"

section \<open>Shares and prices (\<open>utils.rs\<close>)\<close>

definition LOCK_FACTOR_DENOM :: nat where "LOCK_FACTOR_DENOM = 1000000000000000000000000"
definition ST_NS_PER_DAY :: nat where "ST_NS_PER_DAY = 86400000000000"
definition AVG_MONTH_NS :: nat where "AVG_MONTH_NS = ST_NS_PER_DAY * 487 div 16"

text \<open>\<open>U256\<close> products of two 128-bit numbers do not overflow; \<open>as_u128\<close> panics if the quotient is too large.\<close>

definition as_u128 :: "nat \<Rightarrow> nat res" where
  "as_u128 n = check 128 n"

definition mint_shares :: "nat \<Rightarrow> nat \<Rightarrow> nat \<Rightarrow> nat res" where
  "mint_shares total_shares effective_total deposit =
     (if total_shares = 0 \<or> effective_total = 0 then Inr deposit
      else and_then (mul_u 256 deposit total_shares) (\<lambda>num. as_u128 (num div effective_total)))"

definition near_from_shares :: "nat \<Rightarrow> nat \<Rightarrow> nat \<Rightarrow> nat res" where
  "near_from_shares shares effective_total total_shares =
     (if total_shares = 0 then Inr 0
      else and_then (mul_u 256 shares effective_total) (\<lambda>num. as_u128 (num div total_shares)))"

definition required_near_months :: "price \<Rightarrow> nat res" where
  "required_near_months p =
     and_then (mul_u 256 (pc_amount p) (pc_lock_factor_near_months p)) (\<lambda>n. Inr (n div LOCK_FACTOR_DENOM))"

definition check_near_price_lock :: "price \<Rightarrow> nat \<Rightarrow> nat \<Rightarrow> unit res" where
  "check_near_price_lock p locked_yocto duration_ns =
     and_then (mul_u 256 locked_yocto duration_ns) (\<lambda>lhs.
     and_then (required_near_months p) (\<lambda>m.
     and_then (mul_u 256 m AVG_MONTH_NS) (\<lambda>rhs.
     require (rhs \<le> lhs) ''Locked NEAR or lock duration is too low for this catalog price'')))"

definition check_near_recurring_price_lock :: "price \<Rightarrow> nat \<Rightarrow> unit res" where
  "check_near_recurring_price_lock p locked_yocto = check_near_price_lock p locked_yocto AVG_MONTH_NS"

text \<open>\<open>collect_paginated\<close>: items from an index on, at most \<open>limit\<close> of them, skipping those that are missing.\<close>

fun collect_from :: "nat \<Rightarrow> (nat \<Rightarrow> 'a option) \<Rightarrow> nat list \<Rightarrow> 'a list \<Rightarrow> 'a list" where
  "collect_from limit fetch [] out = out"
| "collect_from limit fetch (i # is) out =
     (if limit \<le> length out then out
      else collect_from limit fetch is (case fetch i of None \<Rightarrow> out | Some x \<Rightarrow> out @ [x]))"

definition collect_paginated :: "nat \<Rightarrow> nat \<Rightarrow> nat \<Rightarrow> (nat \<Rightarrow> 'a option) \<Rightarrow> 'a list" where
  "collect_paginated from limit total_len fetch = collect_from limit fetch [from..<total_len] []"

end
