(* ===== verification/Staking_Pool.thy ===== *)
theory Staking_Pool
  imports Staking_State
begin

text \<open>
  The staking contract: pausing and governance (\<open>pause.rs\<close>, \<open>governance.rs\<close>), registered storage and the unstake tranches of
  accounts (\<open>accounts.rs\<close>), and the allowlisted pools with their shares (\<open>validators.rs\<close>).
\<close>

section \<open>Pausing and governance (\<open>pause.rs\<close>, \<open>governance.rs\<close>, \<open>gas.rs\<close>)\<close>

definition st_assert_not_paused :: "staking \<Rightarrow> unit res" where
  "st_assert_not_paused c = require (\<not> st_paused c) ''The contract is paused; try again after it has been unpaused''"

definition st_assert_owner :: "env \<Rightarrow> staking \<Rightarrow> unit res" where
  "st_assert_owner e c = require (predecessor e = sg_owner_account_id (st_config c))
     ''Only the contract owner can call this method''"

definition st_assert_guardian :: "env \<Rightarrow> staking \<Rightarrow> unit res" where
  "st_assert_guardian e c = require (predecessor e \<in> set (sg_guardians (st_config c)) \<or> predecessor e = sg_owner_account_id (st_config c))
     ''Only a guardian or the contract owner can call this method''"

definition st_assert_owner_payable :: "env \<Rightarrow> staking \<Rightarrow> unit res" where
  "st_assert_owner_payable e c = and_then (assert_one_yocto e) (\<lambda>_. st_assert_owner e c)"

definition st_pause :: "env \<Rightarrow> staking \<Rightarrow> staking res" where
  "st_pause e c = and_then (assert_one_yocto e) (\<lambda>_. and_then (st_assert_guardian e c) (\<lambda>_. Inr (c\<lparr>st_paused := True\<rparr>)))"

definition st_unpause :: "env \<Rightarrow> staking \<Rightarrow> staking res" where
  "st_unpause e c = and_then (assert_one_yocto e) (\<lambda>_. and_then (st_assert_owner e c) (\<lambda>_. Inr (c\<lparr>st_paused := False\<rparr>)))"

definition st_configure :: "env \<Rightarrow> (staking_config \<Rightarrow> staking_config) \<Rightarrow> staking \<Rightarrow> staking res" where
  "st_configure e f c = and_then (st_assert_owner_payable e c) (\<lambda>_. Inr (c\<lparr>st_config := f (st_config c)\<rparr>))"

definition st_propose_new_owner_account_id :: "env \<Rightarrow> account_id option \<Rightarrow> staking \<Rightarrow> staking res" where
  "st_propose_new_owner_account_id e a = st_configure e (\<lambda>g. g\<lparr>sg_proposed_new_owner_account_id := a\<rparr>)"

definition st_accept_ownership :: "env \<Rightarrow> staking \<Rightarrow> staking res" where
  "st_accept_ownership e c =
     and_then (assert_one_yocto e) (\<lambda>_.
     and_then (require (sg_proposed_new_owner_account_id (st_config c) = Some (predecessor e))
       ''Only the proposed new owner can call this method'') (\<lambda>_.
     Inr (c\<lparr>st_config := (st_config c)\<lparr>sg_owner_account_id := predecessor e, sg_proposed_new_owner_account_id := None\<rparr>\<rparr>)))"

definition st_set_guardians :: "env \<Rightarrow> account_id list \<Rightarrow> staking \<Rightarrow> staking res" where
  "st_set_guardians e gs = st_configure e (\<lambda>g. g\<lparr>sg_guardians := gs\<rparr>)"

definition set_per_lock_storage_stake :: "env \<Rightarrow> nat \<Rightarrow> staking \<Rightarrow> staking res" where
  "set_per_lock_storage_stake e n = st_configure e (\<lambda>g. g\<lparr>sg_per_lock_storage_stake := n\<rparr>)"

definition set_per_farm_position_storage_stake :: "env \<Rightarrow> nat \<Rightarrow> staking \<Rightarrow> staking res" where
  "set_per_farm_position_storage_stake e n = st_configure e (\<lambda>g. g\<lparr>sg_per_farm_position_storage_stake := n\<rparr>)"

definition set_per_purchase_storage_stake :: "env \<Rightarrow> nat \<Rightarrow> staking \<Rightarrow> staking res" where
  "set_per_purchase_storage_stake e n = st_configure e (\<lambda>g. g\<lparr>sg_per_purchase_storage_stake := n\<rparr>)"

definition set_lock_bounds :: "env \<Rightarrow> nat \<Rightarrow> nat \<Rightarrow> staking \<Rightarrow> staking res" where
  "set_lock_bounds e lo hi c =
     and_then (st_assert_owner_payable e c) (\<lambda>_.
     and_then (require (lo \<le> hi) ''Minimum lock duration cannot exceed maximum lock duration'') (\<lambda>_.
     Inr (c\<lparr>st_config := (st_config c)\<lparr>sg_min_lock_duration_ns := lo, sg_max_lock_duration_ns := hi\<rparr>\<rparr>)))"

definition set_min_lock_amount :: "env \<Rightarrow> nat \<Rightarrow> staking \<Rightarrow> staking res" where
  "set_min_lock_amount e n c =
     and_then (st_assert_owner_payable e c) (\<lambda>_.
     and_then (require_min_lock_amount_at_protocol_floor n) (\<lambda>_.
     Inr (c\<lparr>st_config := (st_config c)\<lparr>sg_min_lock_amount := n\<rparr>\<rparr>)))"

definition set_min_storage_deposit :: "env \<Rightarrow> nat \<Rightarrow> staking \<Rightarrow> staking res" where
  "set_min_storage_deposit e n = st_configure e (\<lambda>g. g\<lparr>sg_min_storage_deposit := n\<rparr>)"

definition set_epoch_unstake_settle_epochs :: "env \<Rightarrow> nat \<Rightarrow> staking \<Rightarrow> staking res" where
  "set_epoch_unstake_settle_epochs e n = st_configure e (\<lambda>g. g\<lparr>sg_epoch_unstake_settle_epochs := n\<rparr>)"

definition EPOCH_SETTLEMENT_MIN_GAS :: nat where
  "EPOCH_SETTLEMENT_MIN_GAS = 10000000000000 * 30"

definition require_enough_gas_for_epoch_settlement :: "env \<Rightarrow> unit res" where
  "require_enough_gas_for_epoch_settlement e = require (EPOCH_SETTLEMENT_MIN_GAS \<le> prepaid_gas e) ''Insufficient gas''"

section \<open>Accounts (\<open>accounts.rs\<close>)\<close>

definition st_internal_set_account :: "account_id \<Rightarrow> storage_account \<Rightarrow> staking \<Rightarrow> staking" where
  "st_internal_set_account x a c = c\<lparr>st_accounts := (st_accounts c)(x \<mapsto> a), st_account_ids := set_insert x (st_account_ids c)\<rparr>"

definition required_storage_deposit_yocto :: "account_id \<Rightarrow> nat \<Rightarrow> nat \<Rightarrow> nat \<Rightarrow> staking \<Rightarrow> nat" where
  "required_storage_deposit_yocto x extra_locks extra_purchases extra_farm_positions c =
     (let g = st_config c;
          total_locks = saturating_add 128 (or_zero (st_user_lock_count c x)) extra_locks;
          total_purchases = saturating_add 128 (or_zero (st_user_purchase_count c x)) extra_purchases;
          total_farm_positions = saturating_add 128 (or_zero (st_user_farm_position_count c x)) extra_farm_positions
      in saturating_add 128 (saturating_add 128 (saturating_add 128 (sg_min_storage_deposit g)
            (saturating_mul 128 (sg_per_lock_storage_stake g) total_locks))
            (saturating_mul 128 (sg_per_purchase_storage_stake g) total_purchases))
            (saturating_mul 128 (sg_per_farm_position_storage_stake g) total_farm_positions))"

definition available_storage_yocto :: "account_id \<Rightarrow> storage_account \<Rightarrow> staking \<Rightarrow> nat" where
  "available_storage_yocto x a c = saturating_sub (sa_storage_deposit a) (required_storage_deposit_yocto x 0 0 0 c)"

definition st_storage_balance_of :: "account_id \<Rightarrow> staking \<Rightarrow> (nat \<times> nat) option" where
  "st_storage_balance_of x c = map_option (\<lambda>a. (sa_storage_deposit a, available_storage_yocto x a c)) (st_accounts c x)"

definition st_storage_deposit :: "env \<Rightarrow> account_id option \<Rightarrow> bool option \<Rightarrow> staking \<Rightarrow> (staking \<times> nat \<times> nat) res" where
  "st_storage_deposit e account registration_only c =
     and_then (st_assert_not_paused c) (\<lambda>_.
     let attached = attached_deposit e;
         x = (case account of None \<Rightarrow> predecessor e | Some a \<Rightarrow> a);
         current_total = (case st_accounts c x of None \<Rightarrow> 0 | Some a \<Rightarrow> sa_storage_deposit a);
         min_deposit = sg_min_storage_deposit (st_config c)
     in and_then (if registration_only = Some True then Inr (min (saturating_sub min_deposit current_total) attached)
          else and_then (require (0 < attached) ''Attach NEAR for storage'') (\<lambda>_. Inr attached)) (\<lambda>accepted.
     and_then (expect (if current_total + accepted < 2 ^ 128 then Some (current_total + accepted) else None)
          ''Storage deposit overflow; reduce the attached amount'') (\<lambda>new_total.
     and_then (require (min_deposit \<le> new_total) ''Attached deposit is less than the minimum storage balance'') (\<lambda>_.
     let c1 = st_internal_set_account x \<lparr>sa_storage_deposit = new_total\<rparr> c;
         refund = saturating_sub attached accepted;
         c2 = (if 0 < refund then st_emit (St_Transfer (predecessor e) refund) c1 else c1)
     in and_then (expect (st_storage_balance_of x c2) ''Account was just registered'') (\<lambda>b. Inr (c2, b))))))"

definition st_storage_withdraw :: "env \<Rightarrow> nat option \<Rightarrow> staking \<Rightarrow> (staking \<times> nat \<times> nat) res" where
  "st_storage_withdraw e amount c =
     and_then (assert_one_yocto e) (\<lambda>_.
     and_then (st_assert_not_paused c) (\<lambda>_.
     let x = predecessor e in
     and_then (expect (st_accounts c x) ''Account not registered; call storage_deposit first'') (\<lambda>a.
     let available = available_storage_yocto x a c in
     and_then (case amount of
          Some n \<Rightarrow> and_then (require (0 < n) ''Withdraw amount must be greater than zero'') (\<lambda>_.
            and_then (require (n \<le> available) ''Withdraw exceeds available storage'') (\<lambda>_. Inr n))
        | None \<Rightarrow> Inr available) (\<lambda>n.
     if n = 0 then and_then (expect (st_storage_balance_of x c) ''Registered account must have a storage balance'') (\<lambda>b. Inr (c, b))
     else and_then (expect (if n \<le> sa_storage_deposit a then Some (sa_storage_deposit a - n) else None)
            ''Internal error: storage withdraw amount was not bounded correctly'') (\<lambda>rest.
          let c1 = st_emit (St_Transfer x n) (st_internal_set_account x (a\<lparr>sa_storage_deposit := rest\<rparr>) c)
          in and_then (expect (st_storage_balance_of x c1) ''Registered account must have a storage balance'') (\<lambda>b. Inr (c1, b)))))))"

definition has_pending_unstake_tranches :: "account_id \<Rightarrow> staking \<Rightarrow> bool" where
  "has_pending_unstake_tranches x c \<longleftrightarrow> 0 < or_zero (st_user_pending_unstake_validator_count c x)"

definition has_retained_record_storage :: "account_id \<Rightarrow> staking \<Rightarrow> bool" where
  "has_retained_record_storage x c \<longleftrightarrow> 0 < or_zero (st_user_lock_count c x)
     \<or> 0 < or_zero (st_user_purchase_count c x) \<or> 0 < or_zero (st_user_farm_position_count c x)
     \<or> (case st_subscriptions_by_account c x of None \<Rightarrow> False | Some ids \<Rightarrow> ids \<noteq> [])
     \<or> (case st_farm_accounts c x of None \<Rightarrow> False | Some a \<Rightarrow> 0 < fa_active_position_count a)
     \<or> has_pending_unstake_tranches x c"

definition st_storage_unregister :: "env \<Rightarrow> bool option \<Rightarrow> staking \<Rightarrow> (staking \<times> bool) res" where
  "st_storage_unregister e force c =
     and_then (assert_one_yocto e) (\<lambda>_.
     and_then (st_assert_not_paused c) (\<lambda>_.
     and_then (require (force \<noteq> Some True) ''Force unregister is not supported'') (\<lambda>_.
     let x = predecessor e in
     case st_accounts c x of
       None \<Rightarrow> Inr (c, False)
     | Some a \<Rightarrow>
         if has_retained_record_storage x c then Inr (c, False)
         else let c1 = c\<lparr>st_accounts := (st_accounts c)(x := None), st_account_ids := iterable_remove x (st_account_ids c)\<rparr>
              in Inr (if 0 < sa_storage_deposit a then st_emit (St_Transfer x (sa_storage_deposit a)) c1 else c1, True))))"

definition increment_pending_unstake_validator_count :: "account_id \<Rightarrow> staking \<Rightarrow> staking res" where
  "increment_pending_unstake_validator_count x c =
     (let n = or_zero (st_user_pending_unstake_validator_count c x) in
      and_then (expect (if n + 1 < 2 ^ 32 then Some (n + 1) else None) ''pending unstake validator count overflow'') (\<lambda>n'.
      Inr (c\<lparr>st_user_pending_unstake_validator_count := (st_user_pending_unstake_validator_count c)(x \<mapsto> n')\<rparr>)))"

definition decrement_pending_unstake_validator_count :: "account_id \<Rightarrow> staking \<Rightarrow> staking" where
  "decrement_pending_unstake_validator_count x c =
     (let n = or_zero (st_user_pending_unstake_validator_count c x) in
      c\<lparr>st_user_pending_unstake_validator_count := (if n \<le> 1 then (st_user_pending_unstake_validator_count c)(x := None)
         else (st_user_pending_unstake_validator_count c)(x \<mapsto> n - 1))\<rparr>)"

definition set_user_pending_unstake_tranches ::
  "account_id \<times> validator_id \<Rightarrow> pending_unstake_tranche list \<Rightarrow> staking \<Rightarrow> staking res" where
  "set_user_pending_unstake_tranches key tranches c =
     (let had_tranches = (case st_user_pending_unstake c key of None \<Rightarrow> False | Some ts \<Rightarrow> ts \<noteq> []);
          has_tranches = (tranches \<noteq> []);
          c1 = c\<lparr>st_user_pending_unstake := (st_user_pending_unstake c)(key := if has_tranches then Some tranches else None)\<rparr>
      in if \<not> had_tranches \<and> has_tranches then increment_pending_unstake_validator_count (fst key) c1
         else if had_tranches \<and> \<not> has_tranches then Inr (decrement_pending_unstake_validator_count (fst key) c1)
         else Inr c1)"

definition require_registered_account :: "account_id \<Rightarrow> staking \<Rightarrow> storage_account res" where
  "require_registered_account x c = expect (st_accounts c x) ''Account not registered; call storage_deposit''"

definition ensure_min_base_storage :: "account_id \<Rightarrow> staking \<Rightarrow> unit res" where
  "ensure_min_base_storage x c =
     and_then (require_registered_account x c) (\<lambda>a.
     require (sg_min_storage_deposit (st_config c) \<le> sa_storage_deposit a) ''Top up storage (minimum prepaid)'')"

definition ensure_min_storage_for_new_lock :: "account_id \<Rightarrow> staking \<Rightarrow> unit res" where
  "ensure_min_storage_for_new_lock x c =
     and_then (require_registered_account x c) (\<lambda>a.
     require (required_storage_deposit_yocto x 1 0 0 c \<le> sa_storage_deposit a) ''Top up storage for another lock'')"

definition ensure_min_storage_for_new_purchase :: "account_id \<Rightarrow> staking \<Rightarrow> unit res" where
  "ensure_min_storage_for_new_purchase x c =
     and_then (require_registered_account x c) (\<lambda>a.
     require (required_storage_deposit_yocto x 0 1 0 c \<le> sa_storage_deposit a) ''Top up storage for another purchase'')"

definition ensure_min_storage_for_new_farm_position :: "account_id \<Rightarrow> staking \<Rightarrow> unit res" where
  "ensure_min_storage_for_new_farm_position x c =
     and_then (require_registered_account x c) (\<lambda>a.
     require (required_storage_deposit_yocto x 0 0 1 c \<le> sa_storage_deposit a) ''Top up storage for another farm position'')"

section \<open>Pools (\<open>validators.rs\<close>)\<close>

definition MAX_VALIDATORS :: nat where "MAX_VALIDATORS = 1000"
definition MAX_VALIDATOR_CATALOG_MANAGERS :: nat where "MAX_VALIDATOR_CATALOG_MANAGERS = 16"

definition internal_set_validator :: "validator_id \<Rightarrow> validator \<Rightarrow> staking \<Rightarrow> staking" where
  "internal_set_validator p v c = c\<lparr>st_validators := (st_validators c)(p \<mapsto> v)\<rparr>"

definition require_validator :: "validator_id \<Rightarrow> staking \<Rightarrow> validator res" where
  "require_validator p c = expect (st_validators c p) ''Validator not found on the allowlist''"

definition require_validator_idle :: "validator_id \<Rightarrow> staking \<Rightarrow> validator res" where
  "require_validator_idle p c =
     and_then (require_validator p c) (\<lambda>v.
     and_then (require (va_tx_status v = Tx_Idle) ''Validator pool is busy; wait for the in-flight pool call to finish'') (\<lambda>_. Inr v))"

definition assert_validator_busy :: "validator \<Rightarrow> string \<Rightarrow> unit res" where
  "assert_validator_busy v msg = require (va_tx_status v = Tx_Busy) msg"

definition require_validator_busy :: "validator_id \<Rightarrow> string \<Rightarrow> staking \<Rightarrow> validator res" where
  "require_validator_busy p msg c =
     and_then (require_validator p c) (\<lambda>v. and_then (assert_validator_busy v msg) (\<lambda>_. Inr v))"

definition assert_validator_allowlisted :: "validator_id \<Rightarrow> staking \<Rightarrow> unit res" where
  "assert_validator_allowlisted p c = require (st_validators c p \<noteq> None) ''Validator not found on the allowlist''"

definition assert_validator_active_for_lock :: "validator_id \<Rightarrow> staking \<Rightarrow> unit res" where
  "assert_validator_active_for_lock p c =
     and_then (require_validator p c) (\<lambda>v.
     require (va_status v = Validator_Active) ''This validator is paused or removed; new locks are not allowed on it'')"

definition add_validator :: "env \<Rightarrow> validator_id \<Rightarrow> staking \<Rightarrow> staking res" where
  "add_validator e p c =
     and_then (assert_one_yocto e) (\<lambda>_.
     and_then (st_assert_owner e c) (\<lambda>_.
     and_then (require (st_validators c p = None) ''Validator already exists'') (\<lambda>_.
     and_then (require (length (st_validator_ids c) < MAX_VALIDATORS) ''Validator limit reached'') (\<lambda>_.
     let c1 = internal_set_validator p \<lparr>va_validator_id = p, va_catalog_manager_account_ids = [], va_status = Validator_Active,
           va_total_shares = 0, va_total_staked_balance = 0, va_last_balance_refresh_ns = block_timestamp e,
           va_pending_to_stake = 0, va_pending_to_unstake = 0, va_last_unstake_epoch = 0, va_last_settlement_epoch = 0,
           va_pending_to_withdraw = 0, va_pending_to_claim = 0, va_tx_status = Tx_Idle\<rparr> c;
         c2 = c1\<lparr>st_validator_ids := st_validator_ids c1 @ [p]\<rparr>
     in Inr (st_emit (St_Event ''validator_add'' [p] []) c2)))))"

definition catalog_admin_entry_for_pool :: "env \<Rightarrow> validator_id \<Rightarrow> staking \<Rightarrow> (validator_id \<times> account_id) res" where
  "catalog_admin_entry_for_pool e p c =
     and_then (assert_one_yocto e) (\<lambda>_.
     and_then (st_assert_not_paused c) (\<lambda>_.
     and_then (assert_validator_allowlisted p c) (\<lambda>_. Inr (p, predecessor e))))"

definition add_validator_catalog_manager :: "env \<Rightarrow> validator_id \<Rightarrow> account_id \<Rightarrow> staking \<Rightarrow> staking res" where
  "add_validator_catalog_manager e p manager c =
     and_then (catalog_admin_entry_for_pool e p c) (\<lambda>(p', caller).
     Inr (st_emit (St_Get_Owner p' caller (AddCatalogManager p' manager)) c))"

definition remove_validator_catalog_manager :: "env \<Rightarrow> validator_id \<Rightarrow> account_id \<Rightarrow> staking \<Rightarrow> staking res" where
  "remove_validator_catalog_manager e p manager c =
     and_then (catalog_admin_entry_for_pool e p c) (\<lambda>(p', caller).
     Inr (st_emit (St_Get_Owner p' caller (RemoveCatalogManager p' manager)) c))"

text \<open>The owner that the pool reports; \<open>None\<close> if the promise failed.\<close>

definition assert_validator_owner :: "account_id \<Rightarrow> account_id \<Rightarrow> staking \<Rightarrow> unit res" where
  "assert_validator_owner pool_owner caller c =
     and_then (st_assert_not_paused c) (\<lambda>_.
     require (pool_owner = caller) ''Only the validator owner can call this method'')"

definition assert_validator_catalog_admin :: "account_id \<Rightarrow> validator_id \<Rightarrow> account_id \<Rightarrow> staking \<Rightarrow> unit res" where
  "assert_validator_catalog_admin pool_owner p caller c =
     and_then (st_assert_not_paused c) (\<lambda>_.
     if pool_owner = caller then Inr ()
     else and_then (require_validator p c) (\<lambda>v.
       require (caller \<in> set (va_catalog_manager_account_ids v))
         ''Only the validator owner or catalog manager can call this method''))"

definition add_validator_catalog_manager_after_get_owner ::
  "env \<Rightarrow> account_id option \<Rightarrow> validator_id \<Rightarrow> account_id \<Rightarrow> account_id \<Rightarrow> staking \<Rightarrow> staking res" where
  "add_validator_catalog_manager_after_get_owner e result p manager caller c =
     and_then (assert_no_deposit e ''add_validator_catalog_manager_after_get_owner'') (\<lambda>_.
     and_then (assert_private e ''add_validator_catalog_manager_after_get_owner'') (\<lambda>_.
     and_then (expect result ''Callback computation 0 was not successful'') (\<lambda>pool_owner.
     and_then (assert_validator_owner pool_owner caller c) (\<lambda>_.
     and_then (require_validator p c) (\<lambda>v.
     if manager \<in> set (va_catalog_manager_account_ids v) then Inr c
     else and_then (require (length (va_catalog_manager_account_ids v) < MAX_VALIDATOR_CATALOG_MANAGERS)
            ''Validator catalog manager limit reached'') (\<lambda>_.
          let c1 = internal_set_validator p
                (v\<lparr>va_catalog_manager_account_ids := va_catalog_manager_account_ids v @ [manager]\<rparr>) c
          in Inr (st_emit (St_Event ''validator_catalog_manager_add'' [p, manager] []) c1)))))))"

definition remove_validator_catalog_manager_after_get_owner ::
  "env \<Rightarrow> account_id option \<Rightarrow> validator_id \<Rightarrow> account_id \<Rightarrow> account_id \<Rightarrow> staking \<Rightarrow> staking res" where
  "remove_validator_catalog_manager_after_get_owner e result p manager caller c =
     and_then (assert_no_deposit e ''remove_validator_catalog_manager_after_get_owner'') (\<lambda>_.
     and_then (assert_private e ''remove_validator_catalog_manager_after_get_owner'') (\<lambda>_.
     and_then (expect result ''Callback computation 0 was not successful'') (\<lambda>pool_owner.
     and_then (assert_validator_owner pool_owner caller c) (\<lambda>_.
     and_then (require_validator p c) (\<lambda>v.
     let managers = filter (\<lambda>x. x \<noteq> manager) (va_catalog_manager_account_ids v) in
     if length managers = length (va_catalog_manager_account_ids v) then Inr c
     else Inr (st_emit (St_Event ''validator_catalog_manager_remove'' [p, manager] [])
            (internal_set_validator p (v\<lparr>va_catalog_manager_account_ids := managers\<rparr>) c)))))))"

definition pause_validator :: "env \<Rightarrow> validator_id \<Rightarrow> staking \<Rightarrow> staking res" where
  "pause_validator e p c =
     and_then (assert_one_yocto e) (\<lambda>_.
     and_then (st_assert_owner e c) (\<lambda>_.
     and_then (require_validator p c) (\<lambda>v.
     Inr (internal_set_validator p (v\<lparr>va_status := Validator_Paused\<rparr>) c))))"

definition remove_validator :: "env \<Rightarrow> validator_id \<Rightarrow> staking \<Rightarrow> staking res" where
  "remove_validator e p c =
     and_then (assert_one_yocto e) (\<lambda>_.
     and_then (st_assert_owner e c) (\<lambda>_.
     and_then (require_validator p c) (\<lambda>v.
     and_then (require (va_total_shares v = 0 \<and> va_pending_to_stake v = 0 \<and> va_pending_to_unstake v = 0
          \<and> va_pending_to_withdraw v = 0 \<and> va_pending_to_claim v = 0)
       ''Cannot remove this validator: all stake, pending stake/unstake, and withdraw bucket must be cleared first'') (\<lambda>_.
     Inr (internal_set_validator p (v\<lparr>va_status := Validator_Removed\<rparr>) c)))))"

definition get_validators :: "nat \<Rightarrow> nat \<Rightarrow> staking \<Rightarrow> validator list" where
  "get_validators from limit c = collect_paginated from limit (length (st_validator_ids c))
     (\<lambda>i. st_validators c (st_validator_ids c ! i))"

definition validator_unstake_waiting_finished :: "env \<Rightarrow> validator \<Rightarrow> staking \<Rightarrow> bool" where
  "validator_unstake_waiting_finished e v c \<longleftrightarrow> 0 < va_last_unstake_epoch v
     \<and> saturating_add 64 (va_last_unstake_epoch v) (sg_epoch_unstake_settle_epochs (st_config c)) \<le> epoch_height e"

definition pending_unstake_tranche_available_epoch_height :: "env \<Rightarrow> validator \<Rightarrow> staking \<Rightarrow> nat" where
  "pending_unstake_tranche_available_epoch_height e v c =
     (let settle = sg_epoch_unstake_settle_epochs (st_config c);
          next_epoch_height = saturating_add 64 (epoch_height e) 1;
          unstake_start_epoch = max next_epoch_height (saturating_add 64 (va_last_unstake_epoch v) settle)
      in saturating_add 64 unstake_start_epoch settle)"

text \<open>Shares for a deposit, at the value of the shares that exist.\<close>

definition internal_stake :: "account_id \<Rightarrow> validator_id \<Rightarrow> nat \<Rightarrow> staking \<Rightarrow> (staking \<times> nat) res" where
  "internal_stake buyer p deposit c =
     and_then (require_validator p c) (\<lambda>v.
     let net_stake = net_stake_yocto v;
         validator_total_shares = va_total_shares v
     in and_then (if 0 < validator_total_shares
          then require (0 < net_stake) ''No effective stake for share minting; wait for balance refresh or settlement''
          else Inr ()) (\<lambda>_.
     and_then (mint_shares validator_total_shares net_stake deposit) (\<lambda>new_shares.
     and_then (expect (if va_pending_to_stake v + deposit < 2 ^ 128 then Some (va_pending_to_stake v + deposit) else None)
          ''pending_to_stake overflow when recording this lock'') (\<lambda>pending_to_stake.
     let v' = v\<lparr>va_total_shares := saturating_add 128 validator_total_shares new_shares, va_pending_to_stake := pending_to_stake\<rparr>;
         user_shares_before = or_zero (st_user_validator_shares c (buyer, p));
         c1 = c\<lparr>st_user_validator_shares := (st_user_validator_shares c)((buyer, p) \<mapsto> saturating_add 128 user_shares_before new_shares)\<rparr>
     in Inr (internal_set_validator p v' c1, new_shares)))))"

text \<open>Burning shares: their value is owed to the user from a later epoch on.\<close>

definition internal_unstake :: "env \<Rightarrow> account_id \<Rightarrow> validator_id \<Rightarrow> nat \<Rightarrow> staking \<Rightarrow> (staking \<times> nat) res" where
  "internal_unstake e x p shares_remove c =
     and_then (require (0 < shares_remove) ''Cannot exit shares: amount must be greater than zero'') (\<lambda>_.
     and_then (require_validator p c) (\<lambda>v.
     let validator_total_shares = va_total_shares v in
     and_then (require (0 < validator_total_shares \<and> shares_remove \<le> validator_total_shares)
       ''Cannot exit shares: validator pool has no shares or amount exceeds pool total'') (\<lambda>_.
     let net_stake = net_stake_yocto v in
     and_then (require (0 < net_stake)
       ''Cannot price this exit: no effective stake left for remaining shares; wait for stake or withdraw steps to finish, then retry'') (\<lambda>_.
     and_then (near_from_shares shares_remove net_stake validator_total_shares) (\<lambda>near_amt.
     and_then (sub_u validator_total_shares shares_remove) (\<lambda>total_shares.
     and_then (expect (if va_pending_to_unstake v + near_amt < 2 ^ 128 then Some (va_pending_to_unstake v + near_amt) else None)
       ''pending_to_unstake overflow'') (\<lambda>pending_to_unstake.
     let v' = v\<lparr>va_total_shares := total_shares, va_pending_to_unstake := pending_to_unstake\<rparr>;
         user_shares = or_zero (st_user_validator_shares c (x, p))
     in and_then (require (shares_remove \<le> user_shares)
       ''Cannot exit shares: account does not hold enough shares on this validator'') (\<lambda>_.
     let c1 = c\<lparr>st_user_validator_shares := (if user_shares = shares_remove then (st_user_validator_shares c)((x, p) := None)
           else (st_user_validator_shares c)((x, p) \<mapsto> user_shares - shares_remove))\<rparr>;
         available = pending_unstake_tranche_available_epoch_height e v' c1;
         tranches = (case st_user_pending_unstake c1 (x, p) of None \<Rightarrow> [] | Some ts \<Rightarrow> ts)
     in and_then (set_user_pending_unstake_tranches (x, p)
          (tranches @ [\<lparr>tr_amount = near_amt, tr_available_epoch_height = available\<rparr>]) c1) (\<lambda>c2.
     Inr (internal_set_validator p v' c2, near_amt))))))))))"

end
