(* ===== verification/Staking_Epoch.thy ===== *)
theory Staking_Epoch
  imports Staking_Pool
begin

text \<open>
  The settlement pipeline of the staking contract (\<open>epoch.rs\<close>) and the payout of unstaked NEAR (\<open>withdraw.rs\<close>), as deployed (the
  branches for the \<open>wasm32\<close> target). A promise with its chain of callbacks is one effect; each callback is a method.
\<close>

section \<open>The pipeline (\<open>epoch.rs\<close>)\<close>

definition log_epoch_operation :: "string \<Rightarrow> validator_id \<Rightarrow> staking \<Rightarrow> staking" where
  "log_epoch_operation epoch_action p c = st_emit (St_Event epoch_action [epoch_action, p] []) c"

text \<open>Step 4: the tail of the user's action, chained to the release of the pool.\<close>

definition dispatch_continue :: "user_action \<Rightarrow> staking \<Rightarrow> staking" where
  "dispatch_continue cont c =
     (case cont of SettleOnly _ \<Rightarrow> st_emit (St_Release (action_validator_id cont)) c
      | _ \<Rightarrow> st_emit (St_Tail cont) c)"

definition on_epoch_settlement_dispatch_continue :: "env \<Rightarrow> user_action \<Rightarrow> staking \<Rightarrow> staking res" where
  "on_epoch_settlement_dispatch_continue e cont c =
     and_then (assert_no_deposit e ''on_epoch_settlement_dispatch_continue'') (\<lambda>_.
     and_then (assert_private e ''on_epoch_settlement_dispatch_continue'') (\<lambda>_.
     Inr (dispatch_continue cont c)))"

text \<open>Step 0: the pool must be idle and is busy from now on; a pool that was settled in this epoch goes on to step 4.\<close>

definition promise_validator_per_epoch_settlement_then :: "env \<Rightarrow> validator_id \<Rightarrow> user_action \<Rightarrow> staking \<Rightarrow> staking res" where
  "promise_validator_per_epoch_settlement_then e p cont c =
     and_then (require_validator_idle p c) (\<lambda>v.
     let needs_pre_user_settlement_pipeline = (va_last_settlement_epoch v < epoch_height e);
         c1 = internal_set_validator p (v\<lparr>va_tx_status := Tx_Busy\<rparr>) c
     in Inr (if \<not> needs_pre_user_settlement_pipeline then dispatch_continue cont c1
             else st_emit (St_Get_Account p cont) c1))"

definition epoch_settle :: "env \<Rightarrow> validator_id \<Rightarrow> staking \<Rightarrow> staking res" where
  "epoch_settle e p c =
     and_then (assert_no_deposit e ''epoch_settle'') (\<lambda>_.
     and_then (st_assert_not_paused c) (\<lambda>_.
     and_then (require_enough_gas_for_epoch_settlement e) (\<lambda>_.
     promise_validator_per_epoch_settlement_then e p (SettleOnly p) c)))"

definition release_validator_pool_pipeline :: "validator_id \<Rightarrow> staking \<Rightarrow> staking res" where
  "release_validator_pool_pipeline p c =
     and_then (require_validator p c) (\<lambda>v. Inr (internal_set_validator p (v\<lparr>va_tx_status := Tx_Idle\<rparr>) c))"

definition refund_payable_pipeline :: "validator_id \<Rightarrow> account_id \<Rightarrow> nat \<Rightarrow> staking \<Rightarrow> staking res" where
  "refund_payable_pipeline p buyer amount c =
     and_then (release_validator_pool_pipeline p c) (\<lambda>c1.
     Inr (st_emit (St_Transfer buyer amount) (log_epoch_operation ''epoch_payable_pipeline_refund'' p c1)))"

definition mark_epoch_settlement_handled :: "env \<Rightarrow> validator_id \<Rightarrow> string \<Rightarrow> staking \<Rightarrow> staking res" where
  "mark_epoch_settlement_handled e p epoch_action c =
     and_then (require_validator p c) (\<lambda>v.
     Inr (log_epoch_operation epoch_action p (internal_set_validator p (v\<lparr>va_last_settlement_epoch := epoch_height e\<rparr>) c)))"

definition apply_net_zero_pending_matched_clear :: "env \<Rightarrow> validator_id \<Rightarrow> nat \<Rightarrow> staking \<Rightarrow> (staking \<times> bool) res" where
  "apply_net_zero_pending_matched_clear e p matched c =
     and_then (require_validator p c) (\<lambda>v.
     if va_pending_to_stake v \<noteq> matched \<or> va_pending_to_unstake v \<noteq> matched
     then Inr (log_epoch_operation ''epoch_settle_net_zero_state_changed'' p c, False)
     else let v1 = v\<lparr>va_pending_to_stake := 0, va_pending_to_unstake := 0\<rparr>;
              v2 = (if 0 < matched then v1\<lparr>va_pending_to_claim := saturating_add 128 (va_pending_to_claim v1) matched\<rparr> else v1)
          in Inr (internal_set_validator p (v2\<lparr>va_last_settlement_epoch := epoch_height e\<rparr>) c, True))"

text \<open>Step 3: at most one stake or unstake at the pool per epoch, for the difference of the two queues.\<close>

definition try_epoch_stake_or_unstake :: "env \<Rightarrow> validator_id \<Rightarrow> user_action \<Rightarrow> staking \<Rightarrow> staking res" where
  "try_epoch_stake_or_unstake e p dispatch_after c =
     and_then (require_validator p c) (\<lambda>v.
     and_then (assert_validator_busy v ''Validator pool must be busy for this settle step'') (\<lambda>_.
     let pending_stake = va_pending_to_stake v;
         pending_unstake = va_pending_to_unstake v;
         has_pending = (0 < pending_stake \<or> 0 < pending_unstake);
         can_settle = (va_last_settlement_epoch v < epoch_height e)
     in
     if \<not> has_pending \<or> \<not> can_settle
     then and_then (if \<not> has_pending \<and> can_settle then mark_epoch_settlement_handled e p ''epoch_settle_noop'' c else Inr c) (\<lambda>c1.
          Inr (dispatch_continue dispatch_after c1))
     else if pending_stake = pending_unstake \<and> 0 < pending_stake
     then and_then (apply_net_zero_pending_matched_clear e p pending_stake (log_epoch_operation ''epoch_settle_net_zero'' p c)) (\<lambda>(c1, _).
          Inr (dispatch_continue dispatch_after c1))
     else if pending_unstake < pending_stake
     then and_then (sub_u pending_stake pending_unstake) (\<lambda>net.
          Inr (st_emit (St_Pool_Stake p net dispatch_after) (log_epoch_operation ''epoch_settle_stake'' p c)))
     else if 0 < va_last_unstake_epoch v \<and> \<not> validator_unstake_waiting_finished e v c
     then and_then (mark_epoch_settlement_handled e p ''epoch_settle_unstake_waiting'' c) (\<lambda>c1.
          Inr (dispatch_continue dispatch_after c1))
     else and_then (sub_u pending_unstake pending_stake) (\<lambda>net.
          Inr (st_emit (St_Pool_Unstake p net dispatch_after) (log_epoch_operation ''epoch_settle_unstake'' p c)))))"

text \<open>Step 2a.\<close>

definition try_epoch_withdraw_known_unstaked :: "validator_id \<Rightarrow> nat \<Rightarrow> bool \<Rightarrow> user_action \<Rightarrow> staking \<Rightarrow> staking res" where
  "try_epoch_withdraw_known_unstaked p unstaked_balance pool_can_withdraw cont c =
     and_then (require (0 < unstaked_balance) ''Withdraw requires positive unstaked balance from the pool'') (\<lambda>_.
     and_then (require pool_can_withdraw ''Pool reports unstaked balance is not yet withdrawable'') (\<lambda>_.
     let c1 = log_epoch_operation ''epoch_withdraw'' p c in
     and_then (require_validator p c1) (\<lambda>v.
     and_then (assert_validator_busy v ''Validator pool must be busy for this withdraw step'') (\<lambda>_.
     Inr (st_emit (St_Pool_Withdraw p unstaked_balance cont) c1)))))"

text \<open>Step 1: the balance that the pool reports; \<open>None\<close> if the call failed.\<close>

definition on_epoch_settlement_after_pool_account ::
  "env \<Rightarrow> pool_account_view option \<Rightarrow> validator_id \<Rightarrow> user_action \<Rightarrow> staking \<Rightarrow> staking res" where
  "on_epoch_settlement_after_pool_account e result p cont c =
     and_then (assert_no_deposit e ''on_epoch_settlement_after_pool_account'') (\<lambda>_.
     and_then (assert_private e ''on_epoch_settlement_after_pool_account'') (\<lambda>_.
     case result of
       None \<Rightarrow> (case payable_refund cont of
           Some (buyer, amount) \<Rightarrow> refund_payable_pipeline p buyer amount c
         | None \<Rightarrow> Inr (st_emit (St_Release p) (log_epoch_operation ''epoch_get_account_failed_release'' p c)))
     | Some pool_account \<Rightarrow>
         and_then (require_validator p c) (\<lambda>v.
         and_then (assert_validator_busy v ''Validator pool must be busy for settlement after get_account'') (\<lambda>_.
         let c1 = internal_set_validator p (v\<lparr>va_total_staked_balance := pool_total_balance pool_account,
               va_last_balance_refresh_ns := block_timestamp e\<rparr>) c;
             unstaked = pa_unstaked_balance pool_account
         in if 0 < unstaked \<and> pa_can_withdraw pool_account
            then try_epoch_withdraw_known_unstaked p unstaked (pa_can_withdraw pool_account) cont c1
            else try_epoch_stake_or_unstake e p cont c1))))"

text \<open>Step 2b: \<open>ok\<close> is the success of the withdrawal at the pool.\<close>

definition on_epoch_withdraw_transfer_done :: "env \<Rightarrow> bool \<Rightarrow> validator_id \<Rightarrow> nat \<Rightarrow> staking \<Rightarrow> (staking \<times> bool) res" where
  "on_epoch_withdraw_transfer_done e ok p withdrawn c =
     and_then (assert_no_deposit e ''on_epoch_withdraw_transfer_done'') (\<lambda>_.
     and_then (assert_private e ''on_epoch_withdraw_transfer_done'') (\<lambda>_.
     and_then (require_validator p c) (\<lambda>v.
     let credited = (if ok then withdrawn else 0) in
     if ok \<and> 0 < credited
     then let pending_withdraw = va_pending_to_withdraw v; bal = va_total_staked_balance v in
          and_then (require (credited \<le> bal)
            ''Recorded pool balance is less than the withdrawn amount; retry after the next successful balance refresh from the pool'') (\<lambda>_.
          and_then (sub_u bal credited) (\<lambda>bal'.
          let v1 = v\<lparr>va_total_staked_balance := bal', va_pending_to_withdraw := saturating_sub pending_withdraw credited\<rparr>;
              c1 = (if pending_withdraw < credited
                then st_emit (St_Log ''on_epoch_withdraw_transfer_done: pending_to_withdraw lower than withdrawn; clamped to zero'') c
                else c)
          in and_then (expect (if va_pending_to_claim v1 + credited < 2 ^ 128 then Some (va_pending_to_claim v1 + credited) else None)
               ''pending_to_claim overflow after pool transfer'') (\<lambda>claim.
             let c2 = st_emit (St_Event ''validator_withdraw_in'' [p] [credited]) c1
             in Inr (internal_set_validator p (v1\<lparr>va_pending_to_claim := claim\<rparr>) c2, ok))))
     else Inr (internal_set_validator p v c, ok))))"

text \<open>Step 2c: \<open>result\<close> is what step 2b returned, \<open>None\<close> if it panicked.\<close>

definition on_after_pool_withdraw_maybe_settle :: "env \<Rightarrow> bool option \<Rightarrow> validator_id \<Rightarrow> user_action \<Rightarrow> staking \<Rightarrow> staking res" where
  "on_after_pool_withdraw_maybe_settle e result p cont c =
     and_then (assert_no_deposit e ''on_after_pool_withdraw_maybe_settle'') (\<lambda>_.
     and_then (assert_private e ''on_after_pool_withdraw_maybe_settle'') (\<lambda>_.
     and_then (require_validator p c) (\<lambda>v.
     and_then (assert_validator_busy v ''Validator pool must be busy for post-withdraw settle'') (\<lambda>_.
     if result \<noteq> Some True
     then Inr (dispatch_continue cont (log_epoch_operation ''epoch_withdraw_failed_skip_settle'' p c))
     else try_epoch_stake_or_unstake e p cont c))))"

text \<open>Step 3b.\<close>

definition on_deposit_and_stake :: "env \<Rightarrow> bool \<Rightarrow> validator_id \<Rightarrow> staking \<Rightarrow> (staking \<times> bool) res" where
  "on_deposit_and_stake e ok p c =
     and_then (assert_no_deposit e ''on_deposit_and_stake'') (\<lambda>_.
     and_then (assert_private e ''on_deposit_and_stake'') (\<lambda>_.
     if \<not> ok then Inr (c, False)
     else and_then (require_validator p c) (\<lambda>v.
       let pending_stake = va_pending_to_stake v; pending_unstake = va_pending_to_unstake v in
       and_then (require (pending_unstake < pending_stake)
         ''deposit_and_stake callback requires pending_to_stake > pending_to_unstake'') (\<lambda>_.
       and_then (sub_u pending_stake pending_unstake) (\<lambda>net_stake.
       let v1 = (if 0 < pending_unstake
             then v\<lparr>va_pending_to_claim := saturating_add 128 (va_pending_to_claim v) pending_unstake\<rparr> else v);
           v2 = v1\<lparr>va_pending_to_stake := 0, va_pending_to_unstake := 0\<rparr>
       in and_then (expect (if va_total_staked_balance v2 + net_stake < 2 ^ 128 then Some (va_total_staked_balance v2 + net_stake) else None)
            ''total_staked_balance overflow after stake'') (\<lambda>bal.
          Inr (internal_set_validator p (v2\<lparr>va_total_staked_balance := bal, va_last_settlement_epoch := epoch_height e\<rparr>) c, True)))))))"

text \<open>Step 3c.\<close>

definition on_unstake :: "env \<Rightarrow> bool \<Rightarrow> validator_id \<Rightarrow> staking \<Rightarrow> (staking \<times> bool) res" where
  "on_unstake e ok p c =
     and_then (assert_no_deposit e ''on_unstake'') (\<lambda>_.
     and_then (assert_private e ''on_unstake'') (\<lambda>_.
     if \<not> ok then Inr (c, False)
     else and_then (require_validator p c) (\<lambda>v.
       let pending_stake = va_pending_to_stake v; pending_unstake = va_pending_to_unstake v in
       and_then (require (pending_stake < pending_unstake)
         ''unstake callback requires pending_to_unstake > pending_to_stake'') (\<lambda>_.
       and_then (sub_u pending_unstake pending_stake) (\<lambda>net_unstake.
       let v1 = (if 0 < pending_stake
             then v\<lparr>va_pending_to_claim := saturating_add 128 (va_pending_to_claim v) pending_stake\<rparr> else v);
           v2 = v1\<lparr>va_pending_to_unstake := 0, va_pending_to_stake := 0,
             va_pending_to_withdraw := saturating_add 128 (va_pending_to_withdraw v1) net_unstake,
             va_last_unstake_epoch := epoch_height e, va_last_settlement_epoch := epoch_height e\<rparr>
       in Inr (internal_set_validator p v2 c, True))))))"

text \<open>Step 6: the pool is idle again; what a payable call had attached is returned if its tail failed.\<close>

definition on_epoch_pipeline_terminal_release :: "env \<Rightarrow> validator_id \<Rightarrow> staking \<Rightarrow> staking res" where
  "on_epoch_pipeline_terminal_release e p c =
     and_then (assert_no_deposit e ''on_epoch_pipeline_terminal_release'') (\<lambda>_.
     and_then (assert_private e ''on_epoch_pipeline_terminal_release'') (\<lambda>_.
     release_validator_pool_pipeline p c))"

definition release_or_refund :: "string \<Rightarrow> string \<Rightarrow> bool \<Rightarrow> validator_id \<Rightarrow> user_action \<Rightarrow> staking \<Rightarrow> staking res" where
  "release_or_refund failed_event not_payable ok p cont c =
     (if ok then release_validator_pool_pipeline p c
      else let c1 = log_epoch_operation failed_event p c in
        and_then (expect (payable_refund cont) not_payable) (\<lambda>(buyer, amount).
        refund_payable_pipeline p buyer amount c1))"

definition on_epoch_pipeline_release_with_lock_id :: "env \<Rightarrow> bool \<Rightarrow> validator_id \<Rightarrow> user_action \<Rightarrow> staking \<Rightarrow> staking res" where
  "on_epoch_pipeline_release_with_lock_id e ok p cont c =
     and_then (assert_no_deposit e ''on_epoch_pipeline_release_with_lock_id'') (\<lambda>_.
     and_then (assert_private e ''on_epoch_pipeline_release_with_lock_id'') (\<lambda>_.
     release_or_refund ''epoch_lock_pipeline_tail_failed'' ''WithLockId continuation must be payable'' ok p cont c))"

definition on_epoch_pipeline_release_with_farm_position :: "env \<Rightarrow> bool \<Rightarrow> validator_id \<Rightarrow> user_action \<Rightarrow> staking \<Rightarrow> staking res" where
  "on_epoch_pipeline_release_with_farm_position e ok p cont c =
     and_then (assert_no_deposit e ''on_epoch_pipeline_release_with_farm_position'') (\<lambda>_.
     and_then (assert_private e ''on_epoch_pipeline_release_with_farm_position'') (\<lambda>_.
     release_or_refund ''epoch_farm_stake_pipeline_tail_failed'' ''farm stake continuation must be payable'' ok p cont c))"

definition on_epoch_pipeline_release_with_subscription_update_outcome ::
  "env \<Rightarrow> bool \<Rightarrow> validator_id \<Rightarrow> user_action \<Rightarrow> staking \<Rightarrow> staking res" where
  "on_epoch_pipeline_release_with_subscription_update_outcome e ok p cont c =
     and_then (assert_no_deposit e ''on_epoch_pipeline_release_with_subscription_update_outcome'') (\<lambda>_.
     and_then (assert_private e ''on_epoch_pipeline_release_with_subscription_update_outcome'') (\<lambda>_.
     release_or_refund ''epoch_subscription_update_pipeline_tail_failed'' ''subscription update continuation must be payable'' ok p cont c))"

text \<open>Which release the tail of an action is chained to.\<close>

fun release_of :: "user_action \<Rightarrow> env \<Rightarrow> bool \<Rightarrow> validator_id \<Rightarrow> user_action \<Rightarrow> staking \<Rightarrow> staking res" where
  "release_of (CommitLock _ _ _ _ _) = on_epoch_pipeline_release_with_lock_id"
| "release_of (CommitRecurringSubscriptionLock _ _ _ _) = on_epoch_pipeline_release_with_lock_id"
| "release_of (SubscriptionUpdate _ _ _ _ _ _) = on_epoch_pipeline_release_with_subscription_update_outcome"
| "release_of (CommitFarmStake _ _ _ _ _) = on_epoch_pipeline_release_with_farm_position"
| "release_of (FarmUnstakeQueue _ _ _ _) = (\<lambda>e _ p _. on_epoch_pipeline_terminal_release e p)"
| "release_of (UnlockQueueUnstake _ _ _ _) = (\<lambda>e _ p _. on_epoch_pipeline_terminal_release e p)"
| "release_of (WithdrawUserTransfer _ _) = (\<lambda>e _ p _. on_epoch_pipeline_terminal_release e p)"
| "release_of (SettleOnly _) = (\<lambda>e _ p _. on_epoch_pipeline_terminal_release e p)"

section \<open>Payout (\<open>withdraw.rs\<close>)\<close>

definition user_tranches :: "account_id \<times> validator_id \<Rightarrow> staking \<Rightarrow> pending_unstake_tranche list" where
  "user_tranches key c = (case st_user_pending_unstake c key of None \<Rightarrow> [] | Some ts \<Rightarrow> ts)"

definition sum_tranches :: "pending_unstake_tranche list \<Rightarrow> nat" where
  "sum_tranches ts = foldl (\<lambda>s t. saturating_add 128 s (tr_amount t)) 0 ts"

definition sum_user_unstake_tranches_yocto :: "account_id \<times> validator_id \<Rightarrow> staking \<Rightarrow> nat" where
  "sum_user_unstake_tranches_yocto key c = sum_tranches (user_tranches key c)"

definition remove_claimable_tranches :: "account_id \<times> validator_id \<Rightarrow> nat \<Rightarrow> staking \<Rightarrow> (staking \<times> nat \<times> bool) res" where
  "remove_claimable_tranches key at_epoch c =
     (let tranches = user_tranches key c;
          claimable = sum_tranches (filter (\<lambda>t. tr_available_epoch_height t \<le> at_epoch) tranches);
          kept = filter (\<lambda>t. at_epoch < tr_available_epoch_height t) tranches
      in and_then (set_user_pending_unstake_tranches key kept c) (\<lambda>c1. Inr (c1, claimable, kept = [])))"

definition claim_from_withdraw_bucket :: "env \<Rightarrow> account_id \<Rightarrow> validator_id \<Rightarrow> staking \<Rightarrow> (staking \<times> nat) res" where
  "claim_from_withdraw_bucket e x p c =
     and_then (require_validator p c) (\<lambda>v.
     let bucket = va_pending_to_claim v in
     and_then (require (0 < bucket)
       ''No NEAR is claimable yet; wait until unstaked funds are withdrawn from the pool into this contract, then retry'') (\<lambda>_.
     and_then (remove_claimable_tranches (x, p) (epoch_height e) c) (\<lambda>(c1, credit, _).
     and_then (require (0 < credit)
       ''Nothing to claim yet: wait until `epoch_height >=` your tranche's available epoch height'') (\<lambda>_.
     and_then (require (credit \<le> bucket)
       ''Claim bucket cannot cover all claimable tranches yet; call withdraw again after more pool funds arrive'') (\<lambda>_.
     and_then (expect (if credit \<le> va_pending_to_claim v then Some (va_pending_to_claim v - credit) else None)
       ''pending_to_claim accounting mismatch; contact the contract maintainers'') (\<lambda>claim.
     let c2 = internal_set_validator p (v\<lparr>va_pending_to_claim := claim\<rparr>) c1
     in Inr (st_emit (St_Event ''withdraw'' [x, p] [credit]) c2, credit)))))))"

definition payout_user_withdraw :: "env \<Rightarrow> account_id \<Rightarrow> validator_id \<Rightarrow> staking \<Rightarrow> staking res" where
  "payout_user_withdraw e x p c =
     and_then (claim_from_withdraw_bucket e x p c) (\<lambda>(c1, credit).
     and_then (require (credit \<le> account_balance e)
       ''Contract does not hold enough NEAR to complete this withdraw transfer yet; retry after pool funds arrive'') (\<lambda>_.
     Inr (st_emit (St_Transfer x credit) c1)))"

definition st_withdraw :: "env \<Rightarrow> validator_id \<Rightarrow> staking \<Rightarrow> staking res" where
  "st_withdraw e p c =
     and_then (assert_one_yocto e) (\<lambda>_.
     and_then (require_enough_gas_for_epoch_settlement e) (\<lambda>_.
     and_then (st_assert_not_paused c) (\<lambda>_.
     let x = predecessor e in
     and_then (ensure_min_base_storage x c) (\<lambda>_.
     and_then (require (0 < sum_user_unstake_tranches_yocto (x, p) c)
       ''You have no unlocked NEAR waiting to claim for this validator'') (\<lambda>_.
     and_then (require_validator_idle p c) (\<lambda>_.
     promise_validator_per_epoch_settlement_then e p (WithdrawUserTransfer p x) c))))))"

definition on_withdraw_user_transfer_after_settle :: "env \<Rightarrow> account_id \<Rightarrow> validator_id \<Rightarrow> staking \<Rightarrow> staking res" where
  "on_withdraw_user_transfer_after_settle e x p c =
     and_then (assert_no_deposit e ''on_withdraw_user_transfer_after_settle'') (\<lambda>_.
     and_then (assert_private e ''on_withdraw_user_transfer_after_settle'') (\<lambda>_.
     payout_user_withdraw e x p c))"

record account_pending_unstake_view =
  pv_current_epoch_height :: nat
  pv_epoch_unstake_settle_epochs :: nat
  pv_total_pending_yocto :: nat
  pv_epoch_eligible_yocto :: nat
  pv_withdrawable_yocto :: nat
  pv_next_available_epoch_height :: "nat option"
  pv_wait_epochs :: "nat option"
  pv_pending_to_claim_yocto :: nat
  pv_can_withdraw_now :: bool
  pv_tranches :: "(nat \<times> nat \<times> bool) list"

definition get_account_pending_unstake :: "env \<Rightarrow> account_id \<Rightarrow> validator_id \<Rightarrow> staking \<Rightarrow> account_pending_unstake_view res" where
  "get_account_pending_unstake e x p c =
     and_then (require_validator p c) (\<lambda>v.
     let h = epoch_height e;
         tranches = user_tranches (x, p) c;
         eligible = sum_tranches (filter (\<lambda>t. tr_available_epoch_height t \<le> h) tranches);
         next = fold (\<lambda>t n. if tr_available_epoch_height t \<le> h then n
             else Some (case n of None \<Rightarrow> tr_available_epoch_height t | Some m \<Rightarrow> min m (tr_available_epoch_height t))) tranches None;
         bucket = va_pending_to_claim v;
         can = (\<not> st_paused c \<and> va_tx_status v = Tx_Idle \<and> 0 < eligible \<and> eligible \<le> bucket)
     in Inr \<lparr>pv_current_epoch_height = h, pv_epoch_unstake_settle_epochs = sg_epoch_unstake_settle_epochs (st_config c),
         pv_total_pending_yocto = sum_tranches tranches, pv_epoch_eligible_yocto = eligible,
         pv_withdrawable_yocto = (if can then eligible else 0), pv_next_available_epoch_height = next,
         pv_wait_epochs = map_option (\<lambda>m. saturating_sub m h) next, pv_pending_to_claim_yocto = bucket,
         pv_can_withdraw_now = can,
         pv_tranches = map (\<lambda>t. (tr_amount t, tr_available_epoch_height t, tr_available_epoch_height t \<le> h)) tranches\<rparr>)"

end
