(* ===== verification/Staking_Catalog.thy ===== *)
theory Staking_Catalog
  imports Staking_Epoch
begin

text \<open>
  The catalogue of the staking contract: generated identifiers (\<open>ids.rs\<close>), products (\<open>products.rs\<close>), prices (\<open>prices.rs\<close>), the
  reward accumulator of a farm price (part of \<open>stake.rs\<close>) and direct payments (\<open>payments.rs\<close>). The host function
  \<open>env::sha256\<close> is the parameter \<open>sha\<close>, a function on bytes. A method of the catalogue asks the pool for its owner and goes on in a
  callback; the effect \<open>St_Get_Owner\<close> names that callback.
\<close>

section \<open>Identifiers (\<open>ids.rs\<close>)\<close>

type_synonym hash_fun = "nat list \<Rightarrow> nat list"

definition BASE62 :: string where
  "BASE62 = ''0123456789ABCDEFGHIJKLMNOPQRSTUVWXYZabcdefghijklmnopqrstuvwxyz''"

definition be_bytes_u64 :: "nat \<Rightarrow> nat list" where
  "be_bytes_u64 n = map (\<lambda>i. n div 256 ^ (7 - i) mod 256) [0..<8]"

text \<open>\<open>remaining\<close> characters are still to be produced; indexing an empty hash panics.\<close>

fun base62_chars :: "hash_fun \<Rightarrow> nat \<Rightarrow> nat list \<Rightarrow> nat \<Rightarrow> string res" where
  "base62_chars sha 0 buf idx = Inr []"
| "base62_chars sha (Suc remaining) buf idx =
     (let (buf', idx') = (if length buf \<le> idx then (sha buf, 0) else (buf, idx))
      in if idx' < length buf'
         then and_then (base62_chars sha remaining buf' (idx' + 1)) (\<lambda>cs. Inr (BASE62 ! (buf' ! idx' mod 62) # cs))
         else Inl (Msg ''index out of bounds''))"

definition base62_from_hash :: "hash_fun \<Rightarrow> nat list \<Rightarrow> nat \<Rightarrow> string res" where
  "base62_from_hash sha hash out_len = base62_chars sha out_len hash 0"

definition next_id :: "hash_fun \<Rightarrow> env \<Rightarrow> string \<Rightarrow> nat \<Rightarrow> nat \<Rightarrow> (nat \<times> string) res" where
  "next_id sha e prefix suffix_len nonce =
     (let buf = map of_char prefix @ be_bytes_u64 nonce @ be_bytes_u64 (block_height e) @ be_bytes_u64 (block_timestamp e)
            @ map of_char (predecessor e)
      in and_then (base62_from_hash sha (sha buf) suffix_len) (\<lambda>encoded.
         Inr (saturating_add 64 nonce 1, prefix @ ''_'' @ encoded)))"

definition next_product_id :: "hash_fun \<Rightarrow> env \<Rightarrow> nat \<Rightarrow> (nat \<times> string) res" where
  "next_product_id sha e = next_id sha e ''prod'' 14"

definition next_price_id :: "hash_fun \<Rightarrow> env \<Rightarrow> nat \<Rightarrow> (nat \<times> string) res" where
  "next_price_id sha e = next_id sha e ''price'' 24"

definition next_subscription_id :: "hash_fun \<Rightarrow> env \<Rightarrow> nat \<Rightarrow> (nat \<times> string) res" where
  "next_subscription_id sha e = next_id sha e ''sub'' 17"

definition next_lock_id :: "hash_fun \<Rightarrow> env \<Rightarrow> nat \<Rightarrow> (nat \<times> string) res" where
  "next_lock_id sha e = next_id sha e ''lock'' 17"

definition next_purchase_id :: "hash_fun \<Rightarrow> env \<Rightarrow> nat \<Rightarrow> (nat \<times> string) res" where
  "next_purchase_id sha e = next_id sha e ''pay'' 17"

fun unique_id_attempts :: "nat \<Rightarrow> (nat \<Rightarrow> (nat \<times> string) res) \<Rightarrow> (string \<Rightarrow> bool) \<Rightarrow> string \<Rightarrow> nat \<Rightarrow> (nat \<times> string) res" where
  "unique_id_attempts 0 generate contains msg nonce = Inl (Msg msg)"
| "unique_id_attempts (Suc n) generate contains msg nonce =
     and_then (generate nonce) (\<lambda>(nonce', i). if \<not> contains i then Inr (nonce', i) else unique_id_attempts n generate contains msg nonce')"

definition next_unique_generated_id ::
  "(nat \<Rightarrow> (nat \<times> string) res) \<Rightarrow> (string \<Rightarrow> bool) \<Rightarrow> string \<Rightarrow> nat \<Rightarrow> (nat \<times> string) res" where
  "next_unique_generated_id generate contains msg nonce = unique_id_attempts 64 generate contains msg nonce"

section \<open>Looking up products and prices\<close>

definition require_product :: "product_id \<Rightarrow> staking \<Rightarrow> product res" where
  "require_product i c = expect (st_products c i) ''Product not found in the catalog''"

definition require_price :: "price_id \<Rightarrow> staking \<Rightarrow> price res" where
  "require_price i c = expect (st_prices c i) ''Price not found in the catalog''"

definition internal_set_product :: "product_id \<Rightarrow> product \<Rightarrow> staking \<Rightarrow> staking" where
  "internal_set_product i p c = c\<lparr>st_products := (st_products c)(i \<mapsto> p)\<rparr>"

definition internal_set_price :: "price_id \<Rightarrow> price \<Rightarrow> staking \<Rightarrow> staking" where
  "internal_set_price i p c = c\<lparr>st_prices := (st_prices c)(i \<mapsto> p)\<rparr>"

definition require_price_and_product :: "price_id \<Rightarrow> staking \<Rightarrow> (price \<times> product) res" where
  "require_price_and_product i c =
     and_then (require_price i c) (\<lambda>pr. and_then (require_product (pc_product_id pr) c) (\<lambda>pd. Inr (pr, pd)))"

definition get_active_price_and_product :: "price_id \<Rightarrow> staking \<Rightarrow> (price \<times> product) res" where
  "get_active_price_and_product i c =
     and_then (require_price i c) (\<lambda>pr.
     and_then (require (pc_status pr = Catalog_Active) ''This price is not active; pick an active price'') (\<lambda>_.
     and_then (require_product (pc_product_id pr) c) (\<lambda>pd.
     and_then (require (pd_status pd = Catalog_Active) ''This product is not active; pick an active product'') (\<lambda>_.
     Inr (pr, pd)))))"

definition require_recurring_monthly_price :: "price \<Rightarrow> unit res" where
  "require_recurring_monthly_price pr =
     and_then (require (pc_price_type pr = Recurring) ''This price is not a recurring subscription price'') (\<lambda>_.
     require (pc_billing_period pr = Some Monthly) ''Only monthly billing is supported'')"

text \<open>The price of a lock or payment: given directly, or the default price of a product (\<open>lock.rs\<close>).\<close>

definition resolve_price_id_for_lock :: "price_id option \<Rightarrow> product_id option \<Rightarrow> staking \<Rightarrow> price_id res" where
  "resolve_price_id_for_lock price_id product_id c =
     (case (price_id, product_id) of
        (Some pid, None) \<Rightarrow> Inr pid
      | (None, Some prod_id) \<Rightarrow>
          and_then (expect (case st_products c prod_id of None \<Rightarrow> None | Some p \<Rightarrow> pd_default_price_id p)
            ''No default price for this product'') (\<lambda>pr_id.
          and_then (require_price pr_id c) (\<lambda>pr.
          and_then (require (pc_product_id pr = prod_id) ''Default price does not belong to this product'') (\<lambda>_.
          Inr pr_id)))
      | (Some _, Some _) \<Rightarrow> Inl (Msg ''Provide only one of price_id or product_id'')
      | (None, None) \<Rightarrow> Inl (Msg ''Provide price_id or product_id''))"

text \<open>Prices and products that a scheduled subscription update will switch to are kept (\<open>subscriptions.rs\<close>).\<close>

definition assert_no_pending_update_references_price :: "price_id \<Rightarrow> staking \<Rightarrow> unit res" where
  "assert_no_pending_update_references_price i c = require (or_zero (st_pending_update_target_price_counts c i) = 0)
     ''Cannot archive or delete this price while it is referenced by a pending subscription update''"

definition assert_no_pending_update_references_product :: "product_id \<Rightarrow> staking \<Rightarrow> unit res" where
  "assert_no_pending_update_references_product i c = require (or_zero (st_pending_update_target_product_counts c i) = 0)
     ''Cannot archive or delete this product while it is referenced by a pending subscription update''"

section \<open>Products (\<open>products.rs\<close>)\<close>

definition promise_catalog_admin_on_pool :: "env \<Rightarrow> validator_id \<Rightarrow> owner_callback \<Rightarrow> staking \<Rightarrow> staking res" where
  "promise_catalog_admin_on_pool e p callback c =
     and_then (catalog_admin_entry_for_pool e p c) (\<lambda>(p', caller). Inr (st_emit (St_Get_Owner p' caller callback) c))"

definition promise_catalog_admin_on_product :: "env \<Rightarrow> product_id \<Rightarrow> owner_callback \<Rightarrow> staking \<Rightarrow> staking res" where
  "promise_catalog_admin_on_product e i callback c =
     and_then (require_product i c) (\<lambda>pd. promise_catalog_admin_on_pool e (pd_validator_id pd) callback c)"

definition promise_catalog_admin_on_price :: "env \<Rightarrow> price_id \<Rightarrow> owner_callback \<Rightarrow> staking \<Rightarrow> staking res" where
  "promise_catalog_admin_on_price e i callback c =
     and_then (require_price_and_product i c) (\<lambda>(_, pd). promise_catalog_admin_on_pool e (pd_validator_id pd) callback c)"

definition create_product :: "env \<Rightarrow> validator_id \<Rightarrow> string \<Rightarrow> string \<Rightarrow> staking \<Rightarrow> staking res" where
  "create_product e p name description =
     promise_catalog_admin_on_pool e p (CreateProduct p name description)"

definition edit_product :: "env \<Rightarrow> product_id \<Rightarrow> string \<Rightarrow> string \<Rightarrow> staking \<Rightarrow> staking res" where
  "edit_product e i name description =
     promise_catalog_admin_on_product e i (EditProduct i name description)"

definition archive_product :: "env \<Rightarrow> product_id \<Rightarrow> staking \<Rightarrow> staking res" where
  "archive_product e i = promise_catalog_admin_on_product e i (ArchiveProduct i)"

definition delete_product :: "env \<Rightarrow> product_id \<Rightarrow> staking \<Rightarrow> staking res" where
  "delete_product e i = promise_catalog_admin_on_product e i (DeleteProduct i)"

definition unarchive_product :: "env \<Rightarrow> product_id \<Rightarrow> staking \<Rightarrow> staking res" where
  "unarchive_product e i = promise_catalog_admin_on_product e i (UnarchiveProduct i)"

definition set_product_default_price :: "env \<Rightarrow> product_id \<Rightarrow> price_id option \<Rightarrow> staking \<Rightarrow> staking res" where
  "set_product_default_price e i price_id = promise_catalog_admin_on_product e i (SetProductDefaultPrice i price_id)"

text \<open>The owner that the pool reported to a callback; a failed promise is a panic.\<close>

definition callback_owner :: "env \<Rightarrow> string \<Rightarrow> account_id option \<Rightarrow> account_id res" where
  "callback_owner e method result =
     and_then (assert_no_deposit e method) (\<lambda>_.
     and_then (assert_private e method) (\<lambda>_.
     expect result ''Callback computation 0 was not successful''))"

definition next_unique_product_id :: "hash_fun \<Rightarrow> env \<Rightarrow> staking \<Rightarrow> (staking \<times> product_id) res" where
  "next_unique_product_id sha e c =
     and_then (next_unique_generated_id (next_product_id sha e) (\<lambda>i. st_products c i \<noteq> None)
       ''Could not allocate a unique product id; try again'' (st_id_nonce c)) (\<lambda>(nonce, i). Inr (c\<lparr>st_id_nonce := nonce\<rparr>, i))"

definition create_product_after_get_owner ::
  "hash_fun \<Rightarrow> env \<Rightarrow> account_id option \<Rightarrow> validator_id \<Rightarrow> string \<Rightarrow> string \<Rightarrow> account_id \<Rightarrow> staking \<Rightarrow> (staking \<times> product_id) res" where
  "create_product_after_get_owner sha e result p name description caller c =
     and_then (callback_owner e ''create_product_after_get_owner'' result) (\<lambda>pool_owner.
     and_then (assert_validator_catalog_admin pool_owner p caller c) (\<lambda>_.
     and_then (next_unique_product_id sha e c) (\<lambda>(c1, i).
     let c2 = internal_set_product i \<lparr>pd_product_id = i, pd_validator_id = p, pd_name = name, pd_description = description,
           pd_status = Catalog_Active, pd_created_ns = block_timestamp e, pd_price_ids = [], pd_default_price_id = None,
           pd_usage_count = 0\<rparr> c1;
         c3 = c2\<lparr>st_product_ids := st_product_ids c2 @ [i]\<rparr>
     in Inr (st_emit (St_Event ''product_create'' [i, p] []) c3, i))))"

definition edit_product_after_get_owner ::
  "env \<Rightarrow> account_id option \<Rightarrow> product_id \<Rightarrow> string \<Rightarrow> string \<Rightarrow> account_id \<Rightarrow> staking \<Rightarrow> staking res" where
  "edit_product_after_get_owner e result i name description caller c =
     and_then (callback_owner e ''edit_product_after_get_owner'' result) (\<lambda>pool_owner.
     and_then (require_product i c) (\<lambda>pd.
     and_then (assert_validator_catalog_admin pool_owner (pd_validator_id pd) caller c) (\<lambda>_.
     Inr (internal_set_product i (pd\<lparr>pd_name := name, pd_description := description\<rparr>) c))))"

definition archive_product_after_get_owner :: "env \<Rightarrow> account_id option \<Rightarrow> product_id \<Rightarrow> account_id \<Rightarrow> staking \<Rightarrow> staking res" where
  "archive_product_after_get_owner e result i caller c =
     and_then (callback_owner e ''archive_product_after_get_owner'' result) (\<lambda>pool_owner.
     and_then (require_product i c) (\<lambda>pd.
     and_then (assert_validator_catalog_admin pool_owner (pd_validator_id pd) caller c) (\<lambda>_.
     and_then (assert_no_pending_update_references_product i c) (\<lambda>_.
     Inr (internal_set_product i (pd\<lparr>pd_default_price_id := None, pd_status := Archived\<rparr>) c)))))"

definition remove_product_id_from_list :: "product_id \<Rightarrow> staking \<Rightarrow> staking" where
  "remove_product_id_from_list i c = c\<lparr>st_product_ids := remove1 i (st_product_ids c)\<rparr>"

definition delete_product_after_get_owner :: "env \<Rightarrow> account_id option \<Rightarrow> product_id \<Rightarrow> account_id \<Rightarrow> staking \<Rightarrow> staking res" where
  "delete_product_after_get_owner e result i caller c =
     and_then (callback_owner e ''delete_product_after_get_owner'' result) (\<lambda>pool_owner.
     and_then (require_product i c) (\<lambda>pd.
     and_then (assert_validator_catalog_admin pool_owner (pd_validator_id pd) caller c) (\<lambda>_.
     and_then (require (pd_usage_count pd = 0) ''Cannot delete this product while it is in use'') (\<lambda>_.
     and_then (assert_no_pending_update_references_product i c) (\<lambda>_.
     and_then (require (pd_price_ids pd = []) ''Remove or delete all prices for this product first'') (\<lambda>_.
     let c1 = remove_product_id_from_list i c
     in Inr (c1\<lparr>st_products := (st_products c1)(i := None)\<rparr>)))))))"

definition unarchive_product_after_get_owner :: "env \<Rightarrow> account_id option \<Rightarrow> product_id \<Rightarrow> account_id \<Rightarrow> staking \<Rightarrow> staking res" where
  "unarchive_product_after_get_owner e result i caller c =
     and_then (callback_owner e ''unarchive_product_after_get_owner'' result) (\<lambda>pool_owner.
     and_then (require_product i c) (\<lambda>pd.
     and_then (assert_validator_catalog_admin pool_owner (pd_validator_id pd) caller c) (\<lambda>_.
     and_then (require (pd_status pd = Archived) ''Product is not archived'') (\<lambda>_.
     Inr (internal_set_product i (pd\<lparr>pd_status := Catalog_Active\<rparr>) c)))))"

definition set_product_default_price_after_get_owner ::
  "env \<Rightarrow> account_id option \<Rightarrow> product_id \<Rightarrow> price_id option \<Rightarrow> account_id \<Rightarrow> staking \<Rightarrow> staking res" where
  "set_product_default_price_after_get_owner e result i price_id caller c =
     and_then (callback_owner e ''set_product_default_price_after_get_owner'' result) (\<lambda>pool_owner.
     and_then (require_product i c) (\<lambda>pd.
     and_then (assert_validator_catalog_admin pool_owner (pd_validator_id pd) caller c) (\<lambda>_.
     and_then (require (pd_status pd = Catalog_Active) ''This product is archived or inactive'') (\<lambda>_.
     and_then (case price_id of
         None \<Rightarrow> Inr None
       | Some pid \<Rightarrow>
           and_then (require_price pid c) (\<lambda>pr.
           and_then (require (pc_product_id pr = i) ''Price does not belong to this product'') (\<lambda>_.
           and_then (require (pc_status pr = Catalog_Active) ''Only an active (unarchived) price can be the default'') (\<lambda>_.
           and_then (require (pid \<in> set (pd_price_ids pd)) ''Price not listed on product'') (\<lambda>_. Inr (Some pid)))))) (\<lambda>default.
     Inr (internal_set_product i (pd\<lparr>pd_default_price_id := default\<rparr>) c))))))"

definition get_products :: "nat \<Rightarrow> nat \<Rightarrow> staking \<Rightarrow> product list" where
  "get_products from limit c = collect_paginated from limit (length (st_product_ids c))
     (\<lambda>i. st_products c (st_product_ids c ! i))"

definition get_product_default_price :: "product_id \<Rightarrow> staking \<Rightarrow> price_id option" where
  "get_product_default_price i c = (case st_products c i of None \<Rightarrow> None | Some pd \<Rightarrow> pd_default_price_id pd)"

definition clear_product_default_price_field_if_matches :: "product_id \<Rightarrow> price_id \<Rightarrow> staking \<Rightarrow> staking" where
  "clear_product_default_price_field_if_matches i price_id c =
     (case st_products c i of
        None \<Rightarrow> c
      | Some pd \<Rightarrow> if pd_default_price_id pd = Some price_id
                   then internal_set_product i (pd\<lparr>pd_default_price_id := None\<rparr>) c else c)"

section \<open>The reward accumulator of a farm price (\<open>stake.rs\<close>)\<close>

definition FARM_REWARD_RATE_DENOM :: nat where "FARM_REWARD_RATE_DENOM = 1"
definition FARM_ACC_REWARD_PER_SHARE_DENOM :: nat where "FARM_ACC_REWARD_PER_SHARE_DENOM = 1000000000000000000000000"
definition YOCTO_PER_NEAR :: nat where "YOCTO_PER_NEAR = 1000000000000000000000000"
definition NS_PER_SECOND :: nat where "NS_PER_SECOND = 1000000000"

definition farm_delta_reward_units :: "nat \<Rightarrow> nat \<Rightarrow> nat \<Rightarrow> nat res" where
  "farm_delta_reward_units total_farm_near_yocto elapsed_ns reward_rate =
     and_then (mul_u 256 total_farm_near_yocto elapsed_ns) (\<lambda>x.
     and_then (mul_u 256 x reward_rate) (\<lambda>y.
     as_u128 (y div YOCTO_PER_NEAR div NS_PER_SECOND div FARM_REWARD_RATE_DENOM)))"

definition farm_position_accumulated :: "nat \<Rightarrow> nat \<Rightarrow> nat res" where
  "farm_position_accumulated shares acc_reward_per_share =
     and_then (mul_u 256 shares acc_reward_per_share) (\<lambda>x. as_u128 (x div FARM_ACC_REWARD_PER_SHARE_DENOM))"

definition require_farm_pool :: "price_id \<Rightarrow> staking \<Rightarrow> farm_pool res" where
  "require_farm_pool i c = expect (st_farm_pools c i) ''Farm pool not found''"

definition internal_set_farm_pool :: "price_id \<Rightarrow> farm_pool \<Rightarrow> staking \<Rightarrow> staking" where
  "internal_set_farm_pool i pool c = c\<lparr>st_farm_pools := (st_farm_pools c)(i \<mapsto> pool)\<rparr>"

definition simulate_settled_farm_pool :: "env \<Rightarrow> farm_pool \<Rightarrow> staking \<Rightarrow> farm_pool res" where
  "simulate_settled_farm_pool e pool c =
     (let now_ns = block_timestamp e in
      if now_ns \<le> fp_last_reward_settle_ns pool then Inr pool
      else if fp_total_farm_shares pool = 0 then Inr (pool\<lparr>fp_last_reward_settle_ns := now_ns\<rparr>)
      else
        and_then (require_product (fp_product_id pool) c) (\<lambda>pd.
        and_then (require_validator (pd_validator_id pd) c) (\<lambda>v.
        and_then (near_from_shares (fp_total_farm_shares pool) (net_stake_yocto v) (va_total_shares v)) (\<lambda>total_farm_near_yocto.
        let elapsed_ns = saturating_sub now_ns (fp_last_reward_settle_ns pool) in
        and_then (farm_delta_reward_units total_farm_near_yocto elapsed_ns (fp_reward_rate pool)) (\<lambda>delta_reward_units.
        and_then (if 0 < delta_reward_units
            then and_then (mul_u 256 delta_reward_units FARM_ACC_REWARD_PER_SHARE_DENOM) (\<lambda>x.
                 and_then (as_u128 (x div fp_total_farm_shares pool)) (\<lambda>delta_acc.
                 Inr (pool\<lparr>fp_acc_reward_per_share := saturating_add 128 (fp_acc_reward_per_share pool) delta_acc\<rparr>)))
            else Inr pool) (\<lambda>pool1.
        Inr (pool1\<lparr>fp_last_reward_settle_ns := now_ns\<rparr>)))))))"

definition settle_farm_pool :: "env \<Rightarrow> price_id \<Rightarrow> staking \<Rightarrow> staking res" where
  "settle_farm_pool e i c =
     and_then (require_farm_pool i c) (\<lambda>pool.
     and_then (simulate_settled_farm_pool e pool c) (\<lambda>settled.
     Inr (internal_set_farm_pool i settled c)))"

definition require_no_active_farm_price_for_product :: "product \<Rightarrow> staking \<Rightarrow> unit res" where
  "require_no_active_farm_price_for_product pd c =
     for_each (\<lambda>i _. case st_prices c i of
         None \<Rightarrow> Inr ()
       | Some pr \<Rightarrow> require (pc_price_type pr \<noteq> Farm \<or> pc_status pr \<noteq> Catalog_Active) ''Product already has an active farm price'')
       (pd_price_ids pd) ()"

section \<open>Prices (\<open>prices.rs\<close>)\<close>

definition meta_max_amount :: "price_metadata option \<Rightarrow> nat option" where
  "meta_max_amount m = (case m of None \<Rightarrow> None | Some x \<Rightarrow> pm_max_amount x)"

definition meta_farm_reward_rate :: "price_metadata option \<Rightarrow> nat option" where
  "meta_farm_reward_rate m = (case m of None \<Rightarrow> None | Some x \<Rightarrow> pm_farm_reward_rate x)"

definition validate_price_fields ::
  "price_type \<Rightarrow> billing_period option \<Rightarrow> nat \<Rightarrow> nat \<Rightarrow> price_metadata option \<Rightarrow> staking \<Rightarrow> unit res" where
  "validate_price_fields price_type billing_period lock_factor_near_months amount metadata c =
     and_then (case meta_max_amount metadata of
         None \<Rightarrow> Inr ()
       | Some m \<Rightarrow> require (amount \<le> m) ''Price max_amount must be greater than or equal to amount'') (\<lambda>_.
     case price_type of
       OneOff \<Rightarrow>
         and_then (require (billing_period = None) ''One-off price must not set billing_period'') (\<lambda>_.
         require (meta_farm_reward_rate metadata = None) ''farm_reward_rate is only valid for Farm prices'')
     | Recurring \<Rightarrow>
         and_then (require (billing_period = Some Monthly) ''Recurring price must use monthly billing_period'') (\<lambda>_.
         require (meta_farm_reward_rate metadata = None) ''farm_reward_rate is only valid for Farm prices'')
     | Farm \<Rightarrow>
         and_then (require (billing_period = None) ''Farm price must not set billing_period'') (\<lambda>_.
         and_then (require (lock_factor_near_months = 0) ''Farm price lock_factor_near_months must be zero'') (\<lambda>_.
         and_then (require (sg_min_lock_amount (st_config c) \<le> amount) ''Farm price amount is below min_lock_amount'') (\<lambda>_.
         require (meta_farm_reward_rate metadata \<noteq> None) ''Farm price requires farm_reward_rate''))))"

definition create_price ::
  "env \<Rightarrow> product_id \<Rightarrow> string \<Rightarrow> string \<Rightarrow> nat \<Rightarrow> price_type \<Rightarrow> billing_period option \<Rightarrow> nat \<Rightarrow> price_metadata option \<Rightarrow> staking \<Rightarrow> staking res" where
  "create_price e i name description amount price_type billing_period lock_factor metadata =
     promise_catalog_admin_on_product e i (CreatePrice i name description amount price_type billing_period lock_factor metadata)"

definition edit_price :: "env \<Rightarrow> price_id \<Rightarrow> string option \<Rightarrow> string option \<Rightarrow> price_metadata option \<Rightarrow> staking \<Rightarrow> staking res" where
  "edit_price e i name description metadata = promise_catalog_admin_on_price e i (EditPrice i name description metadata)"

definition archive_price :: "env \<Rightarrow> price_id \<Rightarrow> staking \<Rightarrow> staking res" where
  "archive_price e i = promise_catalog_admin_on_price e i (ArchivePrice i)"

definition unarchive_price :: "env \<Rightarrow> price_id \<Rightarrow> staking \<Rightarrow> staking res" where
  "unarchive_price e i = promise_catalog_admin_on_price e i (UnarchivePrice i)"

definition delete_price :: "env \<Rightarrow> price_id \<Rightarrow> staking \<Rightarrow> staking res" where
  "delete_price e i = promise_catalog_admin_on_price e i (DeletePrice i)"

definition next_unique_price_id :: "hash_fun \<Rightarrow> env \<Rightarrow> staking \<Rightarrow> (staking \<times> price_id) res" where
  "next_unique_price_id sha e c =
     and_then (next_unique_generated_id (next_price_id sha e) (\<lambda>i. st_prices c i \<noteq> None)
       ''Could not allocate a unique price id; try again'' (st_id_nonce c)) (\<lambda>(nonce, i). Inr (c\<lparr>st_id_nonce := nonce\<rparr>, i))"

definition create_price_after_get_owner ::
  "hash_fun \<Rightarrow> env \<Rightarrow> account_id option \<Rightarrow> product_id \<Rightarrow> string \<Rightarrow> string \<Rightarrow> nat \<Rightarrow> price_type \<Rightarrow> billing_period option
   \<Rightarrow> nat \<Rightarrow> price_metadata option \<Rightarrow> account_id \<Rightarrow> staking \<Rightarrow> (staking \<times> price_id) res" where
  "create_price_after_get_owner sha e result i name description amount price_type billing_period lock_factor metadata caller c =
     and_then (callback_owner e ''create_price_after_get_owner'' result) (\<lambda>pool_owner.
     and_then (require_product i c) (\<lambda>pd.
     and_then (assert_validator_catalog_admin pool_owner (pd_validator_id pd) caller c) (\<lambda>_.
     and_then (require (pd_status pd = Catalog_Active) ''This product is archived or inactive'') (\<lambda>_.
     and_then (validate_price_fields price_type billing_period lock_factor amount metadata c) (\<lambda>_.
     and_then (if price_type = Farm then require_no_active_farm_price_for_product pd c else Inr ()) (\<lambda>_.
     and_then (next_unique_price_id sha e c) (\<lambda>(c1, price_id).
     let c2 = internal_set_price price_id \<lparr>pc_price_id = price_id, pc_product_id = i, pc_name = name, pc_description = description,
           pc_amount = amount, pc_price_type = price_type, pc_billing_period = billing_period,
           pc_lock_factor_near_months = lock_factor, pc_metadata = metadata, pc_status = Catalog_Active, pc_usage_count = 0\<rparr> c1
     in and_then (if price_type = Farm
          then and_then (expect (meta_farm_reward_rate metadata) ''Farm price metadata must contain farm_reward_rate'') (\<lambda>reward_rate.
               Inr (internal_set_farm_pool price_id \<lparr>fp_price_id = price_id, fp_product_id = i, fp_reward_rate = reward_rate,
                 fp_total_farm_shares = 0, fp_acc_reward_per_share = 0, fp_last_reward_settle_ns = block_timestamp e\<rparr> c2))
          else Inr c2) (\<lambda>c3.
        Inr (internal_set_product i (pd\<lparr>pd_price_ids := pd_price_ids pd @ [price_id]\<rparr>) c3, price_id)))))))))"

definition edit_price_after_get_owner ::
  "env \<Rightarrow> account_id option \<Rightarrow> price_id \<Rightarrow> string option \<Rightarrow> string option \<Rightarrow> price_metadata option \<Rightarrow> account_id \<Rightarrow> staking \<Rightarrow> staking res" where
  "edit_price_after_get_owner e result i name description metadata caller c =
     and_then (callback_owner e ''edit_price_after_get_owner'' result) (\<lambda>pool_owner.
     and_then (require_price_and_product i c) (\<lambda>(pr, pd).
     and_then (assert_validator_catalog_admin pool_owner (pd_validator_id pd) caller c) (\<lambda>_.
     let pr1 = (case name of None \<Rightarrow> pr | Some x \<Rightarrow> pr\<lparr>pc_name := x\<rparr>);
         pr2 = (case description of None \<Rightarrow> pr1 | Some x \<Rightarrow> pr1\<lparr>pc_description := x\<rparr>)
     in and_then (case metadata of
         None \<Rightarrow> Inr (c, pr2)
       | Some m \<Rightarrow>
           (case pc_price_type pr2 of
              Farm \<Rightarrow>
                and_then (case pm_max_amount m of
                    None \<Rightarrow> Inr ()
                  | Some x \<Rightarrow> require (pc_amount pr2 \<le> x) ''Price max_amount must be greater than or equal to amount'') (\<lambda>_.
                let old_rate = meta_farm_reward_rate (pc_metadata pr2) in
                and_then (case pm_farm_reward_rate m of
                    Some x \<Rightarrow> Inr x
                  | None \<Rightarrow> expect old_rate ''Farm price must have a reward rate'') (\<lambda>new_rate.
                and_then (if Some new_rate \<noteq> old_rate
                    then and_then (settle_farm_pool e i c) (\<lambda>c1.
                         and_then (require_farm_pool i c1) (\<lambda>pool.
                         Inr (st_emit (St_Event ''farm_reward_rate_update'' [i] [new_rate])
                                (internal_set_farm_pool i (pool\<lparr>fp_reward_rate := new_rate\<rparr>) c1))))
                    else Inr c) (\<lambda>c2.
                Inr (c2, pr2\<lparr>pc_metadata := Some \<lparr>pm_max_amount = pm_max_amount m, pm_farm_reward_rate = Some new_rate\<rparr>\<rparr>))))
            | _ \<Rightarrow>
                and_then (require (pm_farm_reward_rate m = None) ''farm_reward_rate is only valid for Farm prices'') (\<lambda>_.
                and_then (case pm_max_amount m of
                    None \<Rightarrow> Inr ()
                  | Some x \<Rightarrow> require (pc_amount pr2 \<le> x) ''Price max_amount must be greater than or equal to amount'') (\<lambda>_.
                Inr (c, pr2\<lparr>pc_metadata := Some m\<rparr>))))) (\<lambda>(c3, pr3).
     Inr (internal_set_price i pr3 c3)))))"

definition archive_price_after_get_owner :: "env \<Rightarrow> account_id option \<Rightarrow> price_id \<Rightarrow> account_id \<Rightarrow> staking \<Rightarrow> staking res" where
  "archive_price_after_get_owner e result i caller c =
     and_then (callback_owner e ''archive_price_after_get_owner'' result) (\<lambda>pool_owner.
     and_then (require_price_and_product i c) (\<lambda>(pr, pd).
     and_then (assert_validator_catalog_admin pool_owner (pd_validator_id pd) caller c) (\<lambda>_.
     and_then (assert_no_pending_update_references_price i c) (\<lambda>_.
     and_then (if pc_price_type pr = Farm
         then and_then (require_farm_pool i c) (\<lambda>pool.
              require (fp_total_farm_shares pool = 0) ''Cannot archive a farm price while it has active stake'')
         else Inr ()) (\<lambda>_.
     Inr (clear_product_default_price_field_if_matches (pc_product_id pr) i (internal_set_price i (pr\<lparr>pc_status := Archived\<rparr>) c)))))))"

definition delete_price_after_get_owner :: "env \<Rightarrow> account_id option \<Rightarrow> price_id \<Rightarrow> account_id \<Rightarrow> staking \<Rightarrow> staking res" where
  "delete_price_after_get_owner e result i caller c =
     and_then (callback_owner e ''delete_price_after_get_owner'' result) (\<lambda>pool_owner.
     and_then (require_price_and_product i c) (\<lambda>(pr, pd).
     and_then (assert_validator_catalog_admin pool_owner (pd_validator_id pd) caller c) (\<lambda>_.
     and_then (require (pc_usage_count pr = 0) ''Cannot delete this price while it is in use'') (\<lambda>_.
     and_then (if pc_price_type pr = Farm
         then (case st_farm_pools c i of
             None \<Rightarrow> Inr c
           | Some pool \<Rightarrow> and_then (require (fp_total_farm_shares pool = 0) ''Cannot delete a farm price while it has active stake'') (\<lambda>_.
               Inr (c\<lparr>st_farm_pools := (st_farm_pools c)(i := None)\<rparr>)))
         else Inr c) (\<lambda>c1.
     and_then (assert_no_pending_update_references_price i c1) (\<lambda>_.
     let c2 = internal_set_product (pc_product_id pr) (pd\<lparr>pd_price_ids := filter (\<lambda>x. x \<noteq> i) (pd_price_ids pd)\<rparr>) c1;
         c3 = c2\<lparr>st_prices := (st_prices c2)(i := None)\<rparr>
     in Inr (clear_product_default_price_field_if_matches (pc_product_id pr) i c3)))))))"

definition unarchive_price_after_get_owner :: "env \<Rightarrow> account_id option \<Rightarrow> price_id \<Rightarrow> account_id \<Rightarrow> staking \<Rightarrow> staking res" where
  "unarchive_price_after_get_owner e result i caller c =
     and_then (callback_owner e ''unarchive_price_after_get_owner'' result) (\<lambda>pool_owner.
     and_then (require_price_and_product i c) (\<lambda>(pr, pd).
     and_then (assert_validator_catalog_admin pool_owner (pd_validator_id pd) caller c) (\<lambda>_.
     and_then (require (pc_status pr = Archived) ''Price is not archived'') (\<lambda>_.
     and_then (if pc_price_type pr = Farm then require_no_active_farm_price_for_product pd c else Inr ()) (\<lambda>_.
     Inr (internal_set_price i (pr\<lparr>pc_status := Catalog_Active\<rparr>) c))))))"

section \<open>Direct payments (\<open>payments.rs\<close>)\<close>

definition next_unique_purchase_id :: "hash_fun \<Rightarrow> env \<Rightarrow> staking \<Rightarrow> (staking \<times> purchase_id) res" where
  "next_unique_purchase_id sha e c =
     and_then (next_unique_generated_id (next_purchase_id sha e) (\<lambda>i. st_purchases c i \<noteq> None)
       ''Could not allocate a unique purchase id; try again'' (st_id_nonce c)) (\<lambda>(nonce, i). Inr (c\<lparr>st_id_nonce := nonce\<rparr>, i))"

definition or_empty :: "'a list option \<Rightarrow> 'a list" where
  "or_empty x = (case x of None \<Rightarrow> [] | Some xs \<Rightarrow> xs)"

definition add_purchase_to_account_index :: "account_id \<Rightarrow> purchase_id \<Rightarrow> staking \<Rightarrow> staking" where
  "add_purchase_to_account_index x i c =
     c\<lparr>st_purchases_by_account := (st_purchases_by_account c)(x \<mapsto> or_empty (st_purchases_by_account c x) @ [i])\<rparr>"

definition add_purchase_to_product_index :: "product_id \<Rightarrow> purchase_id \<Rightarrow> staking \<Rightarrow> staking" where
  "add_purchase_to_product_index x i c =
     c\<lparr>st_purchases_by_product := (st_purchases_by_product c)(x \<mapsto> or_empty (st_purchases_by_product c x) @ [i])\<rparr>"

definition add_revenue_to_validator :: "validator_id \<Rightarrow> nat \<Rightarrow> staking \<Rightarrow> staking res" where
  "add_revenue_to_validator p amount c =
     (let n = or_zero (st_revenue_by_validator c p) + amount in
      and_then (expect (if n < 2 ^ 128 then Some n else None) ''Validator revenue overflow; reduce payment amount'') (\<lambda>n.
      Inr (c\<lparr>st_revenue_by_validator := (st_revenue_by_validator c)(p \<mapsto> n)\<rparr>)))"

definition pay :: "hash_fun \<Rightarrow> env \<Rightarrow> price_id option \<Rightarrow> product_id option \<Rightarrow> nat \<Rightarrow> staking \<Rightarrow> (staking \<times> purchase_id) res" where
  "pay sha e price_id product_id quantity c =
     and_then (st_assert_not_paused c) (\<lambda>_.
     and_then (require (0 < quantity) ''Quantity must be greater than zero'') (\<lambda>_.
     let buyer = predecessor e in
     and_then (ensure_min_storage_for_new_purchase buyer c) (\<lambda>_.
     and_then (resolve_price_id_for_lock price_id product_id c) (\<lambda>resolved_price_id.
     and_then (get_active_price_and_product resolved_price_id c) (\<lambda>(pr, pd).
     and_then (assert_validator_active_for_lock (pd_validator_id pd) c) (\<lambda>_.
     and_then (require (pc_price_type pr = OneOff) ''This price is not a one-off product price'') (\<lambda>_.
     and_then (require (pc_billing_period pr = None) ''One-off price must not set billing_period'') (\<lambda>_.
     and_then (expect (if pc_amount pr * quantity < 2 ^ 128 then Some (pc_amount pr * quantity) else None)
       ''Payment amount overflow; reduce the quantity'') (\<lambda>expected_amount.
     let paid = attached_deposit e in
     and_then (require (paid = expected_amount) ''Attached deposit must equal price amount times quantity'') (\<lambda>_.
     and_then (next_unique_purchase_id sha e c) (\<lambda>(c1, i).
     let c2 = c1\<lparr>st_purchases := (st_purchases c1)(i \<mapsto> \<lparr>pur_purchase_id = i, pur_account_id = buyer,
           pur_product_id = pd_product_id pd, pur_price_id = pc_price_id pr, pur_quantity = quantity, pur_amount_paid = paid,
           pur_created_ns = block_timestamp e\<rparr>), st_purchase_ids := st_purchase_ids c1 @ [i]\<rparr>;
         c3 = add_purchase_to_product_index (pd_product_id pd) i (add_purchase_to_account_index buyer i c2);
         c4 = c3\<lparr>st_user_purchase_count := (st_user_purchase_count c3)
           (buyer \<mapsto> saturating_add 32 (or_zero (st_user_purchase_count c3 buyer)) 1)\<rparr>;
         pr' = pr\<lparr>pc_usage_count := saturating_add 64 (pc_usage_count pr) 1\<rparr>;
         pd' = pd\<lparr>pd_usage_count := saturating_add 64 (pd_usage_count pd) 1\<rparr>
     in and_then (add_revenue_to_validator (pd_validator_id pd') paid c4) (\<lambda>c5.
     let c6 = internal_set_product (pd_product_id pd') pd' (internal_set_price (pc_price_id pr') pr' c5)
     in Inr (st_emit (St_Event ''payment_create'' [i, buyer, pd_product_id pd', pc_price_id pr'] [quantity, paid]) c6, i)))))))))))))"

definition withdraw_revenue :: "env \<Rightarrow> validator_id \<Rightarrow> staking \<Rightarrow> staking res" where
  "withdraw_revenue e p c =
     and_then (assert_one_yocto e) (\<lambda>_.
     and_then (st_assert_not_paused c) (\<lambda>_.
     and_then (catalog_admin_entry_for_pool e p c) (\<lambda>(p', caller).
     Inr (st_emit (St_Get_Owner p' caller (WithdrawRevenue p')) c))))"

definition withdraw_revenue_after_get_owner :: "env \<Rightarrow> account_id option \<Rightarrow> validator_id \<Rightarrow> account_id \<Rightarrow> staking \<Rightarrow> staking res" where
  "withdraw_revenue_after_get_owner e result p caller c =
     and_then (callback_owner e ''withdraw_revenue_after_get_owner'' result) (\<lambda>pool_owner.
     and_then (assert_validator_owner pool_owner caller c) (\<lambda>_.
     let balance = or_zero (st_revenue_by_validator c p) in
     and_then (require (0 < balance) ''No revenue available to withdraw'') (\<lambda>_.
     let c1 = c\<lparr>st_revenue_by_validator := (st_revenue_by_validator c)(p \<mapsto> 0)\<rparr>
     in Inr (st_emit (St_Transfer pool_owner balance) (st_emit (St_Event ''revenue_withdraw'' [p, pool_owner] [balance]) c1)))))"

definition get_purchases :: "nat \<Rightarrow> nat \<Rightarrow> staking \<Rightarrow> purchase list" where
  "get_purchases from limit c = collect_paginated from limit (length (st_purchase_ids c))
     (\<lambda>i. st_purchases c (st_purchase_ids c ! i))"

definition get_purchases_for_account :: "account_id \<Rightarrow> nat \<Rightarrow> nat \<Rightarrow> staking \<Rightarrow> purchase list" where
  "get_purchases_for_account x from limit c =
     (case st_purchases_by_account c x of
        None \<Rightarrow> []
      | Some ids \<Rightarrow> collect_paginated from limit (length ids) (\<lambda>i. st_purchases c (ids ! i)))"

definition get_purchases_for_product :: "product_id \<Rightarrow> nat \<Rightarrow> nat \<Rightarrow> staking \<Rightarrow> purchase list" where
  "get_purchases_for_product x from limit c =
     (case st_purchases_by_product c x of
        None \<Rightarrow> []
      | Some ids \<Rightarrow> collect_paginated from limit (length ids) (\<lambda>i. st_purchases c (ids ! i)))"

definition get_revenue_balance_for_validator :: "validator_id \<Rightarrow> staking \<Rightarrow> nat" where
  "get_revenue_balance_for_validator p c = or_zero (st_revenue_by_validator c p)"

end
