(* ===== verification/Staking_Farm.thy ===== *)
theory Staking_Farm
  imports Staking_Catalog
begin

text \<open>
  Staking for farm rewards (\<open>stake.rs\<close>, as deployed): an account holds at most one position per product, whose shares are
  shares of the pool of the product's validator; the rewards of a price are distributed over its positions by an accumulator
  (reward per share, theory \<open>Staking_Catalog\<close>).
\<close>

definition internal_set_farm_position :: "farm_position \<Rightarrow> staking \<Rightarrow> staking" where
  "internal_set_farm_position po c = c\<lparr>st_farm_positions := (st_farm_positions c)((fo_account_id po, fo_product_id po) \<mapsto> po)\<rparr>"

definition internal_set_farm_account :: "account_id \<Rightarrow> farm_account \<Rightarrow> staking \<Rightarrow> staking" where
  "internal_set_farm_account x a c = c\<lparr>st_farm_accounts := (st_farm_accounts c)(x \<mapsto> a)\<rparr>"

definition require_farm_price_for_product :: "price \<Rightarrow> product_id \<Rightarrow> unit res" where
  "require_farm_price_for_product pr i =
     and_then (require (pc_price_type pr = Farm) ''This price is not a farm price'') (\<lambda>_.
     require (pc_product_id pr = i) ''Farm price does not belong to this product'')"

definition require_active_farm_position :: "account_id \<Rightarrow> product_id \<Rightarrow> staking \<Rightarrow> farm_position res" where
  "require_active_farm_position x i c =
     and_then (expect (st_farm_positions c (x, i)) ''Farm position not found'') (\<lambda>po.
     and_then (require (fo_status po = Farm_Active) ''Farm position is not active'') (\<lambda>_.
     and_then (require (0 < fo_shares po) ''Farm position has no shares'') (\<lambda>_. Inr po)))"

text \<open>The one active farm price of a product, unless a price is given.\<close>

definition resolve_farm_price_id :: "product_id \<Rightarrow> price_id option \<Rightarrow> staking \<Rightarrow> price_id res" where
  "resolve_farm_price_id i price_id c =
     (case price_id of
        Some pid \<Rightarrow>
          and_then (require_price pid c) (\<lambda>pr.
          and_then (require_farm_price_for_product pr i) (\<lambda>_.
          and_then (require (pc_status pr = Catalog_Active) ''This farm price is archived or inactive'') (\<lambda>_. Inr pid)))
      | None \<Rightarrow>
          and_then (require_product i c) (\<lambda>pd.
          and_then (for_each (\<lambda>candidate_id found.
              case st_prices c candidate_id of
                None \<Rightarrow> Inr found
              | Some pr \<Rightarrow>
                  if pc_price_type pr = Farm \<and> pc_status pr = Catalog_Active
                  then and_then (require (found = None) ''Product has multiple active farm prices'') (\<lambda>_. Inr (Some candidate_id))
                  else Inr found) (pd_price_ids pd) None) (\<lambda>found.
          expect found ''No active farm price for this product'')))"

definition validate_farm_max_amount :: "account_id \<Rightarrow> product_id \<Rightarrow> price \<Rightarrow> nat \<Rightarrow> staking \<Rightarrow> unit res" where
  "validate_farm_max_amount x i pr deposit_yocto c =
     (case meta_max_amount (pc_metadata pr) of
        None \<Rightarrow> Inr ()
      | Some max_amount \<Rightarrow>
          and_then (case st_farm_positions c (x, i) of
              None \<Rightarrow> Inr 0
            | Some po \<Rightarrow>
                if fo_status po = Farm_Active
                then and_then (require_validator (fo_validator_id po) c) (\<lambda>v.
                     near_from_shares (fo_shares po) (net_stake_yocto v) (va_total_shares v))
                else Inr 0) (\<lambda>current.
          require (saturating_add 128 current deposit_yocto \<le> max_amount) ''Farm stake exceeds max_amount''))"

definition st_stake :: "env \<Rightarrow> product_id \<Rightarrow> price_id option \<Rightarrow> staking \<Rightarrow> staking res" where
  "st_stake e i price_id c =
     and_then (require_enough_gas_for_epoch_settlement e) (\<lambda>_.
     and_then (st_assert_not_paused c) (\<lambda>_.
     let x = predecessor e; deposit = attached_deposit e in
     and_then (ensure_min_base_storage x c) (\<lambda>_.
     and_then (require (sg_min_lock_amount (st_config c) \<le> deposit)
       ''Attached NEAR is below the contract minimum lock amount (min_lock_amount)'') (\<lambda>_.
     and_then (resolve_farm_price_id i price_id c) (\<lambda>pid.
     and_then (get_active_price_and_product pid c) (\<lambda>(pr, pd).
     and_then (require_farm_price_for_product pr i) (\<lambda>_.
     and_then (assert_validator_active_for_lock (pd_validator_id pd) c) (\<lambda>_.
     and_then (require (pc_amount pr \<le> deposit) ''Attached NEAR is below the farm price minimum amount'') (\<lambda>_.
     and_then (validate_farm_max_amount x i pr deposit c) (\<lambda>_.
     and_then (case st_farm_positions c (x, i) of
         Some po \<Rightarrow> if fo_status po = Farm_Active
           then require (fo_price_id po = pid) ''Existing farm position uses a different price'' else Inr ()
       | None \<Rightarrow> ensure_min_storage_for_new_farm_position x c) (\<lambda>_.
     and_then (require_validator_idle (pd_validator_id pd) c) (\<lambda>_.
     promise_validator_per_epoch_settlement_then e (pd_validator_id pd)
       (CommitFarmStake (pd_validator_id pd) x deposit i pid) c))))))))))))"

definition st_unstake :: "env \<Rightarrow> product_id \<Rightarrow> nat option \<Rightarrow> staking \<Rightarrow> staking res" where
  "st_unstake e i amount c =
     and_then (require_enough_gas_for_epoch_settlement e) (\<lambda>_.
     and_then (assert_one_yocto e) (\<lambda>_.
     and_then (st_assert_not_paused c) (\<lambda>_.
     let x = predecessor e in
     and_then (ensure_min_base_storage x c) (\<lambda>_.
     and_then (require_active_farm_position x i c) (\<lambda>po.
     and_then (require_validator_idle (fo_validator_id po) c) (\<lambda>_.
     promise_validator_per_epoch_settlement_then e (fo_validator_id po) (FarmUnstakeQueue (fo_validator_id po) x i amount) c))))))"

definition settle_farm_position :: "env \<Rightarrow> account_id \<Rightarrow> product_id \<Rightarrow> staking \<Rightarrow> (staking \<times> nat) res" where
  "settle_farm_position e x i c =
     and_then (require_active_farm_position x i c) (\<lambda>po.
     and_then (settle_farm_pool e (fo_price_id po) c) (\<lambda>c1.
     and_then (require_farm_pool (fo_price_id po) c1) (\<lambda>pool.
     and_then (farm_position_accumulated (fo_shares po) (fp_acc_reward_per_share pool)) (\<lambda>accumulated.
     let pending = saturating_sub accumulated (fo_reward_debt po);
         po' = po\<lparr>fo_accrued_reward_units := saturating_add 128 (fo_accrued_reward_units po) pending,
                  fo_reward_debt := accumulated, fo_updated_ns := block_timestamp e\<rparr>
     in Inr (internal_set_farm_position po' c1, pending)))))"

definition preview_farm_position_pending :: "env \<Rightarrow> farm_position \<Rightarrow> staking \<Rightarrow> nat res" where
  "preview_farm_position_pending e po c =
     and_then (require_farm_pool (fo_price_id po) c) (\<lambda>pool0.
     and_then (simulate_settled_farm_pool e pool0 c) (\<lambda>pool.
     and_then (farm_position_accumulated (fo_shares po) (fp_acc_reward_per_share pool)) (\<lambda>accumulated.
     Inr (saturating_add 128 (fo_accrued_reward_units po) (saturating_sub accumulated (fo_reward_debt po))))))"

definition add_farm_position_product_to_account :: "account_id \<Rightarrow> product_id \<Rightarrow> staking \<Rightarrow> staking" where
  "add_farm_position_product_to_account x i c =
     (let product_ids = or_empty (st_farm_position_products_by_account c x) in
      if i \<in> set product_ids then c
      else c\<lparr>st_farm_position_products_by_account := (st_farm_position_products_by_account c)(x \<mapsto> product_ids @ [i])\<rparr>)"

definition increment_active_farm_position_count :: "env \<Rightarrow> account_id \<Rightarrow> staking \<Rightarrow> staking" where
  "increment_active_farm_position_count e x c =
     (let a = (case st_farm_accounts c x of
          None \<Rightarrow> \<lparr>fa_account_id = x, fa_accumulated_reward_units = 0, fa_active_position_count = 0,
                    fa_last_update_ns = block_timestamp e\<rparr>
        | Some a \<Rightarrow> a)
      in internal_set_farm_account x (a\<lparr>fa_active_position_count := saturating_add 32 (fa_active_position_count a) 1,
           fa_last_update_ns := block_timestamp e\<rparr>) c)"

definition increment_farm_position_storage_count :: "account_id \<Rightarrow> staking \<Rightarrow> staking" where
  "increment_farm_position_storage_count x c =
     c\<lparr>st_user_farm_position_count := (st_user_farm_position_count c)
       (x \<mapsto> saturating_add 32 (or_zero (st_user_farm_position_count c x)) 1)\<rparr>"

definition commit_farm_stake ::
  "env \<Rightarrow> account_id \<Rightarrow> nat \<Rightarrow> product_id \<Rightarrow> price_id \<Rightarrow> validator_id \<Rightarrow> staking \<Rightarrow> (staking \<times> farm_position) res" where
  "commit_farm_stake e x deposit i pid p c =
     and_then (get_active_price_and_product pid c) (\<lambda>(pr, pd).
     and_then (require_farm_price_for_product pr i) (\<lambda>_.
     and_then (require (pd_validator_id pd = p)
       ''Catalog validator for this farm price does not match the pool used for this stake'') (\<lambda>_.
     and_then (validate_farm_max_amount x i pr deposit c) (\<lambda>_.
     let is_new_position = (st_farm_positions c (x, i) = None) in
     and_then (if is_new_position then ensure_min_storage_for_new_farm_position x c else Inr ()) (\<lambda>_.
     and_then (case st_farm_positions c (x, i) of
         Some existing \<Rightarrow> if fo_status existing = Farm_Active
           then and_then (settle_farm_position e x i c) (\<lambda>(c', _). Inr c')
           else settle_farm_pool e pid c
       | None \<Rightarrow> settle_farm_pool e pid c) (\<lambda>c1.
     and_then (internal_stake x p deposit c1) (\<lambda>(c2, added_shares).
     and_then (require_farm_pool pid c2) (\<lambda>pool0.
     let pool = pool0\<lparr>fp_total_farm_shares := saturating_add 128 (fp_total_farm_shares pool0) added_shares\<rparr>;
         c3 = internal_set_farm_pool pid pool c2;
         now = block_timestamp e;
         po = (case st_farm_positions c3 (x, i) of
             Some po \<Rightarrow> po
           | None \<Rightarrow> \<lparr>fo_account_id = x, fo_product_id = i, fo_price_id = pid, fo_validator_id = p, fo_shares = 0,
               fo_reward_debt = 0, fo_accrued_reward_units = 0, fo_status = Farm_Active, fo_created_ns = now, fo_updated_ns = now\<rparr>);
         was_inactive = (fo_status po \<noteq> Farm_Active \<or> fo_shares po = 0);
         po1 = (if fo_status po = Farm_Closed
           then po\<lparr>fo_price_id := pid, fo_validator_id := p, fo_shares := 0, fo_reward_debt := 0, fo_accrued_reward_units := 0,
                   fo_status := Farm_Active, fo_created_ns := now\<rparr>
           else po);
         po2 = po1\<lparr>fo_shares := saturating_add 128 (fo_shares po1) added_shares\<rparr>
     in and_then (farm_position_accumulated (fo_shares po2) (fp_acc_reward_per_share pool)) (\<lambda>debt.
     let po3 = po2\<lparr>fo_reward_debt := debt, fo_updated_ns := now\<rparr>;
         c4 = internal_set_farm_position po3 c3;
         c5 = (if was_inactive then increment_active_farm_position_count e x c4 else c4);
         c6 = (if is_new_position then increment_farm_position_storage_count x c5 else c5);
         c7 = add_farm_position_product_to_account x i c6;
         c8 = internal_set_price pid (pr\<lparr>pc_usage_count := saturating_add 64 (pc_usage_count pr) 1\<rparr>) c7;
         c9 = internal_set_product i (pd\<lparr>pd_usage_count := saturating_add 64 (pd_usage_count pd) 1\<rparr>) c8
     in Inr (st_emit (St_Event ''farm_stake'' [x, i, pid, p] [deposit, added_shares]) c9, po3))))))))))"

definition commit_farm_unstake :: "env \<Rightarrow> account_id \<Rightarrow> product_id \<Rightarrow> validator_id \<Rightarrow> nat \<Rightarrow> staking \<Rightarrow> staking res" where
  "commit_farm_unstake e x i p shares_remove c =
     and_then (settle_farm_position e x i c) (\<lambda>(c1, _).
     and_then (require_active_farm_position x i c1) (\<lambda>po.
     and_then (require (fo_validator_id po = p) ''Farm validator mismatch'') (\<lambda>_.
     and_then (require (shares_remove \<le> fo_shares po) ''Cannot unstake more farm shares than the position holds'') (\<lambda>_.
     and_then (internal_unstake e x p shares_remove c1) (\<lambda>(c2, near_yocto).
     and_then (require_farm_pool (fo_price_id po) c2) (\<lambda>pool0.
     and_then (require (shares_remove \<le> fp_total_farm_shares pool0) ''Farm pool shares underflow'') (\<lambda>_.
     let pool = pool0\<lparr>fp_total_farm_shares := fp_total_farm_shares pool0 - shares_remove\<rparr>;
         c3 = internal_set_farm_pool (fo_price_id po) pool c2;
         po1 = po\<lparr>fo_shares := fo_shares po - shares_remove\<rparr>
     in and_then (farm_position_accumulated (fo_shares po1) (fp_acc_reward_per_share pool)) (\<lambda>debt.
     let po2 = po1\<lparr>fo_reward_debt := debt, fo_updated_ns := block_timestamp e\<rparr>;
         (c4, po3) = (if fo_shares po2 = 0
           then let a = (case st_farm_accounts c3 x of
                    None \<Rightarrow> \<lparr>fa_account_id = x, fa_accumulated_reward_units = 0, fa_active_position_count = 0, fa_last_update_ns = 0\<rparr>
                  | Some a \<Rightarrow> a);
                    a' = a\<lparr>fa_accumulated_reward_units := saturating_add 128 (fa_accumulated_reward_units a) (fo_accrued_reward_units po2),
                           fa_active_position_count := saturating_sub (fa_active_position_count a) 1,
                           fa_last_update_ns := block_timestamp e\<rparr>
                in (internal_set_farm_account x a' c3, po2\<lparr>fo_accrued_reward_units := 0, fo_status := Farm_Closed\<rparr>)
           else (c3, po2));
         c5 = internal_set_farm_position po3 c4
     in Inr (st_emit (St_Event ''farm_unstake'' [x, i, fo_price_id po3, p] [near_yocto, shares_remove, fo_shares po3]) c5)))))))))"

definition farm_shares_for_amount_ceil :: "nat \<Rightarrow> nat \<Rightarrow> nat \<Rightarrow> nat \<Rightarrow> nat res" where
  "farm_shares_for_amount_ceil amount_yocto validator_total_shares net_stake max_shares =
     and_then (mul_u 256 amount_yocto validator_total_shares) (\<lambda>numerator.
     and_then (div_u numerator net_stake) (\<lambda>q.
     and_then (as_u128 q) (\<lambda>shares.
     and_then (rem_u numerator net_stake) (\<lambda>r.
     let shares' = (if r \<noteq> 0 then saturating_add 128 shares 1 else shares) in
     and_then (require (1 \<le> max_shares) ''assertion failed: min <= max'') (\<lambda>_. Inr (max 1 (min shares' max_shares)))))))"

definition farm_unstake_shares_for_amount :: "farm_position \<Rightarrow> validator \<Rightarrow> nat option \<Rightarrow> nat res" where
  "farm_unstake_shares_for_amount po v amount =
     (case amount of
        None \<Rightarrow> Inr (fo_shares po)
      | Some n \<Rightarrow>
          and_then (require (0 < n) ''Unstake amount must be greater than zero'') (\<lambda>_.
          let net_stake = net_stake_yocto v in
          and_then (require (0 < net_stake) ''Cannot price farm unstake with no effective stake'') (\<lambda>_.
          and_then (near_from_shares (fo_shares po) net_stake (va_total_shares v)) (\<lambda>position_near.
          if position_near \<le> n then Inr (fo_shares po)
          else farm_shares_for_amount_ceil n (va_total_shares v) net_stake (fo_shares po)))))"

definition resolve_farm_stake ::
  "env \<Rightarrow> account_id \<Rightarrow> nat \<Rightarrow> product_id \<Rightarrow> price_id \<Rightarrow> validator_id \<Rightarrow> staking \<Rightarrow> (staking \<times> farm_position) res" where
  "resolve_farm_stake e x deposit i pid p c =
     and_then (assert_no_deposit e ''resolve_farm_stake'') (\<lambda>_.
     and_then (assert_private e ''resolve_farm_stake'') (\<lambda>_.
     and_then (require_validator_busy p ''Validator pool must be busy after per-epoch settlement'' c) (\<lambda>_.
     commit_farm_stake e x deposit i pid p c)))"

definition resolve_farm_unstake :: "env \<Rightarrow> account_id \<Rightarrow> product_id \<Rightarrow> validator_id \<Rightarrow> nat option \<Rightarrow> staking \<Rightarrow> staking res" where
  "resolve_farm_unstake e x i p amount c =
     and_then (assert_no_deposit e ''resolve_farm_unstake'') (\<lambda>_.
     and_then (assert_private e ''resolve_farm_unstake'') (\<lambda>_.
     and_then (require_validator_busy p ''Validator pool must be busy after per-epoch settlement'' c) (\<lambda>v.
     and_then (require_active_farm_position x i c) (\<lambda>po.
     and_then (farm_unstake_shares_for_amount po v amount) (\<lambda>shares_remove.
     commit_farm_unstake e x i p shares_remove c)))))"

section \<open>Views\<close>

record farm_position_view =
  fv_position :: farm_position
  fv_staked_near_amount :: nat
  fv_pending_reward_units :: nat
  fv_total_earned_reward_units :: nat

definition farm_position_view_of :: "env \<Rightarrow> farm_position \<Rightarrow> staking \<Rightarrow> farm_position_view res" where
  "farm_position_view_of e po c =
     (let live = (fo_status po = Farm_Active \<and> 0 < fo_shares po) in
      and_then (if live then and_then (require_validator (fo_validator_id po) c) (\<lambda>v.
            near_from_shares (fo_shares po) (net_stake_yocto v) (va_total_shares v)) else Inr 0) (\<lambda>staked.
      and_then (if live then preview_farm_position_pending e po c else Inr (fo_accrued_reward_units po)) (\<lambda>pending.
      Inr \<lparr>fv_position = po, fv_staked_near_amount = staked, fv_pending_reward_units = pending,
           fv_total_earned_reward_units = pending\<rparr>)))"

definition get_farm_position :: "env \<Rightarrow> account_id \<Rightarrow> product_id \<Rightarrow> staking \<Rightarrow> farm_position_view option res" where
  "get_farm_position e x i c =
     (case st_farm_positions c (x, i) of
        None \<Rightarrow> Inr None
      | Some po \<Rightarrow> and_then (farm_position_view_of e po c) (\<lambda>w. Inr (Some w)))"

text \<open>The page is collected first and each of its positions is then shown; a view that panics is a panic of the call.\<close>

definition get_farm_positions_for_account :: "env \<Rightarrow> account_id \<Rightarrow> nat \<Rightarrow> nat \<Rightarrow> staking \<Rightarrow> farm_position_view list res" where
  "get_farm_positions_for_account e x from limit c =
     (let product_ids = or_empty (st_farm_position_products_by_account c x);
          page = collect_paginated from limit (length product_ids) (\<lambda>k. st_farm_positions c (x, product_ids ! k))
      in for_each (\<lambda>po out. and_then (farm_position_view_of e po c) (\<lambda>w. Inr (out @ [w]))) page [])"

definition get_farm_account :: "env \<Rightarrow> account_id \<Rightarrow> staking \<Rightarrow> (nat \<times> nat \<times> nat \<times> farm_position_view list) res" where
  "get_farm_account e x c =
     (let a = (case st_farm_accounts c x of
          None \<Rightarrow> \<lparr>fa_account_id = x, fa_accumulated_reward_units = 0, fa_active_position_count = 0, fa_last_update_ns = 0\<rparr>
        | Some a \<Rightarrow> a)
      in and_then (get_farm_positions_for_account e x 0 (2 ^ 64 - 1) c) (\<lambda>ws.
         let active = filter (\<lambda>w. fo_status (fv_position w) = Farm_Active \<and> fo_shares (fv_position w) \<noteq> 0) ws;
             unclaimed = foldl (\<lambda>s w. saturating_add 128 s (fv_pending_reward_units w)) 0 active
         in Inr (fa_accumulated_reward_units a, unclaimed,
                 saturating_add 128 (fa_accumulated_reward_units a) unclaimed, active)))"

end
