(* ===== verification/Staking_Calendar.thy ===== *)
theory Staking_Calendar
  imports Staking_State
begin

text \<open>
  The billing calendar of the staking contract (first part of \<open>subscriptions.rs\<close>): conversion between days since
  1970-01-01 and dates, the end of a billing month, and the loop that finds the current billing period. Times are
  nanoseconds in 64 bits, so at most 213503 days, and no intermediate value leaves its type. The lemmas show that the
  conversion is the Gregorian calendar, that a billing month ends strictly later, and that the loop ends.
\<close>

section \<open>Dates\<close>

text \<open>Division of signed integers rounds towards zero.\<close>

definition quot_i :: "int \<Rightarrow> int \<Rightarrow> int" where
  "quot_i a b = sgn a * sgn b * (\<bar>a\<bar> div \<bar>b\<bar>)"

definition civil_from_days :: "int \<Rightarrow> int \<times> int \<times> int" where
  "civil_from_days days_since_unix_epoch =
     (let z = days_since_unix_epoch + 719468;
          era = quot_i (if 0 \<le> z then z else z - 146096) 146097;
          day_of_era = z - era * 146097;
          year_of_era = quot_i (day_of_era - quot_i day_of_era 1460 + quot_i day_of_era 36524 - quot_i day_of_era 146096) 365;
          year = year_of_era + era * 400;
          day_of_year = day_of_era - (365 * year_of_era + quot_i year_of_era 4 - quot_i year_of_era 100);
          month_prime = quot_i (5 * day_of_year + 2) 153;
          day = day_of_year - quot_i (153 * month_prime + 2) 5 + 1;
          month = month_prime + (if month_prime < 10 then 3 else - 9)
      in (year + (if month \<le> 2 then 1 else 0), month, day))"

definition days_from_civil :: "int \<Rightarrow> int \<Rightarrow> int \<Rightarrow> int" where
  "days_from_civil year0 month day =
     (let year = year0 - (if month \<le> 2 then 1 else 0);
          era = year div 400;
          year_of_era = year - era * 400;
          month_prime = month + (if 2 < month then - 3 else 9);
          day_of_year = quot_i (153 * month_prime + 2) 5 + day - 1;
          day_of_era = year_of_era * 365 + quot_i year_of_era 4 - quot_i year_of_era 100 + day_of_year
      in era * 146097 + day_of_era - 719468)"

definition is_leap_year :: "int \<Rightarrow> bool" where
  "is_leap_year year \<longleftrightarrow> year mod 4 = 0 \<and> year mod 100 \<noteq> 0 \<or> year mod 400 = 0"

definition last_day_of_month :: "int \<Rightarrow> int \<Rightarrow> int" where
  "last_day_of_month year month =
     (if month \<in> {1, 3, 5, 7, 8, 10, 12} then 31
      else if month \<in> {4, 6, 9, 11} then 30
      else if month = 2 \<and> is_leap_year year then 29
      else if month = 2 then 28
      else 31)"

section \<open>Billing periods\<close>

definition add_months_stripe_style :: "nat \<Rightarrow> nat \<Rightarrow> nat \<Rightarrow> nat" where
  "add_months_stripe_style anchor_day0 months from_ns =
     (if months = 0 then from_ns
      else
        let anchor_day = int (max 1 (min anchor_day0 31));
            days = from_ns div ST_NS_PER_DAY;
            time_of_day_ns = from_ns mod ST_NS_PER_DAY;
            (year, month, _) = civil_from_days (int days);
            target_month_index = year * 12 + (month - 1) + int months;
            target_year = target_month_index div 12;
            target_month = target_month_index mod 12 + 1;
            target_day = min anchor_day (last_day_of_month target_year target_month);
            target_days = days_from_civil target_year target_month target_day;
            target_ns = target_days * int ST_NS_PER_DAY + int time_of_day_ns
        in if 0 \<le> target_ns \<and> target_ns < 2 ^ 64 then nat target_ns else 2 ^ 64 - 1)"

definition billing_anchor_day_from_timestamp :: "nat \<Rightarrow> nat" where
  "billing_anchor_day_from_timestamp ts =
     (let (_, _, day) = civil_from_days (int (ts div ST_NS_PER_DAY)) in nat day)"

text \<open>The \<open>while\<close> loop; \<open>None\<close> is a loop that never ends.\<close>

partial_function (option) subscription_window_loop :: "nat \<Rightarrow> nat \<Rightarrow> nat \<Rightarrow> nat \<Rightarrow> (nat \<times> nat) option" where
  "subscription_window_loop anchor_day now start stop =
     (if stop \<le> now then subscription_window_loop anchor_day now stop (add_months_stripe_style anchor_day 1 stop)
      else Some (start, stop))"

definition projected_subscription_window_from :: "nat \<Rightarrow> nat \<Rightarrow> nat \<Rightarrow> (nat \<times> nat) res" where
  "projected_subscription_window_from anchor_day start now =
     (case subscription_window_loop anchor_day now start (add_months_stripe_style anchor_day 1 start) of
        None \<Rightarrow> Inl (Msg ''Exceeded the prepaid gas.'')
      | Some w \<Rightarrow> Inr w)"

section \<open>The conversion is the Gregorian calendar\<close>

text \<open>The reference: a date is followed by the next day of its month, or by the first day of the next month.\<close>

fun next_date :: "int \<times> int \<times> int \<Rightarrow> int \<times> int \<times> int" where
  "next_date (year, month, day) =
     (if day < last_day_of_month year month then (year, month, day + 1)
      else if month < 12 then (year, month + 1, 1)
      else (year + 1, 1, 1))"

fun valid_date :: "int \<times> int \<times> int \<Rightarrow> bool" where
  "valid_date (year, month, day) \<longleftrightarrow> 1 \<le> month \<and> month \<le> 12 \<and> 1 \<le> day \<and> day \<le> last_day_of_month year month"

lemma quot_i_nonneg [simp]: "0 \<le> a \<Longrightarrow> 0 < b \<Longrightarrow> quot_i a b = a div b"
  by (cases "a = 0") (simp_all add: quot_i_def)

text \<open>Years begin in March, so that the leap day is the last one.\<close>

definition days_before_year :: "int \<Rightarrow> int" where
  "days_before_year y = 365 * y + y div 4 - y div 100 + y div 400"

definition days_before_month :: "int \<Rightarrow> int" where
  "days_before_month month_prime = (153 * month_prime + 2) div 5"

lemma month_cases:
  fixes m :: int
  assumes "1 \<le> m" and "m \<le> 12"
  obtains "m = 1" | "m = 2" | "m = 3" | "m = 4" | "m = 5" | "m = 6" | "m = 7" | "m = 8" | "m = 9" | "m = 10" | "m = 11" | "m = 12"
proof -
  have "m = 1 \<or> m = 2 \<or> m = 3 \<or> m = 4 \<or> m = 5 \<or> m = 6 \<or> m = 7 \<or> m = 8 \<or> m = 9 \<or> m = 10 \<or> m = 11 \<or> m = 12"
    using assms by presburger
  then show thesis using that by blast
qed

lemma days_before_year_era: "days_before_year (400 * a + b) = 146097 * a + days_before_year b"
proof -
  have "(400 * a + b) div 4 = 100 * a + b div 4" "(400 * a + b) div 100 = 4 * a + b div 100" "(400 * a + b) div 400 = a + b div 400"
    by simp_all
  then show ?thesis by (simp only: days_before_year_def) simp
qed

lemma era_split:
  fixes y :: int
  shows "(y div 400) * 146097 + ((y mod 400) * 365 + (y mod 400) div 4 - (y mod 400) div 100) = days_before_year y"
proof -
  have "y mod 400 div 400 = 0" by (simp add: div_pos_pos_trivial)
  then have "days_before_year (y mod 400) = (y mod 400) * 365 + (y mod 400) div 4 - (y mod 400) div 100"
    unfolding days_before_year_def by (simp only: mult.commute [of 365] add_0_right)
  moreover have "days_before_year y = 146097 * (y div 400) + days_before_year (y mod 400)"
    using days_before_year_era [of "y div 400" "y mod 400"] by (simp only: mult_div_mod_eq)
  ultimately show ?thesis by (simp only: mult.commute [of 146097])
qed

lemma days_from_civil_sum:
  assumes "1 \<le> m" and "m \<le> 12"
  shows "days_from_civil y m d = days_before_year (y - (if m \<le> 2 then 1 else 0))
     + days_before_month (m + (if 2 < m then - 3 else 9)) + d - 1 - 719468"
proof -
  define w where "w = y - (if m \<le> 2 then 1 else 0)"
  define mp where "mp = m + (if 2 < m then - 3 else 9)"
  have e: "w - w div 400 * 400 = w mod 400" by (simp add: minus_div_mult_eq_mod)
  have "0 \<le> mp" using assms by (simp add: mp_def)
  then have q: "quot_i (153 * mp + 2) 5 = days_before_month mp" by (simp add: days_before_month_def)
  have "days_from_civil y m d
     = w div 400 * 146097 + ((w mod 400) * 365 + (w mod 400) div 4 - (w mod 400) div 100 + (days_before_month mp + d - 1)) - 719468"
    unfolding days_from_civil_def Let_def w_def [symmetric] mp_def [symmetric] e q by simp
  then show ?thesis using era_split [of w] unfolding w_def [symmetric] mp_def [symmetric] by linarith
qed

lemma div_mod_succ:
  fixes y k :: int
  assumes "0 < k"
  shows "(y + 1) div k = y div k + (if y mod k + 1 = k then 1 else 0)"
    and "(y + 1) mod k = (if y mod k + 1 = k then 0 else y mod k + 1)"
proof -
  have r: "0 \<le> y mod k" "y mod k < k" using assms by simp_all
  have "(y + 1) div k = y div k + (if y mod k + 1 = k then 1 else 0) \<and> (y + 1) mod k = (if y mod k + 1 = k then 0 else y mod k + 1)"
  proof (cases "y mod k + 1 = k")
    case True
    then have e: "y + 1 = k * (y div k + 1) + 0" using mult_div_mod_eq [of k y] distrib_left [of k "y div k" 1] by linarith
    show ?thesis using assms int_div_pos_eq [OF e] int_mod_pos_eq [OF e] True by simp
  next
    case False
    have e: "y + 1 = k * (y div k) + (y mod k + 1)" by simp
    show ?thesis using int_div_pos_eq [OF e] int_mod_pos_eq [OF e] r False by simp
  qed
  then show "(y + 1) div k = y div k + (if y mod k + 1 = k then 1 else 0)"
    "(y + 1) mod k = (if y mod k + 1 = k then 0 else y mod k + 1)" by simp_all
qed

lemma div_succ:
  fixes y k :: int
  assumes "0 < k"
  shows "(y + 1) div k = y div k + (if (y + 1) mod k = 0 then 1 else 0)"
proof -
  have "0 \<le> y mod k" using assms by simp
  then show ?thesis using div_mod_succ [OF assms, of y] by simp
qed

lemma leap_step:
  "days_before_year (y + 1) = days_before_year y + (if is_leap_year (y + 1) then 366 else 365)"
proof -
  have count: "365 * (y + 1) + a' - b' + c' = 365 * y + a - b + c + (if P \<and> \<not> Q \<or> R then 366 else 365)"
    if "a' = a + (if P then 1 else 0)" "b' = b + (if Q then 1 else 0)" "c' = c + (if R then 1 else 0)" "R \<Longrightarrow> Q" "Q \<Longrightarrow> P"
    for a b c a' b' c' :: int and P Q R
    using that by auto
  have "400 dvd y + 1 \<Longrightarrow> 100 dvd y + 1" "100 dvd y + 1 \<Longrightarrow> 4 dvd y + 1"
    by (erule dvd_trans [rotated], simp)+
  then show ?thesis unfolding days_before_year_def is_leap_year_def
    by (intro count div_succ) (simp_all only: mod_eq_0_iff_dvd zero_less_numeral)
qed

text \<open>The day number of the next date is the next number.\<close>

lemma days_next_date:
  assumes "valid_date (y, m, d)"
  shows "(case next_date (y, m, d) of (y', m', d') \<Rightarrow> days_from_civil y' m' d') = days_from_civil y m d + 1"
proof (cases "d < last_day_of_month y m")
  case True
  then show ?thesis using assms by (simp add: days_from_civil_sum)
next
  case False
  then have d: "d = last_day_of_month y m" using assms by simp
  have m: "1 \<le> m" "m \<le> 12" using assms by simp_all
  have l: "days_before_year y = days_before_year (y - 1) + (if is_leap_year y then 366 else 365)"
    using leap_step [of "y - 1"] by simp
  from m show ?thesis
    by (cases rule: month_cases)
       (simp_all add: d days_from_civil_sum last_day_of_month_def days_before_month_def l)
qed

lemma valid_next_date: "valid_date x \<Longrightarrow> valid_date (next_date x)"
proof (cases x)
  case (fields y m d)
  have "1 \<le> last_day_of_month a b" for a b by (simp add: last_day_of_month_def)
  then show "valid_date x \<Longrightarrow> ?thesis" by (auto simp: fields)
qed

text \<open>The year of a day within a period of 400 years: a monotone function, so its value at the ends of each year suffices.\<close>

definition year_numerator :: "int \<Rightarrow> int" where
  "year_numerator n = n - n div 1460 + n div 36524 - n div 146096"

lemma year_numerator_step: "year_numerator n \<le> year_numerator (n + 1)"
proof -
  have count: "n - a + b - c \<le> n + 1 - a' + b' - c'"
    if "a' = a + (if P then 1 else 0)" "b' = b + (if Q then 1 else 0)" "c' = c + (if R then 1 else 0)" "R \<Longrightarrow> Q"
    for a b c a' b' c' :: int and P Q R
    using that by auto
  have "(n + 1) mod 36524 = 0" if "(n + 1) mod 146096 = 0"
    using that by (simp only: mod_eq_0_iff_dvd) (erule dvd_trans [rotated], simp)
  then show ?thesis unfolding year_numerator_def
    by (rule count [OF div_succ div_succ div_succ, OF zero_less_numeral zero_less_numeral zero_less_numeral])
qed

lemma year_numerator_mono:
  assumes "a \<le> b"
  shows "year_numerator a \<le> year_numerator b"
  using assms
proof (induction b rule: int_ge_induct)
  case (step i)
  then show ?case using year_numerator_step [of i] by linarith
qed simp

lemma year_ends_table:
  "list_all (\<lambda>y. 365 * y \<le> year_numerator (days_before_year y)
     \<and> year_numerator (days_before_year (y + 1) - 1) < 365 * (y + 1)
     \<and> 0 \<le> days_before_year y \<and> days_before_year (y + 1) \<le> 146097) [0..399]"
  by code_simp

lemma year_of_day:
  assumes "0 \<le> y" and "y < 400" and "days_before_year y \<le> n" and "n < days_before_year (y + 1)"
  shows "year_numerator n div 365 = y" and "0 \<le> n" and "n < 146097"
proof -
  have "y \<in> set [0..399]" using assms by simp
  then have t: "365 * y \<le> year_numerator (days_before_year y)" "year_numerator (days_before_year (y + 1) - 1) < 365 * (y + 1)"
    and 0: "0 \<le> days_before_year y" and 1: "days_before_year (y + 1) \<le> 146097"
    using year_ends_table unfolding list_all_iff by blast+
  show "0 \<le> n" "n < 146097" using assms 0 1 by linarith+
  have "365 * y \<le> year_numerator n" "year_numerator n < 365 * (y + 1)"
    using year_numerator_mono [of "days_before_year y" n] year_numerator_mono [of n "days_before_year (y + 1) - 1"] assms t 0 1
    by linarith+
  then show "year_numerator n div 365 = y"
    using int_div_pos_eq [of "year_numerator n" 365 y "year_numerator n - 365 * y"] by simp
qed

lemma month_table:
  "list_all (\<lambda>m. list_all (\<lambda>d. (5 * (days_before_month (m + (if 2 < m then - 3 else 9)) + d - 1) + 2) div 153
     = m + (if 2 < m then - 3 else 9)) [1..last_day_of_month 0 m]) [1..12]"
  by code_simp

lemma month_of_day:
  assumes "valid_date (y, m, d)"
  shows "(5 * (days_before_month (m + (if 2 < m then - 3 else 9)) + d - 1) + 2) div 153 = m + (if 2 < m then - 3 else 9)"
proof -
  have "last_day_of_month y m \<le> last_day_of_month 0 m" by (simp add: last_day_of_month_def is_leap_year_def)
  then have "m \<in> set [1..12]" "d \<in> set [1..last_day_of_month 0 m]" using assms by simp_all
  then show ?thesis using month_table unfolding list_all_iff by blast
qed

lemma day_of_year_bound:
  assumes "valid_date (y, m, d)"
  defines "w \<equiv> y - (if m \<le> 2 then 1 else 0)"
  shows "0 \<le> days_before_month (m + (if 2 < m then - 3 else 9)) + d - 1"
    and "days_before_year w + days_before_month (m + (if 2 < m then - 3 else 9)) + d - 1 < days_before_year (w + 1)"
proof -
  have m: "1 \<le> m" "m \<le> 12" using assms by simp_all
  from m show "0 \<le> days_before_month (m + (if 2 < m then - 3 else 9)) + d - 1"
    using assms(1) by (cases rule: month_cases) (simp_all add: days_before_month_def)
  have l: "days_before_year (w + 1) = days_before_year w + (if is_leap_year (w + 1) then 366 else 365)" by (rule leap_step)
  from m show "days_before_year w + days_before_month (m + (if 2 < m then - 3 else 9)) + d - 1 < days_before_year (w + 1)"
    using assms(1) l unfolding w_def
    by (cases rule: month_cases) (auto simp: days_before_month_def last_day_of_month_def split: if_splits)
qed

lemma floor_by_shift: "quot_i (if 0 \<le> z then z else z - 146096) 146097 = z div 146097"
proof (cases "0 \<le> z")
  case False
  define q r where "q = z div 146097" and "r = z mod 146097"
  have z: "z = 146097 * q + r" and r: "0 \<le> r" "r < 146097" by (simp_all add: q_def r_def)
  have "q < 0" using False z r by linarith
  have "146096 - z = 146097 * (- q) + (146096 - r)" using z by simp
  then have "(146096 - z) div 146097 = - q" using int_div_pos_eq [of "146096 - z" 146097 "- q" "146096 - r"] r by simp
  then show ?thesis using False \<open>q < 0\<close> q_def by (simp add: quot_i_def)
qed simp

lemma civil_of_split:
  assumes z: "days + 719468 = 146097 * era + (days_before_year yoe + doy)"
    and y: "0 \<le> yoe" "yoe < 400" and d: "0 \<le> doy" "days_before_year yoe + doy < days_before_year (yoe + 1)"
  shows "civil_from_days days = (let mp = (5 * doy + 2) div 153; m = mp + (if mp < 10 then 3 else - 9)
     in (yoe + era * 400 + (if m \<le> 2 then 1 else 0), m, doy - days_before_month mp + 1))"
proof -
  define n where "n = days_before_year yoe + doy"
  note n = year_of_day [OF y, of n]
  have n0: "year_numerator n div 365 = yoe" "0 \<le> n" "n < 146097" using n d by (simp_all add: n_def)
  have era: "(days + 719468) div 146097 = era" using z n0 int_div_pos_eq [of "days + 719468" 146097 era n] by (simp add: n_def)
  have doe: "days + 719468 - era * 146097 = n" using z by (simp add: n_def)
  have num: "n - quot_i n 1460 + quot_i n 36524 - quot_i n 146096 = year_numerator n"
    using n0 by (simp add: year_numerator_def)
  have "yoe * 365 \<le> year_numerator n" using n0(1) by (metis mult.commute zero_less_numeral minus_mod_eq_div_mult pos_mod_sign diff_ge_0_iff_ge minus_div_mult_eq_mod)
  then have yr: "quot_i (year_numerator n) 365 = yoe" using n0(1) y by simp
  have "n - (365 * yoe + quot_i yoe 4 - quot_i yoe 100) = doy" using y by (simp add: n_def days_before_year_def)
  moreover have "0 \<le> (5 * doy + 2) div 153" using d by simp
  ultimately show ?thesis
    unfolding civil_from_days_def Let_def floor_by_shift era doe num yr days_before_month_def using d by simp
qed

text \<open>Day numbers and dates are inverse to each other.\<close>

lemma civil_from_days_from_civil:
  assumes v: "valid_date (y, m, d)"
  shows "civil_from_days (days_from_civil y m d) = (y, m, d)"
proof -
  define w where "w = y - (if m \<le> 2 then 1 else 0)"
  define mp where "mp = m + (if 2 < m then - 3 else 9)"
  define doy where "doy = days_before_month mp + d - 1"
  have m: "1 \<le> m" "m \<le> 12" using v by simp_all
  have w: "400 * (w div 400) + w mod 400 = w" by simp
  have "days_before_year (w + 1) = 146097 * (w div 400) + days_before_year (w mod 400 + 1)"
    using days_before_year_era [of "w div 400" "w mod 400 + 1"] w by (simp add: add.assoc [symmetric])
  moreover have bw: "days_before_year w = 146097 * (w div 400) + days_before_year (w mod 400)"
    using days_before_year_era [of "w div 400" "w mod 400"] w by simp
  ultimately have b: "0 \<le> doy" "days_before_year (w mod 400) + doy < days_before_year (w mod 400 + 1)"
    using day_of_year_bound [OF v] unfolding w_def [symmetric] mp_def [symmetric] doy_def by linarith+
  have s: "days_from_civil y m d + 719468 = 146097 * (w div 400) + (days_before_year (w mod 400) + doy)"
    using days_from_civil_sum [OF m, of y d] bw unfolding w_def [symmetric] mp_def [symmetric] doy_def by linarith
  have mp: "(5 * doy + 2) div 153 = mp" using month_of_day [OF v] unfolding mp_def doy_def .
  have "civil_from_days (days_from_civil y m d) = (let m = mp + (if mp < 10 then 3 else - 9)
     in (w mod 400 + w div 400 * 400 + (if m \<le> 2 then 1 else 0), m, doy - days_before_month mp + 1))"
    using civil_of_split [OF s _ _ b] mp by (simp add: Let_def)
  also have "mp + (if mp < 10 then 3 else - 9) = m" using m by (simp add: mp_def)
  finally show ?thesis by (simp add: Let_def w_def doy_def)
qed

lemma civil_from_days_next:
  assumes "valid_date (civil_from_days n)" and "(case civil_from_days n of (y, m, d) \<Rightarrow> days_from_civil y m d) = n"
  shows "civil_from_days (n + 1) = next_date (civil_from_days n)"
    and "(case civil_from_days (n + 1) of (y, m, d) \<Rightarrow> days_from_civil y m d) = n + 1"
proof -
  obtain y m d where c: "civil_from_days n = (y, m, d)" by (cases "civil_from_days n")
  obtain y' m' d' where x: "next_date (y, m, d) = (y', m', d')" by (cases "next_date (y, m, d)")
  have v: "valid_date (y', m', d')" using valid_next_date [of "(y, m, d)"] assms(1) c x by simp
  have n: "days_from_civil y' m' d' = n + 1" using days_next_date [of y m d] assms c x by simp
  then show 1: "civil_from_days (n + 1) = next_date (civil_from_days n)" using civil_from_days_from_civil [OF v] c x by simp
  show "(case civil_from_days (n + 1) of (y, m, d) \<Rightarrow> days_from_civil y m d) = n + 1" using 1 n c x by simp
qed

lemma civil_from_days_iterates:
  "civil_from_days (int n) = (next_date ^^ n) (1970, 1, 1) \<and> valid_date (civil_from_days (int n))
   \<and> (case civil_from_days (int n) of (y, m, d) \<Rightarrow> days_from_civil y m d) = int n"
proof (induction n)
  case 0
  have "days_from_civil 1970 1 1 = 0" by (simp add: days_from_civil_sum days_before_year_def days_before_month_def)
  moreover have v: "valid_date (1970, 1, 1)" by (simp add: last_day_of_month_def)
  ultimately show ?case using civil_from_days_from_civil [OF v] by simp
next
  case (Suc n)
  have i: "int (Suc n) = int n + 1" by simp
  note v = conjunct1 [OF conjunct2 [OF Suc.IH]] and n = conjunct2 [OF conjunct2 [OF Suc.IH]]
  show ?case unfolding i using civil_from_days_next [OF v n] valid_next_date [OF v] Suc by simp
qed

section \<open>Billing months end later, and the loop ends\<close>

lemma valid_civil: "valid_date (civil_from_days (int n))"
  using civil_from_days_iterates by blast

lemma days_of_civil: "civil_from_days (int n) = (y, m, d) \<Longrightarrow> days_from_civil y m d = int n"
  using civil_from_days_iterates [of n] by (elim conjE) (simp only: prod.case)

text \<open>Day numbers order dates by month.\<close>

lemma days_day: "1 \<le> m \<Longrightarrow> m \<le> 12 \<Longrightarrow> days_from_civil y m d = days_from_civil y m 1 + (d - 1)"
  by (simp add: days_from_civil_sum)

definition month_start :: "int \<Rightarrow> int" where
  "month_start i = days_from_civil (i div 12) (i mod 12 + 1) 1"

definition month_length :: "int \<Rightarrow> int" where
  "month_length i = last_day_of_month (i div 12) (i mod 12 + 1)"

lemma month_index_bounds: "1 \<le> (i::int) mod 12 + 1" "(i::int) mod 12 + 1 \<le> 12"
proof -
  have "i mod 12 < 12" by simp
  then show "1 \<le> i mod 12 + 1" "i mod 12 + 1 \<le> 12" by simp_all
qed

lemma month_length_pos: "1 \<le> month_length i"
  by (simp add: month_length_def last_day_of_month_def)

lemma month_start_step: "month_start (i + 1) = month_start i + month_length i"
proof -
  define y m where "y = i div 12" and "m = i mod 12 + 1"
  have m: "1 \<le> m" "m \<le> 12" unfolding m_def by (rule month_index_bounds)+
  have v: "valid_date (y, m, month_length i)" using m month_length_pos [of i] by (simp add: month_length_def y_def m_def)
  have "(i + 1) div 12 = (if m = 12 then y + 1 else y)" "(i + 1) mod 12 = (if m = 12 then 0 else m)"
    using div_mod_succ [of 12 i] by (simp_all add: y_def m_def)
  then have "month_start (i + 1) = (case next_date (y, m, month_length i) of (y', m', d') \<Rightarrow> days_from_civil y' m' d')"
    using m by (simp add: month_start_def month_length_def y_def m_def)
  also have "\<dots> = days_from_civil y m (month_length i) + 1" by (rule days_next_date [OF v])
  finally show ?thesis using days_day [OF m, of y "month_length i"] by (simp add: month_start_def y_def m_def)
qed

lemma month_start_later:
  assumes "i < j"
  shows "month_start i + month_length i \<le> month_start j"
proof -
  have "i + 1 \<le> j" using assms by simp
  then show ?thesis
  proof (induction j rule: int_ge_induct)
    case base
    then show ?case by (simp add: month_start_step)
  next
    case (step j)
    then show ?case using month_start_step [of j] month_length_pos [of j] by linarith
  qed
qed

text \<open>The date that a billing month after \<open>from_ns\<close> leads to, as a month index and a day.\<close>

lemma add_months_target:
  fixes a :: nat
  assumes c: "civil_from_days (int (from_ns div ST_NS_PER_DAY)) = (y, m, d)" and k: "0 < k"
  defines "j \<equiv> y * 12 + (m - 1) + int k"
  defines "t \<equiv> (month_start j + (min (int (max 1 (min a 31))) (month_length j) - 1)) * int ST_NS_PER_DAY + int (from_ns mod ST_NS_PER_DAY)"
  shows "add_months_stripe_style a k from_ns = (if t < 2 ^ 64 then nat t else 2 ^ 64 - 1)"
    and "int from_ns < t"
proof -
  have m: "1 \<le> m" "m \<le> 12" "d \<le> last_day_of_month y m" using valid_civil [of "from_ns div ST_NS_PER_DAY"] c by simp_all
  define i where "i = y * 12 + (m - 1)"
  have i: "i div 12 = y" "i mod 12 + 1 = m" using m unfolding i_def by simp_all
  define x where "x = min (int (max 1 (min a 31))) (month_length j)"
  have x: "1 \<le> x" using month_length_pos [of j] by (simp add: x_def)
  have td: "days_from_civil (j div 12) (j mod 12 + 1) x = month_start j + (x - 1)"
    unfolding month_start_def by (rule days_day [OF month_index_bounds])
  have f: "int (from_ns div ST_NS_PER_DAY) = month_start i + (d - 1)"
    using days_of_civil [OF c] days_day [OF m(1,2), of y d] i by (simp add: month_start_def)
  have "month_start i + month_length i \<le> month_start j" using k by (intro month_start_later) (simp add: i_def j_def)
  then have days: "int (from_ns div ST_NS_PER_DAY) + 1 \<le> month_start j + (x - 1)"
    using f m(3) i x by (simp add: month_length_def)
  have split: "int from_ns = int (from_ns div ST_NS_PER_DAY) * int ST_NS_PER_DAY + int (from_ns mod ST_NS_PER_DAY)"
    by (metis div_mult_mod_eq of_nat_add of_nat_mult)
  have "(int (from_ns div ST_NS_PER_DAY) + 1) * int ST_NS_PER_DAY \<le> (month_start j + (x - 1)) * int ST_NS_PER_DAY"
    using days by (intro mult_right_mono) simp_all
  moreover have "0 < int ST_NS_PER_DAY" by (simp add: ST_NS_PER_DAY_def)
  ultimately show lt: "int from_ns < t" using split unfolding t_def x_def [symmetric] by (simp add: algebra_simps)
  then have "0 \<le> t" by linarith
  have "k \<noteq> 0" using k by simp
  then have "add_months_stripe_style a k from_ns = (if 0 \<le> t \<and> t < 2 ^ 64 then nat t else 2 ^ 64 - 1)"
    unfolding add_months_stripe_style_def Let_def c prod.case j_def [symmetric] month_length_def [symmetric] x_def [symmetric] td t_def
    by (simp only: if_False)
  then show "add_months_stripe_style a k from_ns = (if t < 2 ^ 64 then nat t else 2 ^ 64 - 1)"
    by (simp only: \<open>0 \<le> t\<close> simp_thms)
qed

text \<open>A billing month ends later than it starts, up to the largest time.\<close>

lemma add_months_later:
  assumes "from_ns < 2 ^ 64 - 1" and "0 < k"
  shows "from_ns < add_months_stripe_style a k from_ns" and "add_months_stripe_style a k from_ns < 2 ^ 64"
proof -
  obtain y m d where c: "civil_from_days (int (from_ns div ST_NS_PER_DAY)) = (y, m, d)"
    by (cases "civil_from_days (int (from_ns div ST_NS_PER_DAY))")
  note t = add_months_target [OF c assms(2), of a]
  have "from_ns < (if u < 2 ^ 64 then nat u else 2 ^ 64 - 1) \<and> (if u < 2 ^ 64 then nat u else 2 ^ 64 - 1) < (2::nat) ^ 64"
    if "int from_ns < u" for u
    using that assms(1) by auto
  note * = this [OF t(2), folded t(1)]
  show "from_ns < add_months_stripe_style a k from_ns" "add_months_stripe_style a k from_ns < 2 ^ 64"
    by (rule conjunct1 [OF *], rule conjunct2 [OF *])
qed

text \<open>One round of the loop.\<close>

lemma projected_step:
  "projected_subscription_window_from a start now =
     (if add_months_stripe_style a 1 start \<le> now
      then projected_subscription_window_from a (add_months_stripe_style a 1 start) now
      else Inr (start, add_months_stripe_style a 1 start))"
  unfolding projected_subscription_window_from_def by (subst subscription_window_loop.simps) simp

lemma add_month_later: "s < 2 ^ 64 - 1 \<Longrightarrow> s < add_months_stripe_style a 1 s"
  by (rule add_months_later) simp_all

text \<open>The period that the loop finds: reached by whole billing months, and the one in which \<open>now\<close> lies.\<close>

definition billing_period_at :: "nat \<Rightarrow> nat \<Rightarrow> nat \<times> nat \<Rightarrow> bool" where
  "billing_period_at a now w \<longleftrightarrow> snd w = add_months_stripe_style a 1 (fst w) \<and> fst w \<le> now \<and> now < snd w"

lemma projected_window:
  assumes "now < 2 ^ 64 - 1" and "start \<le> now"
  shows "\<exists>w k. projected_subscription_window_from a start now = Inr w \<and> billing_period_at a now w
     \<and> fst w = (add_months_stripe_style a 1 ^^ k) start"
  using assms(2)
proof (induction "now - start" arbitrary: start rule: less_induct)
  case less
  let ?e = "add_months_stripe_style a 1 start"
  show ?case
  proof (cases "?e \<le> now")
    case True
    have "start < ?e" using less.prems assms(1) by (intro add_month_later) linarith
    then have "now - ?e < now - start" using True by linarith
    from less.hyps [OF this True] obtain w k where
      w: "projected_subscription_window_from a ?e now = Inr w" "billing_period_at a now w" "fst w = (add_months_stripe_style a 1 ^^ k) ?e"
      by blast
    have "fst w = (add_months_stripe_style a 1 ^^ Suc k) start" using w(3) by (simp only: funpow_Suc_right o_apply)
    moreover have "projected_subscription_window_from a start now = Inr w" using w(1) True by (subst projected_step) (simp only: if_True)
    ultimately show ?thesis using w(2) by blast
  next
    case False
    then have "projected_subscription_window_from a start now = Inr (start, ?e)" by (subst projected_step) simp
    moreover have "billing_period_at a now (start, ?e)" using False less.prems by (simp add: billing_period_at_def)
    moreover have "fst (start, ?e) = (add_months_stripe_style a 1 ^^ 0) start" by simp
    ultimately show ?thesis by blast
  qed
qed

lemma projected_from_later:
  assumes "projected_subscription_window_from a start t = Inr w" and "start \<le> t" and "t \<le> now" and "now < 2 ^ 64 - 1"
  shows "projected_subscription_window_from a (fst w) now = projected_subscription_window_from a start now"
  using assms(1,2)
proof (induction "t - start" arbitrary: start rule: less_induct)
  case less
  let ?e = "add_months_stripe_style a 1 start"
  show ?case
  proof (cases "?e \<le> t")
    case True
    have "start < ?e" using less.prems assms by (intro add_month_later) linarith
    then have "t - ?e < t - start" using True by linarith
    moreover have "projected_subscription_window_from a ?e t = Inr w"
      using less.prems(1) True by (subst (asm) projected_step) (simp only: if_True)
    ultimately have "projected_subscription_window_from a (fst w) now = projected_subscription_window_from a ?e now"
      using less.hyps True by blast
    then show ?thesis using True assms(3) projected_step [of a start now] by simp
  next
    case False
    then show ?thesis using less.prems(1) by (subst (asm) projected_step) auto
  qed
qed

text \<open>Stored billing periods are brought up to date lazily, and it does not matter when or how often.\<close>

definition refresh_period :: "nat \<Rightarrow> nat \<Rightarrow> nat \<Rightarrow> nat \<times> nat \<Rightarrow> (nat \<times> nat) res" where
  "refresh_period a _ now w = projected_subscription_window_from a (fst w) now"

interpretation billing: lazily_updated "refresh_period a" "\<lambda>t. t < 2 ^ 64 - 1" "billing_period_at a"
proof unfold_locales
  fix t w assume "billing_period_at a t w"
  then show "refresh_period a t t w = Inr w"
    unfolding refresh_period_def billing_period_at_def by (subst projected_step) (auto simp: prod_eq_iff)
next
  fix s t w v
  assume a: "t < (2::nat) ^ 64 - 1" "s \<le> t" "billing_period_at a s w" "refresh_period a s t w = Inr v"
  then have "fst w \<le> t" by (simp add: billing_period_at_def)
  from projected_window [OF a(1) this, of a] a(4) show "billing_period_at a t v" by (auto simp: refresh_period_def)
next
  fix s t u w v
  assume a: "t < (2::nat) ^ 64 - 1" "u < (2::nat) ^ 64 - 1" "s \<le> t" "t \<le> u" "billing_period_at a s w" "refresh_period a s t w = Inr v"
  then have "fst w \<le> t" by (simp add: billing_period_at_def)
  from projected_from_later [OF _ this a(4) a(2)] a(6) show "refresh_period a t u v = refresh_period a s u w"
    by (simp add: refresh_period_def)
qed

end
