(* ===== verification/Staking_Subscription.thy ===== *)
theory Staking_Subscription
  imports Staking_Farm Staking_Calendar
begin

text \<open>
  Subscriptions of the staking contract (\<open>subscriptions.rs\<close>, without the \<open>test\<close> feature): the indexes of subscriptions, the projection of
  a stored subscription to the current billing period, updates of plan and stake that apply at once or at the end of the
  period, and the lazy application of the latter. The calendar is theory \<open>Staking_Calendar\<close>.
\<close>

section \<open>Stored locks and subscriptions\<close>

definition internal_set_lock :: "lock_id \<Rightarrow> stake_lock \<Rightarrow> staking \<Rightarrow> staking" where
  "internal_set_lock i l c = c\<lparr>st_locks := (st_locks c)(i \<mapsto> l)\<rparr>"

definition require_lock :: "lock_id \<Rightarrow> string \<Rightarrow> staking \<Rightarrow> stake_lock res" where
  "require_lock i not_found_msg c = expect (st_locks c i) not_found_msg"

definition subscription_now :: "env \<Rightarrow> nat" where
  "subscription_now e = block_timestamp e"

definition increment_count :: "'k \<Rightarrow> ('k \<rightharpoonup> nat) \<Rightarrow> ('k \<rightharpoonup> nat)" where
  "increment_count k counts = counts(k \<mapsto> saturating_add 32 (or_zero (counts k)) 1)"

definition decrement_count :: "'k \<Rightarrow> ('k \<rightharpoonup> nat) \<Rightarrow> ('k \<rightharpoonup> nat)" where
  "decrement_count k counts =
     (case counts k of
        None \<Rightarrow> counts
      | Some current \<Rightarrow> if current \<le> 1 then counts(k := None) else counts(k \<mapsto> current - 1))"

definition pending_update_target_price_id :: "subscription \<Rightarrow> price_id option" where
  "pending_update_target_price_id sub = (case sb_pending_update sub of None \<Rightarrow> None | Some u \<Rightarrow> pu_target_price_id u)"

definition add_pending_update_target_refs :: "subscription \<Rightarrow> staking \<Rightarrow> staking" where
  "add_pending_update_target_refs sub c =
     (case pending_update_target_price_id sub of
        None \<Rightarrow> c
      | Some pid \<Rightarrow>
          let c1 = c\<lparr>st_pending_update_target_price_counts := increment_count pid (st_pending_update_target_price_counts c)\<rparr>
          in case st_prices c1 pid of
               None \<Rightarrow> c1
             | Some pr \<Rightarrow> c1\<lparr>st_pending_update_target_product_counts :=
                 increment_count (pc_product_id pr) (st_pending_update_target_product_counts c1)\<rparr>)"

definition remove_pending_update_target_refs :: "subscription \<Rightarrow> staking \<Rightarrow> staking" where
  "remove_pending_update_target_refs sub c =
     (case pending_update_target_price_id sub of
        None \<Rightarrow> c
      | Some pid \<Rightarrow>
          let c1 = c\<lparr>st_pending_update_target_price_counts := decrement_count pid (st_pending_update_target_price_counts c)\<rparr>
          in case st_prices c1 pid of
               None \<Rightarrow> c1
             | Some pr \<Rightarrow> c1\<lparr>st_pending_update_target_product_counts :=
                 decrement_count (pc_product_id pr) (st_pending_update_target_product_counts c1)\<rparr>)"

definition internal_set_subscription :: "subscription_id \<Rightarrow> subscription \<Rightarrow> staking \<Rightarrow> staking" where
  "internal_set_subscription i sub c =
     (let c1 = (case st_subscriptions c i of None \<Rightarrow> c | Some old \<Rightarrow> remove_pending_update_target_refs old c);
          c2 = add_pending_update_target_refs sub c1
      in c2\<lparr>st_subscriptions := (st_subscriptions c2)(i \<mapsto> sub)\<rparr>)"

definition internal_remove_subscription :: "subscription_id \<Rightarrow> staking \<Rightarrow> staking" where
  "internal_remove_subscription i c =
     (let c1 = (case st_subscriptions c i of None \<Rightarrow> c | Some old \<Rightarrow> remove_pending_update_target_refs old c)
      in c1\<lparr>st_subscriptions := (st_subscriptions c1)(i := None)\<rparr>)"

section \<open>Indexes\<close>

definition add_subscription_to_product_index_for_product :: "product_id \<Rightarrow> subscription_id \<Rightarrow> staking \<Rightarrow> staking" where
  "add_subscription_to_product_index_for_product i sid c =
     c\<lparr>st_subscriptions_by_product := (st_subscriptions_by_product c)
       (i \<mapsto> set_insert sid (or_empty (st_subscriptions_by_product c i)))\<rparr>"

definition add_subscription_to_product_index :: "account_id \<Rightarrow> subscription_id \<Rightarrow> staking \<Rightarrow> staking" where
  "add_subscription_to_product_index x sid c =
     (case st_subscriptions c sid of
        None \<Rightarrow> c
      | Some sub \<Rightarrow> if sb_account_id sub \<noteq> x then c
                    else add_subscription_to_product_index_for_product (sb_product_id sub) sid c)"

definition remove_subscription_from_product_index_for_product :: "product_id \<Rightarrow> subscription_id \<Rightarrow> staking \<Rightarrow> staking" where
  "remove_subscription_from_product_index_for_product i sid c =
     (case st_subscriptions_by_product c i of
        None \<Rightarrow> c
      | Some ids \<Rightarrow>
          let ids' = iterable_remove sid ids
          in c\<lparr>st_subscriptions_by_product := (st_subscriptions_by_product c)(i := if ids' = [] then None else Some ids')\<rparr>)"

definition remove_subscription_from_product_index :: "subscription_id \<Rightarrow> staking \<Rightarrow> staking" where
  "remove_subscription_from_product_index sid c =
     (case st_subscriptions c sid of
        None \<Rightarrow> c
      | Some sub \<Rightarrow> remove_subscription_from_product_index_for_product (sb_product_id sub) sid c)"

definition add_subscription_to_indexes :: "account_id \<Rightarrow> subscription_id \<Rightarrow> bool \<Rightarrow> staking \<Rightarrow> staking" where
  "add_subscription_to_indexes x sid add_global c =
     (let ids = or_empty (st_subscriptions_by_account c x) in
      if sid \<in> set ids then c
      else
        let c1 = c\<lparr>st_subscriptions_by_account := (st_subscriptions_by_account c)(x \<mapsto> ids @ [sid])\<rparr>;
            c2 = add_subscription_to_product_index x sid c1
        in if add_global then c2\<lparr>st_subscription_ids := set_insert sid (st_subscription_ids c2)\<rparr> else c2)"

definition remove_subscription_from_indexes :: "account_id \<Rightarrow> subscription_id \<Rightarrow> bool \<Rightarrow> staking \<Rightarrow> staking" where
  "remove_subscription_from_indexes x sid remove_global c =
     (case st_subscriptions_by_account c x of
        None \<Rightarrow> c
      | Some ids0 \<Rightarrow>
          let ids = filter (\<lambda>i. i \<noteq> sid) ids0 in
          if length ids = length ids0 then c
          else
            let c1 = c\<lparr>st_subscriptions_by_account := (st_subscriptions_by_account c)(x := if ids = [] then None else Some ids)\<rparr>;
                c2 = remove_subscription_from_product_index sid c1
            in if remove_global then c2\<lparr>st_subscription_ids := iterable_remove sid (st_subscription_ids c2)\<rparr> else c2)"

definition move_subscription_product_index ::
  "account_id \<Rightarrow> subscription_id \<Rightarrow> product_id \<Rightarrow> product_id \<Rightarrow> staking \<Rightarrow> staking res" where
  "move_subscription_product_index buyer sid old_product_id new_product_id c =
     (if old_product_id = new_product_id then Inr c
      else
        and_then (case st_subscription_by_account_product c (buyer, new_product_id) of
            Some existing \<Rightarrow> and_then (require (existing = sid) ''Subscription already exists for target product'') (\<lambda>_. Inr c)
          | None \<Rightarrow> Inr (c\<lparr>st_subscription_by_account_product := (st_subscription_by_account_product c)((buyer, new_product_id) \<mapsto> sid)\<rparr>)) (\<lambda>c1.
        let c2 = (if st_subscription_by_account_product c1 (buyer, old_product_id) = Some sid
              then c1\<lparr>st_subscription_by_account_product := (st_subscription_by_account_product c1)((buyer, old_product_id) := None)\<rparr>
              else c1)
        in Inr (add_subscription_to_product_index_for_product new_product_id sid
                 (remove_subscription_from_product_index_for_product old_product_id sid c2))))"

section \<open>Projection\<close>

definition require_subscription_by_id :: "subscription_id \<Rightarrow> staking \<Rightarrow> subscription res" where
  "require_subscription_by_id sid c = expect (st_subscriptions c sid) ''Subscription not found''"

definition require_subscription_owned_by_id :: "account_id \<Rightarrow> subscription_id \<Rightarrow> staking \<Rightarrow> subscription res" where
  "require_subscription_owned_by_id buyer sid c =
     and_then (require_subscription_by_id sid c) (\<lambda>sub.
     and_then (require (sb_account_id sub = buyer) ''Only the subscription owner can perform this action'') (\<lambda>_. Inr sub))"

definition assert_subscription_active :: "subscription \<Rightarrow> unit res" where
  "assert_subscription_active sub = require (sb_status sub = Subscription_Active)
     ''This subscription is not active (cancelled, expired, or not yet started)''"

definition validate_subscription_target_amount :: "price \<Rightarrow> nat \<Rightarrow> unit res" where
  "validate_subscription_target_amount pr target_amount =
     and_then (require (pc_amount pr \<le> target_amount) ''Target stake amount is below the price minimum'') (\<lambda>_.
     case meta_max_amount (pc_metadata pr) of
       None \<Rightarrow> Inr ()
     | Some m \<Rightarrow> require (target_amount \<le> m) ''Target stake amount is above the price maximum'')"

definition clear_pending_update :: "subscription \<Rightarrow> subscription" where
  "clear_pending_update sub = sub\<lparr>sb_pending_update := None\<rparr>"

definition project_due_update_fields :: "subscription \<Rightarrow> pending_subscription_update \<Rightarrow> staking \<Rightarrow> subscription res" where
  "project_due_update_fields sub pending c =
     and_then (case pu_target_price_id pending of
         None \<Rightarrow> Inr sub
       | Some pid \<Rightarrow> and_then (require_price pid c) (\<lambda>pr. Inr (sub\<lparr>sb_product_id := pc_product_id pr, sb_price_id := pid\<rparr>))) (\<lambda>sub'.
     Inr (clear_pending_update sub'))"

definition project_subscription_view_now :: "env \<Rightarrow> subscription \<Rightarrow> staking \<Rightarrow> subscription res" where
  "project_subscription_view_now e sub c =
     (if sb_status sub \<noteq> Subscription_Active then Inr sub
      else
        let now = subscription_now e in
        if sb_cancel_at_period_end sub
        then Inr (if sb_end_ns sub \<le> now then sub\<lparr>sb_status := Subscription_Expired\<rparr> else sub)
        else
          and_then (case sb_pending_update sub of
              None \<Rightarrow> Inr (sub, sb_start_ns sub)
            | Some pending \<Rightarrow>
                if pu_apply_ns pending \<le> now
                then and_then (project_due_update_fields sub pending c) (\<lambda>sub'. Inr (sub', pu_apply_ns pending))
                else Inr (sub, sb_start_ns sub)) (\<lambda>(sub', projection_start_ns).
          and_then (projected_subscription_window_from (sb_anchor_day sub') projection_start_ns now) (\<lambda>(start_ns, end_ns).
          Inr (sub'\<lparr>sb_start_ns := start_ns, sb_end_ns := end_ns\<rparr>))))"

text \<open>The first subscription of the account whose projection is for the product.\<close>

fun find_projected :: "env \<Rightarrow> account_id \<Rightarrow> product_id \<Rightarrow> staking \<Rightarrow> subscription_id list \<Rightarrow> (subscription_id \<times> subscription) option res" where
  "find_projected e buyer i c [] = Inr None"
| "find_projected e buyer i c (sid # sids) =
     and_then (require_subscription_by_id sid c) (\<lambda>stored.
     if sb_account_id stored \<noteq> buyer \<or> sb_status stored \<noteq> Subscription_Active then find_projected e buyer i c sids
     else and_then (project_subscription_view_now e stored c) (\<lambda>projected.
          if sb_product_id projected = i then Inr (Some (sid, projected)) else find_projected e buyer i c sids))"

definition find_subscription_by_projected_product ::
  "env \<Rightarrow> account_id \<Rightarrow> product_id \<Rightarrow> staking \<Rightarrow> (subscription_id \<times> subscription) option res" where
  "find_subscription_by_projected_product e buyer i c =
     and_then (case st_subscription_by_account_product c (buyer, i) of
         None \<Rightarrow> Inr None
       | Some sid \<Rightarrow>
           and_then (require_subscription_by_id sid c) (\<lambda>stored.
           and_then (require (sb_account_id stored = buyer) ''Only the subscription owner can perform this action'') (\<lambda>_.
           and_then (project_subscription_view_now e stored c) (\<lambda>projected.
           Inr (if sb_product_id projected = i then Some (sid, projected) else None))))) (\<lambda>direct.
     case direct of
       Some found \<Rightarrow> Inr (Some found)
     | None \<Rightarrow> find_projected e buyer i c (or_empty (st_subscriptions_by_account c buyer)))"

definition assert_product_not_reserved_by_pending_update ::
  "account_id \<Rightarrow> product_id \<Rightarrow> subscription_id option \<Rightarrow> staking \<Rightarrow> unit res" where
  "assert_product_not_reserved_by_pending_update buyer i allowed c =
     (let candidates = filter (\<lambda>sid. allowed \<noteq> Some sid) (or_empty (st_subscriptions_by_account c buyer));
          subs = filter (\<lambda>sub. sb_status sub = Subscription_Active) (List.map_filter (st_subscriptions c) candidates);
          targets = List.map_filter pending_update_target_price_id subs
      in require (\<not> list_ex (\<lambda>pr. pc_product_id pr = i) (List.map_filter (st_prices c) targets))
           ''Subscription already has a pending update for target product'')"

section \<open>Applying scheduled updates\<close>

definition sync_lock_window_fields :: "stake_lock \<Rightarrow> subscription \<Rightarrow> stake_lock" where
  "sync_lock_window_fields l sub =
     l\<lparr>lo_start_ns := sb_start_ns sub, lo_end_ns := sb_end_ns sub,
       lo_order := (case lo_order l of
          SubscriptionOrder sid pid ps pe \<Rightarrow>
            if sid = sb_subscription_id sub then SubscriptionOrder sid (sb_price_id sub) (sb_start_ns sub) (sb_end_ns sub)
            else SubscriptionOrder sid pid ps pe
        | other \<Rightarrow> other)\<rparr>"

definition sync_subscription_lock_window :: "subscription \<Rightarrow> staking \<Rightarrow> staking" where
  "sync_subscription_lock_window sub c =
     (case st_locks c (sb_last_lock_id sub) of
        None \<Rightarrow> c
      | Some l \<Rightarrow> if lo_account_id l \<noteq> sb_account_id sub \<or> lo_status l \<noteq> Lock_Active then c
                  else let l' = sync_lock_window_fields l sub in internal_set_lock (lo_lock_id l') l' c)"

text \<open>The surplus stake of a lock as shares, rounded down.\<close>

definition surplus_shares :: "stake_lock \<Rightarrow> nat \<Rightarrow> validator \<Rightarrow> nat res" where
  "surplus_shares l surplus_target v =
     and_then (near_from_shares (lo_shares l) (net_stake_yocto v) (va_total_shares v)) (\<lambda>lock_near_val.
     if lock_near_val = 0 then Inr 0
     else
       and_then (mul_u 256 (lo_shares l) (min surplus_target lock_near_val)) (\<lambda>x.
       and_then (as_u128 (x div lock_near_val)) (\<lambda>s. Inr (min s (lo_shares l)))))"

definition apply_scheduled_stake_decrease_at_renewal ::
  "env \<Rightarrow> account_id \<Rightarrow> subscription \<Rightarrow> nat \<Rightarrow> staking \<Rightarrow> staking res" where
  "apply_scheduled_stake_decrease_at_renewal e buyer sub target_amount c =
     (case st_locks c (sb_last_lock_id sub) of
        None \<Rightarrow> Inr c
      | Some l \<Rightarrow>
          if lo_account_id l \<noteq> buyer \<or> lo_status l \<noteq> Lock_Active then Inr c
          else
            let surplus_target = saturating_sub (lo_amount_near l) target_amount in
            if surplus_target = 0 then Inr c
            else
              and_then (require_validator (lo_validator_id l) c) (\<lambda>v.
              and_then (surplus_shares l surplus_target v) (\<lambda>shares_remove.
              if shares_remove = 0 then Inr c
              else
                and_then (internal_unstake e buyer (lo_validator_id l) shares_remove c) (\<lambda>(c1, near_amt).
                let l1 = l\<lparr>lo_shares := saturating_sub (lo_shares l) shares_remove,
                          lo_amount_near := saturating_sub (lo_amount_near l) near_amt\<rparr>;
                    l2 = (if lo_shares l1 = 0 then l1\<lparr>lo_status := Lock_UnlockRequested\<rparr> else l1)
                in Inr (st_emit (St_Event ''subscription_downgrade_prorate''
                     [buyer, sb_subscription_id sub, sb_product_id sub, sb_price_id sub, lo_lock_id l2] [near_amt])
                     (internal_set_lock (lo_lock_id l2) l2 c1))))))"

definition apply_due_subscription_update :: "env \<Rightarrow> subscription_id \<Rightarrow> staking \<Rightarrow> (staking \<times> bool) res" where
  "apply_due_subscription_update e sid c =
     (case st_subscriptions c sid of
        None \<Rightarrow> Inr (c, False)
      | Some stored \<Rightarrow>
          if sb_status stored \<noteq> Subscription_Active \<or> sb_cancel_at_period_end stored then Inr (c, False)
          else case sb_pending_update stored of
            None \<Rightarrow> Inr (c, False)
          | Some pending \<Rightarrow>
              let now = subscription_now e in
              if now < pu_apply_ns pending then Inr (c, False)
              else
                and_then (case pu_target_price_id pending of
                    None \<Rightarrow> Inr None
                  | Some pid \<Rightarrow>
                      and_then (require_price pid c) (\<lambda>pr.
                      and_then (require_product (pc_product_id pr) c) (\<lambda>pd. Inr (Some (pr, pd))))) (\<lambda>target.
                let old_product_id = sb_product_id stored;
                    new_product_id = (case target of None \<Rightarrow> sb_product_id stored | Some (_, pd) \<Rightarrow> pd_product_id pd);
                    buyer = sb_account_id stored
                in and_then (case pu_target_amount pending of
                    None \<Rightarrow> Inr c
                  | Some target_amount \<Rightarrow>
                      and_then (case st_locks c (sb_last_lock_id stored) of
                          None \<Rightarrow> Inr ()
                        | Some l \<Rightarrow> and_then (require_validator (lo_validator_id l) c) (\<lambda>v.
                            require (epoch_height e \<le> va_last_settlement_epoch v)
                              ''Pending stake decrease requires validator settlement before apply'')) (\<lambda>_.
                      apply_scheduled_stake_decrease_at_renewal e buyer stored target_amount c)) (\<lambda>c1.
                and_then (projected_subscription_window_from (sb_anchor_day stored) (pu_apply_ns pending) now) (\<lambda>(period_start_ns, period_end_ns).
                let updated0 = (case target of
                        None \<Rightarrow> stored
                      | Some (pr, _) \<Rightarrow> stored\<lparr>sb_product_id := new_product_id, sb_price_id := pc_price_id pr\<rparr>);
                    updated = clear_pending_update (updated0\<lparr>sb_start_ns := period_start_ns, sb_end_ns := period_end_ns\<rparr>);
                    c2 = sync_subscription_lock_window updated c1
                in and_then (if old_product_id \<noteq> new_product_id
                     then move_subscription_product_index buyer sid old_product_id new_product_id c2 else Inr c2) (\<lambda>c3.
                let c4 = internal_set_subscription sid updated c3;
                    c5 = (case target of
                        None \<Rightarrow> c4
                      | Some (pr, pd) \<Rightarrow>
                          internal_set_product (pd_product_id pd) (pd\<lparr>pd_usage_count := saturating_add 64 (pd_usage_count pd) 1\<rparr>)
                            (internal_set_price (pc_price_id pr) (pr\<lparr>pc_usage_count := saturating_add 64 (pc_usage_count pr) 1\<rparr>) c4));
                    lock_amount = (case st_locks c5 (sb_last_lock_id updated) of None \<Rightarrow> 0 | Some l \<Rightarrow> lo_amount_near l)
                in Inr (st_emit (St_Event ''subscription_update''
                     [buyer, sid, sb_product_id updated, sb_price_id updated, ''applied_pending_update''] [lock_amount]) c5, True))))))"

section \<open>Cancelling, resuming and updating\<close>

definition cancel_subscription :: "env \<Rightarrow> subscription_id \<Rightarrow> staking \<Rightarrow> staking res" where
  "cancel_subscription e sid c =
     and_then (assert_one_yocto e) (\<lambda>_.
     and_then (st_assert_not_paused c) (\<lambda>_.
     let buyer = predecessor e in
     and_then (require_subscription_owned_by_id buyer sid c) (\<lambda>stored.
     and_then (project_subscription_view_now e stored c) (\<lambda>projected.
     and_then (assert_subscription_active projected) (\<lambda>_.
     let sub = clear_pending_update projected;
         c1 = sync_subscription_lock_window sub c
     in and_then (if sb_product_id stored \<noteq> sb_product_id sub
          then move_subscription_product_index buyer sid (sb_product_id stored) (sb_product_id sub) c1 else Inr c1) (\<lambda>c2.
     let c3 = internal_set_subscription sid (sub\<lparr>sb_cancel_at_period_end := True\<rparr>) c2
     in Inr (st_emit (St_Event ''subscription_cancel'' [buyer, sid, sb_product_id sub, sb_price_id sub] []) c3)))))))"

definition resume_subscription :: "env \<Rightarrow> subscription_id \<Rightarrow> staking \<Rightarrow> staking res" where
  "resume_subscription e sid c =
     and_then (assert_one_yocto e) (\<lambda>_.
     and_then (st_assert_not_paused c) (\<lambda>_.
     let buyer = predecessor e in
     and_then (require_subscription_owned_by_id buyer sid c) (\<lambda>sub.
     and_then (assert_subscription_active sub) (\<lambda>_.
     and_then (require (sb_cancel_at_period_end sub) ''Subscription is not scheduled to cancel at period end'') (\<lambda>_.
     and_then (require (subscription_now e < sb_end_ns sub)
       ''Current billing period has ended; subscribe again with lock instead'') (\<lambda>_.
     let c1 = internal_set_subscription sid (sub\<lparr>sb_cancel_at_period_end := False\<rparr>) c
     in Inr (st_emit (St_Event ''subscription_resume'' [buyer, sid, sb_product_id sub, sb_price_id sub] []) c1)))))))"

text \<open>\<open>unlock.rs\<close>: the lock of a subscription.\<close>

definition require_subscription_lock_owned_by :: "subscription \<Rightarrow> account_id \<Rightarrow> staking \<Rightarrow> stake_lock res" where
  "require_subscription_lock_owned_by sub buyer c =
     and_then (expect (st_locks c (sb_last_lock_id sub)) ''No lock is linked to this subscription'') (\<lambda>l.
     and_then (require (lo_account_id l = buyer) ''Only the lock owner can change this subscription lock'') (\<lambda>_.
     and_then (require (lo_status l = Lock_Active) ''Lock is not active'') (\<lambda>_. Inr l)))"

record subscription_update_inputs =
  ui_sub :: subscription
  ui_current_price :: price
  ui_target_price :: price
  ui_target_product :: product
  ui_lock :: stake_lock

record subscription_update_decision =
  ud_immediate_plan_change :: bool
  ud_immediate_stake_increase :: "nat option"
  ud_pending_plan_change :: bool
  ud_pending_stake_decrease_target :: "nat option"
  ud_pending_apply_ns :: "nat option"

definition has_immediate_change :: "subscription_update_decision \<Rightarrow> bool" where
  "has_immediate_change d \<longleftrightarrow> ud_immediate_plan_change d \<or> ud_immediate_stake_increase d \<noteq> None"

definition has_pending_change :: "subscription_update_decision \<Rightarrow> bool" where
  "has_pending_change d \<longleftrightarrow> ud_pending_plan_change d \<or> ud_pending_stake_decrease_target d \<noteq> None"

definition checked_subscription_update_inputs ::
  "env \<Rightarrow> account_id \<Rightarrow> price_id \<Rightarrow> nat \<Rightarrow> subscription_id \<Rightarrow> validator_id option \<Rightarrow> staking \<Rightarrow> subscription_update_inputs res" where
  "checked_subscription_update_inputs e buyer target_price_id target_amount sid expected_validator_id c =
     and_then (get_active_price_and_product target_price_id c) (\<lambda>(target_price, target_product).
     and_then (require_recurring_monthly_price target_price) (\<lambda>_.
     and_then (validate_subscription_target_amount target_price target_amount) (\<lambda>_.
     and_then (require_subscription_owned_by_id buyer sid c) (\<lambda>stored.
     and_then (assert_subscription_active stored) (\<lambda>_.
     and_then (require (\<not> sb_cancel_at_period_end stored) ''Resume subscription before updating'') (\<lambda>_.
     and_then (if pd_product_id target_product \<noteq> sb_product_id stored
         then and_then (case st_subscription_by_account_product c (buyer, pd_product_id target_product) of
                  None \<Rightarrow> Inr ()
                | Some existing \<Rightarrow> require (existing = sid) ''Subscription already exists for target product'') (\<lambda>_.
              assert_product_not_reserved_by_pending_update buyer (pd_product_id target_product) (Some sid) c)
         else Inr ()) (\<lambda>_.
     and_then (project_subscription_view_now e stored c) (\<lambda>sub.
     and_then (require_price (sb_price_id sub) c) (\<lambda>current_price.
     and_then (require_subscription_lock_owned_by sub buyer c) (\<lambda>l.
     and_then (require (pd_validator_id target_product = lo_validator_id l)
       ''Target product validator must match subscription lock validator'') (\<lambda>_.
     and_then (case expected_validator_id of
         None \<Rightarrow> Inr ()
       | Some expected \<Rightarrow>
           and_then (require (pd_validator_id target_product = expected)
             ''Catalog validator for this price does not match the pool used for this subscription update'') (\<lambda>_.
           require (lo_validator_id l = expected) ''Subscription lock validator does not match the update validator'')) (\<lambda>_.
     and_then (require (subscription_now e < sb_end_ns sub) ''Current period already ended; renew instead'') (\<lambda>_.
     Inr \<lparr>ui_sub = sub, ui_current_price = current_price, ui_target_price = target_price, ui_target_product = target_product,
          ui_lock = l\<rparr>)))))))))))))"

definition price_supports_recurring_amount :: "price \<Rightarrow> nat \<Rightarrow> bool res" where
  "price_supports_recurring_amount pr amount =
     (if amount < pc_amount pr then Inr False
      else if (case meta_max_amount (pc_metadata pr) of None \<Rightarrow> False | Some m \<Rightarrow> m < amount) then Inr False
      else case check_near_recurring_price_lock pr amount of
             Inr _ \<Rightarrow> Inr True
           | Inl (Msg _) \<Rightarrow> Inr False
           | Inl overflow \<Rightarrow> Inl overflow)"

definition build_subscription_update_decision ::
  "subscription_update_inputs \<Rightarrow> price_id \<Rightarrow> nat \<Rightarrow> subscription_update_decision res" where
  "build_subscription_update_decision inputs target_price_id target_amount =
     (let current_amount = lo_amount_near (ui_lock inputs);
          plan_changes = (target_price_id \<noteq> sb_price_id (ui_sub inputs));
          plan_lower = (pc_amount (ui_target_price inputs) < pc_amount (ui_current_price inputs));
          immediate_stake_increase = (if current_amount < target_amount then Some (saturating_sub target_amount current_amount) else None);
          pending_stake_decrease_target = (if target_amount < current_amount then Some target_amount else None)
      in and_then (if \<not> plan_changes then Inr False
           else if plan_lower then Inr False
           else if pending_stake_decrease_target \<noteq> None then price_supports_recurring_amount (ui_target_price inputs) current_amount
           else Inr True) (\<lambda>immediate_plan_change.
      let pending_plan_change = (plan_changes \<and> \<not> immediate_plan_change) in
      and_then (if immediate_plan_change \<or> immediate_stake_increase \<noteq> None
          then check_near_recurring_price_lock
                 (if immediate_plan_change then ui_target_price inputs else ui_current_price inputs)
                 (if immediate_stake_increase \<noteq> None then target_amount else current_amount)
          else Inr ()) (\<lambda>_.
      and_then (if pending_plan_change \<or> pending_stake_decrease_target \<noteq> None
          then check_near_recurring_price_lock (ui_target_price inputs) target_amount
          else Inr ()) (\<lambda>_.
      Inr \<lparr>ud_immediate_plan_change = immediate_plan_change, ud_immediate_stake_increase = immediate_stake_increase,
           ud_pending_plan_change = pending_plan_change, ud_pending_stake_decrease_target = pending_stake_decrease_target,
           ud_pending_apply_ns = (if pending_plan_change \<or> pending_stake_decrease_target \<noteq> None
             then Some (sb_end_ns (ui_sub inputs)) else None)\<rparr>))))"

definition subscription_update_kind :: "subscription_update_decision \<Rightarrow> string" where
  "subscription_update_kind d =
     (case (has_immediate_change d, has_pending_change d) of
        (False, False) \<Rightarrow> ''no_op''
      | (True, False) \<Rightarrow> ''changed_immediately''
      | (False, True) \<Rightarrow> ''scheduled_for_period_end''
      | (True, True) \<Rightarrow> ''changed_immediately_and_scheduled_for_period_end'')"

record subscription_plan_change_outcome =
  uo_kind :: string
  uo_subscription_id :: subscription_id
  uo_target_price_id :: price_id
  uo_target_amount :: nat
  uo_lock_id :: "lock_id option"
  uo_immediate_plan_change :: bool
  uo_immediate_stake_increase :: "nat option"
  uo_pending_plan_change :: bool
  uo_pending_stake_decrease :: "nat option"
  uo_pending_apply_ns :: "nat option"

definition subscription_update_outcome ::
  "string \<Rightarrow> subscription_id \<Rightarrow> price_id \<Rightarrow> nat \<Rightarrow> lock_id option \<Rightarrow> subscription_update_decision \<Rightarrow> nat \<Rightarrow> subscription_plan_change_outcome" where
  "subscription_update_outcome kind sid target_price_id target_amount lid d current_amount =
     \<lparr>uo_kind = kind, uo_subscription_id = sid, uo_target_price_id = target_price_id, uo_target_amount = target_amount,
      uo_lock_id = lid, uo_immediate_plan_change = ud_immediate_plan_change d,
      uo_immediate_stake_increase = ud_immediate_stake_increase d, uo_pending_plan_change = ud_pending_plan_change d,
      uo_pending_stake_decrease = map_option (\<lambda>t. saturating_sub current_amount t) (ud_pending_stake_decrease_target d),
      uo_pending_apply_ns = ud_pending_apply_ns d\<rparr>"

text \<open>The subscription, the target price and product, and the lock after the decided changes.\<close>

definition apply_subscription_update_state ::
  "price_id \<Rightarrow> subscription_update_decision \<Rightarrow> subscription \<Rightarrow> price \<Rightarrow> product \<Rightarrow> stake_lock
   \<Rightarrow> (subscription \<times> price \<times> product \<times> stake_lock) res" where
  "apply_subscription_update_state target_price_id d sub0 pr pd l =
     (let sub1 = clear_pending_update sub0;
          (sub2, pr2, pd2, l2) = (if ud_immediate_plan_change d
            then (sub1\<lparr>sb_product_id := pc_product_id pr, sb_price_id := target_price_id\<rparr>,
                  pr\<lparr>pc_usage_count := saturating_add 64 (pc_usage_count pr) 1\<rparr>,
                  pd\<lparr>pd_usage_count := saturating_add 64 (pd_usage_count pd) 1\<rparr>,
                  l\<lparr>lo_order := SubscriptionOrder (sb_subscription_id sub1) target_price_id (sb_start_ns sub1) (sb_end_ns sub1)\<rparr>)
            else (sub1, pr, pd, l))
      in and_then (if has_pending_change d
           then and_then (expect (ud_pending_apply_ns d) ''pending apply timestamp'') (\<lambda>apply_ns.
                Inr (sub2\<lparr>sb_pending_update := Some \<lparr>pu_target_price_id = (if ud_pending_plan_change d then Some target_price_id else None),
                  pu_target_amount = ud_pending_stake_decrease_target d, pu_apply_ns = apply_ns\<rparr>\<rparr>))
           else Inr sub2) (\<lambda>sub3.
         Inr (sub3, pr2, pd2, sync_lock_window_fields l2 sub3)))"

definition commit_subscription_update_after_settle ::
  "env \<Rightarrow> account_id \<Rightarrow> nat \<Rightarrow> price_id \<Rightarrow> nat \<Rightarrow> subscription_id \<Rightarrow> validator_id \<Rightarrow> staking
   \<Rightarrow> (staking \<times> subscription_plan_change_outcome) res" where
  "commit_subscription_update_after_settle e buyer deposit target_price_id target_amount sid p c =
     and_then (apply_due_subscription_update e sid c) (\<lambda>(c1, _).
     and_then (checked_subscription_update_inputs e buyer target_price_id target_amount sid (Some p) c1) (\<lambda>inputs.
     and_then (build_subscription_update_decision inputs target_price_id target_amount) (\<lambda>d.
     let l = ui_lock inputs; current_amount = lo_amount_near l in
     and_then (case ud_immediate_stake_increase d of
         Some expected_delta \<Rightarrow>
           and_then (require (deposit = expected_delta) ''Attached NEAR must equal the target stake increase'') (\<lambda>_.
           and_then (require (sg_min_lock_amount (st_config c1) \<le> deposit)
             ''Attached NEAR is below the contract minimum lock amount (min_lock_amount)'') (\<lambda>_.
           and_then (internal_stake buyer p deposit c1) (\<lambda>(c2, add_shares).
           and_then (require (0 < add_shares) ''Stake increase must mint at least one share'') (\<lambda>_.
           and_then (expect (if lo_amount_near l + deposit < 2 ^ 128 then Some (lo_amount_near l + deposit) else None)
             ''lock amount_near overflow'') (\<lambda>amount.
           Inr (c2, l\<lparr>lo_amount_near := amount, lo_shares := saturating_add 128 (lo_shares l) add_shares\<rparr>, Some (lo_lock_id l)))))))
       | None \<Rightarrow>
           and_then (require (deposit = 1) ''Requires attached deposit of exactly 1 yoctoNEAR'') (\<lambda>_. Inr (c1, l, None))) (\<lambda>(c2, l1, lid).
     let old_product_id = sb_product_id (ui_sub inputs); new_product_id = pc_product_id (ui_target_price inputs) in
     and_then (apply_subscription_update_state target_price_id d (ui_sub inputs) (ui_target_price inputs) (ui_target_product inputs) l1)
       (\<lambda>(sub, pr, pd, l2).
     let c3 = internal_set_lock (lo_lock_id l2) l2 c2 in
     and_then (if ud_immediate_plan_change d then move_subscription_product_index buyer sid old_product_id new_product_id c3
       else Inr c3) (\<lambda>c4.
     let c5 = internal_set_subscription sid sub c4;
         c6 = (if ud_immediate_plan_change d
           then internal_set_product (pd_product_id pd) pd (internal_set_price (pc_price_id pr) pr c5) else c5);
         kind = subscription_update_kind d;
         c7 = st_emit (St_Event ''subscription_update'' [buyer, sid, pd_product_id pd, target_price_id, kind] [target_amount]) c6;
         c8 = (case lid of None \<Rightarrow> c7 | Some i \<Rightarrow> st_emit (St_Event ''lock_create'' [i, buyer] []) c7)
     in Inr (c8, subscription_update_outcome kind sid target_price_id target_amount lid d current_amount)))))))"

definition update_subscription :: "env \<Rightarrow> subscription_id \<Rightarrow> price_id \<Rightarrow> nat \<Rightarrow> staking \<Rightarrow> staking res" where
  "update_subscription e sid target_price_id target_amount c =
     and_then (st_assert_not_paused c) (\<lambda>_.
     let buyer = predecessor e; deposit = attached_deposit e in
     and_then (checked_subscription_update_inputs e buyer target_price_id target_amount sid None c) (\<lambda>inputs.
     let p = pd_validator_id (ui_target_product inputs) in
     and_then (assert_validator_active_for_lock p c) (\<lambda>_.
     and_then (require_enough_gas_for_epoch_settlement e) (\<lambda>_.
     and_then (require_validator_idle p c) (\<lambda>_.
     promise_validator_per_epoch_settlement_then e p (SubscriptionUpdate p buyer deposit target_price_id target_amount sid) c)))))"

definition on_subscription_update_after_settle ::
  "env \<Rightarrow> account_id \<Rightarrow> nat \<Rightarrow> price_id \<Rightarrow> nat \<Rightarrow> subscription_id \<Rightarrow> validator_id \<Rightarrow> staking
   \<Rightarrow> (staking \<times> subscription_plan_change_outcome) res" where
  "on_subscription_update_after_settle e buyer deposit target_price_id target_amount sid p c =
     and_then (assert_no_deposit e ''on_subscription_update_after_settle'') (\<lambda>_.
     and_then (assert_private e ''on_subscription_update_after_settle'') (\<lambda>_.
     and_then (commit_subscription_update_after_settle e buyer deposit target_price_id target_amount sid p c) (\<lambda>(c1, outcome).
     and_then (require_validator_busy p ''Validator pool must be busy after per-epoch settlement'' c1) (\<lambda>_. Inr (c1, outcome)))))"

section \<open>Views\<close>

definition get_subscription :: "env \<Rightarrow> subscription_id \<Rightarrow> staking \<Rightarrow> subscription option res" where
  "get_subscription e sid c =
     (case st_subscriptions c sid of
        None \<Rightarrow> Inr None
      | Some sub \<Rightarrow> and_then (project_subscription_view_now e sub c) (\<lambda>s. Inr (Some s)))"

definition get_subscription_for_product :: "env \<Rightarrow> account_id \<Rightarrow> product_id \<Rightarrow> staking \<Rightarrow> subscription option res" where
  "get_subscription_for_product e x i c =
     and_then (find_subscription_by_projected_product e x i c) (\<lambda>found. Inr (map_option snd found))"

definition get_subscription_for_price :: "env \<Rightarrow> account_id \<Rightarrow> price_id \<Rightarrow> staking \<Rightarrow> subscription option res" where
  "get_subscription_for_price e x i c =
     (case st_prices c i of None \<Rightarrow> Inr None | Some pr \<Rightarrow> get_subscription_for_product e x (pc_product_id pr) c)"

definition project_all :: "env \<Rightarrow> subscription list \<Rightarrow> staking \<Rightarrow> subscription list res" where
  "project_all e subs c = for_each (\<lambda>sub out. and_then (project_subscription_view_now e sub c) (\<lambda>s. Inr (out @ [s]))) subs []"

definition get_subscriptions_for_account :: "env \<Rightarrow> account_id \<Rightarrow> nat \<Rightarrow> nat \<Rightarrow> staking \<Rightarrow> subscription list res" where
  "get_subscriptions_for_account e x from limit c =
     (let ids = or_empty (st_subscriptions_by_account c x)
      in project_all e (collect_paginated from limit (length ids) (\<lambda>k. st_subscriptions c (ids ! k))) c)"

definition get_subscriptions :: "env \<Rightarrow> nat \<Rightarrow> nat \<Rightarrow> staking \<Rightarrow> subscription list res" where
  "get_subscriptions e from limit c =
     project_all e (List.map_filter (st_subscriptions c) (take limit (drop from (st_subscription_ids c)))) c"

definition get_subscriptions_for_product :: "env \<Rightarrow> product_id \<Rightarrow> nat \<Rightarrow> nat \<Rightarrow> staking \<Rightarrow> subscription list res" where
  "get_subscriptions_for_product e i from limit c =
     (case st_subscriptions_by_product c i of
        None \<Rightarrow> Inr []
      | Some ids \<Rightarrow> project_all e (List.map_filter (st_subscriptions c) (take limit (drop from ids))) c)"

end
