(* ===== verification/Staking_Lock.thy ===== *)
theory Staking_Lock
  imports Staking_Subscription
begin

text \<open>
  Locking NEAR for a price of the catalogue and unlocking it (\<open>lock.rs\<close>, \<open>unlock.rs\<close>, as deployed), the views of locks, and the
  migration entry points (\<open>upgrade.rs\<close>).
\<close>

section \<open>Locking (\<open>lock.rs\<close>)\<close>

definition add_lock_to_indexes :: "account_id \<Rightarrow> lock_id \<Rightarrow> staking \<Rightarrow> staking" where
  "add_lock_to_indexes x i c =
     c\<lparr>st_lock_ids := set_insert i (st_lock_ids c),
       st_locks_by_account := (st_locks_by_account c)(x \<mapsto> or_empty (st_locks_by_account c x) @ [i])\<rparr>"

definition lock_entry_preamble :: "env \<Rightarrow> staking \<Rightarrow> (account_id \<times> nat) res" where
  "lock_entry_preamble e c =
     and_then (st_assert_not_paused c) (\<lambda>_.
     and_then (ensure_min_storage_for_new_lock (predecessor e) c) (\<lambda>_.
     and_then (require (sg_min_lock_amount (st_config c) \<le> attached_deposit e)
       ''Attached NEAR is below the contract minimum lock amount (min_lock_amount)'') (\<lambda>_.
     Inr (predecessor e, attached_deposit e))))"

definition lock_one_off_with_catalog :: "env \<Rightarrow> account_id \<Rightarrow> nat \<Rightarrow> price \<Rightarrow> product \<Rightarrow> nat \<Rightarrow> staking \<Rightarrow> staking res" where
  "lock_one_off_with_catalog e buyer locked pr pd dur c =
     and_then (require (sg_min_lock_duration_ns (st_config c) \<le> dur \<and> dur \<le> sg_max_lock_duration_ns (st_config c))
       ''Lock duration is outside the allowed range for this contract'') (\<lambda>_.
     and_then (require (pc_price_type pr = OneOff) ''This price is not a one-off product price'') (\<lambda>_.
     and_then (require (pc_billing_period pr = None) ''One-off price must not set billing_period'') (\<lambda>_.
     and_then (assert_validator_active_for_lock (pd_validator_id pd) c) (\<lambda>_.
     and_then (check_near_price_lock pr locked dur) (\<lambda>_.
     and_then (require_validator_idle (pd_validator_id pd) c) (\<lambda>_.
     promise_validator_per_epoch_settlement_then e (pd_validator_id pd)
       (CommitLock (pd_validator_id pd) buyer locked dur (ProductPurchase (pd_product_id pd) (pc_price_id pr))) c))))))"

definition lock_recurring_subscription_with_catalog :: "env \<Rightarrow> account_id \<Rightarrow> nat \<Rightarrow> price \<Rightarrow> product \<Rightarrow> staking \<Rightarrow> staking res" where
  "lock_recurring_subscription_with_catalog e buyer locked pr pd c =
     and_then (require_recurring_monthly_price pr) (\<lambda>_.
     and_then (assert_validator_active_for_lock (pd_validator_id pd) c) (\<lambda>_.
     and_then (validate_subscription_target_amount pr locked) (\<lambda>_.
     promise_validator_per_epoch_settlement_then e (pd_validator_id pd)
       (CommitRecurringSubscriptionLock (pd_validator_id pd) buyer locked (pc_price_id pr)) c)))"

definition lock_with_price_id :: "env \<Rightarrow> price_id \<Rightarrow> nat option \<Rightarrow> staking \<Rightarrow> staking res" where
  "lock_with_price_id e pid duration_ns c =
     and_then (require_enough_gas_for_epoch_settlement e) (\<lambda>_.
     and_then (lock_entry_preamble e c) (\<lambda>(buyer, locked).
     and_then (get_active_price_and_product pid c) (\<lambda>(pr, pd).
     case pc_price_type pr of
       OneOff \<Rightarrow> and_then (expect duration_ns ''duration_ns is required for one-off prices'') (\<lambda>dur.
         lock_one_off_with_catalog e buyer locked pr pd dur c)
     | Recurring \<Rightarrow> and_then (require (duration_ns = None) ''duration_ns must be omitted for recurring subscription prices'') (\<lambda>_.
         lock_recurring_subscription_with_catalog e buyer locked pr pd c)
     | Farm \<Rightarrow> Inl (Msg ''Use stake for farm prices''))))"

definition st_lock :: "env \<Rightarrow> price_id option \<Rightarrow> product_id option \<Rightarrow> nat option \<Rightarrow> staking \<Rightarrow> staking res" where
  "st_lock e price_id product_id duration_ns c =
     and_then (resolve_price_id_for_lock price_id product_id c) (\<lambda>resolved. lock_with_price_id e resolved duration_ns c)"

definition new_subscription_for_lock ::
  "hash_fun \<Rightarrow> env \<Rightarrow> account_id \<Rightarrow> product \<Rightarrow> price_id \<Rightarrow> nat \<Rightarrow> staking \<Rightarrow> (staking \<times> subscription_id \<times> subscription) res" where
  "new_subscription_for_lock sha e buyer pd pid start_ns c =
     (let anchor = billing_anchor_day_from_timestamp start_ns;
          end_ns = add_months_stripe_style anchor 1 start_ns
      in and_then (next_subscription_id sha e (st_id_nonce c)) (\<lambda>(nonce, sid).
         Inr (c\<lparr>st_id_nonce := nonce\<rparr>, sid,
              \<lparr>sb_subscription_id = sid, sb_account_id = buyer, sb_product_id = pd_product_id pd, sb_price_id = pid,
               sb_start_ns = start_ns, sb_end_ns = end_ns, sb_anchor_day = anchor, sb_last_lock_id = [],
               sb_status = Subscription_Active, sb_cancel_at_period_end = False, sb_pending_update = None\<rparr>)))"

fun order_price_id :: "order_ref \<Rightarrow> price_id" where
  "order_price_id (ProductPurchase _ pid) = pid"
| "order_price_id (SubscriptionOrder _ pid _ _) = pid"

definition commit_catalog_lock ::
  "hash_fun \<Rightarrow> env \<Rightarrow> account_id \<Rightarrow> nat \<Rightarrow> nat \<Rightarrow> order_ref \<Rightarrow> validator_id \<Rightarrow> (subscription \<times> subscription_id \<times> bool) option
   \<Rightarrow> staking \<Rightarrow> (staking \<times> lock_id) res" where
  "commit_catalog_lock sha e buyer locked duration_ns order p followup c =
     and_then (get_active_price_and_product (order_price_id order) c) (\<lambda>(pr, pd).
     and_then (require (pd_validator_id pd = p)
       ''Catalog validator for this price does not match the pool used for this lock'') (\<lambda>_.
     and_then (internal_stake buyer p locked c) (\<lambda>(c1, new_shares).
     and_then (next_lock_id sha e (st_id_nonce c1)) (\<lambda>(nonce, i).
     let now = block_timestamp e;
         c2 = c1\<lparr>st_id_nonce := nonce\<rparr>;
         l = \<lparr>lo_lock_id = i, lo_account_id = buyer, lo_validator_id = p, lo_amount_near = locked, lo_shares = new_shares,
              lo_start_ns = now,
              lo_end_ns = saturating_add 64 now (if duration_ns < 2 ^ 64 then duration_ns else 2 ^ 64 - 1),
              lo_order = order, lo_status = Lock_Active\<rparr>;
         c3 = add_lock_to_indexes buyer i (internal_set_lock i l c2);
         c4 = internal_set_price (pc_price_id pr) (pr\<lparr>pc_usage_count := saturating_add 64 (pc_usage_count pr) 1\<rparr>) c3;
         c5 = internal_set_product (pd_product_id pd) (pd\<lparr>pd_usage_count := saturating_add 64 (pd_usage_count pd) 1\<rparr>) c4;
         c6 = c5\<lparr>st_user_lock_count := (st_user_lock_count c5)(buyer \<mapsto> saturating_add 32 (or_zero (st_user_lock_count c5 buyer)) 1)\<rparr>;
         c7 = (case followup of
             None \<Rightarrow> c6
           | Some (sub0, sid, is_new_index) \<Rightarrow>
               let sub = sub0\<lparr>sb_last_lock_id := i\<rparr>;
                   d1 = add_subscription_to_indexes buyer sid is_new_index (internal_set_subscription sid sub c6)
               in if is_new_index
                  then d1\<lparr>st_subscription_by_account_product :=
                         (st_subscription_by_account_product d1)((sb_account_id sub, sb_product_id sub) \<mapsto> sid)\<rparr>
                  else d1)
     in Inr (st_emit (St_Event ''lock_create'' [i, buyer] []) c7, i)))))"

text \<open>The subscription of a recurring lock: the current period, a renewal, or a new one after a cancelled period.\<close>

definition subscription_for_recurring_lock ::
  "hash_fun \<Rightarrow> env \<Rightarrow> account_id \<Rightarrow> product \<Rightarrow> price_id \<Rightarrow> subscription_id option \<Rightarrow> staking
   \<Rightarrow> (staking \<times> subscription \<times> subscription_id \<times> bool) res" where
  "subscription_for_recurring_lock sha e buyer pd pid existing c =
     (case existing of
        None \<Rightarrow> and_then (new_subscription_for_lock sha e buyer pd pid (block_timestamp e) c) (\<lambda>(c', sid, sub). Inr (c', sub, sid, True))
      | Some sid \<Rightarrow>
          and_then (apply_due_subscription_update e sid c) (\<lambda>(c1, _).
          and_then (require_subscription_by_id sid c1) (\<lambda>sub.
          let now = subscription_now e in
          and_then (require (sb_account_id sub = buyer) ''Only the subscription owner can perform this action'') (\<lambda>_.
          if now < sb_end_ns sub
          then and_then (case st_locks c1 (sb_last_lock_id sub) of
                   None \<Rightarrow> Inr ()
                 | Some prev \<Rightarrow> require (lo_status prev \<noteq> Lock_Active) ''This subscription period already has an active lock'') (\<lambda>_.
               Inr (c1, sub, sid, False))
          else if sb_cancel_at_period_end sub
          then let c2 = c1\<lparr>st_subscription_by_account_product :=
                       (st_subscription_by_account_product c1)((buyer, sb_product_id sub) := None)\<rparr>;
                   c3 = internal_remove_subscription sid (remove_subscription_from_indexes buyer sid True c2)
               in and_then (new_subscription_for_lock sha e buyer pd pid (block_timestamp e) c3) (\<lambda>(c', sid', sub'). Inr (c', sub', sid', True))
          else and_then (projected_subscription_window_from (sb_anchor_day sub) (sb_start_ns sub) now) (\<lambda>(start, stop).
               Inr (c1, sub\<lparr>sb_start_ns := start, sb_end_ns := stop, sb_status := Subscription_Active\<rparr>, sid, False))))))"

definition commit_recurring_subscription_lock_after_settle ::
  "hash_fun \<Rightarrow> env \<Rightarrow> account_id \<Rightarrow> nat \<Rightarrow> price_id \<Rightarrow> validator_id \<Rightarrow> staking \<Rightarrow> (staking \<times> lock_id) res" where
  "commit_recurring_subscription_lock_after_settle sha e buyer locked pid p c =
     and_then (get_active_price_and_product pid c) (\<lambda>(pr, pd).
     and_then (require_recurring_monthly_price pr) (\<lambda>_.
     and_then (require (pd_validator_id pd = p)
       ''Catalog validator for this price does not match the pool used for this lock'') (\<lambda>_.
     and_then (assert_validator_active_for_lock p c) (\<lambda>_.
     and_then (case st_subscription_by_account_product c (buyer, pd_product_id pd) of
         Some sid \<Rightarrow> Inr (Some sid)
       | None \<Rightarrow> and_then (find_subscription_by_projected_product e buyer (pd_product_id pd) c) (\<lambda>found. Inr (map_option fst found))) (\<lambda>existing.
     and_then (if existing = None then assert_product_not_reserved_by_pending_update buyer (pd_product_id pd) None c else Inr ()) (\<lambda>_.
     and_then (subscription_for_recurring_lock sha e buyer pd pid existing c) (\<lambda>(c1, sub, sid, is_new_index).
     let now = subscription_now e in
     and_then (validate_subscription_target_amount pr locked) (\<lambda>_.
     and_then (if is_new_index then Inr ()
         else and_then (require (pid = sb_price_id sub) ''price_id must match current subscription tier'') (\<lambda>_.
              case st_locks c1 (sb_last_lock_id sub) of
                None \<Rightarrow> Inr ()
              | Some prev \<Rightarrow> require (locked = lo_amount_near prev) ''Locked NEAR must match current subscription stake amount'')) (\<lambda>_.
     and_then (require (now < sb_end_ns sub) ''Subscription billing period has already ended'') (\<lambda>_.
     let duration_ns = saturating_sub (sb_end_ns sub) now in
     and_then (require (0 < duration_ns) ''Lock duration must be positive'') (\<lambda>_.
     and_then (check_near_recurring_price_lock pr locked) (\<lambda>_.
     commit_catalog_lock sha e buyer locked duration_ns (SubscriptionOrder sid pid (sb_start_ns sub) (sb_end_ns sub)) p
       (Some (sub, sid, is_new_index)) c1))))))))))))"

definition resolve_lock ::
  "hash_fun \<Rightarrow> env \<Rightarrow> account_id \<Rightarrow> nat \<Rightarrow> nat \<Rightarrow> order_ref \<Rightarrow> validator_id \<Rightarrow> staking \<Rightarrow> (staking \<times> lock_id) res" where
  "resolve_lock sha e buyer locked duration_ns order p c =
     and_then (assert_no_deposit e ''resolve_lock'') (\<lambda>_.
     and_then (assert_private e ''resolve_lock'') (\<lambda>_.
     and_then (commit_catalog_lock sha e buyer locked duration_ns order p None c) (\<lambda>(c1, i).
     and_then (require_validator_busy p ''Validator pool must be busy after per-epoch settlement'' c1) (\<lambda>_. Inr (c1, i)))))"

definition resolve_recurring_subscription_lock_after_settle ::
  "hash_fun \<Rightarrow> env \<Rightarrow> account_id \<Rightarrow> nat \<Rightarrow> price_id \<Rightarrow> validator_id \<Rightarrow> staking \<Rightarrow> (staking \<times> lock_id) res" where
  "resolve_recurring_subscription_lock_after_settle sha e buyer locked pid p c =
     and_then (assert_no_deposit e ''resolve_recurring_subscription_lock_after_settle'') (\<lambda>_.
     and_then (assert_private e ''resolve_recurring_subscription_lock_after_settle'') (\<lambda>_.
     and_then (require_validator_busy p ''Validator pool must be busy after per-epoch settlement'' c) (\<lambda>_.
     commit_recurring_subscription_lock_after_settle sha e buyer locked pid p c)))"

section \<open>Unlocking (\<open>unlock.rs\<close>)\<close>

definition require_lock_owned_by :: "lock_id \<Rightarrow> account_id \<Rightarrow> string \<Rightarrow> string \<Rightarrow> staking \<Rightarrow> stake_lock res" where
  "require_lock_owned_by i owner not_found_msg owner_mismatch_msg c =
     and_then (require_lock i not_found_msg c) (\<lambda>l.
     and_then (require (lo_account_id l = owner) owner_mismatch_msg) (\<lambda>_. Inr l))"

definition assert_subscription_lock_can_unlock :: "env \<Rightarrow> stake_lock \<Rightarrow> staking \<Rightarrow> unit res" where
  "assert_subscription_lock_can_unlock e l c =
     (case lo_order l of
        ProductPurchase _ _ \<Rightarrow> Inr ()
      | SubscriptionOrder sid _ _ _ \<Rightarrow>
          (case st_subscriptions c sid of
             None \<Rightarrow> Inr ()
           | Some sub \<Rightarrow>
               if sb_status sub \<noteq> Subscription_Active \<or> sb_cancel_at_period_end sub then Inr ()
               else and_then (project_subscription_view_now e sub c) (\<lambda>projected.
                    require (sb_end_ns projected \<le> subscription_now e)
                      ''Active subscription lock cannot be unlocked; cancel the subscription first'')))"

definition st_unlock :: "env \<Rightarrow> lock_id \<Rightarrow> staking \<Rightarrow> staking res" where
  "st_unlock e i c =
     and_then (require_enough_gas_for_epoch_settlement e) (\<lambda>_.
     and_then (assert_one_yocto e) (\<lambda>_.
     and_then (st_assert_not_paused c) (\<lambda>_.
     and_then (require_lock_owned_by i (predecessor e) ''Lock not found; check the lock id'' ''Only the lock owner can unlock'' c) (\<lambda>l.
     and_then (require (lo_status l = Lock_Active) ''Lock is not active'') (\<lambda>_.
     and_then (assert_subscription_lock_can_unlock e l c) (\<lambda>_.
     and_then (require (lo_end_ns l \<le> block_timestamp e) ''Lock period has not ended yet'') (\<lambda>_.
     and_then (require_validator_idle (lo_validator_id l) c) (\<lambda>_.
     promise_validator_per_epoch_settlement_then e (lo_validator_id l)
       (UnlockQueueUnstake (lo_validator_id l) i (lo_account_id l) (lo_shares l)) c))))))))"

definition resolve_unlock :: "env \<Rightarrow> lock_id \<Rightarrow> account_id \<Rightarrow> validator_id \<Rightarrow> nat \<Rightarrow> staking \<Rightarrow> staking res" where
  "resolve_unlock e i x p shares_remove c =
     and_then (assert_no_deposit e ''resolve_unlock'') (\<lambda>_.
     and_then (assert_private e ''resolve_unlock'') (\<lambda>_.
     and_then (require_validator_busy p ''Validator pool must be busy after per-epoch settlement'' c) (\<lambda>_.
     and_then (require_lock i ''Lock not found'' c) (\<lambda>l.
     and_then (require (lo_account_id l = x) ''Unlock no longer matches the lock owner; retry'') (\<lambda>_.
     and_then (require (lo_status l = Lock_Active) ''Lock is no longer active; nothing to unlock'') (\<lambda>_.
     and_then (require (lo_validator_id l = p) ''Lock validator mismatch'') (\<lambda>_.
     and_then (require (lo_shares l = shares_remove) ''Lock shares changed; retry'') (\<lambda>_.
     and_then (internal_unstake e x p shares_remove c) (\<lambda>(c1, _).
     let c2 = st_emit (St_Event ''unlock'' [i, lo_account_id l, lo_validator_id l] []) c1
     in Inr (internal_set_lock i (l\<lparr>lo_status := Lock_UnlockRequested\<rparr>) c2))))))))))"

section \<open>Views of locks\<close>

definition project_scheduled_stake_decrease_lock :: "stake_lock \<Rightarrow> nat \<Rightarrow> staking \<Rightarrow> stake_lock res" where
  "project_scheduled_stake_decrease_lock l target_amount c =
     (let surplus_target = saturating_sub (lo_amount_near l) target_amount in
      if surplus_target = 0 then Inr l
      else
        and_then (require_validator (lo_validator_id l) c) (\<lambda>v.
        and_then (surplus_shares l surplus_target v) (\<lambda>shares_remove.
        if shares_remove = 0 then Inr l
        else
          and_then (near_from_shares shares_remove (net_stake_yocto v) (va_total_shares v)) (\<lambda>near_amt.
          let l1 = l\<lparr>lo_shares := saturating_sub (lo_shares l) shares_remove,
                     lo_amount_near := saturating_sub (lo_amount_near l) near_amt\<rparr>
          in Inr (if lo_shares l1 = 0 then l1\<lparr>lo_status := Lock_UnlockRequested\<rparr> else l1)))))"

definition project_lock_view_now :: "env \<Rightarrow> stake_lock \<Rightarrow> staking \<Rightarrow> stake_lock res" where
  "project_lock_view_now e l c =
     (case lo_order l of
        ProductPurchase _ _ \<Rightarrow> Inr l
      | SubscriptionOrder sid _ _ _ \<Rightarrow>
          (case st_subscriptions c sid of
             None \<Rightarrow> Inr l
           | Some stored \<Rightarrow>
               if sb_last_lock_id stored \<noteq> lo_lock_id l \<or> sb_account_id stored \<noteq> lo_account_id l \<or> lo_status l \<noteq> Lock_Active then Inr l
               else if sb_status stored \<noteq> Subscription_Active \<or> sb_cancel_at_period_end stored then Inr l
               else case sb_pending_update stored of
                 None \<Rightarrow> Inr l
               | Some pending \<Rightarrow>
                   let now = subscription_now e in
                   if now < pu_apply_ns pending then Inr l
                   else
                     and_then (case pu_target_amount pending of
                         None \<Rightarrow> Inr l
                       | Some target_amount \<Rightarrow> project_scheduled_stake_decrease_lock l target_amount c) (\<lambda>l1.
                     if pu_target_amount pending \<noteq> None \<and> lo_status l1 \<noteq> Lock_Active then Inr l1
                     else
                       and_then (projected_subscription_window_from (sb_anchor_day stored) (pu_apply_ns pending) now) (\<lambda>(start, stop).
                       let l2 = l1\<lparr>lo_start_ns := start, lo_end_ns := stop\<rparr>;
                           effective_price_id = (case pu_target_price_id pending of None \<Rightarrow> sb_price_id stored | Some pid \<Rightarrow> pid)
                       in Inr (case lo_order l2 of
                           SubscriptionOrder sid' _ _ _ \<Rightarrow>
                             if sid' = sb_subscription_id stored
                             then l2\<lparr>lo_order := SubscriptionOrder sid' effective_price_id start stop\<rparr> else l2
                         | _ \<Rightarrow> l2)))))"

definition lock_view :: "env \<Rightarrow> stake_lock \<Rightarrow> bool option \<Rightarrow> staking \<Rightarrow> stake_lock res" where
  "lock_view e l effective c = (if effective = Some True then project_lock_view_now e l c else Inr l)"

definition get_lock :: "env \<Rightarrow> lock_id \<Rightarrow> bool option \<Rightarrow> staking \<Rightarrow> stake_lock option res" where
  "get_lock e i effective c =
     (case st_locks c i of None \<Rightarrow> Inr None | Some l \<Rightarrow> and_then (lock_view e l effective c) (\<lambda>w. Inr (Some w)))"

definition view_all :: "env \<Rightarrow> bool option \<Rightarrow> stake_lock list \<Rightarrow> staking \<Rightarrow> stake_lock list res" where
  "view_all e effective ls c = for_each (\<lambda>l out. and_then (lock_view e l effective c) (\<lambda>w. Inr (out @ [w]))) ls []"

definition get_locks :: "env \<Rightarrow> nat \<Rightarrow> nat \<Rightarrow> bool option \<Rightarrow> staking \<Rightarrow> stake_lock list res" where
  "get_locks e from limit effective c =
     view_all e effective (List.map_filter (st_locks c) (take limit (drop from (st_lock_ids c)))) c"

definition get_locks_for_account :: "env \<Rightarrow> account_id \<Rightarrow> nat \<Rightarrow> nat \<Rightarrow> bool option \<Rightarrow> staking \<Rightarrow> stake_lock list res" where
  "get_locks_for_account e x from limit effective c =
     (case st_locks_by_account c x of
        None \<Rightarrow> Inr []
      | Some ids \<Rightarrow> view_all e effective (collect_paginated from limit (length ids) (\<lambda>k. st_locks c (ids ! k))) c)"

section \<open>Upgrade (\<open>upgrade.rs\<close>)\<close>

text \<open>The new code reads the state as it is; only the owner may deploy it.\<close>

definition st_migrate_state :: "env \<Rightarrow> staking \<Rightarrow> staking res" where
  "st_migrate_state e c =
     and_then (assert_no_deposit e ''migrate_state'') (\<lambda>_.
     and_then (assert_private e ''migrate_state'') (\<lambda>_. Inr c))"

definition st_upgrade :: "env \<Rightarrow> staking \<Rightarrow> staking res" where
  "st_upgrade e c = and_then (st_assert_owner e c) (\<lambda>_. Inr (st_emit St_Deploy_And_Migrate c))"

end
