(* ===== verification/Staking_World.thy ===== *)
theory Staking_World
  imports Staking_Lock "HOL-Library.Multiset"
begin

text \<open>
  The staking contract in its environment: which methods a transaction may call, and the receipts that its promises leave
  under way. A receipt is delivered at any later time and in any order, with any answer of the pool; between two receipts of a
  chain other calls may run. \<open>sw_cash\<close> is the NEAR of the account above what it had at the start.
\<close>

section \<open>Public methods\<close>

datatype st_call =
    Call_Pause
  | Call_Unpause
  | Call_Propose_Owner "account_id option"
  | Call_Accept_Ownership
  | Call_Set_Guardians "account_id list"
  | Call_Set_Per_Lock_Storage nat
  | Call_Set_Per_Farm_Storage nat
  | Call_Set_Per_Purchase_Storage nat
  | Call_Set_Lock_Bounds nat nat
  | Call_Set_Min_Lock_Amount nat
  | Call_Set_Min_Storage nat
  | Call_Set_Settle_Epochs nat
  | Call_Upgrade
  | Call_Storage_Deposit "account_id option" "bool option"
  | Call_Storage_Withdraw "nat option"
  | Call_Storage_Unregister "bool option"
  | Call_Add_Validator validator_id
  | Call_Pause_Validator validator_id
  | Call_Remove_Validator validator_id
  | Call_Add_Manager validator_id account_id
  | Call_Remove_Manager validator_id account_id
  | Call_Create_Product validator_id string string
  | Call_Edit_Product product_id string string
  | Call_Archive_Product product_id
  | Call_Delete_Product product_id
  | Call_Unarchive_Product product_id
  | Call_Set_Default_Price product_id "price_id option"
  | Call_Create_Price product_id string string nat price_type "billing_period option" nat "price_metadata option"
  | Call_Edit_Price price_id "string option" "string option" "price_metadata option"
  | Call_Archive_Price price_id
  | Call_Unarchive_Price price_id
  | Call_Delete_Price price_id
  | Call_Pay "price_id option" "product_id option" nat
  | Call_Withdraw_Revenue validator_id
  | Call_Epoch_Settle validator_id
  | Call_Withdraw validator_id
  | Call_Lock "price_id option" "product_id option" "nat option"
  | Call_Unlock lock_id
  | Call_Stake product_id "price_id option"
  | Call_Unstake product_id "nat option"
  | Call_Cancel subscription_id
  | Call_Resume subscription_id
  | Call_Update subscription_id price_id nat

definition state_of :: "(staking \<times> 'a) res \<Rightarrow> staking res" where
  "state_of r = and_then r (\<lambda>(c, _). Inr c)"

fun st_method :: "hash_fun \<Rightarrow> env \<Rightarrow> st_call \<Rightarrow> staking \<Rightarrow> staking res" where
  "st_method sha e Call_Pause c = st_pause e c"
| "st_method sha e Call_Unpause c = st_unpause e c"
| "st_method sha e (Call_Propose_Owner a) c = st_propose_new_owner_account_id e a c"
| "st_method sha e Call_Accept_Ownership c = st_accept_ownership e c"
| "st_method sha e (Call_Set_Guardians gs) c = st_set_guardians e gs c"
| "st_method sha e (Call_Set_Per_Lock_Storage n) c = set_per_lock_storage_stake e n c"
| "st_method sha e (Call_Set_Per_Farm_Storage n) c = set_per_farm_position_storage_stake e n c"
| "st_method sha e (Call_Set_Per_Purchase_Storage n) c = set_per_purchase_storage_stake e n c"
| "st_method sha e (Call_Set_Lock_Bounds lo hi) c = set_lock_bounds e lo hi c"
| "st_method sha e (Call_Set_Min_Lock_Amount n) c = set_min_lock_amount e n c"
| "st_method sha e (Call_Set_Min_Storage n) c = set_min_storage_deposit e n c"
| "st_method sha e (Call_Set_Settle_Epochs n) c = set_epoch_unstake_settle_epochs e n c"
| "st_method sha e Call_Upgrade c = st_upgrade e c"
| "st_method sha e (Call_Storage_Deposit a r) c = state_of (st_storage_deposit e a r c)"
| "st_method sha e (Call_Storage_Withdraw n) c = state_of (st_storage_withdraw e n c)"
| "st_method sha e (Call_Storage_Unregister f) c = state_of (st_storage_unregister e f c)"
| "st_method sha e (Call_Add_Validator p) c = add_validator e p c"
| "st_method sha e (Call_Pause_Validator p) c = pause_validator e p c"
| "st_method sha e (Call_Remove_Validator p) c = remove_validator e p c"
| "st_method sha e (Call_Add_Manager p a) c = add_validator_catalog_manager e p a c"
| "st_method sha e (Call_Remove_Manager p a) c = remove_validator_catalog_manager e p a c"
| "st_method sha e (Call_Create_Product p n d) c = create_product e p n d c"
| "st_method sha e (Call_Edit_Product i n d) c = edit_product e i n d c"
| "st_method sha e (Call_Archive_Product i) c = archive_product e i c"
| "st_method sha e (Call_Delete_Product i) c = delete_product e i c"
| "st_method sha e (Call_Unarchive_Product i) c = unarchive_product e i c"
| "st_method sha e (Call_Set_Default_Price i p) c = set_product_default_price e i p c"
| "st_method sha e (Call_Create_Price i n d a t b f m) c = create_price e i n d a t b f m c"
| "st_method sha e (Call_Edit_Price i n d m) c = edit_price e i n d m c"
| "st_method sha e (Call_Archive_Price i) c = archive_price e i c"
| "st_method sha e (Call_Unarchive_Price i) c = unarchive_price e i c"
| "st_method sha e (Call_Delete_Price i) c = delete_price e i c"
| "st_method sha e (Call_Pay p i q) c = state_of (pay sha e p i q c)"
| "st_method sha e (Call_Withdraw_Revenue p) c = withdraw_revenue e p c"
| "st_method sha e (Call_Epoch_Settle p) c = epoch_settle e p c"
| "st_method sha e (Call_Withdraw p) c = st_withdraw e p c"
| "st_method sha e (Call_Lock p i d) c = st_lock e p i d c"
| "st_method sha e (Call_Unlock i) c = st_unlock e i c"
| "st_method sha e (Call_Stake i p) c = st_stake e i p c"
| "st_method sha e (Call_Unstake i n) c = st_unstake e i n c"
| "st_method sha e (Call_Cancel s) c = cancel_subscription e s c"
| "st_method sha e (Call_Resume s) c = resume_subscription e s c"
| "st_method sha e (Call_Update s p n) c = update_subscription e s p n c"

section \<open>Callbacks\<close>

text \<open>The tail of each action (step 5 of the pipeline).\<close>

fun tail_method :: "hash_fun \<Rightarrow> env \<Rightarrow> user_action \<Rightarrow> staking \<Rightarrow> staking res" where
  "tail_method sha e (CommitLock p x n d ord) c = state_of (resolve_lock sha e x n d ord p c)"
| "tail_method sha e (CommitRecurringSubscriptionLock p x n i) c =
     state_of (resolve_recurring_subscription_lock_after_settle sha e x n i p c)"
| "tail_method sha e (SubscriptionUpdate p x n i a s) c = state_of (on_subscription_update_after_settle e x n i a s p c)"
| "tail_method sha e (CommitFarmStake p x n i j) c = state_of (resolve_farm_stake e x n i j p c)"
| "tail_method sha e (FarmUnstakeQueue p x i n) c = resolve_farm_unstake e x i p n c"
| "tail_method sha e (UnlockQueueUnstake p i x s) c = resolve_unlock e i x p s c"
| "tail_method sha e (WithdrawUserTransfer p x) c = on_withdraw_user_transfer_after_settle e x p c"
| "tail_method sha e (SettleOnly p) c = Inr c"

fun owner_method :: "hash_fun \<Rightarrow> env \<Rightarrow> account_id option \<Rightarrow> owner_callback \<Rightarrow> account_id \<Rightarrow> staking \<Rightarrow> staking res" where
  "owner_method sha e r (AddCatalogManager p m) x c = add_validator_catalog_manager_after_get_owner e r p m x c"
| "owner_method sha e r (RemoveCatalogManager p m) x c = remove_validator_catalog_manager_after_get_owner e r p m x c"
| "owner_method sha e r (CreateProduct p n d) x c = state_of (create_product_after_get_owner sha e r p n d x c)"
| "owner_method sha e r (EditProduct i n d) x c = edit_product_after_get_owner e r i n d x c"
| "owner_method sha e r (ArchiveProduct i) x c = archive_product_after_get_owner e r i x c"
| "owner_method sha e r (DeleteProduct i) x c = delete_product_after_get_owner e r i x c"
| "owner_method sha e r (UnarchiveProduct i) x c = unarchive_product_after_get_owner e r i x c"
| "owner_method sha e r (SetProductDefaultPrice i p) x c = set_product_default_price_after_get_owner e r i p x c"
| "owner_method sha e r (CreatePrice i n d a t b f m) x c = state_of (create_price_after_get_owner sha e r i n d a t b f m x c)"
| "owner_method sha e r (EditPrice i n d m) x c = edit_price_after_get_owner e r i n d m x c"
| "owner_method sha e r (ArchivePrice i) x c = archive_price_after_get_owner e r i x c"
| "owner_method sha e r (DeletePrice i) x c = delete_price_after_get_owner e r i x c"
| "owner_method sha e r (UnarchivePrice i) x c = unarchive_price_after_get_owner e r i x c"
| "owner_method sha e r (WithdrawRevenue p) x c = withdraw_revenue_after_get_owner e r p x c"

section \<open>Receipts under way\<close>

text \<open>
  \<open>Await_\<dots>\<close> is a call to the pool that has not run yet, \<open>\<dots>_Done\<close> a callback with the pool's answer, and the others
  are callbacks of the contract to itself.
\<close>

datatype receipt =
    Await_Account validator_id user_action
  | Await_Withdraw validator_id nat user_action
  | Withdraw_Done validator_id nat bool user_action
  | After_Withdraw validator_id "bool option" user_action
  | Await_Stake validator_id nat user_action
  | Stake_Done validator_id nat bool user_action
  | Await_Unstake validator_id nat user_action
  | Unstake_Done validator_id nat bool user_action
  | Dispatch validator_id user_action
  | Tail validator_id user_action
  | Release validator_id bool user_action
  | Terminal validator_id
  | Await_Owner validator_id account_id owner_callback

datatype answer = Ans_Account "pool_account_view option" | Ans_Ok bool | Ans_Owner "account_id option" | Ans_None

fun spawn :: "staking_effect \<Rightarrow> receipt list" where
  "spawn (St_Get_Account p cont) = [Await_Account p cont]"
| "spawn (St_Pool_Withdraw p n cont) = [Await_Withdraw p n cont]"
| "spawn (St_Pool_Stake p n cont) = [Await_Stake p n cont]"
| "spawn (St_Pool_Unstake p n cont) = [Await_Unstake p n cont]"
| "spawn (St_Tail cont) = [Tail (action_validator_id cont) cont]"
| "spawn (St_Release p) = [Terminal p]"
| "spawn (St_Get_Owner p x cb) = [Await_Owner p x cb]"
| "spawn _ = []"

fun outflow :: "staking_effect \<Rightarrow> nat" where
  "outflow (St_Transfer _ n) = n"
| "outflow (St_Pool_Stake _ n _) = n"
| "outflow _ = 0"

definition keep :: "staking res \<Rightarrow> staking \<Rightarrow> staking" where
  "keep r c = (case r of Inl _ \<Rightarrow> c | Inr c' \<Rightarrow> c')"

text \<open>
  The state after a receipt, the receipts that follow in its chain, and the NEAR that arrives with it. A pool pays what is
  withdrawn, and a failed deposit returns. A callback that panics changes nothing; the chain goes on.
\<close>

fun deliver :: "hash_fun \<Rightarrow> env \<Rightarrow> answer \<Rightarrow> receipt \<Rightarrow> staking \<Rightarrow> (staking \<times> receipt list \<times> nat) option" where
  "deliver sha e (Ans_Account r) (Await_Account p cont) c = Some (keep (on_epoch_settlement_after_pool_account e r p cont c) c, [], 0)"
| "deliver sha e (Ans_Ok b) (Await_Withdraw p n cont) c = Some (c, [Withdraw_Done p n b cont], if b then n else 0)"
| "deliver sha e Ans_None (Withdraw_Done p n b cont) c =
     (case on_epoch_withdraw_transfer_done e b p n c of
        Inl _ \<Rightarrow> Some (c, [After_Withdraw p None cont], 0)
      | Inr (c', r) \<Rightarrow> Some (c', [After_Withdraw p (Some r) cont], 0))"
| "deliver sha e Ans_None (After_Withdraw p r cont) c = Some (keep (on_after_pool_withdraw_maybe_settle e r p cont c) c, [], 0)"
| "deliver sha e (Ans_Ok b) (Await_Stake p n cont) c = Some (c, [Stake_Done p n b cont], if b then 0 else n)"
| "deliver sha e Ans_None (Stake_Done p n b cont) c = Some (keep (state_of (on_deposit_and_stake e b p c)) c, [Dispatch p cont], 0)"
| "deliver sha e (Ans_Ok b) (Await_Unstake p n cont) c = Some (c, [Unstake_Done p n b cont], 0)"
| "deliver sha e Ans_None (Unstake_Done p n b cont) c = Some (keep (state_of (on_unstake e b p c)) c, [Dispatch p cont], 0)"
| "deliver sha e Ans_None (Dispatch p cont) c = Some (keep (on_epoch_settlement_dispatch_continue e cont c) c, [], 0)"
| "deliver sha e Ans_None (Tail p cont) c =
     (case tail_method sha e cont c of
        Inl _ \<Rightarrow> Some (c, [Release p False cont], 0)
      | Inr c' \<Rightarrow> Some (c', [Release p True cont], 0))"
| "deliver sha e Ans_None (Release p b cont) c = Some (keep (release_of cont e b p cont c) c, [], 0)"
| "deliver sha e Ans_None (Terminal p) c = Some (keep (on_epoch_pipeline_terminal_release e p c) c, [], 0)"
| "deliver sha e (Ans_Owner r) (Await_Owner p x cb) c = Some (keep (owner_method sha e r cb x c) c, [], 0)"
| "deliver sha e _ _ c = None"

section \<open>The world\<close>

record st_world =
  sw_contract :: staking
  sw_cash :: int
  sw_receipts :: "receipt multiset"
  sw_epoch :: nat

definition new_effects :: "staking \<Rightarrow> staking \<Rightarrow> staking_effect list" where
  "new_effects c c' = drop (length (st_outbox c)) (st_outbox c')"

text \<open>The contract becomes \<open>c'\<close>, \<open>gained\<close> NEAR arrives, and what the call sent leaves the account.\<close>

definition absorb :: "staking \<Rightarrow> nat \<Rightarrow> receipt list \<Rightarrow> st_world \<Rightarrow> st_world" where
  "absorb c' gained rs w =
     (let es = new_effects (sw_contract w) c'
      in w\<lparr>sw_contract := c', sw_cash := sw_cash w + int gained - int (sum_list (map outflow es)),
           sw_receipts := sw_receipts w + mset rs + mset (concat (map spawn es))\<rparr>)"

text \<open>NEAR on its way to a pool that the pending queues still count.\<close>

fun sent :: "receipt \<Rightarrow> nat" where
  "sent (Await_Stake _ n _) = n"
| "sent (Stake_Done _ n b _) = (if b then n else 0)"
| "sent _ = 0"

definition sent_total :: "receipt multiset \<Rightarrow> nat" where
  "sent_total M = sum_mset (image_mset sent M)"

text \<open>
  Amounts are far below the width of their types: there are less than \<open>2 ^ 110\<close> yoctoNEAR. Only the queue of
  withdrawals and the number of shares are not bounded by the NEAR the account has seen, so they are assumed not to saturate.
\<close>

definition in_range :: "st_world \<Rightarrow> bool" where
  "in_range w \<longleftrightarrow> sw_cash w + int (sent_total (sw_receipts w)) < 2 ^ 127
     \<and> (\<forall>p v. st_validators (sw_contract w) p = Some v \<longrightarrow> va_pending_to_withdraw v < 2 ^ 128 - 1 \<and> va_total_shares v < 2 ^ 128 - 1)"

fun plausible_answer :: "answer \<Rightarrow> bool" where
  "plausible_answer (Ans_Account (Some a)) \<longleftrightarrow> pa_unstaked_balance a + pa_staked_balance a < 2 ^ 127"
| "plausible_answer _ \<longleftrightarrow> True"

inductive st_step :: "hash_fun \<Rightarrow> st_world \<Rightarrow> st_world \<Rightarrow> bool" for sha :: hash_fun where
  call: "epoch_height e = sw_epoch w \<Longrightarrow> st_method sha e m (sw_contract w) = Inr c'
     \<Longrightarrow> w' = absorb c' (attached_deposit e) [] w \<Longrightarrow> in_range w' \<Longrightarrow> st_step sha w w'"
| receipt: "epoch_height e = sw_epoch w \<Longrightarrow> predecessor e = current_account e \<Longrightarrow> attached_deposit e = 0
     \<Longrightarrow> r \<in># sw_receipts w \<Longrightarrow> plausible_answer a \<Longrightarrow> deliver sha e a r (sw_contract w) = Some (c', rs, gained)
     \<Longrightarrow> w' = absorb c' gained rs (w\<lparr>sw_receipts := sw_receipts w - {#r#}\<rparr>) \<Longrightarrow> in_range w' \<Longrightarrow> st_step sha w w'"
| income: "w' = w\<lparr>sw_cash := sw_cash w + int n\<rparr> \<Longrightarrow> in_range w' \<Longrightarrow> st_step sha w w'"
| epoch: "sw_epoch w < n \<Longrightarrow> st_step sha w (w\<lparr>sw_epoch := n\<rparr>)"

definition st_initial :: "st_world \<Rightarrow> bool" where
  "st_initial w \<longleftrightarrow> (\<exists>e config. staking_new e config = Inr (sw_contract w)) \<and> sw_cash w = 0 \<and> sw_receipts w = {#}"

end
