(* ===== verification/Staking_Frame.thy ===== *)
theory Staking_Frame
  imports Staking_World
begin

text \<open>
  What the operations of the staking contract change. \<open>fin c p\<close> is the financial part of the pool \<open>p\<close>; \<open>quiet c c'\<close> says that the
  books are the same and nothing was sent but events and questions for the owner of a pool. The tail of an action is a
  sequence of quiet changes, share mints and share burns (\<open>flow\<close>).
\<close>

section \<open>Results\<close>

text \<open>\<open>keeps P r\<close>: the call panics or its result satisfies \<open>P\<close>.\<close>

definition keeps :: "('a \<Rightarrow> bool) \<Rightarrow> 'a res \<Rightarrow> bool" where
  "keeps P r \<longleftrightarrow> (\<forall>x. r = Inr x \<longrightarrow> P x)"

named_theorems keeps_simps "how keeps goes through the syntax of a method"

lemma keeps_and_then [keeps_simps]: "keeps P (and_then m f) \<longleftrightarrow> (\<forall>x. m = Inr x \<longrightarrow> keeps P (f x))"
  by (cases m) (simp_all add: keeps_def)

lemma keeps_Inr [keeps_simps]: "keeps P (Inr x) \<longleftrightarrow> P x"
  by (simp add: keeps_def)

lemma keeps_Inl [keeps_simps]: "keeps P (Inl e)"
  by (simp add: keeps_def)

lemma keeps_if [keeps_simps]: "keeps P (if b then r else s) \<longleftrightarrow> (b \<longrightarrow> keeps P r) \<and> (\<not> b \<longrightarrow> keeps P s)"
  by simp

lemma keeps_option [keeps_simps]:
  "keeps P (case x of None \<Rightarrow> r | Some y \<Rightarrow> f y) \<longleftrightarrow> (x = None \<longrightarrow> keeps P r) \<and> (\<forall>y. x = Some y \<longrightarrow> keeps P (f y))"
  by (cases x) simp_all

lemma keeps_prod [keeps_simps]: "keeps P (case x of (a, b) \<Rightarrow> f a b) \<longleftrightarrow> (\<forall>a b. x = (a, b) \<longrightarrow> keeps P (f a b))"
  by (cases x) simp

lemma keeps_expect [keeps_simps]: "keeps P (expect x msg) \<longleftrightarrow> (\<forall>y. x = Some y \<longrightarrow> P y)"
  by (cases x) (simp_all add: keeps_def)

lemma keepsD: "keeps P r \<Longrightarrow> r = Inr x \<Longrightarrow> P x"
  by (simp add: keeps_def)

lemma keepsI: "(\<And>x. r = Inr x \<Longrightarrow> P x) \<Longrightarrow> keeps P r"
  by (simp add: keeps_def)

lemma state_of_Inr [res_simps]: "state_of r = Inr c \<longleftrightarrow> (\<exists>x. r = Inr (c, x))"
  by (cases r) (auto simp: state_of_def)

lemma keeps_state_of [keeps_simps]: "keeps P (state_of r) \<longleftrightarrow> keeps (\<lambda>(c, _). P c) r"
  by (cases r) (auto simp: state_of_def keeps_def)

section \<open>The books\<close>

definition idle_pool :: validator where
  "idle_pool = \<lparr>va_validator_id = [], va_catalog_manager_account_ids = [], va_status = Validator_Active, va_total_shares = 0,
     va_total_staked_balance = 0, va_last_balance_refresh_ns = 0, va_pending_to_stake = 0, va_pending_to_unstake = 0,
     va_last_unstake_epoch = 0, va_last_settlement_epoch = 0, va_pending_to_withdraw = 0, va_pending_to_claim = 0,
     va_tx_status = Tx_Idle\<rparr>"

definition financial :: "validator \<Rightarrow> validator" where
  "financial v = v\<lparr>va_validator_id := [], va_catalog_manager_account_ids := [], va_status := Validator_Active,
     va_last_balance_refresh_ns := 0\<rparr>"

definition fin :: "staking \<Rightarrow> validator_id \<Rightarrow> validator" where
  "fin c p = (case st_validators c p of None \<Rightarrow> idle_pool | Some v \<Rightarrow> financial v)"

lemma financial_simps [simp]:
  "va_total_shares (financial v) = va_total_shares v"
  "va_total_staked_balance (financial v) = va_total_staked_balance v"
  "va_pending_to_stake (financial v) = va_pending_to_stake v"
  "va_pending_to_unstake (financial v) = va_pending_to_unstake v"
  "va_last_unstake_epoch (financial v) = va_last_unstake_epoch v"
  "va_last_settlement_epoch (financial v) = va_last_settlement_epoch v"
  "va_pending_to_withdraw (financial v) = va_pending_to_withdraw v"
  "va_pending_to_claim (financial v) = va_pending_to_claim v"
  "va_tx_status (financial v) = va_tx_status v"
  "net_stake_yocto (financial v) = net_stake_yocto v"
  by (simp_all add: financial_def net_stake_yocto_def gross_stake_yocto_def pending_not_in_contract_yocto_def)

lemma fin_Some: "st_validators c p = Some v \<Longrightarrow> fin c p = financial v"
  by (simp add: fin_def)

fun harmless :: "staking_effect \<Rightarrow> bool" where
  "harmless (St_Event _ _ _) \<longleftrightarrow> True"
| "harmless (St_Log _) \<longleftrightarrow> True"
| "harmless (St_Get_Owner _ _ _) \<longleftrightarrow> True"
| "harmless St_Deploy_And_Migrate \<longleftrightarrow> True"
| "harmless _ \<longleftrightarrow> False"

text \<open>\<open>emits c es c'\<close>: between \<open>c\<close> and \<open>c'\<close> the effects \<open>es\<close> were emitted, up to harmless ones.\<close>

definition emits :: "staking \<Rightarrow> staking_effect list \<Rightarrow> staking \<Rightarrow> bool" where
  "emits c es c' \<longleftrightarrow> (\<exists>xs. st_outbox c' = st_outbox c @ xs \<and> filter (\<lambda>x. \<not> harmless x) xs = es)"

definition quiet :: "staking \<Rightarrow> staking \<Rightarrow> bool" where
  "quiet c c' \<longleftrightarrow> fin c' = fin c \<and> st_user_validator_shares c' = st_user_validator_shares c
     \<and> st_user_pending_unstake c' = st_user_pending_unstake c \<and> st_accounts c' = st_accounts c
     \<and> st_revenue_by_validator c' = st_revenue_by_validator c \<and> dom (st_validators c) \<subseteq> dom (st_validators c')
     \<and> (finite (dom (st_validators c)) \<longrightarrow> finite (dom (st_validators c'))) \<and> emits c [] c'"

lemma emits_refl: "st_outbox c' = st_outbox c \<Longrightarrow> emits c [] c'"
  by (simp add: emits_def)

lemma emits_trans: "emits a xs b \<Longrightarrow> emits b ys c \<Longrightarrow> emits a (xs @ ys) c"
  unfolding emits_def by auto

lemma quiet_refl [simp]: "quiet c c"
  by (simp add: quiet_def emits_refl)

lemma quiet_trans: "quiet a b \<Longrightarrow> quiet b c \<Longrightarrow> quiet a c"
  unfolding quiet_def using emits_trans [of a "[]" b "[]" c] by auto

lemma quiet_of_fields:
  "st_validators c' = st_validators c \<Longrightarrow> st_user_validator_shares c' = st_user_validator_shares c
   \<Longrightarrow> st_user_pending_unstake c' = st_user_pending_unstake c \<Longrightarrow> st_accounts c' = st_accounts c
   \<Longrightarrow> st_revenue_by_validator c' = st_revenue_by_validator c \<Longrightarrow> emits c [] c' \<Longrightarrow> quiet c c'"
  by (simp add: quiet_def fin_def [abs_def])

lemma emits_emit_harmless: "harmless x \<Longrightarrow> emits a es b \<Longrightarrow> emits a es (st_emit x b)"
  unfolding emits_def st_emit_def by auto

lemma emits_emit: "\<not> harmless x \<Longrightarrow> emits a es b \<Longrightarrow> emits a (es @ [x]) (st_emit x b)"
  unfolding emits_def st_emit_def by auto

lemma quiet_emit: "harmless x \<Longrightarrow> quiet c d \<Longrightarrow> quiet c (st_emit x d)"
  unfolding quiet_def using emits_emit_harmless by (auto simp: fin_def st_emit_def fun_eq_iff)

text \<open>Setters of everything but the books.\<close>

lemma quiet_set [simp]:
  "quiet c (d\<lparr>st_config := x1\<rparr>) = quiet c d"
  "quiet c (d\<lparr>st_paused := x2\<rparr>) = quiet c d"
  "quiet c (d\<lparr>st_validator_ids := x3\<rparr>) = quiet c d"
  "quiet c (d\<lparr>st_product_ids := x4\<rparr>) = quiet c d"
  "quiet c (d\<lparr>st_products := x5\<rparr>) = quiet c d"
  "quiet c (d\<lparr>st_prices := x6\<rparr>) = quiet c d"
  "quiet c (d\<lparr>st_account_ids := x7\<rparr>) = quiet c d"
  "quiet c (d\<lparr>st_subscriptions := x8\<rparr>) = quiet c d"
  "quiet c (d\<lparr>st_locks := x9\<rparr>) = quiet c d"
  "quiet c (d\<lparr>st_lock_ids := x10\<rparr>) = quiet c d"
  "quiet c (d\<lparr>st_locks_by_account := x11\<rparr>) = quiet c d"
  "quiet c (d\<lparr>st_user_pending_unstake_validator_count := x12\<rparr>) = quiet c d"
  "quiet c (d\<lparr>st_user_lock_count := x13\<rparr>) = quiet c d"
  "quiet c (d\<lparr>st_purchases := x14\<rparr>) = quiet c d"
  "quiet c (d\<lparr>st_purchase_ids := x15\<rparr>) = quiet c d"
  "quiet c (d\<lparr>st_purchases_by_account := x16\<rparr>) = quiet c d"
  "quiet c (d\<lparr>st_purchases_by_product := x17\<rparr>) = quiet c d"
  "quiet c (d\<lparr>st_user_purchase_count := x18\<rparr>) = quiet c d"
  "quiet c (d\<lparr>st_farm_pools := x19\<rparr>) = quiet c d"
  "quiet c (d\<lparr>st_farm_positions := x20\<rparr>) = quiet c d"
  "quiet c (d\<lparr>st_farm_position_products_by_account := x21\<rparr>) = quiet c d"
  "quiet c (d\<lparr>st_user_farm_position_count := x22\<rparr>) = quiet c d"
  "quiet c (d\<lparr>st_farm_accounts := x23\<rparr>) = quiet c d"
  "quiet c (d\<lparr>st_subscription_by_account_product := x24\<rparr>) = quiet c d"
  "quiet c (d\<lparr>st_subscriptions_by_account := x25\<rparr>) = quiet c d"
  "quiet c (d\<lparr>st_subscriptions_by_product := x26\<rparr>) = quiet c d"
  "quiet c (d\<lparr>st_subscription_ids := x27\<rparr>) = quiet c d"
  "quiet c (d\<lparr>st_pending_update_target_price_counts := x28\<rparr>) = quiet c d"
  "quiet c (d\<lparr>st_pending_update_target_product_counts := x29\<rparr>) = quiet c d"
  "quiet c (d\<lparr>st_id_nonce := x30\<rparr>) = quiet c d"
  by (simp_all add: quiet_def fin_def emits_def fun_eq_iff)

lemma quiet_emit_simps [simp]:
  "quiet c d \<Longrightarrow> quiet c (st_emit (St_Event n ts ns) d)"
  "quiet c d \<Longrightarrow> quiet c (st_emit (St_Log t) d)"
  "quiet c d \<Longrightarrow> quiet c (st_emit (St_Get_Owner p x cb) d)"
  "quiet c d \<Longrightarrow> quiet c (st_emit St_Deploy_And_Migrate d)"
  by (simp_all add: quiet_emit)

lemma quiet_if [simp]: "quiet c (if b then x else y) \<longleftrightarrow> (if b then quiet c x else quiet c y)"
  by simp

lemma quiet_option [simp]:
  "quiet c (case x of None \<Rightarrow> a | Some y \<Rightarrow> f y) \<longleftrightarrow> (case x of None \<Rightarrow> quiet c a | Some y \<Rightarrow> quiet c (f y))"
  by (cases x) simp_all

lemma quiet_prod: "quiet c (case x of (a, b) \<Rightarrow> f a b) \<longleftrightarrow> (case x of (a, b) \<Rightarrow> quiet c (f a b))"
  by (cases x) simp

lemma quiet_setters [simp]:
  "quiet c (internal_set_product i pd d) = quiet c d"
  "quiet c (internal_set_price i pr d) = quiet c d"
  "quiet c (internal_set_farm_pool i fp d) = quiet c d"
  "quiet c (internal_set_farm_position po d) = quiet c d"
  "quiet c (internal_set_farm_account x fa d) = quiet c d"
  "quiet c (internal_set_lock i l d) = quiet c d"
  "quiet c (add_lock_to_indexes x i d) = quiet c d"
  "quiet c (add_purchase_to_account_index x i d) = quiet c d"
  "quiet c (add_purchase_to_product_index j i d) = quiet c d"
  "quiet c (remove_product_id_from_list j d) = quiet c d"
  "quiet c (add_farm_position_product_to_account x j d) = quiet c d"
  "quiet c (increment_active_farm_position_count e x d) = quiet c d"
  "quiet c (increment_farm_position_storage_count x d) = quiet c d"
  "quiet c (clear_product_default_price_field_if_matches j i d) = quiet c d"
  by (simp_all add: internal_set_product_def internal_set_price_def internal_set_farm_pool_def internal_set_farm_position_def
    internal_set_farm_account_def internal_set_lock_def add_lock_to_indexes_def add_purchase_to_account_index_def
    add_purchase_to_product_index_def remove_product_id_from_list_def add_farm_position_product_to_account_def
    increment_active_farm_position_count_def increment_farm_position_storage_count_def
    clear_product_default_price_field_if_matches_def Let_def split: option.splits)

lemma quiet_log [simp]: "quiet c d \<Longrightarrow> quiet c (log_epoch_operation a p d)"
  by (simp add: log_epoch_operation_def)

lemma quiet_subscription_setters [simp]:
  "quiet c (add_pending_update_target_refs sub d) = quiet c d"
  "quiet c (remove_pending_update_target_refs sub d) = quiet c d"
  "quiet c (add_subscription_to_product_index_for_product i sid d) = quiet c d"
  "quiet c (remove_subscription_from_product_index_for_product i sid d) = quiet c d"
  by (simp_all add: add_pending_update_target_refs_def remove_pending_update_target_refs_def
    add_subscription_to_product_index_for_product_def remove_subscription_from_product_index_for_product_def Let_def
    split: option.splits)

lemma quiet_subscription_indexes [simp]:
  "quiet c (internal_set_subscription i sub d) = quiet c d"
  "quiet c (internal_remove_subscription i d) = quiet c d"
  "quiet c (add_subscription_to_product_index x i d) = quiet c d"
  "quiet c (remove_subscription_from_product_index i d) = quiet c d"
  by (auto simp: internal_set_subscription_def internal_remove_subscription_def add_subscription_to_product_index_def
    remove_subscription_from_product_index_def Let_def split: option.splits)

lemma quiet_subscription_ops [simp]:
  "quiet c (add_subscription_to_indexes x i b d) = quiet c d"
  "quiet c (remove_subscription_from_indexes x i b d) = quiet c d"
  "quiet c (sync_subscription_lock_window sub d) = quiet c d"
  by (auto simp: add_subscription_to_indexes_def remove_subscription_from_indexes_def sync_subscription_lock_window_def
    Let_def split: option.splits)

text \<open>Changes of the administrative part of a pool.\<close>

lemma quiet_admin:
  assumes "st_validators d p = Some v" and "financial v' = financial v" and "quiet c d"
  shows "quiet c (internal_set_validator p v' d)"
proof -
  have "fin (internal_set_validator p v' d) = fin d"
    using assms(1,2) by (auto simp: fin_def internal_set_validator_def fun_eq_iff)
  then show ?thesis using assms(3) unfolding quiet_def emits_def by (auto simp: internal_set_validator_def)
qed

section \<open>Methods that leave the books alone\<close>

lemma move_subscription_product_index_quiet:
  "move_subscription_product_index buyer sid i j d = Inr d' \<Longrightarrow> quiet c d' = quiet c d"
  by (auto simp: move_subscription_product_index_def res_simps Let_def split: if_splits option.splits)

lemmas governance_defs = st_pause_def st_unpause_def st_propose_new_owner_account_id_def st_accept_ownership_def st_set_guardians_def
  set_per_lock_storage_stake_def set_per_farm_position_storage_stake_def set_per_purchase_storage_stake_def set_lock_bounds_def
  set_min_lock_amount_def set_min_storage_deposit_def set_epoch_unstake_settle_epochs_def st_configure_def st_upgrade_def

lemma governance_quiet:
  "keeps (quiet c) (st_pause e c)" "keeps (quiet c) (st_unpause e c)" "keeps (quiet c) (st_propose_new_owner_account_id e a c)"
  "keeps (quiet c) (st_accept_ownership e c)" "keeps (quiet c) (st_set_guardians e gs c)"
  "keeps (quiet c) (set_per_lock_storage_stake e n c)" "keeps (quiet c) (set_per_farm_position_storage_stake e n c)"
  "keeps (quiet c) (set_per_purchase_storage_stake e n c)" "keeps (quiet c) (set_lock_bounds e lo hi c)"
  "keeps (quiet c) (set_min_lock_amount e n c)" "keeps (quiet c) (set_min_storage_deposit e n c)"
  "keeps (quiet c) (set_epoch_unstake_settle_epochs e n c)" "keeps (quiet c) (st_upgrade e c)"
  by (simp_all add: governance_defs keeps_simps)

lemmas catalogue_call_defs = add_validator_catalog_manager_def remove_validator_catalog_manager_def create_product_def
  edit_product_def archive_product_def delete_product_def unarchive_product_def set_product_default_price_def create_price_def
  edit_price_def archive_price_def unarchive_price_def delete_price_def promise_catalog_admin_on_pool_def
  promise_catalog_admin_on_product_def promise_catalog_admin_on_price_def withdraw_revenue_def

lemma catalogue_call_quiet:
  "keeps (quiet c) (add_validator_catalog_manager e p a c)" "keeps (quiet c) (remove_validator_catalog_manager e p a c)"
  "keeps (quiet c) (create_product e p n d c)" "keeps (quiet c) (edit_product e i n d c)" "keeps (quiet c) (archive_product e i c)"
  "keeps (quiet c) (delete_product e i c)" "keeps (quiet c) (unarchive_product e i c)"
  "keeps (quiet c) (set_product_default_price e i q c)" "keeps (quiet c) (create_price e i n d am t b f m c)"
  "keeps (quiet c) (edit_price e i n1 d1 m1 c)" "keeps (quiet c) (archive_price e i c)" "keeps (quiet c) (unarchive_price e i c)"
  "keeps (quiet c) (delete_price e i c)" "keeps (quiet c) (withdraw_revenue e p c)"
  by (simp_all add: catalogue_call_defs keeps_simps)

lemma require_validator_Inr [res_simps]: "require_validator p c = Inr v \<longleftrightarrow> st_validators c p = Some v"
  by (simp add: require_validator_def res_simps)

lemma validator_admin_quiet:
  "keeps (quiet c) (pause_validator e p c)" "keeps (quiet c) (remove_validator e p c)"
  "keeps (quiet c) (add_validator_catalog_manager_after_get_owner e r p m x c)"
  "keeps (quiet c) (remove_validator_catalog_manager_after_get_owner e r p m x c)"
  by (simp_all add: pause_validator_def remove_validator_def add_validator_catalog_manager_after_get_owner_def
    remove_validator_catalog_manager_after_get_owner_def keeps_simps res_simps Let_def quiet_admin financial_def)

lemma add_validator_quiet: "keeps (quiet c) (add_validator e p c)"
proof (rule keepsI)
  fix c' assume a: "add_validator e p c = Inr c'"
  then have n: "st_validators c p = None" by (simp add: add_validator_def res_simps)
  show "quiet c c'" using a n
    by (auto simp: add_validator_def res_simps quiet_def fin_def internal_set_validator_def st_emit_def emits_def financial_def
      idle_pool_def fun_eq_iff Let_def)
qed

lemma settle_farm_pool_quiet: "settle_farm_pool e i d = Inr d' \<Longrightarrow> quiet c d' = quiet c d"
  by (auto simp: settle_farm_pool_def res_simps)

lemma settle_farm_position_quiet: "settle_farm_position e x i d = Inr (d', n) \<Longrightarrow> quiet c d' = quiet c d"
  by (auto simp: settle_farm_position_def res_simps Let_def settle_farm_pool_quiet)

lemma unique_id_quiet:
  "next_unique_product_id sha e d = Inr (d', i) \<Longrightarrow> quiet c d' = quiet c d"
  "next_unique_price_id sha e d = Inr (d', i) \<Longrightarrow> quiet c d' = quiet c d"
  "next_unique_purchase_id sha e d = Inr (d', i) \<Longrightarrow> quiet c d' = quiet c d"
  by (auto simp: next_unique_product_id_def next_unique_price_id_def next_unique_purchase_id_def res_simps)

lemmas product_callback_defs = create_product_after_get_owner_def edit_product_after_get_owner_def archive_product_after_get_owner_def
  delete_product_after_get_owner_def unarchive_product_after_get_owner_def set_product_default_price_after_get_owner_def

lemma product_callback_quiet:
  "keeps (quiet c) (state_of (create_product_after_get_owner sha e r p n d x c))"
  "keeps (quiet c) (edit_product_after_get_owner e r i n d x c)"
  "keeps (quiet c) (archive_product_after_get_owner e r i x c)"
  "keeps (quiet c) (delete_product_after_get_owner e r i x c)"
  "keeps (quiet c) (unarchive_product_after_get_owner e r i x c)"
  "keeps (quiet c) (set_product_default_price_after_get_owner e r i q x c)"
  by (simp_all add: product_callback_defs keeps_simps Let_def unique_id_quiet)

lemma price_callback_quiet:
  "keeps (quiet c) (archive_price_after_get_owner e r i x c)"
  "keeps (quiet c) (delete_price_after_get_owner e r i x c)"
  "keeps (quiet c) (unarchive_price_after_get_owner e r i x c)"
  by (auto simp: archive_price_after_get_owner_def delete_price_after_get_owner_def unarchive_price_after_get_owner_def
    keeps_simps Let_def res_simps split: if_splits option.splits)

lemma create_price_quiet:
  "keeps (quiet c) (state_of (create_price_after_get_owner sha e r i n d am t b f m x c))"
  by (auto simp: create_price_after_get_owner_def keeps_simps Let_def res_simps unique_id_quiet split: if_splits)

lemma edit_price_quiet:
  "keeps (quiet c) (edit_price_after_get_owner e r i n d m x c)"
  by (auto simp: edit_price_after_get_owner_def keeps_simps Let_def res_simps settle_farm_pool_quiet
    split: if_splits option.splits price_type.splits)

lemma subscription_quiet:
  "keeps (quiet c) (cancel_subscription e sid c)" "keeps (quiet c) (resume_subscription e sid c)"
  by (auto simp: cancel_subscription_def resume_subscription_def keeps_simps Let_def res_simps move_subscription_product_index_quiet
    split: if_splits)

section \<open>Tails\<close>

text \<open>
  A tail of the pool \<open>p\<close> burns shares of \<open>p\<close>, or of a pool that has been settled in this epoch, and then may mint shares of \<open>p\<close>
  for the NEAR that the action carries.
\<close>

inductive burns :: "env \<Rightarrow> validator_id \<Rightarrow> staking \<Rightarrow> staking \<Rightarrow> bool" for e :: env and p :: validator_id where
  quiet: "quiet c c' \<Longrightarrow> burns e p c c'"
| unstake: "internal_unstake e x q s c = Inr (c', a) \<Longrightarrow> q = p \<or> epoch_height e \<le> va_last_settlement_epoch (fin c q) \<Longrightarrow> burns e p c c'"
| trans: "burns e p c c1 \<Longrightarrow> burns e p c1 c2 \<Longrightarrow> burns e p c c2"

inductive flow :: "env \<Rightarrow> validator_id \<Rightarrow> staking \<Rightarrow> nat \<Rightarrow> staking \<Rightarrow> bool" for e :: env and p :: validator_id where
  burnt: "burns e p c c' \<Longrightarrow> flow e p c 0 c'"
| minted: "burns e p c c1 \<Longrightarrow> internal_stake x p n c1 = Inr (c2, s) \<Longrightarrow> quiet c2 c' \<Longrightarrow> flow e p c n c'"

lemma burns_then_flow: "burns e p c c1 \<Longrightarrow> flow e p c1 n c2 \<Longrightarrow> flow e p c n c2"
  by (erule flow.cases) (auto intro: flow.intros burns.trans)

lemma quiet_then_flow: "quiet c c1 \<Longrightarrow> flow e p c1 n c2 \<Longrightarrow> flow e p c n c2"
  by (rule burns_then_flow [OF burns.quiet])

lemma burns_then_quiet: "burns e p c c1 \<Longrightarrow> quiet c1 c2 \<Longrightarrow> burns e p c c2"
  by (rule burns.trans [OF _ burns.quiet])

lemma stake_flow: "internal_stake x p n c = Inr (c1, s) \<Longrightarrow> quiet c1 c' \<Longrightarrow> flow e p c n c'"
  by (rule flow.minted [OF burns.quiet]) simp_all

lemma commit_catalog_lock_flow:
  "keeps (\<lambda>(c', _). flow e p c locked c') (commit_catalog_lock sha e buyer locked dur ord p fu c)"
proof -
  have f: "flow e p c locked c'" if "internal_stake buyer p locked c = Inr (c1, s)" "quiet c1 c'" for c1 s c'
    using that by (rule stake_flow)
  show ?thesis
  proof (cases fu)
    case None
    then show ?thesis by (auto simp: commit_catalog_lock_def keeps_simps Let_def intro!: f)
  next
    case (Some x)
    obtain sub sid b where x: "x = (sub, sid, b)" by (cases x)
    show ?thesis unfolding Some x by (auto simp: commit_catalog_lock_def keeps_simps Let_def intro!: f)
  qed
qed

lemma decrease_burns:
  assumes "apply_scheduled_stake_decrease_at_renewal e buyer sub n c = Inr c'"
    and "\<And>l. st_locks c (sb_last_lock_id sub) = Some l \<Longrightarrow> epoch_height e \<le> va_last_settlement_epoch (fin c (lo_validator_id l))"
  shows "burns e p c c'"
proof -
  consider "c' = c" | l s c1 a where "st_locks c (sb_last_lock_id sub) = Some l"
    "internal_unstake e buyer (lo_validator_id l) s c = Inr (c1, a)" "quiet c1 c'"
    using assms(1) unfolding apply_scheduled_stake_decrease_at_renewal_def
    by (auto simp: res_simps Let_def split: option.splits if_splits)
  then show ?thesis
  proof cases
    case 1
    then show ?thesis by (simp add: burns.quiet)
  next
    case (2 l s c1 a)
    then show ?thesis using assms(2) burns.unstake burns_then_quiet by blast
  qed
qed

lemma apply_due_burns:
  assumes "apply_due_subscription_update e sid c = Inr (c', b)"
  shows "burns e p c c'"
proof (cases "c' = c")
  case True
  then show ?thesis by (simp add: burns.quiet)
next
  case False
  from assms False obtain stored pending where s: "st_subscriptions c sid = Some stored" "sb_pending_update stored = Some pending"
    by (auto simp: apply_due_subscription_update_def split: option.splits if_splits)
  define dec where "dec = (case pu_target_amount pending of None \<Rightarrow> Inr c | Some n \<Rightarrow>
      and_then (case st_locks c (sb_last_lock_id stored) of None \<Rightarrow> Inr ()
        | Some l \<Rightarrow> and_then (require_validator (lo_validator_id l) c) (\<lambda>v. require (epoch_height e \<le> va_last_settlement_epoch v)
            ''Pending stake decrease requires validator settlement before apply'')) (\<lambda>_.
      apply_scheduled_stake_decrease_at_renewal e (sb_account_id stored) stored n c))"
  have "keeps (\<lambda>(c', _). c' = c \<or> (\<exists>c1. dec = Inr c1 \<and> quiet c1 c')) (apply_due_subscription_update e sid c)"
    using s unfolding apply_due_subscription_update_def
    by (simp add: dec_def [symmetric] keeps_simps Let_def quiet_prod move_subscription_product_index_quiet split: option.split)
  then obtain c1 where d: "dec = Inr c1" and q: "quiet c1 c'" using keepsD [OF _ assms] False by blast
  have "burns e p c c1"
  proof (cases "pu_target_amount pending")
    case None
    then show ?thesis using d by (simp add: dec_def burns.quiet)
  next
    case (Some n)
    then show ?thesis using d decrease_burns [of e "sb_account_id stored" stored n c c1 p]
      by (auto simp: dec_def res_simps fin_Some split: option.splits)
  qed
  then show ?thesis using q by (rule burns_then_quiet)
qed

lemma new_subscription_quiet:
  "new_subscription_for_lock sha e buyer pd pid t d = Inr (d', x) \<Longrightarrow> quiet c d' = quiet c d"
  by (auto simp: new_subscription_for_lock_def res_simps Let_def)

lemma recurring_subscription_burns:
  "keeps (\<lambda>(c', _). burns e p c c') (subscription_for_recurring_lock sha e buyer pd pid existing c)"
proof -
  have f: "burns e p c c'" if "apply_due_subscription_update e sid c = Inr (c1, b)" "quiet c1 c'" for sid c1 b c'
    using that apply_due_burns burns_then_quiet by blast
  show ?thesis
    by (auto simp: subscription_for_recurring_lock_def keeps_simps Let_def new_subscription_quiet burns.quiet intro: f split: option.split)
qed

lemma recurring_lock_flow:
  "keeps (\<lambda>(c', _). flow e p c locked c') (commit_recurring_subscription_lock_after_settle sha e buyer locked pid p c)"
proof -
  have f: "keeps (\<lambda>(c', _). flow e p c locked c') (commit_catalog_lock sha e buyer locked dur ord p fu c1)"
    if "subscription_for_recurring_lock sha e buyer pd pid ex c = Inr (c1, x)" for c1 x ord fu dur pd ex
  proof (rule keepsI, clarify)
    fix c' i assume "commit_catalog_lock sha e buyer locked dur ord p fu c1 = Inr (c', i)"
    then have "flow e p c1 locked c'" using keepsD [OF commit_catalog_lock_flow] by fastforce
    moreover have "burns e p c c1" using keepsD [OF recurring_subscription_burns that] by simp
    ultimately show "flow e p c locked c'" by (rule burns_then_flow [rotated])
  qed
  show ?thesis
    by (auto simp: commit_recurring_subscription_lock_after_settle_def keeps_simps Let_def intro: f)
qed

text \<open>A subscription update mints for the whole deposit, or for nothing when the deposit is one yoctoNEAR.\<close>

lemma subscription_update_flow:
  "keeps (\<lambda>(c', _). \<exists>n \<le> deposit. flow e p c n c')
     (commit_subscription_update_after_settle e buyer deposit pid amount sid p c)"
proof -
  have f: "flow e p c deposit c'" if "apply_due_subscription_update e sid c = Inr (c1, b)" "internal_stake buyer p deposit c1 = Inr (c2, s)" "quiet c2 c'"
    for c1 c2 b s c'
    using apply_due_burns [OF that(1)] that(2,3) by (rule flow.minted)
  have g: "flow e p c 0 c'" if "apply_due_subscription_update e sid c = Inr (c1, b)" "quiet c1 c'" for c1 b c'
    by (rule flow.burnt [OF burns_then_quiet [OF apply_due_burns [OF that(1)] that(2)]])
  have "keeps (\<lambda>(c', _). \<exists>c1 b. apply_due_subscription_update e sid c = Inr (c1, b)
       \<and> (quiet c1 c' \<or> (\<exists>c2 s. internal_stake buyer p deposit c1 = Inr (c2, s) \<and> quiet c2 c')))
     (commit_subscription_update_after_settle e buyer deposit pid amount sid p c)"
    unfolding commit_subscription_update_after_settle_def
    by (auto simp: keeps_simps Let_def res_simps move_subscription_product_index_quiet split: option.splits if_splits)
  then show ?thesis using f g by (fastforce simp: keeps_def)
qed

lemma farm_stake_flow: "keeps (\<lambda>(c', _). flow e p c deposit c') (commit_farm_stake e x deposit i pid p c)"
proof -
  have f: "flow e p c deposit c'" if "quiet c c1" "internal_stake x p deposit c1 = Inr (c2, s)" "quiet c2 c'" for c1 c2 s c'
    by (rule quiet_then_flow [OF that(1) stake_flow [OF that(2,3)]])
  define pre where "pre = (case st_farm_positions c (x, i) of
         Some existing \<Rightarrow> if fo_status existing = Farm_Active
           then and_then (settle_farm_position e x i c) (\<lambda>(c', _). Inr c')
           else settle_farm_pool e pid c
       | None \<Rightarrow> settle_farm_pool e pid c)"
  have q: "quiet c c1" if "pre = Inr c1" for c1
    using that by (auto simp: pre_def res_simps settle_farm_pool_quiet settle_farm_position_quiet split: option.splits if_splits)
  have "keeps (\<lambda>(c', _). \<exists>c1. pre = Inr c1 \<and> (\<exists>c2 s. internal_stake x p deposit c1 = Inr (c2, s) \<and> quiet c2 c'))
     (commit_farm_stake e x deposit i pid p c)"
    unfolding commit_farm_stake_def pre_def [symmetric]
    by (simp add: keeps_simps Let_def)
  then show ?thesis using f q by (fastforce simp: keeps_def)
qed

lemma farm_unstake_burns: "keeps (\<lambda>c'. burns e p c c') (commit_farm_unstake e x i p s c)"
proof -
  have f: "burns e p c c'" if "settle_farm_position e x i c = Inr (c1, n)" "internal_unstake e x p s c1 = Inr (c2, a)" "quiet c2 c'" for c1 c2 n a c'
  proof -
    have "quiet c c1" using settle_farm_position_quiet [OF that(1), of c] by simp
    moreover have "burns e p c1 c2" using that(2) by (rule burns.unstake) simp
    ultimately show ?thesis using that(3) burns.quiet burns.trans by blast
  qed
  show ?thesis unfolding commit_farm_unstake_def by (auto simp: keeps_simps Let_def intro: f)
qed

lemma resolve_unlock_burns: "keeps (\<lambda>c'. burns e p c c') (resolve_unlock e i x p s c)"
proof -
  have f: "burns e p c c'" if "internal_unstake e x p s c = Inr (c1, a)" "quiet c1 c'" for c1 a c'
    using burns.unstake [OF that(1)] that(2) burns_then_quiet by blast
  show ?thesis unfolding resolve_unlock_def by (auto simp: keeps_simps Let_def intro: f)
qed

section \<open>Changes of one pool\<close>

text \<open>\<open>pool_change c p v es c'\<close>: the books of the pool \<open>p\<close> become \<open>v\<close>, nothing else of the books changes, and \<open>es\<close> is sent.\<close>

definition pool_change :: "staking \<Rightarrow> validator_id \<Rightarrow> validator \<Rightarrow> staking_effect list \<Rightarrow> staking \<Rightarrow> bool" where
  "pool_change c p v es c' \<longleftrightarrow> fin c' = (fin c)(p := v) \<and> dom (st_validators c') = dom (st_validators c)
     \<and> st_user_validator_shares c' = st_user_validator_shares c \<and> st_user_pending_unstake c' = st_user_pending_unstake c
     \<and> st_accounts c' = st_accounts c \<and> st_revenue_by_validator c' = st_revenue_by_validator c \<and> emits c es c'"

lemma pool_change_refl: "pool_change c p (fin c p) [] c"
  by (simp add: pool_change_def emits_refl)

lemma pool_change_trans: "pool_change a p v xs b \<Longrightarrow> pool_change b p u ys c \<Longrightarrow> pool_change a p u (xs @ ys) c"
  unfolding pool_change_def using emits_trans by auto

lemma pool_change_set:
  assumes "st_validators d p = Some v" and "pool_change c p u es d"
  shows "pool_change c p (financial v') es (internal_set_validator p v' d)"
  using assms unfolding pool_change_def emits_def internal_set_validator_def
  by (auto simp: fin_def fun_eq_iff split: if_splits)

lemma pool_change_emit:
  "pool_change c p v es d \<Longrightarrow> pool_change c p v (if harmless x then es else es @ [x]) (st_emit x d)"
  unfolding pool_change_def using emits_emit emits_emit_harmless by (auto simp: fin_def st_emit_def fun_eq_iff)

lemma pool_change_log: "pool_change c p v es d \<Longrightarrow> pool_change c p v es (log_epoch_operation a q d)"
  using pool_change_emit [of c p v es d "St_Event a [a, q] []"] by (simp add: log_epoch_operation_def)

lemma fin_pool_change: "pool_change c p v es c' \<Longrightarrow> fin c' p = v"
  by (simp add: pool_change_def)

lemma internal_stake_books:
  assumes "internal_stake x p n c = Inr (c', s)"
  shows "fin c' = (fin c)(p := (fin c p)\<lparr>va_total_shares := saturating_add 128 (va_total_shares (fin c p)) s,
       va_pending_to_stake := va_pending_to_stake (fin c p) + n\<rparr>)"
    and "p \<in> dom (st_validators c)" and "dom (st_validators c') = dom (st_validators c)"
    and "st_user_validator_shares c' = (st_user_validator_shares c)
       ((x, p) \<mapsto> saturating_add 128 (or_zero (st_user_validator_shares c (x, p))) s)"
    and "st_user_pending_unstake c' = st_user_pending_unstake c" and "st_accounts c' = st_accounts c"
    and "st_revenue_by_validator c' = st_revenue_by_validator c" and "st_outbox c' = st_outbox c"
  using assms
  by (auto simp: internal_stake_def res_simps Let_def internal_set_validator_def fin_def fun_eq_iff financial_def split: if_splits)

lemma set_tranches_books:
  assumes "set_user_pending_unstake_tranches k ts c = Inr c'"
  shows "st_validators c' = st_validators c \<and> st_user_validator_shares c' = st_user_validator_shares c
    \<and> st_user_pending_unstake c' = (st_user_pending_unstake c)(k := if ts = [] then None else Some ts)
    \<and> st_accounts c' = st_accounts c \<and> st_revenue_by_validator c' = st_revenue_by_validator c \<and> st_outbox c' = st_outbox c"
  using assms
  by (auto simp: set_user_pending_unstake_tranches_def increment_pending_unstake_validator_count_def
    decrement_pending_unstake_validator_count_def res_simps Let_def split: if_splits)

lemma internal_unstake_books:
  assumes "internal_unstake e x p s c = Inr (c', a)"
  shows "fin c' = (fin c)(p := (fin c p)\<lparr>va_total_shares := va_total_shares (fin c p) - s,
       va_pending_to_unstake := va_pending_to_unstake (fin c p) + a\<rparr>)"
    and "p \<in> dom (st_validators c)" and "dom (st_validators c') = dom (st_validators c)"
    and "s \<le> or_zero (st_user_validator_shares c (x, p))" and "s \<le> va_total_shares (fin c p)"
    and "st_user_validator_shares c' = (st_user_validator_shares c)
       ((x, p) := if or_zero (st_user_validator_shares c (x, p)) = s then None
                  else Some (or_zero (st_user_validator_shares c (x, p)) - s))"
    and "\<exists>h. st_user_pending_unstake c' = (st_user_pending_unstake c)
       ((x, p) \<mapsto> or_empty (st_user_pending_unstake c (x, p)) @ [\<lparr>tr_amount = a, tr_available_epoch_height = h\<rparr>])"
    and "st_accounts c' = st_accounts c" and "st_revenue_by_validator c' = st_revenue_by_validator c"
    and "st_outbox c' = st_outbox c" and "va_pending_to_unstake (fin c p) + a < 2 ^ 128"
  using assms
  by (auto simp: internal_unstake_def res_simps Let_def internal_set_validator_def fin_def fun_eq_iff financial_def or_empty_def
    dest!: set_tranches_books split: if_splits option.splits)

end
