(* ===== verification/Staking_Pipeline.thy ===== *)
theory Staking_Pipeline
  imports Staking_Frame
begin

text \<open>
  Each step of the settlement pipeline as a change of one pool (theory \<open>Staking_Frame\<close>), and what a call or a tail sends. The pool
  must be busy for the steps between entry and release; then they do not panic.
\<close>

section \<open>Entry and release\<close>

abbreviation busy :: "staking \<Rightarrow> validator_id \<Rightarrow> bool" where
  "busy c p \<equiv> va_tx_status (fin c p) = Tx_Busy"

lemma tx_status_cases: "s \<noteq> Tx_Busy \<longleftrightarrow> s = Tx_Idle"
  by (cases s) simp_all

definition next_effect :: "user_action \<Rightarrow> staking_effect" where
  "next_effect cont = (case cont of SettleOnly p \<Rightarrow> St_Release p | _ \<Rightarrow> St_Tail cont)"

lemma next_effect_harmful [simp]: "\<not> harmless (next_effect cont)"
  by (cases cont) (simp_all add: next_effect_def)

lemma outflow_next_effect [simp]: "outflow (next_effect cont) = 0"
  by (cases cont) (simp_all add: next_effect_def)

lemma dispatch_continue_emit: "dispatch_continue cont c = st_emit (next_effect cont) c"
  by (cases cont) (simp_all add: dispatch_continue_def next_effect_def)

lemma pool_change_next:
  "pool_change c p v es d \<Longrightarrow> pool_change c p v (es @ [next_effect cont]) (dispatch_continue cont d)"
  using pool_change_emit [of c p v es d "next_effect cont"] by (simp add: dispatch_continue_emit)

lemma entry_change:
  assumes "promise_validator_per_epoch_settlement_then e p cont c = Inr c'"
  shows "p \<in> dom (st_validators c) \<and> \<not> busy c p
    \<and> pool_change c p ((fin c p)\<lparr>va_tx_status := Tx_Busy\<rparr>)
        [if va_last_settlement_epoch (fin c p) < epoch_height e then St_Get_Account p cont else next_effect cont] c'"
proof -
  from assms obtain v where v: "st_validators c p = Some v" "va_tx_status v = Tx_Idle"
    by (auto simp: promise_validator_per_epoch_settlement_then_def require_validator_idle_def res_simps)
  have f: "fin c p = financial v" using v by (simp add: fin_Some)
  have 1: "pool_change c p (financial (v\<lparr>va_tx_status := Tx_Busy\<rparr>)) [] (internal_set_validator p (v\<lparr>va_tx_status := Tx_Busy\<rparr>) c)"
    using v(1) pool_change_refl by (rule pool_change_set)
  have b: "financial (v\<lparr>va_tx_status := Tx_Busy\<rparr>) = (fin c p)\<lparr>va_tx_status := Tx_Busy\<rparr>" by (simp add: f financial_def)
  show ?thesis
    using assms v pool_change_next [OF 1, of cont] pool_change_emit [OF 1, of "St_Get_Account p cont"]
    by (auto simp: promise_validator_per_epoch_settlement_then_def require_validator_idle_def res_simps Let_def f b [unfolded f] split: if_splits)
qed

lemma release_change:
  assumes "st_validators c p \<noteq> None"
  obtains c' where "release_validator_pool_pipeline p c = Inr c'" "pool_change c p ((fin c p)\<lparr>va_tx_status := Tx_Idle\<rparr>) [] c'"
proof -
  from assms obtain v where v: "st_validators c p = Some v" by blast
  have "pool_change c p (financial (v\<lparr>va_tx_status := Tx_Idle\<rparr>)) [] (internal_set_validator p (v\<lparr>va_tx_status := Tx_Idle\<rparr>) c)"
    using v pool_change_refl by (rule pool_change_set)
  moreover have "financial (v\<lparr>va_tx_status := Tx_Idle\<rparr>) = (fin c p)\<lparr>va_tx_status := Tx_Idle\<rparr>" using v by (simp add: fin_Some financial_def)
  ultimately show thesis using v that by (simp add: release_validator_pool_pipeline_def require_validator_def)
qed

lemma refund_change:
  assumes "st_validators c p \<noteq> None"
  obtains c' where "refund_payable_pipeline p x n c = Inr c'"
    "pool_change c p ((fin c p)\<lparr>va_tx_status := Tx_Idle\<rparr>) [St_Transfer x n] c'"
proof -
  from assms obtain c1 where 1: "release_validator_pool_pipeline p c = Inr c1" "pool_change c p ((fin c p)\<lparr>va_tx_status := Tx_Idle\<rparr>) [] c1"
    by (rule release_change)
  from pool_change_emit [OF pool_change_log [OF 1(2)], of "St_Transfer x n"] 1(1) show thesis
    using that by (simp add: refund_payable_pipeline_def)
qed

definition pay_back :: "user_action \<Rightarrow> nat" where
  "pay_back cont = (case payable_refund cont of None \<Rightarrow> 0 | Some (_, n) \<Rightarrow> n)"

text \<open>The last receipt: the pool is idle again, and a failed payable call gets its deposit back.\<close>

lemma last_receipt_change:
  assumes "st_validators c p \<noteq> None" and "predecessor e = current_account e" and "attached_deposit e = 0"
  shows "\<exists>c' es. release_of cont e b p cont c = Inr c' \<and> pool_change c p ((fin c p)\<lparr>va_tx_status := Tx_Idle\<rparr>) es c'
    \<and> (\<forall>x \<in> set es. spawn x = []) \<and> sum_list (map outflow es) = (if b then 0 else pay_back cont)"
proof -
  obtain c1 where r: "release_validator_pool_pipeline p c = Inr c1" "pool_change c p ((fin c p)\<lparr>va_tx_status := Tx_Idle\<rparr>) [] c1"
    using assms(1) by (rule release_change)
  have l: "st_validators (log_epoch_operation a p c) p \<noteq> None" "fin (log_epoch_operation a p c) = fin c" for a
    using assms(1) by (simp_all add: log_epoch_operation_def st_emit_def fin_def fun_eq_iff)
  have f: "\<exists>c'. refund_payable_pipeline p x n (log_epoch_operation a p c) = Inr c'
     \<and> pool_change c p ((fin c p)\<lparr>va_tx_status := Tx_Idle\<rparr>) [St_Transfer x n] c'" for a x n
  proof -
    obtain c' where 1: "refund_payable_pipeline p x n (log_epoch_operation a p c) = Inr c'"
      "pool_change (log_epoch_operation a p c) p ((fin c p)\<lparr>va_tx_status := Tx_Idle\<rparr>) [St_Transfer x n] c'"
      by (rule refund_change [OF l(1), of x n a, unfolded l(2)])
    have "pool_change c p (fin c p) [] (log_epoch_operation a p c)" by (rule pool_change_log [OF pool_change_refl])
    from pool_change_trans [OF this 1(2)] 1(1) show ?thesis by simp
  qed
  show ?thesis
  proof (cases b)
    case True
    then show ?thesis using assms r
      by (cases cont) (auto simp: on_epoch_pipeline_release_with_lock_id_def on_epoch_pipeline_release_with_farm_position_def
        on_epoch_pipeline_release_with_subscription_update_outcome_def on_epoch_pipeline_terminal_release_def release_or_refund_def
        assert_no_deposit_def assert_private_def intro!: exI [of _ "[]"])
  next
    case False
    have "\<exists>c' es. release_of cont e b p cont c = Inr c' \<and> pool_change c p ((fin c p)\<lparr>va_tx_status := Tx_Idle\<rparr>) es c'
      \<and> (es = [] \<and> payable_refund cont = None \<or> (\<exists>x n. es = [St_Transfer x n] \<and> payable_refund cont = Some (x, n)))"
      using False assms r f
      by (cases cont) (fastforce simp: on_epoch_pipeline_release_with_lock_id_def on_epoch_pipeline_release_with_farm_position_def
        on_epoch_pipeline_release_with_subscription_update_outcome_def on_epoch_pipeline_terminal_release_def release_or_refund_def
        assert_no_deposit_def assert_private_def)+
    then show ?thesis using False by (fastforce simp: pay_back_def)
  qed
qed

section \<open>Settlement\<close>

text \<open>
  One round of settlement in epoch \<open>h\<close> turns the books \<open>v\<close> of a pool into \<open>v'\<close>: what the contract holds for the pool and what it
  owes to users stay the same in total, and either the action goes on or one operation is sent to the pool, for the difference
  of the queues and only if the pool was not settled in this epoch.
\<close>

definition settle_ok :: "nat \<Rightarrow> user_action \<Rightarrow> validator_id \<Rightarrow> validator \<Rightarrow> validator \<Rightarrow> staking_effect list \<Rightarrow> bool" where
  "settle_ok h cont p v v' es \<longleftrightarrow>
     va_tx_status v' = va_tx_status v \<and> va_total_shares v' = va_total_shares v \<and> va_total_staked_balance v' = va_total_staked_balance v
     \<and> va_pending_to_withdraw v' = va_pending_to_withdraw v
     \<and> va_pending_to_claim v' + va_pending_to_stake v' = va_pending_to_claim v + va_pending_to_stake v
     \<and> va_pending_to_unstake v' + va_pending_to_claim v' = va_pending_to_unstake v + va_pending_to_claim v
     \<and> va_pending_to_unstake v' \<le> va_pending_to_unstake v
     \<and> (es = [next_effect cont] \<and> (v' = v \<and> h \<le> va_last_settlement_epoch v \<or> va_last_settlement_epoch v' = h)
       \<or> es = [St_Pool_Stake p (va_pending_to_stake v - va_pending_to_unstake v) cont] \<and> v' = v
           \<and> va_pending_to_unstake v < va_pending_to_stake v \<and> va_last_settlement_epoch v < h
       \<or> es = [St_Pool_Unstake p (va_pending_to_unstake v - va_pending_to_stake v) cont] \<and> v' = v
           \<and> va_pending_to_stake v < va_pending_to_unstake v \<and> va_last_settlement_epoch v < h)"

lemma saturating_add_exact: "a + b < 2 ^ w \<Longrightarrow> saturating_add w a b = a + b"
  by (simp add: saturating_add_def)

lemma mark_handled_change:
  assumes "st_validators c p = Some v" and "pool_change c0 p u es c"
  shows "\<exists>c'. mark_epoch_settlement_handled e p a c = Inr c'
    \<and> pool_change c0 p ((financial v)\<lparr>va_last_settlement_epoch := epoch_height e\<rparr>) es c'"
proof -
  have "financial (v\<lparr>va_last_settlement_epoch := epoch_height e\<rparr>) = (financial v)\<lparr>va_last_settlement_epoch := epoch_height e\<rparr>"
    by (simp add: financial_def)
  then show ?thesis
    using assms pool_change_log [OF pool_change_set [OF assms, of "v\<lparr>va_last_settlement_epoch := epoch_height e\<rparr>"]]
    by (simp add: mark_epoch_settlement_handled_def require_validator_def)
qed

lemma try_settle_change:
  assumes v: "st_validators c p = Some v" and b: "va_tx_status v = Tx_Busy"
    and m: "va_pending_to_claim v + va_pending_to_stake v < 2 ^ 128"
  shows "\<exists>c' v' es. try_epoch_stake_or_unstake e p cont c = Inr c' \<and> pool_change c p v' es c'
    \<and> settle_ok (epoch_height e) cont p (fin c p) v' es"
proof -
  let ?s = "va_pending_to_stake v" and ?u = "va_pending_to_unstake v" and ?h = "epoch_height e"
  have f: "fin c p = financial v" using v by (simp add: fin_Some)
  have id: "pool_change c p (financial v) [] c" using pool_change_refl [of c p] f by simp
  note unf = try_epoch_stake_or_unstake_def require_validator_def assert_validator_busy_def
  note handled = mark_handled_change [OF v id, of e]
  have nx: "pool_change c p w [next_effect cont] (dispatch_continue cont c1)" if "pool_change c p w [] c1" for w c1
    using pool_change_next [OF that] by simp
  consider (skip) "?h \<le> va_last_settlement_epoch v" | (none) "va_last_settlement_epoch v < ?h" "?s = 0" "?u = 0"
    | (zero) "va_last_settlement_epoch v < ?h" "?s = ?u" "0 < ?s" | (stk) "va_last_settlement_epoch v < ?h" "?u < ?s"
    | (wait) "va_last_settlement_epoch v < ?h" "?s < ?u" "0 < va_last_unstake_epoch v \<and> \<not> validator_unstake_waiting_finished e v c"
    | (unst) "va_last_settlement_epoch v < ?h" "?s < ?u" "\<not> (0 < va_last_unstake_epoch v \<and> \<not> validator_unstake_waiting_finished e v c)"
    by linarith
  then show ?thesis
  proof cases
    case skip
    then show ?thesis using v b nx [OF id] by (auto simp: unf Let_def f settle_ok_def)
  next
    case none
    obtain c1 where "mark_epoch_settlement_handled e p ''epoch_settle_noop'' c = Inr c1"
      "pool_change c p ((financial v)\<lparr>va_last_settlement_epoch := ?h\<rparr>) [] c1" using handled by blast
    then show ?thesis using none v b nx by (fastforce simp: unf Let_def f settle_ok_def)
  next
    case zero
    let ?w = "v\<lparr>va_pending_to_stake := 0, va_pending_to_unstake := 0, va_pending_to_claim := saturating_add 128 (va_pending_to_claim v) ?s,
       va_last_settlement_epoch := ?h\<rparr>"
    let ?d = "log_epoch_operation ''epoch_settle_net_zero'' p c"
    have d: "st_validators ?d p = Some v" using v by (simp add: log_epoch_operation_def st_emit_def)
    have "pool_change c p (financial ?w) [] (internal_set_validator p ?w ?d)"
      by (rule pool_change_set [OF d pool_change_log [OF id]])
    moreover have "apply_net_zero_pending_matched_clear e p ?s ?d = Inr (internal_set_validator p ?w ?d, True)"
      using d zero by (simp add: apply_net_zero_pending_matched_clear_def require_validator_def Let_def)
    ultimately show ?thesis using zero v b nx m
      by (fastforce simp: unf Let_def f settle_ok_def saturating_add_exact)
  next
    case stk
    have "pool_change c p (financial v) [St_Pool_Stake p (?s - ?u) cont] (st_emit (St_Pool_Stake p (?s - ?u) cont) (log_epoch_operation ''epoch_settle_stake'' p c))"
      using pool_change_emit [OF pool_change_log [OF id], of "St_Pool_Stake p (?s - ?u) cont"] by simp
    moreover have "settle_ok ?h cont p (fin c p) (financial v) [St_Pool_Stake p (?s - ?u) cont]" using stk by (simp add: f settle_ok_def)
    ultimately show ?thesis using stk v b by (fastforce simp: unf Let_def)
  next
    case wait
    obtain c1 where "mark_epoch_settlement_handled e p ''epoch_settle_unstake_waiting'' c = Inr c1"
      "pool_change c p ((financial v)\<lparr>va_last_settlement_epoch := ?h\<rparr>) [] c1" using handled by blast
    then show ?thesis using wait v b nx by (fastforce simp: unf Let_def f settle_ok_def)
  next
    case unst
    have "pool_change c p (financial v) [St_Pool_Unstake p (?u - ?s) cont] (st_emit (St_Pool_Unstake p (?u - ?s) cont) (log_epoch_operation ''epoch_settle_unstake'' p c))"
      using pool_change_emit [OF pool_change_log [OF id], of "St_Pool_Unstake p (?u - ?s) cont"] by simp
    moreover have "settle_ok ?h cont p (fin c p) (financial v) [St_Pool_Unstake p (?u - ?s) cont]" using unst by (simp add: f settle_ok_def)
    ultimately show ?thesis using unst v b by (fastforce simp: unf Let_def)
  qed
qed

text \<open>The callbacks run with the contract itself as the caller and no deposit.\<close>

definition self_call :: "env \<Rightarrow> bool" where
  "self_call e \<longleftrightarrow> predecessor e = current_account e \<and> attached_deposit e = 0"

lemma self_call_asserts: "self_call e \<Longrightarrow> assert_no_deposit e m = Inr ()" "self_call e \<Longrightarrow> assert_private e m = Inr ()"
  by (simp_all add: self_call_def assert_no_deposit_def assert_private_def)

lemma account_failed_change:
  assumes "st_validators c p \<noteq> None" and "self_call e"
  shows "\<exists>c' v' es. on_epoch_settlement_after_pool_account e None p cont c = Inr c' \<and> pool_change c p v' es c'
    \<and> (v' = (fin c p)\<lparr>va_tx_status := Tx_Idle\<rparr> \<and> (\<exists>x. payable_refund cont = Some (x, pay_back cont) \<and> es = [St_Transfer x (pay_back cont)])
      \<or> v' = fin c p \<and> es = [St_Release p] \<and> pay_back cont = 0)"
proof (cases "payable_refund cont")
  case None
  have "pool_change c p (fin c p) [St_Release p] (st_emit (St_Release p) (log_epoch_operation ''epoch_get_account_failed_release'' p c))"
    using pool_change_emit [OF pool_change_log [OF pool_change_refl], of c p "St_Release p"] by simp
  then show ?thesis using None assms(2)
    by (fastforce simp: on_epoch_settlement_after_pool_account_def self_call_asserts pay_back_def)
next
  case (Some xn)
  obtain x n where xn: "xn = (x, n)" by (cases xn)
  obtain c' where "refund_payable_pipeline p x n c = Inr c'" "pool_change c p ((fin c p)\<lparr>va_tx_status := Tx_Idle\<rparr>) [St_Transfer x n] c'"
    using assms(1) by (rule refund_change)
  then show ?thesis using Some xn assms(2)
    by (fastforce simp: on_epoch_settlement_after_pool_account_def self_call_asserts pay_back_def)
qed

lemma account_change:
  fixes a :: pool_account_view
  assumes v: "st_validators c p = Some v" and b: "va_tx_status v = Tx_Busy"
    and m: "va_pending_to_claim v + va_pending_to_stake v < 2 ^ 128" and e: "self_call e"
  defines "v1 \<equiv> (fin c p)\<lparr>va_total_staked_balance := pool_total_balance a\<rparr>"
  shows "\<exists>c' v' es. on_epoch_settlement_after_pool_account e (Some a) p cont c = Inr c' \<and> pool_change c p v' es c'
    \<and> (v' = v1 \<and> es = [St_Pool_Withdraw p (pa_unstaked_balance a) cont] \<or> settle_ok (epoch_height e) cont p v1 v' es)"
proof -
  let ?w = "v\<lparr>va_total_staked_balance := pool_total_balance a, va_last_balance_refresh_ns := block_timestamp e\<rparr>"
  let ?c1 = "internal_set_validator p ?w c"
  have w: "st_validators ?c1 p = Some ?w" by (simp add: internal_set_validator_def)
  have f: "financial ?w = v1" using v by (simp add: v1_def fin_Some financial_def)
  have 1: "pool_change c p v1 [] ?c1" using pool_change_set [OF v pool_change_refl, of ?w] f by simp
  show ?thesis
  proof (cases "0 < pa_unstaked_balance a \<and> pa_can_withdraw a")
    case True
    have "pool_change c p v1 [St_Pool_Withdraw p (pa_unstaked_balance a) cont]
       (st_emit (St_Pool_Withdraw p (pa_unstaked_balance a) cont) (log_epoch_operation ''epoch_withdraw'' p ?c1))"
      using pool_change_emit [OF pool_change_log [OF 1], of "St_Pool_Withdraw p (pa_unstaked_balance a) cont"] by simp
    moreover have "st_validators (log_epoch_operation ''epoch_withdraw'' p ?c1) p = Some ?w"
      using w by (simp add: log_epoch_operation_def st_emit_def)
    ultimately show ?thesis using True v b e
      by (fastforce simp: on_epoch_settlement_after_pool_account_def self_call_asserts require_validator_def assert_validator_busy_def
        try_epoch_withdraw_known_unstaked_def Let_def)
  next
    case False
    obtain c' v' es where t: "try_epoch_stake_or_unstake e p cont ?c1 = Inr c'" "pool_change ?c1 p v' es c'"
      "settle_ok (epoch_height e) cont p (fin ?c1 p) v' es"
      using try_settle_change [OF w, of e cont] b m by auto
    have "fin ?c1 p = v1" using fin_pool_change [OF 1] .
    then show ?thesis using pool_change_trans [OF 1 t(2)] t(1,3) False v b e
      by (fastforce simp: on_epoch_settlement_after_pool_account_def self_call_asserts require_validator_def assert_validator_busy_def Let_def)
  qed
qed

lemma withdraw_done_change:
  assumes "on_epoch_withdraw_transfer_done e ok p n c = Inr (c', r)"
  shows "p \<in> dom (st_validators c) \<and> r = ok \<and> (\<exists>v'. pool_change c p v' [] c' \<and> (v' = fin c p \<or> ok
    \<and> v' = (fin c p)\<lparr>va_total_staked_balance := va_total_staked_balance (fin c p) - n,
        va_pending_to_withdraw := va_pending_to_withdraw (fin c p) - n, va_pending_to_claim := va_pending_to_claim (fin c p) + n\<rparr>))"
proof -
  from assms obtain v where v: "st_validators c p = Some v"
    by (auto simp: on_epoch_withdraw_transfer_done_def res_simps)
  have f: "fin c p = financial v" using v by (simp add: fin_Some)
  have id: "pool_change c p (financial v) [] c" using pool_change_refl [of c p] f by simp
  have s: "pool_change c p (financial w) [] (internal_set_validator p w c)" for w by (rule pool_change_set [OF v id])
  show ?thesis
  proof (cases "ok \<and> 0 < n")
    case False
    then show ?thesis using assms v s [of v] f
      by (auto simp: on_epoch_withdraw_transfer_done_def res_simps Let_def split: if_splits)
  next
    case True
    let ?w = "v\<lparr>va_total_staked_balance := va_total_staked_balance v - n, va_pending_to_withdraw := va_pending_to_withdraw v - n,
       va_pending_to_claim := va_pending_to_claim v + n\<rparr>"
    let ?log = "St_Log ''on_epoch_withdraw_transfer_done: pending_to_withdraw lower than withdrawn; clamped to zero''"
    let ?d = "st_emit (St_Event ''validator_withdraw_in'' [p] [n]) (if va_pending_to_withdraw v < n then st_emit ?log c else c)"
    have e1: "pool_change c p (financial v) [] ?d"
      using pool_change_emit [OF pool_change_emit [OF id, of ?log], of "St_Event ''validator_withdraw_in'' [p] [n]"]
        pool_change_emit [OF id, of "St_Event ''validator_withdraw_in'' [p] [n]"] by simp
    have "st_validators ?d p = Some v" using v by (simp add: st_emit_def)
    from pool_change_set [OF this e1] have "pool_change c p (financial ?w) [] (internal_set_validator p ?w ?d)" .
    moreover have "c' = internal_set_validator p ?w ?d" "r = ok"
      using True v assms
      by (auto simp: on_epoch_withdraw_transfer_done_def res_simps Let_def saturating_sub_def st_emit_def internal_set_validator_def split: if_splits)
    moreover have "financial ?w = (fin c p)\<lparr>va_total_staked_balance := va_total_staked_balance (fin c p) - n,
        va_pending_to_withdraw := va_pending_to_withdraw (fin c p) - n, va_pending_to_claim := va_pending_to_claim (fin c p) + n\<rparr>"
      by (simp add: f financial_def)
    ultimately show ?thesis using True v by auto
  qed
qed

lemma after_withdraw_change:
  assumes v: "st_validators c p = Some v" and b: "va_tx_status v = Tx_Busy"
    and m: "va_pending_to_claim v + va_pending_to_stake v < 2 ^ 128" and e: "self_call e"
  shows "\<exists>c' v' es. on_after_pool_withdraw_maybe_settle e r p cont c = Inr c' \<and> pool_change c p v' es c'
    \<and> (v' = fin c p \<and> es = [next_effect cont] \<or> settle_ok (epoch_height e) cont p (fin c p) v' es)"
proof (cases "r = Some True")
  case True
  then show ?thesis using try_settle_change [OF v b m, of e cont] v b e
    by (auto simp: on_after_pool_withdraw_maybe_settle_def self_call_asserts require_validator_def assert_validator_busy_def)
next
  case False
  have "pool_change c p (fin c p) [next_effect cont] (dispatch_continue cont (log_epoch_operation ''epoch_withdraw_failed_skip_settle'' p c))"
    using pool_change_next [OF pool_change_log [OF pool_change_refl]] by fastforce
  then show ?thesis using False v b e
    by (fastforce simp: on_after_pool_withdraw_maybe_settle_def self_call_asserts require_validator_def assert_validator_busy_def)
qed

lemma stake_done_change:
  assumes v: "st_validators c p = Some v" and q: "va_pending_to_unstake v < va_pending_to_stake v"
    and m: "va_pending_to_claim v + va_pending_to_stake v < 2 ^ 128"
    and t: "va_total_staked_balance v + va_pending_to_stake v < 2 ^ 128" and e: "self_call e"
  shows "\<exists>c'. on_deposit_and_stake e True p c = Inr (c', True)
    \<and> pool_change c p ((fin c p)\<lparr>va_pending_to_claim := va_pending_to_claim v + va_pending_to_unstake v, va_pending_to_stake := 0,
        va_pending_to_unstake := 0, va_total_staked_balance := va_total_staked_balance v + (va_pending_to_stake v - va_pending_to_unstake v),
        va_last_settlement_epoch := epoch_height e\<rparr>) [] c'"
proof -
  let ?w = "v\<lparr>va_pending_to_claim := va_pending_to_claim v + va_pending_to_unstake v, va_pending_to_stake := 0,
        va_pending_to_unstake := 0, va_total_staked_balance := va_total_staked_balance v + (va_pending_to_stake v - va_pending_to_unstake v),
        va_last_settlement_epoch := epoch_height e\<rparr>"
  have "pool_change c p (financial ?w) [] (internal_set_validator p ?w c)" by (rule pool_change_set [OF v pool_change_refl])
  moreover have "va_pending_to_claim v + va_pending_to_unstake v < 2 ^ 128" using m q by linarith
  then have "on_deposit_and_stake e True p c = Inr (internal_set_validator p ?w c, True)"
    using v q t e by (auto simp: on_deposit_and_stake_def self_call_asserts require_validator_def Let_def saturating_add_exact)
  moreover have "financial ?w = (fin c p)\<lparr>va_pending_to_claim := va_pending_to_claim v + va_pending_to_unstake v, va_pending_to_stake := 0,
        va_pending_to_unstake := 0, va_total_staked_balance := va_total_staked_balance v + (va_pending_to_stake v - va_pending_to_unstake v),
        va_last_settlement_epoch := epoch_height e\<rparr>" using v by (simp add: fin_Some financial_def)
  ultimately show ?thesis by auto
qed

lemma unstake_done_change:
  assumes v: "st_validators c p = Some v" and q: "va_pending_to_stake v < va_pending_to_unstake v"
    and m: "va_pending_to_claim v + va_pending_to_stake v < 2 ^ 128" and e: "self_call e"
  shows "\<exists>c'. on_unstake e True p c = Inr (c', True)
    \<and> pool_change c p ((fin c p)\<lparr>va_pending_to_claim := va_pending_to_claim v + va_pending_to_stake v, va_pending_to_stake := 0,
        va_pending_to_unstake := 0,
        va_pending_to_withdraw := saturating_add 128 (va_pending_to_withdraw v) (va_pending_to_unstake v - va_pending_to_stake v),
        va_last_unstake_epoch := epoch_height e, va_last_settlement_epoch := epoch_height e\<rparr>) [] c'"
proof -
  let ?w = "v\<lparr>va_pending_to_claim := va_pending_to_claim v + va_pending_to_stake v, va_pending_to_stake := 0,
        va_pending_to_unstake := 0,
        va_pending_to_withdraw := saturating_add 128 (va_pending_to_withdraw v) (va_pending_to_unstake v - va_pending_to_stake v),
        va_last_unstake_epoch := epoch_height e, va_last_settlement_epoch := epoch_height e\<rparr>"
  have "pool_change c p (financial ?w) [] (internal_set_validator p ?w c)" by (rule pool_change_set [OF v pool_change_refl])
  moreover have "on_unstake e True p c = Inr (internal_set_validator p ?w c, True)"
    using v q m e by (cases v) (auto simp: on_unstake_def self_call_asserts require_validator_def Let_def saturating_add_exact)
  moreover have "financial ?w = (fin c p)\<lparr>va_pending_to_claim := va_pending_to_claim v + va_pending_to_stake v, va_pending_to_stake := 0,
        va_pending_to_unstake := 0,
        va_pending_to_withdraw := saturating_add 128 (va_pending_to_withdraw v) (va_pending_to_unstake v - va_pending_to_stake v),
        va_last_unstake_epoch := epoch_height e, va_last_settlement_epoch := epoch_height e\<rparr>" using v by (simp add: fin_Some financial_def)
  ultimately show ?thesis by auto
qed

lemma pool_op_failed [simp]:
  "self_call e \<Longrightarrow> on_deposit_and_stake e False p c = Inr (c, False)" "self_call e \<Longrightarrow> on_unstake e False p c = Inr (c, False)"
  by (simp_all add: on_deposit_and_stake_def on_unstake_def self_call_asserts)

end
