(* ===== verification/Staking_Calls.thy ===== *)
theory Staking_Calls
  imports Staking_Pipeline
begin

text \<open>
  Every method and callback of the staking contract sorted by what it does to the books: nothing (\<open>quiet\<close>), an entry into the
  pipeline of one pool, a change of the storage deposits or of the revenue (\<open>purse\<close>), a tail (\<open>flow\<close>), or a payout.
\<close>

section \<open>Storage and revenue\<close>

definition purse :: "staking \<Rightarrow> (account_id \<rightharpoonup> storage_account) \<Rightarrow> (validator_id \<rightharpoonup> nat) \<Rightarrow> staking_effect list \<Rightarrow> staking \<Rightarrow> bool" where
  "purse c acc rvn es c' \<longleftrightarrow> fin c' = fin c \<and> dom (st_validators c') = dom (st_validators c)
     \<and> st_user_validator_shares c' = st_user_validator_shares c \<and> st_user_pending_unstake c' = st_user_pending_unstake c
     \<and> st_accounts c' = acc \<and> st_revenue_by_validator c' = rvn \<and> emits c es c'"

definition deposit_of :: "storage_account option \<Rightarrow> nat" where
  "deposit_of a = (case a of None \<Rightarrow> 0 | Some a \<Rightarrow> sa_storage_deposit a)"

text \<open>A deposit is stored up to what is sent back; a withdrawal takes at most what was stored.\<close>

definition storage_change :: "nat \<Rightarrow> staking \<Rightarrow> staking \<Rightarrow> bool" where
  "storage_change attached c c' \<longleftrightarrow> (\<exists>x a es. purse c ((st_accounts c)(x := a)) (st_revenue_by_validator c) es c'
     \<and> (\<forall>z \<in> set es. spawn z = []) \<and> deposit_of a + sum_list (map outflow es) \<le> deposit_of (st_accounts c x) + attached)"

lemma purse_refl: "purse c (st_accounts c) (st_revenue_by_validator c) [] c"
  by (simp add: purse_def emits_refl)

lemma purse_emit: "purse c acc rvn es d \<Longrightarrow> purse c acc rvn (if harmless x then es else es @ [x]) (st_emit x d)"
  unfolding purse_def using emits_emit emits_emit_harmless by (auto simp: fin_def st_emit_def fun_eq_iff)

lemma purse_accounts: "purse c acc rvn es d \<Longrightarrow> purse c acc' rvn es (d\<lparr>st_accounts := acc', st_account_ids := xs\<rparr>)"
  unfolding purse_def by (auto simp: fin_def emits_def fun_eq_iff)

lemma purse_set_account: "purse c acc rvn es d \<Longrightarrow> purse c ((st_accounts d)(x \<mapsto> a)) rvn es (st_internal_set_account x a d)"
  unfolding st_internal_set_account_def by (rule purse_accounts)

lemma storage_change_refl: "storage_change n c c"
  unfolding storage_change_def using purse_refl [of c] by (intro exI [of _ "[]"] exI [of _ "st_accounts c []"]) auto

lemma storage_deposit_change:
  assumes "st_storage_deposit e account registration_only c = Inr (c', b)"
  shows "storage_change (attached_deposit e) c c'"
proof -
  define x where "x = (case account of None \<Rightarrow> predecessor e | Some a \<Rightarrow> a)"
  define k where "k = (if registration_only = Some True
    then min (sg_min_storage_deposit (st_config c) - deposit_of (st_accounts c x)) (attached_deposit e) else attached_deposit e)"
  have k: "k \<le> attached_deposit e" by (simp add: k_def)
  have c': "c' = (let c1 = st_internal_set_account x \<lparr>sa_storage_deposit = deposit_of (st_accounts c x) + k\<rparr> c; r = attached_deposit e - k
      in if 0 < r then st_emit (St_Transfer (predecessor e) r) c1 else c1)"
    using assms unfolding st_storage_deposit_def Let_def x_def [symmetric] deposit_of_def [symmetric] saturating_sub_def k_def
    by (auto simp: res_simps split: if_splits)
  let ?a = "\<lparr>sa_storage_deposit = deposit_of (st_accounts c x) + k\<rparr>" and ?r = "attached_deposit e - k"
  have 1: "purse c ((st_accounts c)(x \<mapsto> ?a)) (st_revenue_by_validator c) [] (st_internal_set_account x ?a c)"
    by (rule purse_set_account [OF purse_refl])
  have 2: "purse c ((st_accounts c)(x \<mapsto> ?a)) (st_revenue_by_validator c) (if 0 < ?r then [St_Transfer (predecessor e) ?r] else []) c'"
    using 1 purse_emit [OF 1, of "St_Transfer (predecessor e) ?r"] by (simp add: c' Let_def)
  show ?thesis unfolding storage_change_def
    by (rule exI [of _ x], rule exI [of _ "Some ?a"], rule exI, rule conjI [OF 2]) (use k in \<open>auto simp: deposit_of_def\<close>)
qed

lemma storage_withdraw_change:
  assumes "st_storage_withdraw e amount c = Inr (c', b)"
  shows "storage_change (attached_deposit e) c c'"
proof (cases "c' = c")
  case True
  then show ?thesis by (simp add: storage_change_refl)
next
  case False
  define x where "x = predecessor e"
  obtain a n where a: "st_accounts c x = Some a" "n \<le> sa_storage_deposit a"
    "c' = st_emit (St_Transfer x n) (st_internal_set_account x (a\<lparr>sa_storage_deposit := sa_storage_deposit a - n\<rparr>) c)"
    using assms False by (auto simp: st_storage_withdraw_def res_simps Let_def x_def [symmetric] split: if_splits option.splits)
  let ?a = "a\<lparr>sa_storage_deposit := sa_storage_deposit a - n\<rparr>"
  have "purse c ((st_accounts c)(x \<mapsto> ?a)) (st_revenue_by_validator c) [St_Transfer x n] c'"
    unfolding a(3) using purse_emit [OF purse_set_account [OF purse_refl [of c], of x ?a], of "St_Transfer x n"] by simp
  then show ?thesis unfolding storage_change_def
    by (intro exI [of _ x] exI [of _ "Some ?a"] exI [of _ "[St_Transfer x n]"]) (use a in \<open>simp add: deposit_of_def\<close>)
qed

lemma storage_unregister_change:
  assumes "st_storage_unregister e force c = Inr (c', b)"
  shows "storage_change (attached_deposit e) c c'"
proof (cases "c' = c")
  case True
  then show ?thesis by (simp add: storage_change_refl)
next
  case False
  define x where "x = predecessor e"
  let ?d = "c\<lparr>st_accounts := (st_accounts c)(x := None), st_account_ids := iterable_remove x (st_account_ids c)\<rparr>"
  obtain a where a: "st_accounts c x = Some a"
    "c' = (if 0 < sa_storage_deposit a then st_emit (St_Transfer x (sa_storage_deposit a)) ?d else ?d)"
    using assms False by (auto simp: st_storage_unregister_def res_simps Let_def x_def [symmetric] split: if_splits option.splits)
  have 1: "purse c ((st_accounts c)(x := None)) (st_revenue_by_validator c) [] ?d"
    by (rule purse_accounts [OF purse_refl])
  have 2: "purse c ((st_accounts c)(x := None)) (st_revenue_by_validator c)
     (if 0 < sa_storage_deposit a then [St_Transfer x (sa_storage_deposit a)] else []) c'"
    using 1 purse_emit [OF 1, of "St_Transfer x (sa_storage_deposit a)"] by (simp add: a(2))
  show ?thesis unfolding storage_change_def
    by (rule exI [of _ x], rule exI [of _ None], rule exI, rule conjI [OF 2]) (use a in \<open>auto simp: deposit_of_def\<close>)
qed

lemma quiet_revenue: "quiet c d \<Longrightarrow> quiet (c\<lparr>st_revenue_by_validator := r\<rparr>) (d\<lparr>st_revenue_by_validator := r\<rparr>)"
  by (auto simp: quiet_def emits_def fin_def fun_eq_iff)

text \<open>A payment is revenue of the pool that sells the product.\<close>

lemma pay_change:
  assumes "pay sha e price_id product_id quantity c = Inr (c', i)"
  shows "\<exists>p. quiet (c\<lparr>st_revenue_by_validator := (st_revenue_by_validator c)
    (p \<mapsto> or_zero (st_revenue_by_validator c p) + attached_deposit e)\<rparr>) c'"
proof -
  have f: "\<exists>p. quiet (c\<lparr>st_revenue_by_validator := (st_revenue_by_validator c)
      (p \<mapsto> or_zero (st_revenue_by_validator c p) + attached_deposit e)\<rparr>) d'"
    if q: "quiet c d" and r: "add_revenue_to_validator p (attached_deposit e) d = Inr d1" "quiet d1 d'" for p d d1 d'
  proof -
    have "st_revenue_by_validator d = st_revenue_by_validator c" using q by (simp add: quiet_def)
    then have "d1 = d\<lparr>st_revenue_by_validator := (st_revenue_by_validator c)(p \<mapsto> or_zero (st_revenue_by_validator c p) + attached_deposit e)\<rparr>"
      using r(1) by (auto simp: add_revenue_to_validator_def res_simps Let_def split: if_splits)
    then show ?thesis using quiet_trans [OF quiet_revenue [OF q]] r(2) by blast
  qed
  have "keeps (\<lambda>(c', _). \<exists>p. quiet (c\<lparr>st_revenue_by_validator := (st_revenue_by_validator c)
      (p \<mapsto> or_zero (st_revenue_by_validator c p) + attached_deposit e)\<rparr>) c') (pay sha e price_id product_id quantity c)"
    unfolding pay_def Let_def by (simp only: keeps_simps) (auto simp: unique_id_quiet res_simps intro!: f)
  then show ?thesis using keepsD [OF _ assms] by fastforce
qed

lemma withdraw_revenue_change:
  assumes "withdraw_revenue_after_get_owner e r p x c = Inr c'"
  shows "\<exists>o'. purse c (st_accounts c) ((st_revenue_by_validator c)(p \<mapsto> 0)) [St_Transfer o' (or_zero (st_revenue_by_validator c p))] c'"
  using assms
  by (auto simp: withdraw_revenue_after_get_owner_def res_simps Let_def purse_def emits_def fin_def fun_eq_iff st_emit_def)

section \<open>Calls\<close>

definition enters :: "env \<Rightarrow> staking \<Rightarrow> staking \<Rightarrow> bool" where
  "enters e c c' \<longleftrightarrow> (\<exists>cont. promise_validator_per_epoch_settlement_then e (action_validator_id cont) cont c = Inr c'
     \<and> pay_back cont \<le> attached_deposit e)"

lemma entersI:
  "promise_validator_per_epoch_settlement_then e p cont c = Inr c' \<Longrightarrow> p = action_validator_id cont \<Longrightarrow> pay_back cont \<le> attached_deposit e
   \<Longrightarrow> enters e c c'"
  by (auto simp: enters_def)

lemma keeps_enters [keeps_simps]:
  "keeps (enters e c) (promise_validator_per_epoch_settlement_then e p cont c)
   \<longleftrightarrow> (\<forall>c'. promise_validator_per_epoch_settlement_then e p cont c = Inr c' \<longrightarrow> enters e c c')"
  by (simp add: keeps_def)

lemma lock_enters: "keeps (enters e c) (st_lock e p i d c)"
  by (auto simp: st_lock_def lock_with_price_id_def lock_one_off_with_catalog_def lock_recurring_subscription_with_catalog_def
    lock_entry_preamble_def keeps_simps res_simps pay_back_def intro: entersI split: price_type.split)

lemma calls_enter:
  "keeps (enters e c) (epoch_settle e p c)" "keeps (enters e c) (st_withdraw e p c)" "keeps (enters e c) (st_unlock e i c)"
  "keeps (enters e c) (st_stake e i j c)" "keeps (enters e c) (st_unstake e i n c)" "keeps (enters e c) (update_subscription e sid tp ta c)"
  by (auto simp: epoch_settle_def st_withdraw_def st_unlock_def st_stake_def st_unstake_def update_subscription_def keeps_simps Let_def
    pay_back_def intro: entersI)

text \<open>What a call does to the books.\<close>

definition call_change :: "env \<Rightarrow> staking \<Rightarrow> staking \<Rightarrow> bool" where
  "call_change e c c' \<longleftrightarrow> quiet c c' \<or> enters e c c' \<or> storage_change (attached_deposit e) c c'
     \<or> (\<exists>p. quiet (c\<lparr>st_revenue_by_validator := (st_revenue_by_validator c)
          (p \<mapsto> or_zero (st_revenue_by_validator c p) + attached_deposit e)\<rparr>) c')"

lemma st_method_change:
  assumes "st_method sha e m c = Inr c'"
  shows "call_change e c c'"
proof -
  note q = governance_quiet catalogue_call_quiet validator_admin_quiet add_validator_quiet subscription_quiet
  note d = q [THEN keepsD] lock_enters [THEN keepsD] calls_enter [THEN keepsD]
  show ?thesis
    using assms
    by (cases m) (auto simp: call_change_def res_simps
      dest: d storage_deposit_change storage_withdraw_change storage_unregister_change pay_change)
qed

lemma owner_method_change:
  assumes "owner_method sha e r cb x c = Inr c'"
  shows "quiet c c' \<or> (\<exists>p o'. purse c (st_accounts c) ((st_revenue_by_validator c)(p \<mapsto> 0))
    [St_Transfer o' (or_zero (st_revenue_by_validator c p))] c')"
proof -
  note q = validator_admin_quiet product_callback_quiet price_callback_quiet create_price_quiet edit_price_quiet
  show ?thesis using assms
    by (cases cb) (auto dest: q [THEN keepsD] withdraw_revenue_change)
qed

section \<open>Tails\<close>

lemma tail_method_change:
  assumes "tail_method sha e cont c = Inr c'"
  shows "(\<exists>n \<le> pay_back cont. flow e (action_validator_id cont) c n c')
    \<or> (\<exists>x. payout_user_withdraw e x (action_validator_id cont) c = Inr c')"
proof (cases cont)
  case (CommitLock p x n d ord)
  then show ?thesis using assms keepsD [OF commit_catalog_lock_flow]
    by (fastforce simp: resolve_lock_def res_simps pay_back_def)
next
  case (CommitRecurringSubscriptionLock p x n i)
  then show ?thesis using assms keepsD [OF recurring_lock_flow]
    by (fastforce simp: resolve_recurring_subscription_lock_after_settle_def res_simps pay_back_def)
next
  case (UnlockQueueUnstake p i x s)
  then show ?thesis using assms keepsD [OF resolve_unlock_burns] flow.burnt by fastforce
next
  case (WithdrawUserTransfer p x)
  then show ?thesis using assms by (auto simp: on_withdraw_user_transfer_after_settle_def res_simps)
next
  case (SettleOnly p)
  then show ?thesis using assms flow.burnt [OF burns.quiet [OF quiet_refl]] by auto
next
  case (SubscriptionUpdate p x n i a s)
  then show ?thesis using assms keepsD [OF subscription_update_flow]
    by (fastforce simp: on_subscription_update_after_settle_def res_simps pay_back_def)
next
  case (CommitFarmStake p x n i j)
  then show ?thesis using assms keepsD [OF farm_stake_flow]
    by (fastforce simp: resolve_farm_stake_def res_simps pay_back_def)
next
  case (FarmUnstakeQueue p x i n)
  then show ?thesis using assms keepsD [OF farm_unstake_burns] flow.burnt
    by (fastforce simp: resolve_farm_unstake_def res_simps)
qed

text \<open>A payout takes the claimable tranches of one user from the bucket of the pool and sends their sum.\<close>

definition pays_out :: "env \<Rightarrow> account_id \<Rightarrow> validator_id \<Rightarrow> nat \<Rightarrow> staking \<Rightarrow> staking \<Rightarrow> bool" where
  "pays_out e x p credit c c' \<longleftrightarrow>
     (let ts = user_tranches (x, p) c; kept = filter (\<lambda>t. epoch_height e < tr_available_epoch_height t) ts
      in credit = sum_tranches (filter (\<lambda>t. tr_available_epoch_height t \<le> epoch_height e) ts) \<and> credit \<le> va_pending_to_claim (fin c p)
       \<and> fin c' = (fin c)(p := (fin c p)\<lparr>va_pending_to_claim := va_pending_to_claim (fin c p) - credit\<rparr>)
       \<and> dom (st_validators c') = dom (st_validators c) \<and> p \<in> dom (st_validators c)
       \<and> st_user_validator_shares c' = st_user_validator_shares c
       \<and> st_user_pending_unstake c' = (st_user_pending_unstake c)((x, p) := if kept = [] then None else Some kept)
       \<and> st_accounts c' = st_accounts c \<and> st_revenue_by_validator c' = st_revenue_by_validator c
       \<and> emits c [St_Transfer x credit] c')"

lemma payout_change:
  assumes "payout_user_withdraw e x p c = Inr c'"
  shows "\<exists>credit. pays_out e x p credit c c'"
proof -
  let ?ts = "user_tranches (x, p) c"
  define kept where "kept = filter (\<lambda>t. epoch_height e < tr_available_epoch_height t) ?ts"
  define credit where "credit = sum_tranches (filter (\<lambda>t. tr_available_epoch_height t \<le> epoch_height e) ?ts)"
  obtain v c1 where v: "st_validators c p = Some v" and k: "set_user_pending_unstake_tranches (x, p) kept c = Inr c1"
    and b: "credit \<le> va_pending_to_claim v"
    and c': "c' = st_emit (St_Transfer x credit) (st_emit (St_Event ''withdraw'' [x, p] [credit])
      (internal_set_validator p (v\<lparr>va_pending_to_claim := va_pending_to_claim v - credit\<rparr>) c1))"
    using assms
    by (auto simp: payout_user_withdraw_def claim_from_withdraw_bucket_def remove_claimable_tranches_def res_simps Let_def
      kept_def [symmetric] credit_def [symmetric])
  note s = set_tranches_books [OF k]
  have f: "fin c1 = fin c" using s by (simp add: fin_def fun_eq_iff)
  have "st_validators c1 p = Some v" using s v by simp
  from pool_change_set [OF this pool_change_refl]
  have 1: "pool_change c1 p (financial (v\<lparr>va_pending_to_claim := va_pending_to_claim v - credit\<rparr>)) []
     (internal_set_validator p (v\<lparr>va_pending_to_claim := va_pending_to_claim v - credit\<rparr>) c1)" .
  have 2: "pool_change c1 p (financial (v\<lparr>va_pending_to_claim := va_pending_to_claim v - credit\<rparr>)) [St_Transfer x credit] c'"
    using pool_change_emit [OF pool_change_emit [OF 1, of "St_Event ''withdraw'' [x, p] [credit]"], of "St_Transfer x credit"]
    by (simp add: c')
  have 3: "financial (v\<lparr>va_pending_to_claim := va_pending_to_claim v - credit\<rparr>)
     = (fin c p)\<lparr>va_pending_to_claim := va_pending_to_claim (fin c p) - credit\<rparr>"
    using v by (simp add: fin_Some financial_def)
  have "pays_out e x p credit c c'"
    using 2 s v b f unfolding pays_out_def Let_def kept_def [symmetric] credit_def [symmetric] pool_change_def emits_def 3
    by (auto simp: fin_Some)
  then show ?thesis ..
qed

end
