(* ===== verification/Staking_Ledger.thy ===== *)
theory Staking_Ledger
  imports Staking_Calls
begin

text \<open>
  The books of the staking contract as sums: the shares of all users of a pool, what the pool owes to users that have left, and
  the NEAR that the account must hold (\<open>money\<close>). Every kind of change keeps the first two right and moves \<open>money\<close> by a known amount.
\<close>

section \<open>Sums over maps\<close>

definition sum_over :: "('b \<Rightarrow> nat) \<Rightarrow> ('a \<rightharpoonup> 'b) \<Rightarrow> nat" where
  "sum_over f m = (\<Sum>k\<in>dom m. f (the (m k)))"

definition entry :: "('b \<Rightarrow> nat) \<Rightarrow> 'b option \<Rightarrow> nat" where
  "entry f x = (case x of None \<Rightarrow> 0 | Some y \<Rightarrow> f y)"

lemma entry_simps [simp]: "entry f None = 0" "entry f (Some y) = f y"
  by (simp_all add: entry_def)

lemma sum_over_remove: "finite (dom m) \<Longrightarrow> sum_over f m = sum_over f (m(k := None)) + entry f (m k)"
  unfolding sum_over_def by (cases "m k") (simp_all add: sum.remove [of "dom m" k] domIff)

lemma sum_over_update:
  assumes "finite (dom m)"
  shows "sum_over f (m(k := v)) + entry f (m k) = sum_over f m + entry f v"
  using sum_over_remove [of "m(k := v)" f k] sum_over_remove [of m f k] assms by simp

lemma sum_over_entry: "finite (dom m) \<Longrightarrow> entry f (m k) \<le> sum_over f m"
  using sum_over_remove [of m f k] by simp

text \<open>The part of a map on users and pools that belongs to one pool.\<close>

definition at :: "validator_id \<Rightarrow> (account_id \<times> validator_id \<rightharpoonup> 'b) \<Rightarrow> (account_id \<rightharpoonup> 'b)" where
  "at p m = (\<lambda>x. m (x, p))"

lemma at_apply [simp]: "at p m x = m (x, p)"
  by (simp add: at_def)

lemma entry_id: "entry (\<lambda>n. n) x = or_zero x"
  by (simp add: entry_def or_zero_def)

lemma or_zero_simps [simp]: "or_zero None = 0" "or_zero (Some n) = n"
  by (simp_all add: or_zero_def)

lemma at_update [simp]: "at p (m((x, q) := v)) = (if q = p then (at p m)(x := v) else at p m)"
  by (auto simp: at_def fun_eq_iff)

lemma finite_at: "finite (dom m) \<Longrightarrow> finite (dom (at p m))"
  by (rule finite_subset [of _ "fst ` dom m"]) (force simp: at_def image_iff | simp)+

section \<open>The books\<close>

definition owed_sum :: "pending_unstake_tranche list \<Rightarrow> nat" where
  "owed_sum ts = sum_list (map tr_amount ts)"

definition user_shares_total :: "validator_id \<Rightarrow> staking \<Rightarrow> nat" where
  "user_shares_total p c = sum_over (\<lambda>n. n) (at p (st_user_validator_shares c))"

definition tranches_total :: "validator_id \<Rightarrow> staking \<Rightarrow> nat" where
  "tranches_total p c = sum_over owed_sum (at p (st_user_pending_unstake c))"

definition owed :: "validator \<Rightarrow> nat" where
  "owed v = va_pending_to_unstake v + va_pending_to_withdraw v + va_pending_to_claim v"

definition held :: "validator \<Rightarrow> nat" where
  "held v = va_pending_to_claim v + va_pending_to_stake v"

definition held_total :: "staking \<Rightarrow> nat" where
  "held_total c = (\<Sum>p\<in>dom (st_validators c). held (fin c p))"

definition storage_total :: "staking \<Rightarrow> nat" where
  "storage_total c = sum_over sa_storage_deposit (st_accounts c)"

definition revenue_total :: "staking \<Rightarrow> nat" where
  "revenue_total c = sum_over (\<lambda>n. n) (st_revenue_by_validator c)"

definition money :: "staking \<Rightarrow> nat" where
  "money c = held_total c + storage_total c + revenue_total c"

definition finite_books :: "staking \<Rightarrow> bool" where
  "finite_books c \<longleftrightarrow> finite (dom (st_validators c)) \<and> finite (dom (st_user_validator_shares c))
     \<and> finite (dom (st_user_pending_unstake c)) \<and> finite (dom (st_accounts c)) \<and> finite (dom (st_revenue_by_validator c))"

definition books_ok :: "staking \<Rightarrow> bool" where
  "books_ok c \<longleftrightarrow> finite_books c \<and> (\<forall>p. va_total_shares (fin c p) = user_shares_total p c) \<and> (\<forall>p. tranches_total p c \<le> owed (fin c p))"

lemma fin_idle: "p \<notin> dom (st_validators c) \<Longrightarrow> fin c p = idle_pool"
  by (simp add: fin_def domIff)

lemma held_idle [simp]: "held idle_pool = 0"
  by (simp add: held_def idle_pool_def)

lemma held_total_change:
  assumes "finite (dom (st_validators c))" and "p \<in> dom (st_validators c)" and "dom (st_validators c') = dom (st_validators c)"
    and "fin c' = (fin c)(p := v)"
  shows "held_total c' + held (fin c p) = held_total c + held v"
proof -
  have "(\<Sum>q\<in>dom (st_validators c) - {p}. held (fin c' q)) = (\<Sum>q\<in>dom (st_validators c) - {p}. held (fin c q))"
    using assms(4) by (intro sum.cong) simp_all
  then show ?thesis
    using assms sum.remove [of "dom (st_validators c)" p "\<lambda>q. held (fin c q)"] sum.remove [of "dom (st_validators c)" p "\<lambda>q. held (fin c' q)"]
    by (simp add: held_total_def)
qed

lemma held_total_ge: "finite (dom (st_validators c)) \<Longrightarrow> held (fin c p) \<le> held_total c"
  unfolding held_total_def by (cases "p \<in> dom (st_validators c)") (auto simp: fin_idle intro: member_le_sum)

text \<open>The parts of the books that a change leaves alone.\<close>

lemmas sums = user_shares_total_def tranches_total_def storage_total_def revenue_total_def

section \<open>Changes\<close>

lemma quiet_books:
  assumes "quiet c c'" and "books_ok c"
  shows "books_ok c' \<and> money c' = money c"
proof -
  have f: "finite (dom (st_validators c'))" "fin c' = fin c" "dom (st_validators c) \<subseteq> dom (st_validators c')"
    using assms by (auto simp: quiet_def books_ok_def finite_books_def)
  have "held_total c' = held_total c" unfolding held_total_def f(2)
    using f by (intro sum.mono_neutral_right) (auto simp: fin_idle)
  then show ?thesis using assms f(1) by (simp add: books_ok_def finite_books_def quiet_def money_def sums)
qed

lemma pool_books:
  assumes "pool_change c p v es c'" and "p \<in> dom (st_validators c)" and "books_ok c"
    and "va_total_shares v = va_total_shares (fin c p)" and "owed (fin c p) \<le> owed v"
  shows "books_ok c' \<and> money c' + held (fin c p) = money c + held v"
proof -
  have "held_total c' + held (fin c p) = held_total c + held v"
    using assms by (intro held_total_change) (auto simp: books_ok_def finite_books_def pool_change_def)
  moreover have "books_ok c'" unfolding books_ok_def
  proof (intro conjI allI)
    show "finite_books c'" using assms(1,3) by (simp add: books_ok_def finite_books_def pool_change_def)
    show "va_total_shares (fin c' q) = user_shares_total q c'" for q
      using assms(1,3,4) by (simp add: books_ok_def pool_change_def sums)
    show "tranches_total q c' \<le> owed (fin c' q)" for q
    proof -
      have "tranches_total q c \<le> owed (fin c q)" using assms(3) by (simp add: books_ok_def)
      then show ?thesis using assms(1,5) by (cases "q = p") (simp_all add: pool_change_def tranches_total_def)
    qed
  qed
  ultimately show ?thesis using assms(1) by (simp add: money_def pool_change_def sums)
qed

lemma unstake_books:
  assumes "internal_unstake e x p s c = Inr (c', a)" and "books_ok c"
  shows "books_ok c' \<and> money c' = money c"
proof -
  note u = internal_unstake_books [OF assms(1)]
  obtain h where h: "st_user_pending_unstake c' = (st_user_pending_unstake c)
     ((x, p) \<mapsto> or_empty (st_user_pending_unstake c (x, p)) @ [\<lparr>tr_amount = a, tr_available_epoch_height = h\<rparr>])" using u(7) by blast
  have f: "finite_books c'" using assms(2) u(3,6,8,9) h by (simp add: books_ok_def finite_books_def)
  have fa: "finite (dom (at q (st_user_validator_shares c)))" "finite (dom (at q (st_user_pending_unstake c)))" for q
    using assms(2) by (simp_all add: books_ok_def finite_books_def finite_at)
  let ?o = "or_zero (st_user_validator_shares c (x, p))"
  have "user_shares_total p c' + ?o = user_shares_total p c + (?o - s)"
    using sum_over_update [OF fa(1), of "\<lambda>n. n" p x "if ?o = s then None else Some (?o - s)"] u(4,6)
    by (auto simp: user_shares_total_def entry_id)
  moreover have "?o \<le> user_shares_total p c"
    using sum_over_entry [OF fa(1), of "\<lambda>n. n" p x] by (simp add: user_shares_total_def entry_id)
  ultimately have s: "user_shares_total p c' = user_shares_total p c - s" using u(4) by linarith
  have t: "tranches_total p c' = tranches_total p c + a"
    using sum_over_update [OF fa(2), of owed_sum p x "Some (or_empty (st_user_pending_unstake c (x, p)) @ [\<lparr>tr_amount = a, tr_available_epoch_height = h\<rparr>])"] h
    by (simp add: tranches_total_def owed_sum_def or_empty_def split: option.splits)
  have other: "user_shares_total q c' = user_shares_total q c" "tranches_total q c' = tranches_total q c" if "q \<noteq> p" for q
    using that u(6) h by (simp_all add: sums)
  have "books_ok c'" unfolding books_ok_def
  proof (intro conjI allI)
    show "va_total_shares (fin c' q) = user_shares_total q c'" for q
      using s other [of q] u(1) assms(2) by (cases "q = p") (simp_all add: books_ok_def)
    show "tranches_total q c' \<le> owed (fin c' q)" for q
    proof -
      have "tranches_total q c \<le> owed (fin c q)" using assms(2) by (simp add: books_ok_def)
      then show ?thesis using t other [of q] u(1) by (cases "q = p") (simp_all add: owed_def)
    qed
  qed (rule f)
  moreover have "held_total c' = held_total c"
    using held_total_change [OF _ u(2,3,1)] assms(2) by (simp add: books_ok_def finite_books_def held_def)
  ultimately show ?thesis using u(8,9) by (simp add: money_def sums)
qed

lemma stake_books:
  assumes "internal_stake x p n c = Inr (c', s)" and "books_ok c" and m: "va_total_shares (fin c' p) < 2 ^ 128 - 1"
  shows "books_ok c' \<and> money c' = money c + n"
proof -
  note u = internal_stake_books [OF assms(1)]
  let ?o = "or_zero (st_user_validator_shares c (x, p))"
  have f: "finite_books c'" using assms(2) u(3-7) by (simp add: books_ok_def finite_books_def)
  have fa: "finite (dom (at q (st_user_validator_shares c)))" for q
    using assms(2) by (simp add: books_ok_def finite_books_def finite_at)
  have tot: "va_total_shares (fin c p) = user_shares_total p c" using assms(2) by (simp add: books_ok_def)
  have ex: "saturating_add 128 (va_total_shares (fin c p)) s = va_total_shares (fin c p) + s" "va_total_shares (fin c p) + s < 2 ^ 128"
    using m u(1) by (auto simp: saturating_add_def min_def split: if_splits)
  have le: "?o \<le> user_shares_total p c"
    using sum_over_entry [OF fa, of "\<lambda>n. n" p x] by (simp add: user_shares_total_def entry_id)
  have ex2: "saturating_add 128 ?o s = ?o + s" using le ex(2) tot by (intro saturating_add_exact) linarith
  have s: "user_shares_total p c' = user_shares_total p c + s"
    using sum_over_update [OF fa, of "\<lambda>n. n" p x "Some (?o + s)"] u(4) ex2
    by (simp add: user_shares_total_def entry_id)
  have other: "user_shares_total q c' = user_shares_total q c" if "q \<noteq> p" for q using that u(4) by (simp add: sums)
  have "books_ok c'" unfolding books_ok_def
  proof (intro conjI allI)
    show "va_total_shares (fin c' q) = user_shares_total q c'" for q
      using s other [of q] u(1) ex(1) assms(2) by (cases "q = p") (simp_all add: books_ok_def)
    show "tranches_total q c' \<le> owed (fin c' q)" for q
      using u(1,5) assms(2) by (simp add: books_ok_def owed_def sums)
  qed (rule f)
  moreover have "held_total c' = held_total c + n"
    using held_total_change [OF _ u(2,3,1)] assms(2) by (simp add: books_ok_def finite_books_def held_def)
  ultimately show ?thesis using u(6,7) by (simp add: money_def sums)
qed

section \<open>Tails and payouts\<close>

text \<open>\<open>v'\<close> differs from \<open>v\<close> in its shares and its unstake queue only.\<close>

definition loosely :: "validator \<Rightarrow> validator \<Rightarrow> bool" where
  "loosely v v' \<longleftrightarrow> (\<exists>s u. v' = v\<lparr>va_total_shares := s, va_pending_to_unstake := u\<rparr>)"

lemma loosely_refl [simp]: "loosely v v"
  unfolding loosely_def by (rule exI [of _ "va_total_shares v"], rule exI [of _ "va_pending_to_unstake v"]) simp

lemma loosely_update: "loosely v (v\<lparr>va_total_shares := s, va_pending_to_unstake := u\<rparr>)"
  by (auto simp: loosely_def)

lemma loosely_trans: "loosely u v \<Longrightarrow> loosely v w \<Longrightarrow> loosely u w"
  unfolding loosely_def by fastforce

lemma looselyD:
  "loosely v v' \<Longrightarrow> va_tx_status v' = va_tx_status v \<and> va_last_settlement_epoch v' = va_last_settlement_epoch v
   \<and> va_total_staked_balance v' = va_total_staked_balance v \<and> held v' = held v"
  by (auto simp: loosely_def held_def)

text \<open>The amounts that no other part of the invariant bounds fit into 128 bits.\<close>

definition width_ok :: "validator \<Rightarrow> bool" where
  "width_ok v \<longleftrightarrow> va_pending_to_unstake v < 2 ^ 128 \<and> va_total_staked_balance v < 2 ^ 128"

lemma burns_emits: "burns e p c c' \<Longrightarrow> emits c [] c'"
proof (induction rule: burns.induct)
  case (unstake x q s c c' a)
  then show ?case using internal_unstake_books(10) emits_refl by blast
next
  case (trans c c1 c2)
  then show ?case using emits_trans by fastforce
qed (simp add: quiet_def)

lemma burns_books: "burns e p c c' \<Longrightarrow> books_ok c \<Longrightarrow> books_ok c' \<and> money c' = money c"
  by (induction rule: burns.induct) (auto dest: unstake_books quiet_books)

text \<open>Burning touches \<open>p\<close> and pools that were settled in this epoch, and those only loosely.\<close>

lemma burns_pool:
  "burns e p c c' \<Longrightarrow> loosely (fin c q) (fin c' q)
     \<and> (q = p \<or> epoch_height e \<le> va_last_settlement_epoch (fin c q) \<or> fin c' q = fin c q)
     \<and> (width_ok (fin c q) \<longrightarrow> width_ok (fin c' q))"
proof (induction rule: burns.induct)
  case (quiet c c')
  then show ?case by (simp add: quiet_def)
next
  case (unstake x q' s c c' a)
  then show ?case using internal_unstake_books(1,11) [OF unstake(1)] by (auto simp: loosely_update width_ok_def)
next
  case (trans c c1 c2)
  then show ?case using loosely_trans looselyD by (metis (no_types))
qed

lemma flow_emits: "flow e p c n c' \<Longrightarrow> emits c [] c'"
proof (induction rule: flow.induct)
  case (minted c c1 x n c2 s c')
  have "emits c1 [] c2" using internal_stake_books(8) [OF minted(2)] by (rule emits_refl)
  then show ?case using emits_trans [OF emits_trans [OF burns_emits [OF minted(1)]]] minted(3) by (fastforce simp: quiet_def)
qed (rule burns_emits)

lemma flow_books:
  assumes "flow e p c n c'" and "books_ok c" and "va_total_shares (fin c' p) < 2 ^ 128 - 1"
  shows "books_ok c' \<and> money c' = money c + n"
  using assms
proof (induction rule: flow.induct)
  case (burnt c c')
  then show ?case using burns_books by simp
next
  case (minted c c1 x n c2 s c')
  have "fin c' = fin c2" using minted(3) by (simp add: quiet_def)
  then show ?case using stake_books [OF minted(2)] burns_books [OF minted(1,4)] quiet_books [OF minted(3)] minted(5) by simp
qed

lemma flow_pool:
  assumes "flow e p c n c'"
  shows "va_tx_status (fin c' p) = va_tx_status (fin c p)"
    and "q \<noteq> p \<Longrightarrow> loosely (fin c q) (fin c' q) \<and> (epoch_height e \<le> va_last_settlement_epoch (fin c q) \<or> fin c' q = fin c q)"
    and "width_ok (fin c q) \<Longrightarrow> width_ok (fin c' q)"
  using assms
proof (induction rule: flow.induct)
  case (burnt c c')
  show "va_tx_status (fin c' p) = va_tx_status (fin c p)" using burns_pool [OF burnt(1), of p] looselyD by simp
  show "q \<noteq> p \<Longrightarrow> loosely (fin c q) (fin c' q) \<and> (epoch_height e \<le> va_last_settlement_epoch (fin c q) \<or> fin c' q = fin c q)"
    using burns_pool [OF burnt(1), of q] by simp
  show "width_ok (fin c q) \<Longrightarrow> width_ok (fin c' q)" using burns_pool [OF burnt(1), of q] by simp
next
  case (minted c c1 x n c2 s c')
  have "fin c' = fin c2" using minted(3) by (simp add: quiet_def)
  with internal_stake_books(1) [OF minted(2)]
  have f: "va_tx_status (fin c' p) = va_tx_status (fin c1 p)" "q \<noteq> p \<Longrightarrow> fin c' q = fin c1 q"
    "width_ok (fin c1 q) \<Longrightarrow> width_ok (fin c' q)" by (auto simp: width_ok_def)
  show "va_tx_status (fin c' p) = va_tx_status (fin c p)" using burns_pool [OF minted(1), of p] looselyD f(1) by simp
  show "q \<noteq> p \<Longrightarrow> loosely (fin c q) (fin c' q) \<and> (epoch_height e \<le> va_last_settlement_epoch (fin c q) \<or> fin c' q = fin c q)"
    using burns_pool [OF minted(1), of q] f(2) by simp
  show "width_ok (fin c q) \<Longrightarrow> width_ok (fin c' q)" using burns_pool [OF minted(1), of q] f(3) by simp
qed

lemma foldl_saturating:
  "foldl (\<lambda>s t. saturating_add w s (tr_amount t)) a ts = min (a + owed_sum ts) (2 ^ w - 1)" if "a \<le> 2 ^ w - 1"
  using that by (induction ts arbitrary: a) (auto simp: owed_sum_def saturating_add_def)

lemma sum_tranches_exact: "sum_tranches ts = min (owed_sum ts) (2 ^ 128 - 1)"
  using foldl_saturating [of 0 128 ts] by (simp add: sum_tranches_def)

lemma owed_sum_split: "owed_sum ts = owed_sum (filter (\<lambda>t. tr_available_epoch_height t \<le> h) ts) + owed_sum (filter (\<lambda>t. h < tr_available_epoch_height t) ts)"
  by (induction ts) (auto simp: owed_sum_def)

lemma payout_books:
  assumes o: "pays_out e x p credit c c'" and b: "books_ok c" and m: "va_pending_to_claim (fin c p) < 2 ^ 128 - 1"
  shows "books_ok c' \<and> money c' + credit = money c"
proof -
  let ?ts = "user_tranches (x, p) c"
  define kept where "kept = filter (\<lambda>t. epoch_height e < tr_available_epoch_height t) ?ts"
  define due where "due = filter (\<lambda>t. tr_available_epoch_height t \<le> epoch_height e) ?ts"
  have u: "credit = sum_tranches due" "credit \<le> va_pending_to_claim (fin c p)"
    "fin c' = (fin c)(p := (fin c p)\<lparr>va_pending_to_claim := va_pending_to_claim (fin c p) - credit\<rparr>)"
    "dom (st_validators c') = dom (st_validators c)" "p \<in> dom (st_validators c)" "st_user_validator_shares c' = st_user_validator_shares c"
    "st_user_pending_unstake c' = (st_user_pending_unstake c)((x, p) := if kept = [] then None else Some kept)"
    "st_accounts c' = st_accounts c" "st_revenue_by_validator c' = st_revenue_by_validator c"
    using o by (simp_all add: pays_out_def Let_def kept_def due_def)
  have ex: "credit = owed_sum due" using u(1,2) m by (auto simp: sum_tranches_exact min_def split: if_splits)
  have fa: "finite (dom (at p (st_user_pending_unstake c)))" using b by (simp add: books_ok_def finite_books_def finite_at)
  have ent: "entry owed_sum (at p (st_user_pending_unstake c) x) = owed_sum ?ts"
    by (simp add: user_tranches_def owed_sum_def split: option.split)
  have "tranches_total p c' + owed_sum ?ts = tranches_total p c + owed_sum kept"
    using sum_over_update [OF fa, of owed_sum x "if kept = [] then None else Some kept"] u(7) ent
    by (auto simp: tranches_total_def owed_sum_def)
  then have t: "tranches_total p c' + credit = tranches_total p c"
    using owed_sum_split [of ?ts "epoch_height e"] ex by (simp add: kept_def due_def)
  have other: "tranches_total q c' = tranches_total q c" if "q \<noteq> p" for q using that u(7) by (simp add: sums)
  have "books_ok c'" unfolding books_ok_def
  proof (intro conjI allI)
    show "finite_books c'" using b u(4,6-9) by (simp add: books_ok_def finite_books_def)
    show "va_total_shares (fin c' q) = user_shares_total q c'" for q using u(3,6) b by (simp add: books_ok_def sums)
    show "tranches_total q c' \<le> owed (fin c' q)" for q
    proof -
      have "tranches_total q c \<le> owed (fin c q)" using b by (simp add: books_ok_def)
      then show ?thesis using t other [of q] u(2,3) by (cases "q = p") (simp_all add: owed_def)
    qed
  qed
  moreover have "held_total c' + credit = held_total c"
    using held_total_change [OF _ u(5,4,3)] b u(2) by (simp add: books_ok_def finite_books_def held_def)
  ultimately show ?thesis using u(8,9) by (simp add: money_def sums)
qed

section \<open>Storage and revenue\<close>

lemma purse_books:
  assumes "purse c acc rvn es c'" and "books_ok c" and "finite (dom acc)" and "finite (dom rvn)"
  shows "books_ok c' \<and> money c' + storage_total c + revenue_total c = money c + sum_over sa_storage_deposit acc + sum_over (\<lambda>n. n) rvn"
proof -
  have "held_total c' = held_total c" using assms(1) by (simp add: held_total_def purse_def)
  then show ?thesis using assms by (simp add: books_ok_def finite_books_def purse_def money_def sums)
qed

lemma storage_books:
  assumes "storage_change n c c'" and "books_ok c"
  shows "\<exists>es. emits c es c' \<and> (\<forall>z \<in> set es. spawn z = []) \<and> fin c' = fin c \<and> books_ok c' \<and> money c' + sum_list (map outflow es) \<le> money c + n"
proof -
  obtain x a es where s: "purse c ((st_accounts c)(x := a)) (st_revenue_by_validator c) es c'" "\<forall>z \<in> set es. spawn z = []"
    "deposit_of a + sum_list (map outflow es) \<le> deposit_of (st_accounts c x) + n" using assms(1) by (auto simp: storage_change_def)
  have f: "finite (dom (st_accounts c))" "finite (dom (st_revenue_by_validator c))" using assms(2) by (simp_all add: books_ok_def finite_books_def)
  have "deposit_of = entry sa_storage_deposit" by (simp add: deposit_of_def entry_def fun_eq_iff)
  then have "sum_over sa_storage_deposit ((st_accounts c)(x := a)) + deposit_of (st_accounts c x) = storage_total c + deposit_of a"
    using sum_over_update [OF f(1), of sa_storage_deposit x a] by (simp add: storage_total_def)
  moreover have "finite (dom ((st_accounts c)(x := a)))" using f(1) by simp
  then have "books_ok c' \<and> money c' + storage_total c + revenue_total c
      = money c + sum_over sa_storage_deposit ((st_accounts c)(x := a)) + sum_over (\<lambda>n. n) (st_revenue_by_validator c)"
    using f(2) by (rule purse_books [OF s(1) assms(2)])
  ultimately have "books_ok c' \<and> money c' + sum_list (map outflow es) \<le> money c + n"
    using s(3) unfolding revenue_total_def by linarith
  then show ?thesis using s(1,2) by (auto simp: purse_def)
qed

lemma revenue_books:
  assumes "books_ok c"
  shows "books_ok (c\<lparr>st_revenue_by_validator := (st_revenue_by_validator c)(p \<mapsto> n)\<rparr>)
    \<and> money (c\<lparr>st_revenue_by_validator := (st_revenue_by_validator c)(p \<mapsto> n)\<rparr>) + or_zero (st_revenue_by_validator c p) = money c + n"
proof -
  let ?c = "c\<lparr>st_revenue_by_validator := (st_revenue_by_validator c)(p \<mapsto> n)\<rparr>"
  have f: "finite (dom (st_accounts c))" "finite (dom (st_revenue_by_validator c))" using assms by (simp_all add: books_ok_def finite_books_def)
  have "purse c (st_accounts c) ((st_revenue_by_validator c)(p \<mapsto> n)) [] ?c"
    by (simp add: purse_def fin_def fun_eq_iff emits_def)
  note b = purse_books [OF this assms]
  have "sum_over (\<lambda>n. n) ((st_revenue_by_validator c)(p \<mapsto> n)) + or_zero (st_revenue_by_validator c p) = revenue_total c + n"
    using sum_over_update [OF f(2), of "\<lambda>n. n" p "Some n"] by (simp add: revenue_total_def or_zero_def entry_def)
  then show ?thesis using b f by (simp add: storage_total_def)
qed

lemma revenue_paid_books:
  assumes "purse c (st_accounts c) ((st_revenue_by_validator c)(p \<mapsto> 0)) es c'" and "books_ok c"
  shows "books_ok c' \<and> money c' + or_zero (st_revenue_by_validator c p) = money c"
proof -
  have f: "finite (dom (st_accounts c))" "finite (dom (st_revenue_by_validator c))" using assms(2) by (simp_all add: books_ok_def finite_books_def)
  have "sum_over (\<lambda>n. n) ((st_revenue_by_validator c)(p \<mapsto> 0)) + or_zero (st_revenue_by_validator c p) = revenue_total c"
    using sum_over_update [OF f(2), of "\<lambda>n. n" p "Some 0"] by (simp add: revenue_total_def or_zero_def entry_def)
  then show ?thesis using purse_books [OF assms] f by (simp add: storage_total_def)
qed

end
