(* ===== verification/Staking_Invariant.thy ===== *)
theory Staking_Invariant
  imports Staking_Ledger
begin

text \<open>
  The invariant of the staking contract and its receipts: the books are right, each busy pool has exactly one receipt under way and that
  receipt fits the queues of the pool, and the account holds the NEAR that the books promise.
\<close>

section \<open>Receipts\<close>

fun pool_of :: "receipt \<Rightarrow> validator_id option" where
  "pool_of (Await_Account p _) = Some p"
| "pool_of (Await_Withdraw p _ _) = Some p"
| "pool_of (Withdraw_Done p _ _ _) = Some p"
| "pool_of (After_Withdraw p _ _) = Some p"
| "pool_of (Await_Stake p _ _) = Some p"
| "pool_of (Stake_Done p _ _ _) = Some p"
| "pool_of (Await_Unstake p _ _) = Some p"
| "pool_of (Unstake_Done p _ _ _) = Some p"
| "pool_of (Dispatch p _) = Some p"
| "pool_of (Tail p _) = Some p"
| "pool_of (Release p _ _) = Some p"
| "pool_of (Terminal p) = Some p"
| "pool_of (Await_Owner _ _ _) = None"

text \<open>How far a receipt is from the end of its chain.\<close>

fun rank :: "receipt \<Rightarrow> nat" where
  "rank (Await_Account _ _) = 10"
| "rank (Await_Withdraw _ _ _) = 9"
| "rank (Withdraw_Done _ _ _ _) = 8"
| "rank (After_Withdraw _ _ _) = 7"
| "rank (Await_Stake _ _ _) = 6"
| "rank (Stake_Done _ _ _ _) = 5"
| "rank (Await_Unstake _ _ _) = 6"
| "rank (Unstake_Done _ _ _ _) = 5"
| "rank (Dispatch _ _) = 4"
| "rank (Tail _ _) = 3"
| "rank (Release _ _ _) = 2"
| "rank (Terminal _) = 1"
| "rank (Await_Owner _ _ _) = 1"

text \<open>NEAR in the account that belongs to the action of a receipt, not to the books.\<close>

fun carry :: "receipt \<Rightarrow> nat" where
  "carry (Await_Account _ cont) = pay_back cont"
| "carry (Await_Withdraw _ _ cont) = pay_back cont"
| "carry (Withdraw_Done _ n b cont) = pay_back cont + (if b then n else 0)"
| "carry (After_Withdraw _ _ cont) = pay_back cont"
| "carry (Await_Stake _ _ cont) = pay_back cont"
| "carry (Stake_Done _ _ _ cont) = pay_back cont"
| "carry (Await_Unstake _ _ cont) = pay_back cont"
| "carry (Unstake_Done _ _ _ cont) = pay_back cont"
| "carry (Dispatch _ cont) = pay_back cont"
| "carry (Tail _ cont) = pay_back cont"
| "carry (Release _ b cont) = (if b then 0 else pay_back cont)"
| "carry (Terminal _) = 0"
| "carry (Await_Owner _ _ _) = 0"

definition carry_total :: "receipt multiset \<Rightarrow> nat" where
  "carry_total M = sum_mset (image_mset carry M)"

text \<open>A stake or an unstake under way is for the difference of the two queues, which do not change before it is done.\<close>

definition staking_net :: "nat \<Rightarrow> validator \<Rightarrow> nat \<Rightarrow> bool" where
  "staking_net h v n \<longleftrightarrow> va_pending_to_unstake v < va_pending_to_stake v \<and> n = va_pending_to_stake v - va_pending_to_unstake v
     \<and> va_last_settlement_epoch v < h"

definition unstaking_net :: "nat \<Rightarrow> validator \<Rightarrow> nat \<Rightarrow> bool" where
  "unstaking_net h v n \<longleftrightarrow> va_pending_to_stake v < va_pending_to_unstake v \<and> n = va_pending_to_unstake v - va_pending_to_stake v
     \<and> va_last_settlement_epoch v < h"

definition sound_balance :: "validator \<Rightarrow> bool" where
  "sound_balance v \<longleftrightarrow> va_total_staked_balance v < 2 ^ 127"

fun receipt_ok :: "nat \<Rightarrow> validator \<Rightarrow> receipt \<Rightarrow> bool" where
  "receipt_ok h v (Await_Account p cont) \<longleftrightarrow> action_validator_id cont = p"
| "receipt_ok h v (Await_Withdraw p n cont) \<longleftrightarrow> action_validator_id cont = p \<and> sound_balance v"
| "receipt_ok h v (Withdraw_Done p n b cont) \<longleftrightarrow> action_validator_id cont = p \<and> sound_balance v"
| "receipt_ok h v (After_Withdraw p r cont) \<longleftrightarrow> action_validator_id cont = p \<and> sound_balance v"
| "receipt_ok h v (Await_Stake p n cont) \<longleftrightarrow> action_validator_id cont = p \<and> sound_balance v \<and> staking_net h v n"
| "receipt_ok h v (Stake_Done p n b cont) \<longleftrightarrow> action_validator_id cont = p \<and> sound_balance v \<and> staking_net h v n"
| "receipt_ok h v (Await_Unstake p n cont) \<longleftrightarrow> action_validator_id cont = p \<and> unstaking_net h v n"
| "receipt_ok h v (Unstake_Done p n b cont) \<longleftrightarrow> action_validator_id cont = p \<and> unstaking_net h v n"
| "receipt_ok h v (Dispatch p cont) \<longleftrightarrow> action_validator_id cont = p"
| "receipt_ok h v (Tail p cont) \<longleftrightarrow> action_validator_id cont = p"
| "receipt_ok h v (Release p b cont) \<longleftrightarrow> action_validator_id cont = p"
| "receipt_ok h v (Terminal p) \<longleftrightarrow> True"
| "receipt_ok h v (Await_Owner p x cb) \<longleftrightarrow> True"

definition receipts_at :: "validator_id \<Rightarrow> receipt multiset \<Rightarrow> receipt multiset" where
  "receipts_at p M = filter_mset (\<lambda>r. pool_of r = Some p) M"

definition pool_pipe :: "nat \<Rightarrow> validator \<Rightarrow> receipt multiset \<Rightarrow> bool" where
  "pool_pipe h v N \<longleftrightarrow> width_ok v \<and> (if va_tx_status v = Tx_Busy then \<exists>r. N = {#r#} \<and> receipt_ok h v r else N = {#})"

definition solvent :: "st_world \<Rightarrow> bool" where
  "solvent w \<longleftrightarrow> int (money (sw_contract w)) + int (carry_total (sw_receipts w)) \<le> sw_cash w + int (sent_total (sw_receipts w))"

definition st_inv :: "st_world \<Rightarrow> bool" where
  "st_inv w \<longleftrightarrow> books_ok (sw_contract w) \<and> in_range w \<and> solvent w
     \<and> (\<forall>p. pool_pipe (sw_epoch w) (fin (sw_contract w) p) (receipts_at p (sw_receipts w)))"

lemma receipts_at_union [simp]: "receipts_at p (M + N) = receipts_at p M + receipts_at p N"
  by (simp add: receipts_at_def)

lemma receipts_at_add [simp]: "receipts_at p (add_mset r M) = (if pool_of r = Some p then add_mset r (receipts_at p M) else receipts_at p M)"
  by (simp add: receipts_at_def)

lemma receipts_at_empty [simp]: "receipts_at p {#} = {#}"
  by (simp add: receipts_at_def)

lemma totals_add [simp]:
  "carry_total (M + N) = carry_total M + carry_total N" "sent_total (M + N) = sent_total M + sent_total N"
  "carry_total (add_mset r M) = carry r + carry_total M" "sent_total (add_mset r M) = sent r + sent_total M"
  "carry_total {#} = 0" "sent_total {#} = 0"
  by (simp_all add: carry_total_def sent_total_def)

lemma initial_inv:
  assumes "st_initial w"
  shows "st_inv w"
proof -
  obtain e config c where n: "staking_new e config = Inr c" and c: "sw_contract w = c" using assms by (auto simp: st_initial_def)
  from n have e: "st_validators c = Map.empty" "st_user_validator_shares c = Map.empty"
    "st_user_pending_unstake c = Map.empty" "st_accounts c = Map.empty"
    "st_revenue_by_validator c = Map.empty"
    by (auto simp: staking_new_def res_simps)
  have "fin c p = idle_pool" for p by (simp add: fin_def e)
  then show ?thesis using assms
    by (simp add: st_inv_def books_ok_def finite_books_def c e in_range_def solvent_def money_def held_total_def sums sum_over_def
      st_initial_def pool_pipe_def idle_pool_def at_def width_ok_def)
qed

section \<open>What a call sends\<close>

definition follow :: "staking_effect list \<Rightarrow> receipt list" where
  "follow es = concat (map spawn es)"

definition spent :: "staking_effect list \<Rightarrow> nat" where
  "spent es = sum_list (map outflow es)"

lemma follow_simps [simp]: "follow [] = []" "follow (x # es) = spawn x @ follow es"
  by (simp_all add: follow_def)

lemma spent_simps [simp]: "spent [] = 0" "spent (x # es) = outflow x + spent es"
  by (simp_all add: spent_def)

lemma follow_quiet: "\<forall>z \<in> set es. spawn z = [] \<Longrightarrow> follow es = []"
  by (induction es) simp_all

text \<open>Harmless effects leave at most a question for the owner of a pool behind.\<close>

lemma harmless_effects:
  assumes "filter (\<lambda>x. \<not> harmless x) xs = es"
  shows "spent xs = spent es" "receipts_at p (mset (follow xs)) = receipts_at p (mset (follow es))"
    "carry_total (mset (follow xs)) = carry_total (mset (follow es))" "sent_total (mset (follow xs)) = sent_total (mset (follow es))"
proof -
  have h: "harmless x \<Longrightarrow> spawn x = [] \<or> (\<exists>q y cb. spawn x = [Await_Owner q y cb])" "harmless x \<Longrightarrow> outflow x = 0" for x
    by (cases x; simp)+
  have "spent xs = spent (filter (\<lambda>x. \<not> harmless x) xs) \<and> receipts_at p (mset (follow xs)) = receipts_at p (mset (follow (filter (\<lambda>x. \<not> harmless x) xs)))
    \<and> carry_total (mset (follow xs)) = carry_total (mset (follow (filter (\<lambda>x. \<not> harmless x) xs)))
    \<and> sent_total (mset (follow xs)) = sent_total (mset (follow (filter (\<lambda>x. \<not> harmless x) xs)))"
    by (induction xs) (use h in fastforce)+
  then show "spent xs = spent es" "receipts_at p (mset (follow xs)) = receipts_at p (mset (follow es))"
    "carry_total (mset (follow xs)) = carry_total (mset (follow es))" "sent_total (mset (follow xs)) = sent_total (mset (follow es))"
    using assms by simp_all
qed

lemma absorb_emits:
  assumes "emits (sw_contract w) es c'" and "w' = absorb c' g rs w"
  shows "sw_contract w' = c'" "sw_epoch w' = sw_epoch w" "sw_cash w' = sw_cash w + int g - int (spent es)"
    "receipts_at p (sw_receipts w') = receipts_at p (sw_receipts w) + receipts_at p (mset (rs @ follow es))"
    "carry_total (sw_receipts w') = carry_total (sw_receipts w) + carry_total (mset (rs @ follow es))"
    "sent_total (sw_receipts w') = sent_total (sw_receipts w) + sent_total (mset (rs @ follow es))"
proof -
  obtain xs where xs: "new_effects (sw_contract w) c' = xs" "filter (\<lambda>x. \<not> harmless x) xs = es"
    using assms(1) by (auto simp: emits_def new_effects_def)
  note h = harmless_effects [OF xs(2)]
  show "sw_contract w' = c'" "sw_epoch w' = sw_epoch w" "sw_cash w' = sw_cash w + int g - int (spent es)"
    "receipts_at p (sw_receipts w') = receipts_at p (sw_receipts w) + receipts_at p (mset (rs @ follow es))"
    "carry_total (sw_receipts w') = carry_total (sw_receipts w) + carry_total (mset (rs @ follow es))"
    "sent_total (sw_receipts w') = sent_total (sw_receipts w) + sent_total (mset (rs @ follow es))"
    using h h(2) [of p] by (simp_all add: assms(2) absorb_def xs(1) Let_def follow_def [symmetric] spent_def [symmetric] ac_simps)
qed

section \<open>Steps\<close>

lemma inv_held:
  assumes "st_inv w"
  shows "held (fin (sw_contract w) p) < 2 ^ 127"
proof -
  have "held (fin (sw_contract w) p) \<le> held_total (sw_contract w)"
    using assms by (intro held_total_ge) (simp add: st_inv_def books_ok_def finite_books_def)
  moreover have "int (money (sw_contract w)) < 2 ^ 127" using assms by (auto simp: st_inv_def solvent_def in_range_def)
  ultimately show ?thesis by (simp add: money_def)
qed

lemma inv_receipt:
  assumes "st_inv w" and "r \<in># sw_receipts w" and "pool_of r = Some p"
  shows "busy (sw_contract w) p" "receipts_at p (sw_receipts w) = {#r#}" "receipt_ok (sw_epoch w) (fin (sw_contract w) p) r"
    "p \<in> dom (st_validators (sw_contract w))"
proof -
  have r: "r \<in># receipts_at p (sw_receipts w)" using assms(2,3) by (simp add: receipts_at_def)
  have "pool_pipe (sw_epoch w) (fin (sw_contract w) p) (receipts_at p (sw_receipts w))" using assms(1) by (simp add: st_inv_def)
  with r show b: "busy (sw_contract w) p" and "receipts_at p (sw_receipts w) = {#r#}"
    and "receipt_ok (sw_epoch w) (fin (sw_contract w) p) r"
    by (auto simp: pool_pipe_def split: if_splits)
  show "p \<in> dom (st_validators (sw_contract w))" using b by (rule_tac ccontr) (simp add: fin_idle idle_pool_def)
qed

text \<open>A pool that a step of another pool may have touched.\<close>

definition undisturbed :: "nat \<Rightarrow> validator \<Rightarrow> validator \<Rightarrow> bool" where
  "undisturbed h v v' \<longleftrightarrow> v' = v \<or> loosely v v' \<and> h \<le> va_last_settlement_epoch v \<and> (width_ok v \<longrightarrow> width_ok v')"

lemma pool_pipe_undisturbed:
  assumes "undisturbed h v v'" and "pool_pipe h v N"
  shows "pool_pipe h v' N"
proof (cases "v' = v")
  case False
  then have l: "loosely v v'" "h \<le> va_last_settlement_epoch v" "width_ok v \<longrightarrow> width_ok v'" using assms(1) by (auto simp: undisturbed_def)
  have "receipt_ok h v' r" if "receipt_ok h v r" for r
    using that l(2) looselyD [OF l(1)] by (cases r) (auto simp: sound_balance_def staking_net_def unstaking_net_def)
  then show ?thesis using assms(2) looselyD [OF l(1)] l(3) by (auto simp: pool_pipe_def)
qed (use assms in simp)

text \<open>The receipts \<open>new\<close> continue the chain of a pool below rank \<open>k\<close>, or end it.\<close>

definition handed :: "nat \<Rightarrow> nat \<Rightarrow> validator_id \<Rightarrow> validator \<Rightarrow> receipt list \<Rightarrow> bool" where
  "handed h k p v new \<longleftrightarrow> width_ok v \<and> (new = [] \<and> va_tx_status v = Tx_Idle
     \<or> (\<exists>a. new = [a] \<and> pool_of a = Some p \<and> rank a < k \<and> va_tx_status v = Tx_Busy \<and> receipt_ok h v a))"

lemma handed_pipe: "handed h k p v new \<Longrightarrow> pool_pipe h v (receipts_at p (mset new)) \<and> (\<forall>q. q \<noteq> p \<longrightarrow> receipts_at q (mset new) = {#})"
  by (auto simp: handed_def pool_pipe_def)

lemma handed_next: "va_tx_status v = Tx_Busy \<Longrightarrow> width_ok v \<Longrightarrow> action_validator_id cont = p \<Longrightarrow> 3 < k \<Longrightarrow> handed h k p v (spawn (next_effect cont))"
  by (cases cont) (auto simp: handed_def next_effect_def)

lemma carry_next [simp]: "carry_total (mset (spawn (next_effect cont))) = pay_back cont" "sent_total (mset (spawn (next_effect cont))) = 0"
  by (cases cont; simp add: next_effect_def pay_back_def)+

definition roomy :: "validator \<Rightarrow> bool" where
  "roomy v \<longleftrightarrow> va_pending_to_withdraw v < 2 ^ 128 - 1 \<and> va_total_shares v < 2 ^ 128 - 1"

lemma in_range_roomy: "in_range w \<Longrightarrow> roomy (fin (sw_contract w) p)"
  by (cases "st_validators (sw_contract w) p") (auto simp: in_range_def roomy_def fin_def idle_pool_def)

text \<open>
  A receipt \<open>r\<close> of the pool \<open>p\<close> turns the contract \<open>c\<close> into \<open>c'\<close>: \<open>g\<close> arrives, \<open>out\<close> leaves, and \<open>new\<close> follows.
\<close>

definition moves :: "nat \<Rightarrow> validator_id \<Rightarrow> receipt \<Rightarrow> nat \<Rightarrow> staking \<Rightarrow> staking \<Rightarrow> receipt list \<Rightarrow> nat \<Rightarrow> bool" where
  "moves h p r g c c' new out \<longleftrightarrow> handed h (rank r) p (fin c' p) new \<and> (\<forall>q. q \<noteq> p \<longrightarrow> undisturbed h (fin c q) (fin c' q))
     \<and> (roomy (fin c' p) \<longrightarrow> books_ok c'
         \<and> money c' + carry_total (mset new) + out + sent r \<le> money c + g + sent_total (mset new) + carry r)"

lemma moves_inv:
  assumes i: "st_inv w" and r: "r \<in># sw_receipts w" "pool_of r = Some p"
    and e: "emits (sw_contract w) es c'" and m: "moves (sw_epoch w) p r g (sw_contract w) c' (rs @ follow es) (spent es)"
    and w': "w' = absorb c' g rs (w\<lparr>sw_receipts := sw_receipts w - {#r#}\<rparr>)" and ir: "in_range w'"
  shows "st_inv w'"
proof -
  let ?w = "w\<lparr>sw_receipts := sw_receipts w - {#r#}\<rparr>"
  have R: "sw_receipts w = add_mset r (sw_receipts ?w)" using r(1) by simp
  have a: "sw_contract w' = c'" "sw_epoch w' = sw_epoch w" "sw_cash w' = sw_cash w + int g - int (spent es)"
    "receipts_at q (sw_receipts w') = receipts_at q (sw_receipts ?w) + receipts_at q (mset (rs @ follow es))"
    "carry_total (sw_receipts w') = carry_total (sw_receipts ?w) + carry_total (mset (rs @ follow es))"
    "sent_total (sw_receipts w') = sent_total (sw_receipts ?w) + sent_total (mset (rs @ follow es))" for q
    using absorb_emits [OF _ w', of es] e by simp_all
  have b: "books_ok c' \<and> money c' + carry_total (mset (rs @ follow es)) + spent es + sent r
      \<le> money (sw_contract w) + g + sent_total (mset (rs @ follow es)) + carry r"
    using m in_range_roomy [OF ir, of p] a(1) by (simp add: moves_def)
  have "carry_total (sw_receipts w) = carry r + carry_total (sw_receipts ?w)" "sent_total (sw_receipts w) = sent r + sent_total (sw_receipts ?w)"
    using totals_add(3,4) R by metis+
  moreover have "solvent w" using i by (simp add: st_inv_def)
  ultimately have "solvent w'" using b a(3,5,6) unfolding solvent_def a(1) by linarith
  have hp: "pool_pipe (sw_epoch w) (fin c' p) (receipts_at p (mset (rs @ follow es)))" "q \<noteq> p \<Longrightarrow> receipts_at q (mset (rs @ follow es)) = {#}" for q
    using handed_pipe m unfolding moves_def by blast+
  have "pool_pipe (sw_epoch w') (fin c' q) (receipts_at q (sw_receipts w'))" for q
  proof (cases "q = p")
    case True
    have "receipts_at p (sw_receipts w) = add_mset r (receipts_at p (sw_receipts ?w))" using R r(2) receipts_at_add by metis
    then have "receipts_at p (sw_receipts ?w) = {#}" using inv_receipt(2) [OF i r] by simp
    then show ?thesis using hp(1) True unfolding a(2,4) by simp
  next
    case False
    have "receipts_at q (sw_receipts ?w) = receipts_at q (sw_receipts w)" using R r(2) False receipts_at_add by (metis option.inject)
    moreover have "undisturbed (sw_epoch w) (fin (sw_contract w) q) (fin c' q)" using m False by (simp add: moves_def)
    moreover have "pool_pipe (sw_epoch w) (fin (sw_contract w) q) (receipts_at q (sw_receipts w))" using i by (simp add: st_inv_def)
    ultimately show ?thesis using hp(2) [OF False] pool_pipe_undisturbed unfolding a(2,4) by simp
  qed
  with \<open>solvent w'\<close> show ?thesis using b ir a(1) by (simp add: st_inv_def)
qed

text \<open>A step that changes only the pool of the receipt.\<close>

lemma pool_moves:
  assumes "pool_change c p v es c'" and "p \<in> dom (st_validators c)" and "books_ok c"
    and "va_total_shares v = va_total_shares (fin c p)" and "roomy v \<Longrightarrow> owed (fin c p) \<le> owed v"
    and "handed h (rank r) p v new"
    and "held v + carry_total (mset new) + out + sent r \<le> held (fin c p) + g + sent_total (mset new) + carry r"
  shows "moves h p r g c c' new out"
proof -
  have f: "fin c' = (fin c)(p := v)" using assms(1) by (simp add: pool_change_def)
  have "books_ok c' \<and> money c' + carry_total (mset new) + out + sent r \<le> money c + g + sent_total (mset new) + carry r" if "roomy v"
    using pool_books [OF assms(1-4) assms(5) [OF that]] assms(7) by linarith
  then show ?thesis using f assms(6) by (simp add: moves_def undisturbed_def)
qed

section \<open>Deliveries\<close>

text \<open>What is known when a receipt \<open>r\<close> of the pool \<open>p\<close> is delivered.\<close>

definition due :: "st_world \<Rightarrow> env \<Rightarrow> receipt \<Rightarrow> validator_id \<Rightarrow> bool" where
  "due w e r p \<longleftrightarrow> st_inv w \<and> r \<in># sw_receipts w \<and> pool_of r = Some p \<and> self_call e \<and> epoch_height e = sw_epoch w"

lemma due_facts:
  assumes "due w e r p"
  obtains v where "st_validators (sw_contract w) p = Some v" "va_tx_status v = Tx_Busy" "fin (sw_contract w) p = financial v"
    "receipt_ok (sw_epoch w) (fin (sw_contract w) p) r" "va_pending_to_claim v + va_pending_to_stake v < 2 ^ 127"
    "p \<in> dom (st_validators (sw_contract w))" "books_ok (sw_contract w)" "self_call e" "epoch_height e = sw_epoch w" "st_validators (sw_contract w) p \<noteq> None"
    "width_ok (fin (sw_contract w) p)"
proof -
  have d: "st_inv w" "r \<in># sw_receipts w" "pool_of r = Some p" "self_call e" "epoch_height e = sw_epoch w"
    using assms by (simp_all add: due_def)
  note r = inv_receipt [OF d(1-3)]
  obtain v where v: "st_validators (sw_contract w) p = Some v" using r(4) by blast
  have f: "fin (sw_contract w) p = financial v" using v by (rule fin_Some)
  have "va_pending_to_claim v + va_pending_to_stake v < 2 ^ 127" using inv_held [OF d(1), of p] f by (simp add: held_def)
  moreover have "width_ok (fin (sw_contract w) p)" using d(1) by (simp add: st_inv_def pool_pipe_def)
  ultimately show thesis using that [OF v _ f r(3) _ r(4) _ d(4,5)] r(1) f d(1) v by (simp add: st_inv_def)
qed

text \<open>The result of a delivery.\<close>

definition delivered :: "st_world \<Rightarrow> receipt \<Rightarrow> validator_id \<Rightarrow> staking \<times> receipt list \<times> nat \<Rightarrow> bool" where
  "delivered w r p d \<longleftrightarrow> (case d of (c', rs, g) \<Rightarrow>
     \<exists>es. emits (sw_contract w) es c' \<and> moves (sw_epoch w) p r g (sw_contract w) c' (rs @ follow es) (spent es))"

lemma deliveredI:
  "pool_change (sw_contract w) p v es c' \<Longrightarrow> moves (sw_epoch w) p r g (sw_contract w) c' (rs @ follow es) (spent es) \<Longrightarrow> delivered w r p (c', rs, g)"
  by (auto simp: delivered_def pool_change_def)

text \<open>A delivery that changes nothing but the receipt.\<close>

lemma pass_on:
  assumes d: "due w e r p" and k: "pool_of a = Some p" "rank a < rank r" "receipt_ok (sw_epoch w) (fin (sw_contract w) p) a"
    and m: "carry a + sent r \<le> carry r + sent a + g"
  shows "delivered w r p (sw_contract w, [a], g)"
proof (rule due_facts [OF d])
  fix v assume v: "va_tx_status v = Tx_Busy" "fin (sw_contract w) p = financial v" "p \<in> dom (st_validators (sw_contract w))" "books_ok (sw_contract w)"
    and wd: "width_ok (fin (sw_contract w) p)"
  show ?thesis using wd k m v by (intro deliveredI [OF pool_change_refl] pool_moves [OF pool_change_refl]) (auto simp: handed_def width_ok_def)
qed

lemma settle_delivered:
  assumes d: "due w e r p" and c: "pool_change (sw_contract w) p v' es c'" and s: "settle_ok (sw_epoch w) cont p v1 v' es"
    and v1: "v1 = (fin (sw_contract w) p)\<lparr>va_total_staked_balance := t\<rparr>" "sound_balance v1"
    and r: "6 < rank r" "carry r = pay_back cont" "sent r = 0" "action_validator_id cont = p"
  shows "delivered w r p (c', [], 0)"
proof (rule due_facts [OF d])
  fix v assume v: "va_tx_status v = Tx_Busy" "fin (sw_contract w) p = financial v" "p \<in> dom (st_validators (sw_contract w))" "books_ok (sw_contract w)"
    and wd: "width_ok (fin (sw_contract w) p)"
  have b: "va_tx_status v1 = Tx_Busy" using v v1 by simp
  have s': "va_tx_status v' = Tx_Busy" "va_total_shares v' = va_total_shares (fin (sw_contract w) p)" "held v' = held (fin (sw_contract w) p)"
    "owed v' = owed (fin (sw_contract w) p)" "width_ok v'"
    using s v1 b wd unfolding settle_ok_def held_def owed_def width_ok_def sound_balance_def by auto
  consider (go) "es = [next_effect cont]" | (stk) n where "es = [St_Pool_Stake p n cont]" "v' = v1" "staking_net (sw_epoch w) v1 n"
    | (unst) n where "es = [St_Pool_Unstake p n cont]" "v' = v1" "unstaking_net (sw_epoch w) v1 n"
    using s by (auto simp: settle_ok_def staking_net_def unstaking_net_def)
  then have "handed (sw_epoch w) (rank r) p v' (follow es)
    \<and> carry_total (mset (follow es)) + spent es \<le> sent_total (mset (follow es)) + pay_back cont"
  proof cases
    case go
    then show ?thesis using handed_next [OF s'(1,5) r(4), of "rank r"] r(1) by simp
  qed (use r b v1(2) s'(5) in \<open>auto simp: handed_def\<close>)
  then show ?thesis using wd s'(2-4) r(2,3) v(3,4) by (intro deliveredI [OF c] pool_moves [OF c]) simp_all
qed

lemma deliver_account:
  assumes d: "due w e (Await_Account p cont) p" and a: "plausible_answer (Ans_Account a)"
  shows "delivered w (Await_Account p cont) p (keep (on_epoch_settlement_after_pool_account e a p cont (sw_contract w)) (sw_contract w), [], 0)"
proof (rule due_facts [OF d])
  let ?c = "sw_contract w"
  fix v assume v: "st_validators ?c p = Some v" "va_tx_status v = Tx_Busy" "fin ?c p = financial v"
    "receipt_ok (sw_epoch w) (fin ?c p) (Await_Account p cont)"
    "va_pending_to_claim v + va_pending_to_stake v < 2 ^ 127" "p \<in> dom (st_validators ?c)" "books_ok ?c" "self_call e" "epoch_height e = sw_epoch w"
    and wd: "width_ok (fin (sw_contract w) p)"
  show ?thesis
  proof (cases a)
    case None
    obtain c' v' es where c: "on_epoch_settlement_after_pool_account e None p cont ?c = Inr c'" "pool_change ?c p v' es c'"
      and e: "v' = (fin ?c p)\<lparr>va_tx_status := Tx_Idle\<rparr> \<and> (\<exists>x. es = [St_Transfer x (pay_back cont)])
        \<or> v' = fin ?c p \<and> es = [St_Release p] \<and> pay_back cont = 0"
      using account_failed_change [of ?c p e cont] v(1,8) by auto
    have "delivered w (Await_Account p cont) p (c', [], 0)"
      using wd e v by (intro deliveredI [OF c(2)] pool_moves [OF c(2)]) (auto simp: handed_def width_ok_def owed_def held_def)
    then show ?thesis by (simp add: None c(1) keep_def)
  next
    case (Some b)
    let ?v1 = "(fin ?c p)\<lparr>va_total_staked_balance := pool_total_balance b\<rparr>"
    have sb: "sound_balance ?v1" using a Some by (simp add: sound_balance_def pool_total_balance_def saturating_add_def add.commute)
    have "va_pending_to_claim v + va_pending_to_stake v < 2 ^ 128" using v(5) by simp
    then obtain c' v' es where c: "on_epoch_settlement_after_pool_account e (Some b) p cont ?c = Inr c'" "pool_change ?c p v' es c'"
      and e: "v' = ?v1 \<and> es = [St_Pool_Withdraw p (pa_unstaked_balance b) cont] \<or> settle_ok (sw_epoch w) cont p ?v1 v' es"
      using account_change [OF v(1,2) _ v(8), of b cont] v(9) by auto
    from e have "delivered w (Await_Account p cont) p (c', [], 0)"
    proof
      assume "v' = ?v1 \<and> es = [St_Pool_Withdraw p (pa_unstaked_balance b) cont]"
      then show ?thesis using wd v sb by (intro deliveredI [OF c(2)] pool_moves [OF c(2)]) (auto simp: handed_def width_ok_def owed_def held_def sound_balance_def)
    next
      assume "settle_ok (sw_epoch w) cont p ?v1 v' es"
      then show ?thesis using v(4) by (intro settle_delivered [OF d c(2) _ refl sb]) simp_all
    qed
    then show ?thesis by (simp add: Some c(1) keep_def)
  qed
qed

lemma deliver_withdraw_done:
  assumes d: "due w e (Withdraw_Done p n b cont) p"
  shows "delivered w (Withdraw_Done p n b cont) p (case on_epoch_withdraw_transfer_done e b p n (sw_contract w) of
        Inl _ \<Rightarrow> (sw_contract w, [After_Withdraw p None cont], 0)
      | Inr (c', r) \<Rightarrow> (c', [After_Withdraw p (Some r) cont], 0))"
proof (rule due_facts [OF d])
  let ?c = "sw_contract w"
  fix v assume v: "va_tx_status v = Tx_Busy" "fin ?c p = financial v" "receipt_ok (sw_epoch w) (fin ?c p) (Withdraw_Done p n b cont)"
    "p \<in> dom (st_validators ?c)" "books_ok ?c"
    and wd: "width_ok (fin (sw_contract w) p)"
  show ?thesis
  proof (cases "on_epoch_withdraw_transfer_done e b p n ?c")
    case (Inl x)
    have "delivered w (Withdraw_Done p n b cont) p (?c, [After_Withdraw p None cont], 0)" using v(3) by (intro pass_on [OF d]) simp_all
    then show ?thesis by (simp add: Inl)
  next
    case (Inr cr)
    obtain c' r where cr: "cr = (c', r)" by (cases cr)
    obtain v' where c: "pool_change ?c p v' [] c'" and e: "v' = fin ?c p \<or> b
      \<and> v' = (fin ?c p)\<lparr>va_total_staked_balance := va_total_staked_balance (fin ?c p) - n,
        va_pending_to_withdraw := va_pending_to_withdraw (fin ?c p) - n, va_pending_to_claim := va_pending_to_claim (fin ?c p) + n\<rparr>"
      using withdraw_done_change [OF Inr [unfolded cr]] by blast
    from e have "delivered w (Withdraw_Done p n b cont) p (c', [After_Withdraw p (Some r) cont], 0)"
      using wd v by (intro deliveredI [OF c] pool_moves [OF c]) (auto simp: handed_def width_ok_def owed_def held_def sound_balance_def)
    then show ?thesis by (simp add: Inr cr)
  qed
qed

lemma deliver_after_withdraw:
  assumes d: "due w e (After_Withdraw p r cont) p"
  shows "delivered w (After_Withdraw p r cont) p (keep (on_after_pool_withdraw_maybe_settle e r p cont (sw_contract w)) (sw_contract w), [], 0)"
proof (rule due_facts [OF d])
  let ?c = "sw_contract w"
  fix v assume v: "st_validators ?c p = Some v" "va_tx_status v = Tx_Busy" "fin ?c p = financial v"
    "receipt_ok (sw_epoch w) (fin ?c p) (After_Withdraw p r cont)"
    "va_pending_to_claim v + va_pending_to_stake v < 2 ^ 127" "p \<in> dom (st_validators ?c)" "books_ok ?c" "self_call e" "epoch_height e = sw_epoch w"
    and wd: "width_ok (fin (sw_contract w) p)"
  have "va_pending_to_claim v + va_pending_to_stake v < 2 ^ 128" using v(5) by simp
  then obtain c' v' es where c: "on_after_pool_withdraw_maybe_settle e r p cont ?c = Inr c'" "pool_change ?c p v' es c'"
    and e: "v' = fin ?c p \<and> es = [next_effect cont] \<or> settle_ok (sw_epoch w) cont p (fin ?c p) v' es"
    using after_withdraw_change [OF v(1,2) _ v(8), of r cont] v(9) by auto
  from e have "delivered w (After_Withdraw p r cont) p (c', [], 0)"
  proof
    assume a: "v' = fin ?c p \<and> es = [next_effect cont]"
    moreover have "handed (sw_epoch w) (rank (After_Withdraw p r cont)) p (fin ?c p) (spawn (next_effect cont))"
      using v(2-4) wd by (intro handed_next) simp_all
    ultimately show ?thesis using wd v(6,7) by (intro deliveredI [OF c(2)] pool_moves [OF c(2)]) simp_all
  next
    assume a: "settle_ok (sw_epoch w) cont p (fin ?c p) v' es"
    have "fin ?c p = (fin ?c p)\<lparr>va_total_staked_balance := va_total_staked_balance (fin ?c p)\<rparr>" by simp
    from settle_delivered [OF d c(2) a this] show ?thesis using v(4) by simp
  qed
  then show ?thesis by (simp add: c(1) keep_def)
qed

lemma deliver_stake_done:
  assumes d: "due w e (Stake_Done p n b cont) p"
  shows "delivered w (Stake_Done p n b cont) p (keep (state_of (on_deposit_and_stake e b p (sw_contract w))) (sw_contract w), [Dispatch p cont], 0)"
proof (rule due_facts [OF d])
  let ?c = "sw_contract w"
  fix v assume v: "st_validators ?c p = Some v" "va_tx_status v = Tx_Busy" "fin ?c p = financial v"
    "receipt_ok (sw_epoch w) (fin ?c p) (Stake_Done p n b cont)"
    "va_pending_to_claim v + va_pending_to_stake v < 2 ^ 127" "p \<in> dom (st_validators ?c)" "books_ok ?c" "self_call e" "epoch_height e = sw_epoch w"
    and wd: "width_ok (fin (sw_contract w) p)"
  show ?thesis
  proof (cases b)
    case False
    then have "keep (state_of (on_deposit_and_stake e b p ?c)) ?c = ?c" using v(8) by (simp add: state_of_def keep_def)
    moreover have "delivered w (Stake_Done p n b cont) p (?c, [Dispatch p cont], 0)" using False v(4) by (intro pass_on [OF d]) simp_all
    ultimately show ?thesis by simp
  next
    case True
    have q: "va_pending_to_unstake v < va_pending_to_stake v" "n = va_pending_to_stake v - va_pending_to_unstake v"
      "va_total_staked_balance v < 2 ^ 127" using v(3,4) by (simp_all add: staking_net_def sound_balance_def)
    have big: "va_pending_to_claim v + va_pending_to_stake v < 2 ^ 128" "va_total_staked_balance v + va_pending_to_stake v < 2 ^ 128"
      using v(5) q(3) by simp_all
    obtain c' where c: "on_deposit_and_stake e True p ?c = Inr (c', True)"
      and pc: "pool_change ?c p ((fin ?c p)\<lparr>va_pending_to_claim := va_pending_to_claim v + va_pending_to_unstake v, va_pending_to_stake := 0,
        va_pending_to_unstake := 0, va_total_staked_balance := va_total_staked_balance v + (va_pending_to_stake v - va_pending_to_unstake v),
        va_last_settlement_epoch := epoch_height e\<rparr>) [] c'" using stake_done_change [OF v(1) q(1) big v(8)] by blast
    have "delivered w (Stake_Done p n b cont) p (c', [Dispatch p cont], 0)"
      using wd v q(1,2) big(2) True by (intro deliveredI [OF pc] pool_moves [OF pc]) (auto simp: handed_def width_ok_def owed_def held_def)
    then show ?thesis by (simp add: True c state_of_def keep_def)
  qed
qed

lemma deliver_unstake_done:
  assumes d: "due w e (Unstake_Done p n b cont) p"
  shows "delivered w (Unstake_Done p n b cont) p (keep (state_of (on_unstake e b p (sw_contract w))) (sw_contract w), [Dispatch p cont], 0)"
proof (rule due_facts [OF d])
  let ?c = "sw_contract w"
  fix v assume v: "st_validators ?c p = Some v" "va_tx_status v = Tx_Busy" "fin ?c p = financial v"
    "receipt_ok (sw_epoch w) (fin ?c p) (Unstake_Done p n b cont)"
    "va_pending_to_claim v + va_pending_to_stake v < 2 ^ 127" "p \<in> dom (st_validators ?c)" "books_ok ?c" "self_call e" "epoch_height e = sw_epoch w"
    and wd: "width_ok (fin (sw_contract w) p)"
  show ?thesis
  proof (cases b)
    case False
    then have "keep (state_of (on_unstake e b p ?c)) ?c = ?c" using v(8) by (simp add: state_of_def keep_def)
    moreover have "delivered w (Unstake_Done p n b cont) p (?c, [Dispatch p cont], 0)" using False v(4) by (intro pass_on [OF d]) simp_all
    ultimately show ?thesis by simp
  next
    case True
    have q: "va_pending_to_stake v < va_pending_to_unstake v" using v(3,4) by (simp add: unstaking_net_def)
    have big: "va_pending_to_claim v + va_pending_to_stake v < 2 ^ 128" using v(5) by simp
    obtain c' where c: "on_unstake e True p ?c = Inr (c', True)"
      and pc: "pool_change ?c p ((fin ?c p)\<lparr>va_pending_to_claim := va_pending_to_claim v + va_pending_to_stake v, va_pending_to_stake := 0,
        va_pending_to_unstake := 0,
        va_pending_to_withdraw := saturating_add 128 (va_pending_to_withdraw v) (va_pending_to_unstake v - va_pending_to_stake v),
        va_last_unstake_epoch := epoch_height e, va_last_settlement_epoch := epoch_height e\<rparr>) [] c'"
      using unstake_done_change [OF v(1) q big v(8)] by blast
    have ex: "a + b' \<le> saturating_add 128 a b'" if "saturating_add 128 a b' < 340282366920938463463374607431768211455" for a b'
      using that by (simp add: saturating_add_def min_def split: if_splits)
    have "delivered w (Unstake_Done p n b cont) p (c', [Dispatch p cont], 0)"
      using wd v q True by (intro deliveredI [OF pc] pool_moves [OF pc]) (auto simp: handed_def width_ok_def owed_def held_def roomy_def dest: ex)
    then show ?thesis by (simp add: True c state_of_def keep_def)
  qed
qed

lemma deliver_dispatch:
  assumes d: "due w e (Dispatch p cont) p"
  shows "delivered w (Dispatch p cont) p (keep (on_epoch_settlement_dispatch_continue e cont (sw_contract w)) (sw_contract w), [], 0)"
proof (rule due_facts [OF d])
  let ?c = "sw_contract w"
  fix v assume v: "va_tx_status v = Tx_Busy" "fin ?c p = financial v" "receipt_ok (sw_epoch w) (fin ?c p) (Dispatch p cont)"
    "p \<in> dom (st_validators ?c)" "books_ok ?c" "self_call e"
    and wd: "width_ok (fin (sw_contract w) p)"
  have c: "pool_change ?c p (fin ?c p) [next_effect cont] (dispatch_continue cont ?c)" using pool_change_next [OF pool_change_refl] by fastforce
  have "handed (sw_epoch w) (rank (Dispatch p cont)) p (fin ?c p) (spawn (next_effect cont))"
    using v(1-3) wd by (intro handed_next) simp_all
  then have "delivered w (Dispatch p cont) p (dispatch_continue cont ?c, [], 0)"
    using wd v by (intro deliveredI [OF c] pool_moves [OF c]) simp_all
  then show ?thesis using v(6) by (simp add: on_epoch_settlement_dispatch_continue_def self_call_asserts keep_def)
qed

lemma deliver_release:
  assumes d: "due w e (Release p b cont) p"
  shows "delivered w (Release p b cont) p (keep (release_of cont e b p cont (sw_contract w)) (sw_contract w), [], 0)"
proof (rule due_facts [OF d])
  let ?c = "sw_contract w"
  fix v assume v: "p \<in> dom (st_validators ?c)" "books_ok ?c" "self_call e" "st_validators ?c p \<noteq> None"
    and wd: "width_ok (fin (sw_contract w) p)"
  obtain c' es where c: "release_of cont e b p cont ?c = Inr c'" "pool_change ?c p ((fin ?c p)\<lparr>va_tx_status := Tx_Idle\<rparr>) es c'"
    and e: "\<forall>x \<in> set es. spawn x = []" "sum_list (map outflow es) = (if b then 0 else pay_back cont)"
    using last_receipt_change [OF v(4), of e cont b] v(3) by (auto simp: self_call_def)
  have "delivered w (Release p b cont) p (c', [], 0)"
    using wd v(1,2) e by (intro deliveredI [OF c(2)] pool_moves [OF c(2)]) (auto simp: handed_def width_ok_def follow_quiet spent_def owed_def held_def)
  then show ?thesis by (simp add: c(1) keep_def)
qed

lemma deliver_terminal:
  assumes d: "due w e (Terminal p) p"
  shows "delivered w (Terminal p) p (keep (on_epoch_pipeline_terminal_release e p (sw_contract w)) (sw_contract w), [], 0)"
proof (rule due_facts [OF d])
  let ?c = "sw_contract w"
  fix v assume v: "p \<in> dom (st_validators ?c)" "books_ok ?c" "self_call e" "st_validators ?c p \<noteq> None"
    and wd: "width_ok (fin (sw_contract w) p)"
  obtain c' where c: "release_validator_pool_pipeline p ?c = Inr c'" "pool_change ?c p ((fin ?c p)\<lparr>va_tx_status := Tx_Idle\<rparr>) [] c'"
    using release_change [OF v(4)] by blast
  have "delivered w (Terminal p) p (c', [], 0)"
    using wd v(1,2) by (intro deliveredI [OF c(2)] pool_moves [OF c(2)]) (auto simp: handed_def width_ok_def owed_def held_def)
  then show ?thesis using v(3) by (simp add: on_epoch_pipeline_terminal_release_def self_call_asserts c(1) keep_def)
qed

lemma deliver_tail:
  assumes d: "due w e (Tail p cont) p"
  shows "delivered w (Tail p cont) p (case tail_method sha e cont (sw_contract w) of
        Inl _ \<Rightarrow> (sw_contract w, [Release p False cont], 0)
      | Inr c' \<Rightarrow> (c', [Release p True cont], 0))"
proof (rule due_facts [OF d])
  let ?c = "sw_contract w" and ?h = "sw_epoch w"
  fix v assume v: "va_tx_status v = Tx_Busy" "fin ?c p = financial v" "receipt_ok ?h (fin ?c p) (Tail p cont)"
    "va_pending_to_claim v + va_pending_to_stake v < 2 ^ 127" "p \<in> dom (st_validators ?c)" "books_ok ?c" "epoch_height e = ?h"
    and wd: "width_ok (fin (sw_contract w) p)"
  have p: "action_validator_id cont = p" using v(3) by simp
  show ?thesis
  proof (cases "tail_method sha e cont ?c")
    case (Inl x)
    have "delivered w (Tail p cont) p (?c, [Release p False cont], 0)" using p by (intro pass_on [OF d]) simp_all
    then show ?thesis by (simp add: Inl)
  next
    case (Inr c')
    consider (flow) n where "n \<le> pay_back cont" "flow e p ?c n c'" | (pay) x credit where "pays_out e x p credit ?c c'"
      using tail_method_change [OF Inr] payout_change p by blast
    then have "delivered w (Tail p cont) p (c', [Release p True cont], 0)"
    proof cases
      case flow
      have "va_tx_status (fin c' p) = Tx_Busy" using flow_pool(1) [OF flow(2)] v(1,2) by simp
      moreover have "undisturbed ?h (fin ?c q) (fin c' q)" if "q \<noteq> p" for q
        using flow_pool(2,3) [OF flow(2)] that v(7) by (auto simp: undisturbed_def)
      moreover have "roomy (fin c' p) \<Longrightarrow> books_ok c' \<and> money c' = money ?c + n" using flow_books [OF flow(2) v(6)] by (simp add: roomy_def)
      moreover have "width_ok (fin c' p)" using flow_pool(3) [OF flow(2) wd] .
      ultimately have "moves ?h p (Tail p cont) 0 ?c c' [Release p True cont] 0" using flow(1) p by (simp add: moves_def handed_def)
      then show ?thesis using flow_emits [OF flow(2)] unfolding delivered_def by (auto intro!: exI [of _ "[]"])
    next
      case pay
      have "va_pending_to_claim (fin ?c p) < 2 ^ 128 - 1" using v(2,4) by simp
      then have "books_ok c' \<and> money c' + credit = money ?c" by (rule payout_books [OF pay v(6)])
      moreover have "fin c' = (fin ?c)(p := (fin ?c p)\<lparr>va_pending_to_claim := va_pending_to_claim (fin ?c p) - credit\<rparr>)"
        "emits ?c [St_Transfer x credit] c'" using pay unfolding pays_out_def Let_def by blast+
      ultimately show ?thesis using v(1,2) p wd unfolding delivered_def
        by (auto intro!: exI [of _ "[St_Transfer x credit]"] simp: moves_def handed_def undisturbed_def width_ok_def)
    qed
    then show ?thesis by (simp add: Inr)
  qed
qed

text \<open>Every delivery of a receipt of the pipeline.\<close>

lemma deliver_delivered:
  assumes d: "due w e r p" and a: "plausible_answer a" and x: "deliver sha e a r (sw_contract w) = Some res"
  shows "delivered w r p res"
proof -
  have ok: "receipt_ok (sw_epoch w) (fin (sw_contract w) p) r" using d inv_receipt(3) by (simp add: due_def)
  have p: "pool_of r = Some p" using d by (simp add: due_def)
  show ?thesis
  proof (cases r)
    case (Await_Account q cont)
    then show ?thesis using d a x p deliver_account [of w e p cont] by (cases a) auto
  next
    case (Await_Withdraw q n cont)
    then show ?thesis using d a x p ok by (cases a) (auto intro!: pass_on [of w e])
  next
    case (Withdraw_Done q n b cont)
    then show ?thesis using d a x p deliver_withdraw_done [of w e p n b cont] by (cases a) (auto split: sum.splits)
  next
    case (After_Withdraw q b cont)
    then show ?thesis using d a x p deliver_after_withdraw [of w e p b cont] by (cases a) auto
  next
    case (Await_Stake q n cont)
    then show ?thesis using d a x p ok by (cases a) (auto intro!: pass_on [of w e])
  next
    case (Stake_Done q n b cont)
    then show ?thesis using d a x p deliver_stake_done [of w e p n b cont] by (cases a) auto
  next
    case (Await_Unstake q n cont)
    then show ?thesis using d a x p ok by (cases a) (auto intro!: pass_on [of w e])
  next
    case (Unstake_Done q n b cont)
    then show ?thesis using d a x p deliver_unstake_done [of w e p n b cont] by (cases a) auto
  next
    case (Dispatch q cont)
    then show ?thesis using d a x p deliver_dispatch [of w e p cont] by (cases a) auto
  next
    case (Tail q cont)
    then show ?thesis using d a x p deliver_tail [of w e p cont sha] by (cases a) (auto split: sum.splits)
  next
    case (Release q b cont)
    then show ?thesis using d a x p deliver_release [of w e p b cont] by (cases a) auto
  next
    case (Terminal q)
    then show ?thesis using d a x p deliver_terminal [of w e p] by (cases a) auto
  next
    case (Await_Owner q y cb)
    then show ?thesis using p by simp
  qed
qed

section \<open>All steps\<close>

text \<open>A step without receipts of the pipeline.\<close>

lemma plain_inv:
  assumes i: "st_inv w" and R: "sw_receipts w = M + R" "\<forall>r \<in># R. pool_of r = None \<and> carry r = 0 \<and> sent r = 0"
    and e: "emits (sw_contract w) es c'" "follow es = []" and f: "fin c' = fin (sw_contract w)"
    and b: "books_ok c'" "money c' + spent es \<le> money (sw_contract w) + g"
    and w': "w' = absorb c' g [] (w\<lparr>sw_receipts := M\<rparr>)" and ir: "in_range w'"
  shows "st_inv w'"
proof -
  have a: "sw_contract w' = c'" "sw_epoch w' = sw_epoch w" "sw_cash w' = sw_cash w + int g - int (spent es)"
    "receipts_at q (sw_receipts w') = receipts_at q M" "carry_total (sw_receipts w') = carry_total M" "sent_total (sw_receipts w') = sent_total M" for q
    using absorb_emits [OF _ w', of es] e by simp_all
  have "receipts_at q R = {#} \<and> carry_total R = 0 \<and> sent_total R = 0" for q using R(2) by (induction R) simp_all
  then have z: "receipts_at q R = {#}" "carry_total R = 0" "sent_total R = 0" for q by blast+
  have "solvent w" using i by (simp add: st_inv_def)
  then have "solvent w'" using b(2) a(3) z unfolding solvent_def a(1,5,6) R(1) totals_add(1,2) by linarith
  moreover have "receipts_at q (sw_receipts w) = receipts_at q M" for q using z(1) by (simp add: R(1))
  ultimately show ?thesis using i b(1) ir f a(1,2,4) by (simp add: st_inv_def)
qed

lemma quiet_inv:
  assumes "st_inv w" and "sw_receipts w = M + R" "\<forall>r \<in># R. pool_of r = None \<and> carry r = 0 \<and> sent r = 0"
    and "quiet (sw_contract w) c'" and "w' = absorb c' g [] (w\<lparr>sw_receipts := M\<rparr>)" and "in_range w'"
  shows "st_inv w'"
proof -
  have "books_ok c' \<and> money c' = money (sw_contract w)" using assms(1,4) by (intro quiet_books) (simp_all add: st_inv_def)
  then show ?thesis using assms(4) by (intro plain_inv [OF assms(1-3) _ _ _ _ _ assms(5,6), of "[]"]) (simp_all add: quiet_def)
qed

lemma entry_inv:
  assumes i: "st_inv w" and c: "enters e (sw_contract w) c'" and w': "w' = absorb c' (attached_deposit e) [] w" and ir: "in_range w'"
  shows "st_inv w'"
proof -
  let ?c = "sw_contract w"
  obtain cont p where p: "action_validator_id cont = p" "pay_back cont \<le> attached_deposit e"
    "promise_validator_per_epoch_settlement_then e p cont ?c = Inr c'" using c by (auto simp: enters_def)
  obtain x where n: "p \<in> dom (st_validators ?c)" "\<not> busy ?c p" and pc: "pool_change ?c p ((fin ?c p)\<lparr>va_tx_status := Tx_Busy\<rparr>) [x] c'"
    and x: "x = St_Get_Account p cont \<or> x = next_effect cont"
    using entry_change [OF p(3)] by metis
  let ?v = "(fin ?c p)\<lparr>va_tx_status := Tx_Busy\<rparr>"
  have wd: "width_ok ?v" using i by (simp add: st_inv_def pool_pipe_def width_ok_def)
  have h: "handed (sw_epoch w) 11 p ?v (follow [x])" "carry_total (mset (follow [x])) = pay_back cont" "sent_total (mset (follow [x])) = 0" "spent [x] = 0"
    using x handed_next [of ?v cont p 11] p(1) wd by (auto simp: handed_def)
  have e: "emits ?c [x] c'" "fin c' = (fin ?c)(p := ?v)" using pc by (simp_all add: pool_change_def)
  note a = absorb_emits [OF e(1) w']
  have b: "books_ok c' \<and> money c' + held (fin ?c p) = money ?c + held ?v"
    using i n(1) by (intro pool_books [OF pc]) (simp_all add: st_inv_def owed_def)
  have "solvent w" using i by (simp add: st_inv_def)
  moreover have "money c' = money ?c" using b by (simp add: held_def)
  ultimately have "solvent w'" using a(3) h p(2) unfolding solvent_def a(1,5,6) by simp
  moreover have "pool_pipe (sw_epoch w) (fin c' q) (receipts_at q (sw_receipts w'))" for q
  proof (cases "q = p")
    case True
    have "pool_pipe (sw_epoch w) (fin ?c p) (receipts_at p (sw_receipts w))" using i by (simp add: st_inv_def)
    then have "receipts_at p (sw_receipts w) = {#}" using n(2) by (simp add: pool_pipe_def)
    then show ?thesis using True handed_pipe [OF h(1)] e(2) unfolding a(4) by simp
  next
    case False
    then show ?thesis using i handed_pipe [OF h(1)] e(2) unfolding a(4) by (simp add: st_inv_def)
  qed
  ultimately show ?thesis using b ir a(1,2) by (simp add: st_inv_def)
qed

lemma call_inv:
  assumes i: "st_inv w" and c: "call_change e (sw_contract w) c'" and w': "w' = absorb c' (attached_deposit e) [] w" and ir: "in_range w'"
  shows "st_inv w'"
proof -
  let ?c = "sw_contract w"
  have R: "sw_receipts w = sw_receipts w + {#}" "\<forall>r \<in># {#}. pool_of r = None \<and> carry r = 0 \<and> sent r = 0" by simp_all
  have w2: "w' = absorb c' (attached_deposit e) [] (w\<lparr>sw_receipts := sw_receipts w\<rparr>)" using w' by simp
  have bk: "books_ok ?c" using i by (simp add: st_inv_def)
  from c consider (quiet) "quiet ?c c'" | (enter) "enters e ?c c'" | (store) "storage_change (attached_deposit e) ?c c'"
    | (pay) p where "quiet (?c\<lparr>st_revenue_by_validator := (st_revenue_by_validator ?c)
          (p \<mapsto> or_zero (st_revenue_by_validator ?c p) + attached_deposit e)\<rparr>) c'" by (auto simp: call_change_def)
  then show ?thesis
  proof cases
    case quiet
    then show ?thesis by (rule quiet_inv [OF i R _ w2 ir])
  next
    case enter
    then show ?thesis by (rule entry_inv [OF i _ w' ir])
  next
    case store
    obtain es where es: "emits ?c es c'" "\<forall>z \<in> set es. spawn z = []" "fin c' = fin ?c" "books_ok c'"
      "money c' + spent es \<le> money ?c + attached_deposit e" using storage_books [OF store bk] unfolding spent_def by blast
    then show ?thesis by (intro plain_inv [OF i R _ _ _ _ _ w2 ir]) (simp_all add: follow_quiet)
  next
    case pay
    let ?d = "?c\<lparr>st_revenue_by_validator := (st_revenue_by_validator ?c)(p \<mapsto> or_zero (st_revenue_by_validator ?c p) + attached_deposit e)\<rparr>"
    have "books_ok ?d \<and> money ?d + or_zero (st_revenue_by_validator ?c p) = money ?c + (or_zero (st_revenue_by_validator ?c p) + attached_deposit e)"
      by (rule revenue_books [OF bk])
    moreover have "books_ok c' \<and> money c' = money ?d" using calculation by (intro quiet_books [OF pay]) simp
    moreover have "emits ?c [] c'" "fin c' = fin ?c" using pay by (auto simp: quiet_def emits_def fin_def fun_eq_iff)
    ultimately show ?thesis by (intro plain_inv [OF i R _ _ _ _ _ w2 ir, of "[]"]) simp_all
  qed
qed

lemma owner_inv:
  assumes i: "st_inv w" and r: "r \<in># sw_receipts w" "pool_of r = None" and x: "deliver sha e a r (sw_contract w) = Some (c', rs, g)"
    and w': "w' = absorb c' g rs (w\<lparr>sw_receipts := sw_receipts w - {#r#}\<rparr>)" and ir: "in_range w'"
  shows "st_inv w'"
proof -
  let ?c = "sw_contract w"
  have bk: "books_ok ?c" using i by (simp add: st_inv_def)
  obtain q y cb where o: "r = Await_Owner q y cb" using r(2) by (cases r) auto
  have R: "sw_receipts w = (sw_receipts w - {#r#}) + {#r#}" "\<forall>z \<in># {#r#}. pool_of z = None \<and> carry z = 0 \<and> sent z = 0"
    using r(1) o by simp_all
  obtain b where c': "c' = keep (owner_method sha e b cb y ?c) ?c" "rs = []" "g = 0" using x o by (cases a) auto
  have w2: "w' = absorb c' 0 [] (w\<lparr>sw_receipts := sw_receipts w - {#r#}\<rparr>)" using w' c' by simp
  have "quiet ?c c' \<or> (\<exists>p o'. purse ?c (st_accounts ?c) ((st_revenue_by_validator ?c)(p \<mapsto> 0))
    [St_Transfer o' (or_zero (st_revenue_by_validator ?c p))] c')"
    using owner_method_change by (cases "owner_method sha e b cb y ?c") (auto simp: c'(1) keep_def)
  then show ?thesis
  proof
    assume "quiet ?c c'"
    then show ?thesis by (rule quiet_inv [OF i R _ w2 ir])
  next
    assume "\<exists>p o'. purse ?c (st_accounts ?c) ((st_revenue_by_validator ?c)(p \<mapsto> 0)) [St_Transfer o' (or_zero (st_revenue_by_validator ?c p))] c'"
    then obtain p o' where p: "purse ?c (st_accounts ?c) ((st_revenue_by_validator ?c)(p \<mapsto> 0)) [St_Transfer o' (or_zero (st_revenue_by_validator ?c p))] c'" by blast
    show ?thesis using revenue_paid_books [OF p bk] p
      by (intro plain_inv [OF i R _ _ _ _ _ w2 ir, of "[St_Transfer o' (or_zero (st_revenue_by_validator ?c p))]"]) (simp_all add: purse_def)
  qed
qed

lemma step_inv:
  assumes "st_inv w" and "st_step sha w w'"
  shows "st_inv w'"
  using assms(2,1)
proof (induction rule: st_step.induct)
  case (call e w m c' w')
  then show ?case using call_inv [OF _ st_method_change] by blast
next
  case (receipt e w r a c' rs g w')
  show ?case
  proof (cases "pool_of r")
    case None
    then show ?thesis using receipt owner_inv by blast
  next
    case (Some p)
    have "due w e r p" using receipt Some by (simp add: due_def self_call_def)
    then have "delivered w r p (c', rs, g)" using receipt(5,6) by (rule deliver_delivered)
    then show ?thesis using moves_inv [OF receipt(9,4) Some] receipt(7,8) by (auto simp: delivered_def)
  qed
next
  case (income w' w n)
  then show ?case by (simp add: st_inv_def solvent_def)
next
  case (epoch w n)
  have "receipt_ok n v r" if "receipt_ok (sw_epoch w) v r" for v r
    using that epoch(1) by (cases r) (auto simp: staking_net_def unstaking_net_def)
  then have "pool_pipe n v N" if "pool_pipe (sw_epoch w) v N" for v N using that by (auto simp: pool_pipe_def split: if_splits)
  then show ?case using epoch(2) by (simp add: st_inv_def in_range_def solvent_def)
qed

interpretation staking_world: transition_system st_initial "st_step sha" st_inv for sha
  by unfold_locales (auto intro: initial_inv step_inv)

end
