(* ===== verification/Staking_Refund.thy ===== *)
theory Staking_Refund
  imports Staking_Invariant
begin

text \<open>
  What becomes of the deposit of a payable call. The receipts of a pipeline follow from each other (\<open>succeeds\<close>), and each of them
  carries the action of the call that started it: the caller and what the caller attached are fixed when the
  call is accepted and reach the last receipt unchanged, whatever the contract does in between.
\<close>

section \<open>The receipts of one call\<close>

fun chain_of :: "receipt \<Rightarrow> (validator_id \<times> user_action) option" where
  "chain_of (Await_Account p cont) = Some (p, cont)"
| "chain_of (Await_Withdraw p _ cont) = Some (p, cont)"
| "chain_of (Withdraw_Done p _ _ cont) = Some (p, cont)"
| "chain_of (After_Withdraw p _ cont) = Some (p, cont)"
| "chain_of (Await_Stake p _ cont) = Some (p, cont)"
| "chain_of (Stake_Done p _ _ cont) = Some (p, cont)"
| "chain_of (Await_Unstake p _ cont) = Some (p, cont)"
| "chain_of (Unstake_Done p _ _ cont) = Some (p, cont)"
| "chain_of (Dispatch p cont) = Some (p, cont)"
| "chain_of (Tail p cont) = Some (p, cont)"
| "chain_of (Release p _ cont) = Some (p, cont)"
| "chain_of (Terminal p) = None"
| "chain_of (Await_Owner _ _ _) = None"

text \<open>A receipt follows another if some delivery of that one, in whatever state, answers or sends it.\<close>

inductive succeeds :: "hash_fun \<Rightarrow> receipt \<Rightarrow> receipt \<Rightarrow> bool" for sha :: hash_fun where
  answered: "deliver sha e a r c = Some (c', rs, g) \<Longrightarrow> r' \<in> set rs \<Longrightarrow> succeeds sha r r'"
| sent: "deliver sha e a r c = Some (c', rs, g) \<Longrightarrow> r' \<in> set (follow (new_effects c c')) \<Longrightarrow> succeeds sha r r'"

inductive_cases succeedsE: "succeeds sha r r'"

definition along :: "(validator_id \<times> user_action) option \<Rightarrow> staking \<Rightarrow> staking \<Rightarrow> bool" where
  "along k c c' \<longleftrightarrow> (\<exists>xs. st_outbox c' = st_outbox c @ xs \<and> (\<forall>r \<in> set (follow xs). chain_of r = None \<or> chain_of r = k))"

lemma along_refl [simp]: "along k c c"
  by (simp add: along_def follow_def)

lemma along_same: "along k c d \<Longrightarrow> st_outbox d' = st_outbox d \<Longrightarrow> along k c d'"
  by (simp add: along_def)

lemma along_emit [simp]: "along k c d \<Longrightarrow> \<forall>r \<in> set (spawn x). chain_of r = None \<or> chain_of r = k \<Longrightarrow> along k c (st_emit x d)"
  unfolding along_def st_emit_def follow_def by fastforce

lemma along_log [simp]: "along k c d \<Longrightarrow> along k c (log_epoch_operation a q d)"
  unfolding log_epoch_operation_def by (rule along_emit) simp_all

lemma along_set [simp]: "along k c d \<Longrightarrow> along k c (internal_set_validator q v d)"
  by (erule along_same) (simp add: internal_set_validator_def)

lemma along_dispatch [simp]:
  "along (Some (p, cont)) c d \<Longrightarrow> p = action_validator_id cont \<Longrightarrow> along (Some (p, cont)) c (dispatch_continue cont d)"
  by (cases cont) (auto simp: dispatch_continue_def)

lemma along_emits:
  assumes "emits c es c'" and "follow es = []"
  shows "along k c c'"
proof -
  obtain xs where xs: "st_outbox c' = st_outbox c @ xs" "filter (\<lambda>x. \<not> harmless x) xs = es" using assms(1) by (auto simp: emits_def)
  have "chain_of r = None" if "x \<in> set xs" "r \<in> set (spawn x)" for x r
  proof (cases "harmless x")
    case True
    then show ?thesis using that(2) by (cases x) simp_all
  next
    case False
    then have "spawn x = []" using assms(2) xs(2) that(1) by (auto simp: follow_def)
    then show ?thesis using that(2) by simp
  qed
  then show ?thesis using xs(1) by (auto simp: along_def follow_def)
qed

lemma along_keep: "keeps (along k c) r \<Longrightarrow> along k c (keep r c)"
  by (cases r) (simp_all add: keep_def keeps_def)

lemmas step_defs = try_epoch_stake_or_unstake_def mark_epoch_settlement_handled_def apply_net_zero_pending_matched_clear_def
  try_epoch_withdraw_known_unstaked_def release_validator_pool_pipeline_def refund_payable_pipeline_def

lemma settle_along:
  "along (Some (p, cont)) c d \<Longrightarrow> p = action_validator_id cont \<Longrightarrow> keeps (along (Some (p, cont)) c) (try_epoch_stake_or_unstake e p cont d)"
  by (auto simp: step_defs keeps_simps res_simps Let_def)

text \<open>The callbacks: each sends at most the next receipt of the chain.\<close>

lemma account_along:
  "p = action_validator_id cont \<Longrightarrow> keeps (along (Some (p, cont)) c) (on_epoch_settlement_after_pool_account e a p cont c)"
  by (auto simp: on_epoch_settlement_after_pool_account_def try_epoch_withdraw_known_unstaked_def release_validator_pool_pipeline_def
    refund_payable_pipeline_def keeps_simps and_then_eq_Inr Let_def settle_along)

lemma callbacks_along:
  "p = action_validator_id cont \<Longrightarrow> keeps (along (Some (p, cont)) c) (on_after_pool_withdraw_maybe_settle e r p cont c)"
  "p = action_validator_id cont \<Longrightarrow> keeps (along (Some (p, cont)) c) (on_epoch_settlement_dispatch_continue e cont c)"
  "keeps (\<lambda>(c', _). along k c c') (on_epoch_withdraw_transfer_done e b q n c)"
  "keeps (\<lambda>(c', _). along k c c') (on_deposit_and_stake e b q c)"
  "keeps (\<lambda>(c', _). along k c c') (on_unstake e b q c)"
  by (auto simp: on_after_pool_withdraw_maybe_settle_def on_epoch_settlement_dispatch_continue_def on_epoch_withdraw_transfer_done_def
    on_deposit_and_stake_def on_unstake_def keeps_simps Let_def settle_along)

lemma release_along: "keeps (along k c) (release_of cont e b q cont c)" "keeps (along k c) (on_epoch_pipeline_terminal_release e q c)"
proof -
  show t: "keeps (along k c) (on_epoch_pipeline_terminal_release e q c)"
    by (auto simp: on_epoch_pipeline_terminal_release_def release_validator_pool_pipeline_def keeps_simps)
  show "keeps (along k c) (release_of cont e b q cont c)"
    using t by (cases cont) (auto simp: on_epoch_pipeline_release_with_lock_id_def on_epoch_pipeline_release_with_farm_position_def
      on_epoch_pipeline_release_with_subscription_update_outcome_def release_or_refund_def release_validator_pool_pipeline_def
      refund_payable_pipeline_def keeps_simps and_then_eq_Inr Let_def)
qed

lemma tail_along: "keeps (along k c) (tail_method sha e cont c)"
proof (rule keepsI)
  fix c' assume "tail_method sha e cont c = Inr c'"
  from tail_method_change [OF this] show "along k c c'"
  proof
    assume "\<exists>n \<le> pay_back cont. flow e (action_validator_id cont) c n c'"
    then have "emits c [] c'" using flow_emits by blast
    then show ?thesis by (rule along_emits) (simp add: follow_def)
  next
    assume "\<exists>x. payout_user_withdraw e x (action_validator_id cont) c = Inr c'"
    then obtain x credit where "pays_out e x (action_validator_id cont) credit c c'" using payout_change by blast
    then have "emits c [St_Transfer x credit] c'" unfolding pays_out_def Let_def by blast
    then show ?thesis by (rule along_emits) (simp add: follow_def)
  qed
qed

lemma owner_along: "keeps (along k c) (owner_method sha e r cb x c)"
proof (rule keepsI)
  fix c' assume "owner_method sha e r cb x c = Inr c'"
  from owner_method_change [OF this] obtain es where "emits c es c'" "follow es = []"
    by (auto simp: quiet_def purse_def follow_def)
  then show "along k c c'" by (rule along_emits)
qed

lemma deliver_along:
  assumes "deliver sha e a r c = Some (c', rs, g)" and "chain_of r = None \<or> chain_of r = Some (p, cont)" and "p = action_validator_id cont"
  shows "along (Some (p, cont)) c c' \<and> (\<forall>r' \<in> set rs. chain_of r' = None \<or> chain_of r' = Some (p, cont))"
proof -
  note k = account_along callbacks_along release_along tail_along owner_along
  note d = k [THEN keepsD]
  show ?thesis using assms
    by (cases "(sha, e, a, r, c)" rule: deliver.cases)
      (auto simp: k keeps_simps intro!: along_keep split: sum.splits dest: d)
qed

lemma succeeds_along:
  assumes "succeeds sha r r'" and "chain_of r = None \<or> chain_of r = Some (p, cont)" and "p = action_validator_id cont"
  shows "chain_of r' = None \<or> chain_of r' = Some (p, cont)"
  using assms(1)
proof (rule succeedsE)
  fix e a c c' rs g
  assume "deliver sha e a r c = Some (c', rs, g)" "r' \<in> set rs"
  then show ?thesis using deliver_along [OF _ assms(2,3)] by blast
next
  fix e a c c' rs g
  assume d: "deliver sha e a r c = Some (c', rs, g)" and r': "r' \<in> set (follow (new_effects c c'))"
  from deliver_along [OF d assms(2,3)] r' show ?thesis by (auto simp: along_def new_effects_def)
qed

lemma chain_kept:
  assumes "(succeeds sha)\<^sup>*\<^sup>* r r'" and "chain_of r = Some (action_validator_id cont, cont)"
  shows "chain_of r' = None \<or> chain_of r' = Some (action_validator_id cont, cont)"
  using assms by (induction rule: rtranclp_induct) (auto dest: succeeds_along)

section \<open>Payable calls\<close>

text \<open>The calls whose deposit goes through the pipeline: it is staked by the last step or returned.\<close>

fun payable :: "st_call \<Rightarrow> bool" where
  "payable (Call_Lock _ _ _) = True"
| "payable (Call_Stake _ _) = True"
| "payable (Call_Update _ _ _) = True"
| "payable _ = False"

definition pays_in :: "env \<Rightarrow> staking \<Rightarrow> staking \<Rightarrow> bool" where
  "pays_in e c c' \<longleftrightarrow> (\<exists>cont. promise_validator_per_epoch_settlement_then e (action_validator_id cont) cont c = Inr c'
     \<and> payable_refund cont = Some (predecessor e, attached_deposit e))"

lemma pays_inI:
  "promise_validator_per_epoch_settlement_then e p cont c = Inr c' \<Longrightarrow> p = action_validator_id cont
   \<Longrightarrow> payable_refund cont = Some (predecessor e, attached_deposit e) \<Longrightarrow> pays_in e c c'"
  by (auto simp: pays_in_def)

lemma keeps_pays_in [keeps_simps]:
  "keeps (pays_in e c) (promise_validator_per_epoch_settlement_then e p cont c)
   \<longleftrightarrow> (\<forall>c'. promise_validator_per_epoch_settlement_then e p cont c = Inr c' \<longrightarrow> pays_in e c c')"
  by (simp add: keeps_def)

lemma payable_pays_in:
  assumes "st_method sha e m c = Inr c'" and "payable m"
  shows "pays_in e c c'"
proof -
  have lock: "keeps (pays_in e c) (st_lock e p i d c)" for p i d
    by (auto simp: st_lock_def lock_with_price_id_def lock_one_off_with_catalog_def lock_recurring_subscription_with_catalog_def
      lock_entry_preamble_def keeps_simps res_simps intro: pays_inI split: price_type.split)
  have others: "keeps (pays_in e c) (st_stake e i j c)" "keeps (pays_in e c) (update_subscription e sid tp ta c)" for i j sid tp ta
    by (auto simp: st_stake_def update_subscription_def keeps_simps Let_def intro: pays_inI)
  show ?thesis using assms by (cases m) (auto dest: lock [THEN keepsD] others [THEN keepsD])
qed

text \<open>An accepted payable call sends one receipt, which carries the caller and the deposit.\<close>

lemma payable_starts:
  assumes "st_method sha e m c = Inr c'" and "payable m"
  obtains r cont where "follow (new_effects c c') = [r]" "chain_of r = Some (action_validator_id cont, cont)"
    "payable_refund cont = Some (predecessor e, attached_deposit e)"
proof -
  obtain cont where k: "promise_validator_per_epoch_settlement_then e (action_validator_id cont) cont c = Inr c'"
    "payable_refund cont = Some (predecessor e, attached_deposit e)"
    using payable_pays_in [OF assms] by (auto simp: pays_in_def)
  have d: "dispatch_continue cont d = st_emit (St_Tail cont) d" for d using k(2) by (cases cont) (simp_all add: dispatch_continue_def)
  obtain v x where "c' = st_emit x (internal_set_validator (action_validator_id cont) v c)"
    "x = St_Get_Account (action_validator_id cont) cont \<or> x = St_Tail cont"
    using k(1) unfolding promise_validator_per_epoch_settlement_then_def and_then_eq_Inr Let_def d by (metis sum.inject(2))
  then have "new_effects c c' = [x]" "follow [x] = [Await_Account (action_validator_id cont) cont] \<or> follow [x] = [Tail (action_validator_id cont) cont]"
    by (auto simp: new_effects_def st_emit_def internal_set_validator_def follow_def)
  then show thesis using that k(2) by auto
qed

end
