(* ===== verification/Staking_Sample.thy ===== *)
theory Staking_Sample
  imports Staking_World
begin

text \<open>
  A run of the staking contract, evaluated step by step, for the examples of the properties: the owner allows the pool \<open>v\<close>, its
  owner creates a product with a price, bob locks one NEAR, and in the next epoch the settlement sends it to the pool.
\<close>

definition zeros :: hash_fun where
  "zeros bytes = replicate 32 0"

definition at_call :: "account_id \<Rightarrow> nat \<Rightarrow> nat \<Rightarrow> env" where
  "at_call x n h = \<lparr>block_timestamp = 5, block_height = 7, predecessor = x, signer = x, current_account = ''hos'', attached_deposit = n,
     account_balance = 0, prepaid_gas = 300000000000000, used_gas = 0, epoch_height = h\<rparr>"

definition sample_config :: staking_config where
  "sample_config = \<lparr>sg_owner_account_id = ''dao'', sg_proposed_new_owner_account_id = None, sg_guardians = [], sg_min_lock_duration_ns = 0,
     sg_max_lock_duration_ns = 100, sg_epoch_unstake_settle_epochs = 4, sg_min_storage_deposit = 10, sg_per_lock_storage_stake = 0,
     sg_per_farm_position_storage_stake = 0, sg_per_purchase_storage_stake = 0, sg_min_lock_amount = 1000000000000000000000000\<rparr>"

definition sample_k0 :: staking where
  "sample_k0 = \<lparr>st_config = sample_config, st_paused = False, st_validators = Map.empty, st_validator_ids = [], st_product_ids = [],
      st_products = Map.empty, st_prices = Map.empty, st_accounts = Map.empty, st_account_ids = [],
      st_subscriptions = Map.empty, st_locks = Map.empty, st_lock_ids = [], st_locks_by_account = Map.empty,
      st_user_validator_shares = Map.empty, st_user_pending_unstake = Map.empty,
      st_user_pending_unstake_validator_count = Map.empty, st_user_lock_count = Map.empty, st_purchases = Map.empty,
      st_purchase_ids = [], st_purchases_by_account = Map.empty, st_purchases_by_product = Map.empty,
      st_user_purchase_count = Map.empty, st_revenue_by_validator = Map.empty, st_farm_pools = Map.empty,
      st_farm_positions = Map.empty, st_farm_position_products_by_account = Map.empty,
      st_user_farm_position_count = Map.empty, st_farm_accounts = Map.empty,
      st_subscription_by_account_product = Map.empty, st_subscriptions_by_account = Map.empty,
      st_subscriptions_by_product = Map.empty, st_subscription_ids = [],
      st_pending_update_target_price_counts = Map.empty, st_pending_update_target_product_counts = Map.empty,
      st_id_nonce = 0, st_outbox = []\<rparr>"

definition sample_pool0 :: validator where
  "sample_pool0 = \<lparr>va_validator_id = ''v'', va_catalog_manager_account_ids = [], va_status = Validator_Active, va_total_shares = 0,
     va_total_staked_balance = 0, va_last_balance_refresh_ns = 5, va_pending_to_stake = 0, va_pending_to_unstake = 0,
     va_last_unstake_epoch = 0, va_last_settlement_epoch = 0, va_pending_to_withdraw = 0, va_pending_to_claim = 0, va_tx_status = Tx_Idle\<rparr>"

definition sample_k1 :: staking where
  "sample_k1 = sample_k0\<lparr>st_validators := [''v'' \<mapsto> sample_pool0], st_validator_ids := [''v''], st_outbox := [St_Event ''validator_add'' [''v''] []]\<rparr>"

definition sample_k2 :: staking where
  "sample_k2 = sample_k1\<lparr>st_accounts := [''bob'' \<mapsto> \<lparr>sa_storage_deposit = 10\<rparr>], st_account_ids := [''bob'']\<rparr>"

definition sample_k3 :: staking where
  "sample_k3 = st_emit (St_Get_Owner ''v'' ''vo'' (CreateProduct ''v'' ''P'' [])) sample_k2"

definition sample_pid :: product_id where "sample_pid = ''prod_'' @ replicate 14 (CHR ''0'')"
definition sample_qid :: price_id where "sample_qid = ''price_'' @ replicate 24 (CHR ''0'')"
definition sample_lid :: lock_id where "sample_lid = ''lock_'' @ replicate 17 (CHR ''0'')"

definition sample_product :: product where
  "sample_product = \<lparr>pd_product_id = sample_pid, pd_validator_id = ''v'', pd_name = ''P'', pd_description = [],
     pd_status = Catalog_Active, pd_created_ns = 5, pd_price_ids = [], pd_default_price_id = None, pd_usage_count = 0\<rparr>"

definition sample_k4 :: staking where
  "sample_k4 = st_emit (St_Event ''product_create'' [sample_pid, ''v''] [])
     (sample_k3\<lparr>st_id_nonce := 1, st_products := [sample_pid \<mapsto> sample_product], st_product_ids := [sample_pid]\<rparr>)"

definition sample_k5 :: staking where
  "sample_k5 = st_emit (St_Get_Owner ''v'' ''vo'' (CreatePrice sample_pid ''Q'' [] 1 OneOff None 1 None)) sample_k4"

definition sample_price :: price where
  "sample_price = \<lparr>pc_price_id = sample_qid, pc_product_id = sample_pid, pc_name = ''Q'', pc_description = [],
     pc_amount = 1, pc_price_type = OneOff, pc_billing_period = None, pc_lock_factor_near_months = 1, pc_metadata = None,
     pc_status = Catalog_Active, pc_usage_count = 0\<rparr>"

definition sample_k6 :: staking where
  "sample_k6 = sample_k5\<lparr>st_id_nonce := 2, st_prices := [sample_qid \<mapsto> sample_price],
     st_products := [sample_pid \<mapsto> sample_product\<lparr>pd_price_ids := [sample_qid]\<rparr>]\<rparr>"

definition one_near :: nat where "one_near = 1000000000000000000000000"

definition sample_action :: user_action where
  "sample_action = CommitLock ''v'' ''bob'' one_near 50 (ProductPurchase sample_pid sample_qid)"

definition sample_k7 :: staking where
  "sample_k7 = st_emit (St_Get_Account ''v'' sample_action) (sample_k6\<lparr>st_validators := [''v'' \<mapsto> sample_pool0\<lparr>va_tx_status := Tx_Busy\<rparr>]\<rparr>)"

definition sample_pool8 :: validator where
  "sample_pool8 = sample_pool0\<lparr>va_tx_status := Tx_Busy, va_last_settlement_epoch := 1\<rparr>"

definition sample_k8 :: staking where
  "sample_k8 = st_emit (St_Tail sample_action) (st_emit (St_Event ''epoch_settle_noop'' [''epoch_settle_noop'', ''v''] []) (sample_k7\<lparr>st_validators := [''v'' \<mapsto> sample_pool8]\<rparr>))"

definition sample_lock :: stake_lock where
  "sample_lock = \<lparr>lo_lock_id = sample_lid, lo_account_id = ''bob'', lo_validator_id = ''v'', lo_amount_near = one_near, lo_shares = one_near,
     lo_start_ns = 5, lo_end_ns = 55, lo_order = ProductPurchase sample_pid sample_qid, lo_status = Lock_Active\<rparr>"

definition sample_pool9 :: validator where
  "sample_pool9 = sample_pool8\<lparr>va_total_shares := one_near, va_pending_to_stake := one_near\<rparr>"

definition sample_k9 :: staking where
  "sample_k9 = st_emit (St_Event ''lock_create'' [sample_lid, ''bob''] []) (sample_k8\<lparr>st_validators := [''v'' \<mapsto> sample_pool9],
     st_user_validator_shares := [(''bob'', ''v'') \<mapsto> one_near], st_id_nonce := 3, st_locks := [sample_lid \<mapsto> sample_lock],
     st_lock_ids := [sample_lid], st_locks_by_account := [''bob'' \<mapsto> [sample_lid]],
     st_prices := [sample_qid \<mapsto> sample_price\<lparr>pc_usage_count := 1\<rparr>],
     st_products := [sample_pid \<mapsto> sample_product\<lparr>pd_price_ids := [sample_qid], pd_usage_count := 1\<rparr>],
     st_user_lock_count := [''bob'' \<mapsto> 1]\<rparr>)"

definition sample_k10 :: staking where
  "sample_k10 = sample_k9\<lparr>st_validators := [''v'' \<mapsto> sample_pool9\<lparr>va_tx_status := Tx_Idle\<rparr>]\<rparr>"

definition sample_k11 :: staking where
  "sample_k11 = st_emit (St_Get_Account ''v'' (SettleOnly ''v'')) (sample_k10\<lparr>st_validators := [''v'' \<mapsto> sample_pool9]\<rparr>)"

definition sample_k12 :: staking where
  "sample_k12 = st_emit (St_Pool_Stake ''v'' one_near (SettleOnly ''v'')) (st_emit (St_Event ''epoch_settle_stake'' [''epoch_settle_stake'', ''v''] []) sample_k11)"

lemmas sample_defs = at_call_def sample_config_def sample_k0_def sample_k1_def sample_k2_def sample_k3_def sample_k4_def sample_k5_def sample_k6_def sample_pool0_def
  sample_product_def sample_price_def sample_action_def sample_k7_def sample_pool8_def sample_k8_def sample_lock_def sample_pool9_def sample_k9_def sample_k10_def sample_k11_def sample_k12_def

lemma sample_new: "staking_new (at_call ''dao'' 0 1) sample_config = Inr sample_k0"
  by (simp add: staking_new_def assert_no_deposit_def require_min_lock_amount_at_protocol_floor_def PROTOCOL_MIN_LOCK_AMOUNT_YOCTO_def sample_defs)

lemma sample_add: "add_validator (at_call ''dao'' 1 1) ''v'' sample_k0 = Inr sample_k1"
  by (simp add: add_validator_def assert_one_yocto_def st_assert_owner_def MAX_VALIDATORS_def internal_set_validator_def st_emit_def
    sample_defs cong: and_then_step)

lemma sample_storage: "state_of (st_storage_deposit (at_call ''bob'' 10 1) None None sample_k1) = Inr sample_k2"
  by (simp add: state_of_def st_storage_deposit_def st_assert_not_paused_def st_internal_set_account_def set_insert_def saturating_sub_def
    st_storage_balance_of_def Let_def sample_defs cong: and_then_step)

lemma sample_product_call: "create_product (at_call ''vo'' 1 1) ''v'' ''P'' [] sample_k2 = Inr sample_k3"
  by (simp add: create_product_def promise_catalog_admin_on_pool_def catalog_admin_entry_for_pool_def assert_one_yocto_def
    st_assert_not_paused_def assert_validator_allowlisted_def sample_defs cong: and_then_step)

lemma zero_chars: "i \<le> 32 \<Longrightarrow> base62_chars zeros n (replicate 32 0) i = Inr (replicate n (CHR ''0''))"
proof (induction n arbitrary: i)
  case (Suc n)
  have "BASE62 ! 0 = CHR ''0''" by (simp add: BASE62_def)
  then show ?case using Suc.prems Suc.IH [of 1] Suc.IH [of "i + 1"] by (cases "i = 32") (simp_all add: zeros_def)
qed simp

lemma zero_hash: "base62_from_hash zeros (zeros b) n = Inr (replicate n (CHR ''0''))"
  unfolding base62_from_hash_def using zero_chars [of 0 n] by (simp add: zeros_def [of b])

lemma sample_ids:
  "next_product_id zeros e n = Inr (saturating_add 64 n 1, sample_pid)"
  "next_price_id zeros e n = Inr (saturating_add 64 n 1, sample_qid)"
  "next_lock_id zeros e n = Inr (saturating_add 64 n 1, sample_lid)"
  by (simp_all add: next_product_id_def next_price_id_def next_lock_id_def next_id_def Let_def zero_hash sample_pid_def sample_qid_def sample_lid_def)

lemma first_attempt:
  assumes "generate n = Inr (n', i)" and "\<not> contains i"
  shows "next_unique_generated_id generate contains msg n = Inr (n', i)"
proof -
  have "(64 :: nat) = Suc 63" by simp
  then show ?thesis using assms by (simp only: next_unique_generated_id_def unique_id_attempts.simps and_then_Inr) simp
qed

lemma sample_product_created:
  "state_of (create_product_after_get_owner zeros (at_call ''hos'' 0 1) (Some ''vo'') ''v'' ''P'' [] ''vo'' sample_k3) = Inr sample_k4"
  by (simp add: state_of_def create_product_after_get_owner_def callback_owner_def assert_no_deposit_def assert_private_def
    assert_validator_catalog_admin_def st_assert_not_paused_def next_unique_product_id_def
    first_attempt [OF sample_ids(1)] saturating_add_def internal_set_product_def st_emit_def Let_def sample_defs cong: and_then_step)

lemma sample_price_call: "create_price (at_call ''vo'' 1 1) sample_pid ''Q'' [] 1 OneOff None 1 None sample_k4 = Inr sample_k5"
  by (simp add: create_price_def promise_catalog_admin_on_product_def promise_catalog_admin_on_pool_def catalog_admin_entry_for_pool_def
    assert_one_yocto_def st_assert_not_paused_def assert_validator_allowlisted_def require_product_def st_emit_def sample_defs cong: and_then_step)

lemma sample_price_created:
  "state_of (create_price_after_get_owner zeros (at_call ''hos'' 0 1) (Some ''vo'') sample_pid ''Q'' [] 1 OneOff None 1 None ''vo'' sample_k5) = Inr sample_k6"
  by (simp add: state_of_def create_price_after_get_owner_def callback_owner_def assert_no_deposit_def assert_private_def
    assert_validator_catalog_admin_def st_assert_not_paused_def next_unique_price_id_def require_product_def validate_price_fields_def
    meta_max_amount_def meta_farm_reward_rate_def
    first_attempt [OF sample_ids(2)] saturating_add_def internal_set_product_def internal_set_price_def st_emit_def Let_def sample_defs cong: and_then_step)

lemma sample_lock_call: "st_lock (at_call ''bob'' one_near 1) (Some sample_qid) None (Some 50) sample_k6 = Inr sample_k7"
  by (simp add: st_lock_def resolve_price_id_for_lock_def lock_with_price_id_def require_enough_gas_for_epoch_settlement_def EPOCH_SETTLEMENT_MIN_GAS_def
    lock_entry_preamble_def st_assert_not_paused_def ensure_min_storage_for_new_lock_def require_registered_account_def
    required_storage_deposit_yocto_def saturating_add_def saturating_mul_def or_zero_def get_active_price_and_product_def require_price_def require_product_def
    lock_one_off_with_catalog_def assert_validator_active_for_lock_def require_validator_def check_near_price_lock_def required_near_months_def
    LOCK_FACTOR_DENOM_def AVG_MONTH_NS_def ST_NS_PER_DAY_def mul_u_def check_def require_validator_idle_def
    promise_validator_per_epoch_settlement_then_def internal_set_validator_def one_near_def Let_def st_emit_def sample_defs cong: and_then_step)

definition no_stake :: pool_account_view where
  "no_stake = \<lparr>pa_unstaked_balance = 0, pa_staked_balance = 0, pa_can_withdraw = False\<rparr>"

lemmas sample_settle = on_epoch_settlement_after_pool_account_def assert_no_deposit_def assert_private_def require_validator_def
  assert_validator_busy_def internal_set_validator_def pool_total_balance_def saturating_add_def try_epoch_stake_or_unstake_def
  mark_epoch_settlement_handled_def log_epoch_operation_def dispatch_continue_def no_stake_def sub_u_def Let_def st_emit_def

lemma sample_settled: "on_epoch_settlement_after_pool_account (at_call ''hos'' 0 1) (Some no_stake) ''v'' sample_action sample_k7 = Inr sample_k8"
  by (simp add: sample_settle sample_defs cong: and_then_step)

lemma sample_tail: "tail_method zeros (at_call ''hos'' 0 1) sample_action sample_k8 = Inr sample_k9"
  by (simp add: sample_action_def state_of_def resolve_lock_def assert_no_deposit_def assert_private_def commit_catalog_lock_def
    get_active_price_and_product_def require_price_def require_product_def internal_stake_def require_validator_def mint_shares_def
    sample_ids saturating_add_def internal_set_validator_def internal_set_lock_def add_lock_to_indexes_def set_insert_def or_empty_def or_zero_def
    internal_set_price_def internal_set_product_def require_validator_busy_def assert_validator_busy_def one_near_def Let_def st_emit_def sample_defs
    cong: and_then_step)

lemma sample_release: "release_of sample_action (at_call ''hos'' 0 1) True ''v'' sample_action sample_k9 = Inr sample_k10"
  by (simp add: on_epoch_pipeline_release_with_lock_id_def assert_no_deposit_def assert_private_def release_or_refund_def
    release_validator_pool_pipeline_def require_validator_def internal_set_validator_def st_emit_def sample_defs cong: and_then_step)

lemma sample_epoch_settle: "epoch_settle (at_call ''bob'' 0 2) ''v'' sample_k10 = Inr sample_k11"
  by (simp add: epoch_settle_def assert_no_deposit_def st_assert_not_paused_def require_enough_gas_for_epoch_settlement_def EPOCH_SETTLEMENT_MIN_GAS_def
    promise_validator_per_epoch_settlement_then_def require_validator_idle_def require_validator_def internal_set_validator_def Let_def st_emit_def
    sample_defs cong: and_then_step)

lemma sample_stake_sent: "on_epoch_settlement_after_pool_account (at_call ''hos'' 0 2) (Some no_stake) ''v'' (SettleOnly ''v'') sample_k11 = Inr sample_k12"
  by (simp add: sample_settle one_near_def sample_defs cong: and_then_step)

section \<open>The run\<close>

definition sample_world :: "staking \<Rightarrow> nat \<Rightarrow> receipt list \<Rightarrow> nat \<Rightarrow> st_world" where
  "sample_world k n rs h = \<lparr>sw_contract = k, sw_cash = int n, sw_receipts = mset rs, sw_epoch = h\<rparr>"

definition small :: "staking \<Rightarrow> nat \<Rightarrow> receipt list \<Rightarrow> bool" where
  "small k n rs \<longleftrightarrow> n + sum_list (map sent rs) < 2 ^ 127
     \<and> (\<forall>p v. st_validators k p = Some v \<longrightarrow> va_pending_to_withdraw v < 2 ^ 128 - 1 \<and> va_total_shares v < 2 ^ 128 - 1)"

lemma small_in_range: "small k n rs \<Longrightarrow> in_range (sample_world k n rs h)"
proof -
  assume a: "small k n rs"
  have "sent_total (mset rs) = sum_list (map sent rs)" by (simp add: sent_total_def sum_mset_sum_list flip: mset_map)
  moreover have "int n + int (sum_list (map sent rs)) < 2 ^ 127"
    using a unfolding small_def by (metis of_nat_add of_nat_less_numeral_power_cancel_iff)
  ultimately show ?thesis using a by (simp add: in_range_def sample_world_def small_def)
qed

lemma sample_call_step:
  assumes "st_method zeros (at_call x d h) m k = Inr k'" and "new_effects k k' = es" and "n + d = n' + sum_list (map outflow es)"
    and "rs' = rs @ concat (map spawn es)" and "small k' n' rs'"
  shows "st_step zeros (sample_world k n rs h) (sample_world k' n' rs' h)"
proof (rule st_step.call [of "at_call x d h" _ zeros m k'])
  show "sample_world k' n' rs' h = absorb k' (attached_deposit (at_call x d h)) [] (sample_world k n rs h)"
    using assms(2-4) by (simp add: sample_world_def absorb_def Let_def at_call_def)
  show "in_range (sample_world k' n' rs' h)" using assms(5) by (rule small_in_range)
qed (use assms(1) in \<open>simp_all add: sample_world_def at_call_def\<close>)

lemma sample_receipt_step:
  assumes "deliver zeros (at_call ''hos'' 0 h) a r k = Some (k', qs, g)" and "plausible_answer a"
    and "new_effects k k' = es" and "n + g = n' + sum_list (map outflow es)"
    and "rs' = rs @ qs @ concat (map spawn es)" and "small k' n' rs'"
  shows "st_step zeros (sample_world k n (r # rs) h) (sample_world k' n' rs' h)"
proof (rule st_step.receipt [of "at_call ''hos'' 0 h" _ r a zeros k' qs g])
  show "sample_world k' n' rs' h = absorb k' g qs (sample_world k n (r # rs) h\<lparr>sw_receipts := sw_receipts (sample_world k n (r # rs) h) - {#r#}\<rparr>)"
    using assms(3-5) by (simp add: sample_world_def absorb_def Let_def)
  show "in_range (sample_world k' n' rs' h)" using assms(6) by (rule small_in_range)
qed (use assms(1,2) in \<open>simp_all add: sample_world_def at_call_def\<close>)

lemmas sample_step_simps = new_effects_def small_def st_emit_def one_near_def sample_defs

abbreviation owner_receipt :: "owner_callback \<Rightarrow> receipt" where
  "owner_receipt cb \<equiv> Await_Owner ''v'' ''vo'' cb"

definition sample_w0 :: st_world where "sample_w0 = sample_world sample_k0 0 [] 1"
definition sample_w12 :: st_world where "sample_w12 = sample_world sample_k12 13 [Await_Stake ''v'' one_near (SettleOnly ''v'')] 2"

lemma run1: "st_step zeros (sample_world sample_k0 0 [] 1) (sample_world sample_k1 1 [] 1)"
  by (rule sample_call_step [where m = "Call_Add_Validator ''v''" and x = "''dao''" and d = "1" and es = "[St_Event ''validator_add'' [''v''] []]"])
    (simp add: sample_add [simplified], simp_all add: sample_step_simps)

lemma run2: "st_step zeros (sample_world sample_k1 1 [] 1) (sample_world sample_k2 11 [] 1)"
  by (rule sample_call_step [where m = "Call_Storage_Deposit None None" and x = "''bob''" and d = "10" and es = "[]"])
    (simp add: sample_storage [simplified], simp_all add: sample_step_simps)

lemma run3: "st_step zeros (sample_world sample_k2 11 [] 1) (sample_world sample_k3 12 [owner_receipt (CreateProduct ''v'' ''P'' [])] 1)"
  by (rule sample_call_step [where m = "Call_Create_Product ''v'' ''P'' []" and x = "''vo''" and d = "1" and es = "[St_Get_Owner ''v'' ''vo'' (CreateProduct ''v'' ''P'' [])]"])
    (simp add: sample_product_call [simplified], simp_all add: sample_step_simps)

lemma run4: "st_step zeros (sample_world sample_k3 12 [owner_receipt (CreateProduct ''v'' ''P'' [])] 1) (sample_world sample_k4 12 [] 1)"
  by (rule sample_receipt_step [where a = "Ans_Owner (Some ''vo'')" and k' = sample_k4 and qs = "[]" and g = 0 and es = "[St_Event ''product_create'' [sample_pid, ''v''] []]"])
    (simp add: sample_product_created [simplified] keep_def, simp_all add: sample_step_simps no_stake_def)

lemma run5: "st_step zeros (sample_world sample_k4 12 [] 1) (sample_world sample_k5 13 [owner_receipt (CreatePrice sample_pid ''Q'' [] 1 OneOff None 1 None)] 1)"
  by (rule sample_call_step [where m = "Call_Create_Price sample_pid ''Q'' [] 1 OneOff None 1 None" and x = "''vo''" and d = "1" and es = "[St_Get_Owner ''v'' ''vo'' (CreatePrice sample_pid ''Q'' [] 1 OneOff None 1 None)]"])
    (simp add: sample_price_call [simplified], simp_all add: sample_step_simps)

lemma run6: "st_step zeros (sample_world sample_k5 13 [owner_receipt (CreatePrice sample_pid ''Q'' [] 1 OneOff None 1 None)] 1) (sample_world sample_k6 13 [] 1)"
  by (rule sample_receipt_step [where a = "Ans_Owner (Some ''vo'')" and k' = sample_k6 and qs = "[]" and g = 0 and es = "[]"])
    (simp add: sample_price_created [simplified] keep_def, simp_all add: sample_step_simps no_stake_def)

lemma run7: "st_step zeros (sample_world sample_k6 13 [] 1) (sample_world sample_k7 (one_near + 13) [Await_Account ''v'' sample_action] 1)"
  by (rule sample_call_step [where m = "Call_Lock (Some sample_qid) None (Some 50)" and x = "''bob''" and d = "one_near" and es = "[St_Get_Account ''v'' sample_action]"])
    (simp add: sample_lock_call [simplified], simp_all add: sample_step_simps)

lemma run8: "st_step zeros (sample_world sample_k7 (one_near + 13) [Await_Account ''v'' sample_action] 1) (sample_world sample_k8 (one_near + 13) [Tail ''v'' sample_action] 1)"
  by (rule sample_receipt_step [where a = "Ans_Account (Some no_stake)" and k' = sample_k8 and qs = "[]" and g = 0 and es = "[St_Event ''epoch_settle_noop'' [''epoch_settle_noop'', ''v''] [], St_Tail sample_action]"])
    (simp add: sample_settled [simplified] keep_def, simp_all add: sample_step_simps no_stake_def)

lemma run9: "st_step zeros (sample_world sample_k8 (one_near + 13) [Tail ''v'' sample_action] 1) (sample_world sample_k9 (one_near + 13) [Release ''v'' True sample_action] 1)"
  by (rule sample_receipt_step [where a = "Ans_None" and k' = sample_k9 and qs = "[Release ''v'' True sample_action]" and g = 0 and es = "[St_Event ''lock_create'' [sample_lid, ''bob''] []]"])
    (simp add: sample_tail [simplified] keep_def, simp_all add: sample_step_simps no_stake_def)

lemma run10: "st_step zeros (sample_world sample_k9 (one_near + 13) [Release ''v'' True sample_action] 1) (sample_world sample_k10 (one_near + 13) [] 1)"
  by (rule sample_receipt_step [where a = "Ans_None" and k' = sample_k10 and qs = "[]" and g = 0 and es = "[]"])
    (simp add: sample_release [simplified] keep_def, simp_all add: sample_step_simps no_stake_def)

lemma run11: "st_step zeros (sample_world sample_k10 (one_near + 13) [] 1) (sample_world sample_k10 (one_near + 13) [] 2)"
  using st_step.epoch [of "sample_world sample_k10 (one_near + 13) [] 1" 2 zeros] by (simp add: sample_world_def)

lemma run12: "st_step zeros (sample_world sample_k10 (one_near + 13) [] 2) (sample_world sample_k11 (one_near + 13) [Await_Account ''v'' (SettleOnly ''v'')] 2)"
  by (rule sample_call_step [where m = "Call_Epoch_Settle ''v''" and x = "''bob''" and d = "0" and es = "[St_Get_Account ''v'' (SettleOnly ''v'')]"])
    (simp add: sample_epoch_settle, simp_all add: sample_step_simps)

lemma run13: "st_step zeros (sample_world sample_k11 (one_near + 13) [Await_Account ''v'' (SettleOnly ''v'')] 2) (sample_world sample_k12 13 [Await_Stake ''v'' one_near (SettleOnly ''v'')] 2)"
  by (rule sample_receipt_step [where a = "Ans_Account (Some no_stake)" and k' = sample_k12 and qs = "[]" and g = 0 and es = "[St_Event ''epoch_settle_stake'' [''epoch_settle_stake'', ''v''] [], St_Pool_Stake ''v'' one_near (SettleOnly ''v'')]"])
    (simp add: sample_stake_sent keep_def, simp_all add: sample_step_simps no_stake_def)

lemma sample_run_initial: "st_initial sample_w0"
  unfolding st_initial_def sample_w0_def sample_world_def using sample_new by auto

lemmas sample_next = converse_rtranclp_into_rtranclp [of "st_step zeros"]

lemma sample_reached: "(st_step zeros)\<^sup>*\<^sup>* sample_w0 sample_w12"
  unfolding sample_w0_def sample_w12_def
  by (rule sample_next [OF run1 sample_next [OF run2 sample_next [OF run3 sample_next [OF run4 sample_next [OF run5 sample_next [OF run6
    sample_next [OF run7 sample_next [OF run8 sample_next [OF run9 sample_next [OF run10 sample_next [OF run11 sample_next [OF run12
    r_into_rtranclp [of "st_step zeros", OF run13]]]]]]]]]]]]])

lemma sample_pool: "st_validators sample_k12 ''v'' = Some sample_pool9"
  by (simp add: sample_k12_def sample_k11_def st_emit_def)

section \<open>A pool with 100 shares for 200 units\<close>

definition price_pool :: validator where
  "price_pool = sample_pool0\<lparr>va_total_shares := 100, va_total_staked_balance := 190, va_pending_to_stake := 10\<rparr>"

definition price_pool1 :: validator where
  "price_pool1 = price_pool\<lparr>va_total_shares := 125, va_pending_to_stake := 61\<rparr>"

definition price_sample :: staking where
  "price_sample = sample_k0\<lparr>st_validators := [''v'' \<mapsto> price_pool]\<rparr>"

definition price_sample1 :: staking where
  "price_sample1 = price_sample\<lparr>st_validators := [''v'' \<mapsto> price_pool1], st_user_validator_shares := [(''al'', ''v'') \<mapsto> 25]\<rparr>"

lemmas price_defs = price_pool_def price_pool1_def price_sample_def price_sample1_def sample_pool0_def sample_k0_def sample_config_def at_call_def
  net_stake_yocto_def gross_stake_yocto_def pending_not_in_contract_yocto_def saturating_add_def saturating_sub_def

lemma price_sample_pools: "st_validators price_sample ''v'' = Some price_pool" "st_validators price_sample1 ''v'' = Some price_pool1"
  by (simp_all add: price_sample_def price_sample1_def)

lemma price_sample_stake: "internal_stake ''al'' ''v'' 51 price_sample = Inr (price_sample1, 25)"
  by (simp add: internal_stake_def require_validator_def mint_shares_def mul_u_def as_u128_def check_def or_zero_def internal_set_validator_def
    Let_def price_defs cong: and_then_step)

lemma price_sample_unstake: "\<exists>c2. internal_unstake (at_call ''al'' 0 1) ''al'' ''v'' 25 price_sample1 = Inr (c2, 50)"
  by (simp add: internal_unstake_def require_validator_def near_from_shares_def mul_u_def as_u128_def check_def sub_u_def or_zero_def
    internal_set_validator_def set_user_pending_unstake_tranches_def increment_pending_unstake_validator_count_def Let_def price_defs cong: and_then_step)

end
