(* ===== verification/Staking_Properties.thy ===== *)
theory Staking_Properties
  imports Staking_Refund Staking_Sample
begin

text \<open>
  What the staking contract guarantees, whatever is called in whatever order and whatever the pools answer: solvency, exact
  books, one pool operation at a time that always comes to its end, refunds, fair share prices, and the billing calendar.
\<close>

section \<open>Reachable worlds\<close>

lemma dom_at: "dom (at p m) = {x. (x, p) \<in> dom m}"
  by (auto simp: at_def)

lemma reachable_pool:
  assumes "st_initial w0" and "(st_step sha)\<^sup>*\<^sup>* w0 w"
  shows "pool_pipe (sw_epoch w) (fin (sw_contract w) p) (receipts_at p (sw_receipts w))" and "books_ok (sw_contract w)" and "in_range w"
  using staking_world.reachable_inv [OF assms] by (simp_all add: st_inv_def)

lemma handed_receipts:
  "handed h k p v new \<Longrightarrow> receipts_at p (mset new) = {#} \<and> va_tx_status v \<noteq> Tx_Busy
     \<or> (\<exists>r'. receipts_at p (mset new) = {#r'#} \<and> rank r' < k \<and> va_tx_status v = Tx_Busy)"
  by (auto simp: handed_def)

text \<open>A step leaves the receipt of a busy pool where it is, or delivers it.\<close>

lemma call_receipts:
  assumes i: "st_inv w" and b: "busy (sw_contract w) p" and c: "call_change e (sw_contract w) c'"
  shows "receipts_at p (sw_receipts (absorb c' g [] w)) = receipts_at p (sw_receipts w)"
proof -
  let ?c = "sw_contract w"
  have e: "receipts_at p (sw_receipts (absorb c' g [] w)) = receipts_at p (sw_receipts w)" if "emits ?c es c'" "receipts_at p (mset (follow es)) = {#}" for es
    using absorb_emits(4) [OF that(1) refl, of p g "[]"] that(2) by simp
  from c consider (quiet) "quiet ?c c'" | (enter) "enters e ?c c'" | (store) "storage_change (attached_deposit e) ?c c'"
    | (pay) q where "quiet (?c\<lparr>st_revenue_by_validator := (st_revenue_by_validator ?c)
          (q \<mapsto> or_zero (st_revenue_by_validator ?c q) + attached_deposit e)\<rparr>) c'" by (auto simp: call_change_def)
  then show ?thesis
  proof cases
    case quiet
    then show ?thesis using e [of "[]"] by (simp add: quiet_def)
  next
    case enter
    then obtain cont where "promise_validator_per_epoch_settlement_then e (action_validator_id cont) cont ?c = Inr c'" by (auto simp: enters_def)
    note n = entry_change [OF this]
    then have "emits ?c [if va_last_settlement_epoch (fin ?c (action_validator_id cont)) < epoch_height e
        then St_Get_Account (action_validator_id cont) cont else next_effect cont] c'" by (simp add: pool_change_def)
    then obtain x where x: "action_validator_id cont \<noteq> p" "emits ?c [x] c'"
      "x = St_Get_Account (action_validator_id cont) cont \<or> x = next_effect cont" using b n by metis
    then have "receipts_at p (mset (follow [x])) = {#}" by (cases cont) (auto simp: next_effect_def)
    with x(2) show ?thesis by (rule e)
  next
    case store
    have "books_ok ?c" using i by (simp add: st_inv_def)
    from storage_books [OF store this] show ?thesis using e follow_quiet by fastforce
  next
    case pay
    then have "emits ?c [] c'" by (auto simp: quiet_def emits_def)
    then show ?thesis using e [of "[]"] by simp
  qed
qed

lemma receipt_receipts:
  assumes i: "st_inv w" and r: "receipts_at p (sw_receipts w) = {#r#}" "r0 \<in># sw_receipts w" and e: "self_call e" "epoch_height e = sw_epoch w"
    and a: "plausible_answer a" and x: "deliver sha e a r0 (sw_contract w) = Some (c', rs, g)"
  defines "N \<equiv> receipts_at p (sw_receipts (absorb c' g rs (w\<lparr>sw_receipts := sw_receipts w - {#r0#}\<rparr>)))"
  shows "r0 \<noteq> r \<and> N = {#r#} \<or> r0 = r \<and> (N = {#} \<and> \<not> busy c' p \<or> (\<exists>r'. N = {#r'#} \<and> rank r' < rank r \<and> busy c' p))"
proof -
  let ?w = "w\<lparr>sw_receipts := sw_receipts w - {#r0#}\<rparr>"
  have R: "receipts_at p (sw_receipts w) = (if pool_of r0 = Some p then add_mset r0 (receipts_at p (sw_receipts ?w)) else receipts_at p (sw_receipts ?w))"
    using r(2) receipts_at_add [of p r0 "sw_receipts ?w"] by simp
  have N: "N = receipts_at p (sw_receipts ?w) + receipts_at p (mset (rs @ follow es))" if "emits (sw_contract w) es c'" for es
    using absorb_emits(4) [OF _ refl, of ?w es c' p g rs] that by (simp add: N_def)
  have "r \<in># receipts_at p (sw_receipts w)" using r(1) by simp
  then have rp: "pool_of r = Some p" by (simp add: receipts_at_def)
  show ?thesis
  proof (cases "pool_of r0")
    case None
    then obtain q y cb where o: "r0 = Await_Owner q y cb" by (cases r0) auto
    then obtain b where c': "c' = keep (owner_method sha e b cb y (sw_contract w)) (sw_contract w)" "rs = []" using x by (cases a) auto
    have "\<exists>es. emits (sw_contract w) es c' \<and> follow es = []"
      using owner_method_change [of sha e b cb y "sw_contract w"] emits_refl [of "sw_contract w" "sw_contract w"]
      by (cases "owner_method sha e b cb y (sw_contract w)") (fastforce simp: c'(1) keep_def quiet_def purse_def)+
    then show ?thesis using N R r(1) None rp c'(2) by auto
  next
    case (Some q)
    have "due w e r0 q" using i r(2) e Some by (simp add: due_def)
    then have "delivered w r0 q (c', rs, g)" using a x by (rule deliver_delivered)
    then obtain es where es: "emits (sw_contract w) es c'" and h: "handed (sw_epoch w) (rank r0) q (fin c' q) (rs @ follow es)"
      by (auto simp: delivered_def moves_def)
    show ?thesis
    proof (cases "q = p")
      case True
      then have "receipts_at p (sw_receipts ?w) = {#}" "r0 = r" using R r(1) Some by auto
      then show ?thesis using handed_receipts [OF h] N [OF es] True by simp
    next
      case False
      then have "N = {#r#}" using handed_pipe [OF h] N [OF es] R r(1) Some by simp
      then show ?thesis using False Some rp by auto
    qed
  qed
qed

lemma step_receipts:
  assumes i: "st_inv w" and r: "receipts_at p (sw_receipts w) = {#r#}" and s: "st_step sha w w'"
  shows "receipts_at p (sw_receipts w') \<in> {{#r#}, {#}} \<or> (\<exists>r'. receipts_at p (sw_receipts w') = {#r'#} \<and> rank r' < rank r)"
  using s
proof (cases rule: st_step.cases)
  case (call e m c')
  have "busy (sw_contract w) p" using i r by (auto simp: st_inv_def pool_pipe_def split: if_splits)
  then show ?thesis using call_receipts [OF i _ st_method_change] call r by simp
next
  case (receipt e r0 a c' rs g)
  then show ?thesis using receipt_receipts [OF i r, of r0 e a sha c' rs g] by (auto simp: self_call_def)
qed (use r in simp_all)

text \<open>C3. In every reachable state the account holds, or has on its way to a pool, at least what it owes: the buckets and
  stake queues of all pools, the storage deposits, the revenue, and the deposits of the calls that are under way.\<close>

theorem staking_solvent:
  assumes "st_initial w0" and "(st_step sha)\<^sup>*\<^sup>* w0 w"
  shows "int (held_total (sw_contract w) + storage_total (sw_contract w) + revenue_total (sw_contract w) + carry_total (sw_receipts w))
    \<le> sw_cash w + int (sent_total (sw_receipts w))"
  using staking_world.reachable_inv [OF assms] by (simp add: st_inv_def solvent_def money_def)

theorem staking_solvent_witness:
  "st_initial sample_w0 \<and> (st_step zeros)\<^sup>*\<^sup>* sample_w0 sample_w12
   \<and> int (held_total (sw_contract sample_w12) + storage_total (sw_contract sample_w12) + revenue_total (sw_contract sample_w12)
          + carry_total (sw_receipts sample_w12)) \<le> sw_cash sample_w12 + int (sent_total (sw_receipts sample_w12))
   \<and> sent_total (sw_receipts sample_w12) = one_near"
  using staking_solvent [OF sample_run_initial sample_reached] sample_run_initial sample_reached
  by (simp add: sample_w12_def sample_world_def)

text \<open>C4. In every reachable state the shares of a pool are exactly the shares of its users, and the NEAR promised to users
  who have left is covered by what the pool has queued for unstaking, withdrawal and claiming.\<close>

theorem staking_books_balance:
  assumes "st_initial w0" and "(st_step sha)\<^sup>*\<^sup>* w0 w" and "st_validators (sw_contract w) p = Some v"
  shows "va_total_shares v = (\<Sum>x | (x, p) \<in> dom (st_user_validator_shares (sw_contract w)). the (st_user_validator_shares (sw_contract w) (x, p)))
    \<and> (\<Sum>x | (x, p) \<in> dom (st_user_pending_unstake (sw_contract w)).
            sum_list (map tr_amount (the (st_user_pending_unstake (sw_contract w) (x, p)))))
      \<le> va_pending_to_unstake v + va_pending_to_withdraw v + va_pending_to_claim v"
proof
  have f: "fin (sw_contract w) p = financial v" using assms(3) by (rule fin_Some)
  note b = reachable_pool(2) [OF assms(1,2)]
  have "va_total_shares (fin (sw_contract w) p) = user_shares_total p (sw_contract w)" using b by (simp add: books_ok_def)
  then show "va_total_shares v = (\<Sum>x | (x, p) \<in> dom (st_user_validator_shares (sw_contract w)). the (st_user_validator_shares (sw_contract w) (x, p)))"
    using f by (simp add: user_shares_total_def sum_over_def dom_at)
  have "tranches_total p (sw_contract w) \<le> owed (fin (sw_contract w) p)" using b by (simp add: books_ok_def)
  then show "(\<Sum>x | (x, p) \<in> dom (st_user_pending_unstake (sw_contract w)).
            sum_list (map tr_amount (the (st_user_pending_unstake (sw_contract w) (x, p)))))
      \<le> va_pending_to_unstake v + va_pending_to_withdraw v + va_pending_to_claim v"
    using f by (simp add: tranches_total_def sum_over_def dom_at owed_sum_def owed_def)
qed

theorem staking_books_balance_witness:
  "one_near = (\<Sum>x | (x, ''v'') \<in> dom (st_user_validator_shares sample_k12). the (st_user_validator_shares sample_k12 (x, ''v'')))
   \<and> (\<Sum>x | (x, ''v'') \<in> dom (st_user_pending_unstake sample_k12).
            sum_list (map tr_amount (the (st_user_pending_unstake sample_k12 (x, ''v''))))) \<le> 0"
  using staking_books_balance [OF sample_run_initial sample_reached, of "''v''" sample_pool9] sample_pool
  by (simp add: sample_w12_def sample_world_def) (simp add: sample_pool9_def sample_pool8_def sample_pool0_def)

text \<open>C16. In every reachable state exactly the busy pools have a receipt under way, and each of them one; a stake or an unstake
  that was sent to a pool is for the difference of the pool's queues as they are now, and the pool has not been settled in this epoch.\<close>

theorem staking_one_receipt_per_pool:
  assumes "st_initial w0" and "(st_step sha)\<^sup>*\<^sup>* w0 w" and "st_validators (sw_contract w) p = Some v"
  shows "size {#r \<in># sw_receipts w. pool_of r = Some p#} = (if va_tx_status v = Tx_Busy then 1 else 0)
    \<and> (\<forall>n b cont. Await_Stake p n cont \<in># sw_receipts w \<or> Stake_Done p n b cont \<in># sw_receipts w
      \<longrightarrow> va_pending_to_stake v = va_pending_to_unstake v + n \<and> 0 < n \<and> va_last_settlement_epoch v < sw_epoch w)
    \<and> (\<forall>n b cont. Await_Unstake p n cont \<in># sw_receipts w \<or> Unstake_Done p n b cont \<in># sw_receipts w
      \<longrightarrow> va_pending_to_unstake v = va_pending_to_stake v + n \<and> 0 < n \<and> va_last_settlement_epoch v < sw_epoch w)"
proof (intro conjI allI impI)
  have f: "fin (sw_contract w) p = financial v" using assms(3) by (rule fin_Some)
  note i = staking_world.reachable_inv [OF assms(1,2)]
  show "size {#r \<in># sw_receipts w. pool_of r = Some p#} = (if va_tx_status v = Tx_Busy then 1 else 0)"
    using reachable_pool(1) [OF assms(1,2), of p] f by (auto simp: pool_pipe_def receipts_at_def)
  have s: "receipt_ok (sw_epoch w) (financial v) r" if "r \<in># sw_receipts w" "pool_of r = Some p" for r
    using inv_receipt(3) [OF i that] f by simp
  fix n b cont
  {
    assume "Await_Stake p n cont \<in># sw_receipts w \<or> Stake_Done p n b cont \<in># sw_receipts w"
    then have "staking_net (sw_epoch w) v n"
      using s [of "Await_Stake p n cont"] s [of "Stake_Done p n b cont"] by (auto simp: staking_net_def)
    then show "va_pending_to_stake v = va_pending_to_unstake v + n" "0 < n" "va_last_settlement_epoch v < sw_epoch w"
      by (simp_all add: staking_net_def)
  next
    assume "Await_Unstake p n cont \<in># sw_receipts w \<or> Unstake_Done p n b cont \<in># sw_receipts w"
    then have "unstaking_net (sw_epoch w) v n"
      using s [of "Await_Unstake p n cont"] s [of "Unstake_Done p n b cont"] by (auto simp: unstaking_net_def)
    then show "va_pending_to_unstake v = va_pending_to_stake v + n" "0 < n" "va_last_settlement_epoch v < sw_epoch w"
      by (simp_all add: unstaking_net_def)
  }
qed

theorem staking_one_receipt_per_pool_witness:
  "size {#r \<in># sw_receipts sample_w12. pool_of r = Some ''v''#} = 1 \<and> 0 < one_near"
proof -
  have p: "st_validators (sw_contract sample_w12) ''v'' = Some sample_pool9" using sample_pool by (simp add: sample_w12_def sample_world_def)
  have "Await_Stake ''v'' one_near (SettleOnly ''v'') \<in># sw_receipts sample_w12" by (simp add: sample_w12_def sample_world_def)
  moreover have "va_tx_status sample_pool9 = Tx_Busy" by (simp add: sample_pool9_def sample_pool8_def)
  moreover note staking_one_receipt_per_pool [OF sample_run_initial sample_reached p]
  ultimately show ?thesis by metis
qed

text \<open>C17. The pipeline of a busy pool ends: its one receipt has a rank of at most ten and can always be delivered; whatever the pool
  answers, the delivery leaves either an idle pool without a receipt or a busy one with a receipt of smaller rank; and no other step
  changes the receipt.\<close>

theorem staking_pipeline_ends:
  assumes "st_initial w0" and "(st_step sha)\<^sup>*\<^sup>* w0 w" and "st_validators (sw_contract w) p = Some v" and "va_tx_status v = Tx_Busy"
  shows "\<exists>r. receipts_at p (sw_receipts w) = {#r#} \<and> rank r \<le> 10
    \<and> (\<exists>a. plausible_answer a \<and> (\<forall>e. deliver sha e a r (sw_contract w) \<noteq> None))
    \<and> (\<forall>e a c' rs g. epoch_height e = sw_epoch w \<longrightarrow> predecessor e = current_account e \<longrightarrow> attached_deposit e = 0
        \<longrightarrow> plausible_answer a \<longrightarrow> deliver sha e a r (sw_contract w) = Some (c', rs, g)
        \<longrightarrow> (let M = sw_receipts (absorb c' g rs (w\<lparr>sw_receipts := sw_receipts w - {#r#}\<rparr>)) in
             receipts_at p M = {#} \<and> \<not> busy c' p \<or> (\<exists>r'. receipts_at p M = {#r'#} \<and> rank r' < rank r \<and> busy c' p)))
    \<and> (\<forall>w'. st_step sha w w' \<longrightarrow> receipts_at p (sw_receipts w') \<in> {{#r#}, {#}}
        \<or> (\<exists>r'. receipts_at p (sw_receipts w') = {#r'#} \<and> rank r' < rank r))"
proof -
  note i = staking_world.reachable_inv [OF assms(1,2)]
  obtain r where r: "receipts_at p (sw_receipts w) = {#r#}"
    using reachable_pool(1) [OF assms(1,2), of p] assms(4) fin_Some [OF assms(3)] by (auto simp: pool_pipe_def)
  then have "r \<in># receipts_at p (sw_receipts w)" by simp
  then have m: "r \<in># sw_receipts w" "pool_of r = Some p" by (simp_all add: receipts_at_def)
  have "(\<forall>e. deliver sha e (Ans_Account None) r (sw_contract w) \<noteq> None) \<or> (\<forall>e. deliver sha e (Ans_Ok False) r (sw_contract w) \<noteq> None)
    \<or> (\<forall>e. deliver sha e Ans_None r (sw_contract w) \<noteq> None)"
    using m(2) by (cases r) (auto split: sum.split)
  moreover have "plausible_answer (Ans_Account None)" "plausible_answer (Ans_Ok False)" "plausible_answer Ans_None" by simp_all
  ultimately have "\<exists>a. plausible_answer a \<and> (\<forall>e. deliver sha e a r (sw_contract w) \<noteq> None)" by blast
  moreover have "let M = sw_receipts (absorb c' g rs (w\<lparr>sw_receipts := sw_receipts w - {#r#}\<rparr>)) in
       receipts_at p M = {#} \<and> \<not> busy c' p \<or> (\<exists>r'. receipts_at p M = {#r'#} \<and> rank r' < rank r \<and> busy c' p)"
    if d: "epoch_height e = sw_epoch w" "predecessor e = current_account e" "attached_deposit e = 0" "plausible_answer a"
      "deliver sha e a r (sw_contract w) = Some (c', rs, g)" for e a c' rs g
    using receipt_receipts [OF i r m(1) _ d(1,4,5)] d(2,3) by (simp add: self_call_def Let_def)
  moreover have "rank r \<le> 10" by (cases r) simp_all
  ultimately show ?thesis using r step_receipts [OF i r] by blast
qed

theorem staking_pipeline_ends_witness:
  "\<exists>r. receipts_at ''v'' (sw_receipts sample_w12) = {#r#} \<and> rank r \<le> 10"
proof -
  have "st_validators (sw_contract sample_w12) ''v'' = Some sample_pool9" "va_tx_status sample_pool9 = Tx_Busy"
    using sample_pool by (simp_all add: sample_w12_def sample_world_def sample_pool9_def sample_pool8_def)
  from staking_pipeline_ends [OF sample_run_initial sample_reached this] show ?thesis by blast
qed

section \<open>Shares\<close>

lemma net_stake_exact:
  assumes "va_total_staked_balance v + va_pending_to_stake v < 2 ^ 128" and "va_pending_to_unstake v + va_pending_to_withdraw v < 2 ^ 128"
  shows "net_stake_yocto v = va_total_staked_balance v + va_pending_to_stake v - (va_pending_to_unstake v + va_pending_to_withdraw v)"
  using assms by (simp add: net_stake_yocto_def gross_stake_yocto_def pending_not_in_contract_yocto_def saturating_add_exact saturating_sub_def)

lemma stake_shares:
  assumes "internal_stake x p d c = Inr (c', s)" and "st_validators c p = Some v" and "0 < va_total_shares v"
  shows "0 < net_stake_yocto v \<and> s = d * va_total_shares v div net_stake_yocto v
    \<and> st_validators c' p = Some (v\<lparr>va_total_shares := saturating_add 128 (va_total_shares v) s, va_pending_to_stake := va_pending_to_stake v + d\<rparr>)
    \<and> st_user_validator_shares c' (x, p) = Some (saturating_add 128 (or_zero (st_user_validator_shares c (x, p))) s)"
  using assms by (auto simp: internal_stake_def res_simps Let_def internal_set_validator_def mint_shares_def as_u128_def split: if_splits)

lemma unstake_value:
  assumes "internal_unstake e x p s c = Inr (c', a)" and "st_validators c p = Some v"
  shows "0 < net_stake_yocto v \<and> 0 < va_total_shares v \<and> s \<le> va_total_shares v \<and> a = s * net_stake_yocto v div va_total_shares v
    \<and> st_validators c' p = Some (v\<lparr>va_total_shares := va_total_shares v - s, va_pending_to_unstake := va_pending_to_unstake v + a\<rparr>)"
  using assms
  by (auto simp: internal_unstake_def res_simps Let_def internal_set_validator_def near_from_shares_def as_u128_def split: if_splits)

text \<open>C34. Minting and burning shares never lowers the NEAR behind one share, so no user gains at the expense of the others
  (\<open>N / S \<le> N' / S'\<close>, multiplied out).\<close>

theorem share_price_never_falls:
  assumes "st_validators c p = Some v" and "st_validators c' p = Some v'" and "0 < va_total_shares v"
    and "internal_stake x p d c = Inr (c', s) \<or> internal_unstake e x p s c = Inr (c', d)"
    and "va_total_staked_balance v' + va_pending_to_stake v' < 2 ^ 128" and "va_pending_to_unstake v' + va_pending_to_withdraw v' < 2 ^ 128"
    and "va_total_shares v' < 2 ^ 128 - 1"
  shows "net_stake_yocto v * va_total_shares v' \<le> net_stake_yocto v' * va_total_shares v"
  using assms(4)
proof
  let ?N = "net_stake_yocto v" and ?S = "va_total_shares v"
  assume "internal_stake x p d c = Inr (c', s)"
  note u = stake_shares [OF this assms(1,3)]
  have v': "v' = v\<lparr>va_total_shares := saturating_add 128 ?S s, va_pending_to_stake := va_pending_to_stake v + d\<rparr>" using u assms(2) by simp
  have S': "va_total_shares v' = ?S + s" using assms(7) v' by (auto simp: saturating_add_def min_def split: if_splits)
  have "?N = va_total_staked_balance v + va_pending_to_stake v - (va_pending_to_unstake v + va_pending_to_withdraw v)"
    using assms(5,6) v' by (intro net_stake_exact) simp_all
  then have N': "net_stake_yocto v' = ?N + d" using net_stake_exact [OF assms(5,6)] u v' by simp
  have "?N * s \<le> d * ?S" using u by (metis div_times_less_eq_dividend mult.commute)
  then show ?thesis unfolding S' N' by (simp add: algebra_simps)
next
  let ?N = "net_stake_yocto v" and ?S = "va_total_shares v"
  assume "internal_unstake e x p s c = Inr (c', d)"
  note u = unstake_value [OF this assms(1)]
  have v': "v' = v\<lparr>va_total_shares := ?S - s, va_pending_to_unstake := va_pending_to_unstake v + d\<rparr>" using u assms(2) by simp
  have S': "va_total_shares v' = ?S - s" using v' by simp
  have "?N = va_total_staked_balance v + va_pending_to_stake v - (va_pending_to_unstake v + va_pending_to_withdraw v)"
    using assms(5,6) v' by (intro net_stake_exact) simp_all
  then have N': "net_stake_yocto v' = ?N - d" using net_stake_exact [OF assms(5,6)] v' by simp
  have "d * ?S \<le> s * ?N" using u by (metis div_times_less_eq_dividend)
  then show ?thesis unfolding S' N' by (simp add: diff_mult_distrib diff_mult_distrib2 mult.commute diff_le_mono2)
qed

theorem share_price_never_falls_witness:
  "internal_stake ''al'' ''v'' 51 price_sample = Inr (price_sample1, 25)
   \<and> net_stake_yocto price_pool * 125 \<le> net_stake_yocto price_pool1 * va_total_shares price_pool"
  using share_price_never_falls [OF price_sample_pools _ disjI1 [OF price_sample_stake]] price_sample_stake
  by (simp add: price_pool1_def) (simp add: price_pool_def sample_pool0_def)

lemma round_trip_bounds:
  fixes d N S :: nat
  assumes "0 < N" "0 < S"
  defines "s \<equiv> d * S div N"
  shows "s * (N + d) div (S + s) \<le> d" and "d \<le> s * (N + d) div (S + s) + N div (S + s) + 1"
proof -
  have up: "n < t * (n div t) + t" if "0 < t" for n t :: nat
    using dividend_less_div_times [OF that, of n] by (simp add: mult.commute add.commute)
  have s: "N * s \<le> d * S" "d * S < N * s + N" unfolding s_def using up [OF assms(1)] by (rule_tac times_div_less_eq_dividend, blast)
  have "s * (N + d) \<le> d * (S + s)" using s(1) by (simp add: algebra_simps)
  from div_le_mono [OF this, of "S + s"] show "s * (N + d) div (S + s) \<le> d" using assms(2) by simp
  let ?T = "S + s" and ?q = "s * (N + d) div (S + s)" and ?k = "N div (S + s)"
  have "0 < ?T" using assms(2) by simp
  note 1 = up [OF this, of "s * (N + d)"] up [OF this, of N]
  have "d * ?T = d * S + d * s" by (simp add: algebra_simps)
  also have "\<dots> < s * (N + d) + N" using s(2) by (simp add: algebra_simps)
  also have "\<dots> < ?T * (?q + ?k + 2)" using 1 by (simp add: algebra_simps)
  finally have "?T * d < ?T * (?q + ?k + 2)" by (simp only: mult.commute)
  then have "d < ?q + ?k + 2" by (simp only: mult_less_cancel1)
  then show "d \<le> ?q + ?k + 1" by simp
qed

text \<open>C35. Shares that are minted and burnt again are worth what was paid for them, less at most the price of one share rounded up.\<close>

theorem stake_unstake_roundtrip:
  assumes "st_validators c p = Some v" and "0 < va_total_shares v"
    and "internal_stake x p d c = Inr (c1, s)" and "internal_unstake e x p s c1 = Inr (c2, a)"
    and "va_total_staked_balance v + va_pending_to_stake v + d < 2 ^ 128" and "va_pending_to_unstake v + va_pending_to_withdraw v < 2 ^ 128"
    and "va_total_shares v + s < 2 ^ 128"
  shows "a \<le> d \<and> d \<le> a + net_stake_yocto v div (va_total_shares v + s) + 1"
proof -
  let ?N = "net_stake_yocto v" and ?S = "va_total_shares v"
  note u = stake_shares [OF assms(3,1,2)]
  let ?v = "v\<lparr>va_total_shares := saturating_add 128 ?S s, va_pending_to_stake := va_pending_to_stake v + d\<rparr>"
  have v1: "st_validators c1 p = Some ?v" using u by simp
  have S1: "saturating_add 128 ?S s = ?S + s" using assms(7) by (rule saturating_add_exact)
  have "?N = va_total_staked_balance v + va_pending_to_stake v - (va_pending_to_unstake v + va_pending_to_withdraw v)"
    using assms(5,6) by (intro net_stake_exact) simp_all
  moreover have "net_stake_yocto ?v = va_total_staked_balance v + (va_pending_to_stake v + d) - (va_pending_to_unstake v + va_pending_to_withdraw v)"
    using net_stake_exact [of ?v] assms(5,6) by simp
  ultimately have N1: "net_stake_yocto ?v = ?N + d" using u by simp
  have "a = s * (?N + d) div (?S + s)" using unstake_value [OF assms(4) v1] N1 S1 by simp
  then show ?thesis using round_trip_bounds [of ?N ?S d] u assms(2) by simp
qed

theorem stake_unstake_roundtrip_witness:
  "\<exists>c2. internal_unstake (at_call ''al'' 0 1) ''al'' ''v'' 25 price_sample1 = Inr (c2, 50)
     \<and> 50 \<le> (51 :: nat) \<and> 51 \<le> 50 + net_stake_yocto price_pool div (va_total_shares price_pool + 25) + 1"
proof -
  obtain c2 where u: "internal_unstake (at_call ''al'' 0 1) ''al'' ''v'' 25 price_sample1 = Inr (c2, 50)" using price_sample_unstake by blast
  have "0 < va_total_shares price_pool" "va_total_staked_balance price_pool + va_pending_to_stake price_pool + 51 < 2 ^ 128"
    "va_pending_to_unstake price_pool + va_pending_to_withdraw price_pool < 2 ^ 128" "va_total_shares price_pool + 25 < 2 ^ 128"
    by (simp_all add: price_pool_def sample_pool0_def)
  from stake_unstake_roundtrip [OF price_sample_pools(1) this(1) price_sample_stake u this(2-4)] u show ?thesis by blast
qed

section \<open>Refunds\<close>

lemma release_refunds:
  assumes "payable_refund cont = Some (x, n)" and "st_validators c p \<noteq> None" and "self_call e"
  shows "\<exists>c'. release_of cont e False p cont c = Inr c' \<and> pool_change c p ((fin c p)\<lparr>va_tx_status := Tx_Idle\<rparr>) [St_Transfer x n] c'"
proof -
  have r: "\<exists>c'. refund_payable_pipeline p x n (log_epoch_operation a p c) = Inr c'
     \<and> pool_change c p ((fin c p)\<lparr>va_tx_status := Tx_Idle\<rparr>) [St_Transfer x n] c'" for a
  proof -
    let ?d = "log_epoch_operation a p c"
    have d: "pool_change c p (fin c p) [] ?d" by (rule pool_change_log [OF pool_change_refl])
    then have "st_validators ?d p \<noteq> None" "fin ?d p = fin c p" using assms(2) by (auto simp: pool_change_def)
    then obtain c' where "refund_payable_pipeline p x n ?d = Inr c'"
      "pool_change ?d p ((fin c p)\<lparr>va_tx_status := Tx_Idle\<rparr>) [St_Transfer x n] c'"
      using refund_change [of ?d p x n] by metis
    then show ?thesis using pool_change_trans [OF d] by fastforce
  qed
  show ?thesis using assms(1,3) r
    by (cases cont) (auto simp: on_epoch_pipeline_release_with_lock_id_def on_epoch_pipeline_release_with_farm_position_def
      on_epoch_pipeline_release_with_subscription_update_outcome_def release_or_refund_def self_call_asserts)
qed

text \<open>A delivery that ends the pipeline of a pool with a transfer and changes nothing else in the books.\<close>

definition refunds :: "hash_fun \<Rightarrow> env \<Rightarrow> answer \<Rightarrow> receipt \<Rightarrow> validator_id \<Rightarrow> account_id \<Rightarrow> nat \<Rightarrow> staking \<Rightarrow> bool" where
  "refunds sha e a r p x n c \<longleftrightarrow> (\<exists>c'. deliver sha e a r c = Some (c', [], 0)
     \<and> pool_change c p ((fin c p)\<lparr>va_tx_status := Tx_Idle\<rparr>) [St_Transfer x n] c')"

lemma failed_query_refunds:
  assumes "payable_refund cont = Some (x, n)" and "st_validators c p = Some v" and "self_call e"
  shows "refunds sha e (Ans_Account None) (Await_Account p cont) p x n c"
proof -
  obtain c' where "refund_payable_pipeline p x n c = Inr c'" "pool_change c p ((fin c p)\<lparr>va_tx_status := Tx_Idle\<rparr>) [St_Transfer x n] c'"
    using refund_change [of c p x n] assms(2) by auto
  then show ?thesis using assms(1,3) by (simp add: refunds_def on_epoch_settlement_after_pool_account_def self_call_asserts keep_def)
qed

lemma failed_tail_refunds:
  assumes "payable_refund cont = Some (x, n)" and "st_validators c p = Some v" and "self_call e"
  shows "refunds sha e Ans_None (Release p False cont) p x n c"
  using release_refunds [OF assms(1) _ assms(3), of c p] assms(2) by (auto simp: refunds_def keep_def)

text \<open>C36. A caller who locks, stakes or changes a subscription gets the whole deposit back if the pipeline fails. The accepted call sends one
  receipt. Whatever receipt follows from it, by any deliveries in any states: if it is the question for the account and the pool does
  not answer it, or the release after a last step that panicked (which changed nothing), then exactly what was attached to
  the call goes to its caller, the pool is idle again and the rest of the books stays as it was.\<close>

theorem failed_payment_refunded:
  assumes "st_method sha e0 m c0 = Inr c1" and "payable m"
  shows "\<exists>r0. follow (new_effects c0 c1) = [r0]
    \<and> (\<forall>r e c p cont v. (succeeds sha)\<^sup>*\<^sup>* r0 r \<longrightarrow> predecessor e = current_account e \<longrightarrow> attached_deposit e = 0 \<longrightarrow> st_validators c p = Some v \<longrightarrow>
        (r = Await_Account p cont \<longrightarrow> refunds sha e (Ans_Account None) r p (predecessor e0) (attached_deposit e0) c)
      \<and> (r = Tail p cont \<longrightarrow> (\<forall>err. tail_method sha e cont c = Inl err \<longrightarrow> deliver sha e Ans_None r c = Some (c, [Release p False cont], 0)))
      \<and> (r = Release p False cont \<longrightarrow> refunds sha e Ans_None r p (predecessor e0) (attached_deposit e0) c))"
proof -
  obtain r0 act where r0: "follow (new_effects c0 c1) = [r0]" "chain_of r0 = Some (action_validator_id act, act)"
    and act: "payable_refund act = Some (predecessor e0, attached_deposit e0)"
    using payable_starts [OF assms] .
  have "(r = Await_Account p cont \<longrightarrow> refunds sha e (Ans_Account None) r p (predecessor e0) (attached_deposit e0) c)
      \<and> (r = Tail p cont \<longrightarrow> (\<forall>err. tail_method sha e cont c = Inl err \<longrightarrow> deliver sha e Ans_None r c = Some (c, [Release p False cont], 0)))
      \<and> (r = Release p False cont \<longrightarrow> refunds sha e Ans_None r p (predecessor e0) (attached_deposit e0) c)"
    if "(succeeds sha)\<^sup>*\<^sup>* r0 r" "predecessor e = current_account e" "attached_deposit e = 0" "st_validators c p = Some v" for r e c p cont v
    using chain_kept [OF that(1) r0(2)] that(2-4) act failed_query_refunds failed_tail_refunds by (auto simp: self_call_def)
  then show ?thesis using r0(1) by blast
qed

theorem failed_payment_refunded_witness:
  "st_method zeros (at_call ''bob'' one_near 1) (Call_Lock (Some sample_qid) None (Some 50)) sample_k6 = Inr sample_k7
   \<and> refunds zeros (at_call ''hos'' 0 1) (Ans_Account None) (Await_Account ''v'' sample_action) ''v'' ''bob'' one_near sample_k7"
proof -
  have call: "st_method zeros (at_call ''bob'' one_near 1) (Call_Lock (Some sample_qid) None (Some 50)) sample_k6 = Inr sample_k7"
    using sample_lock_call by simp
  have "new_effects sample_k6 sample_k7 = [St_Get_Account ''v'' sample_action]" by (simp add: new_effects_def sample_k7_def st_emit_def)
  moreover have "st_validators sample_k7 ''v'' = Some (sample_pool0\<lparr>va_tx_status := Tx_Busy\<rparr>)" by (simp add: sample_k7_def st_emit_def)
  ultimately show ?thesis using failed_payment_refunded [OF call] call by (auto simp: at_call_def)
qed

section \<open>The billing calendar\<close>

text \<open>C38. The conversion of days into dates is the Gregorian calendar: day \<open>n\<close> is the date reached from 1970-01-01 by \<open>n\<close> steps to the next
  day, and the two conversions are inverse to each other.\<close>

theorem calendar_is_gregorian:
  "civil_from_days (int n) = (next_date ^^ n) (1970, 1, 1)
   \<and> (case civil_from_days (int n) of (y, m, d) \<Rightarrow> days_from_civil y m d) = int n
   \<and> (valid_date (y, m, d) \<longrightarrow> civil_from_days (days_from_civil y m d) = (y, m, d))"
  using civil_from_days_iterates [of n] civil_from_days_from_civil by blast

theorem calendar_is_gregorian_witness:
  "civil_from_days (days_from_civil 2024 2 29) = (2024, 2, 29) \<and> civil_from_days (int 59) = (next_date ^^ 59) (1970, 1, 1)"
  using calendar_is_gregorian [of 59 2024 2 29] by (simp add: last_day_of_month_def is_leap_year_def)

text \<open>C39. A billing month ends at the same time of day on the anchor day of the next month, or on the last day of that month if it is
  shorter; this is later than its start, and the last moment of 64 bits stands for anything beyond.\<close>

theorem billing_month_end:
  assumes "civil_from_days (int (start div ST_NS_PER_DAY)) = (y, m, d)" and "1 \<le> anchor" and "anchor \<le> 31"
  defines "y' \<equiv> if m = 12 then y + 1 else y" and "m' \<equiv> if m = 12 then 1 else m + 1"
  defines "t \<equiv> days_from_civil y' m' (min (int anchor) (last_day_of_month y' m')) * int ST_NS_PER_DAY + int (start mod ST_NS_PER_DAY)"
  shows "add_months_stripe_style anchor 1 start = (if t < 2 ^ 64 then nat t else 2 ^ 64 - 1) \<and> int start < t"
proof -
  have v: "1 \<le> m" "m \<le> 12" using valid_civil [of "start div ST_NS_PER_DAY"] assms(1) by simp_all
  define j where "j = y * 12 + (m - 1) + 1"
  have j: "j div 12 = y' \<and> j mod 12 + 1 = m'"
    using v by (cases rule: month_cases) (simp_all add: j_def y'_def m'_def)
  have a: "max 1 (min anchor 31) = anchor" using assms(2,3) by simp
  have m': "1 \<le> m'" "m' \<le> 12" using v by (auto simp: m'_def)
  have "days_from_civil y' m' (min (int anchor) (last_day_of_month y' m')) = month_start j + (min (int anchor) (month_length j) - 1)"
    using days_day [OF m', of y' "min (int anchor) (last_day_of_month y' m')"] j by (simp add: month_start_def month_length_def)
  then have t: "t = (month_start j + (min (int (max 1 (min anchor 31))) (month_length j) - 1)) * int ST_NS_PER_DAY + int (start mod ST_NS_PER_DAY)"
    unfolding t_def a by simp
  have "y * 12 + (m - 1) + int 1 = j" by (simp add: j_def)
  from add_months_target [OF assms(1) zero_less_one, of anchor, unfolded this] show ?thesis unfolding t by (rule conjI)
qed

theorem billing_month_end_witness:
  "civil_from_days (int (30 * ST_NS_PER_DAY div ST_NS_PER_DAY)) = (1970, 1, 31)
   \<and> int (30 * ST_NS_PER_DAY) < days_from_civil 1970 2 28 * int ST_NS_PER_DAY"
proof -
  have d: "civil_from_days (int (30 * ST_NS_PER_DAY div ST_NS_PER_DAY)) = (1970, 1, 31)"
    using civil_from_days_from_civil [of 1970 1 31]
    by (simp add: ST_NS_PER_DAY_def days_from_civil_sum days_before_year_def days_before_month_def last_day_of_month_def)
  have "last_day_of_month 1970 2 = 28" by (simp add: last_day_of_month_def is_leap_year_def)
  then show ?thesis using billing_month_end [OF d, of 31] d by simp
qed

text \<open>C40. The loop that looks for the current billing period ends: it returns the period that contains the given time, which starts a
  whole number of billing months after the first one.\<close>

theorem billing_loop_ends:
  assumes "start \<le> now" and "now < 2 ^ 64 - 1"
  shows "\<exists>from until k. projected_subscription_window_from anchor start now = Inr (from, until)
    \<and> from \<le> now \<and> now < until \<and> until = add_months_stripe_style anchor 1 from
    \<and> from = (add_months_stripe_style anchor 1 ^^ k) start"
proof -
  obtain w k where w: "projected_subscription_window_from anchor start now = Inr w" "billing_period_at anchor now w"
    "fst w = (add_months_stripe_style anchor 1 ^^ k) start" using projected_window [OF assms(2,1), of anchor] by blast
  obtain f u where "w = (f, u)" by (cases w)
  then show ?thesis using w by (auto simp: billing_period_at_def)
qed

theorem billing_loop_ends_witness:
  "\<exists>from until k. projected_subscription_window_from 31 0 (100 * ST_NS_PER_DAY) = Inr (from, until)
    \<and> from \<le> 100 * ST_NS_PER_DAY \<and> 100 * ST_NS_PER_DAY < until \<and> from = (add_months_stripe_style 31 1 ^^ k) 0"
proof -
  have "100 * ST_NS_PER_DAY < 2 ^ 64 - 1" by (simp add: ST_NS_PER_DAY_def)
  from billing_loop_ends [OF le0 this] show ?thesis by blast
qed

end
