(* ===== verification/Spec2Isabelle.thy ===== *)
theory Spec2Isabelle
  imports Composition Staking_Properties
begin

text \<open>
  Verification of the NEAR House-of-Stake contracts.

  \<^bold>\<open>The program.\<close> Owners put NEAR into a \<^emph>\<open>lockup\<close> account (\<open>lockup-contract\<close>), lock part of it and may stake it with a
  staking pool. The \<^emph>\<open>veNEAR\<close> contract (\<open>venear-contract\<close>) deploys the lockups, learns from each of them how much is
  locked, lets the voting power grow with time and lets owners delegate shares of it; it keeps the accounts in a
  Merkle tree (\<open>merkle-tree\<close>) and hands out snapshots and inclusion proofs. The \<^emph>\<open>voting\<close> contract
  (\<open>voting-contract\<close>) takes proposals through review, queue, ballot, timelock and execution; a voter shows
  an inclusion proof against the snapshot of the proposal. The crate \<open>common\<close> has the balances, the accounts and
  the growth of voting power. The \<^emph>\<open>staking\<close> contract (\<open>staking-contract\<close>) pools the NEAR of many users at allowlisted staking
  pools, in exchange for shares, and sells products, subscriptions and farm positions against the stake; every action on a pool first
  settles the pool for the epoch in a chain of promises, the settlement pipeline.

  \<^bold>\<open>How the code is translated.\<close> A method is a function from the environment of the call (\<open>env\<close>: predecessor, attached
  deposit, block time, balance), its arguments and the state of the contract to \<open>panic + state\<close>; \<open>require!\<close>, \<open>expect\<close>,
  \<open>unwrap\<close> and every arithmetic overflow (the contracts are built with overflow checks) are \<open>Inl\<close>, sequencing is
  \<open>and_then\<close>, and a rejected call leaves the state as it was. Unsigned integers are \<open>nat\<close> with their width written out at each
  operation (\<open>add_u 128\<close>); bit operations of the Merkle tree use the bit library. Promises, transfers, logs and events are
  appended to an outbox of the state in the order in which the code makes them; the callback of a promise is a method
  that is called later with its result. Storage maps are partial functions, vectors are lists. The text of a panic is kept up to the
  amounts formatted into it. Parameters, named in the records \<open>hasher\<close>, \<open>venear_ext\<close>, \<open>voting_ext\<close> and as \<open>valid\<close>, stand
  for host functions and libraries: the hash, the serialisation of an account, the storage used by a state, the
  validity of an account name; \<open>sha\<close> is the hash behind the generated identifiers of the staking contract.

  \<^bold>\<open>Theories\<close>, in the order in which they build on each other:
  \<^item> \<open>Near_Prelude\<close>: results, checked arithmetic, environments, sequences of calls, and the locales for what several
    components share: \<open>message_machine\<close> (an invariant kept by every message of a contract holds after every sequence of
    messages), \<open>transition_system\<close> (an invariant kept by every step holds in every reachable state) and
    \<open>lazily_updated\<close> (values that are brought up to date on access do not depend on when that happened). Each is
    interpreted on the contracts.
  \<^item> \<open>Balances\<close> (\<open>common/src/venear.rs\<close>, \<open>lib.rs\<close>, \<open>bps.rs\<close>): growth of voting power is exact up to the
    defined rounding, additive over time, and commutes with delegation.
  \<^item> \<open>Accounts\<close> (\<open>common/src/account.rs\<close>, \<open>global_state.rs\<close>, \<open>lockup_update.rs\<close>).
  \<^item> \<open>Merkle_Tree\<close> (\<open>merkle-tree/src/lib.rs\<close>): the incrementally maintained root is the root of a reference tree; proofs are
    complete, and sound up to hash collisions; the snapshot is the state of an earlier block.
  \<^item> \<open>Venear\<close> (\<open>venear-contract/src\<close>, all files) with \<open>Venear_Ledger\<close>, \<open>Venear_Invariant\<close> and \<open>Venear_Properties\<close>: an abstract
    ledger (who owns what and delegates which shares) from which every pooled amount is determined; each
    operation refines an operation on the ledger; the invariant holds after every sequence of calls; the total supply is the sum of
    all balances; updates and delegations never get stuck.
  \<^item> \<open>Voting_Proposal\<close> and \<open>Voting\<close> (\<open>voting-contract/src\<close>, all files), \<open>Voting_Queue\<close> (advancing the queue implements an
    abstract schedule that fixes the order and the start times), \<open>Voting_Tally\<close>, \<open>Voting_Invariant\<close>, \<open>Voting_Steps\<close>, \<open>Voting_Run\<close> (every method keeps the
    invariant), \<open>Voting_World\<close> (the contract with its pending callbacks as a step relation), \<open>Voting_Sample\<close> (a
    run evaluated step by step, for the witnesses), \<open>Voting_Availability\<close> and \<open>Voting_Properties\<close>.
  \<^item> \<open>Lockup\<close> (\<open>lockup-contract/src\<close>, all files but the gas constants), \<open>Lockup_World\<close> (the contract with the balance of its
    account, the clock, the staking pool and the NEAR on its way as a step relation), \<open>Lockup_Sample\<close> and \<open>Lockup_Properties\<close>: what is
    locked is backed and stays locked for the unlock period, except that a withdrawal can be counted twice (below).
  \<^item> \<open>Composition\<close>: the lockup's updates at the veNEAR contract, and the veNEAR contract's snapshots at the voting
    contract.

  \<^item> \<open>Staking_State\<close> (\<open>types.rs\<close>, \<open>config.rs\<close>, \<open>lib.rs\<close>, \<open>utils.rs\<close> of \<open>staking-contract/src\<close>), \<open>Staking_Pool\<close> (\<open>pause.rs\<close>, \<open>governance.rs\<close>,
    \<open>accounts.rs\<close>, \<open>validators.rs\<close>), \<open>Staking_Epoch\<close> (\<open>epoch.rs\<close>, \<open>withdraw.rs\<close>), \<open>Staking_Catalog\<close> (\<open>ids.rs\<close>, \<open>products.rs\<close>, \<open>prices.rs\<close>,
    \<open>payments.rs\<close>), \<open>Staking_Farm\<close> (\<open>stake.rs\<close>), \<open>Staking_Calendar\<close> and \<open>Staking_Subscription\<close> (\<open>subscriptions.rs\<close>; the calendar is
    the Gregorian one and its loop ends), \<open>Staking_Lock\<close> (\<open>lock.rs\<close>, \<open>unlock.rs\<close>, \<open>upgrade.rs\<close>): the methods of the staking contract.
  \<^item> \<open>Staking_World\<close>: the staking contract with the receipts of its promises and the NEAR of its account as a step relation; a pool may
    answer a receipt in any way and at any time.
  \<^item> \<open>Staking_Frame\<close>, \<open>Staking_Pipeline\<close>, \<open>Staking_Calls\<close>: what each method changes, as one of a few kinds of change (nothing of the
    books, one pool, storage or revenue, minting and burning shares, a payout). \<open>Staking_Ledger\<close>: what each kind does to the sums of the
    books. \<open>Staking_Invariant\<close>: the books are exact, each busy pool has exactly one receipt, and the account is solvent; every step keeps
    this. \<open>Staking_Refund\<close>: the caller and the deposit of a payable call reach the last receipt of its pipeline. \<open>Staking_Sample\<close> is a run for the witnesses, \<open>Staking_Properties\<close> states the results.

  \<^bold>\<open>What is assumed.\<close> Theorems about runs quantify over all sequences of calls with non-decreasing block times; callbacks
  that the code marks private are called by the contract's own promises only. A theorem that a method returns has hypotheses
  that amounts and times are in the range of their types with the room the statement names. In \<open>Lockup_World\<close> a staking pool
  credits or refunds a deposit, pays a withdrawal from what it holds and reports its holdings; payments and refunds are receipts of
  their own that arrive before or after the callback. Runs of a contract start with its initialisation by the present code and do not
  include a migration, so proposals stored by earlier versions of the voting contract, whose conversion is
  modelled, are not among the reachable states, nor is the effect of \<open>migrate_state\<close> of veNEAR on a run. In the
  voting properties a roll gives every account one voting power per snapshot; \<open>Composition\<close> shows that the
  snapshots of the veNEAR contract give such a roll unless two inputs with the same hash are among the few that are compared.
  In \<open>Staking_World\<close> all NEAR that the account ever holds is below \<open>2 ^ 127\<close> (there are less than \<open>2 ^ 110\<close> yoctoNEAR), the withdrawal
  queue and the shares of a pool do not saturate, a pool reports balances below \<open>2 ^ 127\<close> and pays a withdrawal that it reports as done.
  No definition uses fuel: loops are over lists or bounded ranges, identifiers are retried 64 times as in the code, and the loop over
  billing months is a partial function that is shown to return.

  \<^bold>\<open>What the theorems show to go wrong.\<close> A failed balance query leaves a lockup busy for good (\<open>failed_query_blocks\<close>). Locking NEAR
  between the payment of a withdrawal and its callback counts the amount twice, so more is locked and reported to veNEAR than there is
  (\<open>withdrawal_counted_twice\<close>); \<open>lw_double\<close> of \<open>Lockup_World\<close> records how much, and the backing holds up to it. The voting
  contract pays the actions of executed proposals from the account that holds the bonds and reserves nothing for
  them: \<open>bonds_are_covered\<close> therefore has the cost of the executed actions beside the deposits.

  \<^bold>\<open>Not modelled.\<close> Gas, storage prefixes, JSON and Borsh encodings; the deployment of new code, which is an effect only;
  the view of the token metadata, a constant; the text of the staking contract's events, which are effects with the
  values of the payload; the branches of the staking contract for native tests (the model follows the \<open>wasm32\<close> branches); its
  command-line client, which only does input and output; test doubles and tests.
\<close>

end
